(* ===== verification/Prelude.thy ===== *)
theory Prelude
  imports Main "HOL-Library.Word" "HOL-Library.Log_Nat" "HOL-Library.Signed_Division"
begin

text \<open>
  Shared ground of the development: the C numbers the compositor computes with (\<open>double\<close> products
  rounded to 53 bits, \<open>lround\<close>, the narrowing casts to \<open>int\<close> and \<open>int16_t\<close>), the collections of facts
  the components add to, and the contract of operations that leave an invariant alone.
\<close>

section \<open>Collections of facts\<close>

named_theorems frame_simps \<open>which record fields an operation leaves alone\<close>
named_theorems frame_intros \<open>operations that are frames, without a condition\<close>
named_theorems keeps_intros \<open>handlers that keep the invariant of their state\<close>

section \<open>Frames\<close>

text \<open>
  Most operations do not touch what an invariant speaks of. A frame is a preorder on states that
  keeps the invariant and a view of the state; a handler, which may fail to return, keeps them too
  if all its parts do.
\<close>

locale frame_contract =
  fixes frame :: "'s \<Rightarrow> 's \<Rightarrow> bool"
    and inv :: "'s \<Rightarrow> bool"
    and view :: "'s \<Rightarrow> 'v"
  assumes frame_refl: "frame s s"
    and frame_trans: "frame s t \<Longrightarrow> frame t u \<Longrightarrow> frame s u"
    and frame_inv: "frame s t \<Longrightarrow> inv s \<Longrightarrow> inv t"
    and frame_view: "frame s t \<Longrightarrow> view t = view s"
begin

lemma fold_frame: "(\<And>x s. frame s (f x s)) \<Longrightarrow> frame s (fold f xs s)"
proof (induction xs arbitrary: s)
  case (Cons x xs)
  from frame_trans[OF Cons.prems Cons.IH[OF Cons.prems]] show ?case by simp
qed (simp add: frame_refl)

definition keeps :: "('s \<Rightarrow> 's option) \<Rightarrow> bool" where
  "keeps h \<longleftrightarrow> (\<forall>s t. inv s \<longrightarrow> h s = Some t \<longrightarrow> inv t \<and> view t = view s)"

lemma keepsI: "(\<And>s t. inv s \<Longrightarrow> h s = Some t \<Longrightarrow> inv t \<and> view t = view s) \<Longrightarrow> keeps h"
  by (simp add: keeps_def)

lemma keepsD: "keeps h \<Longrightarrow> inv s \<Longrightarrow> h s = Some t \<Longrightarrow> inv t \<and> view t = view s"
  by (simp add: keeps_def)

lemma keeps_frame: "(\<And>s t. h s = Some t \<Longrightarrow> frame s t) \<Longrightarrow> keeps h"
  unfolding keeps_def using frame_inv frame_view by blast

lemma keeps_bind:
  assumes "keeps h" "keeps g"
  shows "keeps (\<lambda>s. Option.bind (h s) g)"
proof (rule keepsI)
  fix s t assume i: "inv s" and "Option.bind (h s) g = Some t"
  then obtain a where a: "h s = Some a" "g a = Some t" by (auto simp: bind_eq_Some_conv)
  from keepsD[OF assms(1) i a(1)] keepsD[OF assms(2) _ a(2)] show "inv t \<and> view t = view s" by simp
qed

lemma keeps_map:
  assumes "keeps h" "\<And>s. frame s (g s)"
  shows "keeps (\<lambda>s. map_option g (h s))"
proof (rule keepsI)
  fix s t assume i: "inv s" and r: "map_option g (h s) = Some t"
  then obtain a where a: "h s = Some a" "t = g a" by auto
  from keepsD[OF assms(1) i a(1)] frame_inv[OF assms(2)] frame_view[OF assms(2)]
  show "inv t \<and> view t = view s" unfolding a(2) by simp
qed

lemma keeps_after:
  assumes "keeps h" "\<And>s. frame s (g s)"
  shows "keeps (\<lambda>s. h (g s))"
proof (rule keepsI)
  fix s t assume i: "inv s" and r: "h (g s) = Some t"
  from keepsD[OF assms(1) frame_inv[OF assms(2) i] r] frame_view[OF assms(2)]
  show "inv t \<and> view t = view s" by simp
qed

end

section \<open>Narrowing casts\<close>

text \<open>
  \<open>(int) x\<close> of a \<open>long\<close> and \<open>(int16_t) x\<close> keep the low bits, read as two's complement.
  Plain \<open>int\<close> sums of the source are unbounded here: their overflow is undefined in C and
  out of reach for sizes the X protocol carries in 16 bits.
\<close>

definition c_int :: "int \<Rightarrow> int" where
  "c_int n = signed_take_bit 31 n"

definition c_int16 :: "int \<Rightarrow> int" where
  "c_int16 n = signed_take_bit 15 n"

lemma c_int_id [simp]: "- (2 ^ 31) \<le> n \<Longrightarrow> n < 2 ^ 31 \<Longrightarrow> c_int n = n"
  by (simp add: c_int_def signed_take_bit_int_eq_self)

lemma c_int16_id [simp]: "- (2 ^ 15) \<le> n \<Longrightarrow> n < 2 ^ 15 \<Longrightarrow> c_int16 n = n"
  by (simp add: c_int16_def signed_take_bit_int_eq_self)

lemma c_int16_range: "- (2 ^ 15) \<le> c_int16 n" "c_int16 n < 2 ^ 15"
  using signed_take_bit_int_greater_eq_minus_exp[of 15 n] signed_take_bit_int_less_exp[of 15 n]
  by (simp_all add: c_int16_def)

section \<open>Rounding: \<open>lround\<close>\<close>

text \<open>\<open>lround\<close> of \<open>math.h\<close>: to the nearest integer, halfway cases away from zero.\<close>

definition lround :: "rat \<Rightarrow> int" where
  "lround x = (if 0 \<le> x then \<lfloor>x + 1/2\<rfloor> else - \<lfloor>- x + 1/2\<rfloor>)"
lemma floor_sandwich: "of_int \<lfloor>z\<rfloor> \<le> z" "z < of_int \<lfloor>z\<rfloor> + 1" for z :: rat
  using floor_correct[of z] by simp_all
lemma lround_of_int [simp]: "lround (of_int n) = n"
proof -
  have "\<lfloor>of_int m + 1/2 :: rat\<rfloor> = m" for m :: int
    by (rule floor_unique) auto
  from this[of n] this[of "-n"] show ?thesis by (simp add: lround_def)
qed
lemma lround_0 [simp]: "lround 0 = 0" and lround_1 [simp]: "lround 1 = 1"
  and lround_numeral [simp]: "lround (numeral k) = numeral k"
  using lround_of_int[of 0] lround_of_int[of 1] lround_of_int[of "numeral k"] by simp_all

lemma lround_mono: "x \<le> y \<Longrightarrow> lround x \<le> lround y"
proof -
  assume xy: "x \<le> y"
  consider "0 \<le> x" | "x < 0" "0 \<le> y" | "y < 0" by linarith
  then show ?thesis
  proof cases
    case 1 with xy show ?thesis by (auto simp: lround_def intro: floor_mono)
  next
    case 2
    then have "0 \<le> \<lfloor>- x + 1/2\<rfloor>" "0 \<le> \<lfloor>y + 1/2\<rfloor>" by (auto simp: zero_le_floor)
    then have "- \<lfloor>- x + 1/2\<rfloor> \<le> \<lfloor>y + 1/2\<rfloor>" by linarith
    with 2 show ?thesis unfolding lround_def by simp
  next
    case 3
    with xy have "\<lfloor>- y + 1/2\<rfloor> \<le> \<lfloor>- x + 1/2\<rfloor>" by (intro floor_mono) simp
    with 3 xy show ?thesis by (simp add: lround_def)
  qed
qed
lemma lround_near: "\<bar>of_int (lround x) - x\<bar> \<le> 1/2"
proof -
  have "of_int \<lfloor>z + 1/2\<rfloor> \<le> z + 1/2" "z + 1/2 < of_int \<lfloor>z + 1/2\<rfloor> + 1" for z :: rat
    by (rule floor_sandwich)+
  from this[of x] this[of "-x"] show ?thesis
    unfolding lround_def abs_le_iff
    by (cases "0 \<le> x") (simp_all only: if_True if_False of_int_minus, linarith+)
qed
section \<open>Double precision\<close>

text \<open>
  A finite \<open>double\<close> is a rational. \<open>fl64\<close> is round-to-nearest-even to 53 significant bits:
  the result of one IEEE operation whose exact result is \<open>x\<close>, for results inside the exponent
  range of the format (the products and quotients here stay below \<open>2 ^ 64\<close> for any scale a
  user can see; overflow, subnormals and NaN are not modelled). \<open>ilog2\<close> is the exponent.
\<close>

definition ilog2 :: "rat \<Rightarrow> int" where
  "ilog2 x = (let (p, q) = quotient_of x; k = bitlen p - bitlen q
              in if 2 powi k \<le> x then k else k - 1)"
definition round_even :: "rat \<Rightarrow> int" where
  "round_even x = (let f = \<lfloor>x\<rfloor>; d = x - of_int f
     in if d < 1/2 then f else if 1/2 < d then f + 1 else if even f then f else f + 1)"
definition fl64 :: "rat \<Rightarrow> rat" where
  "fl64 x = (if x = 0 then 0 else
     (let u = 2 powi (ilog2 \<bar>x\<bar> - 52) in of_int (round_even (x / u)) * u))"

lemma bitlen_powi:
  assumes "0 < p"
  shows "2 powi (bitlen p - 1) \<le> (of_int p :: rat)" "(of_int p :: rat) < 2 powi bitlen p"
proof -
  from assms have b: "2 ^ nat (bitlen p - 1) \<le> p" "p < 2 ^ nat (bitlen p)"
    using bitlen_bounds by auto
  have g: "1 \<le> bitlen p" using assms bitlen_nonneg[of p] bitlen_eq_zero_iff[of p] by linarith
  have e: "(2::rat) powi n = of_int (2 ^ nat n)" if "0 \<le> n" for n :: int
    using that by (simp add: power_int_def)
  from b(1) show "2 powi (bitlen p - 1) \<le> (of_int p :: rat)"
    using g by (simp only: e of_int_le_iff diff_ge_0_iff_ge)
  from b(2) show "(of_int p :: rat) < 2 powi bitlen p"
    using g by (simp only: e of_int_less_iff bitlen_nonneg)
qed

lemma ilog2_bounds:
  assumes "0 < x"
  shows "2 powi ilog2 x \<le> x" "x < 2 powi (ilog2 x + 1)"
proof -
  obtain p q where pq: "quotient_of x = (p, q)" by fastforce
  have x: "x = of_int p / of_int q" using quotient_of_div[OF pq] .
  have q: "0 < q" using quotient_of_denom_pos[OF pq] .
  with x assms have p: "0 < p" by (simp add: zero_less_divide_iff)
  let ?k = "bitlen p - bitlen q"
  note bp = bitlen_powi[OF p] and bq = bitlen_powi[OF q]
  have "x < 2 powi bitlen p / 2 powi (bitlen q - 1)"
    unfolding x using bp bq q p by (intro frac_less) auto
  also have "\<dots> = 2 powi (?k + 1)"
    by (simp add: power_int_diff [symmetric] algebra_simps)
  finally have u: "x < 2 powi (?k + 1)" .
  have "2 powi (bitlen p - 1) / 2 powi bitlen q \<le> x"
    unfolding x using bp bq q p by (intro frac_le) auto
  then have l: "2 powi (?k - 1) \<le> x"
    by (simp add: power_int_diff [symmetric] algebra_simps)
  from u l pq show "2 powi ilog2 x \<le> x" "x < 2 powi (ilog2 x + 1)"
    by (auto simp: ilog2_def Let_def)
qed

lemma powi2_mono_iff: "(2::rat) powi a \<le> 2 powi b \<longleftrightarrow> a \<le> b"
  by (meson linorder_not_less one_less_numeral_iff power_int_strict_increasing power_int_increasing semiring_norm(76) less_imp_le numeral_le_one_iff one_le_numeral)

lemma ilog2_mono: "0 < x \<Longrightarrow> x \<le> y \<Longrightarrow> ilog2 x \<le> ilog2 y"
proof -
  assume "0 < x" "x \<le> y"
  then have "(2::rat) powi ilog2 x < 2 powi (ilog2 y + 1)"
    using ilog2_bounds(1)[of x] ilog2_bounds(2)[of y] by linarith
  then have "\<not> ilog2 y + 1 \<le> ilog2 x" by (simp add: powi2_mono_iff [symmetric])
  then show ?thesis by simp
qed

lemma round_even_near: "\<bar>of_int (round_even x) - x\<bar> \<le> 1/2"
  using floor_sandwich[of x] by (auto simp: round_even_def Let_def abs_le_iff)

lemma round_even_of_int [simp]: "round_even (of_int n) = n"
  by (simp add: round_even_def)

lemma round_even_mono: "x \<le> y \<Longrightarrow> round_even x \<le> round_even y"
proof -
  assume xy: "x \<le> y"
  then have f: "\<lfloor>x\<rfloor> \<le> \<lfloor>y\<rfloor>" by (rule floor_mono)
  show ?thesis
  proof (cases "\<lfloor>x\<rfloor> = \<lfloor>y\<rfloor>")
    case True
    with xy show ?thesis by (auto simp: round_even_def Let_def)
  next
    case False
    with f have "\<lfloor>x\<rfloor> + 1 \<le> \<lfloor>y\<rfloor>" by linarith
    moreover have "round_even x \<le> \<lfloor>x\<rfloor> + 1" "\<lfloor>y\<rfloor> \<le> round_even y"
      by (auto simp: round_even_def Let_def)
    ultimately show ?thesis by linarith
  qed
qed

lemma round_even_minus: "round_even (- x) = - round_even x"
proof (cases "x \<in> \<int>")
  case True
  then obtain n where "x = of_int n" by (auto elim: Ints_cases)
  then show ?thesis by (simp add: round_even_of_int [of "-n", simplified])
next
  case False
  have c: "\<lfloor>- x\<rfloor> = - \<lfloor>x\<rfloor> - 1"
  proof (rule floor_unique)
    have "x \<noteq> of_int \<lfloor>x\<rfloor>" using False by (metis Ints_of_int)
    then have "of_int \<lfloor>x\<rfloor> < x" using floor_sandwich(1)[of x] by linarith
    then show "- x < of_int (- \<lfloor>x\<rfloor> - 1) + 1" by simp
    show "of_int (- \<lfloor>x\<rfloor> - 1) \<le> - x" using floor_sandwich(2)[of x] by simp
  qed
  show ?thesis unfolding round_even_def Let_def c by auto
qed

lemma fl64_0 [simp]: "fl64 0 = 0" by (simp add: fl64_def)

lemma fl64_minus: "fl64 (- x) = - fl64 x"
  by (simp add: fl64_def Let_def round_even_minus)

lemma fl64_scaled:
  assumes "0 < x"
  shows "2 ^ 52 \<le> x / 2 powi (ilog2 x - 52)" "x / 2 powi (ilog2 x - 52) < 2 ^ 53"
proof -
  have e: "(2::rat) powi ilog2 x = 2 ^ 52 * 2 powi (ilog2 x - 52)"
    "(2::rat) powi (ilog2 x + 1) = 2 ^ 53 * 2 powi (ilog2 x - 52)"
    by (simp_all add: power_int_diff power_int_add)
  have u: "(0::rat) < 2 powi (ilog2 x - 52)" by simp
  from ilog2_bounds[OF assms] show "2 ^ 52 \<le> x / 2 powi (ilog2 x - 52)"
    "x / 2 powi (ilog2 x - 52) < 2 ^ 53"
    unfolding e by (simp_all only: pos_le_divide_eq[OF u] pos_divide_less_eq[OF u])
qed

lemma fl64_bounds:
  assumes "0 < x"
  shows "2 powi ilog2 x \<le> fl64 x" "fl64 x \<le> 2 powi (ilog2 x + 1)"
proof -
  let ?u = "2 powi (ilog2 x - 52) :: rat"
  have e: "(2::rat) powi ilog2 x = 2 ^ 52 * ?u" "(2::rat) powi (ilog2 x + 1) = 2 ^ 53 * ?u"
    by (simp_all add: power_int_diff power_int_add)
  from fl64_scaled[OF assms] have "round_even (of_int (2 ^ 52)) \<le> round_even (x / ?u)"
    "round_even (x / ?u) \<le> round_even (of_int (2 ^ 53))"
    by (intro round_even_mono; simp)+
  then have "2 ^ 52 \<le> (of_int (round_even (x / ?u)) :: rat)"
    "(of_int (round_even (x / ?u)) :: rat) \<le> 2 ^ 53"
    unfolding round_even_of_int by (metis of_int_le_iff of_int_numeral of_int_power)+
  with assms show "2 powi ilog2 x \<le> fl64 x" "fl64 x \<le> 2 powi (ilog2 x + 1)"
    unfolding e by (simp_all add: fl64_def Let_def)
qed

lemma fl64_pos: "0 < x \<Longrightarrow> 0 < fl64 x"
  using fl64_bounds(1)[of x] by (meson less_le_trans zero_less_numeral zero_less_power_int)

lemma fl64_mono_pos:
  assumes "0 < x" "x \<le> y"
  shows "fl64 x \<le> fl64 y"
proof (cases "ilog2 x = ilog2 y")
  case True
  then have "round_even (x / 2 powi (ilog2 y - 52)) \<le> round_even (y / 2 powi (ilog2 y - 52))"
    using assms by (intro round_even_mono divide_right_mono) auto
  with True assms show ?thesis by (simp add: fl64_def Let_def mult_right_mono)
next
  case False
  with ilog2_mono[OF assms] have "ilog2 x + 1 \<le> ilog2 y" by simp
  then have "(2::rat) powi (ilog2 x + 1) \<le> 2 powi ilog2 y" by (simp add: powi2_mono_iff)
  with fl64_bounds(2)[of x] fl64_bounds(1)[of y] assms show ?thesis by linarith
qed

lemma fl64_mono: "x \<le> y \<Longrightarrow> fl64 x \<le> fl64 y"
proof -
  assume xy: "x \<le> y"
  consider "0 < x" | "x \<le> 0" "0 \<le> y" | "y < 0" by linarith
  then show ?thesis
  proof cases
    case 1 then show ?thesis using xy by (rule fl64_mono_pos)
  next
    case 2
    have "0 \<le> fl64 z" if "0 \<le> z" for z using fl64_pos[of z] that by (cases "z = 0") auto
    from this[of "-x"] this[of y] 2 show ?thesis by (simp add: fl64_minus)
  next
    case 3
    with xy have "fl64 (- y) \<le> fl64 (- x)" by (intro fl64_mono_pos) auto
    then show ?thesis by (simp add: fl64_minus)
  qed
qed

lemma fl64_near: "\<bar>fl64 x - x\<bar> \<le> \<bar>x\<bar> / 2 ^ 53"
proof (cases "x = 0")
  case False
  let ?u = "2 powi (ilog2 \<bar>x\<bar> - 52) :: rat"
  have u: "0 < ?u" by simp
  have "fl64 x - x = (of_int (round_even (x / ?u)) - x / ?u) * ?u"
    using False by (simp add: fl64_def Let_def left_diff_distrib)
  then have "\<bar>fl64 x - x\<bar> = \<bar>of_int (round_even (x / ?u)) - x / ?u\<bar> * ?u"
    by (simp add: abs_mult)
  also have "\<dots> \<le> 1/2 * ?u" using round_even_near u by (intro mult_right_mono) auto
  also have "\<dots> = 2 powi ilog2 \<bar>x\<bar> / 2 ^ 53" by (simp add: power_int_diff)
  also have "\<dots> \<le> \<bar>x\<bar> / 2 ^ 53"
    using ilog2_bounds(1)[of "\<bar>x\<bar>"] False by (intro divide_right_mono) auto
  finally show ?thesis .
qed simp

lemma fl64_exact:
  assumes "x * 2 ^ 52 = of_int m * 2 powi ilog2 \<bar>x\<bar>"
  shows "fl64 x = x"
proof (cases "x = 0")
  case False
  let ?u = "2 powi (ilog2 \<bar>x\<bar> - 52) :: rat"
  have xm: "x = of_int m * ?u" using assms by (simp add: power_int_diff field_simps)
  have "x / ?u = of_int m" unfolding xm[symmetric] by (simp add: xm[symmetric] divide_eq_eq)
  then have "round_even (x / ?u) = m" by simp
  with False show ?thesis by (simp add: fl64_def Let_def xm[symmetric])
qed simp

lemma fl64_of_int:
  assumes "\<bar>n\<bar> < 2 ^ 53"
  shows "fl64 (of_int n) = of_int n"
proof (cases "n = 0")
  case False
  let ?e = "ilog2 \<bar>of_int n\<bar>"
  have a: "(1::rat) \<le> \<bar>of_int n\<bar>" using False by linarith
  then have "(2::rat) powi 0 < 2 powi (?e + 1)"
    using ilog2_bounds(2)[of "\<bar>of_int n\<bar>"] by (simp add: order.strict_trans1)
  then have e0: "0 \<le> ?e" using powi2_mono_iff[of "?e + 1" 0] by linarith
  have "(of_int \<bar>n\<bar> :: rat) < of_int (2 ^ 53)" using assms by (simp only: of_int_less_iff)
  then have "\<bar>of_int n\<bar> < (2::rat) powi 53" by simp
  moreover have "2 powi ?e \<le> \<bar>of_int n :: rat\<bar>" using a by (intro ilog2_bounds(1)) linarith
  ultimately have "(2::rat) powi ?e < 2 powi 53" by linarith
  then have e1: "?e \<le> 52" using powi2_mono_iff[of 53 ?e] by linarith
  have "(2::rat) ^ 52 = of_int (2 ^ nat (52 - ?e)) * 2 powi ?e"
  proof -
    have "nat (52 - ?e) + nat ?e = 52" using e0 e1 by simp
    then have "(2::rat) ^ 52 = 2 ^ nat (52 - ?e) * 2 ^ nat ?e" by (simp flip: power_add)
    then show ?thesis using e0 by (simp add: power_int_def)
  qed
  then show ?thesis by (intro fl64_exact[of _ "n * 2 ^ nat (52 - ?e)"]) simp
qed simp

lemma fl64_1 [simp]: "fl64 1 = 1"
  using fl64_of_int[of 1] by simp

lemma fl64_of_half:
  assumes "\<bar>n\<bar> < 2 ^ 52"
  shows "fl64 (of_int n / 2) = of_int n / 2"
proof (cases "n = 0")
  case False
  let ?y = "of_int n :: rat"
  have e: "ilog2 \<bar>?y / 2\<bar> + 1 = ilog2 \<bar>?y\<bar>"
  proof -
    have y: "0 < \<bar>?y\<bar>" "0 < \<bar>?y / 2\<bar>" using False by auto
    note b = ilog2_bounds[OF y(1)] ilog2_bounds[OF y(2)]
    have "(2::rat) powi ilog2 \<bar>?y\<bar> < 2 powi (ilog2 \<bar>?y / 2\<bar> + 1 + 1)"
      "(2::rat) powi (ilog2 \<bar>?y / 2\<bar> + 1) < 2 powi (ilog2 \<bar>?y\<bar> + 1)"
      using b by (simp_all add: power_int_add)
    then show ?thesis
      by (metis linorder_not_less powi2_mono_iff zless_add1_eq order_antisym_conv zle_add1_eq_le)
  qed
  have "fl64 ?y = ?y" using assms by (intro fl64_of_int) simp
  then have m: "of_int (round_even (?y / 2 powi (ilog2 \<bar>?y\<bar> - 52))) * 2 powi (ilog2 \<bar>?y\<bar> - 52) = ?y"
    using False by (simp add: fl64_def Let_def)
  have "?y / 2 * 2 ^ 52
      = of_int (round_even (?y / 2 powi (ilog2 \<bar>?y\<bar> - 52))) * 2 powi ilog2 \<bar>?y / 2\<bar>"
    by (subst m[symmetric]) (simp add: e[symmetric] power_int_diff power_int_add)
  then show ?thesis by (rule fl64_exact)
qed simp

end
