(* ===== verification/Wlx_Types.thy ===== *)
theory Wlx_Types
  imports Prelude
begin

text \<open>
  The data of \<open>src/server.h\<close> and of the parts of wlroots the compositor reads: boxes,
  the committed state of an \<open>xdg_toplevel\<close>, the X11 output, the window record, the requests
  the code sends to the X server and to Wayland clients (a trace kept in the records), and the
  answers of the X server and of the allocator as an environment record.
\<close>

section \<open>Identifiers\<close>

text \<open>X resource ids and atoms are \<open>uint32_t\<close>; 0 is \<open>XCB_WINDOW_NONE\<close> and
  \<open>XCB_ATOM_NONE\<close>. Pointers to the compositor's own objects are numbers.\<close>

type_synonym xid = "32 word"
type_synonym atom = "32 word"
type_synonym wid = nat

definition XCB_WINDOW_NONE :: xid where
  "XCB_WINDOW_NONE = 0"

definition WLX_MIN_OUTPUT_SIZE :: int where "WLX_MIN_OUTPUT_SIZE = 32"
definition WLX_DEFAULT_WIDTH :: int where "WLX_DEFAULT_WIDTH = 1024"
definition WLX_DEFAULT_HEIGHT :: int where "WLX_DEFAULT_HEIGHT = 720"
definition WLX_FIT_OSCILLATION_MS :: int where "WLX_FIT_OSCILLATION_MS = 400"
definition WLX_MIN_WINDOW_SIZE :: int where "WLX_MIN_WINDOW_SIZE = 50"
definition WLX_DRAG_THROTTLE_MS :: int where "WLX_DRAG_THROTTLE_MS = 16"
definition WLX_MAX_RELATED_WINDOWS :: nat where "WLX_MAX_RELATED_WINDOWS = 32"
definition WLX_CLIPBOARD_MAX :: nat where "WLX_CLIPBOARD_MAX = 1024 * 1024"

lemmas wlx_constants =
  WLX_MIN_OUTPUT_SIZE_def WLX_DEFAULT_WIDTH_def WLX_DEFAULT_HEIGHT_def
  WLX_FIT_OSCILLATION_MS_def WLX_MIN_WINDOW_SIZE_def WLX_DRAG_THROTTLE_MS_def
  WLX_MAX_RELATED_WINDOWS_def WLX_CLIPBOARD_MAX_def XCB_WINDOW_NONE_def

section \<open>Client state as wlroots reports it\<close>

record wlr_box =
  box_x :: int
  box_y :: int
  box_width :: int
  box_height :: int

definition box_set :: "wlr_box \<Rightarrow> bool" where
  "box_set b \<longleftrightarrow> 0 < box_width b \<and> 0 < box_height b"

text \<open>\<open>struct wlr_xdg_toplevel_state\<close>: the fields the compositor reads.\<close>

record toplevel_state =
  st_maximized :: bool
  st_fullscreen :: bool
  st_min_width :: int
  st_min_height :: int
  st_max_width :: int
  st_max_height :: int

record wlr_toplevel =
  tl_current :: toplevel_state
  tl_pending :: toplevel_state
  tl_requested_maximized :: bool
  tl_requested_fullscreen :: bool
  tl_geometry :: wlr_box \<comment> \<open>\<open>base->current.geometry\<close>\<close>
  tl_surf_width :: int \<comment> \<open>\<open>base->surface->current.width\<close>\<close>
  tl_surf_height :: int
  tl_title :: "string option"
  tl_app_id :: "string option"
  tl_parent :: "wid option"

definition tl_maximized :: "wlr_toplevel \<Rightarrow> bool" where
  "tl_maximized t \<longleftrightarrow> st_maximized (tl_current t) \<or> st_maximized (tl_pending t)"

definition tl_fullscreen :: "wlr_toplevel \<Rightarrow> bool" where
  "tl_fullscreen t \<longleftrightarrow> st_fullscreen (tl_current t) \<or> st_fullscreen (tl_pending t)"

text \<open>The \<open>tiled\<close> of \<open>surface_commit\<close> and \<open>wlx_toplevel_size_for_output\<close>.\<close>

definition tl_tiled :: "wlr_toplevel \<Rightarrow> bool" where
  "tl_tiled t \<longleftrightarrow> tl_maximized t \<or> tl_fullscreen t"

section \<open>The X11 output\<close>

text \<open>
  \<open>struct wlr_x11_output\<close> of the backend with the \<open>struct wlr_output\<close> it embeds.
  \<open>o_conn_seq\<close> counts the requests libxcb has sent on the backend's connection; the
  cookie of a request carries it, cut to 16 bits where the backend stores it.
\<close>

record x11_output =
  o_win :: xid
  o_width :: int
  o_height :: int
  o_enabled :: bool
  o_commit_seq :: nat
  win_width :: int
  win_height :: int
  last_configure_seq :: "16 word"
  has_configure_seq :: bool
  pending_width :: int
  pending_height :: int
  has_pending_configure :: bool
  o_conn_seq :: nat

section \<open>Scene graph\<close>

text \<open>\<open>struct wlr_scene_node\<close> with its buffer or tree extension; a buffer that shows a
  surface carries the surface's id and committed size.\<close>

datatype (plugins only: code size) scene_node =
    SceneBuffer (node_id: nat) (node_enabled: bool) (node_x: int) (node_y: int)
      (buf_surface: "(nat \<times> int \<times> int) option") (dst_width: int) (dst_height: int)
  | SceneTree (node_id: nat) (node_enabled: bool) (node_x: int) (node_y: int)
      (children: "scene_node list")
  | SceneRect (node_id: nat) (node_enabled: bool) (node_x: int) (node_y: int)

section \<open>Requests sent to the X server and to Wayland clients\<close>

datatype deco_mode = CLIENT_SIDE | SERVER_SIDE

datatype (plugins only: code size) wlr_call =
    ConfigureSize xid int int
  | ConfigurePos xid int int
  | ConfigurePosSize xid int int int int
  | MapWindow xid
  | UnmapWindow xid
  | DestroyWindow xid
  | PresentPixmap xid
  | UpdatePointerPosition xid \<comment> \<open>QueryPointer, and a motion event of the output's pointer\<close>
  | SetSize int int
  | SetMaximized bool
  | SetFullscreen bool
  | SetActivated wid bool
  | SetWmCapabilities
  | ScheduleConfigure
  | SendClose
  | SetDecorationMode nat deco_mode
  | ScheduleFrame
  | SceneOutputCommit
  | SendFrameDone
  | ScenePosition int int
  | SizeHintsProp xid "int list"
  | TitleProp xid string
  | ClassProp xid string
  | MotifProp xid "int list"
  | TransientProp xid xid
  | WindowTypeProp xid bool
  | ModalProp xid
  | XdndAwareProp xid
  | SelectEvents xid
  | ClientMessage xid atom "xid list"
  | NetWmState xid bool "atom list"
  | IconicState xid

section \<open>The window record\<close>

text \<open>
  \<open>struct wlx_window\<close>. The array \<open>related[WLX_MAX_RELATED_WINDOWS]\<close> with its count is a
  list of at most 32 ids. \<open>listeners\<close> says that the output's frame, destroy, commit and
  request_state listeners are linked. \<open>w_log\<close> is the trace of requests, newest last.
\<close>

record wlx_window =
  w_id :: wid
  toplevel :: wlr_toplevel
  scene_tree :: "scene_node option"
  w_output :: "x11_output option"
  listeners :: bool
  l_output :: "(int \<times> int) option"
  scene_output :: bool
  last_output_width :: int
  last_output_height :: int
  csd_margin_w :: int
  csd_margin_h :: int
  size_from_wm :: bool
  last_client_conf_w :: int
  last_client_conf_h :: int
  fit_last_w :: int
  fit_last_h :: int
  fit_prev_w :: int
  fit_prev_h :: int
  fit_last_msec :: int
  fill_host_last_msec :: int
  hold_present :: bool
  xwin :: xid
  related :: "xid list"
  content_xwin :: xid
  last_title :: string
  last_app_id :: string
  initial_configure_sent :: bool
  pending_decoration :: "nat option"
  w_log :: "wlr_call list"

definition emit :: "wlr_call \<Rightarrow> wlx_window \<Rightarrow> wlx_window" where
  "emit c w = w\<lparr>w_log := w_log w @ [c]\<rparr>"

definition emit_all :: "wlr_call list \<Rightarrow> wlx_window \<Rightarrow> wlx_window" where
  "emit_all cs w = w\<lparr>w_log := w_log w @ cs\<rparr>"

definition win_tiled :: "wlx_window \<Rightarrow> bool" where
  "win_tiled w \<longleftrightarrow> tl_tiled (toplevel w)"

section \<open>Configuration and environment\<close>

text \<open>The fields of \<open>struct wlx_server\<close> that are set once, at start.\<close>

record wlx_config =
  content_scale :: rat
  prefer_csd :: bool
  have_xcb :: bool \<comment> \<open>\<open>xcb\<close> is set and has no error\<close>
  xcb_root :: xid
  clipboard_window :: xid
  atom_net_wm_state :: atom
  atom_maximized_vert :: atom
  atom_maximized_horz :: atom
  atom_fullscreen :: atom
  atom_modal :: atom
  atom_wm_change_state :: atom
  atom_transient_for :: atom
  atom_normal_hints :: atom
  atom_size_hints :: atom
  atom_motif :: atom
  atom_window_type :: atom
  atom_type_normal :: atom
  atom_type_dialog :: atom
  atom_xdnd_aware :: atom

text \<open>The tree of X windows below one, as successive \<open>query_tree\<close> replies give it.\<close>

datatype (plugins only: code size) xtree = XWin (xt_id: xid) (xt_children: "xtree list")

text \<open>
  What a handler learns from outside while it runs: the monotonic clock, the replies of the X
  server (\<open>None\<close> where the reply is NULL) and whether the allocator and the X server take a
  buffer of a size. One environment describes one handler run.
\<close>

record wlx_env =
  now_msec :: int
  alloc_ok :: "int \<Rightarrow> int \<Rightarrow> bool"
  import_ok :: "int \<Rightarrow> int \<Rightarrow> bool"
  q_pointer :: "(int \<times> int) option" \<comment> \<open>\<open>root_x, root_y\<close>, both \<open>int16_t\<close>\<close>
  q_pointer_child :: xid
  q_root_pos :: "xid \<Rightarrow> (int \<times> int) option"
  q_geometry :: "xid \<Rightarrow> (int \<times> int) option"
  q_child_at :: "xid \<Rightarrow> xid option" \<comment> \<open>child under the pointer, \<open>translate_coordinates\<close>\<close>
  q_parent :: "xid \<Rightarrow> xid option"
  q_tree :: "xid \<Rightarrow> xtree"
  q_net_wm_state :: "xid \<Rightarrow> atom list option option" \<comment> \<open>reply; atom list if well typed\<close>

section \<open>Sequences of requests\<close>

fun is_resize :: "wlr_call \<Rightarrow> bool" where
  "is_resize (ConfigureSize _ _ _) = True"
| "is_resize (ConfigurePosSize _ _ _ _ _) = True"
| "is_resize _ = False"

text \<open>The requests that resize an X window, in order.\<close>

definition resizes :: "wlx_window \<Rightarrow> wlr_call list" where
  "resizes w = filter is_resize (w_log w)"

fun is_map :: "wlr_call \<Rightarrow> bool" where
  "is_map (MapWindow _) = True"
| "is_map _ = False"

fun is_set_size :: "wlr_call \<Rightarrow> bool" where
  "is_set_size (SetSize _ _) = True"
| "is_set_size _ = False"

definition set_sizes :: "wlx_window \<Rightarrow> wlr_call list" where
  "set_sizes w = filter is_set_size (w_log w)"

lemma resizes_emit [simp]:
  "resizes (emit c w) = (if is_resize c then resizes w @ [c] else resizes w)"
  by (simp add: resizes_def emit_def)

lemma set_sizes_emit [simp]:
  "set_sizes (emit c w) = (if is_set_size c then set_sizes w @ [c] else set_sizes w)"
  by (simp add: set_sizes_def emit_def)

lemma resizes_emit_all [simp]: "resizes (emit_all cs w) = resizes w @ filter is_resize cs"
  by (simp add: resizes_def emit_all_def)

lemma set_sizes_emit_all [simp]: "set_sizes (emit_all cs w) = set_sizes w @ filter is_set_size cs"
  by (simp add: set_sizes_def emit_all_def)

lemma emit_all_Nil [simp]: "emit_all [] w = w"
  by (simp add: emit_all_def)

lemma emit_fields [simp]:
  "w_output (emit c w) = w_output w" "toplevel (emit c w) = toplevel w"
  "size_from_wm (emit c w) = size_from_wm w" "w_log (emit c w) = w_log w @ [c]"
  "w_id (emit c w) = w_id w" "xwin (emit c w) = xwin w" "content_xwin (emit c w) = content_xwin w"
  "last_client_conf_w (emit c w) = last_client_conf_w w"
  "last_client_conf_h (emit c w) = last_client_conf_h w"
  "last_output_width (emit c w) = last_output_width w"
  "last_output_height (emit c w) = last_output_height w"
  "csd_margin_w (emit c w) = csd_margin_w w" "csd_margin_h (emit c w) = csd_margin_h w"
  "fit_last_w (emit c w) = fit_last_w w" "fit_last_h (emit c w) = fit_last_h w"
  "fit_prev_w (emit c w) = fit_prev_w w" "fit_prev_h (emit c w) = fit_prev_h w"
  "fit_last_msec (emit c w) = fit_last_msec w" "listeners (emit c w) = listeners w"
  "scene_tree (emit c w) = scene_tree w" "scene_output (emit c w) = scene_output w"
  "fill_host_last_msec (emit c w) = fill_host_last_msec w" "l_output (emit c w) = l_output w"
  "hold_present (emit c w) = hold_present w" "related (emit c w) = related w"
  "last_title (emit c w) = last_title w" "last_app_id (emit c w) = last_app_id w"
  "initial_configure_sent (emit c w) = initial_configure_sent w"
  "pending_decoration (emit c w) = pending_decoration w"
  by (simp_all add: emit_def)

lemma emit_all_fields [simp]:
  "w_output (emit_all cs w) = w_output w" "toplevel (emit_all cs w) = toplevel w"
  "size_from_wm (emit_all cs w) = size_from_wm w" "w_log (emit_all cs w) = w_log w @ cs"
  "w_id (emit_all cs w) = w_id w" "xwin (emit_all cs w) = xwin w"
  "content_xwin (emit_all cs w) = content_xwin w" "listeners (emit_all cs w) = listeners w"
  "last_client_conf_w (emit_all cs w) = last_client_conf_w w"
  "last_client_conf_h (emit_all cs w) = last_client_conf_h w"
  "last_output_width (emit_all cs w) = last_output_width w"
  "last_output_height (emit_all cs w) = last_output_height w"
  "csd_margin_w (emit_all cs w) = csd_margin_w w" "csd_margin_h (emit_all cs w) = csd_margin_h w"
  "fit_last_w (emit_all cs w) = fit_last_w w" "fit_last_h (emit_all cs w) = fit_last_h w"
  "fit_prev_w (emit_all cs w) = fit_prev_w w" "fit_prev_h (emit_all cs w) = fit_prev_h w"
  "fit_last_msec (emit_all cs w) = fit_last_msec w" "scene_tree (emit_all cs w) = scene_tree w"
  "fill_host_last_msec (emit_all cs w) = fill_host_last_msec w"
  "hold_present (emit_all cs w) = hold_present w" "related (emit_all cs w) = related w"
  "scene_output (emit_all cs w) = scene_output w" "l_output (emit_all cs w) = l_output w"
  "last_title (emit_all cs w) = last_title w" "last_app_id (emit_all cs w) = last_app_id w"
  "initial_configure_sent (emit_all cs w) = initial_configure_sent w"
  "pending_decoration (emit_all cs w) = pending_decoration w"
  by (simp_all add: emit_all_def)

end
