(* ===== verification/Scale.thy ===== *)
theory Scale
  imports Wlx_Types
begin

text \<open>
  Pixel scale (\<open>src/output.c\<close>, lines 17 to 52): the conversions between logical pixels and
  host pixels, and the interface \<open>size_scaler\<close> through which the size policy uses them.
\<close>

section \<open>Conversions\<close>

definition wlx_scale_size :: "wlx_config \<Rightarrow> int \<Rightarrow> int" where
  "wlx_scale_size cfg logical =
     (if content_scale cfg \<le> 0 then logical
      else let v = c_int (lround (fl64 (of_int logical * content_scale cfg)))
           in if v < 1 then 1 else v)"

definition wlx_unscale_size :: "wlx_config \<Rightarrow> int \<Rightarrow> int" where
  "wlx_unscale_size cfg output_px =
     (if content_scale cfg \<le> 0 then output_px
      else let v = c_int (lround (fl64 (of_int output_px / content_scale cfg)))
           in if v < 1 then 1 else v)"

definition wlx_pointer_to_surface :: "wlx_config \<Rightarrow> rat \<times> rat \<Rightarrow> rat \<times> rat" where
  "wlx_pointer_to_surface cfg p =
     (if content_scale cfg \<le> 0 then p
      else if content_scale cfg = 1 then p
      else (fl64 (fst p / content_scale cfg), fl64 (snd p / content_scale cfg)))"

section \<open>Rounding facts\<close>

lemma lround_unique: "\<bar>x - of_int n\<bar> < 1/2 \<Longrightarrow> lround x = n"
proof -
  assume a: "\<bar>x - of_int n\<bar> < 1/2"
  have "\<bar>of_int (lround x) - x\<bar> \<le> 1/2" by (rule lround_near)
  with a have "\<bar>of_int (lround x) - of_int n :: rat\<bar> < 1" by linarith
  then have "\<bar>of_int (lround x - n) :: rat\<bar> < of_int 1" by simp
  then have "\<bar>lround x - n\<bar> < 1" by (simp only: of_int_abs[symmetric] of_int_less_iff)
  then show ?thesis by linarith
qed

lemma lround_bound: "\<bar>x\<bar> \<le> of_int b \<Longrightarrow> \<bar>lround x\<bar> \<le> b"
proof -
  assume a: "\<bar>x\<bar> \<le> of_int b"
  then have "of_int (- b) \<le> x" "x \<le> of_int b" by (simp_all add: abs_le_iff minus_le_iff)
  then have "lround (of_int (- b)) \<le> lround x" "lround x \<le> lround (of_int b)"
    by (simp_all only: lround_mono)
  then show ?thesis unfolding lround_of_int by linarith
qed

lemma fl64_abs_bound: "\<bar>x\<bar> \<le> of_int b \<Longrightarrow> b < 2 ^ 53 \<Longrightarrow> \<bar>fl64 x\<bar> \<le> of_int b"
proof -
  assume a: "\<bar>x\<bar> \<le> of_int b" "b < 2 ^ 53"
  then have b: "0 \<le> b" by (metis abs_ge_zero of_int_0_le_iff order_trans)
  from a have "- of_int b \<le> x" "x \<le> of_int b" by (simp_all add: abs_le_iff minus_le_iff)
  then have "fl64 (- of_int b) \<le> fl64 x" "fl64 x \<le> fl64 (of_int b)" by (auto intro: fl64_mono)
  then show ?thesis using a b by (simp add: fl64_minus fl64_of_int abs_le_iff minus_le_iff)
qed

lemma rounded_small: "\<bar>x\<bar> \<le> of_int b \<Longrightarrow> b < 2 ^ 31 \<Longrightarrow> c_int (lround (fl64 x)) = lround (fl64 x)"
  using lround_bound[OF fl64_abs_bound, of x b] by simp

section \<open>What the conversions do\<close>

lemma scale_size_ge1: "0 < content_scale cfg \<Longrightarrow> 1 \<le> wlx_scale_size cfg n"
  by (simp add: wlx_scale_size_def Let_def)

lemma unscale_size_ge1: "0 < content_scale cfg \<Longrightarrow> 1 \<le> wlx_unscale_size cfg n"
  by (simp add: wlx_unscale_size_def Let_def)

lemma scale_size_one [simp]:
  "content_scale cfg = 1 \<Longrightarrow> 1 \<le> n \<Longrightarrow> n < 2 ^ 31 \<Longrightarrow> wlx_scale_size cfg n = n"
  by (simp add: wlx_scale_size_def fl64_of_int)

lemma unscale_size_one [simp]:
  "content_scale cfg = 1 \<Longrightarrow> 1 \<le> n \<Longrightarrow> n < 2 ^ 31 \<Longrightarrow> wlx_unscale_size cfg n = n"
  by (simp add: wlx_unscale_size_def fl64_of_int)

lemma scale_size_near:
  assumes s: "0 < content_scale cfg" and one: "1 \<le> of_int n * content_scale cfg"
    and hi: "of_int n * content_scale cfg \<le> 65535"
  shows "\<bar>of_int (wlx_scale_size cfg n) - of_int n * content_scale cfg\<bar> \<le> 1/2 + 1 / 2 ^ 37"
proof -
  let ?p = "of_int n * content_scale cfg"
  have c: "c_int (lround (fl64 ?p)) = lround (fl64 ?p)"
    using one hi by (intro rounded_small[of _ 65535]) auto
  have "1 \<le> lround (fl64 ?p)" using lround_mono[OF fl64_mono[OF one]] by simp
  then have v: "wlx_scale_size cfg n = lround (fl64 ?p)"
    using s c by (simp add: wlx_scale_size_def Let_def)
  have "\<bar>fl64 ?p - ?p\<bar> \<le> \<bar>?p\<bar> / 2 ^ 53" by (rule fl64_near)
  also have "\<dots> \<le> 65535 / 2 ^ 53" using one hi by (intro divide_right_mono) auto
  also have "\<dots> \<le> 1 / 2 ^ 37" by simp
  finally have "\<bar>fl64 ?p - ?p\<bar> \<le> 1 / 2 ^ 37" .
  with lround_near[of "fl64 ?p"] show ?thesis unfolding v by linarith
qed

text \<open>The scaled size of an offset that is not positive is 1, whatever the offset.\<close>

lemma scale_size_nonpos:
  assumes "0 < content_scale cfg" "n \<le> 0" "- (2 ^ 30) \<le> of_int n * content_scale cfg"
  shows "wlx_scale_size cfg n = 1"
proof -
  let ?p = "of_int n * content_scale cfg"
  have np: "?p \<le> 0" using assms by (simp add: mult_le_0_iff)
  then have "\<bar>?p\<bar> \<le> of_int (2 ^ 30)" using assms(3) by simp
  then have c: "c_int (lround (fl64 ?p)) = lround (fl64 ?p)" by (rule rounded_small) simp
  have "lround (fl64 ?p) \<le> 0" using lround_mono[OF fl64_mono[OF np]] by simp
  then show ?thesis using assms(1) c by (simp add: wlx_scale_size_def Let_def)
qed

lemma scale_size_mono:
  assumes "0 < content_scale cfg" "m \<le> n"
    "\<bar>of_int m * content_scale cfg\<bar> \<le> 2 ^ 30" "\<bar>of_int n * content_scale cfg\<bar> \<le> 2 ^ 30"
  shows "wlx_scale_size cfg m \<le> wlx_scale_size cfg n"
proof -
  let ?m = "of_int m * content_scale cfg" and ?n = "of_int n * content_scale cfg"
  have "lround (fl64 ?m) \<le> lround (fl64 ?n)"
    using assms by (intro lround_mono fl64_mono mult_right_mono) auto
  moreover have "c_int (lround (fl64 ?m)) = lround (fl64 ?m)" "c_int (lround (fl64 ?n)) = lround (fl64 ?n)"
    using assms by (auto intro!: rounded_small[of _ "2 ^ 30"])
  ultimately show ?thesis using assms(1) by (simp add: wlx_scale_size_def Let_def)
qed

text \<open>
  Unscaling a scaled size gives the size back for any scale of at least 1, over the whole range
  of X window sizes: the rounding of the product and of the quotient, and both roundings to
  doubles, never add up to half a pixel. Below scale 1 several logical sizes share a host size.
\<close>

definition scale_fits :: "wlx_config \<Rightarrow> int \<Rightarrow> bool" where
  "scale_fits cfg n \<longleftrightarrow> 1 \<le> n \<and> 1 \<le> content_scale cfg \<and> of_int n * content_scale cfg \<le> 65535"

lemma scale_fits_bounds:
  assumes "scale_fits cfg n"
  shows "1 \<le> of_int n * content_scale cfg" "n \<le> 65535"
proof -
  have n: "(1::rat) \<le> of_int n" using assms by (simp add: scale_fits_def)
  then have "1 * 1 \<le> of_int n * content_scale cfg" "of_int n * 1 \<le> of_int n * content_scale cfg"
    using assms by (intro mult_mono; simp add: scale_fits_def)+
  then have "1 \<le> of_int n * content_scale cfg" "of_int n \<le> (of_int 65535 :: rat)"
    using assms unfolding scale_fits_def of_int_numeral by linarith+
  then show "1 \<le> of_int n * content_scale cfg" "n \<le> 65535" by (simp_all only: of_int_le_iff)
qed

lemma unscale_scale:
  assumes fits: "scale_fits cfg n"
  shows "wlx_unscale_size cfg (wlx_scale_size cfg n) = n"
proof -
  define s where "s = content_scale cfg"
  define v where "v = wlx_scale_size cfg n"
  have s: "1 \<le> s" and n: "1 \<le> n" and hi: "of_int n * s \<le> 65535"
    using fits by (simp_all add: scale_fits_def s_def)
  note p = scale_fits_bounds[OF fits, folded s_def]
  have near: "\<bar>of_int v - of_int n * s\<bar> \<le> 1/2 + 1 / 2 ^ 37"
    unfolding v_def s_def using s hi p(1) by (intro scale_size_near) (simp_all add: s_def)
  have d: "of_int v / s - of_int n = (of_int v - of_int n * s) / s"
    using s by (simp add: field_simps)
  have ab: "\<bar>(of_int v - of_int n * s) / s\<bar> = \<bar>of_int v - of_int n * s\<bar> / s"
    using s by (simp add: abs_divide)
  have q: "\<bar>of_int v / s - of_int n\<bar> < 1/2 - 1 / 2 ^ 30"
  proof (cases "s < 1 + 1 / 2 ^ 20")
    case True
    have "of_int n * (s - 1) \<le> 65535 * (1 / 2 ^ 20)"
      using True s n p(2) by (intro mult_mono) auto
    then have off: "of_int n * s \<le> of_int n + 1/8" by (simp add: algebra_simps)
    have "of_int n * 1 \<le> of_int n * s" using s n by (intro mult_left_mono) auto
    moreover have "of_int v - of_int n * s \<le> 1/2 + 1/8" "of_int n * s - of_int v \<le> 1/2 + 1/8"
      using near unfolding abs_le_iff by simp_all
    ultimately have "\<bar>of_int v - of_int n :: rat\<bar> < 1" using off by (simp add: abs_less_iff)
    then have "v = n" by linarith
    then have "\<bar>of_int v - of_int n * s\<bar> \<le> 1/8" using off \<open>of_int n * 1 \<le> of_int n * s\<close> by simp
    then have "\<bar>of_int v - of_int n * s\<bar> / s \<le> (1/8) / 1" using s by (intro frac_le) auto
    also have "\<dots> < 1/2 - 1 / 2 ^ 30" by simp
    finally show ?thesis unfolding d ab .
  next
    case False
    have "\<bar>of_int v - of_int n * s\<bar> / s \<le> (1/2 + 1 / 2 ^ 37) / (1 + 1 / 2 ^ 20)"
      using near False by (intro frac_le) auto
    also have "\<dots> < 1/2 - 1 / 2 ^ 30" by simp
    finally show ?thesis unfolding d ab .
  qed
  have nb: "of_int n \<le> (65535 :: rat)" using p(2) by linarith
  have n1: "1 \<le> (of_int n :: rat)" using n by simp
  have "1/2 - 1 / 2 ^ 30 \<le> (1 :: rat)" by simp
  with q nb n1 have vb: "\<bar>of_int v / s\<bar> \<le> 65536" by linarith
  have "\<bar>fl64 (of_int v / s) - of_int v / s\<bar> \<le> \<bar>of_int v / s\<bar> / 2 ^ 53" by (rule fl64_near)
  also have "\<dots> \<le> 65536 / 2 ^ 53" using vb by (intro divide_right_mono) auto
  finally have "\<bar>fl64 (of_int v / s) - of_int v / s\<bar> \<le> 1 / 2 ^ 30" by simp
  with q have "\<bar>fl64 (of_int v / s) - of_int n\<bar> < 1/2" by linarith
  then have "lround (fl64 (of_int v / s)) = n" by (rule lround_unique)
  then show ?thesis
    using s n p(2) by (simp add: wlx_unscale_size_def Let_def v_def[symmetric] s_def[symmetric])
qed

section \<open>Pixels inside a scaled length\<close>

lemma scale_size_tiny:
  assumes "0 < content_scale cfg" "1 \<le> n" "of_int n * content_scale cfg < 1"
  shows "wlx_scale_size cfg n = 1"
proof -
  let ?p = "of_int n * content_scale cfg"
  have "lround (fl64 ?p) \<le> lround (fl64 1)" using assms(3) by (intro lround_mono fl64_mono) simp
  moreover have "lround (fl64 0) \<le> lround (fl64 ?p)" using assms(1,2) by (intro lround_mono fl64_mono) simp
  ultimately have "lround (fl64 ?p) \<in> {0, 1}" by auto
  moreover have "c_int 0 = 0" "c_int 1 = 1" by simp_all
  ultimately show ?thesis using assms(1) by (auto simp: wlx_scale_size_def Let_def)
qed

text \<open>A pixel of a scaled length lies, scaled back, inside the length.\<close>

lemma unscaled_inside:
  assumes s: "0 < content_scale cfg" and n: "1 \<le> n" "of_int n * content_scale cfg \<le> 65535"
    and k: "0 \<le> k" "k < wlx_scale_size cfg n"
  shows "0 \<le> fl64 (of_int k / content_scale cfg)" "fl64 (of_int k / content_scale cfg) < of_int n"
proof -
  let ?s = "content_scale cfg" and ?q = "of_int k / content_scale cfg :: rat"
  have q: "0 \<le> ?q" using s k(1) by simp
  show "0 \<le> fl64 ?q" using fl64_mono[OF q] by simp
  show "fl64 ?q < of_int n"
  proof (cases "of_int n * ?s < 1")
    case True
    with scale_size_tiny[OF s n(1)] k have "k = 0" by simp
    with n(1) show ?thesis by simp
  next
    case False
    then have one: "1 \<le> of_int n * ?s" by simp
    have "of_int (k + 1) \<le> (of_int (wlx_scale_size cfg n) :: rat)" unfolding of_int_le_iff using k(2) by simp
    also have "\<dots> \<le> of_int n * ?s + (1/2 + 1 / 2 ^ 37)"
      using abs_le_D1[OF scale_size_near[OF s one n(2)]] by simp
    finally have k': "of_int k \<le> of_int n * ?s - (1/2 - 1 / 2 ^ 37)" unfolding of_int_add of_int_1 by linarith
    have "0 \<le> (1/2 - 1 / 2 ^ 37 :: rat)" by simp
    then have "of_int k \<le> (65535 :: rat)" using k' n(2) by linarith
    then have e: "of_int k / 2 ^ 53 < (1/2 - 1 / 2 ^ 37 :: rat)" by simp
    have "fl64 ?q \<le> ?q + ?q / 2 ^ 53" using abs_le_D1[OF fl64_near[of ?q]] q by simp
    also have "\<dots> = (of_int k + of_int k / 2 ^ 53) / ?s" by (simp add: add_divide_distrib)
    also have "\<dots> < (of_int n * ?s) / ?s"
      by (rule divide_strict_right_mono[OF _ s]) (use k' e in linarith)
    finally show ?thesis using s by simp
  qed
qed

lemma pointer_inside:
  assumes "0 < content_scale cfg" "1 \<le> w" "of_int w * content_scale cfg \<le> 65535"
    "1 \<le> h" "of_int h * content_scale cfg \<le> 65535"
    and "0 \<le> j" "j < wlx_scale_size cfg w" "0 \<le> k" "k < wlx_scale_size cfg h"
    and "wlx_pointer_to_surface cfg (of_int j, of_int k) = (x, y)"
  shows "0 \<le> x \<and> x < of_int w \<and> 0 \<le> y \<and> y < of_int h"
proof (cases "content_scale cfg = 1")
  case True
  with assms show ?thesis by (auto simp: wlx_pointer_to_surface_def scale_size_one)
next
  case False
  with assms(1,10) unscaled_inside[OF assms(1-3,6,7)] unscaled_inside[OF assms(1,4,5,8,9)]
  show ?thesis by (auto simp: wlx_pointer_to_surface_def)
qed

section \<open>The interface\<close>

text \<open>
  What the size policy needs of a scale: scaled sizes are positive and ordered, and unscaling
  undoes scaling on the sizes that fit.
\<close>

locale size_scaler =
  fixes scale unscale :: "int \<Rightarrow> int" and fits :: "int \<Rightarrow> bool"
  assumes scale_pos: "fits n \<Longrightarrow> 1 \<le> scale n"
    and scale_le: "fits m \<Longrightarrow> fits n \<Longrightarrow> m \<le> n \<Longrightarrow> scale m \<le> scale n"
    and unscale_undoes: "fits n \<Longrightarrow> unscale (scale n) = n"
begin

lemma scale_eq_iff: "fits m \<Longrightarrow> fits n \<Longrightarrow> scale m = scale n \<longleftrightarrow> m = n"
  using unscale_undoes by metis

lemma scale_strict: "fits m \<Longrightarrow> fits n \<Longrightarrow> m < n \<Longrightarrow> scale m < scale n"
  using scale_le[of m n] scale_eq_iff[of m n] by linarith

lemma scale_less_iff: "fits m \<Longrightarrow> fits n \<Longrightarrow> scale m < scale n \<longleftrightarrow> m < n"
  using scale_strict[of m n] scale_le[of n m] by linarith

text \<open>A client configured to fill a host window of a scaled size is sent its own size, and
  fitting the host to that size again leaves the host where it is.\<close>

lemma refit_stable: "fits n \<Longrightarrow> scale (unscale (scale n)) = scale n"
  by (simp add: unscale_undoes)

end

interpretation content: size_scaler "wlx_scale_size cfg" "wlx_unscale_size cfg" "scale_fits cfg"
  for cfg :: wlx_config
proof unfold_locales
  fix m n
  show "scale_fits cfg n \<Longrightarrow> 1 \<le> wlx_scale_size cfg n"
    by (simp add: scale_fits_def scale_size_ge1)
  show "scale_fits cfg n \<Longrightarrow> wlx_unscale_size cfg (wlx_scale_size cfg n) = n"
    by (rule unscale_scale)
  assume m: "scale_fits cfg m" and n: "scale_fits cfg n" and mn: "m \<le> n"
  show "wlx_scale_size cfg m \<le> wlx_scale_size cfg n"
    using mn m n scale_fits_bounds(1)[OF m] scale_fits_bounds(1)[OF n]
    by (intro scale_size_mono) (auto simp: scale_fits_def)
qed

end
