(* ===== verification/Scene.thy ===== *)
theory Scene
  imports Scale
begin

text \<open>
  Content scale on the scene graph (\<open>src/output.c\<close>, lines 54 to 148): buffers get a
  destination size computed from the surface, child positions are multiplied once per surface
  commit, and the roots of popups keep the positions they were given.
\<close>

section \<open>Operations\<close>

text \<open>\<open>popups\<close> holds the scene tree ids of \<open>server->popups\<close>.\<close>

definition scene_node_is_popup_root :: "nat list \<Rightarrow> scene_node \<Rightarrow> bool" where
  "scene_node_is_popup_root popups n \<longleftrightarrow> List.member popups (node_id n)"

definition scale_px :: "rat \<Rightarrow> int \<Rightarrow> int" where
  "scale_px s n = c_int (lround (fl64 (of_int n * s)))"

fun wlr_scene_node_set_position :: "int \<Rightarrow> int \<Rightarrow> scene_node \<Rightarrow> scene_node" where
  "wlr_scene_node_set_position x y (SceneBuffer i e _ _ s w h) = SceneBuffer i e x y s w h"
| "wlr_scene_node_set_position x y (SceneTree i e _ _ cs) = SceneTree i e x y cs"
| "wlr_scene_node_set_position x y (SceneRect i e _ _) = SceneRect i e x y"

definition scale_child_position :: "nat list \<Rightarrow> rat \<Rightarrow> bool \<Rightarrow> scene_node \<Rightarrow> scene_node" where
  "scale_child_position popups s scale_positions c =
     (if scale_positions \<and> \<not> scene_node_is_popup_root popups c \<and> (node_x c \<noteq> 0 \<or> node_y c \<noteq> 0)
      then wlr_scene_node_set_position (scale_px s (node_x c)) (scale_px s (node_y c)) c
      else c)"

lemma size_set_position [simp]: "size (wlr_scene_node_set_position x y n) = size n"
  by (cases n) auto

lemma size_child_position [simp]: "size (scale_child_position r s p c) = size c"
  by (simp add: scale_child_position_def)

function scene_node_apply_scale ::
  "nat list \<Rightarrow> rat \<Rightarrow> bool \<Rightarrow> scene_node \<Rightarrow> scene_node" where
  "scene_node_apply_scale r s p (SceneBuffer i e x y surf w h) =
     (if \<not> e then SceneBuffer i e x y surf w h
      else case surf of
          Some (sid, bw, bh) \<Rightarrow>
            if 0 < bw \<and> 0 < bh then SceneBuffer i e x y surf (scale_px s bw) (scale_px s bh)
            else SceneBuffer i e x y surf w h
        | None \<Rightarrow> SceneBuffer i e x y surf w h)"
| "scene_node_apply_scale r s p (SceneTree i e x y cs) =
     (if \<not> e then SceneTree i e x y cs
      else SceneTree i e x y
        (map (\<lambda>c. scene_node_apply_scale r s (if scene_node_is_popup_root r c then False else p)
                    (scale_child_position r s p c)) cs))"
| "scene_node_apply_scale r s p (SceneRect i e x y) = SceneRect i e x y"
  by pat_completeness auto
termination
proof (relation "measure (\<lambda>(r, s, p, n). size n)", goal_cases)
  case (2 r s p i e x y cs c)
  then have "size c < Suc (size_list size cs)"
    by (meson le_imp_less_Suc size_list_estimation' order_refl)
  then show ?case by simp
qed simp

definition wlx_apply_content_scale_ex ::
  "wlx_config \<Rightarrow> nat list \<Rightarrow> bool \<Rightarrow> wlx_window \<Rightarrow> wlx_window" where
  "wlx_apply_content_scale_ex cfg popups scale_positions win =
     (case scene_tree win of
        None \<Rightarrow> win
      | Some t \<Rightarrow>
          if content_scale cfg \<le> 0 \<or> content_scale cfg = 1 then win
          else win\<lparr>scene_tree :=
                 Some (scene_node_apply_scale popups (content_scale cfg) scale_positions t)\<rparr>)"

definition wlx_apply_content_scale :: "wlx_config \<Rightarrow> nat list \<Rightarrow> wlx_window \<Rightarrow> wlx_window" where
  "wlx_apply_content_scale cfg popups win = wlx_apply_content_scale_ex cfg popups False win"

section \<open>Shape and positions\<close>

lemma child_position_fields [simp]:
  "node_id (scale_child_position r s p c) = node_id c"
  "node_enabled (scale_child_position r s p c) = node_enabled c"
  by (cases c; simp add: scale_child_position_def)+

lemma apply_scale_fields [simp]:
  "node_id (scene_node_apply_scale r s p n) = node_id n"
  "node_enabled (scene_node_apply_scale r s p n) = node_enabled n"
  "node_x (scene_node_apply_scale r s p n) = node_x n"
  "node_y (scene_node_apply_scale r s p n) = node_y n"
  by (cases n; simp split: option.split)+

lemma popup_root_apply [simp]:
  "scene_node_is_popup_root r (scene_node_apply_scale r' s p n) = scene_node_is_popup_root r n"
  "scene_node_is_popup_root r (scale_child_position r' s p n) = scene_node_is_popup_root r n"
  by (simp_all add: scene_node_is_popup_root_def)

lemma child_position_False [simp]: "scale_child_position r s False c = c"
  by (simp add: scale_child_position_def)

text \<open>The positions of a node's subtree, in order.\<close>

fun positions :: "scene_node \<Rightarrow> (int \<times> int) list" where
  "positions (SceneTree i e x y cs) = (x, y) # concat (map positions cs)"
| "positions n = [(node_x n, node_y n)]"

lemma dest_only_keeps_positions: "positions (scene_node_apply_scale r s False n) = positions n"
proof (induction n)
  case (SceneTree i e x y cs)
  then have "concat (map (\<lambda>c. positions (scene_node_apply_scale r s False c)) cs)
      = concat (map positions cs)"
    by (intro arg_cong[of _ _ concat] map_cong) auto
  then show ?case by (simp add: comp_def if_distrib cong: if_cong)
qed (auto split: option.split)

text \<open>A second dest-only pass changes nothing, also after a pass that scaled positions.\<close>

lemma dest_only_after_any:
  "scene_node_apply_scale r s False (scene_node_apply_scale r s p n) = scene_node_apply_scale r s p n"
proof (induction r s p n rule: scene_node_apply_scale.induct)
  case (2 r s p i e x y cs)
  show ?case
  proof (cases e)
    case True
    have "map (\<lambda>c. scene_node_apply_scale r s False
            (scene_node_apply_scale r s (if scene_node_is_popup_root r c then False else p)
              (scale_child_position r s p c))) cs
        = map (\<lambda>c. scene_node_apply_scale r s (if scene_node_is_popup_root r c then False else p)
              (scale_child_position r s p c)) cs"
      using 2 True by (intro map_cong) auto
    then show ?thesis using True by (simp add: comp_def if_distrib cong: if_cong)
  qed simp
qed (auto split: option.split)

text \<open>Where the scale puts a child: at the scaled position unless it is the root of a popup.\<close>

definition child_xy :: "scene_node \<Rightarrow> (int \<times> int) list" where
  "child_xy n = (case n of SceneTree _ _ _ _ cs \<Rightarrow> map (\<lambda>c. (node_x c, node_y c)) cs | _ \<Rightarrow> [])"

lemma scale_px_0 [simp]: "scale_px s 0 = 0"
  by (simp add: scale_px_def)

lemma child_position_xy:
  "node_x (scale_child_position r s True c)
     = (if scene_node_is_popup_root r c then node_x c else scale_px s (node_x c))"
  "node_y (scale_child_position r s True c)
     = (if scene_node_is_popup_root r c then node_y c else scale_px s (node_y c))"
  by (cases c; auto simp: scale_child_position_def)+

lemma scaled_child_xy:
  "child_xy (scene_node_apply_scale r s True (SceneTree i True x y cs))
   = map (\<lambda>c. if scene_node_is_popup_root r c then (node_x c, node_y c)
              else (scale_px s (node_x c), scale_px s (node_y c))) cs"
  by (auto simp: child_xy_def child_position_xy)

text \<open>
  Two position passes without a reset of the scene between them compound: the reason the
  frame handler and the resize hold use the dest-only pass.
\<close>

lemma two_position_passes:
  "child_xy (scene_node_apply_scale r s True (scene_node_apply_scale r s True (SceneTree i True x y cs)))
   = map (\<lambda>c. if scene_node_is_popup_root r c then (node_x c, node_y c)
              else (scale_px s (scale_px s (node_x c)), scale_px s (scale_px s (node_y c)))) cs"
  by (auto simp: child_xy_def child_position_xy)

section \<open>On windows\<close>

lemma content_scale_ex_frame [frame_simps, simp]:
  "w_output (wlx_apply_content_scale_ex c r p w) = w_output w"
  "toplevel (wlx_apply_content_scale_ex c r p w) = toplevel w"
  "w_log (wlx_apply_content_scale_ex c r p w) = w_log w"
  "size_from_wm (wlx_apply_content_scale_ex c r p w) = size_from_wm w"
  "listeners (wlx_apply_content_scale_ex c r p w) = listeners w"
  "last_client_conf_w (wlx_apply_content_scale_ex c r p w) = last_client_conf_w w"
  "last_client_conf_h (wlx_apply_content_scale_ex c r p w) = last_client_conf_h w"
  "last_output_width (wlx_apply_content_scale_ex c r p w) = last_output_width w"
  "last_output_height (wlx_apply_content_scale_ex c r p w) = last_output_height w"
  "fit_last_w (wlx_apply_content_scale_ex c r p w) = fit_last_w w"
  "fit_last_h (wlx_apply_content_scale_ex c r p w) = fit_last_h w"
  "fit_prev_w (wlx_apply_content_scale_ex c r p w) = fit_prev_w w"
  "fit_prev_h (wlx_apply_content_scale_ex c r p w) = fit_prev_h w"
  "fit_last_msec (wlx_apply_content_scale_ex c r p w) = fit_last_msec w"
  "xwin (wlx_apply_content_scale_ex c r p w) = xwin w"
  "content_xwin (wlx_apply_content_scale_ex c r p w) = content_xwin w"
  "csd_margin_w (wlx_apply_content_scale_ex c r p w) = csd_margin_w w"
  "csd_margin_h (wlx_apply_content_scale_ex c r p w) = csd_margin_h w"
  "fill_host_last_msec (wlx_apply_content_scale_ex c r p w) = fill_host_last_msec w"
  "w_id (wlx_apply_content_scale_ex c r p w) = w_id w"
  "hold_present (wlx_apply_content_scale_ex c r p w) = hold_present w"
  "scene_output (wlx_apply_content_scale_ex c r p w) = scene_output w"
  "initial_configure_sent (wlx_apply_content_scale_ex c r p w) = initial_configure_sent w"
  "related (wlx_apply_content_scale_ex c r p w) = related w"
  "pending_decoration (wlx_apply_content_scale_ex c r p w) = pending_decoration w"
  "last_title (wlx_apply_content_scale_ex c r p w) = last_title w"
  "last_app_id (wlx_apply_content_scale_ex c r p w) = last_app_id w"
  "l_output (wlx_apply_content_scale_ex c r p w) = l_output w"
  by (simp_all add: wlx_apply_content_scale_ex_def split: option.split)

text \<open>
  However often the frame handler refreshes the scale after a surface commit
  has scaled the scene, the scene stays as the commit left it: destination sizes and positions
  are scaled exactly once.
\<close>

theorem frames_do_not_drift:
  "(wlx_apply_content_scale cfg popups ^^ k) (wlx_apply_content_scale_ex cfg popups True w)
   = wlx_apply_content_scale_ex cfg popups True w"
proof -
  have step: "wlx_apply_content_scale cfg popups (wlx_apply_content_scale_ex cfg popups True w)
      = wlx_apply_content_scale_ex cfg popups True w"
    by (auto simp: wlx_apply_content_scale_def wlx_apply_content_scale_ex_def dest_only_after_any
        split: option.splits)
  show ?thesis by (induction k) (simp_all add: step)
qed

end
