(* ===== verification/X11_Output.thy ===== *)
theory X11_Output
  imports Wlx_Types
begin

text \<open>
  The output the compositor drives: the X11 backend's size path
  (\<open>subprojects/wlroots/backend/x11/output.c\<close>: the pending self-configure, the ConfigureNotify
  filter, the commit order) below wlroots' commit of an output state
  (\<open>types/output/output.c\<close>). An output state carries the two fields the compositor commits,
  a custom mode (with refresh 0) and the enabled flag.
\<close>

section \<open>The backend\<close>

text \<open>
  After the resize the X server is asked where the pointer now is in the window: that call takes the next
  sequence number of the connection and stands in the trace. What the output's pointer device makes of
  the answer is \<open>update_x11_pointer_position\<close> of theory \<open>X11_Input\<close>; it does not touch this state.
\<close>

definition output_set_custom_mode :: "int \<Rightarrow> int \<Rightarrow> x11_output \<Rightarrow> x11_output \<times> wlr_call list" where
  "output_set_custom_mode width height x =
     (if width = win_width x \<and> height = win_height x \<and> \<not> has_pending_configure x then (x, [])
      else
        let seq = o_conn_seq x + 1
        in (x\<lparr>o_conn_seq := seq + 1,
              last_configure_seq := of_nat seq,
              has_configure_seq := True,
              pending_width := width,
              pending_height := height,
              has_pending_configure := True,
              win_width := width,
              win_height := height\<rparr>,
            [ConfigureSize (o_win x) width height, UpdatePointerPosition (o_win x)]))"

text \<open>A ConfigureNotify event: size as \<open>uint16_t\<close> values, the 16-bit sequence of the last
  request the server had processed. The result is the size of the \<open>request_state\<close> sent, if any.\<close>

record configure_notify =
  ev_width :: int
  ev_height :: int
  ev_sequence :: "16 word"

definition clear_pending :: "x11_output \<Rightarrow> x11_output" where
  "clear_pending x = x\<lparr>has_pending_configure := False, pending_width := 0, pending_height := 0\<rparr>"

definition notify_stale :: "configure_notify \<Rightarrow> x11_output \<Rightarrow> bool" where
  "notify_stale ev x \<longleftrightarrow> has_configure_seq x \<and> sint (ev_sequence ev - last_configure_seq x) < 0"

definition handle_x11_configure_notify ::
  "configure_notify \<Rightarrow> x11_output \<Rightarrow> x11_output \<times> (int \<times> int) option" where
  "handle_x11_configure_notify ev x =
     (if ev_width ev = 0 \<or> ev_height ev = 0 then (x, None)
      else if notify_stale ev x then (x, None)
      else if has_pending_configure x \<and> ev_width ev = pending_width x
              \<and> ev_height ev = pending_height x then (clear_pending x, None)
      else if ev_width ev = win_width x \<and> ev_height ev = win_height x then (x, None)
      else (if has_pending_configure x then clear_pending x else x,
            Some (ev_width ev, ev_height ev)))"

definition wlr_x11_output_get_pending_size :: "x11_output \<Rightarrow> int \<times> int" where
  "wlr_x11_output_get_pending_size x =
     (if has_pending_configure x then (pending_width x, pending_height x) else (0, 0))"

section \<open>Committing an output state\<close>

record output_state =
  os_mode :: "(int \<times> int) option"
  os_enabled :: "bool option"

definition custom_mode :: "int \<Rightarrow> int \<Rightarrow> output_state" where
  "custom_mode w h = \<lparr>os_mode = Some (w, h), os_enabled = None\<rparr>"

text \<open>\<open>output_compare_state\<close>: the fields that would not change are dropped.\<close>

definition drop_unchanged :: "output_state \<Rightarrow> x11_output \<Rightarrow> output_state" where
  "drop_unchanged st x =
     \<lparr>os_mode = (case os_mode st of
          Some (w, h) \<Rightarrow> if o_width x = w \<and> o_height x = h then None else Some (w, h)
        | None \<Rightarrow> None),
      os_enabled = (case os_enabled st of
          Some e \<Rightarrow> if o_enabled x = e then None else Some e
        | None \<Rightarrow> None)\<rparr>"

definition output_pending_resolution :: "output_state \<Rightarrow> x11_output \<Rightarrow> int \<times> int" where
  "output_pending_resolution st x =
     (case os_mode st of Some m \<Rightarrow> m | None \<Rightarrow> (o_width x, o_height x))"

definition output_pending_enabled :: "output_state \<Rightarrow> x11_output \<Rightarrow> bool" where
  "output_pending_enabled st x = (case os_enabled st of Some e \<Rightarrow> e | None \<Rightarrow> o_enabled x)"

definition output_basic_test :: "output_state \<Rightarrow> x11_output \<Rightarrow> bool" where
  "output_basic_test st x =
     (let enabled = output_pending_enabled st x; (w, h) = output_pending_resolution st x
      in if enabled \<and> (os_enabled st \<noteq> None \<or> os_mode st \<noteq> None) \<and> (w = 0 \<or> h = 0) then False
         else if \<not> enabled \<and> os_mode st \<noteq> None then False
         else True)"

text \<open>\<open>output_ensure_buffer\<close>, after \<open>wlr_output_init_render\<close>: whether an empty buffer is needed.
  Both setters the compositor calls set \<open>allow_reconfiguration\<close>.\<close>

definition needs_new_buffer :: "output_state \<Rightarrow> x11_output \<Rightarrow> bool" where
  "needs_new_buffer st x \<longleftrightarrow>
     os_enabled st = Some True \<or> os_mode st \<noteq> None
     \<or> (o_commit_seq x = 0 \<and> output_pending_enabled st x)"

text \<open>The backend's \<open>output_commit\<close>: mode before map before buffer. The buffer attached by
  \<open>output_ensure_buffer\<close> has the pending size and the backend's format, so \<open>output_test\<close>
  passes; importing it into X can still fail.\<close>

definition backend_commit ::
  "wlx_env \<Rightarrow> output_state \<Rightarrow> x11_output \<Rightarrow> bool \<times> x11_output \<times> wlr_call list" where
  "backend_commit env st x =
     (let (x1, c1) = (case os_mode st of
              Some (w, h) \<Rightarrow> output_set_custom_mode w h x
            | None \<Rightarrow> (x, []));
          c2 = (case os_enabled st of
              Some e \<Rightarrow> [if e then MapWindow (o_win x) else UnmapWindow (o_win x)]
            | None \<Rightarrow> [])
      in if needs_new_buffer st x then
           let (w, h) = output_pending_resolution st x
           in if import_ok env w h then (True, x1, c1 @ c2 @ [PresentPixmap (o_win x)])
              else (False, x1, c1 @ c2)
         else (True, x1, c1 @ c2))"

definition output_apply_commit :: "output_state \<Rightarrow> x11_output \<Rightarrow> x11_output" where
  "output_apply_commit st x =
     (let x1 = x\<lparr>o_commit_seq := o_commit_seq x + 1\<rparr>;
          x2 = (case os_enabled st of Some e \<Rightarrow> x1\<lparr>o_enabled := e\<rparr> | None \<Rightarrow> x1)
      in case os_mode st of
           Some (w, h) \<Rightarrow> x2\<lparr>o_width := w, o_height := h\<rparr>
         | None \<Rightarrow> x2)"

definition wlr_output_commit_state ::
  "wlx_env \<Rightarrow> output_state \<Rightarrow> x11_output \<Rightarrow> bool \<times> x11_output \<times> wlr_call list" where
  "wlr_output_commit_state env state x =
     (let st = drop_unchanged state x; (w, h) = output_pending_resolution st x
      in if \<not> output_basic_test st x then (False, x, [])
         else if needs_new_buffer st x \<and> \<not> (0 < w \<and> 0 < h \<and> alloc_ok env w h) then (False, x, [])
         else case backend_commit env st x of
             (False, x', cs) \<Rightarrow> (False, x', cs)
           | (True, x', cs) \<Rightarrow> (True, output_apply_commit st x', cs))"

text \<open>The output of \<open>x11_output_create\<close>: an unmapped 1x1 placeholder.\<close>

definition x11_output_create :: "xid \<Rightarrow> nat \<Rightarrow> x11_output" where
  "x11_output_create win seq =
     \<lparr>o_win = win, o_width = 1, o_height = 1, o_enabled = False, o_commit_seq = 0,
      win_width = 1, win_height = 1, last_configure_seq = 0, has_configure_seq = False,
      pending_width = 0, pending_height = 0, has_pending_configure = False, o_conn_seq = seq\<rparr>"

section \<open>The invariant of the size path\<close>

text \<open>
  \<open>out_ok\<close>: a pending configure is for the size the backend claims the window has; without one
  the pending size is cleared; and the size of the \<open>wlr_output\<close> is the size of the window.
\<close>

definition pending_ok :: "x11_output \<Rightarrow> bool" where
  "pending_ok x \<longleftrightarrow>
     (if has_pending_configure x
      then pending_width x = win_width x \<and> pending_height x = win_height x \<and> has_configure_seq x
      else pending_width x = 0 \<and> pending_height x = 0)"

definition sizes_agree :: "x11_output \<Rightarrow> bool" where
  "sizes_agree x \<longleftrightarrow> o_width x = win_width x \<and> o_height x = win_height x"

definition out_ok :: "x11_output \<Rightarrow> bool" where
  "out_ok x \<longleftrightarrow> pending_ok x \<and> sizes_agree x"

lemma out_ok_create: "out_ok (x11_output_create win seq)"
  by (simp add: out_ok_def pending_ok_def sizes_agree_def x11_output_create_def)

lemma set_custom_mode_pending_ok:
  "pending_ok x \<Longrightarrow> pending_ok (fst (output_set_custom_mode w h x))"
  by (simp add: output_set_custom_mode_def pending_ok_def Let_def)

lemma set_custom_mode_fields [simp]:
  "o_width (fst (output_set_custom_mode w h x)) = o_width x"
  "o_height (fst (output_set_custom_mode w h x)) = o_height x"
  "o_win (fst (output_set_custom_mode w h x)) = o_win x"
  "o_enabled (fst (output_set_custom_mode w h x)) = o_enabled x"
  "o_commit_seq (fst (output_set_custom_mode w h x)) = o_commit_seq x"
  "win_width (fst (output_set_custom_mode w h x)) = w"
  "win_height (fst (output_set_custom_mode w h x)) = h"
  by (simp_all add: output_set_custom_mode_def Let_def)

lemma clear_pending_ok [simp]: "pending_ok (clear_pending x)"
  by (simp add: pending_ok_def clear_pending_def)

lemma clear_pending_sizes [simp]:
  "sizes_agree (clear_pending x) = sizes_agree x"
  "o_width (clear_pending x) = o_width x" "o_height (clear_pending x) = o_height x"
  "win_width (clear_pending x) = win_width x" "win_height (clear_pending x) = win_height x"
  "o_win (clear_pending x) = o_win x" "o_enabled (clear_pending x) = o_enabled x"
  "\<not> has_pending_configure (clear_pending x)"
  by (simp_all add: clear_pending_def sizes_agree_def)

lemma configure_notify_ok:
  "out_ok x \<Longrightarrow> out_ok (fst (handle_x11_configure_notify ev x))"
  by (simp add: handle_x11_configure_notify_def out_ok_def)

lemma configure_notify_sizes [simp]:
  "o_width (fst (handle_x11_configure_notify ev x)) = o_width x"
  "o_height (fst (handle_x11_configure_notify ev x)) = o_height x"
  "o_win (fst (handle_x11_configure_notify ev x)) = o_win x"
  "o_enabled (fst (handle_x11_configure_notify ev x)) = o_enabled x"
  by (simp_all add: handle_x11_configure_notify_def)

lemma apply_commit_fields [simp]:
  "o_win (output_apply_commit st x) = o_win x"
  "win_width (output_apply_commit st x) = win_width x"
  "win_height (output_apply_commit st x) = win_height x"
  "pending_ok (output_apply_commit st x) = pending_ok x"
  "has_pending_configure (output_apply_commit st x) = has_pending_configure x"
  by (simp_all add: output_apply_commit_def Let_def pending_ok_def split: option.split)

text \<open>The output after the mode part of a commit, the only part that can precede a failure.\<close>

definition mode_applied :: "output_state \<Rightarrow> x11_output \<Rightarrow> x11_output" where
  "mode_applied st x =
     (case os_mode st of Some m \<Rightarrow> fst (output_set_custom_mode (fst m) (snd m) x) | None \<Rightarrow> x)"

lemma backend_commit_out: "fst (snd (backend_commit env st x)) = mode_applied st x"
  by (cases "os_mode st") (auto simp: backend_commit_def mode_applied_def Let_def split: prod.split)

lemma commit_state_cases:
  assumes "wlr_output_commit_state env state x = (ok, x', cs)"
  shows "(\<not> ok \<and> x' = x \<and> cs = []) \<or> (\<not> ok \<and> x' = mode_applied (drop_unchanged state x) x)
    \<or> (ok \<and> x' = output_apply_commit (drop_unchanged state x) (mode_applied (drop_unchanged state x) x))"
proof -
  let ?st = "drop_unchanged state x"
  obtain ok1 x1 cs1 where b: "backend_commit env ?st x = (ok1, x1, cs1)"
    by (cases "backend_commit env ?st x") auto
  with backend_commit_out[of env ?st x] have "x1 = mode_applied ?st x" by simp
  with assms b show ?thesis
    by (cases ok1) (auto simp: wlr_output_commit_state_def Let_def split: prod.splits if_splits)
qed

lemma mode_applied_pending_ok: "pending_ok x \<Longrightarrow> pending_ok (mode_applied st x)"
  by (cases "os_mode st") (simp_all add: mode_applied_def set_custom_mode_pending_ok)

lemma mode_applied_fields [simp]:
  "o_win (mode_applied st x) = o_win x" "o_width (mode_applied st x) = o_width x"
  "o_height (mode_applied st x) = o_height x" "o_enabled (mode_applied st x) = o_enabled x"
  by (cases "os_mode st"; simp add: mode_applied_def)+

lemma commit_state_pending_ok:
  "pending_ok x \<Longrightarrow> wlr_output_commit_state env st x = (ok, x', cs) \<Longrightarrow> pending_ok x'"
  by (auto dest!: commit_state_cases simp: mode_applied_pending_ok)

lemma commit_state_win [simp]:
  "wlr_output_commit_state env st x = (ok, x', cs) \<Longrightarrow> o_win x' = o_win x"
  by (auto dest!: commit_state_cases)

text \<open>A commit that succeeds leaves the two sizes equal; one that fails may not.\<close>

lemma apply_mode_agree:
  "sizes_agree x \<Longrightarrow> sizes_agree (output_apply_commit st (mode_applied st x))"
  by (auto simp: sizes_agree_def output_apply_commit_def mode_applied_def Let_def split: option.split)

lemma commit_state_agree:
  "sizes_agree x \<Longrightarrow> wlr_output_commit_state env st x = (True, x', cs) \<Longrightarrow> sizes_agree x'"
  using commit_state_cases[of env st x True x' cs] by (auto simp: apply_mode_agree)

lemma commit_state_ok:
  "out_ok x \<Longrightarrow> wlr_output_commit_state env st x = (True, x', cs) \<Longrightarrow> out_ok x'"
  using commit_state_agree commit_state_pending_ok by (auto simp: out_ok_def)

lemma commit_state_size:
  assumes "wlr_output_commit_state env (custom_mode w h) x = (True, x', cs)"
  shows "o_width x' = w" "o_height x' = h"
proof -
  have "x' = output_apply_commit (drop_unchanged (custom_mode w h) x)
      (mode_applied (drop_unchanged (custom_mode w h) x) x)"
    using commit_state_cases[OF assms] by simp
  then show "o_width x' = w" "o_height x' = h"
    by (auto simp: drop_unchanged_def custom_mode_def output_apply_commit_def Let_def)
qed

text \<open>When the X server takes every buffer the allocator made, no commit tears the two apart.\<close>

definition import_total :: "wlx_env \<Rightarrow> bool" where
  "import_total env \<longleftrightarrow> (\<forall>w h. alloc_ok env w h \<longrightarrow> import_ok env w h)"

lemma backend_commit_result:
  "fst (backend_commit env st x) \<longleftrightarrow> \<not> needs_new_buffer st x
     \<or> import_ok env (fst (output_pending_resolution st x)) (snd (output_pending_resolution st x))"
  by (simp add: backend_commit_def Let_def split: prod.split)

lemma commit_state_ok_total:
  assumes "out_ok x" "import_total env" "wlr_output_commit_state env st x = (ok, x', cs)"
  shows "out_ok x'"
proof (cases ok)
  case True
  with assms show ?thesis using commit_state_ok[of x env st x' cs] by simp
next
  case False
  let ?st = "drop_unchanged st x"
  obtain w h where r: "output_pending_resolution ?st x = (w, h)" by fastforce
  obtain ok1 x1 cs1 where b: "backend_commit env ?st x = (ok1, x1, cs1)"
    by (cases "backend_commit env ?st x") auto
  have "ok1" if "\<not> (needs_new_buffer ?st x \<and> \<not> (0 < w \<and> 0 < h \<and> alloc_ok env w h))"
    using that b r assms(2) backend_commit_result[of env ?st x] by (auto simp: import_total_def)
  with assms(3) False b r have "x' = x"
    by (cases ok1) (simp_all add: wlr_output_commit_state_def Let_def split: if_split_asm)
  with assms(1) show ?thesis by simp
qed

section \<open>When a mode commit succeeds\<close>

definition mode_ok :: "wlx_env \<Rightarrow> int \<Rightarrow> int \<Rightarrow> bool" where
  "mode_ok env w h \<longleftrightarrow> 0 < w \<and> 0 < h \<and> alloc_ok env w h \<and> import_ok env w h"

lemma mode_commit_succeeds:
  assumes "o_enabled x" "mode_ok env w h" "(w, h) \<noteq> (o_width x, o_height x)"
  shows "wlr_output_commit_state env (custom_mode w h) x =
    (True, output_apply_commit (custom_mode w h) (fst (output_set_custom_mode w h x)),
     snd (output_set_custom_mode w h x) @ [PresentPixmap (o_win x)])"
proof -
  have d: "drop_unchanged (custom_mode w h) x = custom_mode w h"
    using assms(3) by (auto simp: drop_unchanged_def custom_mode_def)
  have n: "needs_new_buffer (custom_mode w h) x"
    by (simp add: needs_new_buffer_def custom_mode_def)
  have r: "output_pending_resolution (custom_mode w h) x = (w, h)"
    by (simp add: output_pending_resolution_def custom_mode_def)
  have t: "output_basic_test (custom_mode w h) x"
    using assms r by (auto simp: output_basic_test_def mode_ok_def output_pending_enabled_def
        output_pending_resolution_def custom_mode_def)
  have b: "backend_commit env (custom_mode w h) x = (True, fst (output_set_custom_mode w h x),
      snd (output_set_custom_mode w h x) @ [PresentPixmap (o_win x)])"
    using assms(2) n r by (simp add: backend_commit_def mode_ok_def custom_mode_def split: prod.split)
  show ?thesis
    using assms(2) by (simp add: wlr_output_commit_state_def d n r t b mode_ok_def)
qed

section \<open>Sequence numbers\<close>

text \<open>
  The staleness test compares 16-bit sequences by the sign of their difference. As long as the
  server is within \<open>2 ^ 15\<close> requests of the last ConfigureWindow it orders them as the full
  counters do.
\<close>

lemma sint_sub_of_nat:
  assumes "\<bar>int s - int l\<bar> < 2 ^ 15"
  shows "sint (of_nat s - of_nat l :: 16 word) = int s - int l"
proof -
  have "(of_nat s - of_nat l :: 16 word) = word_of_int (int s - int l)" by simp
  then have "sint (of_nat s - of_nat l :: 16 word) = signed_take_bit 15 (int s - int l)"
    by (simp only: sint_sbintrunc') simp
  then show ?thesis using assms by (simp add: signed_take_bit_int_eq_self)
qed

lemma notify_stale_iff:
  assumes "has_configure_seq x" "last_configure_seq x = of_nat l" "ev_sequence ev = of_nat s"
    "\<bar>int s - int l\<bar> < 2 ^ 15"
  shows "notify_stale ev x \<longleftrightarrow> s < l"
  using assms sint_sub_of_nat[OF assms(4)] by (simp add: notify_stale_def)

end
