(* ===== verification/X11_Props.thy ===== *)
theory X11_Props
  imports Scale
begin

text \<open>
  Properties and messages written on host windows: titles, classes, decorations, transient and
  dialog hints and \<open>WM_NORMAL_HINTS\<close> (\<open>src/x11.c\<close>, lines 53 to 172 and 244 to 258;
  \<open>src/output.c\<close>, lines 401 to 602; \<open>src/dnd.c\<close>, lines 21 to 44).
  Every operation appends its requests to the trace of the window it acts for.
\<close>

section \<open>Titles, classes, decorations\<close>

definition xwin_set_title :: "wlx_config \<Rightarrow> xid \<Rightarrow> string option \<Rightarrow> wlx_window \<Rightarrow> wlx_window" where
  "xwin_set_title cfg x title win =
     (if \<not> have_xcb cfg \<or> x = XCB_WINDOW_NONE then win
      else emit (TitleProp x (case title of None \<Rightarrow> '''' | Some t \<Rightarrow> t)) win)"

text \<open>\<open>WM_CLASS\<close> is the instance and the class name, each with its terminating zero byte.\<close>

definition wm_class_value :: "string \<Rightarrow> string" where
  "wm_class_value app_id = app_id @ [CHR 0x00] @ app_id @ [CHR 0x00]"

definition xwin_set_class :: "wlx_config \<Rightarrow> xid \<Rightarrow> string option \<Rightarrow> wlx_window \<Rightarrow> wlx_window" where
  "xwin_set_class cfg x app_id win =
     (if \<not> have_xcb cfg \<or> x = XCB_WINDOW_NONE then win
      else
        let a = (case app_id of None \<Rightarrow> ''wayland'' | Some s \<Rightarrow> if s = '''' then ''wayland'' else s)
        in emit (ClassProp x (wm_class_value a)) win)"

definition xwin_set_motif_decorations :: "wlx_config \<Rightarrow> xid \<Rightarrow> bool \<Rightarrow> wlx_window \<Rightarrow> wlx_window" where
  "xwin_set_motif_decorations cfg x decorations win =
     (if \<not> have_xcb cfg \<or> x = XCB_WINDOW_NONE \<or> atom_motif cfg = 0 then win
      else emit (MotifProp x [2 ^ 1, 0, (if decorations then 2 ^ 0 else 0), 0, 0]) win)"

section \<open>Client messages\<close>

definition send_root_client_message ::
  "wlx_config \<Rightarrow> xid \<Rightarrow> atom \<Rightarrow> atom list \<Rightarrow> wlx_window \<Rightarrow> wlx_window" where
  "send_root_client_message cfg window type data win =
     (if \<not> have_xcb cfg \<or> window = XCB_WINDOW_NONE then win
      else emit (ClientMessage window type data) win)"

definition send_net_wm_state ::
  "wlx_config \<Rightarrow> xid \<Rightarrow> bool \<Rightarrow> atom \<Rightarrow> atom \<Rightarrow> wlx_window \<Rightarrow> wlx_window" where
  "send_net_wm_state cfg x add prop1 prop2 win =
     send_root_client_message cfg x (atom_net_wm_state cfg)
       [if add then 1 else 0, prop1, prop2, 1, 0] win"

section \<open>Which X window a message goes to\<close>

definition ewmh_target_window :: "wlx_window \<Rightarrow> xid" where
  "ewmh_target_window win =
     (if content_xwin win \<noteq> XCB_WINDOW_NONE then content_xwin win else xwin win)"

definition configure_target_window :: "wlx_window \<Rightarrow> xid" where
  "configure_target_window win = ewmh_target_window win"

definition outer_position_window :: "wlx_window \<Rightarrow> xid" where
  "outer_position_window win =
     (if xwin win \<noteq> XCB_WINDOW_NONE then xwin win else content_xwin win)"

section \<open>Transient and dialog hints\<close>

definition xwin_set_transient_for :: "wlx_config \<Rightarrow> xid \<Rightarrow> xid \<Rightarrow> wlx_window \<Rightarrow> wlx_window" where
  "xwin_set_transient_for cfg x parent win =
     (if \<not> have_xcb cfg \<or> x = XCB_WINDOW_NONE \<or> parent = XCB_WINDOW_NONE
         \<or> atom_transient_for cfg = 0 then win
      else emit (TransientProp x parent) win)"

definition xwin_set_window_type_dialog :: "wlx_config \<Rightarrow> xid \<Rightarrow> bool \<Rightarrow> wlx_window \<Rightarrow> wlx_window" where
  "xwin_set_window_type_dialog cfg x dialog win =
     (if \<not> have_xcb cfg \<or> x = XCB_WINDOW_NONE \<or> atom_window_type cfg = 0 then win
      else if (if dialog then atom_type_dialog cfg else atom_type_normal cfg) = 0 then win
      else emit (WindowTypeProp x dialog) win)"

definition xwin_set_modal :: "wlx_config \<Rightarrow> xid \<Rightarrow> bool \<Rightarrow> wlx_window \<Rightarrow> wlx_window" where
  "xwin_set_modal cfg x modal win =
     (if \<not> have_xcb cfg \<or> x = XCB_WINDOW_NONE \<or> atom_modal cfg = 0 then win
      else if modal then emit (ModalProp x) win else win)"

definition dnd_set_xdnd_aware :: "wlx_config \<Rightarrow> xid \<Rightarrow> wlx_window \<Rightarrow> wlx_window" where
  "dnd_set_xdnd_aware cfg x win =
     (if \<not> have_xcb cfg \<or> x = XCB_WINDOW_NONE \<or> atom_xdnd_aware cfg = 0
         \<or> clipboard_window cfg = XCB_WINDOW_NONE then win
      else emit_all [XdndAwareProp x, XdndAwareProp (clipboard_window cfg)] win)"

definition select_window_events :: "wlx_config \<Rightarrow> xid \<Rightarrow> wlx_window \<Rightarrow> wlx_window" where
  "select_window_events cfg x win =
     (if \<not> have_xcb cfg \<or> x = XCB_WINDOW_NONE then win else emit (SelectEvents x) win)"

section \<open>Queries\<close>

definition query_window_root_position :: "wlx_config \<Rightarrow> wlx_env \<Rightarrow> xid \<Rightarrow> (int \<times> int) option" where
  "query_window_root_position cfg env x =
     (if \<not> have_xcb cfg \<or> x = XCB_WINDOW_NONE then None else q_root_pos env x)"

definition query_window_geometry :: "wlx_config \<Rightarrow> wlx_env \<Rightarrow> xid \<Rightarrow> (int \<times> int) option" where
  "query_window_geometry cfg env x =
     (if \<not> have_xcb cfg \<or> x = XCB_WINDOW_NONE then None else q_geometry env x)"

definition query_root_pointer_position :: "wlx_config \<Rightarrow> wlx_env \<Rightarrow> (int \<times> int) option" where
  "query_root_pointer_position cfg env = (if \<not> have_xcb cfg then None else q_pointer env)"

definition window_content_root_position ::
  "wlx_config \<Rightarrow> wlx_env \<Rightarrow> wlx_window \<Rightarrow> (int \<times> int) option" where
  "window_content_root_position cfg env win =
     (let t0 = (case w_output win of Some x \<Rightarrow> o_win x | None \<Rightarrow> XCB_WINDOW_NONE);
          target = (if t0 = XCB_WINDOW_NONE
                    then if content_xwin win \<noteq> XCB_WINDOW_NONE then content_xwin win else xwin win
                    else t0)
      in if target = XCB_WINDOW_NONE then None else query_window_root_position cfg env target)"

section \<open>Size hints\<close>

text \<open>The 18 words of \<open>XSizeHints\<close>: flags, two unused positions, size, minimum, maximum.\<close>

definition size_hints_words :: "int \<Rightarrow> int \<Rightarrow> int \<Rightarrow> int \<Rightarrow> int \<Rightarrow> int \<Rightarrow> int list" where
  "size_hints_words width height min_w min_h max_w max_h =
     (let base = 2 ^ 3 + 2 ^ 4;
          has_max = 0 < max_w \<and> 0 < max_h
      in [if has_max then base + 2 ^ 5 else base, 0, 0, width, height,
          if 0 < min_w then min_w else 1, if 0 < min_h then min_h else 1,
          if has_max then max_w else 0, if has_max then max_h else 0] @ replicate 9 0)"

definition xwin_set_size_hints ::
  "wlx_config \<Rightarrow> xid \<Rightarrow> int \<Rightarrow> int \<Rightarrow> int \<Rightarrow> int \<Rightarrow> int \<Rightarrow> int \<Rightarrow> wlx_window \<Rightarrow> wlx_window" where
  "xwin_set_size_hints cfg x width height min_w min_h max_w max_h win =
     (if \<not> have_xcb cfg \<or> x = XCB_WINDOW_NONE \<or> atom_normal_hints cfg = 0
         \<or> atom_size_hints cfg = 0 \<or> width \<le> 0 \<or> height \<le> 0 then win
      else emit (SizeHintsProp x (size_hints_words width height min_w min_h max_w max_h)) win)"

text \<open>Host limits from the client's: \<open>(min_w, min_h, max_w, max_h)\<close> in host pixels, a maximum
  of 0 where the client sets none.\<close>

definition host_limits :: "wlx_config \<Rightarrow> toplevel_state \<Rightarrow> int \<times> int \<times> int \<times> int" where
  "host_limits cfg st =
     (let has_max = 0 < st_max_width st \<and> 0 < st_max_height st
      in (if 0 < st_min_width st then wlx_scale_size cfg (st_min_width st) else 1,
          if 0 < st_min_height st then wlx_scale_size cfg (st_min_height st) else 1,
          if has_max then wlx_scale_size cfg (st_max_width st) else 0,
          if has_max then wlx_scale_size cfg (st_max_height st) else 0))"

definition win_sync_size_hints :: "wlx_config \<Rightarrow> wlx_window \<Rightarrow> wlx_window" where
  "win_sync_size_hints cfg win =
     (if xwin win = XCB_WINDOW_NONE then win
      else
        let width = (if 0 < last_output_width win then last_output_width win
                     else case w_output win of Some x \<Rightarrow> o_width x | None \<Rightarrow> 0);
            height = (if 0 < last_output_height win then last_output_height win
                      else case w_output win of Some x \<Rightarrow> o_height x | None \<Rightarrow> 0)
        in if width \<le> 0 \<or> height \<le> 0 then win
           else case host_limits cfg (tl_current (toplevel win)) of
             (min_w, min_h, max_w, max_h) \<Rightarrow>
               let win1 = xwin_set_size_hints cfg (xwin win) width height min_w min_h max_w max_h win
               in if content_xwin win \<noteq> XCB_WINDOW_NONE \<and> content_xwin win \<noteq> xwin win
                  then xwin_set_size_hints cfg (content_xwin win) width height
                         min_w min_h max_w max_h win1
                  else win1)"

section \<open>These operations only write the trace\<close>

text \<open>\<open>log_only w w'\<close>: \<open>w'\<close> is \<open>w\<close> with requests appended, none of them a resize or a
  configure of the client, and none maps a window.\<close>

fun quiet :: "wlr_call \<Rightarrow> bool" where
  "quiet c = (\<not> is_resize c \<and> \<not> is_set_size c \<and> \<not> is_map c)"

definition log_only :: "wlx_window \<Rightarrow> wlx_window \<Rightarrow> bool" where
  "log_only w w' \<longleftrightarrow> (\<exists>cs. w' = emit_all cs w \<and> list_all quiet cs)"

lemma log_onlyI: "w' = emit_all cs w \<Longrightarrow> list_all quiet cs \<Longrightarrow> log_only w w'"
  by (auto simp: log_only_def)

lemma log_only_refl [simp]: "log_only w w"
  by (rule log_onlyI[of _ "[]"]) simp_all

lemma log_only_emit [simp]: "quiet c \<Longrightarrow> log_only w (emit c w)"
  by (rule log_onlyI[of _ "[c]"]) (simp_all add: emit_def emit_all_def)

lemma log_only_emit_all [simp]: "list_all quiet cs \<Longrightarrow> log_only w (emit_all cs w)"
  by (rule log_onlyI) simp_all

lemma log_only_trans [trans]: "log_only a b \<Longrightarrow> log_only b c \<Longrightarrow> log_only a c"
proof -
  assume "log_only a b" "log_only b c"
  then obtain cs ds where "b = emit_all cs a" "list_all quiet cs" "c = emit_all ds b" "list_all quiet ds"
    by (auto simp: log_only_def)
  then show "log_only a c" by (intro log_onlyI[of _ "cs @ ds"]) (simp_all add: emit_all_def)
qed

lemma filter_quiet:
  assumes "list_all quiet cs"
  shows "filter is_resize cs = []" "filter is_set_size cs = []"
  using assms by (auto simp: list_all_iff filter_empty_conv)

lemma log_only_same:
  assumes "log_only w w'"
  shows "w_output w' = w_output w" "toplevel w' = toplevel w" "size_from_wm w' = size_from_wm w"
    "resizes w' = resizes w" "set_sizes w' = set_sizes w" "xwin w' = xwin w"
    "content_xwin w' = content_xwin w" "listeners w' = listeners w" "w_id w' = w_id w"
    "last_client_conf_w w' = last_client_conf_w w" "last_client_conf_h w' = last_client_conf_h w"
    "last_output_width w' = last_output_width w" "last_output_height w' = last_output_height w"
    "fit_last_w w' = fit_last_w w" "fit_last_h w' = fit_last_h w" "fit_prev_w w' = fit_prev_w w"
    "fit_prev_h w' = fit_prev_h w" "fit_last_msec w' = fit_last_msec w" "related w' = related w"
    "csd_margin_w w' = csd_margin_w w" "csd_margin_h w' = csd_margin_h w"
    "scene_tree w' = scene_tree w" "scene_output w' = scene_output w" "l_output w' = l_output w"
    "hold_present w' = hold_present w" "fill_host_last_msec w' = fill_host_last_msec w"
    "initial_configure_sent w' = initial_configure_sent w"
    "last_title w' = last_title w" "last_app_id w' = last_app_id w"
    "pending_decoration w' = pending_decoration w"
  using assms by (auto simp: log_only_def filter_quiet)

lemma props_log_only [simp]:
  "log_only w (xwin_set_title cfg x t w)"
  "log_only w (xwin_set_class cfg x a w)"
  "log_only w (xwin_set_motif_decorations cfg x d w)"
  "log_only w (send_root_client_message cfg x ty da w)"
  "log_only w (send_net_wm_state cfg x add p1 p2 w)"
  "log_only w (xwin_set_transient_for cfg x p w)"
  "log_only w (xwin_set_window_type_dialog cfg x d w)"
  "log_only w (xwin_set_modal cfg x m w)"
  "log_only w (dnd_set_xdnd_aware cfg x w)"
  "log_only w (select_window_events cfg x w)"
  "log_only w (xwin_set_size_hints cfg x wd ht a1 a2 a3 a4 w)"
  by (simp_all add: xwin_set_title_def xwin_set_class_def xwin_set_motif_decorations_def
      send_net_wm_state_def send_root_client_message_def xwin_set_transient_for_def
      xwin_set_window_type_dialog_def xwin_set_modal_def dnd_set_xdnd_aware_def
      select_window_events_def xwin_set_size_hints_def Let_def)

lemma sync_size_hints_log_only [simp]: "log_only w (win_sync_size_hints cfg w)"
  unfolding win_sync_size_hints_def Let_def
  by (auto split: prod.split intro: log_only_trans[OF props_log_only(11) props_log_only(11)])

lemmas sync_size_hints_same [simp] = log_only_same[OF sync_size_hints_log_only]
lemmas set_title_same [simp] = log_only_same[OF props_log_only(1)]
lemmas set_class_same [simp] = log_only_same[OF props_log_only(2)]

section \<open>Facts about the values\<close>

lemma size_hints_length [simp]: "length (size_hints_words a b c d e f) = 18"
  by (simp add: size_hints_words_def Let_def)

text \<open>No position flag is ever set: bits 0 (\<open>USPosition\<close>) and 2 (\<open>PPosition\<close>) of the flags.\<close>

lemma size_hints_no_position:
  "\<not> bit (size_hints_words a b c d e f ! 0) 0" "\<not> bit (size_hints_words a b c d e f ! 0) 2"
  by (simp_all add: size_hints_words_def Let_def bit_iff_odd)

lemma size_hints_flags:
  "bit (size_hints_words a b c d e f ! 0) 5 \<longleftrightarrow> 0 < e \<and> 0 < f"
  "bit (size_hints_words a b c d e f ! 0) 3" "bit (size_hints_words a b c d e f ! 0) 4"
  by (simp_all add: size_hints_words_def Let_def bit_iff_odd)

end
