(* ===== verification/Sizing.thy ===== *)
theory Sizing
  imports Scene X11_Output X11_Props
begin

text \<open>
  The size primitives of \<open>src/output.c\<close> (lines 150 to 238, 283 to 399 and 668 to 695): the
  size a client prefers, the configure sent to a client, filling the host window, resizing the
  host output, and the handler of the output's commit event, which a resize runs.
\<close>

section \<open>What the client prefers\<close>

definition toplevel_preferred_size :: "wlx_config \<Rightarrow> wlr_toplevel \<Rightarrow> int \<times> int" where
  "toplevel_preferred_size cfg t =
     (let geo = tl_geometry t;
          use_geo = \<not> prefer_csd cfg \<and> 0 < box_width geo \<and> 0 < box_height geo;
          (w, h) = (if use_geo then (box_width geo, box_height geo)
                    else if 0 < tl_surf_width t \<and> 0 < tl_surf_height t
                         then (tl_surf_width t, tl_surf_height t)
                    else (box_width geo, box_height geo))
      in (if w < WLX_MIN_OUTPUT_SIZE then WLX_DEFAULT_WIDTH else w,
          if h < WLX_MIN_OUTPUT_SIZE then WLX_DEFAULT_HEIGHT else h))"

section \<open>Configuring the client\<close>

definition wlx_toplevel_set_size :: "int \<Rightarrow> int \<Rightarrow> wlx_window \<Rightarrow> wlx_window" where
  "wlx_toplevel_set_size width height win =
     (let win1 = emit (SetSize width height) win
      in if 0 < width \<and> 0 < height
         then win1\<lparr>last_client_conf_w := width, last_client_conf_h := height\<rparr>
         else win1)"

definition wlx_toplevel_size_for_output :: "wlx_config \<Rightarrow> wlx_window \<Rightarrow> int \<times> int" where
  "wlx_toplevel_size_for_output cfg win =
     (case w_output win of
        None \<Rightarrow> (0, 0)
      | Some x \<Rightarrow>
          let lw = wlx_unscale_size cfg (o_width x);
              lh = wlx_unscale_size cfg (o_height x)
          in if prefer_csd cfg \<and> \<not> win_tiled win \<and> (0 < csd_margin_w win \<or> 0 < csd_margin_h win)
             then (let lw1 = lw - csd_margin_w win; lh1 = lh - csd_margin_h win
                   in (if lw1 < 1 then 1 else lw1, if lh1 < 1 then 1 else lh1))
             else (lw, lh))"

text \<open>Two sizes agree up to one pixel on each side.\<close>

definition within_1px :: "int \<times> int \<Rightarrow> int \<times> int \<Rightarrow> bool" where
  "within_1px a b \<longleftrightarrow> \<bar>fst a - fst b\<bar> \<le> 1 \<and> \<bar>snd a - snd b\<bar> \<le> 1"

definition fill_last_ok :: "int \<times> int \<Rightarrow> wlx_window \<Rightarrow> bool" where
  "fill_last_ok target win \<longleftrightarrow>
     0 < last_client_conf_w win \<and> 0 < last_client_conf_h win
     \<and> within_1px target (last_client_conf_w win, last_client_conf_h win)"

definition fill_conf_ok :: "int \<times> int \<Rightarrow> wlx_window \<Rightarrow> bool" where
  "fill_conf_ok target win \<longleftrightarrow>
     (let geo = tl_geometry (toplevel win);
          conf_w = (if 0 < box_width geo then box_width geo else 0);
          conf_h = (if 0 < box_height geo then box_height geo else 0)
      in 0 < conf_w \<and> 0 < conf_h \<and> within_1px target (conf_w, conf_h))"

definition wlx_toplevel_fill_host :: "wlx_config \<Rightarrow> wlx_env \<Rightarrow> wlx_window \<Rightarrow> wlx_window" where
  "wlx_toplevel_fill_host cfg env win =
     (if w_output win = None then win
      else case wlx_toplevel_size_for_output cfg win of (lw, lh) \<Rightarrow>
        if lw < 1 \<or> lh < 1 then win
        else
          let last_ok = fill_last_ok (lw, lh) win; conf_ok = fill_conf_ok (lw, lh) win
          in if last_ok \<and> conf_ok then win
             else if last_ok \<and> \<not> conf_ok then
               if 0 < fill_host_last_msec win \<and> now_msec env - fill_host_last_msec win < 500 then win
               else wlx_toplevel_set_size lw lh (win\<lparr>fill_host_last_msec := now_msec env\<rparr>)
             else wlx_toplevel_set_size lw lh win)"

section \<open>Frames and commits of the output\<close>

definition output_frame :: "wlx_config \<Rightarrow> nat list \<Rightarrow> wlx_window \<Rightarrow> wlx_window" where
  "output_frame cfg popups win =
     (if \<not> scene_output win \<or> w_output win = None then win
      else emit SendFrameDone (emit SceneOutputCommit (wlx_apply_content_scale cfg popups win)))"

text \<open>After a size change, hold the last frame stretched to the new size, or ask for a frame when
  there is none to hold.\<close>

definition hold_or_schedule :: "wlx_config \<Rightarrow> nat list \<Rightarrow> bool \<Rightarrow> wlx_window \<Rightarrow> wlx_window" where
  "hold_or_schedule cfg popups had_frame win =
     (if had_frame then
        let v = wlx_apply_content_scale cfg popups (win\<lparr>hold_present := True\<rparr>)
        in if scene_output v then emit SceneOutputCommit v else v
      else emit ScheduleFrame (win\<lparr>hold_present := False\<rparr>))"

text \<open>The listener of the output's commit event. The nested commit of the scene output leaves
  the size alone, so its own event returns early.\<close>

definition output_commit :: "wlx_config \<Rightarrow> wlx_env \<Rightarrow> nat list \<Rightarrow> wlx_window \<Rightarrow> wlx_window" where
  "output_commit cfg env popups win =
     (case w_output win of
        None \<Rightarrow> win
      | Some x \<Rightarrow>
          let w = o_width x; h = o_height x
          in if w \<le> 0 \<or> h \<le> 0 then win
             else if w = last_output_width win \<and> h = last_output_height win then win
             else
               let had_frame = WLX_MIN_OUTPUT_SIZE < last_output_width win
                     \<and> WLX_MIN_OUTPUT_SIZE < last_output_height win
               in win_sync_size_hints cfg (wlx_toplevel_fill_host cfg env
                    (hold_or_schedule cfg popups had_frame
                      (win\<lparr>last_output_width := w, last_output_height := h\<rparr>))))"

definition output_request_close :: "wlx_window \<Rightarrow> wlx_window" where
  "output_request_close win = emit SendClose win"

text \<open>\<open>wlr_output_commit_state\<close> on a window's output: the backend's requests enter the trace
  and, on success, the commit event reaches the listener if it is linked.\<close>

definition win_commit_state ::
  "wlx_config \<Rightarrow> wlx_env \<Rightarrow> nat list \<Rightarrow> output_state \<Rightarrow> wlx_window \<Rightarrow> bool \<times> wlx_window" where
  "win_commit_state cfg env popups st win =
     (case w_output win of
        None \<Rightarrow> (False, win)
      | Some x \<Rightarrow> (case wlr_output_commit_state env st x of (ok, x', cs) \<Rightarrow>
          let win1 = emit_all cs (win\<lparr>w_output := Some x'\<rparr>)
          in (ok, if ok \<and> listeners win then output_commit cfg env popups win1 else win1)))"

definition resize_output_to ::
  "wlx_config \<Rightarrow> wlx_env \<Rightarrow> nat list \<Rightarrow> int \<Rightarrow> int \<Rightarrow> wlx_window \<Rightarrow> wlx_window" where
  "resize_output_to cfg env popups w h win =
     (case w_output win of
        None \<Rightarrow> win
      | Some x \<Rightarrow>
          if w < WLX_MIN_OUTPUT_SIZE \<or> h < WLX_MIN_OUTPUT_SIZE then win
          else if o_width x = w \<and> o_height x = h then win
          else
            let win1 = snd (win_commit_state cfg env popups (custom_mode w h) win)
            in case w_output win1 of
                 None \<Rightarrow> win1
               | Some x1 \<Rightarrow>
                   emit ScheduleFrame (win_sync_size_hints cfg
                     (win1\<lparr>last_output_width := o_width x1, last_output_height := o_height x1\<rparr>)))"

section \<open>The output of a window under these operations\<close>

lemma preferred_size_min:
  "toplevel_preferred_size cfg t = (w, h) \<Longrightarrow> WLX_MIN_OUTPUT_SIZE \<le> w \<and> WLX_MIN_OUTPUT_SIZE \<le> h"
  by (auto simp: toplevel_preferred_size_def wlx_constants Let_def split: if_splits)

lemma preferred_size_exact:
  assumes "toplevel_preferred_size cfg t = (w, h)"
    and "box_set (tl_geometry t)" "\<not> prefer_csd cfg"
    and "WLX_MIN_OUTPUT_SIZE \<le> box_width (tl_geometry t)" "WLX_MIN_OUTPUT_SIZE \<le> box_height (tl_geometry t)"
  shows "w = box_width (tl_geometry t)" "h = box_height (tl_geometry t)"
  using assms by (auto simp: toplevel_preferred_size_def Let_def box_set_def)

lemma resizes_upd [simp]:
  "resizes (w\<lparr>last_output_width := a, last_output_height := b\<rparr>) = resizes w"
  "resizes (w\<lparr>fill_host_last_msec := c\<rparr>) = resizes w"
  "resizes (w\<lparr>hold_present := d\<rparr>) = resizes w"
  "set_sizes (w\<lparr>last_output_width := a, last_output_height := b\<rparr>) = set_sizes w"
  "set_sizes (w\<lparr>fill_host_last_msec := c\<rparr>) = set_sizes w"
  "set_sizes (w\<lparr>hold_present := d\<rparr>) = set_sizes w"
  by (simp_all add: resizes_def set_sizes_def)

lemma set_size_frame [simp]:
  "w_output (wlx_toplevel_set_size a b w) = w_output w"
  "toplevel (wlx_toplevel_set_size a b w) = toplevel w"
  "size_from_wm (wlx_toplevel_set_size a b w) = size_from_wm w"
  "listeners (wlx_toplevel_set_size a b w) = listeners w"
  "last_output_width (wlx_toplevel_set_size a b w) = last_output_width w"
  "last_output_height (wlx_toplevel_set_size a b w) = last_output_height w"
  "resizes (wlx_toplevel_set_size a b w) = resizes w"
  "set_sizes (wlx_toplevel_set_size a b w) = set_sizes w @ [SetSize a b]"
  "fit_last_w (wlx_toplevel_set_size a b w) = fit_last_w w"
  "fit_last_h (wlx_toplevel_set_size a b w) = fit_last_h w"
  "fit_prev_w (wlx_toplevel_set_size a b w) = fit_prev_w w"
  "fit_prev_h (wlx_toplevel_set_size a b w) = fit_prev_h w"
  "fit_last_msec (wlx_toplevel_set_size a b w) = fit_last_msec w"
  "xwin (wlx_toplevel_set_size a b w) = xwin w"
  "content_xwin (wlx_toplevel_set_size a b w) = content_xwin w"
  "w_id (wlx_toplevel_set_size a b w) = w_id w"
  "scene_tree (wlx_toplevel_set_size a b w) = scene_tree w"
  "csd_margin_w (wlx_toplevel_set_size a b w) = csd_margin_w w"
  "csd_margin_h (wlx_toplevel_set_size a b w) = csd_margin_h w"
  "initial_configure_sent (wlx_toplevel_set_size a b w) = initial_configure_sent w"
  "pending_decoration (wlx_toplevel_set_size a b w) = pending_decoration w"
  "fill_host_last_msec (wlx_toplevel_set_size a b w) = fill_host_last_msec w"
  "hold_present (wlx_toplevel_set_size a b w) = hold_present w"
  "l_output (wlx_toplevel_set_size a b w) = l_output w"
  "related (wlx_toplevel_set_size a b w) = related w"
  "scene_output (wlx_toplevel_set_size a b w) = scene_output w"
  "last_title (wlx_toplevel_set_size a b w) = last_title w"
  "last_app_id (wlx_toplevel_set_size a b w) = last_app_id w"
  by (simp_all add: wlx_toplevel_set_size_def Let_def resizes_def set_sizes_def)

lemma set_size_records:
  assumes "0 < a" "0 < b"
  shows "last_client_conf_w (wlx_toplevel_set_size a b w) = a"
    "last_client_conf_h (wlx_toplevel_set_size a b w) = b"
  using assms by (simp_all add: wlx_toplevel_set_size_def Let_def)

text \<open>The five ways through \<open>fill_host\<close> are two: nothing, or one configure for the fill size.\<close>

lemma fill_host_cases:
  obtains "wlx_toplevel_fill_host cfg env w = w"
  | lw lh t where "wlx_toplevel_size_for_output cfg w = (lw, lh)" "1 \<le> lw" "1 \<le> lh"
      "wlx_toplevel_fill_host cfg env w = wlx_toplevel_set_size lw lh (w\<lparr>fill_host_last_msec := t\<rparr>)"
proof -
  obtain lw lh where s: "wlx_toplevel_size_for_output cfg w = (lw, lh)" by fastforce
  let ?F = "wlx_toplevel_fill_host cfg env w" and ?S = "wlx_toplevel_set_size lw lh"
  have self: "w = w\<lparr>fill_host_last_msec := fill_host_last_msec w\<rparr>" by simp
  have "?F = w \<or> (1 \<le> lw \<and> 1 \<le> lh
      \<and> (?F = ?S w \<or> ?F = ?S (w\<lparr>fill_host_last_msec := now_msec env\<rparr>)))"
    unfolding wlx_toplevel_fill_host_def s prod.case Let_def not_less[symmetric]
    by (cases "w_output w = None"; cases "lw < 1 \<or> lh < 1"; cases "fill_last_ok (lw, lh) w";
        cases "fill_conf_ok (lw, lh) w";
        cases "0 < fill_host_last_msec w \<and> now_msec env - fill_host_last_msec w < 500")
      (simp_all only: if_True if_False simp_thms de_Morgan_disj)
  then show thesis
  proof (elim disjE conjE)
    assume "1 \<le> lw" "1 \<le> lh" "?F = ?S w"
    then show thesis using that(2)[OF s] self by metis
  qed (use that s in blast)+
qed

lemma fill_host_frame [simp]:
  "w_output (wlx_toplevel_fill_host cfg env w) = w_output w"
  "toplevel (wlx_toplevel_fill_host cfg env w) = toplevel w"
  "size_from_wm (wlx_toplevel_fill_host cfg env w) = size_from_wm w"
  "listeners (wlx_toplevel_fill_host cfg env w) = listeners w"
  "resizes (wlx_toplevel_fill_host cfg env w) = resizes w"
  "fit_last_w (wlx_toplevel_fill_host cfg env w) = fit_last_w w"
  "fit_last_h (wlx_toplevel_fill_host cfg env w) = fit_last_h w"
  "fit_prev_w (wlx_toplevel_fill_host cfg env w) = fit_prev_w w"
  "fit_prev_h (wlx_toplevel_fill_host cfg env w) = fit_prev_h w"
  "fit_last_msec (wlx_toplevel_fill_host cfg env w) = fit_last_msec w"
  "xwin (wlx_toplevel_fill_host cfg env w) = xwin w"
  "content_xwin (wlx_toplevel_fill_host cfg env w) = content_xwin w"
  "w_id (wlx_toplevel_fill_host cfg env w) = w_id w"
  "csd_margin_w (wlx_toplevel_fill_host cfg env w) = csd_margin_w w"
  "csd_margin_h (wlx_toplevel_fill_host cfg env w) = csd_margin_h w"
  "initial_configure_sent (wlx_toplevel_fill_host cfg env w) = initial_configure_sent w"
  "pending_decoration (wlx_toplevel_fill_host cfg env w) = pending_decoration w"
  "l_output (wlx_toplevel_fill_host cfg env w) = l_output w"
  "related (wlx_toplevel_fill_host cfg env w) = related w"
  "last_title (wlx_toplevel_fill_host cfg env w) = last_title w"
  "last_app_id (wlx_toplevel_fill_host cfg env w) = last_app_id w"
  "scene_output (wlx_toplevel_fill_host cfg env w) = scene_output w"
  "last_output_width (wlx_toplevel_fill_host cfg env w) = last_output_width w"
  "last_output_height (wlx_toplevel_fill_host cfg env w) = last_output_height w"
  "scene_tree (wlx_toplevel_fill_host cfg env w) = scene_tree w"
  "hold_present (wlx_toplevel_fill_host cfg env w) = hold_present w"
  by (simp_all add: wlx_toplevel_fill_host_def Let_def resizes_upd split: prod.split)

text \<open>
  After \<open>fill_host\<close> the last configure is for the fill size up to a pixel: the client has been
  told to fill the window, now or before.
\<close>

lemma fill_host_told:
  assumes "wlx_toplevel_size_for_output cfg w = (lw, lh)" "w_output w \<noteq> None" "1 \<le> lw" "1 \<le> lh"
  shows "fill_last_ok (lw, lh) (wlx_toplevel_fill_host cfg env w)"
proof -
  have self: "within_1px a a" for a by (simp add: within_1px_def)
  show ?thesis
    using assms
    by (auto simp: wlx_toplevel_fill_host_def Let_def fill_last_ok_def set_size_records self)
qed

lemma size_for_output_pos:
  assumes "0 < content_scale cfg" "w_output w \<noteq> None" "wlx_toplevel_size_for_output cfg w = (lw, lh)"
  shows "1 \<le> lw" "1 \<le> lh"
proof -
  from assms obtain x where x: "w_output w = Some x" by blast
  with assms(1) unscale_size_ge1[of cfg] have
    "1 \<le> wlx_unscale_size cfg (o_width x)" "1 \<le> wlx_unscale_size cfg (o_height x)" by blast+
  with x assms(3) show "1 \<le> lw" "1 \<le> lh"
    by (auto simp: wlx_toplevel_size_for_output_def Let_def split: if_splits)
qed

lemma hold_or_schedule_frame [simp]:
  "w_output (hold_or_schedule cfg r f w) = w_output w"
  "toplevel (hold_or_schedule cfg r f w) = toplevel w"
  "size_from_wm (hold_or_schedule cfg r f w) = size_from_wm w"
  "listeners (hold_or_schedule cfg r f w) = listeners w"
  "resizes (hold_or_schedule cfg r f w) = resizes w"
  "fit_last_w (hold_or_schedule cfg r f w) = fit_last_w w"
  "fit_last_h (hold_or_schedule cfg r f w) = fit_last_h w"
  "fit_prev_w (hold_or_schedule cfg r f w) = fit_prev_w w"
  "fit_prev_h (hold_or_schedule cfg r f w) = fit_prev_h w"
  "fit_last_msec (hold_or_schedule cfg r f w) = fit_last_msec w"
  "xwin (hold_or_schedule cfg r f w) = xwin w"
  "content_xwin (hold_or_schedule cfg r f w) = content_xwin w"
  "w_id (hold_or_schedule cfg r f w) = w_id w"
  "csd_margin_w (hold_or_schedule cfg r f w) = csd_margin_w w"
  "csd_margin_h (hold_or_schedule cfg r f w) = csd_margin_h w"
  "initial_configure_sent (hold_or_schedule cfg r f w) = initial_configure_sent w"
  "pending_decoration (hold_or_schedule cfg r f w) = pending_decoration w"
  "l_output (hold_or_schedule cfg r f w) = l_output w"
  "related (hold_or_schedule cfg r f w) = related w"
  "last_title (hold_or_schedule cfg r f w) = last_title w"
  "last_app_id (hold_or_schedule cfg r f w) = last_app_id w"
  "scene_output (hold_or_schedule cfg r f w) = scene_output w"
  "set_sizes (hold_or_schedule cfg r f w) = set_sizes w"
  "last_output_width (hold_or_schedule cfg r f w) = last_output_width w"
  "last_output_height (hold_or_schedule cfg r f w) = last_output_height w"
  "last_client_conf_w (hold_or_schedule cfg r f w) = last_client_conf_w w"
  "last_client_conf_h (hold_or_schedule cfg r f w) = last_client_conf_h w"
  "fill_host_last_msec (hold_or_schedule cfg r f w) = fill_host_last_msec w"
  by (simp_all add: hold_or_schedule_def wlx_apply_content_scale_def Let_def resizes_def set_sizes_def)

lemma output_commit_cases:
  obtains "output_commit cfg env r w = w"
  | x f where "w_output w = Some x"
      "output_commit cfg env r w = win_sync_size_hints cfg (wlx_toplevel_fill_host cfg env
         (hold_or_schedule cfg r f (w\<lparr>last_output_width := o_width x, last_output_height := o_height x\<rparr>)))"
proof (cases "output_commit cfg env r w = w")
  case False
  then obtain x where "w_output w = Some x" by (auto simp: output_commit_def split: option.splits)
  with False that(2) show ?thesis by (auto simp: output_commit_def Let_def split: if_splits)
qed (rule that(1))

lemma output_commit_frame [simp]:
  "w_output (output_commit cfg env r w) = w_output w"
  "toplevel (output_commit cfg env r w) = toplevel w"
  "size_from_wm (output_commit cfg env r w) = size_from_wm w"
  "listeners (output_commit cfg env r w) = listeners w"
  "resizes (output_commit cfg env r w) = resizes w"
  "fit_last_w (output_commit cfg env r w) = fit_last_w w"
  "fit_last_h (output_commit cfg env r w) = fit_last_h w"
  "fit_prev_w (output_commit cfg env r w) = fit_prev_w w"
  "fit_prev_h (output_commit cfg env r w) = fit_prev_h w"
  "fit_last_msec (output_commit cfg env r w) = fit_last_msec w"
  "xwin (output_commit cfg env r w) = xwin w"
  "content_xwin (output_commit cfg env r w) = content_xwin w"
  "w_id (output_commit cfg env r w) = w_id w"
  "csd_margin_w (output_commit cfg env r w) = csd_margin_w w"
  "csd_margin_h (output_commit cfg env r w) = csd_margin_h w"
  "initial_configure_sent (output_commit cfg env r w) = initial_configure_sent w"
  "pending_decoration (output_commit cfg env r w) = pending_decoration w"
  "l_output (output_commit cfg env r w) = l_output w"
  "related (output_commit cfg env r w) = related w"
  "last_title (output_commit cfg env r w) = last_title w"
  "last_app_id (output_commit cfg env r w) = last_app_id w"
  "scene_output (output_commit cfg env r w) = scene_output w"
  by (simp_all add: output_commit_def Let_def resizes_upd split: option.split)

section \<open>Commits on a window's output\<close>

lemma win_commit_output:
  assumes "w_output w = Some x" "wlr_output_commit_state env st x = (ok, x', cs)"
  shows "fst (win_commit_state cfg env r st w) = ok"
    "w_output (snd (win_commit_state cfg env r st w)) = Some x'"
  using assms by (simp_all add: win_commit_state_def Let_def)

lemma win_commit_frame [simp]:
  "toplevel (snd (win_commit_state cfg env r st w)) = toplevel w"
  "size_from_wm (snd (win_commit_state cfg env r st w)) = size_from_wm w"
  "listeners (snd (win_commit_state cfg env r st w)) = listeners w"
  "fit_last_w (snd (win_commit_state cfg env r st w)) = fit_last_w w"
  "fit_last_h (snd (win_commit_state cfg env r st w)) = fit_last_h w"
  "fit_prev_w (snd (win_commit_state cfg env r st w)) = fit_prev_w w"
  "fit_prev_h (snd (win_commit_state cfg env r st w)) = fit_prev_h w"
  "fit_last_msec (snd (win_commit_state cfg env r st w)) = fit_last_msec w"
  "xwin (snd (win_commit_state cfg env r st w)) = xwin w"
  "content_xwin (snd (win_commit_state cfg env r st w)) = content_xwin w"
  "w_id (snd (win_commit_state cfg env r st w)) = w_id w"
  "initial_configure_sent (snd (win_commit_state cfg env r st w)) = initial_configure_sent w"
  "l_output (snd (win_commit_state cfg env r st w)) = l_output w"
  "last_title (snd (win_commit_state cfg env r st w)) = last_title w"
  "last_app_id (snd (win_commit_state cfg env r st w)) = last_app_id w"
  "related (snd (win_commit_state cfg env r st w)) = related w"
  "csd_margin_w (snd (win_commit_state cfg env r st w)) = csd_margin_w w"
  "csd_margin_h (snd (win_commit_state cfg env r st w)) = csd_margin_h w"
  "pending_decoration (snd (win_commit_state cfg env r st w)) = pending_decoration w"
  by (simp_all add: win_commit_state_def Let_def split: option.split prod.split)

text \<open>The output of a window, if it has one, satisfies the invariant of the size path.\<close>

definition win_out_ok :: "wlx_window \<Rightarrow> bool" where
  "win_out_ok w = (case w_output w of None \<Rightarrow> True | Some x \<Rightarrow> out_ok x)"

lemma win_out_ok_same: "w_output w' = w_output w \<Longrightarrow> win_out_ok w' = win_out_ok w"
  by (simp add: win_out_ok_def)

lemma win_commit_out_ok:
  assumes "win_out_ok w" "import_total env"
  shows "win_out_ok (snd (win_commit_state cfg env r st w))"
proof (cases "w_output w")
  case None
  with assms(1) show ?thesis by (simp add: win_commit_state_def)
next
  case (Some x)
  obtain ok x' cs where c: "wlr_output_commit_state env st x = (ok, x', cs)"
    by (cases "wlr_output_commit_state env st x") auto
  with assms Some have "out_ok x'" by (auto simp: win_out_ok_def intro: commit_state_ok_total)
  with win_commit_output(2)[OF Some c] show ?thesis by (simp add: win_out_ok_def)
qed

lemma resize_output_frame [simp]:
  "toplevel (resize_output_to cfg env r a b w) = toplevel w"
  "size_from_wm (resize_output_to cfg env r a b w) = size_from_wm w"
  "listeners (resize_output_to cfg env r a b w) = listeners w"
  "fit_last_w (resize_output_to cfg env r a b w) = fit_last_w w"
  "fit_last_h (resize_output_to cfg env r a b w) = fit_last_h w"
  "fit_prev_w (resize_output_to cfg env r a b w) = fit_prev_w w"
  "fit_prev_h (resize_output_to cfg env r a b w) = fit_prev_h w"
  "fit_last_msec (resize_output_to cfg env r a b w) = fit_last_msec w"
  "xwin (resize_output_to cfg env r a b w) = xwin w"
  "content_xwin (resize_output_to cfg env r a b w) = content_xwin w"
  "w_id (resize_output_to cfg env r a b w) = w_id w"
  "initial_configure_sent (resize_output_to cfg env r a b w) = initial_configure_sent w"
  "l_output (resize_output_to cfg env r a b w) = l_output w"
  "last_title (resize_output_to cfg env r a b w) = last_title w"
  "last_app_id (resize_output_to cfg env r a b w) = last_app_id w"
  "related (resize_output_to cfg env r a b w) = related w"
  "csd_margin_w (resize_output_to cfg env r a b w) = csd_margin_w w"
  "csd_margin_h (resize_output_to cfg env r a b w) = csd_margin_h w"
  "pending_decoration (resize_output_to cfg env r a b w) = pending_decoration w"
  by (simp_all add: resize_output_to_def Let_def split: option.split)

lemma resize_output_keeps:
  "w_output (resize_output_to cfg env r a b w) = w_output w
   \<or> w_output (resize_output_to cfg env r a b w)
     = w_output (snd (win_commit_state cfg env r (custom_mode a b) w))"
  by (auto simp: resize_output_to_def Let_def split: option.split)

lemma resize_output_out_ok:
  "win_out_ok w \<Longrightarrow> import_total env \<Longrightarrow> win_out_ok (resize_output_to cfg env r a b w)"
  using resize_output_keeps[of cfg env r a b w] win_commit_out_ok win_out_ok_same by metis

lemma resize_output_size:
  assumes x: "w_output w = Some x" and "o_enabled x" "mode_ok env a b"
    and "WLX_MIN_OUTPUT_SIZE \<le> a" "WLX_MIN_OUTPUT_SIZE \<le> b"
  shows "\<exists>x'. w_output (resize_output_to cfg env r a b w) = Some x' \<and> o_width x' = a \<and> o_height x' = b"
proof (cases "o_width x = a \<and> o_height x = b")
  case True
  with x show ?thesis by (simp add: resize_output_to_def)
next
  case False
  let ?x' = "output_apply_commit (custom_mode a b) (fst (output_set_custom_mode a b x))"
  have c: "wlr_output_commit_state env (custom_mode a b) x
      = (True, ?x', snd (output_set_custom_mode a b x) @ [PresentPixmap (o_win x)])"
    using assms(2,3) False by (intro mode_commit_succeeds) auto
  have "w_output (resize_output_to cfg env r a b w) = Some ?x'"
    using x False assms(4,5) win_commit_output(2)[OF x c]
    by (auto simp: resize_output_to_def Let_def)
  moreover have "o_width ?x' = a" "o_height ?x' = b" by (rule commit_state_size[OF c])+
  ultimately show ?thesis by blast
qed

end
