(* ===== verification/Host_State.thy ===== *)
theory Host_State
  imports Sizing
begin

text \<open>
  The host's side of a window: the \<open>_NET_WM_STATE\<close> the window manager sets, the sizes it
  gives the X window, and the state requests the client makes of it
  (\<open>src/x11.c\<close>, lines 260 to 350 and 513 to 577; \<open>src/move_resize.c\<close>, lines 90 to 174).
\<close>

section \<open>Reading the host's state\<close>

text \<open>The loop over the atoms: \<open>(vert, horz, fullscreen)\<close>.\<close>

fun scan_net_wm_state ::
  "wlx_config \<Rightarrow> atom list \<Rightarrow> bool \<times> bool \<times> bool \<Rightarrow> bool \<times> bool \<times> bool" where
  "scan_net_wm_state cfg [] acc = acc"
| "scan_net_wm_state cfg (a # as) (vert, horz, full) =
     scan_net_wm_state cfg as
       (if a = atom_maximized_vert cfg then (True, horz, full)
        else if a = atom_maximized_horz cfg then (vert, True, full)
        else if a = atom_fullscreen cfg then (vert, horz, True)
        else (vert, horz, full))"

text \<open>The first of the targets with a well-typed property.\<close>

fun first_net_wm_state :: "wlx_env \<Rightarrow> xid list \<Rightarrow> atom list option" where
  "first_net_wm_state env [] = None"
| "first_net_wm_state env (t # ts) =
     (if t = XCB_WINDOW_NONE then first_net_wm_state env ts
      else case q_net_wm_state env t of
          Some (Some as) \<Rightarrow> Some as
        | _ \<Rightarrow> first_net_wm_state env ts)"

definition net_wm_state_targets :: "wlx_window \<Rightarrow> xid list" where
  "net_wm_state_targets win =
     (if ewmh_target_window win = xwin win then [xwin win] else [ewmh_target_window win, xwin win])"

text \<open>\<open>(maximized, fullscreen)\<close> as the host has it, if it can be read.\<close>

definition host_net_wm_state :: "wlx_config \<Rightarrow> wlx_env \<Rightarrow> wlx_window \<Rightarrow> (bool \<times> bool) option" where
  "host_net_wm_state cfg env win =
     (case first_net_wm_state env (net_wm_state_targets win) of
        None \<Rightarrow> None
      | Some as \<Rightarrow> (case scan_net_wm_state cfg as (False, False, False) of
          (vert, horz, full) \<Rightarrow> Some (vert \<and> horz, full)))"

section \<open>Mirroring it into the client\<close>

text \<open>What both branches do when the host's state differs from the client's.\<close>

definition host_state_owner :: "bool \<Rightarrow> wlx_window \<Rightarrow> wlx_window" where
  "host_state_owner on win =
     (if on then win\<lparr>size_from_wm := True, csd_margin_w := 0, csd_margin_h := 0\<rparr>
      else win\<lparr>size_from_wm := False\<rparr>)"

definition win_handle_net_wm_state_notify ::
  "wlx_config \<Rightarrow> wlx_env \<Rightarrow> wlx_window \<Rightarrow> wlx_window" where
  "win_handle_net_wm_state_notify cfg env win =
     (if \<not> have_xcb cfg \<or> atom_net_wm_state cfg = 0 then win
      else if \<not> initial_configure_sent win then win
      else case host_net_wm_state cfg env win of
          None \<Rightarrow> win
        | Some (maximized, fullscreen) \<Rightarrow>
            let cur_max = tl_maximized (toplevel win);
                cur_fs = tl_fullscreen (toplevel win);
                win1 = (if maximized \<noteq> cur_max
                        then emit (SetMaximized maximized) (host_state_owner maximized win) else win);
                win2 = (if fullscreen \<noteq> cur_fs
                        then emit (SetFullscreen fullscreen) (host_state_owner fullscreen win1)
                        else win1)
            in if (maximized \<or> fullscreen) \<and> w_output win2 \<noteq> None
               then wlx_toplevel_fill_host cfg env win2 else win2)"

section \<open>Sizes from the host\<close>

text \<open>The listener of \<open>request_state\<close>; \<open>req\<close> is the mode of the event, if it carries one.\<close>

definition output_request_state ::
  "wlx_config \<Rightarrow> wlx_env \<Rightarrow> nat list \<Rightarrow> (int \<times> int) option \<Rightarrow> wlx_window \<Rightarrow> wlx_window" where
  "output_request_state cfg env popups req win =
     (case req of
        None \<Rightarrow> win
      | Some (req_w, req_h) \<Rightarrow>
          let cur = (case w_output win of Some x \<Rightarrow> (o_width x, o_height x) | None \<Rightarrow> (0, 0))
          in if req_w \<le> 0 \<or> req_h \<le> 0 then win
             else if (req_w, req_h) = cur then win
             else
               let win1 = win_handle_net_wm_state_notify cfg env (win\<lparr>size_from_wm := True\<rparr>);
                   win2 = snd (win_commit_state cfg env popups (custom_mode req_w req_h) win1)
               in if w_output win2 \<noteq> None then emit ScheduleFrame win2 else win2)"

text \<open>A ConfigureNotify on the window's X id, through the backend's filter to the listener.\<close>

definition win_configure_notify ::
  "wlx_config \<Rightarrow> wlx_env \<Rightarrow> nat list \<Rightarrow> configure_notify \<Rightarrow> wlx_window \<Rightarrow> wlx_window" where
  "win_configure_notify cfg env popups ev win =
     (case w_output win of
        None \<Rightarrow> win
      | Some x \<Rightarrow> (case handle_x11_configure_notify ev x of
          (x', None) \<Rightarrow> win\<lparr>w_output := Some x'\<rparr>
        | (x', Some sz) \<Rightarrow>
            if listeners win
            then output_request_state cfg env popups (Some sz) (win\<lparr>w_output := Some x'\<rparr>)
            else win\<lparr>w_output := Some x'\<rparr>))"

section \<open>Requests of the client\<close>

definition toplevel_request_maximize :: "wlx_config \<Rightarrow> wlx_window \<Rightarrow> wlx_window" where
  "toplevel_request_maximize cfg win =
     (let want = tl_requested_maximized (toplevel win);
          target = ewmh_target_window win;
          win1 = (if target \<noteq> XCB_WINDOW_NONE
                  then send_net_wm_state cfg target want (atom_maximized_vert cfg)
                         (atom_maximized_horz cfg) win
                  else win)
      in if \<not> initial_configure_sent win then win1 else emit (SetMaximized want) win1)"

definition toplevel_request_fullscreen :: "wlx_config \<Rightarrow> wlx_window \<Rightarrow> wlx_window" where
  "toplevel_request_fullscreen cfg win =
     (let want = tl_requested_fullscreen (toplevel win);
          target = ewmh_target_window win;
          win1 = (if target \<noteq> XCB_WINDOW_NONE
                  then send_net_wm_state cfg target want (atom_fullscreen cfg) 0 win
                  else win)
      in if \<not> initial_configure_sent win then win1 else emit (SetFullscreen want) win1)"

definition toplevel_request_minimize :: "wlx_config \<Rightarrow> wlx_window \<Rightarrow> wlx_window" where
  "toplevel_request_minimize cfg win =
     (let target = ewmh_target_window win
      in if target = XCB_WINDOW_NONE then win
         else send_root_client_message cfg target (atom_wm_change_state cfg) [3, 0, 0, 0, 0] win)"

end
