(* ===== verification/Surface_Commit.thy ===== *)
theory Surface_Commit
  imports Host_State
begin

text \<open>
  The handler of a client's surface commit (\<open>src/xdg.c\<close>, lines 68 to 382), in the order of the
  source: the stretch hold, the first configure, the decoration, the margin, fitting the host
  window, the placement of the scene, the scale, the hints, title and class. By the time it runs
  wlroots has applied the client's state: \<open>toplevel\<close> and \<open>scene_tree\<close> hold what was
  committed. The promotion of subsurfaces at its end is in theory \<open>Subpresent\<close>.
\<close>

section \<open>Before the fit\<close>

definition sc_release_hold :: "wlx_config \<Rightarrow> wlx_window \<Rightarrow> wlx_window" where
  "sc_release_hold cfg win =
     (case w_output win of
        None \<Rightarrow> win
      | Some x \<Rightarrow>
          if \<not> hold_present win then win
          else
            let ow = wlx_unscale_size cfg (o_width x);
                oh = wlx_unscale_size cfg (o_height x);
                geo = tl_geometry (toplevel win);
                (sw, sh) = (if \<not> prefer_csd cfg \<and> box_set geo
                            then (box_width geo, box_height geo)
                            else (tl_surf_width (toplevel win), tl_surf_height (toplevel win)))
            in if \<bar>sw - ow\<bar> \<le> 2 \<and> \<bar>sh - oh\<bar> \<le> 2
               then emit ScheduleFrame (win\<lparr>hold_present := False\<rparr>) else win)"

definition sc_initial_configure :: "wlx_window \<Rightarrow> wlx_window" where
  "sc_initial_configure win =
     (if initial_configure_sent win then win
      else emit_all [SetWmCapabilities, ScheduleConfigure] (win\<lparr>initial_configure_sent := True\<rparr>))"

definition wlx_decoration_mode :: "wlx_config \<Rightarrow> deco_mode" where
  "wlx_decoration_mode cfg = (if prefer_csd cfg then CLIENT_SIDE else SERVER_SIDE)"

definition sc_decoration :: "wlx_config \<Rightarrow> wlx_window \<Rightarrow> wlx_window" where
  "sc_decoration cfg win =
     (case pending_decoration win of
        None \<Rightarrow> win
      | Some d \<Rightarrow> emit (SetDecorationMode d (if prefer_csd cfg then CLIENT_SIDE else SERVER_SIDE))
                    (win\<lparr>pending_decoration := None\<rparr>))"

definition sc_csd_margin :: "wlx_window \<Rightarrow> wlx_window" where
  "sc_csd_margin win =
     (let t = toplevel win; geo = tl_geometry t
      in if box_set geo \<and> 0 < tl_surf_width t \<and> 0 < tl_surf_height t
         then win\<lparr>csd_margin_w := max 0 (tl_surf_width t - box_width geo),
                  csd_margin_h := max 0 (tl_surf_height t - box_height geo)\<rparr>
         else win)"

section \<open>The fit\<close>

text \<open>The quantities the decision uses: the preferred size \<open>(cw, ch)\<close>, the size a fit would
  configure, the host size it would ask for, and the current size of the output.\<close>

record fit_view =
  fv_pref :: "int \<times> int"
  fv_conf :: "int \<times> int"
  fv_want :: "int \<times> int"
  fv_cur :: "int \<times> int"
  fv_tiled :: bool

definition fit_view_of :: "wlx_config \<Rightarrow> x11_output \<Rightarrow> wlx_window \<Rightarrow> fit_view" where
  "fit_view_of cfg x win =
     (let (cw, ch) = toplevel_preferred_size cfg (toplevel win);
          geo = tl_geometry (toplevel win)
      in \<lparr>fv_pref = (cw, ch),
          fv_conf = (if 0 < box_width geo then box_width geo else cw,
                     if 0 < box_height geo then box_height geo else ch),
          fv_want = (wlx_scale_size cfg cw, wlx_scale_size cfg ch),
          fv_cur = (o_width x, o_height x),
          fv_tiled = win_tiled win\<rparr>)"

definition size_mismatch :: "fit_view \<Rightarrow> bool" where
  "size_mismatch v \<longleftrightarrow> \<bar>fst (fv_want v) - fst (fv_cur v)\<bar> > 1 \<or> \<bar>snd (fv_want v) - snd (fv_cur v)\<bar> > 1"

definition conf_differs :: "fit_view \<Rightarrow> wlx_window \<Rightarrow> bool" where
  "conf_differs v win \<longleftrightarrow>
     last_client_conf_w win \<le> 0 \<or> last_client_conf_h win \<le> 0
     \<or> \<bar>fst (fv_conf v) - last_client_conf_w win\<bar> > 1 \<or> \<bar>snd (fv_conf v) - last_client_conf_h win\<bar> > 1"

definition assert_shrink :: "fit_view \<Rightarrow> wlx_window \<Rightarrow> bool" where
  "assert_shrink v win \<longleftrightarrow>
     size_mismatch v \<and> conf_differs v win \<and> \<not> fv_tiled v
     \<and> (fst (fv_want v) < fst (fv_cur v) - 1 \<or> snd (fv_want v) < snd (fv_cur v) - 1)"

definition sc_release_wm :: "fit_view \<Rightarrow> wlx_window \<Rightarrow> wlx_window" where
  "sc_release_wm v win =
     (if assert_shrink v win \<and> size_from_wm win then win\<lparr>size_from_wm := False\<rparr> else win)"

definition want_fit :: "fit_view \<Rightarrow> wlx_window \<Rightarrow> bool" where
  "want_fit v win \<longleftrightarrow>
     size_mismatch v \<and> \<not> fv_tiled v \<and> \<not> size_from_wm win
     \<and> WLX_MIN_OUTPUT_SIZE \<le> fst (fv_pref v) \<and> WLX_MIN_OUTPUT_SIZE \<le> snd (fv_pref v)"

definition since_fit :: "wlx_env \<Rightarrow> wlx_window \<Rightarrow> int" where
  "since_fit env win = (if 0 < fit_last_msec win then now_msec env - fit_last_msec win else -1)"

definition oscillation :: "wlx_env \<Rightarrow> fit_view \<Rightarrow> wlx_window \<Rightarrow> bool" where
  "oscillation env v win \<longleftrightarrow>
     want_fit v win \<and> 0 < fit_last_w win \<and> 0 < fit_prev_w win
     \<and> 0 \<le> since_fit env win \<and> since_fit env win < WLX_FIT_OSCILLATION_MS
     \<and> fv_want v = (fit_prev_w win, fit_prev_h win)
     \<and> (fit_last_w win \<noteq> fit_prev_w win \<or> fit_last_h win \<noteq> fit_prev_h win)"

definition record_fit :: "wlx_env \<Rightarrow> fit_view \<Rightarrow> wlx_window \<Rightarrow> wlx_window" where
  "record_fit env v win =
     win\<lparr>fit_prev_w := fit_last_w win, fit_prev_h := fit_last_h win,
         fit_last_w := fst (fv_want v), fit_last_h := snd (fv_want v),
         fit_last_msec := now_msec env\<rparr>"

definition place_tree :: "wlx_window \<Rightarrow> wlx_window" where
  "place_tree win =
     (case l_output win of
        None \<Rightarrow> win
      | Some (lx, ly) \<Rightarrow> win\<lparr>scene_tree := map_option (wlr_scene_node_set_position lx ly) (scene_tree win)\<rparr>)"

definition fit_host :: "wlx_config \<Rightarrow> wlx_env \<Rightarrow> nat list \<Rightarrow> fit_view \<Rightarrow> wlx_window \<Rightarrow> wlx_window" where
  "fit_host cfg env popups v win =
     (let win1 = resize_output_to cfg env popups (fst (fv_want v)) (snd (fv_want v)) (record_fit env v win);
          win2 = (if last_client_conf_w win1 \<noteq> fst (fv_conf v) \<or> last_client_conf_h win1 \<noteq> snd (fv_conf v)
                  then wlx_toplevel_set_size (fst (fv_conf v)) (snd (fv_conf v)) win1 else win1)
      in place_tree win2)"

definition sc_fit :: "wlx_config \<Rightarrow> wlx_env \<Rightarrow> nat list \<Rightarrow> wlx_window \<Rightarrow> wlx_window" where
  "sc_fit cfg env popups win =
     (case w_output win of
        None \<Rightarrow> win
      | Some x \<Rightarrow>
          let v = fit_view_of cfg x win; win1 = sc_release_wm v win
          in if want_fit v win1 \<and> oscillation env v win1 then win1
             else if want_fit v win1 then fit_host cfg env popups v win1
             else if size_mismatch v \<and> (size_from_wm win1 \<or> fv_tiled v)
                  then wlx_toplevel_fill_host cfg env win1
             else win1)"

section \<open>After the fit\<close>

definition scene_offset :: "wlx_config \<Rightarrow> wlr_toplevel \<Rightarrow> int \<times> int" where
  "scene_offset cfg t =
     (if \<not> prefer_csd cfg \<and> box_set (tl_geometry t)
      then (- box_x (tl_geometry t), - box_y (tl_geometry t)) else (0, 0))"

text \<open>The position of every child that is not the root of a popup.\<close>

fun place_children :: "nat list \<Rightarrow> int \<Rightarrow> int \<Rightarrow> scene_node \<Rightarrow> scene_node" where
  "place_children popups ox oy (SceneTree i e x y cs) =
     SceneTree i e x y
       (map (\<lambda>c. if scene_node_is_popup_root popups c then c else wlr_scene_node_set_position ox oy c) cs)"
| "place_children popups ox oy n = n"

definition sc_placement :: "wlx_config \<Rightarrow> nat list \<Rightarrow> wlx_window \<Rightarrow> wlx_window" where
  "sc_placement cfg popups win =
     (case scene_offset cfg (toplevel win) of
        (ox, oy) \<Rightarrow> win\<lparr>scene_tree := map_option (place_children popups ox oy) (scene_tree win)\<rparr>)"

definition sc_hints :: "wlx_config \<Rightarrow> wlx_window \<Rightarrow> wlx_window" where
  "sc_hints cfg win =
     (if xwin win \<noteq> XCB_WINDOW_NONE \<and> w_output win \<noteq> None then win_sync_size_hints cfg win else win)"

text \<open>\<open>strncmp\<close> over the whole 256-byte field, and \<open>snprintf\<close> into it.\<close>

definition strncmp_differs :: "nat \<Rightarrow> string \<Rightarrow> string \<Rightarrow> bool" where
  "strncmp_differs n a b \<longleftrightarrow> take n a \<noteq> take n b"

definition snprintf_s :: "nat \<Rightarrow> string \<Rightarrow> string" where
  "snprintf_s n s = take (n - 1) s"

definition opt_str :: "string option \<Rightarrow> string" where
  "opt_str s = (case s of None \<Rightarrow> '''' | Some t \<Rightarrow> t)"

definition sc_title :: "wlx_config \<Rightarrow> wlx_window \<Rightarrow> wlx_window" where
  "sc_title cfg win =
     (let title = opt_str (tl_title (toplevel win))
      in if strncmp_differs 256 title (last_title win)
         then (xwin_set_title cfg (content_xwin win) (Some title)
                (xwin_set_title cfg (xwin win) (Some title) win))\<lparr>last_title := snprintf_s 256 title\<rparr>
         else win)"

definition sc_class :: "wlx_config \<Rightarrow> wlx_window \<Rightarrow> wlx_window" where
  "sc_class cfg win =
     (let app_id = opt_str (tl_app_id (toplevel win))
      in if strncmp_differs 256 app_id (last_app_id win)
         then (xwin_set_class cfg (content_xwin win) (Some app_id)
                (xwin_set_class cfg (xwin win) (Some app_id) win))\<lparr>last_app_id := snprintf_s 256 app_id\<rparr>
         else win)"

definition surface_commit :: "wlx_config \<Rightarrow> wlx_env \<Rightarrow> nat list \<Rightarrow> wlx_window \<Rightarrow> wlx_window" where
  "surface_commit cfg env popups win =
     (let win1 = sc_csd_margin (sc_decoration cfg (sc_initial_configure (sc_release_hold cfg win)));
          win2 = sc_placement cfg popups (sc_fit cfg env popups win1);
          win3 = sc_hints cfg (wlx_apply_content_scale_ex cfg popups True win2)
      in if xwin win3 = XCB_WINDOW_NONE then win3 else sc_class cfg (sc_title cfg win3))"

section \<open>What each part leaves alone\<close>

definition sc_before :: "wlx_config \<Rightarrow> wlx_window \<Rightarrow> wlx_window" where
  "sc_before cfg win = sc_csd_margin (sc_decoration cfg (sc_initial_configure (sc_release_hold cfg win)))"

definition sc_after :: "wlx_config \<Rightarrow> nat list \<Rightarrow> wlx_window \<Rightarrow> wlx_window" where
  "sc_after cfg popups win =
     (let win3 = sc_hints cfg (wlx_apply_content_scale_ex cfg popups True (sc_placement cfg popups win))
      in if xwin win3 = XCB_WINDOW_NONE then win3 else sc_class cfg (sc_title cfg win3))"

lemma surface_commit_parts:
  "surface_commit cfg env popups win = sc_after cfg popups (sc_fit cfg env popups (sc_before cfg win))"
  by (simp add: surface_commit_def sc_after_def sc_before_def Let_def)

text \<open>\<open>size_same w w'\<close>: nothing the size policy reads or writes differs, and neither do the
  sequences of requests it makes.\<close>

definition size_same :: "wlx_window \<Rightarrow> wlx_window \<Rightarrow> bool" where
  "size_same w w' \<longleftrightarrow>
     w_output w' = w_output w \<and> toplevel w' = toplevel w \<and> size_from_wm w' = size_from_wm w
     \<and> listeners w' = listeners w \<and> resizes w' = resizes w \<and> set_sizes w' = set_sizes w
     \<and> last_client_conf_w w' = last_client_conf_w w \<and> last_client_conf_h w' = last_client_conf_h w
     \<and> last_output_width w' = last_output_width w \<and> last_output_height w' = last_output_height w
     \<and> fit_last_w w' = fit_last_w w \<and> fit_last_h w' = fit_last_h w
     \<and> fit_prev_w w' = fit_prev_w w \<and> fit_prev_h w' = fit_prev_h w
     \<and> fit_last_msec w' = fit_last_msec w \<and> xwin w' = xwin w \<and> content_xwin w' = content_xwin w
     \<and> w_id w' = w_id w \<and> l_output w' = l_output w
     \<and> fill_host_last_msec w' = fill_host_last_msec w"

lemma size_same_refl [simp]: "size_same w w"
  by (simp add: size_same_def)

lemma size_same_trans: "size_same a b \<Longrightarrow> size_same b c \<Longrightarrow> size_same a c"
  by (simp add: size_same_def)

lemma log_only_size_same: "log_only w w' \<Longrightarrow> size_same w w'"
  by (simp add: size_same_def log_only_same)

lemma size_same_release_hold: "size_same w (sc_release_hold cfg w)"
  by (simp add: sc_release_hold_def size_same_def Let_def split: option.split prod.split)

lemma size_same_initial: "size_same w (sc_initial_configure w)"
  by (simp add: sc_initial_configure_def size_same_def resizes_def set_sizes_def)

lemma size_same_decoration: "size_same w (sc_decoration cfg w)"
  by (simp add: sc_decoration_def size_same_def resizes_def set_sizes_def split: option.split)

lemma size_same_margin: "size_same w (sc_csd_margin w)"
  by (simp add: sc_csd_margin_def size_same_def resizes_def set_sizes_def Let_def)

lemma size_same_before: "size_same w (sc_before cfg w)"
  unfolding sc_before_def
  by (meson size_same_trans size_same_release_hold size_same_initial size_same_decoration size_same_margin)

lemma size_same_placement: "size_same w (sc_placement cfg r w)"
  by (simp add: sc_placement_def size_same_def resizes_def set_sizes_def split: prod.split)

lemma size_same_scale: "size_same w (wlx_apply_content_scale_ex cfg r p w)"
  by (simp add: size_same_def resizes_def set_sizes_def)

lemma size_same_hints: "size_same w (sc_hints cfg w)"
  by (simp add: sc_hints_def log_only_size_same)

lemma size_same_title: "size_same w (sc_title cfg w)"
  by (simp add: sc_title_def size_same_def Let_def resizes_def[of "_\<lparr>last_title := _\<rparr>"]
      set_sizes_def[of "_\<lparr>last_title := _\<rparr>"] flip: resizes_def set_sizes_def)

lemma size_same_class: "size_same w (sc_class cfg w)"
  by (simp add: sc_class_def size_same_def Let_def resizes_def[of "_\<lparr>last_app_id := _\<rparr>"]
      set_sizes_def[of "_\<lparr>last_app_id := _\<rparr>"] flip: resizes_def set_sizes_def)

lemma size_same_after: "size_same w (sc_after cfg r w)"
proof -
  let ?w3 = "sc_hints cfg (wlx_apply_content_scale_ex cfg r True (sc_placement cfg r w))"
  have "size_same w ?w3"
    by (meson size_same_trans size_same_placement size_same_scale size_same_hints)
  moreover have "size_same ?w3 (sc_class cfg (sc_title cfg ?w3))"
    by (meson size_same_trans size_same_title size_same_class)
  ultimately show ?thesis unfolding sc_after_def Let_def by (simp add: size_same_trans)
qed

lemma size_same_view:
  "size_same w w' \<Longrightarrow> fit_view_of cfg x w' = fit_view_of cfg x w"
  by (simp add: size_same_def fit_view_of_def win_tiled_def)

lemma size_same_decisions:
  assumes "size_same w w'"
  shows "conf_differs v w' = conf_differs v w" "assert_shrink v w' = assert_shrink v w"
    "want_fit v w' = want_fit v w" "since_fit env w' = since_fit env w"
    "oscillation env v w' = oscillation env v w" "size_from_wm w' = size_from_wm w"
    "w_output w' = w_output w" "resizes w' = resizes w" "set_sizes w' = set_sizes w"
  using assms by (simp_all add: size_same_def conf_differs_def assert_shrink_def want_fit_def
      since_fit_def oscillation_def)
section \<open>The decision\<close>

lemma fit_host_frame:
  "size_from_wm (fit_host cfg env r v w) = size_from_wm w"
  "toplevel (fit_host cfg env r v w) = toplevel w"
  "listeners (fit_host cfg env r v w) = listeners w"
  "xwin (fit_host cfg env r v w) = xwin w"
  "w_output (fit_host cfg env r v w)
    = w_output (resize_output_to cfg env r (fst (fv_want v)) (snd (fv_want v)) (record_fit env v w))"
  "(fit_last_w (fit_host cfg env r v w), fit_last_h (fit_host cfg env r v w)) = fv_want v"
  "(fit_prev_w (fit_host cfg env r v w), fit_prev_h (fit_host cfg env r v w)) = (fit_last_w w, fit_last_h w)"
  "fit_last_msec (fit_host cfg env r v w) = now_msec env"
  by (simp_all add: fit_host_def place_tree_def record_fit_def Let_def split: option.split)

lemma release_wm_frame [simp]:
  "w_output (sc_release_wm v w) = w_output w" "resizes (sc_release_wm v w) = resizes w"
  "set_sizes (sc_release_wm v w) = set_sizes w" "toplevel (sc_release_wm v w) = toplevel w"
  "listeners (sc_release_wm v w) = listeners w" "fit_last_w (sc_release_wm v w) = fit_last_w w"
  "fit_last_h (sc_release_wm v w) = fit_last_h w" "fit_prev_w (sc_release_wm v w) = fit_prev_w w"
  "fit_prev_h (sc_release_wm v w) = fit_prev_h w" "fit_last_msec (sc_release_wm v w) = fit_last_msec w"
  "last_client_conf_w (sc_release_wm v w) = last_client_conf_w w"
  "last_client_conf_h (sc_release_wm v w) = last_client_conf_h w"
  "xwin (sc_release_wm v w) = xwin w"
  by (simp_all add: sc_release_wm_def resizes_def set_sizes_def)

lemma release_wm_owner:
  "size_from_wm (sc_release_wm v w) \<longleftrightarrow> size_from_wm w \<and> \<not> assert_shrink v w"
  by (auto simp: sc_release_wm_def)

text \<open>Whether a commit fits the host, and what it then does.\<close>

definition commit_fits :: "wlx_config \<Rightarrow> wlx_env \<Rightarrow> wlx_window \<Rightarrow> bool" where
  "commit_fits cfg env w \<longleftrightarrow>
     (case w_output w of
        None \<Rightarrow> False
      | Some x \<Rightarrow> let v = fit_view_of cfg x w; w1 = sc_release_wm v w
          in want_fit v w1 \<and> \<not> oscillation env v w1)"

lemma sc_fit_cases:
  obtains
    (fit) x where "w_output w = Some x" "commit_fits cfg env w"
      "sc_fit cfg env r w = fit_host cfg env r (fit_view_of cfg x w) (sc_release_wm (fit_view_of cfg x w) w)"
  | (hold) x where "w_output w = Some x" "\<not> commit_fits cfg env w"
      "sc_fit cfg env r w = wlx_toplevel_fill_host cfg env (sc_release_wm (fit_view_of cfg x w) w)"
      "size_mismatch (fit_view_of cfg x w)"
  | (keep) x where "w_output w = Some x" "\<not> commit_fits cfg env w"
      "sc_fit cfg env r w = sc_release_wm (fit_view_of cfg x w) w"
  | (none) "w_output w = None" "\<not> commit_fits cfg env w" "sc_fit cfg env r w = w"
proof (cases "w_output w")
  case None
  then show ?thesis by (intro none) (simp_all add: sc_fit_def commit_fits_def)
next
  case (Some x)
  let ?v = "fit_view_of cfg x w" let ?w1 = "sc_release_wm ?v w"
  note f = sc_fit_def[of cfg env r w, unfolded Some option.case Let_def]
  have c: "commit_fits cfg env w \<longleftrightarrow> want_fit ?v ?w1 \<and> \<not> oscillation env ?v ?w1"
    by (simp add: commit_fits_def Some Let_def)
  show ?thesis
  proof (cases "commit_fits cfg env w")
    case True
    then show ?thesis by (intro fit[OF Some]) (simp_all only: f c simp_thms if_True if_False)
  next
    case False
    show ?thesis
    proof (cases "\<not> want_fit ?v ?w1 \<and> size_mismatch ?v \<and> (size_from_wm ?w1 \<or> fv_tiled ?v)")
      case True
      then show ?thesis using False by (intro hold[OF Some]) (simp_all only: f simp_thms if_True if_False)
    next
      case no: False
      then have "sc_fit cfg env r w = ?w1" using False unfolding f c by (simp only: simp_thms if_cancel split: if_split) blast
      then show ?thesis by (rule keep[OF Some False])
    qed
  qed
qed

lemma size_same_commit_fits: "size_same w w' \<Longrightarrow> commit_fits cfg env w' = commit_fits cfg env w"
proof -
  assume s: "size_same w w'"
  have "size_same (sc_release_wm v w) (sc_release_wm v w')" for v
    using s by (auto simp: sc_release_wm_def size_same_decisions[OF s])
      (simp_all add: size_same_def resizes_def set_sizes_def)
  note r = size_same_decisions(3,5)[OF this]
  show ?thesis
    by (simp add: commit_fits_def size_same_view[OF s] size_same_decisions(7)[OF s] r Let_def
        split: option.split)
qed

lemma commit_before_fits [simp]: "commit_fits cfg env (sc_before cfg w) = commit_fits cfg env w"
  by (rule size_same_commit_fits[OF size_same_before])

text \<open>A commit that does not fit the host leaves its window as it is.\<close>

lemma sc_fit_no_fit:
  assumes "\<not> commit_fits cfg env w"
  shows "w_output (sc_fit cfg env r w) = w_output w" "resizes (sc_fit cfg env r w) = resizes w"
    "fit_last_w (sc_fit cfg env r w) = fit_last_w w" "fit_last_h (sc_fit cfg env r w) = fit_last_h w"
    "fit_prev_w (sc_fit cfg env r w) = fit_prev_w w" "fit_prev_h (sc_fit cfg env r w) = fit_prev_h w"
    "fit_last_msec (sc_fit cfg env r w) = fit_last_msec w"
  by (rule sc_fit_cases[of w cfg env r]; use assms in simp)+

lemma commit_no_fit:
  assumes "\<not> commit_fits cfg env w"
  shows "w_output (surface_commit cfg env r w) = w_output w"
    "resizes (surface_commit cfg env r w) = resizes w"
    "fit_last_w (surface_commit cfg env r w) = fit_last_w w"
    "fit_last_h (surface_commit cfg env r w) = fit_last_h w"
    "fit_prev_w (surface_commit cfg env r w) = fit_prev_w w"
    "fit_prev_h (surface_commit cfg env r w) = fit_prev_h w"
    "fit_last_msec (surface_commit cfg env r w) = fit_last_msec w"
  using assms sc_fit_no_fit[of cfg env "sc_before cfg w" r] size_same_before[of w cfg]
    size_same_after[of "sc_fit cfg env r (sc_before cfg w)" cfg r]
  by (simp_all add: surface_commit_parts size_same_def)
section \<open>Who decides the size\<close>

text \<open>
  C1 (safety). A commit never resizes the host window of a client that is maximized or
  fullscreen, nor one whose size the host owns unless the client asserts a smaller size than it
  was asked for: no request to the X server, no change of the output.
\<close>

theorem host_keeps_its_size:
  assumes "w_output w = Some x"
    and "win_tiled w \<or> (size_from_wm w \<and> \<not> assert_shrink (fit_view_of cfg x w) w)"
  shows "resizes (surface_commit cfg env r w) = resizes w
    \<and> w_output (surface_commit cfg env r w) = w_output w"
proof -
  have "fv_tiled (fit_view_of cfg x w) = win_tiled w"
    by (simp add: fit_view_of_def Let_def split: prod.split)
  with assms have "\<not> commit_fits cfg env w"
    by (auto simp: commit_fits_def Let_def want_fit_def release_wm_owner)
  then show ?thesis by (simp add: commit_no_fit)
qed

lemma resize_recorded_output:
  "w_output (record_fit env v w) = w_output w" "listeners (record_fit env v w) = listeners w"
  "toplevel (record_fit env v w) = toplevel w" "win_out_ok (record_fit env v w) = win_out_ok w"
  by (simp_all add: record_fit_def win_out_ok_def)

lemma commit_fit_output:
  assumes "w_output w = Some x" "commit_fits cfg env w"
  shows "w_output (surface_commit cfg env r w) = w_output (resize_output_to cfg env r
      (fst (fv_want (fit_view_of cfg x w))) (snd (fv_want (fit_view_of cfg x w)))
      (record_fit env (fit_view_of cfg x w) (sc_release_wm (fit_view_of cfg x w) (sc_before cfg w))))"
proof -
  let ?b = "sc_before cfg w"
  have x: "w_output ?b = Some x" using assms size_same_before[of w cfg] by (simp add: size_same_def)
  have v: "fit_view_of cfg x ?b = fit_view_of cfg x w" by (rule size_same_view[OF size_same_before])
  show ?thesis
  proof (rule sc_fit_cases[of ?b cfg env r])
    fix x' assume "w_output ?b = Some x'"
      "sc_fit cfg env r ?b = fit_host cfg env r (fit_view_of cfg x' ?b) (sc_release_wm (fit_view_of cfg x' ?b) ?b)"
    then show ?thesis
      using x v size_same_after[of "sc_fit cfg env r ?b" cfg r]
      by (simp add: surface_commit_parts size_same_def fit_host_frame)
  qed (use assms in simp_all)
qed

text \<open>
  C4 (functional). When the client decides (it is not tiled, and the host does not own the size or
  the client asserts a smaller one), prefers a size more than a pixel away and of at least 32 by 32
  host pixels, the change is not an oscillation, and the backend takes the mode, the commit leaves the
  output at the scaled preferred size.
\<close>

theorem client_fit_follows:
  assumes "w_output w = Some x" "o_enabled x" "\<not> win_tiled w"
    and "\<not> size_from_wm w \<or> assert_shrink (fit_view_of cfg x w) w"
    and "size_mismatch (fit_view_of cfg x w)" "\<not> oscillation env (fit_view_of cfg x w) (w\<lparr>size_from_wm := False\<rparr>)"
    and "toplevel_preferred_size cfg (toplevel w) = (cw, ch)"
    and "WLX_MIN_OUTPUT_SIZE \<le> wlx_scale_size cfg cw" "WLX_MIN_OUTPUT_SIZE \<le> wlx_scale_size cfg ch"
    and "mode_ok env (wlx_scale_size cfg cw) (wlx_scale_size cfg ch)"
  shows "\<exists>x'. w_output (surface_commit cfg env r w) = Some x'
    \<and> o_width x' = wlx_scale_size cfg cw \<and> o_height x' = wlx_scale_size cfg ch"
proof -
  let ?v = "fit_view_of cfg x w"
  have v: "fv_tiled ?v = win_tiled w" "fv_pref ?v = (cw, ch)"
    "fv_want ?v = (wlx_scale_size cfg cw, wlx_scale_size cfg ch)"
    using assms(7) by (simp_all add: fit_view_of_def Let_def)
  have "\<not> size_from_wm (sc_release_wm ?v w)" using assms(4) by (auto simp: release_wm_owner)
  moreover have "\<not> oscillation env ?v (sc_release_wm ?v w)"
    using assms(6) calculation by (simp add: oscillation_def want_fit_def since_fit_def)
  ultimately have "commit_fits cfg env w"
    using assms(1,3,5) preferred_size_min[OF assms(7)] by (simp add: commit_fits_def want_fit_def v Let_def)
  note o = commit_fit_output[OF assms(1) this, of r, unfolded v fst_conv snd_conv]
  have "w_output (record_fit env ?v (sc_release_wm ?v (sc_before cfg w))) = Some x"
    using assms(1) size_same_before[of w cfg] by (simp add: resize_recorded_output size_same_def)
  from resize_output_size[OF this assms(2,10,8,9), of cfg r] show ?thesis unfolding o .
qed

text \<open>A commit that matches the host up to a pixel sends nothing that resizes anything.\<close>

lemma settled_commit:
  assumes "w_output w = Some x" "\<not> size_mismatch (fit_view_of cfg x w)"
  shows "size_same w (surface_commit cfg env r w)"
proof -
  have "\<not> commit_fits cfg env w" using assms by (simp add: commit_fits_def want_fit_def Let_def)
  let ?b = "sc_before cfg w"
  have b: "size_same w ?b" by (rule size_same_before)
  then have "w_output ?b = Some x" "fit_view_of cfg x ?b = fit_view_of cfg x w"
    using assms(1) by (simp_all add: size_same_def size_same_view[OF b])
  with assms(2) have "sc_fit cfg env r ?b = ?b"
    by (simp add: sc_fit_def want_fit_def sc_release_wm_def assert_shrink_def Let_def)
  with b size_same_after[of ?b cfg r] show ?thesis
    by (auto simp: surface_commit_parts intro: size_same_trans)
qed
end
