(* ===== verification/X11_Windows.thy ===== *)
theory X11_Windows
  imports X11_Props
begin

text \<open>
  Which X windows belong to a toplevel (\<open>src/x11.c\<close>, lines 232 to 246 and 366 to 480;
  \<open>src/output.c\<close>, lines 517 to 664): the register of the subtree the window manager
  built, the content window within it, the toplevel of an X id, and the toplevel under the pointer.
\<close>

section \<open>The register of related windows\<close>

text \<open>\<open>related[related_count++] = w\<close> while the array of 32 has room.\<close>

definition add_related :: "xid \<Rightarrow> wlx_window \<Rightarrow> wlx_window" where
  "add_related x win =
     (if length (related win) < WLX_MAX_RELATED_WINDOWS
      then win\<lparr>related := related win @ [x]\<rparr> else win)"

fun register_x11_window_subtree :: "wlx_config \<Rightarrow> xtree \<Rightarrow> wlx_window \<Rightarrow> wlx_window" where
  "register_x11_window_subtree cfg (XWin x cs) win =
     fold (register_x11_window_subtree cfg) cs (add_related x (select_window_events cfg x win))"

text \<open>A preorder walk of the reported tree.\<close>

fun xtree_ids :: "xtree \<Rightarrow> xid list" where
  "xtree_ids (XWin x cs) = x # concat (map xtree_ids cs)"

section \<open>The content window\<close>

text \<open>The area of a reply's two \<open>uint16_t\<close> as \<open>uint32_t\<close>.\<close>

definition area32 :: "int \<times> int \<Rightarrow> int" where
  "area32 g = (fst g * snd g) mod 2 ^ 32"

fun largest_window :: "wlx_env \<Rightarrow> xid \<Rightarrow> xid list \<Rightarrow> xid \<times> int \<Rightarrow> xid \<times> int" where
  "largest_window env frame [] best = best"
| "largest_window env frame (x # xs) (best, best_area) =
     (if x = XCB_WINDOW_NONE \<or> x = frame then largest_window env frame xs (best, best_area)
      else case q_geometry env x of
          None \<Rightarrow> largest_window env frame xs (best, best_area)
        | Some g \<Rightarrow>
            if area32 g > best_area then largest_window env frame xs (x, area32 g)
            else largest_window env frame xs (best, best_area))"

definition find_content_window :: "wlx_env \<Rightarrow> wlx_window \<Rightarrow> xid" where
  "find_content_window env win =
     fst (largest_window env (xwin win) (related win) (XCB_WINDOW_NONE, 0))"

section \<open>The toplevel of an X id\<close>

definition owns_xwin :: "xid \<Rightarrow> wlx_window \<Rightarrow> bool" where
  "owns_xwin x win \<longleftrightarrow> xwin win = x \<or> content_xwin win = x \<or> List.member (related win) x"

definition window_from_xwin :: "wlx_window list \<Rightarrow> xid \<Rightarrow> wlx_window option" where
  "window_from_xwin wins x = List.find (owns_xwin x) wins"

section \<open>The toplevel under the pointer\<close>

text \<open>The descent, at most 16 levels; \<open>q_child_at\<close> is the reply of \<open>translate_coordinates\<close>
  at the pointer, \<open>None\<close> when there is no reply and 0 when there is no child.\<close>

fun descend_at_pointer :: "wlx_config \<Rightarrow> wlx_env \<Rightarrow> nat \<Rightarrow> xid \<Rightarrow> xid" where
  "descend_at_pointer cfg env 0 w = w"
| "descend_at_pointer cfg env (Suc n) w =
     (if query_root_pointer_position cfg env = None then w
      else case q_child_at env w of
          None \<Rightarrow> w
        | Some c \<Rightarrow> if c = XCB_WINDOW_NONE then w else descend_at_pointer cfg env n c)"

text \<open>The walk up to the root. Nothing in the code bounds it: the result is \<open>None\<close> when it
  does not return, \<open>Some None\<close> when it finds no toplevel.\<close>

partial_function (option) window_above ::
  "wlx_config \<Rightarrow> wlx_env \<Rightarrow> wlx_window list \<Rightarrow> xid \<Rightarrow> wlx_window option option" where
  "window_above cfg env wins w =
     (if w = XCB_WINDOW_NONE \<or> w = xcb_root cfg then Some None
      else case window_from_xwin wins w of
          Some win \<Rightarrow> Some (Some win)
        | None \<Rightarrow> (case q_parent env w of
              None \<Rightarrow> Some None
            | Some p \<Rightarrow> window_above cfg env wins p))"

definition window_at_root_pointer ::
  "wlx_config \<Rightarrow> wlx_env \<Rightarrow> wlx_window list \<Rightarrow> wlx_window option option" where
  "window_at_root_pointer cfg env wins =
     (if \<not> have_xcb cfg \<or> q_pointer env = None then Some None
      else if q_pointer_child env = XCB_WINDOW_NONE then Some None
      else window_above cfg env wins (descend_at_pointer cfg env 16 (q_pointer_child env)))"

definition pointer_coords_on_window ::
  "wlx_config \<Rightarrow> wlx_env \<Rightarrow> wlx_window \<Rightarrow> (int \<times> int) option" where
  "pointer_coords_on_window cfg env win =
     (case w_output win of
        None \<Rightarrow> None
      | Some x \<Rightarrow>
          let target = (if o_win x = XCB_WINDOW_NONE then ewmh_target_window win else o_win x)
          in if target = XCB_WINDOW_NONE then None
             else case query_root_pointer_position cfg env of
                 None \<Rightarrow> None
               | Some (px, py) \<Rightarrow> (case query_window_root_position cfg env target of
                     None \<Rightarrow> None
                   | Some (ox, oy) \<Rightarrow> Some (px - ox, py - oy)))"

section \<open>Facts about the register\<close>

lemma add_related_take:
  "length (related w) \<le> WLX_MAX_RELATED_WINDOWS \<Longrightarrow>
    related (add_related x w) = take WLX_MAX_RELATED_WINDOWS (related w @ [x])"
  by (auto simp: add_related_def)

lemma select_events_related [simp]: "related (select_window_events cfg x w) = related w"
  by (simp add: select_window_events_def)

lemma take_take_append: "take n (take n xs @ ys) = take n (xs @ ys)"
  by (cases "n \<le> length xs") simp_all

lemma register_subtree_related:
  "length (related w) \<le> WLX_MAX_RELATED_WINDOWS \<Longrightarrow>
    related (register_x11_window_subtree cfg t w)
      = take WLX_MAX_RELATED_WINDOWS (related w @ xtree_ids t)"
proof (induction t arbitrary: w)
  case (XWin x cs)
  have step: "length (related w) \<le> WLX_MAX_RELATED_WINDOWS \<Longrightarrow> set ds \<subseteq> set cs \<Longrightarrow>
      related (fold (register_x11_window_subtree cfg) ds w)
      = take WLX_MAX_RELATED_WINDOWS (related w @ concat (map xtree_ids ds))" for ds w
  proof (induction ds arbitrary: w)
    case (Cons d ds)
    have d: "related (register_x11_window_subtree cfg d w)
        = take WLX_MAX_RELATED_WINDOWS (related w @ xtree_ids d)"
      using Cons.prems by (intro XWin.IH) auto
    then have "length (related (register_x11_window_subtree cfg d w)) \<le> WLX_MAX_RELATED_WINDOWS" by simp
    from Cons.IH[OF this] Cons.prems show ?case
      by (simp add: d take_take_append del: take_append)
  qed simp
  let ?w1 = "add_related x (select_window_events cfg x w)"
  have r: "related ?w1 = take WLX_MAX_RELATED_WINDOWS (related w @ [x])"
    using XWin.prems by (simp add: add_related_take)
  then have "length (related ?w1) \<le> WLX_MAX_RELATED_WINDOWS" by simp
  from step[OF this, of cs] show ?case by (simp add: r take_take_append del: take_append)
qed

text \<open>The content window is one of the related windows, not the frame, and as large as any.\<close>

definition candidate :: "wlx_env \<Rightarrow> xid \<Rightarrow> xid \<Rightarrow> int option" where
  "candidate env fr x =
     (if x = XCB_WINDOW_NONE \<or> x = fr then None else map_option area32 (q_geometry env x))"

lemma largest_step:
  "largest_window env fr (x # xs) best =
     (case candidate env fr x of
        Some a \<Rightarrow> if a > snd best then largest_window env fr xs (x, a) else largest_window env fr xs best
      | None \<Rightarrow> largest_window env fr xs best)"
  by (cases best) (auto simp: candidate_def split: option.split)

lemma largest_window_mono: "snd best \<le> snd (largest_window env fr xs best)"
proof (induction xs arbitrary: best)
  case (Cons x xs)
  show ?case
  proof (cases "candidate env fr x")
    case (Some a)
    with Cons.IH[of "(x, a)"] Cons.IH[of best] show ?thesis
      by (simp add: largest_step del: largest_window.simps)
  next
    case None
    with Cons.IH[of best] show ?thesis by (simp add: largest_step del: largest_window.simps)
  qed
qed simp

lemma largest_window_max:
  "x \<in> set xs \<Longrightarrow> candidate env fr x = Some a \<Longrightarrow> a \<le> snd (largest_window env fr xs best)"
proof (induction xs arbitrary: best)
  case (Cons y ys)
  show ?case
  proof (cases "x = y")
    case True
    with Cons.prems largest_window_mono[of "(y, a)" env fr ys] largest_window_mono[of best env fr ys]
    show ?thesis by (simp add: largest_step del: largest_window.simps)
  next
    case False
    with Cons.prems have "x \<in> set ys" by simp
    from Cons.IH[OF this Cons.prems(2)] show ?thesis
      by (auto simp: largest_step simp del: largest_window.simps split: option.split)
  qed
qed simp

lemma largest_window_cases:
  "largest_window env fr xs best = best
   \<or> (fst (largest_window env fr xs best) \<in> set xs
      \<and> candidate env fr (fst (largest_window env fr xs best)) = Some (snd (largest_window env fr xs best)))"
proof (induction xs arbitrary: best)
  case (Cons x xs)
  show ?case
  proof (cases "candidate env fr x")
    case (Some a)
    with Cons.IH[of "(x, a)"] Cons.IH[of best] show ?thesis
      by (simp add: largest_step del: largest_window.simps) (metis fst_conv snd_conv)
  next
    case None
    with Cons.IH[of best] show ?thesis by (auto simp add: largest_step simp del: largest_window.simps)
  qed
qed simp

section \<open>Termination of the walk up\<close>

text \<open>X windows form a tree: with a depth that parents decrease, the walk returns.\<close>

definition acyclic_parents :: "'a wlx_env_scheme \<Rightarrow> (xid \<Rightarrow> nat) \<Rightarrow> bool" where
  "acyclic_parents env depth \<longleftrightarrow> (\<forall>w p. q_parent env w = Some p \<longrightarrow> depth p < depth w)"

lemma window_above_returns:
  assumes "acyclic_parents env depth"
  shows "\<exists>r. window_above cfg env wins w = Some r"
proof (induction "depth w" arbitrary: w rule: less_induct)
  case less
  show ?case
  proof (cases "q_parent env w")
    case None
    then show ?thesis by (subst window_above.simps) (simp split: option.split)
  next
    case (Some p)
    with assms have "depth p < depth w" by (simp add: acyclic_parents_def)
    then obtain r where "window_above cfg env wins p = Some r" using less by blast
    with Some show ?thesis by (subst window_above.simps) (auto split: option.split)
  qed
qed

lemma window_above_owned:
  assumes "window_above cfg env wins w = Some (Some win)"
  shows "win \<in> set wins"
proof -
  have "\<forall>v. Some win = Some v \<longrightarrow> v \<in> set wins"
  proof (rule window_above.raw_induct[OF _ assms, of "\<lambda>cfg env wins w r. \<forall>v. r = Some v \<longrightarrow> v \<in> set wins"])
    fix f cfg env wins w r
    assume IH: "\<And>cfg env wins w y. f cfg env wins w = Some y \<Longrightarrow> \<forall>v. y = Some v \<longrightarrow> v \<in> set wins"
      and body: "(if w = XCB_WINDOW_NONE \<or> w = xcb_root cfg then Some None
        else case window_from_xwin wins w of
            None \<Rightarrow> (case q_parent env w of None \<Rightarrow> Some None | Some p \<Rightarrow> f cfg env wins p)
          | Some win \<Rightarrow> Some (Some win)) = Some r"
    show "\<forall>v. r = Some v \<longrightarrow> v \<in> set wins"
    proof (cases "w = XCB_WINDOW_NONE \<or> w = xcb_root cfg")
      case True
      with body show ?thesis by auto
    next
      case no: False
      show ?thesis
      proof (cases "window_from_xwin wins w")
        case None
        with body no IH show ?thesis by (cases "q_parent env w") auto
      next
        case (Some v)
        then have "v \<in> set wins" by (auto simp: window_from_xwin_def find_Some_iff)
        with body no Some show ?thesis by auto
      qed
    qed
  qed
  then show ?thesis by simp
qed

end
