(* ===== verification/Window_Life.thy ===== *)
theory Window_Life
  imports Surface_Commit X11_Windows
begin

text \<open>
  The life of a toplevel's host window: the record made for a new \<open>xdg_toplevel\<close>, its X11
  output when it maps, the window manager's frame, decorations, and the end of the output
  (\<open>src/output.c\<close>, lines 221 to 257, 517 to 584 and 769 to 954; \<open>src/x11.c\<close>,
  lines 736 to 808; \<open>src/xdg.c\<close>, lines 424 to 563).
\<close>

section \<open>Transient hints\<close>

text \<open>\<open>parent_win\<close> is the record of the toplevel's parent.\<close>

definition transient_position :: "wlx_config \<Rightarrow> wlx_env \<Rightarrow> wlx_window \<Rightarrow> wlx_window \<Rightarrow> (int \<times> int) option" where
  "transient_position cfg env pw win =
     (case w_output win of
        None \<Rightarrow> None
      | Some x \<Rightarrow>
          if o_width x \<le> 0 \<or> o_height x \<le> 0 then None
          else case query_window_root_position cfg env (xwin pw) of
              None \<Rightarrow> None
            | Some (px, py) \<Rightarrow> (case query_window_geometry cfg env (xwin pw) of
                  None \<Rightarrow> None
                | Some (w, h) \<Rightarrow>
                    let nx = px + (w - o_width x) sdiv 2; ny = py + (h - o_height x) sdiv 2
                    in Some (if nx < 0 then 0 else nx, if ny < 0 then 0 else ny)))"

definition apply_transient_hints ::
  "wlx_config \<Rightarrow> wlx_env \<Rightarrow> wlx_window option \<Rightarrow> wlx_window \<Rightarrow> wlx_window" where
  "apply_transient_hints cfg env parent_win win =
     (if xwin win = XCB_WINDOW_NONE then win
      else
        let parent_x = (case parent_win of None \<Rightarrow> XCB_WINDOW_NONE | Some pw \<Rightarrow> ewmh_target_window pw)
        in if parent_win \<noteq> None \<and> parent_x \<noteq> XCB_WINDOW_NONE then
             let w1 = xwin_set_transient_for cfg (xwin win) parent_x win;
                 w2 = (if content_xwin win \<noteq> XCB_WINDOW_NONE \<and> content_xwin win \<noteq> xwin win
                       then xwin_set_transient_for cfg (content_xwin win) parent_x w1 else w1);
                 w3 = xwin_set_window_type_dialog cfg (content_xwin win) True
                        (xwin_set_window_type_dialog cfg (xwin win) True w2);
                 w4 = xwin_set_modal cfg (content_xwin win) True (xwin_set_modal cfg (xwin win) True w3)
             in (case transient_position cfg env (the parent_win) win of
                   None \<Rightarrow> w4
                 | Some (nx, ny) \<Rightarrow> emit (ConfigurePos (ewmh_target_window win) nx ny) w4)
           else xwin_set_window_type_dialog cfg (content_xwin win) False
                  (xwin_set_window_type_dialog cfg (xwin win) False win))"

section \<open>A new toplevel\<close>

text \<open>\<open>calloc\<close> zeroes the record.\<close>

definition server_new_xdg_toplevel :: "wid \<Rightarrow> wlr_toplevel \<Rightarrow> scene_node \<Rightarrow> wlx_window" where
  "server_new_xdg_toplevel i t tree =
     \<lparr>w_id = i, toplevel = t, scene_tree = Some tree, w_output = None, listeners = False,
      l_output = None, scene_output = False, last_output_width = 0, last_output_height = 0,
      csd_margin_w = 0, csd_margin_h = 0, size_from_wm = False, last_client_conf_w = 0,
      last_client_conf_h = 0, fit_last_w = 0, fit_last_h = 0, fit_prev_w = 0, fit_prev_h = 0,
      fit_last_msec = 0, fill_host_last_msec = 0, hold_present = False, xwin = XCB_WINDOW_NONE,
      related = [], content_xwin = XCB_WINDOW_NONE, last_title = '''', last_app_id = '''',
      initial_configure_sent = False, pending_decoration = None, w_log = []\<rparr>"

section \<open>Mapping: the X11 output\<close>

text \<open>What the backend and the layout answer: the id of the new X window with the request count
  of the connection, if the output could be created, and the place in the layout.\<close>

record new_output =
  no_output :: "(xid \<times> nat) option"
  no_layout :: "int \<times> int"

text \<open>The properties written on one of the toplevel's X ids.\<close>

definition write_props ::
  "wlx_config \<Rightarrow> wlx_env \<Rightarrow> wlx_window option \<Rightarrow> xid \<Rightarrow> wlx_window \<Rightarrow> wlx_window" where
  "write_props cfg env parent_win x win =
     xwin_set_motif_decorations cfg x (\<not> prefer_csd cfg)
       (xwin_set_class cfg x (tl_app_id (toplevel win))
         (xwin_set_title cfg x (tl_title (toplevel win))
           (apply_transient_hints cfg env parent_win win)))"

definition reset_identity :: "wlx_window \<Rightarrow> wlx_window" where
  "reset_identity win = win\<lparr>xwin := XCB_WINDOW_NONE, content_xwin := XCB_WINDOW_NONE, related := []\<rparr>"

definition identify_output ::
  "wlx_config \<Rightarrow> wlx_env \<Rightarrow> wlx_window option \<Rightarrow> int \<times> int \<Rightarrow> xid \<Rightarrow> wlx_window \<Rightarrow> wlx_window" where
  "identify_output cfg env parent_win want x win =
     (let win1 = win\<lparr>xwin := x\<rparr>
      in if x = XCB_WINDOW_NONE then win1
         else
           let w2 = write_props cfg env parent_win x (win1\<lparr>content_xwin := x, related := [x]\<rparr>);
               cur = (case w_output win of Some out \<Rightarrow> (o_width out, o_height out) | None \<Rightarrow> (0, 0));
               w3 = dnd_set_xdnd_aware cfg x (win_sync_size_hints cfg
                      (w2\<lparr>last_output_width := (if 0 < fst want then fst want else fst cur),
                          last_output_height := (if 0 < snd want then snd want else snd cur)\<rparr>));
               w4 = register_x11_window_subtree cfg (q_tree env x) w3;
               found = find_content_window env w4;
               w5 = (if found \<noteq> XCB_WINDOW_NONE
                     then dnd_set_xdnd_aware cfg found (win_sync_size_hints cfg
                            (write_props cfg env parent_win found (w4\<lparr>content_xwin := found\<rparr>)))
                     else w4)
           in w5\<lparr>last_title := snprintf_s 256 (opt_str (tl_title (toplevel win))),
                 last_app_id := snprintf_s 256 (opt_str (tl_app_id (toplevel win)))\<rparr>)"

text \<open>Where an override-redirect dialog goes: over the middle of its parent.\<close>

definition or_position :: "wlx_config \<Rightarrow> wlx_env \<Rightarrow> wlx_window option \<Rightarrow> x11_output \<Rightarrow> int \<times> int" where
  "or_position cfg env parent_win out =
     (case parent_win of
        None \<Rightarrow> (100, 100)
      | Some pw \<Rightarrow>
          let (ox, oy) = (case query_window_root_position cfg env (ewmh_target_window pw) of
                  Some p \<Rightarrow> p | None \<Rightarrow> (0, 0));
              (pw_w, pw_h) = (case w_output pw of Some p \<Rightarrow> (o_width p, o_height p) | None \<Rightarrow> (800, 600));
              px = c_int16 (ox + c_int16 ((pw_w - o_width out) sdiv 2));
              py = c_int16 (oy + c_int16 ((pw_h - o_height out) sdiv 2))
          in (if px < 0 then 0 else px, if py < 0 then 0 else py))"

definition initial_mode :: "int \<times> int \<Rightarrow> output_state" where
  "initial_mode want =
     \<lparr>os_mode = (if 0 < fst want \<and> 0 < snd want then Some want else None), os_enabled = Some True\<rparr>"

definition create_output_for_window ::
  "wlx_config \<Rightarrow> wlx_env \<Rightarrow> nat list \<Rightarrow> wlx_window option \<Rightarrow> new_output \<Rightarrow> wlx_window \<Rightarrow> wlx_window" where
  "create_output_for_window cfg env popups parent_win new win =
     (let win1 = (reset_identity win)\<lparr>size_from_wm := False\<rparr>;
          use_or = tl_parent (toplevel win) \<noteq> None \<and> prefer_csd cfg
      in case no_output new of
           None \<Rightarrow> win1
         | Some (x, seq) \<Rightarrow>
             let (lw, lh) = toplevel_preferred_size cfg (toplevel win);
                 want = (wlx_scale_size cfg lw, wlx_scale_size cfg lh);
                 w2 = identify_output cfg env parent_win want x
                        (win1\<lparr>w_output := Some (x11_output_create x seq), listeners := False\<rparr>);
                 w3 = snd (win_commit_state cfg env popups (initial_mode want) w2)
             in (case w_output w3 of
                   None \<Rightarrow> w3
                 | Some out \<Rightarrow>
                     let w4 = w3\<lparr>last_output_width := o_width out, last_output_height := o_height out\<rparr>;
                         w5 = (if use_or \<and> xwin w4 \<noteq> XCB_WINDOW_NONE \<and> have_xcb cfg
                               then case or_position cfg env parent_win out of
                                   (px, py) \<Rightarrow> emit (ConfigurePos (xwin w4) px py) w4
                               else w4);
                         w6 = place_tree (w5\<lparr>l_output := Some (no_layout new), scene_output := True,
                                listeners := True\<rparr>)
                     in emit ScheduleFrame (wlx_apply_content_scale_ex cfg popups True
                          (wlx_toplevel_set_size 0 0 w6))))"

section \<open>The end of the output\<close>

text \<open>The window's part of \<open>output_destroy\<close>; focus and drags are in theory \<open>Server\<close>.\<close>

definition output_destroy :: "wlx_window \<Rightarrow> wlx_window" where
  "output_destroy win =
     (reset_identity win)\<lparr>listeners := False, w_output := None, scene_output := False, l_output := None\<rparr>"

text \<open>\<open>wlr_output_destroy\<close>: the backend unmaps nothing, destroys its X window, and the destroy
  event reaches the listener.\<close>

definition wlr_output_destroy :: "wlx_window \<Rightarrow> wlx_window" where
  "wlr_output_destroy win =
     (case w_output win of
        None \<Rightarrow> win
      | Some x \<Rightarrow> emit (DestroyWindow (o_win x)) (if listeners win then output_destroy win else win))"

section \<open>The window manager's frame\<close>

definition reparent_sync ::
  "wlx_config \<Rightarrow> wlx_env \<Rightarrow> nat list \<Rightarrow> wlx_window \<Rightarrow> wlx_window" where
  "reparent_sync cfg env popups win =
     (case w_output win of
        None \<Rightarrow> win
      | Some out \<Rightarrow>
          if content_xwin win = XCB_WINDOW_NONE \<or> \<not> have_xcb cfg then win
          else
            let w1 = (if 0 < o_width out \<and> 0 < o_height out
                      then emit (ConfigureSize (content_xwin win) (o_width out) (o_height out)) win
                      else win)
            in case q_geometry env (content_xwin win) of
                 None \<Rightarrow> w1
               | Some (cw, ch) \<Rightarrow>
                   if 0 < cw \<and> 0 < ch \<and> (cw \<noteq> o_width out \<or> ch \<noteq> o_height out)
                   then wlx_toplevel_set_size (wlx_unscale_size cfg cw) (wlx_unscale_size cfg ch)
                          (resize_output_to cfg env popups cw ch w1)
                   else w1)"

text \<open>\<open>ReparentNotify\<close> of window \<open>rn_window\<close> to \<open>rn_parent\<close>, one of the toplevel's ids.\<close>

definition win_reparent_notify ::
  "wlx_config \<Rightarrow> wlx_env \<Rightarrow> nat list \<Rightarrow> wlx_window option \<Rightarrow> xid \<Rightarrow> xid \<Rightarrow> wlx_window \<Rightarrow> wlx_window" where
  "win_reparent_notify cfg env popups parent_win rn_window rn_parent win =
     (if xwin win = XCB_WINDOW_NONE then win
      else
        let w1 = (if rn_parent \<noteq> XCB_WINDOW_NONE \<and> rn_parent \<noteq> xcb_root cfg
                     \<and> (rn_window = xwin win \<or> rn_window = content_xwin win)
                  then win\<lparr>content_xwin := rn_window, xwin := rn_parent\<rparr> else win);
            w2 = register_x11_window_subtree cfg (q_tree env (xwin w1)) (w1\<lparr>related := []\<rparr>);
            found = find_content_window env w2;
            w3 = (if found \<noteq> XCB_WINDOW_NONE then w2\<lparr>content_xwin := found\<rparr>
                  else if content_xwin w2 = XCB_WINDOW_NONE then w2\<lparr>content_xwin := xwin w2\<rparr>
                  else w2);
            w4 = dnd_set_xdnd_aware cfg (content_xwin w3) (dnd_set_xdnd_aware cfg (xwin w3) w3);
            w5 = xwin_set_motif_decorations cfg (xwin w4) (\<not> prefer_csd cfg)
                   (apply_transient_hints cfg env parent_win w4);
            w6 = (if content_xwin w5 \<noteq> XCB_WINDOW_NONE
                  then xwin_set_motif_decorations cfg (content_xwin w5) (\<not> prefer_csd cfg) w5 else w5)
        in reparent_sync cfg env popups w6)"

section \<open>Decorations\<close>

text \<open>\<open>wlx_decoration_apply_mode\<close> for decoration \<open>d\<close> of this window. A decoration of a
  toplevel without a record is answered at once with the server side mode.\<close>

definition wlx_decoration_apply_mode :: "wlx_config \<Rightarrow> nat \<Rightarrow> wlx_window \<Rightarrow> wlx_window" where
  "wlx_decoration_apply_mode cfg d win =
     (if \<not> initial_configure_sent win then win\<lparr>pending_decoration := Some d\<rparr>
      else emit (SetDecorationMode d (wlx_decoration_mode cfg)) win)"

definition decoration_request_mode :: "wlx_config \<Rightarrow> nat \<Rightarrow> wlx_window \<Rightarrow> wlx_window" where
  "decoration_request_mode cfg d win = wlx_decoration_apply_mode cfg d win"

definition decoration_destroy :: "nat \<Rightarrow> wlx_window \<Rightarrow> wlx_window" where
  "decoration_destroy d win =
     (if pending_decoration win = Some d then win\<lparr>pending_decoration := None\<rparr> else win)"

section \<open>Requests that neither size nor map a window\<close>

definition log_quiet :: "wlx_window \<Rightarrow> wlx_window \<Rightarrow> bool" where
  "log_quiet w w' \<longleftrightarrow> (\<exists>cs. w_log w' = w_log w @ cs \<and> list_all quiet cs)"

lemma log_quiet_refl: "w_log w' = w_log w \<Longrightarrow> log_quiet w w'"
  by (simp add: log_quiet_def)

lemma log_quiet_trans [trans]: "log_quiet a b \<Longrightarrow> log_quiet b c \<Longrightarrow> log_quiet a c"
  by (auto simp: log_quiet_def)

lemma log_only_quiet: "log_only a b \<Longrightarrow> log_quiet a b"
  by (auto simp: log_only_def log_quiet_def)

lemma log_quiet_upd:
  "log_quiet a b \<Longrightarrow> w_log b' = w_log b \<Longrightarrow> log_quiet a b'"
  by (simp add: log_quiet_def)

lemma transient_hints_log_only [simp]: "log_only w (apply_transient_hints cfg env p w)"
proof -
  have t: "log_only w w' \<Longrightarrow> log_only w (f w')" if "\<And>v. log_only v (f v)" for f w'
    using that log_only_trans by blast
  show ?thesis
    unfolding apply_transient_hints_def Let_def
    by (auto intro!: t[of "xwin_set_window_type_dialog _ _ _"] t[of "xwin_set_modal _ _ _"]
        t[of "xwin_set_transient_for _ _ _"] t[of "emit _"] split: option.split)
qed

lemma write_props_log_only [simp]: "log_only w (write_props cfg env p x w)"
  unfolding write_props_def by (meson log_only_trans transient_hints_log_only props_log_only)

lemma register_subtree_quiet: "log_quiet w (register_x11_window_subtree cfg t w)"
proof (induction t arbitrary: w)
  case (XWin x cs)
  have f: "set ds \<subseteq> set cs \<Longrightarrow> log_quiet w (fold (register_x11_window_subtree cfg) ds w)" for ds w
  proof (induction ds arbitrary: w)
    case (Cons d ds)
    then have "log_quiet w (register_x11_window_subtree cfg d w)" using XWin.IH by simp
    also have "log_quiet \<dots> (fold (register_x11_window_subtree cfg) ds \<dots>)" using Cons by simp
    finally show ?case by simp
  qed (simp add: log_quiet_refl)
  have "log_quiet w (add_related x (select_window_events cfg x w))"
    by (rule log_quiet_upd[OF log_only_quiet[OF props_log_only(10)]]) (simp add: add_related_def)
  also have "log_quiet \<dots> (fold (register_x11_window_subtree cfg) cs \<dots>)" by (rule f) simp
  finally show ?case by simp
qed

lemma register_subtree_frame [simp]:
  "w_output (register_x11_window_subtree cfg t w) = w_output w"
  "toplevel (register_x11_window_subtree cfg t w) = toplevel w"
  "listeners (register_x11_window_subtree cfg t w) = listeners w"
  "xwin (register_x11_window_subtree cfg t w) = xwin w"
  "size_from_wm (register_x11_window_subtree cfg t w) = size_from_wm w"
  "fit_last_w (register_x11_window_subtree cfg t w) = fit_last_w w"
  "fit_last_h (register_x11_window_subtree cfg t w) = fit_last_h w"
  "fit_prev_w (register_x11_window_subtree cfg t w) = fit_prev_w w"
  "fit_prev_h (register_x11_window_subtree cfg t w) = fit_prev_h w"
  "fit_last_msec (register_x11_window_subtree cfg t w) = fit_last_msec w"
proof -
  have e: "f (fold (register_x11_window_subtree cfg) cs w) = f w"
    if "\<And>t v. t \<in> set cs \<Longrightarrow> f (register_x11_window_subtree cfg t v) = f v" for f :: "wlx_window \<Rightarrow> 'a" and cs w
    using that by (induction cs arbitrary: w) auto
  have g: "f (register_x11_window_subtree cfg t w) = f w"
    if "\<And>x v. f (add_related x (select_window_events cfg x v)) = f v" for f :: "wlx_window \<Rightarrow> 'a"
  proof (induction t arbitrary: w)
    case (XWin x cs)
    then show ?case by (simp add: e that)
  qed
  have s: "f (add_related x (select_window_events cfg x v)) = f v"
    if "\<And>c v. f (emit c v) = f v" "\<And>l v. f (v\<lparr>related := l\<rparr>) = f v" for f :: "wlx_window \<Rightarrow> 'a" and x v
    using that by (simp add: add_related_def select_window_events_def)
  show "w_output (register_x11_window_subtree cfg t w) = w_output w" by (rule g, rule s) simp_all
  show "toplevel (register_x11_window_subtree cfg t w) = toplevel w" by (rule g, rule s) simp_all
  show "listeners (register_x11_window_subtree cfg t w) = listeners w" by (rule g, rule s) simp_all
  show "xwin (register_x11_window_subtree cfg t w) = xwin w" by (rule g, rule s) simp_all
  show "size_from_wm (register_x11_window_subtree cfg t w) = size_from_wm w" by (rule g, rule s) simp_all
  show "fit_last_w (register_x11_window_subtree cfg t w) = fit_last_w w" by (rule g, rule s) simp_all
  show "fit_last_h (register_x11_window_subtree cfg t w) = fit_last_h w" by (rule g, rule s) simp_all
  show "fit_prev_w (register_x11_window_subtree cfg t w) = fit_prev_w w" by (rule g, rule s) simp_all
  show "fit_prev_h (register_x11_window_subtree cfg t w) = fit_prev_h w" by (rule g, rule s) simp_all
  show "fit_last_msec (register_x11_window_subtree cfg t w) = fit_last_msec w" by (rule g, rule s) simp_all
qed

lemmas write_props_same [simp] = log_only_same[OF write_props_log_only]
lemmas xdnd_same [simp] = log_only_same[OF props_log_only(9)]
lemmas transient_same [simp] = log_only_same[OF transient_hints_log_only]
lemmas motif_same [simp] = log_only_same[OF props_log_only(3)]

lemma identify_output_quiet: "log_quiet w (identify_output cfg env p want x w)"
proof (cases "x = XCB_WINDOW_NONE")
  case True
  then show ?thesis by (simp add: identify_output_def Let_def log_quiet_refl)
next
  case False
  let ?w2 = "write_props cfg env p x (w\<lparr>xwin := x, content_xwin := x, related := [x]\<rparr>)"
  have q: "log_quiet w a \<Longrightarrow> log_only a b \<Longrightarrow> log_quiet w b" for a b
    by (rule log_quiet_trans[OF _ log_only_quiet])
  have w2: "log_quiet w ?w2"
    by (rule q[where a = "w\<lparr>xwin := x, content_xwin := x, related := [x]\<rparr>", OF log_quiet_refl]) simp_all
  have l1: "log_only v (dnd_set_xdnd_aware cfg y (win_sync_size_hints cfg v))" for v y
    by (meson log_only_trans sync_size_hints_log_only props_log_only(9))
  have l2: "log_only v (dnd_set_xdnd_aware cfg y (win_sync_size_hints cfg (write_props cfg env p y v)))" for v y
    by (meson log_only_trans l1 write_props_log_only)
  have w3: "log_quiet w (dnd_set_xdnd_aware cfg x (win_sync_size_hints cfg
      (?w2\<lparr>last_output_width := a, last_output_height := b\<rparr>)))" (is "log_quiet w (?w3 a b)") for a b
    by (rule q[OF log_quiet_upd[OF w2] l1]) simp
  let ?w4 = "\<lambda>a b. register_x11_window_subtree cfg (q_tree env x) (?w3 a b)"
  have w4: "log_quiet w (?w4 a b)" for a b
    by (rule log_quiet_trans[OF w3 register_subtree_quiet])
  have w5: "log_quiet w (dnd_set_xdnd_aware cfg f (win_sync_size_hints cfg
      (write_props cfg env p f ((?w4 a b)\<lparr>content_xwin := f\<rparr>))))" for a b f
    by (rule q[OF log_quiet_upd[OF w4] l2]) simp
  from w4 w5 False show ?thesis
    by (simp add: identify_output_def Let_def log_quiet_def del: xdnd_same write_props_same
        sync_size_hints_same)
qed

lemma identify_output_frame [simp]:
  "w_output (identify_output cfg env p want x w) = w_output w"
  "toplevel (identify_output cfg env p want x w) = toplevel w"
  "listeners (identify_output cfg env p want x w) = listeners w"
  "xwin (identify_output cfg env p want x w) = x"
  "size_from_wm (identify_output cfg env p want x w) = size_from_wm w"
  "fit_last_w (identify_output cfg env p want x w) = fit_last_w w"
  "fit_last_h (identify_output cfg env p want x w) = fit_last_h w"
  "fit_prev_w (identify_output cfg env p want x w) = fit_prev_w w"
  "fit_prev_h (identify_output cfg env p want x w) = fit_prev_h w"
  "fit_last_msec (identify_output cfg env p want x w) = fit_last_msec w"
  by (simp_all add: identify_output_def Let_def)

section \<open>Sized before mapped\<close>

lemma initial_commit:
  assumes "mode_ok env W H" "(W, H) \<noteq> (1, 1)"
  shows "\<exists>out. wlr_output_commit_state env (initial_mode (W, H)) (x11_output_create x seq)
      = (True, out, [ConfigureSize x W H, UpdatePointerPosition x, MapWindow x, PresentPixmap x])
    \<and> o_width out = W \<and> o_height out = H \<and> o_enabled out \<and> o_win out = x \<and> out_ok out"
proof -
  have d: "drop_unchanged (initial_mode (W, H)) (x11_output_create x seq) = initial_mode (W, H)"
    using assms by (auto simp: drop_unchanged_def initial_mode_def x11_output_create_def mode_ok_def)
  have m: "os_mode (initial_mode (W, H)) = Some (W, H)" "os_enabled (initial_mode (W, H)) = Some True"
    using assms by (simp_all add: initial_mode_def mode_ok_def)
  have r: "output_pending_resolution (initial_mode (W, H)) (x11_output_create x seq) = (W, H)"
    "output_basic_test (initial_mode (W, H)) (x11_output_create x seq)"
    "needs_new_buffer (initial_mode (W, H)) (x11_output_create x seq)"
    using assms by (simp_all add: output_pending_resolution_def output_basic_test_def m mode_ok_def
        needs_new_buffer_def output_pending_enabled_def)
  let ?o = "x11_output_create x seq"
  have new: "\<not> (W = win_width ?o \<and> H = win_height ?o \<and> \<not> has_pending_configure ?o)" "o_win ?o = x"
    using assms(2) by (auto simp: x11_output_create_def)
  then obtain m where set: "output_set_custom_mode W H ?o = (m, [ConfigureSize x W H, UpdatePointerPosition x])"
    unfolding output_set_custom_mode_def Let_def by (simp only: if_False)
  have b: "backend_commit env (initial_mode (W, H)) ?o
      = (True, m, [ConfigureSize x W H, UpdatePointerPosition x, MapWindow x, PresentPixmap x])"
    using assms(1) by (simp add: backend_commit_def m set r new(2) mode_ok_def)
  have ok: "\<not> (needs_new_buffer (initial_mode (W, H)) ?o \<and> \<not> (0 < W \<and> 0 < H \<and> alloc_ok env W H))"
    using assms(1) by (simp add: mode_ok_def)
  have wm: "o_win m = x" using set set_custom_mode_fields(3)[of W H ?o] new(2) by simp
  have c: "wlr_output_commit_state env (initial_mode (W, H)) ?o =
    (True, output_apply_commit (initial_mode (W, H)) m, [ConfigureSize x W H, UpdatePointerPosition x, MapWindow x, PresentPixmap x])"
    by (simp only: wlr_output_commit_state_def d Let_def r(1) prod.case r(2) b ok not_True_eq_False
        if_False bool.case)
  have "out_ok (output_apply_commit (initial_mode (W, H)) m)"
    by (rule commit_state_ok[OF out_ok_create c])
  moreover have "o_width (output_apply_commit (initial_mode (W, H)) m) = W"
    "o_height (output_apply_commit (initial_mode (W, H)) m) = H"
    "o_enabled (output_apply_commit (initial_mode (W, H)) m)"
    by (simp_all add: output_apply_commit_def m Let_def)
  ultimately show ?thesis unfolding c using wm by simp
qed

definition sizing_calls :: "wlx_window \<Rightarrow> wlr_call list" where
  "sizing_calls w = filter (\<lambda>c. is_resize c \<or> is_map c) (w_log w)"

lemma log_quiet_sizing: "log_quiet a b \<Longrightarrow> sizing_calls b = sizing_calls a"
  by (auto simp: log_quiet_def sizing_calls_def list_all_iff filter_empty_conv)

lemma sizing_simps [simp]:
  "sizing_calls (emit c w) = sizing_calls w @ (if is_resize c \<or> is_map c then [c] else [])"
  "sizing_calls (wlx_toplevel_set_size a b w) = sizing_calls w"
  "sizing_calls (wlx_apply_content_scale_ex cfg r p w) = sizing_calls w"
  "sizing_calls (place_tree w) = sizing_calls w"
  by (simp_all add: sizing_calls_def wlx_toplevel_set_size_def place_tree_def Let_def emit_def
      split: option.split)

lemma w_output_upd: "w_output (w\<lparr>w_output := v\<rparr>) = v"
  by simp

lemma create_output_result:
  assumes "no_output new = Some (x, seq)"
    and "toplevel_preferred_size cfg (toplevel w) = (lw, lh)"
    and "wlx_scale_size cfg lw = W" "wlx_scale_size cfg lh = H"
    and "mode_ok env W H" "(W, H) \<noteq> (1, 1)"
  shows "\<exists>out. w_output (create_output_for_window cfg env r p new w) = Some out
    \<and> o_width out = W \<and> o_height out = H \<and> o_enabled out \<and> o_win out = x \<and> out_ok out
    \<and> sizing_calls (create_output_for_window cfg env r p new w)
        = sizing_calls w @ [ConfigureSize x W H, MapWindow x]"
proof -
  let ?w1 = "(reset_identity w)\<lparr>size_from_wm := False, w_output := Some (x11_output_create x seq),
    listeners := False\<rparr>"
  let ?w2 = "identify_output cfg env p (W, H) x ?w1"
  obtain out where c: "wlr_output_commit_state env (initial_mode (W, H)) (x11_output_create x seq)
      = (True, out, [ConfigureSize x W H, UpdatePointerPosition x, MapWindow x, PresentPixmap x])"
    and o: "o_width out = W" "o_height out = H" "o_enabled out" "o_win out = x" "out_ok out"
    using initial_commit[OF assms(5,6)] by blast
  have w3: "snd (win_commit_state cfg env r (initial_mode (W, H)) ?w2)
      = emit_all [ConfigureSize x W H, UpdatePointerPosition x, MapWindow x, PresentPixmap x] (?w2\<lparr>w_output := Some out\<rparr>)"
    by (simp add: win_commit_state_def c)
  have "sizing_calls ?w2 = sizing_calls ?w1"
    by (rule log_quiet_sizing[OF identify_output_quiet])
  then have s: "sizing_calls ?w2 = sizing_calls w"
    by (simp add: sizing_calls_def reset_identity_def)
  have s3: "filter (\<lambda>c. is_resize c \<or> is_map c) (w_log ?w2) = sizing_calls w"
    using s by (simp add: sizing_calls_def)
  let ?w4 = "(emit_all [ConfigureSize x W H, UpdatePointerPosition x, MapWindow x, PresentPixmap x] (?w2\<lparr>w_output := Some out\<rparr>))
    \<lparr>last_output_width := o_width out, last_output_height := o_height out\<rparr>"
  have w4: "sizing_calls ?w4 = sizing_calls w @ [ConfigureSize x W H, MapWindow x]" "w_output ?w4 = Some out"
    using s3 by (simp_all add: sizing_calls_def)
  define w5 where "w5 = (if (tl_parent (toplevel w) \<noteq> None \<and> prefer_csd cfg) \<and> xwin ?w4 \<noteq> XCB_WINDOW_NONE \<and> have_xcb cfg
      then case or_position cfg env p out of (px, py) \<Rightarrow> emit (ConfigurePos (xwin ?w4) px py) ?w4 else ?w4)"
  have w5: "sizing_calls w5 = sizing_calls ?w4" "w_output w5 = w_output ?w4"
    unfolding w5_def by (simp_all split: prod.split)
  have "create_output_for_window cfg env r p new w
      = emit ScheduleFrame (wlx_apply_content_scale_ex cfg r True (wlx_toplevel_set_size 0 0
          (place_tree (w5\<lparr>l_output := Some (no_layout new), scene_output := True, listeners := True\<rparr>))))"
    by (simp only: create_output_for_window_def assms(1-4) w3 Let_def prod.case option.case
        fst_conv snd_conv emit_all_fields wlx_window.simps w5_def w_output_upd)
  moreover have "w_output (place_tree v) = w_output v" for v
    by (simp add: place_tree_def split: option.split)
  moreover have "sizing_calls (w5\<lparr>l_output := Some (no_layout new), scene_output := True, listeners := True\<rparr>)
      = sizing_calls w5" by (simp add: sizing_calls_def)
  ultimately show ?thesis using o w4 w5 by simp
qed

end
