(* ===== verification/Window_Steps.thy ===== *)
theory Window_Steps
  imports Window_Life
begin

text \<open>
  The window as a state machine: every handler that acts on one toplevel's window is an event,
  \<open>win_step\<close> runs it, and \<open>win_run\<close> is the relation of the runs the event loop can make,
  with the history of the host sizes asked for by the fit of a commit. The invariants of the
  size policy hold along every run.
\<close>

section \<open>Events\<close>

datatype (plugins only: code size) win_event =
    EvState wlr_toplevel "scene_node option"
  | EvCommit
  | EvConfigure configure_notify
  | EvNetWmState
  | EvReparent "wlx_window option" xid xid
  | EvFrame
  | EvMap "wlx_window option" new_output
  | EvUnmap
  | EvRequestMaximize
  | EvRequestFullscreen
  | EvRequestMinimize
  | EvRequestClose
  | EvDecoration nat

text \<open>\<open>EvState\<close> is wlroots applying the client's state (an acked configure, a commit) before
  the compositor's listener runs.\<close>

fun win_step :: "wlx_config \<Rightarrow> wlx_env \<Rightarrow> nat list \<Rightarrow> win_event \<Rightarrow> wlx_window \<Rightarrow> wlx_window" where
  "win_step cfg env popups (EvState t tree) win = win\<lparr>toplevel := t, scene_tree := tree\<rparr>"
| "win_step cfg env popups EvCommit win = surface_commit cfg env popups win"
| "win_step cfg env popups (EvConfigure ev) win = win_configure_notify cfg env popups ev win"
| "win_step cfg env popups EvNetWmState win = win_handle_net_wm_state_notify cfg env win"
| "win_step cfg env popups (EvReparent p x parent) win = win_reparent_notify cfg env popups p x parent win"
| "win_step cfg env popups EvFrame win = output_frame cfg popups win"
| "win_step cfg env popups (EvMap p new) win =
     (if w_output win \<noteq> None then win else create_output_for_window cfg env popups p new win)"
| "win_step cfg env popups EvUnmap win = wlr_output_destroy win"
| "win_step cfg env popups EvRequestMaximize win = toplevel_request_maximize cfg win"
| "win_step cfg env popups EvRequestFullscreen win = toplevel_request_fullscreen cfg win"
| "win_step cfg env popups EvRequestMinimize win = toplevel_request_minimize cfg win"
| "win_step cfg env popups EvRequestClose win = output_request_close win"
| "win_step cfg env popups (EvDecoration d) win = decoration_request_mode cfg d win"

text \<open>The fit an event makes: the host size asked for and the time.\<close>

definition fit_of :: "wlx_config \<Rightarrow> wlx_env \<Rightarrow> win_event \<Rightarrow> wlx_window \<Rightarrow> ((int \<times> int) \<times> int) list" where
  "fit_of cfg env ev win =
     (case (ev, w_output win) of
        (EvCommit, Some x) \<Rightarrow>
          if commit_fits cfg env win then [(fv_want (fit_view_of cfg x win), now_msec env)] else []
      | _ \<Rightarrow> [])"

text \<open>\<open>E\<close> says what is known of the environments the handlers run in.\<close>

inductive win_run ::
  "wlx_config \<Rightarrow> (wlx_env \<Rightarrow> bool) \<Rightarrow> ((int \<times> int) \<times> int) list \<Rightarrow> wlx_window \<Rightarrow> bool"
  for cfg :: wlx_config and E :: "wlx_env \<Rightarrow> bool" where
  new: "win_run cfg E [] (server_new_xdg_toplevel i t tree)"
| step: "win_run cfg E fits w \<Longrightarrow> E env \<Longrightarrow>
    win_run cfg E (fits @ fit_of cfg env ev w) (win_step cfg env popups ev w)"

definition clock_runs :: "wlx_env \<Rightarrow> bool" where
  "clock_runs env \<longleftrightarrow> 0 < now_msec env"

text \<open>A run computed from a list of events with their environments.\<close>

fun win_exec ::
  "wlx_config \<Rightarrow> (wlx_env \<times> nat list \<times> win_event) list \<Rightarrow> ((int \<times> int) \<times> int) list \<Rightarrow> wlx_window
    \<Rightarrow> ((int \<times> int) \<times> int) list \<times> wlx_window" where
  "win_exec cfg [] fits w = (fits, w)"
| "win_exec cfg ((env, popups, ev) # es) fits w =
     win_exec cfg es (fits @ fit_of cfg env ev w) (win_step cfg env popups ev w)"

lemma win_exec_run:
  "win_run cfg E fits w \<Longrightarrow> list_all (\<lambda>e. E (fst e)) es \<Longrightarrow>
    win_run cfg E (fst (win_exec cfg es fits w)) (snd (win_exec cfg es fits w))"
  by (induction cfg es fits w rule: win_exec.induct) (auto intro: win_run.step)

section \<open>The history of fits\<close>

text \<open>What the record remembers of the last two fits.\<close>

definition fit_mem :: "wlx_window \<Rightarrow> (int \<times> int) \<times> (int \<times> int) \<times> int" where
  "fit_mem w = ((fit_prev_w w, fit_prev_h w), (fit_last_w w, fit_last_h w), fit_last_msec w)"

lemma fit_mem_size_same: "size_same w w' \<Longrightarrow> fit_mem w' = fit_mem w"
  by (simp add: size_same_def fit_mem_def)

lemma fit_mem_log_only: "log_only w w' \<Longrightarrow> fit_mem w' = fit_mem w"
  by (simp add: fit_mem_def log_only_same)

lemma fit_mem_simps [simp]:
  "fit_mem (emit c w) = fit_mem w"
  "fit_mem (wlx_toplevel_set_size a b w) = fit_mem w"
  "fit_mem (wlx_toplevel_fill_host cfg env w) = fit_mem w"
  "fit_mem (snd (win_commit_state cfg env r st w)) = fit_mem w"
  "fit_mem (resize_output_to cfg env r a b w) = fit_mem w"
  "fit_mem (wlx_apply_content_scale_ex cfg r sp w) = fit_mem w"
  "fit_mem (identify_output cfg env p want x w) = fit_mem w"
  "fit_mem (register_x11_window_subtree cfg t w) = fit_mem w"
  "fit_mem (w\<lparr>w_output := o1\<rparr>) = fit_mem w"
  "fit_mem (w\<lparr>size_from_wm := bo\<rparr>) = fit_mem w"
  "fit_mem (w\<lparr>content_xwin := x\<rparr>) = fit_mem w"
  "fit_mem (w\<lparr>related := l\<rparr>) = fit_mem w"
  by (simp_all add: fit_mem_def)

lemmas fit_mem_props [simp] =
  fit_mem_log_only[OF props_log_only(3)] fit_mem_log_only[OF props_log_only(9)]
  fit_mem_log_only[OF transient_hints_log_only]

lemma fit_mem_net_wm [simp]: "fit_mem (win_handle_net_wm_state_notify cfg env w) = fit_mem w"
proof -
  have "fit_mem (host_state_owner b v) = fit_mem v" for b v
    by (simp add: host_state_owner_def fit_mem_def)
  then show ?thesis
    by (simp add: win_handle_net_wm_state_notify_def Let_def split: option.split prod.split)
qed

lemma fit_mem_request_state [simp]: "fit_mem (output_request_state cfg env r req w) = fit_mem w"
  by (simp add: output_request_state_def Let_def split: option.split prod.split)

lemma fit_mem_configure [simp]: "fit_mem (win_configure_notify cfg env r ev w) = fit_mem w"
  by (simp add: win_configure_notify_def split: option.split prod.split)

lemma fit_mem_create [simp]: "fit_mem (create_output_for_window cfg env r p new w) = fit_mem w"
proof -
  have p: "fit_mem (place_tree v) = fit_mem v" for v
    by (simp add: place_tree_def fit_mem_def split: option.split)
  have r: "fit_mem (reset_identity v) = fit_mem v" for v
    by (simp add: reset_identity_def fit_mem_def)
  have u: "fit_mem (v\<lparr>last_output_width := a, last_output_height := b\<rparr>) = fit_mem v"
    "fit_mem (v\<lparr>l_output := l, scene_output := s, listeners := n\<rparr>) = fit_mem v"
    "fit_mem (v\<lparr>w_output := o1, listeners := n\<rparr>) = fit_mem v" for v a b l s n o1
    by (simp_all add: fit_mem_def)
  show ?thesis
    by (simp add: create_output_for_window_def Let_def p r u split: option.split prod.split)
qed

lemma fit_mem_reparent [simp]: "fit_mem (win_reparent_notify cfg env r p x y w) = fit_mem w"
proof -
  have s: "fit_mem (reparent_sync cfg env r v) = fit_mem v" for v
    by (simp add: reparent_sync_def Let_def split: option.split prod.split)
  have u: "fit_mem (v\<lparr>content_xwin := a, xwin := b, related := l\<rparr>) = fit_mem v"
    "fit_mem (v\<lparr>content_xwin := a, xwin := b\<rparr>) = fit_mem v" for v a b l
    by (simp_all add: fit_mem_def)
  show ?thesis
    by (simp add: win_reparent_notify_def Let_def s u fit_mem_log_only)
qed

text \<open>Only a commit that fits changes the memory, and it shifts it.\<close>

lemma fit_mem_fit:
  assumes "w_output w = Some x" "commit_fits cfg env w"
  shows "fit_mem (surface_commit cfg env r w)
    = ((fit_last_w w, fit_last_h w), fv_want (fit_view_of cfg x w), now_msec env)"
proof -
  let ?b = "sc_before cfg w"
  have x: "w_output ?b = Some x" and m: "fit_mem ?b = fit_mem w"
    using assms size_same_before[of w cfg] by (simp_all add: size_same_def fit_mem_def)
  have v: "fit_view_of cfg x ?b = fit_view_of cfg x w" by (rule size_same_view[OF size_same_before])
  have "fit_mem (sc_fit cfg env r ?b)
      = ((fit_last_w w, fit_last_h w), fv_want (fit_view_of cfg x w), now_msec env)"
  proof (rule sc_fit_cases[of ?b cfg env r])
    fix x' assume "w_output ?b = Some x'"
      "sc_fit cfg env r ?b = fit_host cfg env r (fit_view_of cfg x' ?b) (sc_release_wm (fit_view_of cfg x' ?b) ?b)"
    then show ?thesis using x v m fit_host_frame(6,7,8) by (simp add: fit_mem_def)
  qed (use assms in simp_all)
  then show ?thesis
    unfolding surface_commit_parts by (simp add: fit_mem_size_same[OF size_same_after])
qed

lemma fit_mem_step:
  "fit_mem (win_step cfg env r ev w) =
     (case fit_of cfg env ev w of
        [] \<Rightarrow> fit_mem w
      | (s, t) # _ \<Rightarrow> (fst (snd (fit_mem w)), s, t))"
proof (cases ev)
  case EvCommit
  show ?thesis
  proof (cases "commit_fits cfg env w")
    case True
    then obtain x where "w_output w = Some x" by (auto simp: commit_fits_def split: option.splits)
    with True fit_mem_fit[OF this True, of r] EvCommit show ?thesis
      by (simp add: fit_of_def) (simp add: fit_mem_def)
  next
    case False
    with EvCommit commit_no_fit[OF False, of r] show ?thesis
      by (simp add: fit_of_def fit_mem_def split: option.split)
  qed
next
  case (EvFrame)
  then show ?thesis by (simp add: fit_of_def output_frame_def wlx_apply_content_scale_def)
next
  case (EvUnmap)
  then show ?thesis
    by (simp add: fit_of_def wlr_output_destroy_def output_destroy_def reset_identity_def fit_mem_def
        split: option.split)
next
  case (EvState t tree)
  then show ?thesis by (simp add: fit_of_def fit_mem_def)
next
  case (EvDecoration d)
  then show ?thesis
    by (simp add: fit_of_def decoration_request_mode_def wlx_decoration_apply_mode_def fit_mem_def)
qed (simp_all add: fit_of_def fit_mem_log_only toplevel_request_maximize_def Let_def
    toplevel_request_fullscreen_def toplevel_request_minimize_def output_request_close_def)

definition mem_of :: "((int \<times> int) \<times> int) list \<Rightarrow> (int \<times> int) \<times> (int \<times> int) \<times> int" where
  "mem_of fits =
     (if length fits \<le> 1 then (0, 0) else fst (last (butlast fits)),
      if fits = [] then (0, 0) else fst (last fits),
      if fits = [] then 0 else snd (last fits))"

lemma mem_of_snoc: "mem_of (fits @ [f]) = (fst (snd (mem_of fits)), fst f, snd f)"
  by (cases fits rule: rev_cases) (simp_all add: mem_of_def butlast_append)

lemma fit_of_cases:
  obtains "fit_of cfg env ev w = []"
  | x where "ev = EvCommit" "w_output w = Some x" "commit_fits cfg env w"
    "fit_of cfg env ev w = [(fv_want (fit_view_of cfg x w), now_msec env)]"
  by (cases ev; cases "w_output w"; cases "commit_fits cfg env w") (auto simp: fit_of_def)

lemma run_remembers: "win_run cfg E fits w \<Longrightarrow> fit_mem w = mem_of fits"
proof (induction rule: win_run.induct)
  case (new i t tree)
  then show ?case by (simp add: fit_mem_def mem_of_def server_new_xdg_toplevel_def)
next
  case (step fits w env ev popups)
  show ?case
  proof (cases rule: fit_of_cases[of cfg env ev w])
    case 1
    with step show ?thesis by (simp add: fit_mem_step)
  next
    case (2 x)
    with step fit_mem_step[of cfg env popups ev w] show ?thesis by (simp add: mem_of_snoc)
  qed
qed

lemma view_want_pos: "0 < fst (fv_want (fit_view_of cfg x w))" "0 < snd (fv_want (fit_view_of cfg x w))"
proof -
  obtain cw ch where p: "toplevel_preferred_size cfg (toplevel w) = (cw, ch)" by fastforce
  have s: "0 < wlx_scale_size cfg n" if "WLX_MIN_OUTPUT_SIZE \<le> n" for n
    using that by (simp add: wlx_scale_size_def Let_def wlx_constants)
  from preferred_size_min[OF p] show "0 < fst (fv_want (fit_view_of cfg x w))"
    "0 < snd (fv_want (fit_view_of cfg x w))" by (simp_all add: fit_view_of_def p Let_def s)
qed

lemma run_fits_positive: "win_run cfg clock_runs fits w \<Longrightarrow> list_all (\<lambda>f. 0 < fst (fst f) \<and> 0 < snd f) fits"
proof (induction rule: win_run.induct)
  case (step fits w env ev popups)
  show ?case by (cases rule: fit_of_cases[of cfg env ev w]) (use step view_want_pos in \<open>simp_all add: clock_runs_def\<close>)
qed simp

text \<open>
  C14 (safety). In any run of a window's events, from the creation of the toplevel on, three
  consecutive fits never take the host from one size to another and back within 400 ms: the third
  fit comes at least \<open>WLX_FIT_OSCILLATION_MS\<close> after the second.
\<close>

theorem no_size_ping_pong:
  assumes "win_run cfg clock_runs fits w"
    and "fits = earlier @ (a, ta) # (b, tb) # (c, tc) # rest"
    and "c = a" "b \<noteq> a" "tb \<le> tc"
  shows "WLX_FIT_OSCILLATION_MS \<le> tc - tb"
  using assms
proof (induction arbitrary: rest rule: win_run.induct)
  case (step fits w env ev popups)
  show ?case
  proof (cases rule: fit_of_cases[of cfg env ev w])
    case 1
    with step show ?thesis by simp
  next
    case (2 x)
    show ?thesis
    proof (cases rest rule: rev_cases)
      case Nil
      with step.prems 2 have f: "fits = earlier @ [(a, ta), (b, tb)]"
        and c: "c = fv_want (fit_view_of cfg x w)" "tc = now_msec env" by auto
      from f have "mem_of fits = (a, b, tb)" by (simp add: mem_of_def butlast_append)
      with run_remembers[OF step.hyps(1)]
      have m: "(fit_prev_w w, fit_prev_h w) = a" "(fit_last_w w, fit_last_h w) = b" "fit_last_msec w = tb"
        by (simp_all add: fit_mem_def)
      from run_fits_positive[OF step.hyps(1)] f have "0 < fst a" "0 < fst b" "0 < tb" by auto
      moreover have "fit_prev_w w = fst a" "fit_last_w w = fst b" using m by auto
      ultimately have pos: "0 < fit_prev_w w" "0 < fit_last_w w" "0 < fit_last_msec w" using m by simp_all
      have ne: "fit_last_w w \<noteq> fit_prev_w w \<or> fit_last_h w \<noteq> fit_prev_h w"
        using m step.prems(3) by auto
      let ?v = "fit_view_of cfg x w"
      have "want_fit ?v (sc_release_wm ?v w)" "\<not> oscillation env ?v (sc_release_wm ?v w)"
        using 2 by (simp_all add: commit_fits_def Let_def)
      with pos ne m c step.prems(2,4) show ?thesis
        by (auto simp: oscillation_def since_fit_def)
    next
      case (snoc qs q)
      with step.prems 2 have "fits = earlier @ (a, ta) # (b, tb) # (c, tc) # qs" by simp
      with step.IH step.prems show ?thesis by simp
    qed
  qed
qed simp

section \<open>The invariant of a window\<close>

text \<open>
  \<open>size_known\<close>: the window has an output exactly when the listeners are linked, and the size
  the compositor has recorded for it (and publishes in the size hints) is the output's.
  \<open>win_inv\<close> adds the invariant of the backend and the bound of the register.
\<close>

definition size_known :: "wlx_window \<Rightarrow> bool" where
  "size_known w \<longleftrightarrow>
     (case w_output w of
        None \<Rightarrow> \<not> listeners w
      | Some x \<Rightarrow> listeners w \<and> last_output_width w = o_width x \<and> last_output_height w = o_height x)"

definition win_inv :: "wlx_window \<Rightarrow> bool" where
  "win_inv w \<longleftrightarrow> size_known w \<and> win_out_ok w \<and> length (related w) \<le> WLX_MAX_RELATED_WINDOWS"

lemma size_known_cong:
  "w_output w' = w_output w \<Longrightarrow> listeners w' = listeners w \<Longrightarrow>
    last_output_width w' = last_output_width w \<Longrightarrow> last_output_height w' = last_output_height w \<Longrightarrow>
    size_known w' = size_known w"
  by (simp add: size_known_def split: option.split)

lemma output_commit_size:
  assumes "w_output w = Some x" "0 < o_width x" "0 < o_height x"
  shows "last_output_width (output_commit cfg env r w) = o_width x"
    "last_output_height (output_commit cfg env r w) = o_height x"
  using assms by (simp_all add: output_commit_def Let_def)

lemma commit_size_known:
  assumes "size_known w" "w_output w \<noteq> None" "0 < a" "0 < b"
  shows "size_known (snd (win_commit_state cfg env r (custom_mode a b) w))"
proof -
  from assms obtain x where x: "w_output w = Some x" and l: "listeners w"
    and s: "last_output_width w = o_width x" "last_output_height w = o_height x"
    by (auto simp: size_known_def)
  obtain ok x' cs where c: "wlr_output_commit_state env (custom_mode a b) x = (ok, x', cs)"
    by (cases "wlr_output_commit_state env (custom_mode a b) x") auto
  let ?w1 = "emit_all cs (w\<lparr>w_output := Some x'\<rparr>)"
  have r: "snd (win_commit_state cfg env r (custom_mode a b) w)
      = (if ok then output_commit cfg env r ?w1 else ?w1)"
    using l by (simp add: win_commit_state_def x c Let_def)
  show ?thesis
  proof (cases ok)
    case True
    with c commit_state_size[of env a b x x' cs] have "o_width x' = a" "o_height x' = b" by simp_all
    with True r l assms(3,4) output_commit_size[of ?w1 x' cfg env r] show ?thesis
      by (simp add: size_known_def)
  next
    case False
    with c have "o_width x' = o_width x" "o_height x' = o_height x"
      by (auto dest!: commit_state_cases)
    with False r l s show ?thesis by (simp add: size_known_def)
  qed
qed

lemma commit_related [simp]: "related (snd (win_commit_state cfg env r st w)) = related w"
  by simp

lemma commit_inv:
  assumes "win_inv w" "w_output w \<noteq> None" "0 < a" "0 < b" "import_total env"
  shows "win_inv (snd (win_commit_state cfg env r (custom_mode a b) w))"
  using assms commit_size_known win_commit_out_ok by (simp add: win_inv_def)

lemma win_inv_cong:
  "w_output w' = w_output w \<Longrightarrow> listeners w' = listeners w \<Longrightarrow>
    last_output_width w' = last_output_width w \<Longrightarrow> last_output_height w' = last_output_height w \<Longrightarrow>
    related w' = related w \<Longrightarrow> win_inv w' = win_inv w"
  using size_known_cong[of w' w] win_out_ok_same[of w' w] by (simp add: win_inv_def)

lemma win_inv_simps [simp]:
  "win_inv (emit c w) = win_inv w"
  "win_inv (wlx_toplevel_set_size a b w) = win_inv w"
  "win_inv (wlx_toplevel_fill_host cfg env w) = win_inv w"
  "win_inv (win_sync_size_hints cfg w) = win_inv w"
  "win_inv (wlx_apply_content_scale_ex cfg r sp w) = win_inv w"
  "win_inv (w\<lparr>size_from_wm := bo\<rparr>) = win_inv w"
  "win_inv (w\<lparr>content_xwin := y\<rparr>) = win_inv w"
  "win_inv (w\<lparr>content_xwin := y, xwin := z\<rparr>) = win_inv w"
  "win_inv (w\<lparr>xwin := z\<rparr>) = win_inv w"
  "win_inv (host_state_owner bo w) = win_inv w"
  "win_inv (place_tree w) = win_inv w"
  "win_inv (record_fit env v w) = win_inv w"
  "win_inv (sc_release_wm v w) = win_inv w"
  by (rule win_inv_cong; simp add: host_state_owner_def place_tree_def record_fit_def sc_release_wm_def
      split: option.split)+

lemma win_inv_log_only: "log_only w w' \<Longrightarrow> win_inv w' = win_inv w"
  by (rule win_inv_cong) (simp_all add: log_only_same)

lemmas win_inv_props [simp] =
  win_inv_log_only[OF props_log_only(3)] win_inv_log_only[OF props_log_only(4)]
  win_inv_log_only[OF props_log_only(5)] win_inv_log_only[OF props_log_only(9)]
  win_inv_log_only[OF transient_hints_log_only]

lemma win_inv_hints: "win_inv w \<Longrightarrow> w_output w = Some x \<Longrightarrow>
  win_inv (w\<lparr>last_output_width := o_width x, last_output_height := o_height x\<rparr>)"
  by (simp add: win_inv_def size_known_def win_out_ok_def)

lemma resize_inv:
  assumes "win_inv w" "import_total env"
  shows "win_inv (resize_output_to cfg env r a b w)"
proof (cases "w_output w")
  case None
  with assms show ?thesis by (simp add: resize_output_to_def)
next
  case (Some x)
  show ?thesis
  proof (cases "a < WLX_MIN_OUTPUT_SIZE \<or> b < WLX_MIN_OUTPUT_SIZE \<or> o_width x = a \<and> o_height x = b")
    case True
    with Some assms show ?thesis by (auto simp: resize_output_to_def)
  next
    case False
    let ?w1 = "snd (win_commit_state cfg env r (custom_mode a b) w)"
    have "win_inv ?w1" using assms Some False by (intro commit_inv) (auto simp: wlx_constants)
    then show ?thesis
      using Some False win_inv_hints by (auto simp: resize_output_to_def Let_def split: option.split)
  qed
qed

section \<open>Every event keeps it\<close>

lemma size_same_related:
  "related (sc_before cfg w) = related w" "related (sc_after cfg r w) = related w"
proof -
  have t: "related (sc_title cfg w) = related w" "related (sc_class cfg w) = related w" for w
    by (simp_all add: sc_title_def sc_class_def Let_def log_only_same[OF props_log_only(1)]
        log_only_same[OF props_log_only(2)])
  have r: "related (sc_release_hold cfg w) = related w" for w
    by (simp add: sc_release_hold_def Let_def split: option.split prod.split)
  have i: "related (sc_initial_configure w) = related w" "related (sc_decoration cfg w) = related w"
    "related (sc_csd_margin w) = related w" "related (sc_placement cfg r w) = related w"
    "related (sc_hints cfg w) = related w" for w
    by (simp_all add: sc_initial_configure_def sc_decoration_def sc_csd_margin_def sc_placement_def
        sc_hints_def Let_def split: option.split prod.split)
  show "related (sc_before cfg w) = related w" "related (sc_after cfg r w) = related w"
    by (simp_all add: sc_before_def sc_after_def Let_def r i t)
qed

lemma size_same_inv:
  "size_same w w' \<Longrightarrow> related w' = related w \<Longrightarrow> win_inv w' = win_inv w"
  by (rule win_inv_cong) (simp_all add: size_same_def)

lemma surface_commit_inv:
  assumes "win_inv w" "import_total env"
  shows "win_inv (surface_commit cfg env r w)"
proof -
  let ?b = "sc_before cfg w"
  have b: "win_inv ?b" using assms(1) size_same_inv[OF size_same_before size_same_related(1)] by simp
  have "win_inv (sc_fit cfg env r ?b)"
    by (rule sc_fit_cases[of ?b cfg env r])
      (use b assms(2) in \<open>simp_all add: fit_host_def Let_def resize_inv\<close>)
  then show ?thesis
    unfolding surface_commit_parts
    using size_same_inv[OF size_same_after size_same_related(2)] by simp
qed

lemma net_wm_inv [simp]: "win_inv (win_handle_net_wm_state_notify cfg env w) = win_inv w"
  by (simp add: win_handle_net_wm_state_notify_def Let_def split: option.split prod.split)

lemma net_wm_output [simp]:
  "w_output (win_handle_net_wm_state_notify cfg env w) = w_output w"
  by (simp add: win_handle_net_wm_state_notify_def host_state_owner_def Let_def
      split: option.split prod.split)

lemma request_state_inv:
  assumes "win_inv w" "w_output w \<noteq> None" "import_total env"
  shows "win_inv (output_request_state cfg env r req w)"
proof (cases req)
  case None
  with assms show ?thesis by (simp add: output_request_state_def)
next
  case (Some sz)
  obtain a b where sz: "sz = (a, b)" by fastforce
  let ?v = "win_handle_net_wm_state_notify cfg env (w\<lparr>size_from_wm := True\<rparr>)"
  have "win_inv (snd (win_commit_state cfg env r (custom_mode a b) ?v))" if "0 < a" "0 < b"
    by (rule commit_inv) (use assms that in simp_all)
  with assms show ?thesis
    by (auto simp: output_request_state_def Some sz Let_def not_le)
qed

lemma configure_inv:
  assumes "win_inv w" "import_total env"
  shows "win_inv (win_configure_notify cfg env r ev w)"
proof (cases "w_output w")
  case None
  with assms show ?thesis by (simp add: win_configure_notify_def)
next
  case (Some x)
  obtain x' sz where h: "handle_x11_configure_notify ev x = (x', sz)" by fastforce
  with configure_notify_ok[of x ev] configure_notify_sizes(1,2)[of ev x] assms(1) Some
  have "win_inv (w\<lparr>w_output := Some x'\<rparr>)"
    by (auto simp: win_inv_def size_known_def win_out_ok_def)
  with request_state_inv[OF this _ assms(2)] show ?thesis
    by (simp add: win_configure_notify_def Some h split: option.split)
qed

lemma identify_related:
  "length (related w) \<le> WLX_MAX_RELATED_WINDOWS \<Longrightarrow>
    length (related (identify_output cfg env p want x w)) \<le> WLX_MAX_RELATED_WINDOWS"
proof -
  have "length (related (register_x11_window_subtree cfg t v)) \<le> WLX_MAX_RELATED_WINDOWS"
    if "related v = [x]" for t v
    using register_subtree_related[of v cfg t] that by (simp add: wlx_constants)
  then show "length (related w) \<le> WLX_MAX_RELATED_WINDOWS \<Longrightarrow> ?thesis"
    by (simp add: identify_output_def Let_def)
qed

lemma create_inv:
  assumes "win_inv w" "w_output w = None" "import_total env"
  shows "win_inv (create_output_for_window cfg env r p new w)"
proof (cases "no_output new")
  case None
  with assms show ?thesis
    by (simp add: create_output_for_window_def win_inv_def size_known_def win_out_ok_def
        reset_identity_def Let_def)
next
  case (Some xs)
  obtain x seq where xs: "xs = (x, seq)" by fastforce
  obtain lw lh where pr: "toplevel_preferred_size cfg (toplevel w) = (lw, lh)" by fastforce
  let ?want = "(wlx_scale_size cfg lw, wlx_scale_size cfg lh)"
  let ?w1 = "(reset_identity w)\<lparr>size_from_wm := False, w_output := Some (x11_output_create x seq),
    listeners := False\<rparr>"
  let ?w2 = "identify_output cfg env p ?want x ?w1"
  let ?w3 = "snd (win_commit_state cfg env r (initial_mode ?want) ?w2)"
  have "win_out_ok ?w2" by (simp add: win_out_ok_def out_ok_create)
  then have ok: "win_out_ok ?w3" using assms(3) by (rule win_commit_out_ok)
  have "length (related ?w2) \<le> WLX_MAX_RELATED_WINDOWS"
    by (rule identify_related) (simp add: reset_identity_def)
  then have rel: "length (related ?w3) \<le> WLX_MAX_RELATED_WINDOWS" by simp
  have "w_output ?w3 \<noteq> None"
    by (cases "wlr_output_commit_state env (initial_mode ?want) (x11_output_create x seq)")
      (simp add: win_commit_state_def Let_def)
  then obtain out where out: "w_output ?w3 = Some out" by blast
  have "win_inv (w5\<lparr>l_output := l, scene_output := True, listeners := True\<rparr>)"
    if "related w5 = related ?w3" "w_output w5 = Some out"
      "last_output_width w5 = o_width out" "last_output_height w5 = o_height out" for w5 l
    using that ok out rel by (simp add: win_inv_def size_known_def win_out_ok_def)
  then show ?thesis
    using out by (simp add: create_output_for_window_def Some xs pr Let_def split: prod.split)
qed

lemma register_inv:
  assumes "win_inv w"
  shows "win_inv (register_x11_window_subtree cfg t (w\<lparr>related := []\<rparr>))"
proof -
  have s: "last_output_width (register_x11_window_subtree cfg t v) = last_output_width v"
    "last_output_height (register_x11_window_subtree cfg t v) = last_output_height v" for v
  proof -
    have e: "f (fold (register_x11_window_subtree cfg) cs w) = f w"
      if "\<And>t v. t \<in> set cs \<Longrightarrow> f (register_x11_window_subtree cfg t v) = f v"
      for f :: "wlx_window \<Rightarrow> int" and cs w
      using that by (induction cs arbitrary: w) auto
    have g: "f (register_x11_window_subtree cfg t w) = f w"
      if "\<And>x v. f (add_related x (select_window_events cfg x v)) = f v" for f :: "wlx_window \<Rightarrow> int" and w
    proof (induction t arbitrary: w)
      case (XWin x cs)
      then show ?case by (simp add: e that)
    qed
    show "last_output_width (register_x11_window_subtree cfg t v) = last_output_width v"
      "last_output_height (register_x11_window_subtree cfg t v) = last_output_height v"
      by (rule g; simp add: add_related_def select_window_events_def)+
  qed
  show ?thesis
    using assms register_subtree_related[of "w\<lparr>related := []\<rparr>" cfg t]
    by (simp add: win_inv_def size_known_def win_out_ok_def s split: option.splits)
qed

lemma reparent_inv:
  assumes "win_inv w" "import_total env"
  shows "win_inv (win_reparent_notify cfg env r p x y w)"
proof -
  have s: "win_inv v \<Longrightarrow> win_inv (reparent_sync cfg env r v)" for v
    using assms(2) by (simp add: reparent_sync_def Let_def resize_inv split: option.split prod.split)
  show ?thesis
    using assms(1) unfolding win_reparent_notify_def Let_def
    by (auto intro!: s simp: register_inv)
qed

lemma unmap_inv: "win_inv w \<Longrightarrow> win_inv (wlr_output_destroy w)"
  by (simp add: wlr_output_destroy_def output_destroy_def reset_identity_def win_inv_def size_known_def
      win_out_ok_def split: option.splits)

lemma win_step_inv:
  assumes "win_inv w" "import_total env"
  shows "win_inv (win_step cfg env r ev w)"
proof (cases ev)
  case (EvState t tree)
  then show ?thesis using assms win_inv_cong[of "w\<lparr>toplevel := t, scene_tree := tree\<rparr>" w] by simp
next
  case (EvDecoration d)
  then show ?thesis
    using assms win_inv_cong[of "w\<lparr>pending_decoration := Some d\<rparr>" w]
    by (simp add: decoration_request_mode_def wlx_decoration_apply_mode_def)
next
  case EvRequestMaximize
  then show ?thesis using assms
    by (simp add: toplevel_request_maximize_def Let_def)
next
  case EvRequestFullscreen
  then show ?thesis using assms
    by (simp add: toplevel_request_fullscreen_def Let_def)
next
  case EvRequestMinimize
  then show ?thesis using assms
    by (simp add: toplevel_request_minimize_def Let_def)
qed (use assms in \<open>simp_all add: surface_commit_inv configure_inv reparent_inv create_inv unmap_inv
    output_frame_def wlx_apply_content_scale_def output_request_close_def\<close>)

lemma new_window_inv: "win_inv (server_new_xdg_toplevel i t tree)"
  by (simp add: win_inv_def size_known_def win_out_ok_def server_new_xdg_toplevel_def)

text \<open>
  C5 (invariant). In every run of a window's events in which the X server takes the buffers the
  allocator made: the output and the window have the same size, a pending configure is for that
  size, the compositor's recorded size is the output's, the listeners are linked exactly while
  there is an output, and at most 32 X ids are registered. A buffer the server refuses does set the
  two sizes apart (\<open>refused_buffer_desyncs\<close>, theory \<open>Size_Policy\<close>).
\<close>

theorem window_invariant:
  assumes "win_run cfg import_total fits w"
  shows "win_inv w"
  using assms by induction (simp_all add: new_window_inv win_step_inv)

end
