(* ===== verification/Size_Policy.thy ===== *)
theory Size_Policy
  imports Window_Steps
begin

text \<open>
  The size policy across components (\<open>docs/SIZE.md\<close>): a size the host gives a window
  reaches the output and the client in one round, a client that complies ends it, the window's
  own resizes never come back as the host's, and the two sides of a scale agree.
\<close>

section \<open>A size from the host\<close>

lemma fresh_notify:
  assumes "0 < ev_width ev" "0 < ev_height ev" "\<not> notify_stale ev x" "pending_ok x"
    and "(ev_width ev, ev_height ev) \<noteq> (win_width x, win_height x)"
  shows "snd (handle_x11_configure_notify ev x) = Some (ev_width ev, ev_height ev)"
  using assms by (auto simp: handle_x11_configure_notify_def pending_ok_def split: if_splits)

lemma size_for_output_cong:
  "w_output w' = w_output w \<Longrightarrow> toplevel w' = toplevel w \<Longrightarrow> csd_margin_w w' = csd_margin_w w \<Longrightarrow>
    csd_margin_h w' = csd_margin_h w \<Longrightarrow>
    wlx_toplevel_size_for_output cfg w' = wlx_toplevel_size_for_output cfg w"
  unfolding wlx_toplevel_size_for_output_def win_tiled_def by (simp only:)

text \<open>After a size change of the output the client has been told to fill it.\<close>

lemma output_commit_told:
  assumes "w_output w = Some x" "0 < o_width x" "0 < o_height x"
    and "(o_width x, o_height x) \<noteq> (last_output_width w, last_output_height w)"
    and "0 < content_scale cfg"
  shows "fill_last_ok (wlx_toplevel_size_for_output cfg (output_commit cfg env r w))
    (output_commit cfg env r w)"
proof -
  obtain f where oc: "output_commit cfg env r w = win_sync_size_hints cfg (wlx_toplevel_fill_host cfg env
      (hold_or_schedule cfg r f (w\<lparr>last_output_width := o_width x, last_output_height := o_height x\<rparr>)))"
    using assms by (auto simp: output_commit_def Let_def)
  let ?v = "hold_or_schedule cfg r f (w\<lparr>last_output_width := o_width x, last_output_height := o_height x\<rparr>)"
  obtain lw lh where s: "wlx_toplevel_size_for_output cfg ?v = (lw, lh)" by fastforce
  have o: "w_output ?v \<noteq> None" using assms(1) by simp
  have "fill_last_ok (lw, lh) (wlx_toplevel_fill_host cfg env ?v)"
    by (rule fill_host_told[OF s o size_for_output_pos[OF assms(5) o s]])
  moreover have "wlx_toplevel_size_for_output cfg (output_commit cfg env r w) = (lw, lh)"
    unfolding s[symmetric] by (rule size_for_output_cong) simp_all
  moreover have "fill_last_ok a (win_sync_size_hints cfg u) = fill_last_ok a u" for a u
    by (simp add: fill_last_ok_def)
  ultimately show ?thesis unfolding oc by simp
qed

lemma commit_told:
  assumes "win_inv w" "w_output w = Some x" "o_enabled x" "mode_ok env a b"
    and "(a, b) \<noteq> (o_width x, o_height x)" "0 < content_scale cfg"
  shows "\<exists>x'. w_output (snd (win_commit_state cfg env r (custom_mode a b) w)) = Some x'
      \<and> o_width x' = a \<and> o_height x' = b"
    "fill_last_ok (wlx_toplevel_size_for_output cfg (snd (win_commit_state cfg env r (custom_mode a b) w)))
      (snd (win_commit_state cfg env r (custom_mode a b) w))"
proof -
  let ?x' = "output_apply_commit (custom_mode a b) (fst (output_set_custom_mode a b x))"
  obtain cs where c: "wlr_output_commit_state env (custom_mode a b) x = (True, ?x', cs)"
    using mode_commit_succeeds[OF assms(3-5)] by blast
  note sz = commit_state_size[OF c]
  let ?w1 = "emit_all cs (w\<lparr>w_output := Some ?x'\<rparr>)"
  from assms(1,2) have k: "listeners w" "last_output_width w = o_width x" "last_output_height w = o_height x"
    by (simp_all add: win_inv_def size_known_def)
  then have r: "snd (win_commit_state cfg env r (custom_mode a b) w) = output_commit cfg env r ?w1"
    by (simp add: win_commit_state_def assms(2) c Let_def)
  show "\<exists>x'. w_output (snd (win_commit_state cfg env r (custom_mode a b) w)) = Some x'
      \<and> o_width x' = a \<and> o_height x' = b"
    unfolding r using sz by simp
  show "fill_last_ok (wlx_toplevel_size_for_output cfg (snd (win_commit_state cfg env r (custom_mode a b) w)))
      (snd (win_commit_state cfg env r (custom_mode a b) w))"
    unfolding r using sz k assms(4-6)
    by (intro output_commit_told[where x = ?x']) (simp_all add: mode_ok_def)
qed

text \<open>
  C11 (functional). A ConfigureNotify with a size of the host's own (not stale, not the size the
  window already has) makes it the size of the output, and leaves the client configured to fill
  it, up to a pixel.
\<close>

theorem host_resize_reaches_client:
  assumes "win_inv w" "w_output w = Some x" "o_enabled x"
    and "\<not> notify_stale ev x" "(ev_width ev, ev_height ev) \<noteq> (o_width x, o_height x)"
    and "mode_ok env (ev_width ev) (ev_height ev)" "0 < content_scale cfg"
  shows "(\<exists>x'. w_output (win_configure_notify cfg env r ev w) = Some x'
      \<and> o_width x' = ev_width ev \<and> o_height x' = ev_height ev)
    \<and> fill_last_ok (wlx_toplevel_size_for_output cfg (win_configure_notify cfg env r ev w))
        (win_configure_notify cfg env r ev w)"
proof -
  from assms(1,2) have ok: "out_ok x" "listeners w" by (simp_all add: win_inv_def win_out_ok_def size_known_def)
  then have win: "win_width x = o_width x" "win_height x = o_height x"
    by (simp_all add: out_ok_def sizes_agree_def)
  have pos: "0 < ev_width ev" "0 < ev_height ev" using assms(6) by (simp_all add: mode_ok_def)
  obtain x1 where h: "handle_x11_configure_notify ev x = (x1, Some (ev_width ev, ev_height ev))"
    using fresh_notify[OF pos assms(4) _ assms(5)[folded win]] ok(1)
    by (cases "handle_x11_configure_notify ev x") (simp add: out_ok_def)
  with configure_notify_sizes[of ev x] configure_notify_ok[OF ok(1), of ev]
  have x1: "o_width x1 = o_width x" "o_height x1 = o_height x" "o_enabled x1 = o_enabled x" "out_ok x1"
    by simp_all
  let ?w1 = "win_handle_net_wm_state_notify cfg env (w\<lparr>w_output := Some x1, size_from_wm := True\<rparr>)"
  have "win_inv (w\<lparr>w_output := Some x1\<rparr>)"
    using assms(1,2) x1 by (simp add: win_inv_def size_known_def win_out_ok_def)
  then have inv: "win_inv ?w1" by simp
  have o1: "w_output ?w1 = Some x1" by simp
  let ?w2 = "snd (win_commit_state cfg env r (custom_mode (ev_width ev) (ev_height ev)) ?w1)"
  note t = commit_told[OF inv o1 _ assms(6) _ assms(7), of r, unfolded x1, OF assms(3,5)]
  have n: "win_configure_notify cfg env r ev w
      = output_request_state cfg env r (Some (ev_width ev, ev_height ev)) (w\<lparr>w_output := Some x1\<rparr>)"
    by (simp add: win_configure_notify_def assms(2) h ok(2))
  have c: "(case w_output (w\<lparr>w_output := Some x1\<rparr>) of Some x \<Rightarrow> (o_width x, o_height x) | None \<Rightarrow> (0, 0))
      = (o_width x, o_height x)" using x1 by simp
  have p: "\<not> (ev_width ev \<le> 0 \<or> ev_height ev \<le> 0)" using pos by simp
  have "w_output ?w2 \<noteq> None" using t(1) by auto
  then have "win_configure_notify cfg env r ev w = emit ScheduleFrame ?w2"
    unfolding n output_request_state_def option.case(2) prod.case c Let_def
    using p assms(5) by (simp only: if_False if_True not_False_eq_True)
  moreover have "wlx_toplevel_size_for_output cfg (emit c v) = wlx_toplevel_size_for_output cfg v" for c v
    by (rule size_for_output_cong) simp_all
  moreover have "fill_last_ok s (emit c v) = fill_last_ok s v" for s c v
    by (simp add: fill_last_ok_def)
  ultimately show ?thesis using t by simp
qed

section \<open>A client that complies\<close>




section \<open>The window's own resizes\<close>

text \<open>A notify that is stale or repeats the size the window was given last.\<close>

definition own_notify :: "x11_output \<Rightarrow> configure_notify \<Rightarrow> bool" where
  "own_notify x ev \<longleftrightarrow> notify_stale ev x \<or> (ev_width ev, ev_height ev) = (win_width x, win_height x)"

text \<open>The parts of the output a configure notify cannot change.\<close>

definition notify_frame :: "wlx_window \<Rightarrow> wlx_window \<Rightarrow> bool" where
  "notify_frame w w' \<longleftrightarrow>
     (\<exists>x'. w' = w\<lparr>w_output := Some x'\<rparr> \<and> (\<exists>x. w_output w = Some x \<and> (x' = x \<or> x' = clear_pending x)))"

lemma own_notify_silent:
  assumes "w_output w = Some x" "pending_ok x" "own_notify x ev"
  shows "notify_frame w (win_configure_notify cfg env r ev w)"
proof -
  have "handle_x11_configure_notify ev x = (x, None) \<or> handle_x11_configure_notify ev x = (clear_pending x, None)"
    using assms(2,3) by (auto simp: handle_x11_configure_notify_def own_notify_def pending_ok_def)
  then show ?thesis using assms(1) by (auto simp: win_configure_notify_def notify_frame_def)
qed

text \<open>
  C23 (safety). The window's own resizes are never taken for the host's: after any sequence of
  notifies that are stale or repeat the size the window was last given, no request has been
  sent, the output has the size it had, and the owner of the size is who it was.
\<close>

theorem own_resizes_stay_silent:
  assumes "w_output w = Some x" "pending_ok x" "list_all (own_notify x) evs"
  shows "w_log (fold (win_configure_notify cfg env r) evs w) = w_log w
    \<and> size_from_wm (fold (win_configure_notify cfg env r) evs w) = size_from_wm w
    \<and> (\<exists>x'. w_output (fold (win_configure_notify cfg env r) evs w) = Some x'
        \<and> o_width x' = o_width x \<and> o_height x' = o_height x)"
  using assms
proof (induction evs arbitrary: w x)
  case (Cons ev evs)
  from Cons.prems have "notify_frame w (win_configure_notify cfg env r ev w)"
    using own_notify_silent[of w x ev cfg env r] by simp
  then obtain x' where w': "win_configure_notify cfg env r ev w = w\<lparr>w_output := Some x'\<rparr>"
    and x': "x' = x \<or> x' = clear_pending x"
    using Cons.prems(1) by (auto simp: notify_frame_def)
  have "own_notify x' = own_notify x"
    using x' by (auto simp: own_notify_def notify_stale_def clear_pending_def fun_eq_iff)
  moreover have "pending_ok x'" "o_width x' = o_width x" "o_height x' = o_height x"
    using x' Cons.prems(2) by auto
  ultimately show ?case
    using Cons.IH[of "w\<lparr>w_output := Some x'\<rparr>" x'] Cons.prems(3) by (auto simp: w')
qed simp

section \<open>When a buffer is refused\<close>

text \<open>
  The backend sends the ConfigureWindow and records the new size before it imports
  the buffer: when the import fails the commit fails with the two sizes apart, and the notify
  that follows is acked as the window's own, so that the output keeps its old size.
\<close>

theorem refused_buffer_desyncs:
  assumes "out_ok x" "o_enabled x" "0 < a" "0 < b" "alloc_ok env a b" "\<not> import_ok env a b"
    and "(a, b) \<noteq> (o_width x, o_height x)"
    and "wlr_output_commit_state env (custom_mode a b) x = (ok, x', cs)"
    and "ev_width ev = a" "ev_height ev = b" "ev_sequence ev = last_configure_seq x'"
  shows "\<not> ok \<and> \<not> sizes_agree x' \<and> handle_x11_configure_notify ev x' = (clear_pending x', None)
    \<and> o_width x' = o_width x \<and> o_height x' = o_height x"
proof -
  have d: "drop_unchanged (custom_mode a b) x = custom_mode a b"
    using assms(7) by (auto simp: drop_unchanged_def custom_mode_def)
  have r: "output_pending_resolution (custom_mode a b) x = (a, b)" "needs_new_buffer (custom_mode a b) x"
    by (simp_all add: output_pending_resolution_def needs_new_buffer_def custom_mode_def)
  have t: "output_basic_test (custom_mode a b) x"
    using assms(2-4) r(1) by (auto simp: output_basic_test_def output_pending_enabled_def custom_mode_def)
  have "\<not> fst (backend_commit env (custom_mode a b) x)"
    using assms(6) by (simp add: backend_commit_result r)
  moreover have "fst (snd (backend_commit env (custom_mode a b) x)) = fst (output_set_custom_mode a b x)"
    by (simp add: backend_commit_out mode_applied_def custom_mode_def)
  ultimately obtain cs' where b: "backend_commit env (custom_mode a b) x
      = (False, fst (output_set_custom_mode a b x), cs')"
    by (cases "backend_commit env (custom_mode a b) x") auto
  from assms(8) have "ok = False" and x': "x' = fst (output_set_custom_mode a b x)"
    unfolding wlr_output_commit_state_def d Let_def r(1) prod.case b
    using r(2) t assms(3-5) by (auto split: if_splits)
  have "\<not> (a = win_width x \<and> b = win_height x)" using assms(1,7) by (auto simp: out_ok_def sizes_agree_def)
  then have p: "has_pending_configure x'" "pending_width x' = a" "pending_height x' = b"
    "has_configure_seq x'" "win_width x' = a" "win_height x' = b"
    unfolding x' by (auto simp: output_set_custom_mode_def Let_def)
  with assms(3,4,9-11) have "handle_x11_configure_notify ev x' = (clear_pending x', None)"
    by (simp add: handle_x11_configure_notify_def notify_stale_def)
  moreover have "o_width x' = o_width x" "o_height x' = o_height x" unfolding x' by simp_all
  ultimately show ?thesis using \<open>ok = False\<close> p assms(7) by (auto simp: sizes_agree_def)
qed

end
