(* ===== verification/Samples.thy ===== *)
theory Samples
  imports Size_Policy
begin

text \<open>Concrete configurations, environments and windows on which the properties are applied.\<close>

definition sample_cfg :: "rat \<Rightarrow> bool \<Rightarrow> wlx_config" where
  "sample_cfg s csd =
     \<lparr>content_scale = s, prefer_csd = csd, have_xcb = True, xcb_root = 1, clipboard_window = 2,
      atom_net_wm_state = 10, atom_maximized_vert = 11, atom_maximized_horz = 12, atom_fullscreen = 13,
      atom_modal = 14, atom_wm_change_state = 15, atom_transient_for = 16, atom_normal_hints = 17,
      atom_size_hints = 18, atom_motif = 19, atom_window_type = 20, atom_type_normal = 21,
      atom_type_dialog = 22, atom_xdnd_aware = 23\<rparr>"

definition sample_env :: "int \<Rightarrow> wlx_env" where
  "sample_env t =
     \<lparr>now_msec = t, alloc_ok = (\<lambda>_ _. True), import_ok = (\<lambda>_ _. True), q_pointer = Some (5, 5),
      q_pointer_child = 7, q_root_pos = (\<lambda>_. Some (100, 50)), q_geometry = (\<lambda>_. None),
      q_child_at = (\<lambda>_. Some 0), q_parent = (\<lambda>_. Some 1), q_tree = (\<lambda>x. XWin x []),
      q_net_wm_state = (\<lambda>_. None)\<rparr>"

definition sample_toplevel :: "int \<Rightarrow> int \<Rightarrow> wlr_toplevel" where
  "sample_toplevel w h =
     (let st = \<lparr>st_maximized = False, st_fullscreen = False, st_min_width = 0, st_min_height = 0,
               st_max_width = 0, st_max_height = 0\<rparr>
      in \<lparr>tl_current = st, tl_pending = st, tl_requested_maximized = True, tl_requested_fullscreen = False,
          tl_geometry = \<lparr>box_x = 0, box_y = 0, box_width = w, box_height = h\<rparr>,
          tl_surf_width = w, tl_surf_height = h, tl_title = Some ''t'', tl_app_id = None, tl_parent = None\<rparr>)"

definition sample_output :: x11_output where
  "sample_output =
     \<lparr>o_win = 7, o_width = 400, o_height = 300, o_enabled = True, o_commit_seq = 1,
      win_width = 400, win_height = 300, last_configure_seq = 9, has_configure_seq = True,
      pending_width = 0, pending_height = 0, has_pending_configure = False, o_conn_seq = 9\<rparr>"

text \<open>A mapped window of 400x300 host pixels.\<close>

definition sample_window :: "wlr_toplevel \<Rightarrow> wlx_window" where
  "sample_window t =
     (server_new_xdg_toplevel 1 t (SceneTree 0 True 0 0 []))
       \<lparr>w_output := Some sample_output, listeners := True, l_output := Some (0, 0), scene_output := True,
        last_output_width := 400, last_output_height := 300, xwin := 7, content_xwin := 7, related := [7],
        initial_configure_sent := True, last_client_conf_w := 400, last_client_conf_h := 300\<rparr>"

lemmas sample_defs = sample_cfg_def sample_env_def sample_toplevel_def sample_output_def
  sample_window_def server_new_xdg_toplevel_def

lemma sample_env_fields [simp]:
  "now_msec (sample_env t) = t" "alloc_ok (sample_env t) a b" "import_ok (sample_env t) a b"
  by (simp_all add: sample_env_def)

lemma sample_mode_ok [simp]: "mode_ok (sample_env t) a b \<longleftrightarrow> 0 < a \<and> 0 < b"
  by (simp add: mode_ok_def)

lemma sample_import_total [simp]: "import_total (sample_env t)"
  by (simp add: import_total_def)

lemma sample_out_ok [simp]: "out_ok sample_output"
  by (simp add: out_ok_def pending_ok_def sizes_agree_def sample_output_def)

lemma sample_window_inv [simp]: "win_inv (sample_window t)"
  by (simp add: win_inv_def size_known_def win_out_ok_def sample_window_def wlx_constants)
    (simp add: sample_output_def)

end
