(* ===== verification/Size_Witnesses.thy ===== *)
theory Size_Witnesses
  imports Samples
begin

text \<open>The properties of the size policy applied to concrete windows.\<close>

section \<open>Decisions on the sample window\<close>

lemma sample_view:
  "fit_view_of (sample_cfg 1 False) sample_output (sample_window (sample_toplevel a b))
   = \<lparr>fv_pref = toplevel_preferred_size (sample_cfg 1 False) (sample_toplevel a b),
      fv_conf = (if 0 < a then a else fst (toplevel_preferred_size (sample_cfg 1 False) (sample_toplevel a b)),
                 if 0 < b then b else snd (toplevel_preferred_size (sample_cfg 1 False) (sample_toplevel a b))),
      fv_want = map_prod (wlx_scale_size (sample_cfg 1 False)) (wlx_scale_size (sample_cfg 1 False))
                  (toplevel_preferred_size (sample_cfg 1 False) (sample_toplevel a b)),
      fv_cur = (400, 300), fv_tiled = False\<rparr>"
  by (simp add: fit_view_of_def Let_def sample_window_def sample_toplevel_def sample_output_def
      server_new_xdg_toplevel_def win_tiled_def tl_tiled_def tl_maximized_def tl_fullscreen_def
      split: prod.split)

lemma sample_scale_one [simp]: "content_scale (sample_cfg s c) = s"
  by (simp add: sample_cfg_def)

lemma sample_pref:
  "32 \<le> a \<Longrightarrow> 32 \<le> b \<Longrightarrow> toplevel_preferred_size (sample_cfg s False) (sample_toplevel a b) = (a, b)"
  by (simp add: toplevel_preferred_size_def sample_toplevel_def sample_cfg_def Let_def wlx_constants)

lemma sample_fields [simp]:
  "w_output (sample_window t) = Some sample_output" "toplevel (sample_window t) = t"
  "size_from_wm (sample_window t) = False" "o_enabled sample_output" "o_width sample_output = 400"
  "o_height sample_output = 300"
  by (simp_all add: sample_window_def sample_output_def server_new_xdg_toplevel_def)

lemma sample_not_tiled [simp]: "win_tiled (sample_window (sample_toplevel a b)) = False"
  by (simp add: win_tiled_def tl_tiled_def tl_maximized_def tl_fullscreen_def sample_toplevel_def Let_def)

section \<open>The witnesses\<close>

text \<open>A window whose size the host owns ignores a client that prefers to grow.\<close>

lemma host_keeps_its_size_witness:
  "resizes (surface_commit (sample_cfg 1 False) (sample_env 9) []
      ((sample_window (sample_toplevel 500 300))\<lparr>size_from_wm := True\<rparr>)) = []
   \<and> w_output (surface_commit (sample_cfg 1 False) (sample_env 9) []
      ((sample_window (sample_toplevel 500 300))\<lparr>size_from_wm := True\<rparr>)) = Some sample_output"
proof -
  let ?w = "(sample_window (sample_toplevel 500 300))\<lparr>size_from_wm := True\<rparr>"
  have v: "fit_view_of cfg x ?w = fit_view_of cfg x (sample_window (sample_toplevel 500 300))" for cfg x
    by (simp add: fit_view_of_def win_tiled_def)
  have "\<not> assert_shrink (fit_view_of (sample_cfg 1 False) sample_output ?w) ?w"
    unfolding v by (simp add: assert_shrink_def sample_view sample_pref)
  moreover have "resizes ?w = []"
    by (simp add: resizes_def sample_window_def server_new_xdg_toplevel_def)
  ultimately show ?thesis
    using host_keeps_its_size[of ?w sample_output "sample_cfg 1 False" "sample_env 9" "[]"] by simp
qed

text \<open>A client that prefers 500x300 gets a host window of 500x300.\<close>

lemma client_fit_follows_witness:
  "\<exists>x'. w_output (surface_commit (sample_cfg 1 False) (sample_env 9) []
      (sample_window (sample_toplevel 500 300))) = Some x' \<and> o_width x' = 500 \<and> o_height x' = 300"
  using client_fit_follows[of "sample_window (sample_toplevel 500 300)" sample_output "sample_cfg 1 False"
      "sample_env 9" 500 300 "[]"]
  by (simp add: sample_view sample_pref size_mismatch_def oscillation_def since_fit_def wlx_constants)
    (simp add: sample_window_def server_new_xdg_toplevel_def)

lemma window_invariant_witness:
  "win_inv (win_step (sample_cfg 1 False) (sample_env 5) []
      (EvMap None \<lparr>no_output = Some (7, 3), no_layout = (0, 0)\<rparr>)
      (server_new_xdg_toplevel 1 (sample_toplevel 400 300) (SceneTree 0 True 0 0 [])))"
  by (rule window_invariant[OF win_run.step[OF win_run.new]]) simp

text \<open>The host gives the window 640x480.\<close>

lemma host_resize_reaches_client_witness:
  "(\<exists>x'. w_output (win_configure_notify (sample_cfg 1 False) (sample_env 5) []
        \<lparr>ev_width = 640, ev_height = 480, ev_sequence = 9\<rparr> (sample_window (sample_toplevel 400 300))) = Some x'
      \<and> o_width x' = 640 \<and> o_height x' = 480)"
  using host_resize_reaches_client[of "sample_window (sample_toplevel 400 300)" sample_output
      "\<lparr>ev_width = 640, ev_height = 480, ev_sequence = 9\<rparr>" "sample_env 5" "sample_cfg 1 False" "[]"]
  by (simp add: notify_stale_def) (simp add: sample_output_def)


lemma own_resizes_stay_silent_witness:
  "w_log (fold (win_configure_notify (sample_cfg 1 False) (sample_env 5) [])
      [\<lparr>ev_width = 400, ev_height = 300, ev_sequence = 9\<rparr>, \<lparr>ev_width = 1, ev_height = 1, ev_sequence = 8\<rparr>]
      (sample_window (sample_toplevel 400 300))) = []"
proof -
  have o: "list_all (own_notify sample_output)
      [\<lparr>ev_width = 400, ev_height = 300, ev_sequence = 9\<rparr>, \<lparr>ev_width = 1, ev_height = 1, ev_sequence = 8\<rparr>]"
    by (simp add: own_notify_def notify_stale_def sample_output_def)
  have "w_log (sample_window (sample_toplevel 400 300)) = []"
    by (simp add: sample_window_def server_new_xdg_toplevel_def)
  moreover have "pending_ok sample_output" using sample_out_ok by (simp add: out_ok_def)
  ultimately show ?thesis
    using own_resizes_stay_silent[of "sample_window (sample_toplevel 400 300)" sample_output
      "[\<lparr>ev_width = 400, ev_height = 300, ev_sequence = 9\<rparr>, \<lparr>ev_width = 1, ev_height = 1, ev_sequence = 8\<rparr>]"
      "sample_cfg 1 False" "sample_env 5" "[]"] o by simp
qed

lemma refused_buffer_desyncs_witness:
  "\<not> sizes_agree (fst (snd (wlr_output_commit_state ((sample_env 5)\<lparr>import_ok := \<lambda>_ _. False\<rparr>)
      (custom_mode 640 480) sample_output)))"
proof -
  let ?env = "(sample_env 5)\<lparr>import_ok := \<lambda>_ _. False\<rparr>"
  obtain ok x' cs where c: "wlr_output_commit_state ?env (custom_mode 640 480) sample_output = (ok, x', cs)"
    by (cases "wlr_output_commit_state ?env (custom_mode 640 480) sample_output") auto
  have "alloc_ok ?env 640 480" "\<not> import_ok ?env 640 480" by (simp_all add: sample_env_def)
  with c show ?thesis
    using refused_buffer_desyncs[of sample_output 640 480 ?env ok x' cs
        "\<lparr>ev_width = 640, ev_height = 480, ev_sequence = last_configure_seq x'\<rparr>"] by simp
qed

section \<open>A run with three fits\<close>

definition poor_env :: "int \<Rightarrow> wlx_env" where
  "poor_env t = (sample_env t)\<lparr>alloc_ok := \<lambda>_ _. False\<rparr>"

lemma poor_commit:
  assumes "w_output w = Some x" "\<not> size_from_wm w"
  shows "w_output (surface_commit cfg (poor_env t) r w) = Some x"
    "\<not> size_from_wm (surface_commit cfg (poor_env t) r w)"
proof -
  let ?b = "sc_before cfg w"
  have b: "w_output ?b = Some x" "\<not> size_from_wm ?b"
    using assms size_same_before[of w cfg] by (simp_all add: size_same_def)
  have c: "w_output (snd (win_commit_state cfg (poor_env t) r (custom_mode a c) v)) = Some x"
    if "w_output v = Some x" "\<not> (o_width x = a \<and> o_height x = c)" for v a c
  proof -
    have "drop_unchanged (custom_mode a c) x = custom_mode a c"
      using that by (auto simp: drop_unchanged_def custom_mode_def)
    then have "wlr_output_commit_state (poor_env t) (custom_mode a c) x = (False, x, [])"
      by (simp add: wlr_output_commit_state_def Let_def poor_env_def needs_new_buffer_def
          custom_mode_def output_pending_resolution_def)
    with that show ?thesis using win_commit_output(2) by blast
  qed
  have r: "w_output (resize_output_to cfg (poor_env t) r a c v) = Some x" if "w_output v = Some x" for v a c
    using that c by (auto simp: resize_output_to_def Let_def)
  have f: "w_output (sc_fit cfg (poor_env t) r ?b) = Some x \<and> \<not> size_from_wm (sc_fit cfg (poor_env t) r ?b)"
    by (rule sc_fit_cases[of ?b cfg "poor_env t" r])
      (use b in \<open>auto simp: fit_host_frame release_wm_owner r resize_recorded_output\<close>)
  with size_same_after[of "sc_fit cfg (poor_env t) r ?b" cfg r]
  show "w_output (surface_commit cfg (poor_env t) r w) = Some x"
    "\<not> size_from_wm (surface_commit cfg (poor_env t) r w)"
    by (simp_all add: surface_commit_parts size_same_def)
qed

definition in_run :: "((int \<times> int) \<times> int) list \<Rightarrow> wlx_window \<Rightarrow> bool" where
  "in_run fits w \<longleftrightarrow> win_run (sample_cfg 1 False) clock_runs fits w \<and> \<not> size_from_wm w
     \<and> (\<exists>x. w_output w = Some x \<and> o_width x = 400 \<and> o_height x = 300)"

lemma run_starts: "\<exists>w. in_run [] w"
proof -
  let ?new = "\<lparr>no_output = Some (7, 3), no_layout = (0, 0)\<rparr>"
  let ?i = "server_new_xdg_toplevel 1 (sample_toplevel 400 300) (SceneTree 0 True 0 0 [])"
  let ?w = "win_step (sample_cfg 1 False) (sample_env 5) [] (EvMap None ?new) ?i"
  have "win_run (sample_cfg 1 False) clock_runs ([] @ fit_of (sample_cfg 1 False) (sample_env 5) (EvMap None ?new) ?i) ?w"
    by (rule win_run.step[OF win_run.new]) (simp add: clock_runs_def)
  then have r: "win_run (sample_cfg 1 False) clock_runs [] ?w" by (simp add: fit_of_def)
  have t: "toplevel (server_new_xdg_toplevel n u v) = u" for n u v
    by (simp add: server_new_xdg_toplevel_def)
  have w: "?w = create_output_for_window (sample_cfg 1 False) (sample_env 5) [] None ?new ?i"
    by (simp add: server_new_xdg_toplevel_def)
  have o: "\<exists>x. w_output ?w = Some x \<and> o_width x = 400 \<and> o_height x = 300"
    unfolding w
    using create_output_result[of ?new 7 3 "sample_cfg 1 False" ?i 400 300 400 300 "sample_env 5" "[]" None]
    by (simp add: t sample_pref) blast
  have "size_from_wm (create_output_for_window cfg env r p n v) = False" for cfg env r p n v
    by (simp add: create_output_for_window_def Let_def place_tree_def reset_identity_def
        split: option.split prod.split)
  then have "\<not> size_from_wm ?w" unfolding w by simp
  with r o show ?thesis unfolding in_run_def by blast
qed

lemma run_fits:
  assumes "in_run fits w" "0 < t" "32 \<le> a" "1 < \<bar>a - 400\<bar>" "a < 2 ^ 31"
    and "fst (mem_of fits) = (a, 300) \<longrightarrow> 400 \<le> t - snd (snd (mem_of fits))"
  shows "\<exists>w'. in_run (fits @ [((a, 300), t)]) w'"
proof -
  let ?C = "sample_cfg 1 False" and ?E = "poor_env t" and ?t = "sample_toplevel a 300"
  let ?v = "w\<lparr>toplevel := ?t, scene_tree := None\<rparr>"
  have now: "now_msec ?E = t" by (simp add: poor_env_def)
  then have ck: "clock_runs ?E" using assms(2) by (simp add: clock_runs_def)
  from assms(1) obtain x where run: "win_run ?C clock_runs fits w" and s: "\<not> size_from_wm w"
    and x: "w_output w = Some x" "o_width x = 400" "o_height x = 300" by (auto simp: in_run_def)
  from win_run.step[OF run ck, of "EvState ?t None" "[]"]
  have rv: "win_run ?C clock_runs fits ?v" by (simp add: fit_of_def)
  have pr: "toplevel_preferred_size ?C ?t = (a, 300)" using assms(3) by (simp add: sample_pref)
  have nt: "\<not> win_tiled ?v"
    by (simp add: win_tiled_def tl_tiled_def tl_maximized_def tl_fullscreen_def sample_toplevel_def Let_def)
  have view: "fv_want (fit_view_of ?C x ?v) = (a, 300)" "fv_cur (fit_view_of ?C x ?v) = (400, 300)"
    "fv_tiled (fit_view_of ?C x ?v) = False" "fv_pref (fit_view_of ?C x ?v) = (a, 300)"
    using assms(3,5) x nt by (simp_all add: fit_view_of_def pr Let_def)
  have rel: "sc_release_wm (fit_view_of ?C x ?v) ?v = ?v" using s by (simp add: sc_release_wm_def)
  obtain p l m where m: "mem_of fits = (p, l, m)" by (cases "mem_of fits") auto
  with run_remembers[OF rv] have mem: "(fit_prev_w ?v, fit_prev_h ?v) = p" "fit_last_msec ?v = m"
    by (simp_all add: fit_mem_def)
  have "\<not> oscillation ?E (fit_view_of ?C x ?v) ?v"
    using assms(6) m mem now by (auto simp: oscillation_def since_fit_def view wlx_constants)
  then have fits: "commit_fits ?C ?E ?v"
    using x s assms(3,4) by (simp add: commit_fits_def Let_def rel want_fit_def size_mismatch_def view wlx_constants)
  have f: "fit_of ?C ?E EvCommit ?v = [((a, 300), t)]"
    using fits x view by (simp add: fit_of_def now)
  from win_run.step[OF rv ck, of EvCommit "[]"] f
  have "win_run ?C clock_runs (fits @ [((a, 300), t)]) (surface_commit ?C ?E [] ?v)" by simp
  moreover have "w_output (surface_commit ?C ?E [] ?v) = Some x" "\<not> size_from_wm (surface_commit ?C ?E [] ?v)"
    using poor_commit[of ?v x ?C t "[]"] x s by simp_all
  ultimately show ?thesis using x by (auto simp: in_run_def)
qed

text \<open>A client that wants 600, 500 and 600 pixels again: the third fit comes 500 ms after the second.\<close>

lemma no_size_ping_pong_witness:
  "\<exists>w. win_run (sample_cfg 1 False) clock_runs
      [((600, 300), 1000), ((500, 300), 1100), ((600, 300), 1600)] w
    \<and> WLX_FIT_OSCILLATION_MS \<le> 1600 - (1100 :: int)"
proof -
  obtain w0 where "in_run [] w0" using run_starts by blast
  from run_fits[OF this, of 1000 600] obtain w1 where "in_run [((600, 300), 1000)] w1"
    by (auto simp: mem_of_def)
  from run_fits[OF this, of 1100 500] obtain w2 where "in_run [((600, 300), 1000), ((500, 300), 1100)] w2"
    by (auto simp: mem_of_def)
  from run_fits[OF this, of 1600 600] obtain w3
    where "in_run [((600, 300), 1000), ((500, 300), 1100), ((600, 300), 1600)] w3"
    by (auto simp: mem_of_def)
  then have r: "win_run (sample_cfg 1 False) clock_runs
      [((600, 300), 1000), ((500, 300), 1100), ((600, 300), 1600)] w3" by (simp add: in_run_def)
  have "WLX_FIT_OSCILLATION_MS \<le> 1600 - (1100 :: int)"
    by (rule no_size_ping_pong[OF r, of "[]" "(600, 300)" 1000 "(500, 300)" 1100 "(600, 300)" 1600 "[]"]) auto
  with r show ?thesis by blast
qed

end
