(* ===== verification/Boxes.thy ===== *)
theory Boxes
  imports Wlx_Types
begin

unbundle bit_operations_syntax

text \<open>
  Rectangles (\<open>src/subprojects/wlroots/util/box.c\<close>) and the transforms of an output
  (\<open>util/transform.c\<close>), and the edges of a box. A pointer to a box that may be NULL is an option; coordinates are integers
  without the overflow of C's \<open>int\<close>.
\<close>

section \<open>Boxes\<close>

definition wlr_box_empty :: "wlr_box option \<Rightarrow> bool" where
  "wlr_box_empty b = (case b of None \<Rightarrow> True | Some r \<Rightarrow> box_width r \<le> 0 \<or> box_height r \<le> 0)"

definition zero_box :: wlr_box where
  "zero_box = \<lparr>box_x = 0, box_y = 0, box_width = 0, box_height = 0\<rparr>"

definition wlr_box_intersection :: "wlr_box option \<Rightarrow> wlr_box option \<Rightarrow> bool \<times> wlr_box" where
  "wlr_box_intersection box_a box_b =
     (case (box_a, box_b) of
        (Some a, Some b) \<Rightarrow>
          if wlr_box_empty box_a \<or> wlr_box_empty box_b then (False, zero_box)
          else
            let x1 = max (box_x a) (box_x b);
                y1 = max (box_y a) (box_y b);
                x2 = min (box_x a + box_width a) (box_x b + box_width b);
                y2 = min (box_y a + box_height a) (box_y b + box_height b);
                dest = \<lparr>box_x = x1, box_y = y1, box_width = x2 - x1, box_height = y2 - y1\<rparr>
            in if wlr_box_empty (Some dest) then (False, zero_box) else (True, dest)
      | _ \<Rightarrow> (False, zero_box))"

definition wlr_box_contains_point :: "wlr_box option \<Rightarrow> rat \<Rightarrow> rat \<Rightarrow> bool" where
  "wlr_box_contains_point box x y =
     (case box of
        None \<Rightarrow> False
      | Some b \<Rightarrow>
          \<not> wlr_box_empty box \<and>
          of_int (box_x b) \<le> x \<and> x < of_int (box_x b + box_width b) \<and>
          of_int (box_y b) \<le> y \<and> y < of_int (box_y b + box_height b))"

definition wlr_box_contains_box :: "wlr_box option \<Rightarrow> wlr_box option \<Rightarrow> bool" where
  "wlr_box_contains_box bigger smaller =
     (case (bigger, smaller) of
        (Some b, Some s) \<Rightarrow>
          \<not> wlr_box_empty bigger \<and> \<not> wlr_box_empty smaller \<and>
          box_x b \<le> box_x s \<and> box_x s + box_width s \<le> box_x b + box_width b \<and>
          box_y b \<le> box_y s \<and> box_y s + box_height s \<le> box_y b + box_height b
      | _ \<Rightarrow> False)"

definition wlr_box_intersects :: "wlr_box option \<Rightarrow> wlr_box option \<Rightarrow> bool" where
  "wlr_box_intersects p q =
     (case (p, q) of
        (Some a, Some b) \<Rightarrow>
          \<not> wlr_box_empty p \<and> \<not> wlr_box_empty q \<and>
          box_x a < box_x b + box_width b \<and> box_x b < box_x a + box_width a \<and>
          box_y a < box_y b + box_height b \<and> box_y b < box_y a + box_height a
      | _ \<Rightarrow> False)"

text \<open>Empty boxes are all equal.\<close>

definition wlr_box_equal :: "wlr_box option \<Rightarrow> wlr_box option \<Rightarrow> bool" where
  "wlr_box_equal p q =
     (let a = (if wlr_box_empty p then None else p); b = (if wlr_box_empty q then None else q)
      in a = b)"

text \<open>\<open>None\<close> is NAN: an empty box has no closest point. The point stays 1/256 inside the right and
  the bottom edge.\<close>

definition closest_coordinate :: "int \<Rightarrow> int \<Rightarrow> rat \<Rightarrow> rat" where
  "closest_coordinate lo len x =
     (if x < of_int lo then of_int lo
      else if of_int (lo + len) - 1 / 256 < x then of_int (lo + len) - 1 / 256
      else x)"

definition wlr_box_closest_point :: "wlr_box option \<Rightarrow> rat \<Rightarrow> rat \<Rightarrow> (rat \<times> rat) option" where
  "wlr_box_closest_point box x y =
     (case box of
        None \<Rightarrow> None
      | Some b \<Rightarrow>
          if wlr_box_empty box then None
          else Some (closest_coordinate (box_x b) (box_width b) x, closest_coordinate (box_y b) (box_height b) y))"

section \<open>Edges\<close>

text \<open>\<open>enum wlr_edges\<close> (\<open>include/wlr/util/edges.h\<close>).\<close>

definition WLR_EDGE_TOP :: "32 word" where "WLR_EDGE_TOP = 1"
definition WLR_EDGE_BOTTOM :: "32 word" where "WLR_EDGE_BOTTOM = 2"
definition WLR_EDGE_LEFT :: "32 word" where "WLR_EDGE_LEFT = 4"
definition WLR_EDGE_RIGHT :: "32 word" where "WLR_EDGE_RIGHT = 8"

definition edge_set :: "32 word \<Rightarrow> 32 word \<Rightarrow> bool" where
  "edge_set edges e \<longleftrightarrow> edges AND e \<noteq> 0"

section \<open>Output transforms\<close>

text \<open>\<open>enum wl_output_transform\<close>: bit 0 is a quarter turn, bit 1 a half turn, bit 2 a flip.\<close>

definition WL_OUTPUT_TRANSFORM_90 :: "32 word" where "WL_OUTPUT_TRANSFORM_90 = 1"
definition WL_OUTPUT_TRANSFORM_180 :: "32 word" where "WL_OUTPUT_TRANSFORM_180 = 2"
definition WL_OUTPUT_TRANSFORM_FLIPPED :: "32 word" where "WL_OUTPUT_TRANSFORM_FLIPPED = 4"

definition wlr_output_transform_invert :: "32 word \<Rightarrow> 32 word" where
  "wlr_output_transform_invert tr =
     (if tr AND WL_OUTPUT_TRANSFORM_90 \<noteq> 0 \<and> tr AND WL_OUTPUT_TRANSFORM_FLIPPED = 0
      then tr XOR WL_OUTPUT_TRANSFORM_180 else tr)"

definition wlr_output_transform_compose :: "32 word \<Rightarrow> 32 word \<Rightarrow> 32 word" where
  "wlr_output_transform_compose tr_a tr_b =
     (let flipped = (tr_a XOR tr_b) AND WL_OUTPUT_TRANSFORM_FLIPPED;
          rotation_mask = WL_OUTPUT_TRANSFORM_90 OR WL_OUTPUT_TRANSFORM_180;
          rotated = (if tr_b AND WL_OUTPUT_TRANSFORM_FLIPPED \<noteq> 0
                     then (tr_b - tr_a) AND rotation_mask else (tr_a + tr_b) AND rotation_mask)
      in flipped OR rotated)"

definition wlr_output_transform_coords :: "32 word \<Rightarrow> 'a \<times> 'a \<Rightarrow> 'a \<times> 'a" where
  "wlr_output_transform_coords tr p = (if tr AND WL_OUTPUT_TRANSFORM_90 \<noteq> 0 then (snd p, fst p) else p)"

text \<open>The destination keeps the origin it had where the transform is none of the eight.\<close>

definition wlr_box_transform :: "wlr_box \<Rightarrow> wlr_box option \<Rightarrow> 32 word \<Rightarrow> int \<Rightarrow> int \<Rightarrow> wlr_box" where
  "wlr_box_transform dest box transform width height =
     (let src = (case box of None \<Rightarrow> zero_box | Some b \<Rightarrow> b);
          x = box_x src; y = box_y src; w = box_width src; h = box_height src;
          (x', y') =
            (if transform = 0 then (x, y)
             else if transform = 1 then (height - y - h, x)
             else if transform = 2 then (width - x - w, height - y - h)
             else if transform = 3 then (y, width - x - w)
             else if transform = 4 then (width - x - w, y)
             else if transform = 5 then (y, x)
             else if transform = 6 then (x, height - y - h)
             else if transform = 7 then (height - y - h, width - x - w)
             else (box_x dest, box_y dest));
          (w', h') = (if transform mod 2 = 0 then (w, h) else (h, w))
      in \<lparr>box_x = x', box_y = y', box_width = w', box_height = h'\<rparr>)"

section \<open>Boxes as sets of points\<close>

lemma box_empty_iff: "wlr_box_empty b \<longleftrightarrow> (\<forall>x y. \<not> wlr_box_contains_point b x y)"
proof (cases b)
  case (Some r)
  have "wlr_box_contains_point b (of_int (box_x r)) (of_int (box_y r))" if "\<not> wlr_box_empty b"
    using that by (simp add: Some wlr_box_contains_point_def wlr_box_empty_def)
  moreover have "\<not> wlr_box_contains_point b x y" if "wlr_box_empty b" for x y
    using that by (simp add: Some wlr_box_contains_point_def)
  ultimately show ?thesis by blast
qed (simp add: wlr_box_empty_def wlr_box_contains_point_def)

lemma contains_point_iff:
  "wlr_box_contains_point (Some b) x y \<longleftrightarrow>
     of_int (box_x b) \<le> x \<and> x < of_int (box_x b + box_width b) \<and>
     of_int (box_y b) \<le> y \<and> y < of_int (box_y b + box_height b)"
proof -
  have "0 < box_width b" if "of_int (box_x b) \<le> x" "x < of_int (box_x b + box_width b)" for x :: rat
    using order_le_less_trans[OF that] by simp
  moreover have "0 < box_height b" if "of_int (box_y b) \<le> y" "y < of_int (box_y b + box_height b)" for y :: rat
    using order_le_less_trans[OF that] by simp
  ultimately show ?thesis by (auto simp: wlr_box_contains_point_def wlr_box_empty_def not_le)
qed

lemma of_int_max_min:
  "of_int (max a b) \<le> (x::rat) \<longleftrightarrow> of_int a \<le> x \<and> of_int b \<le> x"
  "x < of_int (min a b) \<longleftrightarrow> x < of_int a \<and> x < (of_int b :: rat)"
  by (auto simp: max_def min_def dest: order_trans[rotated] less_le_trans)

text \<open>The intersection of two boxes has the points they share, and its result tells whether there
  are any.\<close>

theorem intersection_points:
  "wlr_box_contains_point (Some (snd (wlr_box_intersection p q))) x y \<longleftrightarrow>
     wlr_box_contains_point p x y \<and> wlr_box_contains_point q x y"
proof (cases "\<exists>a b. p = Some a \<and> q = Some b \<and> \<not> wlr_box_empty p \<and> \<not> wlr_box_empty q")
  case True
  then obtain a b where pq: "p = Some a" "q = Some b" "\<not> wlr_box_empty p" "\<not> wlr_box_empty q" by blast
  let ?d = "\<lparr>box_x = max (box_x a) (box_x b), box_y = max (box_y a) (box_y b),
    box_width = min (box_x a + box_width a) (box_x b + box_width b) - max (box_x a) (box_x b),
    box_height = min (box_y a + box_height a) (box_y b + box_height b) - max (box_y a) (box_y b)\<rparr>"
  have d: "wlr_box_contains_point (Some ?d) x y \<longleftrightarrow> wlr_box_contains_point p x y \<and> wlr_box_contains_point q x y"
    by (auto simp: pq contains_point_iff of_int_max_min simp del: of_int_add)
  have "wlr_box_intersection p q = (if wlr_box_empty (Some ?d) then (False, zero_box) else (True, ?d))"
    using pq by (simp add: wlr_box_intersection_def Let_def)
  moreover have "\<not> wlr_box_contains_point (Some zero_box) x y" by (simp add: contains_point_iff zero_box_def)
  ultimately show ?thesis using d box_empty_iff[of "Some ?d"] by (auto split: if_splits)
next
  case False
  then have "wlr_box_intersection p q = (False, zero_box)"
    by (auto simp: wlr_box_intersection_def split: option.splits)
  moreover have "\<not> wlr_box_contains_point (Some zero_box) x y" by (simp add: contains_point_iff zero_box_def)
  moreover have "wlr_box_empty p \<or> wlr_box_empty q" using False by (cases p; cases q) (auto simp: wlr_box_empty_def)
  ultimately show ?thesis using box_empty_iff by auto
qed

lemma intersection_flag: "fst (wlr_box_intersection p q) \<longleftrightarrow> \<not> wlr_box_empty (Some (snd (wlr_box_intersection p q)))"
  by (auto simp: wlr_box_intersection_def Let_def wlr_box_empty_def zero_box_def split: option.split)

lemma intersects_iff: "wlr_box_intersects p q \<longleftrightarrow> fst (wlr_box_intersection p q)"
  by (auto simp: wlr_box_intersects_def wlr_box_intersection_def wlr_box_empty_def Let_def split: option.split)

lemma box_eq_iff:
  "(a :: wlr_box) = b \<longleftrightarrow> box_x a = box_x b \<and> box_y a = box_y b \<and> box_width a = box_width b \<and> box_height a = box_height b"
  by auto

text \<open>A box lies in another where their intersection is the box itself.\<close>

lemma contains_box_iff:
  assumes "\<not> wlr_box_empty (Some a)"
  shows "wlr_box_contains_box (Some b) (Some a) \<longleftrightarrow> wlr_box_intersection (Some b) (Some a) = (True, a)"
  using assms
  by (auto simp: wlr_box_contains_box_def wlr_box_intersection_def wlr_box_empty_def Let_def box_eq_iff)

lemma closest_coordinate_inside:
  "0 < len \<Longrightarrow> of_int lo \<le> closest_coordinate lo len x \<and> closest_coordinate lo len x < of_int (lo + len)"
proof -
  assume "0 < len"
  then have "(1::rat) \<le> of_int len" by simp
  then show ?thesis by (simp add: closest_coordinate_def)
qed

text \<open>The closest point lies in the box, and a point at least 1/256 inside the far edges is its own.\<close>

lemma closest_point_inside:
  "wlr_box_closest_point b x y = Some (cx, cy) \<Longrightarrow> wlr_box_contains_point b cx cy"
  using closest_coordinate_inside
  by (auto simp: wlr_box_closest_point_def contains_point_iff wlr_box_empty_def not_le
      simp del: of_int_add split: option.splits if_splits)

section \<open>Transforms as a group\<close>

lemma transform_cases:
  fixes t :: "32 word"
  assumes "t < 8"
  obtains "t = 0" | "t = 1" | "t = 2" | "t = 3" | "t = 4" | "t = 5" | "t = 6" | "t = 7"
proof -
  have "unat t < 8" using assms by (simp add: word_less_nat_alt)
  then have "unat t \<in> {0, 1, 2, 3, 4, 5, 6, 7}" by auto
  then have "t \<in> {0, 1, 2, 3, 4, 5, 6, 7}" by (auto simp: word_unat_eq_iff)
  then show ?thesis using that by blast
qed

text \<open>The size of an output after a transform.\<close>

abbreviation turned :: "32 word \<Rightarrow> int \<Rightarrow> int \<Rightarrow> int \<times> int" where
  "turned t w h \<equiv> wlr_output_transform_coords t (w, h)"

lemmas transform_defs = wlr_output_transform_compose_def wlr_output_transform_invert_def
  wlr_output_transform_coords_def WL_OUTPUT_TRANSFORM_90_def WL_OUTPUT_TRANSFORM_180_def
  WL_OUTPUT_TRANSFORM_FLIPPED_def

text \<open>The transforms at their values.\<close>

abbreviation Box :: "int \<Rightarrow> int \<Rightarrow> int \<Rightarrow> int \<Rightarrow> wlr_box" where
  "Box x y w h \<equiv> \<lparr>box_x = x, box_y = y, box_width = w, box_height = h\<rparr>"

lemma box_transform_values:
  "wlr_box_transform d (Some r) 0 w h = Box (box_x r) (box_y r) (box_width r) (box_height r)"
  "wlr_box_transform d (Some r) 1 w h = Box (h - box_y r - box_height r) (box_x r) (box_height r) (box_width r)"
  "wlr_box_transform d (Some r) 2 w h = Box (w - box_x r - box_width r) (h - box_y r - box_height r) (box_width r) (box_height r)"
  "wlr_box_transform d (Some r) 3 w h = Box (box_y r) (w - box_x r - box_width r) (box_height r) (box_width r)"
  "wlr_box_transform d (Some r) 4 w h = Box (w - box_x r - box_width r) (box_y r) (box_width r) (box_height r)"
  "wlr_box_transform d (Some r) 5 w h = Box (box_y r) (box_x r) (box_height r) (box_width r)"
  "wlr_box_transform d (Some r) 6 w h = Box (box_x r) (h - box_y r - box_height r) (box_width r) (box_height r)"
  "wlr_box_transform d (Some r) 7 w h = Box (h - box_y r - box_height r) (w - box_x r - box_width r) (box_height r) (box_width r)"
  by (simp_all add: wlr_box_transform_def Let_def)

text \<open>Transforming a box twice is transforming it by the composition of the two, the one that is
  applied last as the first argument.\<close>

lemma transform_compose:
  assumes "a < 8" "b < 8"
  shows "wlr_box_transform d (Some (wlr_box_transform d' (Some r) a w h)) b (fst (turned a w h)) (snd (turned a w h))
    = wlr_box_transform d (Some r) (wlr_output_transform_compose b a) w h"
  by (rule transform_cases[OF assms(1)]; rule transform_cases[OF assms(2)]; simp add: transform_defs box_transform_values)

lemma transform_invert:
  assumes "t < 8"
  shows "wlr_output_transform_compose (wlr_output_transform_invert t) t = 0"
  using assms by (rule transform_cases) (simp_all add: transform_defs)

text \<open>A box transformed and transformed back by the inverse is the box it was.\<close>

theorem transform_round_trip:
  assumes "t < 8"
  shows "wlr_box_transform d (Some (wlr_box_transform d' (Some r) t w h)) (wlr_output_transform_invert t)
      (fst (turned t w h)) (snd (turned t w h)) = r"
proof -
  have "wlr_output_transform_invert t < 8" using assms by (rule transform_cases) (simp_all add: transform_defs)
  from transform_compose[OF assms this] show ?thesis
    by (simp add: transform_invert[OF assms] box_transform_values)
qed

end
