(* ===== verification/Drag.thy ===== *)
theory Drag
  imports X11_Props Boxes
begin

text \<open>
  The interactive moves and resizes the compositor drives itself
  (\<open>src/move_resize.c\<close>, lines 16 to 88; \<open>src/input.c\<close>, lines 187 to 287; the correction learned
  in \<open>handle_xcb_readable\<close>, \<open>src/x11.c\<close>, lines 835 to 867). A drag is a record of its own, the
  fields of \<open>struct wlx_server\<close> that only these functions touch; \<open>d_log\<close> is the trace of the
  position requests, newest last. Window pointers are looked up in a map of the live windows.
\<close>

section \<open>State\<close>

text \<open>\<open>struct timespec\<close>: seconds and nanoseconds below one second.\<close>

type_synonym timespec = "int \<times> int"

definition nsec_of :: "timespec \<Rightarrow> int" where
  "nsec_of t = fst t * 1000000000 + snd t"

record drag_state =
  move_win :: "wid option"
  move_offset_x :: int
  move_offset_y :: int
  resize_win :: "wid option"
  resize_edges :: "32 word"
  resize_start_x :: int
  resize_start_y :: int
  resize_start_w :: int
  resize_start_h :: int
  resize_start_pointer_x :: int
  resize_start_pointer_y :: int
  drag_last_send_at :: timespec
  drag_last_requested_x :: int
  drag_last_requested_y :: int
  drag_correction_x :: int
  drag_correction_y :: int
  d_log :: "wlr_call list"

text \<open>The window being dragged: a move wins over a resize.\<close>

definition dragged_win :: "(wid \<rightharpoonup> wlx_window) \<Rightarrow> drag_state \<Rightarrow> wlx_window option" where
  "dragged_win wins d = Option.bind (case move_win d of None \<Rightarrow> resize_win d | m \<Rightarrow> m) wins"

lemma dragged_win_send [simp]: "dragged_win wins (d\<lparr>drag_last_send_at := t\<rparr>) = dragged_win wins d"
  by (cases "move_win d") (simp_all add: dragged_win_def)

section \<open>Starting a drag\<close>

definition drag_reset :: "int \<Rightarrow> int \<Rightarrow> drag_state \<Rightarrow> drag_state" where
  "drag_reset wx wy d =
     d\<lparr>drag_last_send_at := (0, 0), drag_correction_x := 0, drag_correction_y := 0,
       drag_last_requested_x := wx, drag_last_requested_y := wy\<rparr>"

definition begin_interactive_move :: "wlx_config \<Rightarrow> wlx_env \<Rightarrow> wlx_window \<Rightarrow> drag_state \<Rightarrow> drag_state" where
  "begin_interactive_move cfg env win d =
     (let outer = outer_position_window win;
          target = configure_target_window win
      in if outer = XCB_WINDOW_NONE \<or> target = XCB_WINDOW_NONE then d
         else case query_window_root_position cfg env outer of
             None \<Rightarrow> d
           | Some (wx, wy) \<Rightarrow> (case query_root_pointer_position cfg env of
                 None \<Rightarrow> d
               | Some (px, py) \<Rightarrow>
                   drag_reset wx wy
                     (d\<lparr>move_win := Some (w_id win), move_offset_x := wx - px,
                        move_offset_y := wy - py\<rparr>)))"

definition begin_interactive_resize ::
  "wlx_config \<Rightarrow> wlx_env \<Rightarrow> wlx_window \<Rightarrow> 32 word \<Rightarrow> drag_state \<Rightarrow> drag_state" where
  "begin_interactive_resize cfg env win edges d =
     (let outer = outer_position_window win;
          target = configure_target_window win;
          size_win = (if content_xwin win \<noteq> XCB_WINDOW_NONE then content_xwin win else xwin win)
      in if outer = XCB_WINDOW_NONE \<or> target = XCB_WINDOW_NONE \<or> size_win = XCB_WINDOW_NONE then d
         else case query_window_root_position cfg env outer of
             None \<Rightarrow> d
           | Some (wx, wy) \<Rightarrow> (case query_window_geometry cfg env size_win of
                 None \<Rightarrow> d
               | Some (w, h) \<Rightarrow> (case query_root_pointer_position cfg env of
                     None \<Rightarrow> d
                   | Some (px, py) \<Rightarrow>
                       drag_reset wx wy
                         (d\<lparr>resize_win := Some (w_id win), resize_edges := edges,
                            resize_start_x := wx, resize_start_y := wy,
                            resize_start_w := w, resize_start_h := h,
                            resize_start_pointer_x := px, resize_start_pointer_y := py\<rparr>))))"

section \<open>Throttling\<close>

text \<open>The difference of the nanoseconds is divided towards zero, as C divides.\<close>

definition drag_elapsed_ms :: "timespec \<Rightarrow> timespec \<Rightarrow> int" where
  "drag_elapsed_ms now sent = (fst now - fst sent) * 1000 + (snd now - snd sent) sdiv 1000000"

definition drag_throttle_ready :: "timespec \<Rightarrow> drag_state \<Rightarrow> bool \<times> drag_state" where
  "drag_throttle_ready now d =
     (if drag_elapsed_ms now (drag_last_send_at d) < WLX_DRAG_THROTTLE_MS then (False, d)
      else (True, d\<lparr>drag_last_send_at := now\<rparr>))"

section \<open>One update\<close>

text \<open>Position and size along one axis: \<open>low\<close> is the left or top edge, \<open>high\<close> the right or bottom.\<close>

definition resize_axis :: "bool \<Rightarrow> bool \<Rightarrow> int \<Rightarrow> int \<Rightarrow> int \<Rightarrow> int \<times> int" where
  "resize_axis low high pos len delta =
     (let (x, w) = (if low then (pos + delta, len - delta)
                    else if high then (pos, len + delta) else (pos, len))
      in (x, if w < WLX_MIN_WINDOW_SIZE then WLX_MIN_WINDOW_SIZE else w))"

unbundle bit_operations_syntax

definition drag_move_request :: "xid \<Rightarrow> int \<Rightarrow> int \<Rightarrow> drag_state \<Rightarrow> drag_state" where
  "drag_move_request target px py d =
     (let x = px + move_offset_x d - drag_correction_x d;
          y = py + move_offset_y d - drag_correction_y d
      in d\<lparr>drag_last_requested_x := x, drag_last_requested_y := y,
           d_log := d_log d @ [ConfigurePos target x y]\<rparr>)"

definition drag_resize_request :: "xid \<Rightarrow> int \<Rightarrow> int \<Rightarrow> drag_state \<Rightarrow> drag_state" where
  "drag_resize_request target px py d =
     (let dx = px - resize_start_pointer_x d;
          dy = py - resize_start_pointer_y d;
          (x0, w) = resize_axis (edge_set (resize_edges d) WLR_EDGE_LEFT)
                      (edge_set (resize_edges d) WLR_EDGE_RIGHT) (resize_start_x d) (resize_start_w d) dx;
          (y0, h) = resize_axis (edge_set (resize_edges d) WLR_EDGE_TOP)
                      (edge_set (resize_edges d) WLR_EDGE_BOTTOM) (resize_start_y d) (resize_start_h d) dy;
          x = x0 - drag_correction_x d;
          y = y0 - drag_correction_y d
      in d\<lparr>drag_last_requested_x := x, drag_last_requested_y := y,
           d_log := d_log d @ [ConfigurePosSize target x y w h]\<rparr>)"

definition update_interactive_drag ::
  "wlx_config \<Rightarrow> (wid \<rightharpoonup> wlx_window) \<Rightarrow> timespec \<Rightarrow> wlx_env \<Rightarrow> drag_state \<Rightarrow> drag_state" where
  "update_interactive_drag cfg wins now env d =
     (if move_win d = None \<and> resize_win d = None then d
      else case drag_throttle_ready now d of
          (False, d1) \<Rightarrow> d1
        | (True, d1) \<Rightarrow> (case query_root_pointer_position cfg env of
              None \<Rightarrow> d1
            | Some (px, py) \<Rightarrow> (case dragged_win wins d1 of
                  None \<Rightarrow> d1
                | Some win \<Rightarrow>
                    if configure_target_window win = XCB_WINDOW_NONE then d1
                    else if move_win d1 \<noteq> None
                    then drag_move_request (configure_target_window win) px py d1
                    else drag_resize_request (configure_target_window win) px py d1)))"

section \<open>Learning the window manager's offset\<close>

text \<open>The part of the ConfigureNotify branch that concerns a drag.\<close>

definition drag_learn_correction ::
  "(wid \<rightharpoonup> wlx_window) \<Rightarrow> xid \<Rightarrow> int \<Rightarrow> int \<Rightarrow> drag_state \<Rightarrow> drag_state" where
  "drag_learn_correction wins x cx cy d =
     (if move_win d = None \<and> resize_win d = None then d
      else case dragged_win wins d of
          None \<Rightarrow> d
        | Some active \<Rightarrow>
            if x = ewmh_target_window active \<or> x = xwin active
            then if x = xwin active \<or> content_xwin active = XCB_WINDOW_NONE
                    \<or> content_xwin active = xwin active
                 then d\<lparr>drag_correction_x := cx - drag_last_requested_x d,
                        drag_correction_y := cy - drag_last_requested_y d\<rparr>
                 else d
            else d)"

section \<open>Ending a drag\<close>

text \<open>The tail of the button release, and what the end of a window or of its output does.\<close>

definition drag_release :: "drag_state \<Rightarrow> drag_state" where
  "drag_release d = d\<lparr>move_win := None, resize_win := None\<rparr>"

definition drag_forget :: "wid \<Rightarrow> drag_state \<Rightarrow> drag_state" where
  "drag_forget i d =
     (let d1 = (if move_win d = Some i then d\<lparr>move_win := None\<rparr> else d)
      in if resize_win d1 = Some i then d1\<lparr>resize_win := None\<rparr> else d1)"

section \<open>Runs\<close>

datatype (plugins only: code size) drag_event =
    BeginMove wlx_env wlx_window
  | BeginResize wlx_env wlx_window "32 word"
  | DragMotion timespec wlx_env
  | FrameNotify xid int int
  | ButtonUp
  | WindowGone wid

fun drag_step :: "wlx_config \<Rightarrow> (wid \<rightharpoonup> wlx_window) \<Rightarrow> drag_event \<Rightarrow> drag_state \<Rightarrow> drag_state" where
  "drag_step cfg wins (BeginMove env win) d = begin_interactive_move cfg env win d"
| "drag_step cfg wins (BeginResize env win edges) d = begin_interactive_resize cfg env win edges d"
| "drag_step cfg wins (DragMotion now env) d = update_interactive_drag cfg wins now env d"
| "drag_step cfg wins (FrameNotify x cx cy) d = drag_learn_correction wins x cx cy d"
| "drag_step cfg wins ButtonUp d = drag_release d"
| "drag_step cfg wins (WindowGone i) d = drag_forget i d"

fun drag_run :: "wlx_config \<Rightarrow> (wid \<rightharpoonup> wlx_window) \<Rightarrow> drag_event list \<Rightarrow> drag_state \<Rightarrow> drag_state" where
  "drag_run cfg wins [] d = d"
| "drag_run cfg wins (e # es) d = drag_run cfg wins es (drag_step cfg wins e d)"

lemma drag_run_append: "drag_run cfg wins (es @ fs) d = drag_run cfg wins fs (drag_run cfg wins es d)"
  by (induction es arbitrary: d) simp_all

section \<open>Facts about single steps\<close>

lemma sdiv_million_upper: "n sdiv 1000000 * 1000000 < n + 1000000" for n :: int
proof (cases "0 \<le> n")
  case True
  then show ?thesis using div_mult_mod_eq[of n 1000000] pos_mod_sign[of 1000000 n]
    by (simp add: signed_divide_int_def sgn_if) linarith
next
  case False
  then show ?thesis using div_mult_mod_eq[of "- n" 1000000] pos_mod_bound[of 1000000 "- n"]
    by (simp add: signed_divide_int_def sgn_if)
qed

lemma throttle_elapsed:
  assumes "\<not> drag_elapsed_ms now sent < WLX_DRAG_THROTTLE_MS"
  shows "nsec_of sent + 15000000 < nsec_of now"
proof -
  have "q * 1000000 < n + 1000000 \<Longrightarrow> 16 \<le> s * 1000 + q \<Longrightarrow> 15000000 < s * 1000000000 + n"
    for q n s :: int by linarith
  from this[OF sdiv_million_upper, of "fst now - fst sent" "snd now - snd sent"]
  have "15000000 < (fst now - fst sent) * 1000000000 + (snd now - snd sent)"
    using assms by (simp add: drag_elapsed_ms_def WLX_DRAG_THROTTLE_MS_def)
  then show ?thesis unfolding nsec_of_def by (simp add: algebra_simps)
qed

lemma drag_ready_cases:
  obtains (wait) "drag_throttle_ready now d = (False, d)"
  | (ready) "drag_throttle_ready now d = (True, d\<lparr>drag_last_send_at := now\<rparr>)"
      "nsec_of (drag_last_send_at d) + 15000000 < nsec_of now"
  by (cases "drag_elapsed_ms now (drag_last_send_at d) < WLX_DRAG_THROTTLE_MS")
     (auto simp: drag_throttle_ready_def dest: throttle_elapsed)

lemma resize_axis_min: "WLX_MIN_WINDOW_SIZE \<le> snd (resize_axis low high pos len delta)"
  by (auto simp: resize_axis_def Let_def)

lemma resize_axis_low:
  "WLX_MIN_WINDOW_SIZE < snd (resize_axis True high pos len delta) \<Longrightarrow>
     fst (resize_axis True high pos len delta) + snd (resize_axis True high pos len delta) = pos + len"
  by (auto simp: resize_axis_def Let_def split: if_splits)

lemma resize_axis_high: "fst (resize_axis False high pos len delta) = pos"
  by (auto simp: resize_axis_def Let_def)

lemma resize_axis_clamped:
  "len - WLX_MIN_WINDOW_SIZE < delta \<Longrightarrow>
     resize_axis True high pos len delta = (pos + delta, WLX_MIN_WINDOW_SIZE)"
  by (auto simp: resize_axis_def Let_def)

definition drag_active :: "drag_state \<Rightarrow> bool" where
  "drag_active d \<longleftrightarrow> move_win d \<noteq> None \<or> resize_win d \<noteq> None"

lemma drag_request_log:
  "d_log (drag_move_request t px py d) =
     d_log d @ [ConfigurePos t (px + move_offset_x d - drag_correction_x d)
                              (py + move_offset_y d - drag_correction_y d)]"
  "\<exists>x y w h. d_log (drag_resize_request t px py d) = d_log d @ [ConfigurePosSize t x y w h]"
  by (auto simp: drag_move_request_def drag_resize_request_def Let_def split: prod.splits)

text \<open>What an update leaves alone, and when it moves the clock.\<close>

lemma drag_request_frame [simp]:
  "move_win (drag_move_request t px py d) = move_win d"
  "resize_win (drag_move_request t px py d) = resize_win d"
  "drag_last_send_at (drag_move_request t px py d) = drag_last_send_at d"
  "move_offset_x (drag_move_request t px py d) = move_offset_x d"
  "move_offset_y (drag_move_request t px py d) = move_offset_y d"
  "drag_correction_x (drag_move_request t px py d) = drag_correction_x d"
  "drag_correction_y (drag_move_request t px py d) = drag_correction_y d"
  "move_win (drag_resize_request t px py d) = move_win d"
  "resize_win (drag_resize_request t px py d) = resize_win d"
  "drag_last_send_at (drag_resize_request t px py d) = drag_last_send_at d"
  by (auto simp: drag_move_request_def drag_resize_request_def Let_def split: prod.splits)

text \<open>An update past the throttle: nothing more, or one request at the pointer's position.\<close>

definition drag_request :: "wlx_window \<Rightarrow> int \<Rightarrow> int \<Rightarrow> drag_state \<Rightarrow> drag_state" where
  "drag_request win px py d =
     (if configure_target_window win = XCB_WINDOW_NONE then d
      else if move_win d \<noteq> None then drag_move_request (configure_target_window win) px py d
      else drag_resize_request (configure_target_window win) px py d)"

lemma update_drag_ready:
  assumes "drag_active d" "drag_throttle_ready now d = (True, d1)"
  shows "update_interactive_drag cfg wins now env d =
           (case (query_root_pointer_position cfg env, dragged_win wins d1) of
              (Some (px, py), Some win) \<Rightarrow> drag_request win px py d1 | _ \<Rightarrow> d1)"
  using assms by (cases "query_root_pointer_position cfg env"; cases "dragged_win wins d1")
    (auto simp: drag_active_def update_interactive_drag_def drag_request_def)

lemma drag_request_cases:
  "drag_request win px py d = d
   \<or> (\<exists>r. d_log (drag_request win px py d) = d_log d @ [r])
      \<and> drag_last_send_at (drag_request win px py d) = drag_last_send_at d"
proof -
  let ?t = "configure_target_window win"
  consider "?t = XCB_WINDOW_NONE" | "?t \<noteq> XCB_WINDOW_NONE" "move_win d \<noteq> None"
    | "?t \<noteq> XCB_WINDOW_NONE" "move_win d = None" by blast
  then show ?thesis
  proof cases
    case 3 with drag_request_log(2)[of ?t px py d] show ?thesis by (auto simp: drag_request_def)
  qed (simp_all add: drag_request_def drag_request_log(1))
qed

lemma update_drag_cases:
  fixes cfg wins now env d
  defines "u \<equiv> update_interactive_drag cfg wins now env d"
  obtains (quiet) "d_log u = d_log d"
      "drag_last_send_at u = drag_last_send_at d
       \<or> nsec_of (drag_last_send_at d) + 15000000 < nsec_of (drag_last_send_at u)"
  | (sent) r where "d_log u = d_log d @ [r]" "drag_active d"
      "nsec_of (drag_last_send_at d) + 15000000 < nsec_of (drag_last_send_at u)"
proof (cases "drag_active d")
  case False
  then show ?thesis
    by (intro quiet) (simp_all add: u_def update_interactive_drag_def drag_active_def)
next
  case active: True
  show ?thesis
  proof (cases rule: drag_ready_cases[of now d])
    case wait
    with active show ?thesis
      by (intro quiet) (simp_all add: u_def update_interactive_drag_def drag_active_def)
  next
    case ready
    note u = update_drag_ready[OF active ready(1), of cfg wins env, folded u_def]
    show ?thesis
    proof (cases "u = d\<lparr>drag_last_send_at := now\<rparr>")
      case True with ready(2) show ?thesis by (intro quiet) simp_all
    next
      case False
      then obtain px py win where "u = drag_request win px py (d\<lparr>drag_last_send_at := now\<rparr>)"
        unfolding u by (auto split: option.splits)
      with False drag_request_cases[of win px py "d\<lparr>drag_last_send_at := now\<rparr>"]
      obtain r where "d_log u = d_log d @ [r]" "drag_last_send_at u = now" by auto
      with active ready(2) show ?thesis by (intro sent) simp_all
    qed
  qed
qed

section \<open>Closed loop with a window manager\<close>

text \<open>
  A window manager that places the frame a constant \<open>(ex, ey)\<close> away from where it is asked to
  and reports the place it took. One round is a pointer sample and, if it led to a request, the
  report.
\<close>

definition wm_round ::
  "wlx_config \<Rightarrow> (wid \<rightharpoonup> wlx_window) \<Rightarrow> int \<Rightarrow> int \<Rightarrow> xid \<Rightarrow> timespec \<times> wlx_env \<Rightarrow> drag_state \<Rightarrow> drag_state" where
  "wm_round cfg wins ex ey frame s d =
     (let d1 = update_interactive_drag cfg wins (fst s) (snd s) d
      in if d_log d1 = d_log d then d1
         else drag_learn_correction wins frame (drag_last_requested_x d1 + ex)
                (drag_last_requested_y d1 + ey) d1)"

fun wm_rounds ::
  "wlx_config \<Rightarrow> (wid \<rightharpoonup> wlx_window) \<Rightarrow> int \<Rightarrow> int \<Rightarrow> xid \<Rightarrow> (timespec \<times> wlx_env) list \<Rightarrow> drag_state \<Rightarrow> drag_state" where
  "wm_rounds cfg wins ex ey frame [] d = d"
| "wm_rounds cfg wins ex ey frame (s # ss) d =
     wm_rounds cfg wins ex ey frame ss (wm_round cfg wins ex ey frame s d)"

definition same_move :: "drag_state \<Rightarrow> drag_state \<Rightarrow> bool" where
  "same_move d d' \<longleftrightarrow> move_win d' = move_win d \<and> move_offset_x d' = move_offset_x d
     \<and> move_offset_y d' = move_offset_y d"

lemma same_move_refl [simp]: "same_move d d"
  and same_move_trans: "same_move d d' \<Longrightarrow> same_move d' d'' \<Longrightarrow> same_move d d''"
  by (simp_all add: same_move_def)

lemma update_drag_frame:
  fixes cfg wins now env d
  assumes "move_win d = Some i"
  defines "u \<equiv> update_interactive_drag cfg wins now env d"
  shows "same_move d u" "drag_correction_x u = drag_correction_x d"
    "drag_correction_y u = drag_correction_y d"
proof -
  have active: "drag_active d" using assms(1) by (simp add: drag_active_def)
  have req: "same_move e (drag_request win px py e)
      \<and> drag_correction_x (drag_request win px py e) = drag_correction_x e
      \<and> drag_correction_y (drag_request win px py e) = drag_correction_y e"
    if "move_win e = Some i" for e win px py
    using that by (simp add: drag_request_def same_move_def)
  have "same_move d u \<and> drag_correction_x u = drag_correction_x d
      \<and> drag_correction_y u = drag_correction_y d"
  proof (cases rule: drag_ready_cases[of now d])
    case wait
    with active show ?thesis by (simp add: u_def update_interactive_drag_def drag_active_def)
  next
    case ready
    let ?d = "d\<lparr>drag_last_send_at := now\<rparr>"
    have d: "same_move d ?d" by (simp add: same_move_def)
    have "move_win ?d = Some i" using assms(1) by simp
    note r = req[OF this]
    show ?thesis unfolding u_def update_drag_ready[OF active ready(1), of cfg wins env]
      using d r by (auto split: option.splits intro: same_move_trans)
  qed
  then show "same_move d u" "drag_correction_x u = drag_correction_x d"
    "drag_correction_y u = drag_correction_y d" by simp_all
qed

lemma wm_round_frame:
  assumes "move_win d = Some i" "wins i = Some win"
  shows "same_move d (wm_round cfg wins ex ey (xwin win) s d)"
    "d_log (wm_round cfg wins ex ey (xwin win) s d) = d_log d \<Longrightarrow>
       drag_correction_x (wm_round cfg wins ex ey (xwin win) s d) = drag_correction_x d
       \<and> drag_correction_y (wm_round cfg wins ex ey (xwin win) s d) = drag_correction_y d"
    "d_log (wm_round cfg wins ex ey (xwin win) s d) \<noteq> d_log d \<Longrightarrow>
       drag_correction_x (wm_round cfg wins ex ey (xwin win) s d) = ex
       \<and> drag_correction_y (wm_round cfg wins ex ey (xwin win) s d) = ey"
proof -
  let ?u = "update_interactive_drag cfg wins (fst s) (snd s) d"
  note u = update_drag_frame[OF assms(1), of cfg wins "fst s" "snd s"]
  have m: "move_win ?u = Some i" using u(1) assms(1) by (simp add: same_move_def)
  have l: "drag_learn_correction wins (xwin win) cx cy ?u =
      ?u\<lparr>drag_correction_x := cx - drag_last_requested_x ?u,
         drag_correction_y := cy - drag_last_requested_y ?u\<rparr>" for cx cy
    by (simp add: drag_learn_correction_def m dragged_win_def assms(2))
  show "same_move d (wm_round cfg wins ex ey (xwin win) s d)"
    "d_log (wm_round cfg wins ex ey (xwin win) s d) = d_log d \<Longrightarrow>
       drag_correction_x (wm_round cfg wins ex ey (xwin win) s d) = drag_correction_x d
       \<and> drag_correction_y (wm_round cfg wins ex ey (xwin win) s d) = drag_correction_y d"
    "d_log (wm_round cfg wins ex ey (xwin win) s d) \<noteq> d_log d \<Longrightarrow>
       drag_correction_x (wm_round cfg wins ex ey (xwin win) s d) = ex
       \<and> drag_correction_y (wm_round cfg wins ex ey (xwin win) s d) = ey"
    using u by (auto simp: wm_round_def Let_def l same_move_def split: if_splits)
qed

lemma wm_rounds_frame:
  assumes "move_win d = Some i" "wins i = Some win"
  shows "same_move d (wm_rounds cfg wins ex ey (xwin win) ss d)
    \<and> (d_log (wm_rounds cfg wins ex ey (xwin win) ss d) \<noteq> d_log d
       \<or> drag_correction_x d = ex \<and> drag_correction_y d = ey \<longrightarrow>
       drag_correction_x (wm_rounds cfg wins ex ey (xwin win) ss d) = ex
       \<and> drag_correction_y (wm_rounds cfg wins ex ey (xwin win) ss d) = ey)"
  using assms(1)
proof (induction ss arbitrary: d)
  case Nil then show ?case by simp
next
  case (Cons s ss)
  let ?d = "wm_round cfg wins ex ey (xwin win) s d"
  note r = wm_round_frame[where wins = wins, OF Cons.prems assms(2), of cfg ex ey s]
  have "move_win ?d = Some i" using r(1) Cons.prems by (simp add: same_move_def)
  note ih = Cons.IH[OF this]
  have "same_move d (wm_rounds cfg wins ex ey (xwin win) (s # ss) d)"
    using same_move_trans[OF r(1) conjunct1[OF ih]] by simp
  moreover have "drag_correction_x ?d = ex \<and> drag_correction_y ?d = ey
      \<or> d_log ?d = d_log d \<and> \<not> (drag_correction_x d = ex \<and> drag_correction_y d = ey)"
    using r(2,3) by metis
  ultimately show ?case using ih by (auto simp only: wm_rounds.simps)
qed

lemma begin_move_eq:
  assumes "xwin win \<noteq> XCB_WINDOW_NONE" "query_window_root_position cfg env (xwin win) = Some (wx, wy)"
    "query_root_pointer_position cfg env = Some (px, py)"
  shows "begin_interactive_move cfg env win d =
     drag_reset wx wy (d\<lparr>move_win := Some (w_id win), move_offset_x := wx - px, move_offset_y := wy - py\<rparr>)"
  using assms
  by (simp add: begin_interactive_move_def outer_position_window_def configure_target_window_def
      ewmh_target_window_def Let_def)

text \<open>
  C17 (functional). In an interactive move the frame keeps its start offset to the pointer: with
  a window manager that misplaces frames by any constant offset, once one request has been
  answered every further request puts the frame exactly at its start position plus the way the
  pointer has gone, whatever the samples, throttled or not, in between.
\<close>

theorem moved_window_follows_pointer:
  assumes "xwin win \<noteq> XCB_WINDOW_NONE" "wins (w_id win) = Some win"
    and "query_window_root_position cfg env0 (xwin win) = Some (wx, wy)"
    and "query_root_pointer_position cfg env0 = Some (px0, py0)"
    and "d0 = begin_interactive_move cfg env0 win d"
    and "d1 = wm_rounds cfg wins ex ey (xwin win) samples d0" "d_log d1 \<noteq> d_log d0"
    and "query_root_pointer_position cfg env = Some (px, py)"
    and "drag_throttle_ready now d1 = (True, d2)"
  shows "\<exists>x y. d_log (update_interactive_drag cfg wins now env d1) =
                  d_log d1 @ [ConfigurePos (configure_target_window win) x y]
               \<and> x + ex = wx + (px - px0) \<and> y + ey = wy + (py - py0)"
proof -
  note d0 = begin_move_eq[OF assms(1,3,4), of d, folded assms(5)]
  have m0: "move_win d0 = Some (w_id win)" unfolding d0 by (simp add: drag_reset_def)
  have r: "same_move d0 d1" "drag_correction_x d1 = ex" "drag_correction_y d1 = ey"
    using wm_rounds_frame[where wins = wins, OF m0 assms(2), of cfg ex ey samples] assms(6,7) by simp_all
  have o: "move_win d1 = Some (w_id win)" "move_offset_x d1 = wx - px0" "move_offset_y d1 = wy - py0"
    using r(1) by (simp_all add: same_move_def d0 drag_reset_def)
  have d2: "d2 = d1\<lparr>drag_last_send_at := now\<rparr>"
    using assms(9) by (simp add: drag_throttle_ready_def split: if_splits)
  have t: "configure_target_window win \<noteq> XCB_WINDOW_NONE"
    using assms(1) by (simp add: configure_target_window_def ewmh_target_window_def)
  have a: "drag_active d1" using o(1) by (simp add: drag_active_def)
  have w: "dragged_win wins d2 = Some win" by (simp add: d2 dragged_win_def o assms(2))
  have "update_interactive_drag cfg wins now env d1 =
      drag_move_request (configure_target_window win) px py d2"
    unfolding update_drag_ready[OF a assms(9)] assms(8) w by (simp add: drag_request_def t d2 o)
  then have "d_log (update_interactive_drag cfg wins now env d1) = d_log d1 @
      [ConfigurePos (configure_target_window win) (px + (wx - px0) - ex) (py + (wy - py0) - ey)]"
    using r o by (simp add: drag_request_log(1) d2)
  then show ?thesis by (intro exI conjI) (assumption, simp_all)
qed

section \<open>Resizing\<close>

definition drag_edges :: "drag_state \<Rightarrow> bool \<times> bool" where
  "drag_edges d = (edge_set (resize_edges d) WLR_EDGE_LEFT, edge_set (resize_edges d) WLR_EDGE_TOP)"

lemma update_resize_eq:
  assumes "move_win d = None" "resize_win d = Some i" "wins i = Some win"
    "configure_target_window win \<noteq> XCB_WINDOW_NONE" "drag_throttle_ready now d = (True, d1)"
    "query_root_pointer_position cfg env = Some (px, py)"
  shows "update_interactive_drag cfg wins now env d =
           drag_resize_request (configure_target_window win) px py (d\<lparr>drag_last_send_at := now\<rparr>)"
proof -
  have d1: "d1 = d\<lparr>drag_last_send_at := now\<rparr>"
    using assms(5) by (simp add: drag_throttle_ready_def split: if_splits)
  have "drag_active d" "dragged_win wins d1 = Some win"
    using assms(1-3) by (simp_all add: drag_active_def d1 dragged_win_def)
  with assms show ?thesis by (simp add: update_drag_ready drag_request_def d1)
qed

lemma drag_resize_request_eq:
  "d_log (drag_resize_request t px py d) = d_log d @
     [ConfigurePosSize t
       (fst (resize_axis (edge_set (resize_edges d) WLR_EDGE_LEFT)
          (edge_set (resize_edges d) WLR_EDGE_RIGHT) (resize_start_x d) (resize_start_w d)
          (px - resize_start_pointer_x d)) - drag_correction_x d)
       (fst (resize_axis (edge_set (resize_edges d) WLR_EDGE_TOP)
          (edge_set (resize_edges d) WLR_EDGE_BOTTOM) (resize_start_y d) (resize_start_h d)
          (py - resize_start_pointer_y d)) - drag_correction_y d)
       (snd (resize_axis (edge_set (resize_edges d) WLR_EDGE_LEFT)
          (edge_set (resize_edges d) WLR_EDGE_RIGHT) (resize_start_x d) (resize_start_w d)
          (px - resize_start_pointer_x d)))
       (snd (resize_axis (edge_set (resize_edges d) WLR_EDGE_TOP)
          (edge_set (resize_edges d) WLR_EDGE_BOTTOM) (resize_start_y d) (resize_start_h d)
          (py - resize_start_pointer_y d)))]"
  by (simp add: drag_resize_request_def Let_def split: prod.splits)

text \<open>What a resize request may do along one axis: \<open>p\<close> and \<open>n\<close> are requested, \<open>pos\<close> and \<open>len\<close>
  were there when the drag began.\<close>

definition axis_anchored :: "bool \<Rightarrow> int \<Rightarrow> int \<Rightarrow> int \<Rightarrow> int \<Rightarrow> bool" where
  "axis_anchored low pos len p n \<longleftrightarrow> WLX_MIN_WINDOW_SIZE \<le> n
     \<and> (\<not> low \<longrightarrow> p = pos) \<and> (low \<and> WLX_MIN_WINDOW_SIZE < n \<longrightarrow> p + n = pos + len)"

lemma resize_axis_anchored:
  "axis_anchored low pos len (fst (resize_axis low high pos len delta)) (snd (resize_axis low high pos len delta))"
  using resize_axis_min[of low high pos len delta] resize_axis_low[of high pos len delta]
  by (cases low) (auto simp: axis_anchored_def resize_axis_high)

text \<open>
  C21 (functional). Every request of an interactive resize asks for at least 50 by 50 and keeps the
  edge opposite the dragged one where it was when the drag began, up to the learned correction:
  the left or top edge when the right or bottom is dragged, the right or bottom edge when the left
  or top is dragged and the size is above the minimum.
\<close>

theorem resize_keeps_opposite_edge:
  assumes "move_win d = None" "resize_win d = Some i" "wins i = Some win"
    "configure_target_window win \<noteq> XCB_WINDOW_NONE" "drag_throttle_ready now d = (True, d1)"
    "query_root_pointer_position cfg env = Some (px, py)"
  shows "\<exists>x y w h. d_log (update_interactive_drag cfg wins now env d) =
                      d_log d @ [ConfigurePosSize (configure_target_window win) x y w h]
     \<and> axis_anchored (fst (drag_edges d)) (resize_start_x d) (resize_start_w d) (x + drag_correction_x d) w
     \<and> axis_anchored (snd (drag_edges d)) (resize_start_y d) (resize_start_h d) (y + drag_correction_y d) h"
  unfolding update_resize_eq[where wins = wins, OF assms]
  by (intro exI conjI, simp only: drag_resize_request_eq, simp)
    (simp_all add: drag_edges_def resize_axis_anchored)

text \<open>
  When the left edge is dragged past the point where the window would be narrower than
  50 pixels, the requested width stays at 50 but the requested position keeps following the
  pointer: the window slides and its right edge leaves the place it had when the drag began.
\<close>

theorem clamped_left_edge_slides:
  assumes "move_win d = None" "resize_win d = Some i" "wins i = Some win"
    "configure_target_window win \<noteq> XCB_WINDOW_NONE" "drag_throttle_ready now d = (True, d1)"
    "query_root_pointer_position cfg env = Some (px, py)"
    "fst (drag_edges d)" "resize_start_w d - WLX_MIN_WINDOW_SIZE < px - resize_start_pointer_x d"
  shows "\<exists>x y h. d_log (update_interactive_drag cfg wins now env d) =
      d_log d @ [ConfigurePosSize (configure_target_window win) x y WLX_MIN_WINDOW_SIZE h]
    \<and> x = resize_start_x d + (px - resize_start_pointer_x d) - drag_correction_x d
    \<and> resize_start_x d + resize_start_w d - drag_correction_x d < x + WLX_MIN_WINDOW_SIZE"
proof -
  have c: "resize_axis (edge_set (resize_edges d) WLR_EDGE_LEFT) high (resize_start_x d)
      (resize_start_w d) (px - resize_start_pointer_x d) =
      (resize_start_x d + (px - resize_start_pointer_x d), WLX_MIN_WINDOW_SIZE)" for high
    using assms(7) resize_axis_clamped[OF assms(8)] by (simp add: drag_edges_def)
  show ?thesis unfolding update_resize_eq[where wins = wins, OF assms(1-6)]
    using assms(8) by (intro exI conjI, simp only: drag_resize_request_eq, simp add: c) simp_all
qed

section \<open>How often requests are sent\<close>

text \<open>Events that do not start a drag.\<close>

fun drag_goes_on :: "drag_event \<Rightarrow> bool" where
  "drag_goes_on (BeginMove _ _) = False"
| "drag_goes_on (BeginResize _ _ _) = False"
| "drag_goes_on _ = True"

lemma drag_quiet_frame:
  "d_log (drag_learn_correction wins x cx cy d) = d_log d"
  "drag_last_send_at (drag_learn_correction wins x cx cy d) = drag_last_send_at d"
  "drag_active (drag_learn_correction wins x cx cy d) = drag_active d"
  "d_log (drag_release d) = d_log d" "drag_last_send_at (drag_release d) = drag_last_send_at d"
  "\<not> drag_active (drag_release d)"
  "d_log (drag_forget j d) = d_log d" "drag_last_send_at (drag_forget j d) = drag_last_send_at d"
  "drag_active (drag_forget j d) \<Longrightarrow> drag_active d"
  by (auto simp: drag_learn_correction_def drag_release_def drag_forget_def drag_active_def Let_def
      split: option.splits if_splits)

lemma drag_step_clock:
  assumes "drag_goes_on e"
  shows "length (d_log d) \<le> length (d_log (drag_step cfg wins e d))
    \<and> int (length (d_log (drag_step cfg wins e d)) - length (d_log d)) * 15000000
        \<le> nsec_of (drag_last_send_at (drag_step cfg wins e d)) - nsec_of (drag_last_send_at d)"
proof (cases e)
  case (DragMotion now env)
  show ?thesis
    by (cases rule: update_drag_cases[of cfg wins now env d]) (auto simp: DragMotion)
qed (use assms in \<open>simp_all add: drag_quiet_frame\<close>)

text \<open>
  Within a drag the host gets at most one request per 15 milliseconds: in any run of
  motions, notifies, releases and closing windows, \<open>n\<close> new requests move the time of the last one
  by at least \<open>n\<close> times 15 ms. (15 and not the 16 of \<open>WLX_DRAG_THROTTLE_MS\<close>, because the
  nanoseconds are divided towards zero.)
\<close>

theorem drag_requests_are_throttled:
  assumes "list_all drag_goes_on es"
  shows "length (d_log d) \<le> length (d_log (drag_run cfg wins es d))
    \<and> int (length (d_log (drag_run cfg wins es d)) - length (d_log d)) * 15000000
        \<le> nsec_of (drag_last_send_at (drag_run cfg wins es d)) - nsec_of (drag_last_send_at d)"
  using assms
proof (induction es arbitrary: d)
  case Nil then show ?case by simp
next
  case (Cons e es)
  then have "drag_goes_on e" "list_all drag_goes_on es" by simp_all
  from drag_step_clock[OF this(1), of d cfg wins] Cons.IH[OF this(2), of "drag_step cfg wins e d"]
  show ?case by (auto simp: of_nat_diff)
qed

lemma idle_drag_run:
  assumes "list_all drag_goes_on es" "\<not> drag_active d"
  shows "d_log (drag_run cfg wins es d) = d_log d"
  using assms
proof (induction es arbitrary: d)
  case Nil then show ?case by simp
next
  case (Cons e es)
  have "d_log (drag_step cfg wins e d) = d_log d \<and> \<not> drag_active (drag_step cfg wins e d)"
  proof (cases e)
    case (DragMotion now env)
    with Cons.prems show ?thesis by (simp add: drag_active_def update_interactive_drag_def)
  qed (use Cons.prems in \<open>auto simp: drag_quiet_frame\<close>)
  with Cons show ?case by simp
qed

definition only_drags :: "wid \<Rightarrow> drag_state \<Rightarrow> bool" where
  "only_drags i d \<longleftrightarrow> move_win d \<in> {None, Some i} \<and> resize_win d \<in> {None, Some i}"

text \<open>
  After the button is up, or after the window that was dragged is gone, no request is
  sent any more until a client starts a drag again, whatever the pointer does and whatever the host
  reports.
\<close>

theorem no_request_after_drag:
  assumes "list_all drag_goes_on es"
  shows "d_log (drag_run cfg wins (ButtonUp # es) d) = d_log d
    \<and> (only_drags i d \<longrightarrow> d_log (drag_run cfg wins (WindowGone i # es) d) = d_log d)"
proof -
  have "\<not> drag_active (drag_forget i d)" if "only_drags i d"
    using that by (auto simp: only_drags_def drag_active_def drag_forget_def Let_def)
  then show ?thesis using assms by (simp add: idle_drag_run drag_quiet_frame)
qed

end
