(* ===== verification/Text_Buffer.thy ===== *)
theory Text_Buffer
  imports Wlx_Types
begin

text \<open>
  The growing buffer two readers of the compositor collect pipe data in
  (\<open>clipboard_read_fd\<close>, \<open>src/clipboard.c\<close>, lines 130 to 151; \<open>dnd_out_begin_from_source\<close>,
  \<open>src/dnd.c\<close>, lines 455 to 478), modelled with its memory: a buffer is the bytes that are
  allocated, a write outside of it has no result. The contract both rest on is the locale
  \<open>append_buffer\<close>; what a reader of any such buffer collects is proved there once.
\<close>

type_synonym byte = "8 word"

section \<open>Memory\<close>

text \<open>What the allocator does during a run: which sizes it grants and what fresh bytes hold.\<close>

record heap_env =
  realloc_ok :: "nat \<Rightarrow> bool"
  malloc_ok :: "nat \<Rightarrow> bool"
  junk :: "nat \<Rightarrow> byte"

definition mem_realloc :: "heap_env \<Rightarrow> byte list option \<Rightarrow> nat \<Rightarrow> byte list option" where
  "mem_realloc he buf n =
     (let old = (case buf of None \<Rightarrow> [] | Some b \<Rightarrow> b)
      in if realloc_ok he n then Some (take n old @ map (junk he) [length old..<n]) else None)"

definition mem_write :: "nat \<Rightarrow> byte list \<Rightarrow> byte list \<Rightarrow> byte list option" where
  "mem_write i xs b =
     (if i + length xs \<le> length b then Some (take i b @ xs @ drop (i + length xs) b) else None)"

section \<open>Growing\<close>

text \<open>\<open>while (ncap < need) ncap *= 2\<close>; it does not end from 0, so its result is an option.\<close>

partial_function (option) grow_cap :: "nat \<Rightarrow> nat \<Rightarrow> nat option" where
  "grow_cap ncap need = (if ncap < need then grow_cap (ncap * 2) need else Some ncap)"

lemma grow_cap_returns:
  "0 < ncap \<Longrightarrow> \<exists>c. grow_cap ncap need = Some c \<and> need \<le> c \<and> ncap \<le> c \<and> c \<le> max ncap (2 * need)"
proof (induction "need - ncap" arbitrary: ncap rule: less_induct)
  case less
  show ?case
  proof (cases "ncap < need")
    case True
    with less.prems have "need - ncap * 2 < need - ncap" "0 < ncap * 2" by simp_all
    from less.hyps[OF this] obtain c where c: "grow_cap (ncap * 2) need = Some c" "need \<le> c"
      "ncap * 2 \<le> c" "c \<le> max (ncap * 2) (2 * need)" by blast
    moreover from c(1) True have "grow_cap ncap need = Some c" by (simp add: grow_cap.simps)
    ultimately show ?thesis using True by auto
  next
    case False
    then show ?thesis by (auto simp: grow_cap.simps)
  qed
qed

lemma next_cap:
  obtains c where "grow_cap (if cap \<noteq> 0 then cap * 2 else 4096) need = Some c"
    "need \<le> c" "(if cap \<noteq> 0 then cap * 2 else 4096) \<le> c"
  using grow_cap_returns[of "if cap \<noteq> 0 then cap * 2 else 4096" need] by (cases "cap = 0") auto

section \<open>The buffer\<close>

record text_buf =
  tb_buf :: "byte list option"
  tb_len :: nat
  tb_cap :: nat

definition tb_empty :: text_buf where
  "tb_empty = \<lparr>tb_buf = None, tb_len = 0, tb_cap = 0\<rparr>"

text \<open>How an append ends.\<close>

datatype append_result = Appended text_buf | TooLong | NoMemory | BadWrite | NoReturn

text \<open>Growing when the chunk and its terminator do not fit.\<close>

definition clip_reserve :: "heap_env \<Rightarrow> nat \<Rightarrow> text_buf \<Rightarrow> append_result" where
  "clip_reserve he n tb =
     (if tb_cap tb < tb_len tb + n + 1 then
        (case grow_cap (if tb_cap tb \<noteq> 0 then tb_cap tb * 2 else 4096) (tb_len tb + n + 1) of
           None \<Rightarrow> NoReturn
         | Some ncap \<Rightarrow> (case mem_realloc he (tb_buf tb) ncap of
               None \<Rightarrow> NoMemory
             | Some nbuf \<Rightarrow> Appended (tb\<lparr>tb_buf := Some nbuf, tb_cap := ncap\<rparr>)))
      else Appended tb)"

text \<open>The copy and the terminating zero.\<close>

definition clip_copy :: "byte list \<Rightarrow> text_buf \<Rightarrow> append_result" where
  "clip_copy tmp tb =
     (case Option.bind (tb_buf tb) (mem_write (tb_len tb) tmp) of
        None \<Rightarrow> BadWrite
      | Some b \<Rightarrow> (case mem_write (tb_len tb + length tmp) [0] b of
            None \<Rightarrow> BadWrite
          | Some b' \<Rightarrow> Appended (tb\<lparr>tb_buf := Some b', tb_len := tb_len tb + length tmp\<rparr>)))"

definition clip_append :: "heap_env \<Rightarrow> byte list \<Rightarrow> text_buf \<Rightarrow> append_result" where
  "clip_append he tmp tb =
     (if WLX_CLIPBOARD_MAX < tb_len tb + length tmp then TooLong
      else case clip_reserve he (length tmp) tb of Appended tb1 \<Rightarrow> clip_copy tmp tb1 | r \<Rightarrow> r)"

text \<open>The same steps as \<open>dnd_out_begin_from_source\<close> has them on its local variables.\<close>

definition dnd_append :: "heap_env \<Rightarrow> byte list \<Rightarrow> text_buf \<Rightarrow> append_result" where
  "dnd_append he tmp tb =
     (let n = length tmp; len = tb_len tb; cap = tb_cap tb
      in if WLX_CLIPBOARD_MAX < len + n then TooLong
         else case (if cap < len + n + 1 then
                      (case grow_cap (if cap \<noteq> 0 then cap * 2 else 4096) (len + n + 1) of
                         None \<Rightarrow> NoReturn
                       | Some ncap \<Rightarrow> (case mem_realloc he (tb_buf tb) ncap of
                             None \<Rightarrow> NoMemory
                           | Some nbuf \<Rightarrow> Appended \<lparr>tb_buf = Some nbuf, tb_len = len, tb_cap = ncap\<rparr>))
                    else Appended tb) of
           Appended tb1 \<Rightarrow> (case Option.bind (tb_buf tb1) (mem_write len tmp) of
               None \<Rightarrow> BadWrite
             | Some b \<Rightarrow> (case mem_write (len + n) [0] b of
                   None \<Rightarrow> BadWrite
                 | Some b' \<Rightarrow> Appended \<lparr>tb_buf = Some b', tb_len = len + n, tb_cap = tb_cap tb1\<rparr>))
         | r \<Rightarrow> r)"

section \<open>Invariant\<close>

text \<open>The buffer is allocated exactly when the capacity says so, and holds the text and a zero.\<close>

definition tb_ok :: "text_buf \<Rightarrow> bool" where
  "tb_ok tb \<longleftrightarrow> tb_len tb \<le> WLX_CLIPBOARD_MAX \<and>
     (case tb_buf tb of
        None \<Rightarrow> tb_cap tb = 0 \<and> tb_len tb = 0
      | Some b \<Rightarrow> length b = tb_cap tb \<and> tb_len tb < tb_cap tb \<and> b ! tb_len tb = 0)"

definition tb_text :: "text_buf \<Rightarrow> byte list" where
  "tb_text tb = (case tb_buf tb of None \<Rightarrow> [] | Some b \<Rightarrow> take (tb_len tb) b)"

lemma tb_empty_ok [simp]: "tb_ok tb_empty" "tb_text tb_empty = []" "tb_len tb_empty = 0"
  by (simp_all add: tb_ok_def tb_empty_def tb_text_def)

lemma tb_text_length: "tb_ok tb \<Longrightarrow> length (tb_text tb) = tb_len tb"
  by (auto simp: tb_ok_def tb_text_def split: option.splits)

lemma mem_realloc_spec:
  assumes "mem_realloc he buf n = Some b" "length (case buf of None \<Rightarrow> [] | Some a \<Rightarrow> a) \<le> n"
  shows "length b = n" "take (length (case buf of None \<Rightarrow> [] | Some a \<Rightarrow> a)) b = (case buf of None \<Rightarrow> [] | Some a \<Rightarrow> a)"
  using assms by (auto simp: mem_realloc_def Let_def split: if_splits option.splits)

lemma clip_reserve_spec:
  assumes "tb_ok tb" "clip_reserve he n tb = Appended tb1"
  shows "\<exists>b. tb_buf tb1 = Some b \<and> length b = tb_cap tb1 \<and> tb_len tb1 = tb_len tb
      \<and> tb_len tb + n < tb_cap tb1 \<and> take (tb_len tb) b = tb_text tb"
proof (cases "tb_cap tb < tb_len tb + n + 1")
  case False
  with assms show ?thesis
    by (cases "tb_buf tb") (auto simp: clip_reserve_def tb_ok_def tb_text_def)
next
  case True
  let ?old = "case tb_buf tb of None \<Rightarrow> [] | Some a \<Rightarrow> a"
  obtain ncap where g: "grow_cap (if tb_cap tb \<noteq> 0 then tb_cap tb * 2 else 4096) (tb_len tb + n + 1) = Some ncap"
      "tb_len tb + n + 1 \<le> ncap" "(if tb_cap tb \<noteq> 0 then tb_cap tb * 2 else 4096) \<le> ncap"
    by (rule next_cap)
  with assms(2) True obtain b where b: "mem_realloc he (tb_buf tb) ncap = Some b"
      and tb1: "tb1 = tb\<lparr>tb_buf := Some b, tb_cap := ncap\<rparr>"
    by (auto simp: clip_reserve_def split: option.splits)
  have "length ?old \<le> ncap" using assms(1) g(3)
    by (cases "tb_buf tb") (auto simp: tb_ok_def split: if_splits)
  from mem_realloc_spec[OF b this] have r: "length b = ncap" "take (length ?old) b = ?old" by simp_all
  have "tb_len tb \<le> length ?old" using assms(1) by (cases "tb_buf tb") (auto simp: tb_ok_def)
  then have "take (tb_len tb) b = take (tb_len tb) (take (length ?old) b)" by (simp only: take_take min.absorb1)
  also have "\<dots> = tb_text tb" unfolding r(2)
    using assms(1) by (cases "tb_buf tb") (simp_all add: tb_text_def tb_ok_def)
  finally show ?thesis using r(1) g(2) tb1 by simp
qed

lemma clip_reserve_cases:
  obtains (room) tb1 where "clip_reserve he n tb = Appended tb1"
  | (full) k where "clip_reserve he n tb = NoMemory" "\<not> realloc_ok he k"
proof -
  obtain c where g: "grow_cap (if tb_cap tb \<noteq> 0 then tb_cap tb * 2 else 4096) (tb_len tb + n + 1) = Some c"
    by (rule next_cap)
  show ?thesis
  proof (cases "tb_cap tb < tb_len tb + n + 1")
    case False
    show ?thesis by (rule room[of tb]) (simp only: clip_reserve_def False if_False)
  next
    case True
    then have r: "clip_reserve he n tb = (case mem_realloc he (tb_buf tb) c of
        None \<Rightarrow> NoMemory | Some nbuf \<Rightarrow> Appended (tb\<lparr>tb_buf := Some nbuf, tb_cap := c\<rparr>))"
      by (simp only: clip_reserve_def g if_True option.case)
    show ?thesis
    proof (cases "realloc_ok he c")
      case True
      show ?thesis by (rule room) (simp only: r mem_realloc_def True Let_def if_True option.case)
    next
      case False
      show ?thesis by (rule full[of c]) (simp_all only: r mem_realloc_def False Let_def if_False option.case not_False_eq_True)
    qed
  qed
qed

lemma clip_copy_spec:
  assumes "tb_buf tb = Some b" "length b = tb_cap tb" "tb_len tb + length tmp < tb_cap tb"
    "tb_len tb + length tmp \<le> WLX_CLIPBOARD_MAX"
  shows "\<exists>tb'. clip_copy tmp tb = Appended tb' \<and> tb_ok tb'
      \<and> tb_text tb' = take (tb_len tb) b @ tmp \<and> tb_len tb' = tb_len tb + length tmp"
  using assms by (auto simp: clip_copy_def mem_write_def tb_ok_def tb_text_def nth_append min_def)

lemma clip_append_spec:
  assumes "tb_ok tb"
  shows "case clip_append he tmp tb of
      Appended tb' \<Rightarrow> tb_ok tb' \<and> tb_text tb' = tb_text tb @ tmp
    | TooLong \<Rightarrow> WLX_CLIPBOARD_MAX < length (tb_text tb) + length tmp
    | NoMemory \<Rightarrow> \<exists>n. \<not> realloc_ok he n
    | _ \<Rightarrow> False"
proof -
  have l: "length (tb_text tb) = tb_len tb" using assms by (rule tb_text_length)
  show ?thesis
  proof (cases "WLX_CLIPBOARD_MAX < tb_len tb + length tmp")
    case True then show ?thesis by (simp add: clip_append_def l)
  next
    case fits: False
    show ?thesis
    proof (cases rule: clip_reserve_cases[of he "length tmp" tb])
      case (room tb1)
      obtain b where b: "tb_buf tb1 = Some b" "length b = tb_cap tb1" "tb_len tb1 = tb_len tb"
          "tb_len tb + length tmp < tb_cap tb1" "take (tb_len tb) b = tb_text tb"
        using clip_reserve_spec[OF assms room] by blast
      have "tb_len tb1 + length tmp < tb_cap tb1" "tb_len tb1 + length tmp \<le> WLX_CLIPBOARD_MAX"
        using b fits by simp_all
      from clip_copy_spec[OF b(1,2) this] fits room b show ?thesis by (auto simp: clip_append_def)
    next
      case (full k) with fits show ?thesis by (auto simp: clip_append_def)
    qed
  qed
qed

lemma dnd_append_eq: "dnd_append he tmp tb = clip_append he tmp tb"
proof (cases "tb_cap tb < tb_len tb + length tmp + 1")
  case True
  obtain c where g: "grow_cap (if tb_cap tb \<noteq> 0 then tb_cap tb * 2 else 4096) (tb_len tb + length tmp + 1) = Some c"
    by (rule next_cap)
  obtain b0 l0 c0 where tb: "tb = \<lparr>tb_buf = b0, tb_len = l0, tb_cap = c0\<rparr>" by (cases tb)
  show ?thesis
    by (cases "mem_realloc he (tb_buf tb) c")
      (simp_all only: dnd_append_def clip_append_def clip_reserve_def Let_def True g if_True
        option.case append_result.case, simp_all add: clip_copy_def tb split: option.split)
next
  case False
  obtain b0 l0 c0 where tb: "tb = \<lparr>tb_buf = b0, tb_len = l0, tb_cap = c0\<rparr>" by (cases tb)
  from False show ?thesis
    by (simp only: dnd_append_def clip_append_def clip_reserve_def Let_def if_False append_result.case)
      (simp add: clip_copy_def tb split: option.split)
qed

section \<open>Contract\<close>

text \<open>
  \<open>put\<close> appends a chunk or says why it does not; \<open>text\<close> is what has been collected. \<open>collect\<close>
  is a whole transfer: chunk after chunk until the first refusal.
\<close>

fun collect ::
  "(byte list \<Rightarrow> text_buf \<Rightarrow> append_result) \<Rightarrow> byte list list \<Rightarrow> text_buf \<Rightarrow> text_buf option" where
  "collect put [] b = Some b"
| "collect put (c # cs) b = (case put c b of Appended b' \<Rightarrow> collect put cs b' | _ \<Rightarrow> None)"

locale append_buffer =
  fixes put :: "byte list \<Rightarrow> text_buf \<Rightarrow> append_result"
    and text_of :: "text_buf \<Rightarrow> byte list"
    and valid :: "text_buf \<Rightarrow> bool"
    and limit :: nat
  assumes put_text: "valid b \<Longrightarrow> put c b = Appended b' \<Longrightarrow> valid b' \<and> text_of b' = text_of b @ c"
    and put_fits: "valid b \<Longrightarrow> length (text_of b) + length c \<le> limit \<Longrightarrow> \<exists>b'. put c b = Appended b'"
    and put_long: "valid b \<Longrightarrow> limit < length (text_of b) + length c \<Longrightarrow> put c b = TooLong"
begin

text \<open>A transfer that fits is collected whole and in order; one that does not is refused.\<close>

lemma collect_fits:
  "valid b \<Longrightarrow> length (text_of b) + length (concat cs) \<le> limit \<Longrightarrow>
     \<exists>b'. collect put cs b = Some b' \<and> valid b' \<and> text_of b' = text_of b @ concat cs"
proof (induction cs arbitrary: b)
  case Nil then show ?case by simp
next
  case (Cons c cs)
  obtain b' where b': "put c b = Appended b'" using put_fits[of b c] Cons.prems by auto
  with put_text[OF Cons.prems(1) b'] Cons.IH[of b'] Cons.prems(2) show ?case by simp
qed

lemma collect_too_long:
  "valid b \<Longrightarrow> length (text_of b) \<le> limit \<Longrightarrow> limit < length (text_of b) + length (concat cs) \<Longrightarrow>
     collect put cs b = None"
proof (induction cs arbitrary: b)
  case Nil then show ?case by simp
next
  case (Cons c cs)
  show ?case
  proof (cases "limit < length (text_of b) + length c")
    case True with Cons.prems put_long show ?thesis by simp
  next
    case False
    then obtain b' where b': "put c b = Appended b'" using put_fits[of b c] Cons.prems by auto
    with put_text[OF Cons.prems(1) b'] Cons.IH[of b'] Cons.prems False show ?thesis by simp
  qed
qed

end

text \<open>An allocator that always has memory.\<close>

definition heap_total :: "heap_env \<Rightarrow> bool" where
  "heap_total he \<longleftrightarrow> (\<forall>n. realloc_ok he n \<and> malloc_ok he n)"

lemma clip_append_total:
  assumes "tb_ok tb" "heap_total he"
  shows "clip_append he c tb = Appended tb' \<Longrightarrow> tb_ok tb' \<and> tb_text tb' = tb_text tb @ c"
    "length (tb_text tb) + length c \<le> WLX_CLIPBOARD_MAX \<Longrightarrow> \<exists>tb'. clip_append he c tb = Appended tb'"
    "WLX_CLIPBOARD_MAX < length (tb_text tb) + length c \<Longrightarrow> clip_append he c tb = TooLong"
  using clip_append_spec[OF assms(1), where he = he and tmp = c] assms(2) tb_text_length[OF assms(1)]
  by (auto simp: heap_total_def clip_append_def split: append_result.splits)

interpretation clip_reader: append_buffer "clip_append he" tb_text
    "\<lambda>tb. tb_ok tb \<and> heap_total he" WLX_CLIPBOARD_MAX for he
  by unfold_locales (auto simp: clip_append_total dest: clip_append_total(1))

interpretation drag_reader: append_buffer "dnd_append he" tb_text
    "\<lambda>tb. tb_ok tb \<and> heap_total he" WLX_CLIPBOARD_MAX for he
  by unfold_locales (auto simp: dnd_append_eq clip_append_total dest: clip_append_total(1))

end
