(* ===== verification/Clipboard.thy ===== *)
theory Clipboard
  imports Text_Buffer
begin

text \<open>
  The text bridge between Wayland selections and the X11 selections CLIPBOARD and PRIMARY
  (\<open>src/clipboard.c\<close>; the selection branches of \<open>handle_xcb_readable\<close>, \<open>src/x11.c\<close>, lines 868 to
  914). One \<open>sel_side\<close> per selection stands for the fields \<open>clip_*\<close> and \<open>pri_*\<close> of
  \<open>struct wlx_server\<close>, which the code picks by its argument \<open>primary\<close>. What pipes, the allocator and
  the X server answer while a handler runs is an environment record.
\<close>

section \<open>Data\<close>

record sel_cfg =
  s_have_xcb :: bool
  s_window :: xid \<comment> \<open>\<open>clipboard_window\<close>\<close>
  atom_clipboard :: atom
  atom_primary :: atom
  atom_targets :: atom
  atom_utf8_string :: atom
  atom_string :: atom
  atom_text :: atom
  atom_text_html :: atom
  atom_wlx_clipboard :: atom
  atom_wlx_primary :: atom
  atom_incr :: atom

datatype (plugins only: code size) sel_call =
    SetSelectionOwner xid atom
  | ChangeProperty xid atom atom "byte list"
  | ChangeAtoms xid atom "atom list"
  | SendSelectionNotify xid atom atom atom
  | ConvertSelection atom atom atom
  | DeleteProperty xid atom
  | SourceSend bool string int
  | SeatSetSelection bool
  | SeatForwardSelection bool bool
  | CloseFd int
  | WriteFd int "byte list"

record sel_env = heap_env +
  owner_reply :: "atom \<Rightarrow> xid option" \<comment> \<open>reply to \<open>get_selection_owner\<close>\<close>
  pipe_fds :: "(int \<times> int) option"
  add_fd_ok :: bool
  prop_reply :: "atom \<Rightarrow> (atom \<times> byte list) option" \<comment> \<open>type and value of our window's property\<close>
  calloc_ok :: bool
  mimes_ok :: bool \<comment> \<open>\<open>wl_array_add\<close> and \<open>strdup\<close> for the four types\<close>

record sel_side =
  out_text :: "byte list option"
  out_len :: nat
  we_own_x11 :: bool
  in_text :: "byte list option"
  in_len :: nat
  setting_from_x11 :: bool

record clip_state =
  clip :: sel_side
  pri :: sel_side
  clip_read_source :: bool
  clip_read_fd :: int
  clip_read :: text_buf \<comment> \<open>\<open>clip_read_buf\<close>, \<open>clip_read_len\<close>, \<open>clip_read_cap\<close>\<close>
  clip_read_is_primary :: bool
  c_log :: "sel_call list"

definition side :: "bool \<Rightarrow> clip_state \<Rightarrow> sel_side" where
  "side primary s = (if primary then pri s else clip s)"

definition set_side :: "bool \<Rightarrow> sel_side \<Rightarrow> clip_state \<Rightarrow> clip_state" where
  "set_side primary sd s = (if primary then s\<lparr>pri := sd\<rparr> else s\<lparr>clip := sd\<rparr>)"

definition say :: "sel_call list \<Rightarrow> clip_state \<Rightarrow> clip_state" where
  "say cs s = s\<lparr>c_log := c_log s @ cs\<rparr>"

definition sel_atom :: "'a sel_cfg_scheme \<Rightarrow> bool \<Rightarrow> atom" where
  "sel_atom cfg primary = (if primary then atom_primary cfg else atom_clipboard cfg)"

definition sel_prop :: "'a sel_cfg_scheme \<Rightarrow> bool \<Rightarrow> atom" where
  "sel_prop cfg primary = (if primary then atom_wlx_primary cfg else atom_wlx_clipboard cfg)"

lemma side_simps [simp]:
  "side p (set_side p sd s) = sd" "side p (set_side (\<not> p) sd s) = side p s"
  "side p (say cs s) = side p s" "side p (s\<lparr>clip_read_source := a\<rparr>) = side p s"
  "side p (s\<lparr>clip_read_fd := b\<rparr>) = side p s" "side p (s\<lparr>clip_read := c\<rparr>) = side p s"
  "side p (s\<lparr>clip_read_is_primary := d\<rparr>) = side p s"
  by (simp_all add: side_def set_side_def say_def)

lemma set_side_frame [simp]:
  "c_log (set_side p sd s) = c_log s" "clip_read (set_side p sd s) = clip_read s"
  "clip_read_source (set_side p sd s) = clip_read_source s"
  "clip_read_fd (set_side p sd s) = clip_read_fd s"
  "clip_read_is_primary (set_side p sd s) = clip_read_is_primary s"
  "c_log (say cs s) = c_log s @ cs" "clip_read (say cs s) = clip_read s"
  "clip_read_source (say cs s) = clip_read_source s" "clip_read_fd (say cs s) = clip_read_fd s"
  "clip_read_is_primary (say cs s) = clip_read_is_primary s"
  by (simp_all add: set_side_def say_def)

section \<open>Wayland to X11\<close>

definition clipboard_clear_read :: "clip_state \<Rightarrow> clip_state" where
  "clipboard_clear_read s =
     (let s1 = s\<lparr>clip_read_source := False\<rparr>;
          s2 = (if 0 \<le> clip_read_fd s1 then say [CloseFd (clip_read_fd s1)] (s1\<lparr>clip_read_fd := - 1\<rparr>)
                else s1)
      in s2\<lparr>clip_read := tb_empty\<rparr>)"

definition clipboard_set_x11_owner ::
  "'a sel_cfg_scheme \<Rightarrow> sel_env \<Rightarrow> byte list \<Rightarrow> bool \<Rightarrow> clip_state \<Rightarrow> clip_state" where
  "clipboard_set_x11_owner cfg env text primary s =
     (if \<not> s_have_xcb cfg \<or> s_window cfg = XCB_WINDOW_NONE then s
      else
        let freed = (side primary s)\<lparr>out_text := None, out_len := 0\<rparr>
        in if text \<noteq> [] \<and> \<not> malloc_ok env (length text + 1) then set_side primary freed s
           else
             let copied = (if text \<noteq> [] then freed\<lparr>out_text := Some (text @ [0]), out_len := length text\<rparr>
                           else freed)
             in say [SetSelectionOwner (s_window cfg) (sel_atom cfg primary)]
                  (set_side primary
                     (copied\<lparr>we_own_x11 := owner_reply env (sel_atom cfg primary) = Some (s_window cfg)\<rparr>) s))"

definition mime_prefs :: "string list" where
  "mime_prefs = [''text/plain;charset=utf-8'', ''text/plain'', ''text/html;charset=utf-8'', ''text/html'',
     ''TEXT'', ''STRING'', ''UTF8_STRING'']"

definition text_prefix :: "string \<Rightarrow> bool" where
  "text_prefix m \<longleftrightarrow> take 5 m = ''text/''"

definition clipboard_pick_mime :: "string list \<Rightarrow> string option" where
  "clipboard_pick_mime mimes =
     (case find (\<lambda>p. List.member mime_prefs p) mimes of
        Some p \<Rightarrow> Some p
      | None \<Rightarrow> find text_prefix mimes)"

definition primary_pick_mime :: "string list \<Rightarrow> string option" where
  "primary_pick_mime mimes =
     (case find (\<lambda>p. List.member mime_prefs p) mimes of
        Some p \<Rightarrow> Some p
      | None \<Rightarrow> find text_prefix mimes)"

text \<open>What one \<open>read\<close> of the pipe returns.\<close>

datatype read_result = ReadBytes "byte list" | ReadEof | ReadAgain | ReadError

definition publish_read :: "'a sel_cfg_scheme \<Rightarrow> sel_env \<Rightarrow> clip_state \<Rightarrow> clip_state" where
  "publish_read cfg env s =
     clipboard_clear_read
       (if 0 < tb_len (clip_read s) \<and> tb_buf (clip_read s) \<noteq> None
        then clipboard_set_x11_owner cfg env (tb_text (clip_read s)) (clip_read_is_primary s) s else s)"

text \<open>The loop over \<open>read\<close>: the results up to the one that ends it. No value is a write outside of
  the buffer or a loop that does not end.\<close>

fun clip_read_loop ::
  "'a sel_cfg_scheme \<Rightarrow> sel_env \<Rightarrow> read_result list \<Rightarrow> clip_state \<Rightarrow> clip_state option" where
  "clip_read_loop cfg env [] s = Some s"
| "clip_read_loop cfg env (ReadAgain # rs) s = Some s"
| "clip_read_loop cfg env (ReadError # rs) s = Some (clipboard_clear_read s)"
| "clip_read_loop cfg env (ReadEof # rs) s = Some (publish_read cfg env s)"
| "clip_read_loop cfg env (ReadBytes tmp # rs) s =
     (case clip_append (heap_env.truncate env) tmp (clip_read s) of
        Appended tb \<Rightarrow> clip_read_loop cfg env rs (s\<lparr>clip_read := tb\<rparr>)
      | TooLong \<Rightarrow> Some (clipboard_clear_read s)
      | NoMemory \<Rightarrow> Some (clipboard_clear_read s)
      | _ \<Rightarrow> None)"

definition clipboard_read_fd ::
  "'a sel_cfg_scheme \<Rightarrow> sel_env \<Rightarrow> bool \<Rightarrow> bool \<Rightarrow> read_result list \<Rightarrow> clip_state \<Rightarrow> clip_state option" where
  "clipboard_read_fd cfg env hangup readable rs s =
     (if hangup then Some (publish_read cfg env s)
      else if \<not> readable then Some s
      else clip_read_loop cfg env rs s)"

definition clipboard_export_wayland_source ::
  "'a sel_cfg_scheme \<Rightarrow> sel_env \<Rightarrow> string list \<Rightarrow> clip_state \<Rightarrow> clip_state" where
  "clipboard_export_wayland_source cfg env mimes s =
     (if \<not> s_have_xcb cfg then s
      else case clipboard_pick_mime mimes of
          None \<Rightarrow> s
        | Some mime \<Rightarrow>
            let s1 = (clipboard_clear_read s)\<lparr>clip_read_is_primary := False\<rparr>
            in case pipe_fds env of
                 None \<Rightarrow> s1
               | Some (r, w) \<Rightarrow>
                   if \<not> add_fd_ok env then say [CloseFd r, CloseFd w] (s1\<lparr>clip_read_fd := - 1\<rparr>)
                   else say [SourceSend False mime w, CloseFd w]
                          (s1\<lparr>clip_read_fd := r, clip_read_source := True\<rparr>))"

definition primary_export_wayland_source ::
  "'a sel_cfg_scheme \<Rightarrow> sel_env \<Rightarrow> string list \<Rightarrow> clip_state \<Rightarrow> clip_state" where
  "primary_export_wayland_source cfg env mimes s =
     (if \<not> s_have_xcb cfg then s
      else case primary_pick_mime mimes of
          None \<Rightarrow> s
        | Some mime \<Rightarrow>
            let s1 = (clipboard_clear_read s)\<lparr>clip_read_is_primary := True\<rparr>
            in case pipe_fds env of
                 None \<Rightarrow> s1
               | Some (r, w) \<Rightarrow>
                   if \<not> add_fd_ok env then say [CloseFd r, CloseFd w] (s1\<lparr>clip_read_fd := - 1\<rparr>)
                   else say [SourceSend True mime w, CloseFd w]
                          (s1\<lparr>clip_read_fd := r, clip_read_source := True\<rparr>))"

text \<open>The seat's requests: the selection is handed on to the seat, then exported.\<close>

definition server_request_set_selection ::
  "'a sel_cfg_scheme \<Rightarrow> sel_env \<Rightarrow> string list option \<Rightarrow> clip_state \<Rightarrow> clip_state" where
  "server_request_set_selection cfg env source s =
     (let s1 = say [SeatForwardSelection False (source \<noteq> None)] s
      in if \<not> setting_from_x11 (clip s1)
         then (case source of None \<Rightarrow> s1 | Some mimes \<Rightarrow> clipboard_export_wayland_source cfg env mimes s1)
         else s1)"

definition server_request_set_primary_selection ::
  "'a sel_cfg_scheme \<Rightarrow> sel_env \<Rightarrow> string list option \<Rightarrow> clip_state \<Rightarrow> clip_state" where
  "server_request_set_primary_selection cfg env source s =
     (let s1 = say [SeatForwardSelection True (source \<noteq> None)] s
      in case source of
           None \<Rightarrow> s1
         | Some mimes \<Rightarrow> if \<not> setting_from_x11 (pri s1) then primary_export_wayland_source cfg env mimes s1
                         else s1)"

section \<open>X11 to Wayland\<close>

text \<open>What one \<open>write\<close> returns: the bytes taken, an interrupt, or an error.\<close>

datatype write_result = Wrote nat | WriteIntr | WriteError

fun write_loop :: "int \<Rightarrow> write_result list \<Rightarrow> byte list \<Rightarrow> sel_call list" where
  "write_loop fd ws [] = []"
| "write_loop fd [] left = []"
| "write_loop fd (WriteIntr # ws) left = write_loop fd ws left"
| "write_loop fd (WriteError # ws) left = []"
| "write_loop fd (Wrote n # ws) left = WriteFd fd (take n left) # write_loop fd ws (drop n left)"

definition side_source_send :: "bool \<Rightarrow> int \<Rightarrow> write_result list \<Rightarrow> clip_state \<Rightarrow> clip_state" where
  "side_source_send primary fd ws s =
     (let sd = side primary s
      in say ((case in_text sd of
                 None \<Rightarrow> []
               | Some p \<Rightarrow> if 0 < in_len sd then write_loop fd ws (take (in_len sd) p) else [])
              @ [CloseFd fd]) s)"

definition text_source_send :: "int \<Rightarrow> write_result list \<Rightarrow> clip_state \<Rightarrow> clip_state" where
  "text_source_send fd ws s = side_source_send False fd ws s"

definition pri_source_send :: "int \<Rightarrow> write_result list \<Rightarrow> clip_state \<Rightarrow> clip_state" where
  "pri_source_send fd ws s = side_source_send True fd ws s"

definition clipboard_offer_x11_text_to_wayland :: "sel_env \<Rightarrow> byte list \<Rightarrow> nat \<Rightarrow> clip_state \<Rightarrow> clip_state" where
  "clipboard_offer_x11_text_to_wayland env text len s =
     (let s1 = s\<lparr>clip := (clip s)\<lparr>in_text := Some text, in_len := len\<rparr>\<rparr>
      in if \<not> calloc_ok env \<or> \<not> mimes_ok env then s1
         else
           let s2 = say [SeatSetSelection False] (s1\<lparr>clip := (clip s1)\<lparr>setting_from_x11 := True\<rparr>\<rparr>)
           in s2\<lparr>clip := (clip s2)\<lparr>setting_from_x11 := False\<rparr>\<rparr>)"

definition primary_offer_x11_text_to_wayland :: "sel_env \<Rightarrow> byte list \<Rightarrow> nat \<Rightarrow> clip_state \<Rightarrow> clip_state" where
  "primary_offer_x11_text_to_wayland env text len s =
     (let s1 = s\<lparr>pri := (pri s)\<lparr>in_text := Some text, in_len := len\<rparr>\<rparr>
      in if \<not> calloc_ok env \<or> \<not> mimes_ok env then s1
         else
           let s2 = say [SeatSetSelection True] (s1\<lparr>pri := (pri s1)\<lparr>setting_from_x11 := True\<rparr>\<rparr>)
           in s2\<lparr>pri := (pri s2)\<lparr>setting_from_x11 := False\<rparr>\<rparr>)"

definition clipboard_request_from_x11 :: "'a sel_cfg_scheme \<Rightarrow> bool \<Rightarrow> clip_state \<Rightarrow> clip_state" where
  "clipboard_request_from_x11 cfg primary s =
     (if \<not> s_have_xcb cfg \<or> s_window cfg = XCB_WINDOW_NONE then s
      else if we_own_x11 (side primary s) then s
      else say [DeleteProperty (s_window cfg) (sel_prop cfg primary),
                ConvertSelection (sel_atom cfg primary) (atom_utf8_string cfg) (sel_prop cfg primary)] s)"

record selection_notify =
  sn_requestor :: xid
  sn_selection :: atom
  sn_property :: atom

definition clipboard_handle_selection_notify ::
  "'a sel_cfg_scheme \<Rightarrow> sel_env \<Rightarrow> selection_notify \<Rightarrow> clip_state \<Rightarrow> clip_state" where
  "clipboard_handle_selection_notify cfg env ev s =
     (if sn_property ev = 0 \<or> sn_requestor ev \<noteq> s_window cfg then s
      else
        let primary = (sn_property ev = atom_wlx_primary cfg \<or> sn_selection ev = atom_primary cfg)
        in if sn_property ev \<noteq> sel_prop cfg primary \<and> sn_property ev \<noteq> atom_wlx_clipboard cfg
              \<and> sn_property ev \<noteq> atom_wlx_primary cfg then s
           else case prop_reply env (sn_property ev) of
               None \<Rightarrow> s
             | Some (type, bytes) \<Rightarrow>
                 if type = 0 \<or> bytes = [] then s
                 else if type = atom_incr cfg then s
                 else if WLX_CLIPBOARD_MAX < length bytes then s
                 else if \<not> malloc_ok env (length bytes + 1) then s
                 else if primary then primary_offer_x11_text_to_wayland env (bytes @ [0]) (length bytes) s
                 else clipboard_offer_x11_text_to_wayland env (bytes @ [0]) (length bytes) s)"

section \<open>Serving X11 requestors\<close>

record selection_request =
  sr_requestor :: xid
  sr_selection :: atom
  sr_target :: atom
  sr_property :: atom

definition reply_to :: "selection_request \<Rightarrow> atom \<Rightarrow> sel_call" where
  "reply_to req property = SendSelectionNotify (sr_requestor req) (sr_selection req) (sr_target req) property"

definition clipboard_handle_selection_request ::
  "'a sel_cfg_scheme \<Rightarrow> selection_request \<Rightarrow> clip_state \<Rightarrow> clip_state" where
  "clipboard_handle_selection_request cfg req s =
     (let primary = (sr_selection req = atom_primary cfg);
          clipboard = (sr_selection req = atom_clipboard cfg)
      in case (if primary \<or> clipboard then out_text (side primary s) else None) of
           None \<Rightarrow> say [reply_to req 0] s
         | Some out \<Rightarrow>
             if sr_target req = atom_targets cfg then
               say [ChangeAtoms (sr_requestor req) (sr_property req)
                      [atom_targets cfg, atom_utf8_string cfg, atom_string cfg, atom_text cfg, atom_text_html cfg],
                    reply_to req (sr_property req)] s
             else if sr_target req = atom_utf8_string cfg \<or> sr_target req = atom_string cfg
                     \<or> sr_target req = atom_text cfg \<or> sr_target req = atom_text_html cfg then
               say [ChangeProperty (sr_requestor req) (sr_property req)
                      (if sr_target req = atom_string cfg then atom_string cfg
                       else if sr_target req = atom_text_html cfg then atom_text_html cfg
                       else atom_utf8_string cfg)
                      (take (out_len (side primary s)) out),
                    reply_to req (sr_property req)] s
             else say [reply_to req 0] s)"

definition clipboard_handle_selection_clear :: "'a sel_cfg_scheme \<Rightarrow> atom \<Rightarrow> clip_state \<Rightarrow> clip_state" where
  "clipboard_handle_selection_clear cfg selection s =
     (if selection = atom_clipboard cfg then s\<lparr>clip := (clip s)\<lparr>we_own_x11 := False\<rparr>\<rparr>
      else if selection = atom_primary cfg then s\<lparr>pri := (pri s)\<lparr>we_own_x11 := False\<rparr>\<rparr>
      else s)"

text \<open>The XFixes branch of \<open>handle_xcb_readable\<close>: the owner of a selection has changed.\<close>

definition xfixes_selection_notify :: "'a sel_cfg_scheme \<Rightarrow> atom \<Rightarrow> xid \<Rightarrow> clip_state \<Rightarrow> clip_state" where
  "xfixes_selection_notify cfg selection owner s =
     (if selection = atom_clipboard cfg then
        let s1 = s\<lparr>clip := (clip s)\<lparr>we_own_x11 := owner = s_window cfg\<rparr>\<rparr>
        in if \<not> we_own_x11 (clip s1) \<and> owner \<noteq> XCB_WINDOW_NONE
           then clipboard_request_from_x11 cfg False s1 else s1
      else if selection = atom_primary cfg then
        let s1 = s\<lparr>pri := (pri s)\<lparr>we_own_x11 := owner = s_window cfg\<rparr>\<rparr>
        in if \<not> we_own_x11 (pri s1) \<and> owner \<noteq> XCB_WINDOW_NONE
           then clipboard_request_from_x11 cfg True s1 else s1
      else s)"

section \<open>Start and end\<close>

text \<open>\<open>clipboard_init\<close> from the point where the atoms and the helper window exist.\<close>

definition clipboard_init :: "'a sel_cfg_scheme \<Rightarrow> clip_state \<Rightarrow> clip_state" where
  "clipboard_init cfg s =
     clipboard_request_from_x11 cfg True (clipboard_request_from_x11 cfg False (s\<lparr>clip_read_fd := - 1\<rparr>))"

definition clipboard_finish :: "clip_state \<Rightarrow> clip_state" where
  "clipboard_finish s =
     (let s1 = clipboard_clear_read s
      in s1\<lparr>clip := (clip s1)\<lparr>out_text := None, in_text := None\<rparr>,
            pri := (pri s1)\<lparr>out_text := None, in_text := None\<rparr>\<rparr>)"

section \<open>Reading a Wayland selection\<close>

text \<open>Activations of the event source: whether poll reports a hang-up and readable data, and the
  results of the reads. When the source is gone there are no more.\<close>

fun clip_activations ::
  "'a sel_cfg_scheme \<Rightarrow> sel_env \<Rightarrow> (bool \<times> bool \<times> read_result list) list \<Rightarrow> clip_state \<Rightarrow> clip_state option" where
  "clip_activations cfg env [] s = Some s"
| "clip_activations cfg env ((hangup, readable, rs) # acts) s =
     (if clip_read_source s
      then Option.bind (clipboard_read_fd cfg env hangup readable rs s) (clip_activations cfg env acts)
      else Some s)"

text \<open>
  A transfer: activations with nothing to read (\<open>None\<close>), activations that read chunks until \<open>EAGAIN\<close>,
  and a last one that reads up to the end of file or is told of the writer's hang-up, with whatever
  the pipe still holds then.
\<close>

datatype (plugins only: code size) pipe_end =
    EndOfFile "byte list list"
  | HangUp bool "read_result list"

fun pipe_wake :: "byte list list option \<Rightarrow> bool \<times> bool \<times> read_result list" where
  "pipe_wake None = (False, False, [])"
| "pipe_wake (Some cs) = (False, True, map ReadBytes cs @ [ReadAgain])"

fun pipe_last :: "pipe_end \<Rightarrow> bool \<times> bool \<times> read_result list" where
  "pipe_last (EndOfFile cs) = (False, True, map ReadBytes cs @ [ReadEof])"
| "pipe_last (HangUp readable rs) = (True, readable, rs)"

definition transfer :: "byte list list option list \<Rightarrow> pipe_end \<Rightarrow> (bool \<times> bool \<times> read_result list) list" where
  "transfer css e = map pipe_wake css @ [pipe_last e]"

fun last_chunks :: "pipe_end \<Rightarrow> byte list list" where
  "last_chunks (EndOfFile cs) = cs"
| "last_chunks (HangUp _ _) = []"

definition woken_chunks :: "byte list list option \<Rightarrow> byte list list" where
  "woken_chunks c = (case c of None \<Rightarrow> [] | Some cs \<Rightarrow> cs)"

text \<open>The chunks a transfer reads: those of a hang-up are left in the pipe.\<close>

definition chunks_read :: "byte list list option list \<Rightarrow> pipe_end \<Rightarrow> byte list list" where
  "chunks_read css e = concat (map woken_chunks css) @ last_chunks e"

lemma clear_read_frame [simp]:
  "side p (clipboard_clear_read s) = side p s" "clip_read (clipboard_clear_read s) = tb_empty"
  "\<not> clip_read_source (clipboard_clear_read s)"
  "clip_read_is_primary (clipboard_clear_read s) = clip_read_is_primary s"
  "clipboard_clear_read (s\<lparr>clip_read := tb\<rparr>) = clipboard_clear_read s"
  by (simp_all add: clipboard_clear_read_def Let_def say_def side_def)

lemma loop_collect:
  assumes "tb_ok (clip_read s)"
  shows "clip_read_loop cfg env (map ReadBytes cs @ rs) s =
    (case collect (clip_append (heap_env.truncate env)) cs (clip_read s) of
       None \<Rightarrow> Some (clipboard_clear_read s)
     | Some tb \<Rightarrow> clip_read_loop cfg env rs (s\<lparr>clip_read := tb\<rparr>))"
  using assms
proof (induction cs arbitrary: s)
  case Nil then show ?case by simp
next
  case (Cons c cs)
  let ?r = "clip_append (heap_env.truncate env) c (clip_read s)"
  from clip_append_spec[OF Cons.prems, where he = "heap_env.truncate env" and tmp = c]
  consider tb where "?r = Appended tb" "tb_ok tb" | "?r = TooLong" | "?r = NoMemory"
    by (cases ?r) auto
  then show ?case
  proof cases
    case (1 tb)
    with Cons.IH[of "s\<lparr>clip_read := tb\<rparr>"] show ?thesis by (simp split: option.split)
  qed simp_all
qed

lemma collect_split:
  "collect put (as @ bs) b = Option.bind (collect put as b) (collect put bs)"
  by (induction as arbitrary: b) (auto split: append_result.splits)

lemma collect_ok:
  "collect (clip_append he) cs tb = Some tb' \<Longrightarrow> tb_ok tb \<Longrightarrow> tb_ok tb'"
proof (induction cs arbitrary: tb)
  case (Cons x c)
  from Cons.prems(1) obtain b where b: "clip_append he x tb = Appended b" "collect (clip_append he) c b = Some tb'"
    by (auto split: append_result.splits)
  with clip_append_spec[OF Cons.prems(2), where he = he and tmp = x] have "tb_ok b" by simp
  with Cons.IH b show ?case by simp
qed simp

lemma activations_collect:
  assumes "tb_ok (clip_read s)" "clip_read_source s"
    "collect (clip_append (heap_env.truncate env)) (chunks_read css e) (clip_read s) = Some tb"
  shows "clip_activations cfg env (transfer css e) s = Some (publish_read cfg env (s\<lparr>clip_read := tb\<rparr>))"
  using assms
proof (induction css arbitrary: s)
  case Nil
  then show ?case using loop_collect[OF Nil.prems(1), of cfg env "last_chunks e" "[ReadEof]"]
    by (cases e) (auto simp: transfer_def chunks_read_def clipboard_read_fd_def)
next
  case (Cons c css)
  from Cons.prems(3) obtain tb1 where c1: "collect (clip_append (heap_env.truncate env)) (woken_chunks c) (clip_read s) = Some tb1"
    and c2: "collect (clip_append (heap_env.truncate env)) (chunks_read css e) tb1 = Some tb"
    by (auto simp: chunks_read_def collect_split bind_eq_Some_conv)
  have "tb_ok tb1" by (rule collect_ok[OF c1 Cons.prems(1)])
  with Cons.IH[of "s\<lparr>clip_read := tb1\<rparr>"] Cons.prems(2) c2 c1
    loop_collect[OF Cons.prems(1), of cfg env "woken_chunks c" "[ReadAgain]"]
  show ?case by (cases c) (auto simp: transfer_def clipboard_read_fd_def woken_chunks_def)
qed

text \<open>Exporting the selection \<open>primary\<close> stands for.\<close>

definition export_source ::
  "bool \<Rightarrow> 'a sel_cfg_scheme \<Rightarrow> sel_env \<Rightarrow> string list \<Rightarrow> clip_state \<Rightarrow> clip_state" where
  "export_source primary = (if primary then primary_export_wayland_source else clipboard_export_wayland_source)"

lemma export_started:
  assumes "s_have_xcb cfg" "clipboard_pick_mime mimes = Some m" "pipe_fds env = Some (r, w)" "add_fd_ok env"
  shows "clip_read (export_source p cfg env mimes s) = tb_empty"
    "clip_read_source (export_source p cfg env mimes s)"
    "clip_read_is_primary (export_source p cfg env mimes s) = p"
    "side q (export_source p cfg env mimes s) = side q s"
proof -
  have m: "primary_pick_mime mimes = Some m" using assms(2)
    by (simp add: primary_pick_mime_def clipboard_pick_mime_def)
  show "clip_read (export_source p cfg env mimes s) = tb_empty"
    "clip_read_source (export_source p cfg env mimes s)"
    "clip_read_is_primary (export_source p cfg env mimes s) = p"
    "side q (export_source p cfg env mimes s) = side q s"
    using assms m by (auto simp: export_source_def clipboard_export_wayland_source_def
        primary_export_wayland_source_def Let_def)
qed

lemma publish_read_sides:
  assumes "tb_ok (clip_read s)" "tb_text (clip_read s) \<noteq> []" "s_have_xcb cfg" "s_window cfg \<noteq> XCB_WINDOW_NONE"
    "malloc_ok env (length (tb_text (clip_read s)) + 1)"
  shows "out_text (side (clip_read_is_primary s) (publish_read cfg env s)) = Some (tb_text (clip_read s) @ [0])"
    "out_len (side (clip_read_is_primary s) (publish_read cfg env s)) = length (tb_text (clip_read s))"
    "clip_read (publish_read cfg env s) = tb_empty"
proof -
  have "0 < tb_len (clip_read s) \<and> tb_buf (clip_read s) \<noteq> None"
    using assms(1,2) tb_text_length[OF assms(1)] by (auto simp: tb_text_def split: option.splits)
  with assms show "out_text (side (clip_read_is_primary s) (publish_read cfg env s)) = Some (tb_text (clip_read s) @ [0])"
    "out_len (side (clip_read_is_primary s) (publish_read cfg env s)) = length (tb_text (clip_read s))"
    "clip_read (publish_read cfg env s) = tb_empty"
    by (simp_all add: publish_read_def clipboard_set_x11_owner_def Let_def)
qed

text \<open>Atoms of different names are different.\<close>

definition sel_atoms_ok :: "'a sel_cfg_scheme \<Rightarrow> bool" where
  "sel_atoms_ok cfg \<longleftrightarrow> s_have_xcb cfg \<and> s_window cfg \<noteq> XCB_WINDOW_NONE
     \<and> distinct [atom_clipboard cfg, atom_primary cfg, atom_targets cfg, atom_utf8_string cfg,
                 atom_string cfg, atom_text cfg, atom_text_html cfg, atom_wlx_clipboard cfg,
                 atom_wlx_primary cfg, atom_incr cfg]
     \<and> 0 \<notin> set [atom_wlx_clipboard cfg, atom_wlx_primary cfg]"

text \<open>
  C15 (roundtrip). Text copied in a Wayland client reaches an X11 requestor byte for byte, whatever chunks
  and wake-ups the pipe delivers it in: when the end of file or the hang-up of the client is seen, a
  request for UTF8_STRING of the selection is answered with exactly the bytes that were read until
  then, up to 1 MiB and while there is memory. That is the whole text when the client keeps the pipe open until it has been
  read; what the pipe still holds at a hang-up is lost (\<open>hangup_drops_pending_data\<close>), as is a copy
  during which another selection is exported (\<open>primary_export_drops_copy\<close>).
\<close>

theorem copied_text_reaches_x11:
  assumes "sel_atoms_ok cfg" "heap_total (heap_env.truncate env)"
    and "clipboard_pick_mime mimes = Some m" "pipe_fds env = Some (r, w)" "add_fd_ok env"
    and "text = concat (chunks_read css e)" "text \<noteq> []" "length text \<le> WLX_CLIPBOARD_MAX"
    and "sr_selection req = sel_atom cfg p" "sr_target req = atom_utf8_string cfg"
  shows "\<exists>s'. clip_activations cfg env (transfer css e) (export_source p cfg env mimes s) = Some s'
    \<and> c_log (clipboard_handle_selection_request cfg req s') =
        c_log s' @ [ChangeProperty (sr_requestor req) (sr_property req) (atom_utf8_string cfg) text,
                    reply_to req (sr_property req)]"
proof -
  let ?s = "export_source p cfg env mimes s"
  have x: "s_have_xcb cfg" "s_window cfg \<noteq> XCB_WINDOW_NONE" using assms(1) by (simp_all add: sel_atoms_ok_def)
  note st = export_started[OF x(1) assms(3-5), where p = p and s = s]
  obtain tb where tb: "collect (clip_append (heap_env.truncate env)) (chunks_read css e) (clip_read ?s) = Some tb"
      "tb_ok tb" "tb_text tb = text"
    using clip_reader.collect_fits[of "clip_read ?s" "heap_env.truncate env" "chunks_read css e"] assms(2,6,8)
    by (auto simp: st)
  let ?t = "publish_read cfg env (?s\<lparr>clip_read := tb\<rparr>)"
  have "malloc_ok env (length text + 1)"
    using assms(2) by (auto simp: heap_total_def heap_env.truncate_def)
  with publish_read_sides[of "?s\<lparr>clip_read := tb\<rparr>" cfg env] tb assms(7) x
  have "out_text (side p ?t) = Some (text @ [0])" "out_len (side p ?t) = length text"
    by (simp_all add: st)
  moreover have "sr_selection req = atom_primary cfg \<longleftrightarrow> p"
    "sr_selection req = atom_primary cfg \<or> sr_selection req = atom_clipboard cfg"
    "sr_target req \<noteq> atom_targets cfg" "sr_target req \<noteq> atom_string cfg" "sr_target req \<noteq> atom_text_html cfg"
    using assms(1,9,10) by (auto simp: sel_atoms_ok_def sel_atom_def)
  ultimately have "c_log (clipboard_handle_selection_request cfg req ?t) =
      c_log ?t @ [ChangeProperty (sr_requestor req) (sr_property req) (atom_utf8_string cfg) text,
                  reply_to req (sr_property req)]"
    using assms(10) by (simp add: clipboard_handle_selection_request_def)
  moreover have "clip_activations cfg env (transfer css e) ?s = Some ?t"
    using activations_collect[OF _ _ tb(1), of cfg] by (simp add: st)
  ultimately show ?thesis by blast
qed

text \<open>
  A selection longer than 1 MiB is refused as a whole: whatever chunks it comes in,
  nothing of it is published, both X11 selections keep what they had, and the reader is closed with
  its buffer freed.
\<close>

theorem oversized_selection_refused:
  assumes "s_have_xcb cfg" "heap_total (heap_env.truncate env)"
    and "clipboard_pick_mime mimes = Some m" "pipe_fds env = Some (r, w)" "add_fd_ok env"
    and "WLX_CLIPBOARD_MAX < length (concat cs)"
    and "s1 = export_source p cfg env mimes s"
  shows "\<exists>s'. clipboard_read_fd cfg env False True (map ReadBytes cs @ rs) s1 = Some s'
    \<and> side q s' = side q s \<and> clip_read s' = tb_empty \<and> \<not> clip_read_source s'
    \<and> c_log s' = c_log s1 @ (if 0 \<le> r then [CloseFd r] else [])"
proof -
  note e = export_started[OF assms(1,3-5), where p = p and s = s, folded assms(7)]
  have fd: "clip_read_fd s1 = r"
    using assms(1,3-5) by (auto simp: assms(7) export_source_def clipboard_export_wayland_source_def
        primary_export_wayland_source_def clipboard_pick_mime_def primary_pick_mime_def Let_def)
  have "collect (clip_append (heap_env.truncate env)) cs (clip_read s1) = None"
    using clip_reader.collect_too_long[of "clip_read s1" "heap_env.truncate env" cs] assms(2,6)
    by (simp add: e)
  then have "clip_read_loop cfg env (map ReadBytes cs @ rs) s1 = Some (clipboard_clear_read s1)"
    using loop_collect[of s1 cfg env cs rs] by (simp add: e)
  then show ?thesis
    by (simp add: clipboard_read_fd_def e) (simp add: clipboard_clear_read_def Let_def fd)
qed

text \<open>
  A hang-up loses what is still in the pipe: when the poll reports the end of the
  writer together with readable data, the handler publishes only what earlier wake-ups have read.
  A client that writes its text and closes the pipe before the compositor polls transfers nothing:
  both X11 selections keep their old text and the reader is gone.
\<close>

theorem hangup_drops_pending_data:
  assumes "s_have_xcb cfg" "clipboard_pick_mime mimes = Some m" "pipe_fds env = Some (r, w)" "add_fd_ok env"
  shows "\<exists>s'. clipboard_read_fd cfg env True readable (ReadBytes text # rs) (export_source p cfg env mimes s) = Some s'
    \<and> side q s' = side q s \<and> clip_read s' = tb_empty \<and> \<not> clip_read_source s'"
  using export_started[OF assms, where p = p and s = s]
  by (simp add: clipboard_read_fd_def publish_read_def)

text \<open>
  Both selections share one reader: a primary selection made while the text of a copy
  is still being read drops that copy. What was read is freed, its descriptor is closed, and
  CLIPBOARD keeps its old text.
\<close>

theorem primary_export_drops_copy:
  assumes "s_have_xcb cfg" "primary_pick_mime mimes = Some m" "pipe_fds env = Some (r, w)" "add_fd_ok env"
    and "0 \<le> clip_read_fd s" "tb_text (clip_read s) = got"
  shows "clip_read (primary_export_wayland_source cfg env mimes s) = tb_empty
    \<and> side False (primary_export_wayland_source cfg env mimes s) = side False s
    \<and> CloseFd (clip_read_fd s) \<in> set (c_log (primary_export_wayland_source cfg env mimes s))"
  using assms by (simp add: primary_export_wayland_source_def)
    (simp add: clipboard_clear_read_def Let_def side_def say_def)

section \<open>Handing X11 text to Wayland\<close>

definition written :: "sel_call list \<Rightarrow> byte list" where
  "written cs = concat (map (\<lambda>c. case c of WriteFd fd bs \<Rightarrow> bs | _ \<Rightarrow> []) cs)"

lemma written_simps [simp]:
  "written [] = []" "written (WriteFd fd bs # cs) = bs @ written cs" "written (CloseFd fd # cs) = written cs"
  "written (as @ bs') = written as @ written bs'"
  by (simp_all add: written_def)

fun taken :: "write_result list \<Rightarrow> nat" where
  "taken [] = 0"
| "taken (Wrote n # ws) = n + taken ws"
| "taken (_ # ws) = taken ws"

lemma write_loop_written:
  "WriteError \<notin> set ws \<Longrightarrow> length left \<le> taken ws \<Longrightarrow> written (write_loop fd ws left) = left"
proof (induction fd ws left rule: write_loop.induct)
  case (5 fd n ws b bs)
  then have "length (drop n (b # bs)) \<le> taken ws" by simp
  with 5 have "written (write_loop fd ws (drop n (b # bs))) = drop n (b # bs)" by simp
  then show ?case by (simp only: write_loop.simps written_simps append_take_drop_id)
qed auto

text \<open>The offer of the selection \<open>primary\<close> stands for.\<close>

lemma offer_in_text:
  "side False (clipboard_offer_x11_text_to_wayland env text len s) =
     (side False s)\<lparr>in_text := Some text, in_len := len,
        setting_from_x11 := if calloc_ok env \<and> mimes_ok env then False else setting_from_x11 (clip s)\<rparr>"
  "side True (primary_offer_x11_text_to_wayland env text len s) =
     (side True s)\<lparr>in_text := Some text, in_len := len,
        setting_from_x11 := if calloc_ok env \<and> mimes_ok env then False else setting_from_x11 (pri s)\<rparr>"
  by (auto simp: clipboard_offer_x11_text_to_wayland_def primary_offer_x11_text_to_wayland_def
      side_def say_def Let_def)

definition source_send :: "bool \<Rightarrow> int \<Rightarrow> write_result list \<Rightarrow> clip_state \<Rightarrow> clip_state" where
  "source_send primary = (if primary then pri_source_send else text_source_send)"

text \<open>
  C16 (roundtrip). Text of an X11 selection reaches a Wayland client byte for byte: once the
  owner's answer is stored, a client that asks for it is written exactly those bytes and then sees
  the end of the pipe, however the writes are split or interrupted.
\<close>

theorem x11_text_reaches_wayland:
  assumes "sel_atoms_ok cfg" "heap_total (heap_env.truncate env)"
    and "sn_requestor ev = s_window cfg" "sn_selection ev = sel_atom cfg p" "sn_property ev = sel_prop cfg p"
    and "prop_reply env (sel_prop cfg p) = Some (type, text)" "type \<noteq> 0" "type \<noteq> atom_incr cfg"
    and "text \<noteq> []" "length text \<le> WLX_CLIPBOARD_MAX"
    and "WriteError \<notin> set ws" "length text \<le> taken ws"
    and "s1 = clipboard_handle_selection_notify cfg env ev s"
  shows "\<exists>cs. c_log (source_send p fd ws s1) = c_log s1 @ cs @ [CloseFd fd] \<and> written cs = text"
proof -
  have m: "malloc_ok env n" for n using assms(2) by (auto simp: heap_total_def heap_env.truncate_def)
  have pr: "(sn_property ev = atom_wlx_primary cfg \<or> sn_selection ev = atom_primary cfg) = p"
    "sn_property ev \<noteq> 0"
    using assms(1,4,5) by (cases p; auto simp: sel_atoms_ok_def sel_atom_def sel_prop_def)+
  have "s1 = (if p then primary_offer_x11_text_to_wayland env (text @ [0]) (length text) s
              else clipboard_offer_x11_text_to_wayland env (text @ [0]) (length text) s)"
    unfolding assms(13) clipboard_handle_selection_notify_def Let_def pr(1)
    using pr(2) assms(3,5-10) m by simp
  then have "in_text (side p s1) = Some (text @ [0])" "in_len (side p s1) = length text"
    by (cases p; simp add: offer_in_text)+
  then have "c_log (source_send p fd ws s1) = c_log s1 @ write_loop fd ws text @ [CloseFd fd]"
    using assms(9) by (cases p) (simp_all add: source_send_def pri_source_send_def text_source_send_def
        side_source_send_def)
  with write_loop_written[OF assms(11,12), of fd] show ?thesis by blast
qed

section \<open>Answers and ownership\<close>

fun is_answer :: "sel_call \<Rightarrow> bool" where
  "is_answer (SendSelectionNotify _ _ _ _) = True"
| "is_answer _ = False"

fun stores :: "xid \<Rightarrow> atom \<Rightarrow> sel_call \<Rightarrow> bool" where
  "stores w p (ChangeProperty w' p' _ _) \<longleftrightarrow> w' = w \<and> p' = p"
| "stores w p (ChangeAtoms w' p' _) \<longleftrightarrow> w' = w \<and> p' = p"
| "stores w p _ \<longleftrightarrow> False"

text \<open>
  C32 (error). Every request for a selection is answered exactly once, after everything else, to the
  window that asked; the answer names a property only if the value was stored there just before, and
  refuses (property None) exactly when nothing was stored: the selection is not served, there is no
  text, or the target is not a text type.
\<close>

theorem every_request_answered:
  "\<exists>cs property. c_log (clipboard_handle_selection_request cfg req s) = c_log s @ cs @ [reply_to req property]
     \<and> \<not> list_ex is_answer cs
     \<and> (cs = [] \<and> property = 0 \<or> property = sr_property req
          \<and> (\<exists>c. cs = [c] \<and> stores (sr_requestor req) (sr_property req) c))"
proof -
  let ?P = "\<lambda>cs property. c_log (clipboard_handle_selection_request cfg req s) = c_log s @ cs @ [reply_to req property]
     \<and> \<not> list_ex is_answer cs
     \<and> (cs = [] \<and> property = 0 \<or> property = sr_property req
          \<and> (\<exists>c. cs = [c] \<and> stores (sr_requestor req) (sr_property req) c))"
  show ?thesis
  proof (cases "if sr_selection req = atom_primary cfg \<or> sr_selection req = atom_clipboard cfg
               then out_text (side (sr_selection req = atom_primary cfg) s) else None")
    case None
    then have "?P [] 0" unfolding clipboard_handle_selection_request_def Let_def by simp
    then show ?thesis by blast
  next
    case (Some out)
    note eq = clipboard_handle_selection_request_def[of cfg req s, unfolded Let_def Some option.case]
    let ?t = "sr_target req"
    consider "?t = atom_targets cfg"
      | "?t \<noteq> atom_targets cfg"
        "?t = atom_utf8_string cfg \<or> ?t = atom_string cfg \<or> ?t = atom_text cfg \<or> ?t = atom_text_html cfg"
      | "?t \<noteq> atom_targets cfg"
        "\<not> (?t = atom_utf8_string cfg \<or> ?t = atom_string cfg \<or> ?t = atom_text cfg \<or> ?t = atom_text_html cfg)"
      by blast
    then show ?thesis
    proof cases
      case 1 show ?thesis unfolding eq 1 by (simp add: reply_to_def)
    next
      case 2 show ?thesis unfolding eq if_not_P[OF 2(1)] if_P[OF 2(2)] by (simp add: reply_to_def)
    next
      case 3 show ?thesis unfolding eq if_not_P[OF 3(1)] if_not_P[OF 3(2)] by (simp add: reply_to_def)
    qed
  qed
qed

text \<open>Events the X server can send about selections.\<close>

datatype (plugins only: code size) x11_sel_event =
    XRequest selection_request
  | XNotify sel_env selection_notify
  | XClear atom
  | XOwner atom xid

fun x11_sel_step :: "'a sel_cfg_scheme \<Rightarrow> x11_sel_event \<Rightarrow> clip_state \<Rightarrow> clip_state" where
  "x11_sel_step cfg (XRequest req) s = clipboard_handle_selection_request cfg req s"
| "x11_sel_step cfg (XNotify env ev) s = clipboard_handle_selection_notify cfg env ev s"
| "x11_sel_step cfg (XClear a) s = clipboard_handle_selection_clear cfg a s"
| "x11_sel_step cfg (XOwner a owner) s = xfixes_selection_notify cfg a owner s"

fun is_claim :: "sel_call \<Rightarrow> bool" where
  "is_claim (SetSelectionOwner _ _) = True"
| "is_claim _ = False"

fun is_convert :: "sel_call \<Rightarrow> bool" where
  "is_convert (ConvertSelection _ _ _) = True"
| "is_convert _ = False"

definition own_owner :: "'a sel_cfg_scheme \<Rightarrow> x11_sel_event \<Rightarrow> bool" where
  "own_owner cfg e = (case e of XOwner a owner \<Rightarrow> owner = s_window cfg \<or> owner = XCB_WINDOW_NONE | _ \<Rightarrow> True)"

definition log_adds_no :: "(sel_call \<Rightarrow> bool) \<Rightarrow> clip_state \<Rightarrow> clip_state \<Rightarrow> bool" where
  "log_adds_no bad s s' \<longleftrightarrow> (\<exists>cs. c_log s' = c_log s @ cs \<and> \<not> list_ex bad cs)"

lemma log_adds_no_refl [simp]: "c_log s' = c_log s \<Longrightarrow> log_adds_no bad s s'"
  by (simp add: log_adds_no_def)

lemma log_adds_no_trans: "log_adds_no bad s s' \<Longrightarrow> log_adds_no bad s' s'' \<Longrightarrow> log_adds_no bad s s''"
  unfolding log_adds_no_def by (metis append.assoc list_ex_append)

lemma log_adds_no_say:
  "c_log s' = c_log s \<Longrightarrow> log_adds_no bad s (say cs s') \<longleftrightarrow> \<not> list_ex bad cs"
  by (simp add: log_adds_no_def)

lemma selection_notify_log:
  assumes "\<not> bad (SeatSetSelection False)" "\<not> bad (SeatSetSelection True)"
  shows "log_adds_no bad s (clipboard_handle_selection_notify cfg env ev s)"
proof -
  have offers: "log_adds_no bad s (clipboard_offer_x11_text_to_wayland env t n s)"
    "log_adds_no bad s (primary_offer_x11_text_to_wayland env t n s)" for t n
    using assms by (simp_all add: clipboard_offer_x11_text_to_wayland_def
        primary_offer_x11_text_to_wayland_def log_adds_no_def Let_def)
  have refl: "log_adds_no bad s s" by simp
  show ?thesis unfolding clipboard_handle_selection_notify_def Let_def
    by (simp only: offers refl split: if_split option.split prod.split) simp
qed

lemma x11_sel_step_log:
  "log_adds_no is_claim s (x11_sel_step cfg e s)"
  "own_owner cfg e \<Longrightarrow> log_adds_no is_convert s (x11_sel_step cfg e s)"
proof -
  have answer: "log_adds_no bad s (clipboard_handle_selection_request cfg req s)"
    if "\<And>c. bad c \<Longrightarrow> is_claim c \<or> is_convert c" for bad req
  proof -
    have "\<not> bad (SendSelectionNotify a b c d)" "\<not> bad (ChangeAtoms a b l)" "\<not> bad (ChangeProperty a b c x)"
      for a b c d l x using that by force+
    then show ?thesis
      by (simp add: clipboard_handle_selection_request_def reply_to_def log_adds_no_say Let_def
          split: option.split)
  qed
  have claim: "log_adds_no is_claim s (clipboard_request_from_x11 cfg p t)" if "c_log t = c_log s" for p t
    using that by (simp add: clipboard_request_from_x11_def log_adds_no_say)
  have "log_adds_no is_claim s (x11_sel_step cfg e s)
      \<and> (own_owner cfg e \<longrightarrow> log_adds_no is_convert s (x11_sel_step cfg e s))"
  proof (cases e)
    case (XOwner a owner)
    then show ?thesis by (simp add: xfixes_selection_notify_def own_owner_def Let_def claim)
  qed (simp_all add: answer selection_notify_log clipboard_handle_selection_clear_def)
  then show "log_adds_no is_claim s (x11_sel_step cfg e s)"
    "own_owner cfg e \<Longrightarrow> log_adds_no is_convert s (x11_sel_step cfg e s)" by blast+
qed

text \<open>What an event makes the compositor ask for: the selection it reports, when another program owns it.\<close>

definition foreign_selections :: "'a sel_cfg_scheme \<Rightarrow> x11_sel_event \<Rightarrow> atom list" where
  "foreign_selections cfg e =
     (case e of
        XOwner a owner \<Rightarrow>
          if owner \<noteq> s_window cfg \<and> owner \<noteq> XCB_WINDOW_NONE \<and> List.member [atom_clipboard cfg, atom_primary cfg] a
            \<and> s_have_xcb cfg \<and> s_window cfg \<noteq> XCB_WINDOW_NONE
          then [a] else []
      | _ \<Rightarrow> [])"

definition converted :: "sel_call list \<Rightarrow> atom list" where
  "converted cs = concat (map (\<lambda>c. case c of ConvertSelection sel _ _ \<Rightarrow> [sel] | _ \<Rightarrow> []) cs)"

lemma converted_none: "\<not> list_ex is_convert cs \<Longrightarrow> converted cs = []"
  by (induction cs) (auto simp: converted_def split: sel_call.split)

lemma step_asks:
  "\<exists>cs. c_log (x11_sel_step cfg e s) = c_log s @ cs \<and> \<not> list_ex is_claim cs
     \<and> converted cs = foreign_selections cfg e"
proof (cases "own_owner cfg e")
  case True
  then have "foreign_selections cfg e = []"
    by (auto simp: own_owner_def foreign_selections_def split: x11_sel_event.split)
  moreover have "\<not> list_ex is_claim cs \<and> \<not> list_ex is_convert cs"
    if "c_log (x11_sel_step cfg e s) = c_log s @ cs" for cs
    using that x11_sel_step_log(1)[of s cfg e] x11_sel_step_log(2)[OF True, of s] by (auto simp: log_adds_no_def)
  moreover obtain cs where "c_log (x11_sel_step cfg e s) = c_log s @ cs"
    using x11_sel_step_log(1)[of s cfg e] by (auto simp: log_adds_no_def)
  ultimately show ?thesis using converted_none by metis
next
  case False
  then obtain a owner where e: "e = XOwner a owner" "owner \<noteq> s_window cfg" "owner \<noteq> XCB_WINDOW_NONE"
    by (auto simp: own_owner_def split: x11_sel_event.splits)
  then show ?thesis
    by (auto simp: xfixes_selection_notify_def clipboard_request_from_x11_def Let_def converted_def
        foreign_selections_def sel_atom_def say_def side_def)
qed

text \<open>
  C33 (safety). The bridge does not feed on itself: no sequence of X11 events about selections makes
  the compositor claim a selection (only a Wayland client's request does), and the selections it
  asks for are those the events report as owned by another program, each once and in their order,
  however the events are mixed: never one that is reported as its own or as without an owner.
\<close>

theorem no_clipboard_loop:
  "\<exists>cs. c_log (fold (x11_sel_step cfg) es s) = c_log s @ cs \<and> \<not> list_ex is_claim cs
     \<and> converted cs = concat (map (foreign_selections cfg) es)"
proof (induction es arbitrary: s)
  case Nil
  show ?case by (intro exI[of _ "[]"]) (simp add: converted_def)
next
  case (Cons e es)
  obtain cs where cs: "c_log (x11_sel_step cfg e s) = c_log s @ cs" "\<not> list_ex is_claim cs"
      "converted cs = foreign_selections cfg e"
    using step_asks by blast
  obtain ds where "c_log (fold (x11_sel_step cfg) es (x11_sel_step cfg e s)) = c_log (x11_sel_step cfg e s) @ ds"
      "\<not> list_ex is_claim ds" "converted ds = concat (map (foreign_selections cfg) es)"
    using Cons.IH by blast
  with cs show ?case by (intro exI[of _ "cs @ ds"]) (simp add: converted_def)
qed

end
