(* ===== verification/Bridge_Witnesses.thy ===== *)
theory Bridge_Witnesses
  imports Samples Drag Clipboard
begin

text \<open>
  The properties of interactive drags and of the selection bridge applied at concrete inputs, where
  their hypotheses hold.
\<close>

section \<open>Drags\<close>

definition idle_drag :: drag_state where
  "idle_drag =
     \<lparr>move_win = None, move_offset_x = 0, move_offset_y = 0, resize_win = None, resize_edges = 0,
      resize_start_x = 0, resize_start_y = 0, resize_start_w = 0, resize_start_h = 0,
      resize_start_pointer_x = 0, resize_start_pointer_y = 0, drag_last_send_at = (0, 0),
      drag_last_requested_x = 0, drag_last_requested_y = 0, drag_correction_x = 0,
      drag_correction_y = 0, d_log = []\<rparr>"

definition pointer_at :: "int \<Rightarrow> int \<Rightarrow> wlx_env" where
  "pointer_at x y = (sample_env 0)\<lparr>q_pointer := Some (x, y), q_geometry := (\<lambda>_. Some (400, 300))\<rparr>"

abbreviation drag_win :: wlx_window where
  "drag_win \<equiv> sample_window (sample_toplevel 400 300)"

definition drag_wins :: "wid \<rightharpoonup> wlx_window" where
  "drag_wins = (\<lambda>i. if i = 1 then Some drag_win else None)"

abbreviation drag_cfg :: wlx_config where
  "drag_cfg \<equiv> sample_cfg 1 False"

definition moving :: drag_state where
  "moving = begin_interactive_move drag_cfg (pointer_at 5 5) drag_win idle_drag"

definition moved_once :: drag_state where
  "moved_once = wm_rounds drag_cfg drag_wins 4 24 7 [((1, 0), pointer_at 9 9), ((1, 5000000), pointer_at 11 12)] moving"

lemma moved_window_follows_pointer_witness:
  "\<exists>x y. d_log (update_interactive_drag drag_cfg drag_wins (2, 0) (pointer_at 30 40) moved_once) =
           d_log moved_once @ [ConfigurePos (configure_target_window drag_win) x y]
         \<and> x + 4 = 100 + (30 - 5) \<and> y + 24 = 50 + (40 - 5)"
proof (rule moved_window_follows_pointer[of drag_win drag_wins drag_cfg "pointer_at 5 5" 100 50 5 5 moving idle_drag
      moved_once 4 24 "[((1, 0), pointer_at 9 9), ((1, 5000000), pointer_at 11 12)]" "pointer_at 30 40" 30 40 "(2, 0)"])
  show "moved_once = wm_rounds drag_cfg drag_wins 4 24 (xwin drag_win)
      [((1, 0), pointer_at 9 9), ((1, 5000000), pointer_at 11 12)] moving"
    by (simp add: moved_once_def sample_window_def)
  show "d_log moved_once \<noteq> d_log moving" by code_simp
  show "drag_throttle_ready (2, 0) moved_once = (True, moved_once\<lparr>drag_last_send_at := (2, 0)\<rparr>)"
    by (simp add: drag_throttle_ready_def) code_simp
qed (simp_all add: moving_def drag_wins_def query_window_root_position_def query_root_pointer_position_def
  pointer_at_def sample_defs XCB_WINDOW_NONE_def)

definition resizing :: drag_state where
  "resizing = begin_interactive_resize drag_cfg (pointer_at 100 60) drag_win 5 idle_drag"

lemma resizing_ready:
  "move_win resizing = None" "resize_win resizing = Some 1" "drag_wins 1 = Some drag_win"
  "configure_target_window drag_win \<noteq> XCB_WINDOW_NONE"
  "drag_throttle_ready (1, 0) resizing = (True, resizing\<lparr>drag_last_send_at := (1, 0)\<rparr>)"
  "query_root_pointer_position drag_cfg (pointer_at x y) = Some (x, y)"
proof -
  show "move_win resizing = None" "resize_win resizing = Some 1" by code_simp+
  show "drag_throttle_ready (1, 0) resizing = (True, resizing\<lparr>drag_last_send_at := (1, 0)\<rparr>)"
    by (simp add: drag_throttle_ready_def) code_simp
qed (simp_all add: drag_wins_def query_root_pointer_position_def pointer_at_def configure_target_window_def
    ewmh_target_window_def sample_defs XCB_WINDOW_NONE_def)

lemma resize_keeps_opposite_edge_witness:
  "\<exists>x y w h. d_log (update_interactive_drag drag_cfg drag_wins (1, 0) (pointer_at 130 40) resizing) =
      d_log resizing @ [ConfigurePosSize (configure_target_window drag_win) x y w h]
     \<and> axis_anchored (fst (drag_edges resizing)) (resize_start_x resizing) (resize_start_w resizing)
         (x + drag_correction_x resizing) w
     \<and> axis_anchored (snd (drag_edges resizing)) (resize_start_y resizing) (resize_start_h resizing)
         (y + drag_correction_y resizing) h"
  by (rule resize_keeps_opposite_edge[where i = 1]) (rule resizing_ready)+

lemma clamped_left_edge_slides_witness:
  "\<exists>x y h. d_log (update_interactive_drag drag_cfg drag_wins (1, 0) (pointer_at 800 40) resizing) =
      d_log resizing @ [ConfigurePosSize (configure_target_window drag_win) x y WLX_MIN_WINDOW_SIZE h]
    \<and> x = resize_start_x resizing + (800 - resize_start_pointer_x resizing) - drag_correction_x resizing
    \<and> resize_start_x resizing + resize_start_w resizing - drag_correction_x resizing < x + WLX_MIN_WINDOW_SIZE"
proof (rule clamped_left_edge_slides[where i = 1])
  show "fst (drag_edges resizing)" by code_simp
  show "resize_start_w resizing - WLX_MIN_WINDOW_SIZE < 800 - resize_start_pointer_x resizing" by code_simp
qed (rule resizing_ready)+

lemma drag_requests_are_throttled_witness:
  "let d' = drag_run drag_cfg drag_wins
       [DragMotion (1, 0) (pointer_at 9 9), DragMotion (1, 900000) (pointer_at 10 10), ButtonUp] resizing
   in length (d_log resizing) \<le> length (d_log d')
    \<and> int (length (d_log d') - length (d_log resizing)) * 15000000
        \<le> nsec_of (drag_last_send_at d') - nsec_of (drag_last_send_at resizing)"
  unfolding Let_def by (rule drag_requests_are_throttled) simp

lemma no_request_after_drag_witness:
  "d_log (drag_run drag_cfg drag_wins [ButtonUp, DragMotion (1, 0) (pointer_at 9 9)] resizing) = d_log resizing
   \<and> d_log (drag_run drag_cfg drag_wins [WindowGone 1, DragMotion (1, 0) (pointer_at 9 9)] resizing) = d_log resizing"
proof -
  have "only_drags 1 resizing" by code_simp
  with no_request_after_drag[of "[DragMotion (1, 0) (pointer_at 9 9)]" drag_cfg drag_wins resizing 1]
  show ?thesis by simp
qed

section \<open>Selections\<close>

definition sample_sel :: sel_cfg where
  "sample_sel =
     \<lparr>s_have_xcb = True, s_window = 2, atom_clipboard = 30, atom_primary = 31, atom_targets = 32,
      atom_utf8_string = 33, atom_string = 34, atom_text = 35, atom_text_html = 36,
      atom_wlx_clipboard = 37, atom_wlx_primary = 38, atom_incr = 39\<rparr>"

definition sample_sel_env :: sel_env where
  "sample_sel_env =
     \<lparr>realloc_ok = (\<lambda>_. True), malloc_ok = (\<lambda>_. True), junk = (\<lambda>_. 0), owner_reply = (\<lambda>_. Some 2),
      pipe_fds = Some (8, 9), add_fd_ok = True, prop_reply = (\<lambda>_. Some (33, [104, 105])),
      calloc_ok = True, mimes_ok = True\<rparr>"

definition empty_side :: sel_side where
  "empty_side = \<lparr>out_text = None, out_len = 0, we_own_x11 = False, in_text = None, in_len = 0,
     setting_from_x11 = False\<rparr>"

definition sample_clip :: clip_state where
  "sample_clip = \<lparr>clip = empty_side, pri = empty_side, clip_read_source = False, clip_read_fd = 5,
     clip_read = tb_empty, clip_read_is_primary = False, c_log = []\<rparr>"

lemma sample_sel_ok [simp]:
  "sel_atoms_ok sample_sel" "heap_total (heap_env.truncate sample_sel_env)"
  "s_have_xcb sample_sel" "pipe_fds sample_sel_env = Some (8, 9)" "add_fd_ok sample_sel_env"
  by (simp_all add: sel_atoms_ok_def sample_sel_def heap_total_def heap_env.truncate_def
      sample_sel_env_def XCB_WINDOW_NONE_def)

lemma sample_mime [simp]:
  "clipboard_pick_mime [''image/png'', ''text/plain''] = Some ''text/plain''"
  "primary_pick_mime [''image/png'', ''text/plain''] = Some ''text/plain''"
  by code_simp+

lemma copied_text_reaches_x11_witness:
  "\<exists>s'. clip_activations sample_sel sample_sel_env (transfer [Some [[104]], None, Some [[105, 33]]] (HangUp True [ReadEof]))
          (export_source True sample_sel sample_sel_env [''image/png'', ''text/plain''] sample_clip) = Some s'
    \<and> c_log (clipboard_handle_selection_request sample_sel
          \<lparr>sr_requestor = 77, sr_selection = 31, sr_target = 33, sr_property = 50\<rparr> s') =
        c_log s' @ [ChangeProperty 77 50 33 [104, 105, 33],
                    reply_to \<lparr>sr_requestor = 77, sr_selection = 31, sr_target = 33, sr_property = 50\<rparr> 50]"
  using copied_text_reaches_x11[of sample_sel sample_sel_env "[''image/png'', ''text/plain'']" "''text/plain''" 8 9
      "[104, 105, 33]" "[Some [[104]], None, Some [[105, 33]]]" "HangUp True [ReadEof]"
      "\<lparr>sr_requestor = 77, sr_selection = 31, sr_target = 33, sr_property = 50\<rparr>" True sample_clip]
  by (simp add: WLX_CLIPBOARD_MAX_def chunks_read_def woken_chunks_def) (simp add: sample_sel_def sel_atom_def)

lemma oversized_selection_refused_witness:
  "\<exists>s'. clipboard_read_fd sample_sel sample_sel_env False True
          (map ReadBytes (replicate 300 (replicate 4096 65)) @ [ReadEof])
          (export_source False sample_sel sample_sel_env [''image/png'', ''text/plain''] sample_clip) = Some s'
    \<and> side True s' = side True sample_clip \<and> clip_read s' = tb_empty \<and> \<not> clip_read_source s'
    \<and> c_log s' = c_log (export_source False sample_sel sample_sel_env [''image/png'', ''text/plain''] sample_clip)
        @ (if 0 \<le> (8::int) then [CloseFd 8] else [])"
  by (rule oversized_selection_refused[where m = "''text/plain''" and w = 9 and s = sample_clip])
     (simp_all add: WLX_CLIPBOARD_MAX_def length_concat sum_list_replicate)

lemma hangup_drops_pending_data_witness:
  "\<exists>s'. clipboard_read_fd sample_sel sample_sel_env True True (ReadBytes [104, 105] # [ReadEof])
          (export_source False sample_sel sample_sel_env [''image/png'', ''text/plain''] sample_clip) = Some s'
    \<and> side False s' = side False sample_clip \<and> clip_read s' = tb_empty \<and> \<not> clip_read_source s'"
  by (rule hangup_drops_pending_data[where m = "''text/plain''" and r = 8 and w = 9]) simp_all

lemma primary_export_drops_copy_witness:
  "let s = sample_clip\<lparr>clip_read := \<lparr>tb_buf = Some [104, 105, 0, 0], tb_len = 2, tb_cap = 4\<rparr>\<rparr>;
       s' = primary_export_wayland_source sample_sel sample_sel_env [''image/png'', ''text/plain''] s
   in clip_read s' = tb_empty \<and> side False s' = side False s \<and> CloseFd (clip_read_fd s) \<in> set (c_log s')"
  unfolding Let_def
  by (rule primary_export_drops_copy[where m = "''text/plain''" and r = 8 and w = 9 and got = "[104, 105]"])
     (simp_all add: sample_clip_def tb_text_def)

lemma x11_text_reaches_wayland_witness:
  "let s1 = clipboard_handle_selection_notify sample_sel sample_sel_env
        \<lparr>sn_requestor = 2, sn_selection = 30, sn_property = 37\<rparr> sample_clip
   in \<exists>cs. c_log (source_send False 6 [WriteIntr, Wrote 1, Wrote 1] s1) = c_log s1 @ cs @ [CloseFd 6]
        \<and> written cs = [104, 105]"
  unfolding Let_def
  by (rule x11_text_reaches_wayland[where cfg = sample_sel and env = sample_sel_env and type = 33 and s = sample_clip])
     (simp_all add: WLX_CLIPBOARD_MAX_def sel_atom_def sel_prop_def sample_sel_env_def sample_sel_def sel_atoms_ok_def
        heap_total_def heap_env.truncate_def XCB_WINDOW_NONE_def)

lemma no_clipboard_loop_witness:
  "\<exists>cs. c_log (fold (x11_sel_step sample_sel) [XOwner 30 99, XOwner 30 2, XOwner 31 0] sample_clip) = c_log sample_clip @ cs
     \<and> \<not> list_ex is_claim cs \<and> converted cs = [30]"
  using no_clipboard_loop[of sample_sel "[XOwner 30 99, XOwner 30 2, XOwner 31 0]" sample_clip]
  by (simp add: foreign_selections_def) (simp add: sample_sel_def XCB_WINDOW_NONE_def)

end
