(* ===== verification/Dnd.thy ===== *)
theory Dnd
  imports X11_Windows Clipboard
begin

unbundle bit_operations_syntax

text \<open>
  Drag and drop between Wayland clients and the host by the XDND protocol (\<open>src/dnd.c\<close>): the
  outbound drag of a Wayland source over X11 windows, the inbound drop of an X11 source, the
  selection both use. The messages are kept in a trace, newest last. The inbound text is handed to
  the clipboard, whose state is part of the record.
\<close>

section \<open>Data\<close>

record dnd_cfg = sel_cfg +
  xdnd_enter :: atom
  xdnd_position :: atom
  xdnd_status :: atom
  xdnd_leave :: atom
  xdnd_drop :: atom
  xdnd_finished :: atom
  xdnd_selection :: atom
  xdnd_action_copy :: atom
  atom_text_uri_list :: atom
  atom_wlx_dnd :: atom

datatype (plugins only: code size) dnd_call =
    DndMessage xid atom "32 word list"
  | DndSel sel_call

record dnd_env = wlx_env +
  q_aware :: "xid \<Rightarrow> 32 word option" \<comment> \<open>first word of \<open>XdndAware\<close>, if it can be read\<close>
  surface_hit :: bool \<comment> \<open>a Wayland surface is under the cursor\<close>
  xdnd_owner :: "xid option" \<comment> \<open>reply to \<open>get_selection_owner(XdndSelection)\<close>\<close>
  xdnd_prop :: "(atom \<times> byte list) option" \<comment> \<open>the dropped value\<close>
  d_sel_env :: sel_env

record dnd_state =
  dnd_out_active :: bool
  dnd_out_target :: xid
  dnd_out_version :: int
  dnd_out_accepted :: bool
  dnd_out_text :: "byte list option"
  dnd_out_len :: nat
  dnd_out_is_uri :: bool
  dnd_out_drag :: bool
  dnd_in_active :: bool
  dnd_in_source :: xid
  dnd_in_version :: int
  dnd_in_our_window :: xid
  dnd_clip :: clip_state
  x_log :: "dnd_call list"

definition dnd_say :: "dnd_call list \<Rightarrow> dnd_state \<Rightarrow> dnd_state" where
  "dnd_say cs d = d\<lparr>x_log := x_log d @ cs\<rparr>"

section \<open>Targets\<close>

definition dnd_window_is_ours :: "dnd_cfg \<Rightarrow> wlx_window list \<Rightarrow> xid \<Rightarrow> bool" where
  "dnd_window_is_ours dc wins w \<longleftrightarrow>
     w = XCB_WINDOW_NONE \<or> w = s_window dc
     \<or> list_ex (\<lambda>win. w = xwin win \<or> w = content_xwin win \<or> List.member (related win) w) wins"

definition dnd_get_aware_version :: "wlx_config \<Rightarrow> dnd_env \<Rightarrow> xid \<Rightarrow> int" where
  "dnd_get_aware_version cfg env w =
     (if \<not> have_xcb cfg \<or> w = XCB_WINDOW_NONE then - 1
      else case q_aware env w of None \<Rightarrow> - 1 | Some v \<Rightarrow> sint v)"

fun dnd_descend :: "dnd_env \<Rightarrow> nat \<Rightarrow> xid \<Rightarrow> xid" where
  "dnd_descend env 0 cur = cur"
| "dnd_descend env (Suc n) cur =
     (case q_child_at env cur of
        None \<Rightarrow> cur
      | Some c \<Rightarrow> if c = XCB_WINDOW_NONE then cur else dnd_descend env n c)"

text \<open>The walk up to the root; its result is \<open>None\<close> when it does not return. The inner option is
  the target with its version.\<close>

partial_function (option) dnd_climb ::
  "wlx_config \<Rightarrow> dnd_cfg \<Rightarrow> dnd_env \<Rightarrow> wlx_window list \<Rightarrow> xid \<Rightarrow> (xid \<times> int) option option" where
  "dnd_climb cfg dc env wins cur =
     (if cur = XCB_WINDOW_NONE \<or> cur = xcb_root cfg then Some None
      else if dnd_window_is_ours dc wins cur then Some None
      else if 0 \<le> dnd_get_aware_version cfg env cur
      then Some (Some (cur, if 5 < dnd_get_aware_version cfg env cur then 5
                            else dnd_get_aware_version cfg env cur))
      else case q_parent env cur of
          None \<Rightarrow> Some None
        | Some p \<Rightarrow> dnd_climb cfg dc env wins p)"

definition dnd_find_aware_target ::
  "wlx_config \<Rightarrow> dnd_cfg \<Rightarrow> dnd_env \<Rightarrow> wlx_window list \<Rightarrow> (xid \<times> int) option option" where
  "dnd_find_aware_target cfg dc env wins =
     (if q_pointer env = None then Some None
      else if q_pointer_child env = XCB_WINDOW_NONE then Some None
      else dnd_climb cfg dc env wins (dnd_descend env 16 (q_pointer_child env)))"

section \<open>Outbound\<close>

definition dnd_out_leave :: "dnd_cfg \<Rightarrow> dnd_state \<Rightarrow> dnd_state" where
  "dnd_out_leave dc d =
     (if dnd_out_target d \<noteq> XCB_WINDOW_NONE
      then (dnd_say [DndMessage (dnd_out_target d) (xdnd_leave dc) [s_window dc, 0, 0, 0, 0]] d)
             \<lparr>dnd_out_target := XCB_WINDOW_NONE, dnd_out_accepted := False\<rparr>
      else d)"

definition dnd_out_finish :: "dnd_cfg \<Rightarrow> dnd_env \<Rightarrow> dnd_state \<Rightarrow> dnd_state" where
  "dnd_out_finish dc env d =
     (let d1 = (dnd_out_leave dc d)\<lparr>dnd_out_active := False, dnd_out_drag := False,
                 dnd_out_text := None, dnd_out_len := 0, dnd_out_is_uri := False\<rparr>
      in if s_have_xcb dc \<and> s_window dc \<noteq> XCB_WINDOW_NONE \<and> xdnd_owner env = Some (s_window dc)
         then dnd_say [DndSel (SetSelectionOwner XCB_WINDOW_NONE (xdnd_selection dc))] d1 else d1)"

definition pack_pos :: "int \<Rightarrow> int \<Rightarrow> 32 word" where
  "pack_pos px py = push_bit 16 (ucast (word_of_int px :: 16 word)) OR ucast (word_of_int py :: 16 word)"

definition dnd_enter :: "dnd_cfg \<Rightarrow> xid \<Rightarrow> int \<Rightarrow> dnd_state \<Rightarrow> dnd_state" where
  "dnd_enter dc target version d =
     (let d1 = (dnd_out_leave dc d)\<lparr>dnd_out_target := target, dnd_out_version := version,
                 dnd_out_accepted := False\<rparr>;
          typ = (if dnd_out_is_uri d1 then atom_text_uri_list dc else atom_utf8_string dc)
      in dnd_say [DndMessage target (xdnd_enter dc)
                    [s_window dc, push_bit 24 (word_of_int version), typ, 0, 0]] d1)"

text \<open>\<open>None\<close>: the search for the target does not return.\<close>

definition dnd_out_update_position ::
  "wlx_config \<Rightarrow> dnd_cfg \<Rightarrow> dnd_env \<Rightarrow> wlx_window list \<Rightarrow> dnd_state \<Rightarrow> dnd_state option" where
  "dnd_out_update_position cfg dc env wins d =
     (if \<not> dnd_out_active d \<or> \<not> s_have_xcb dc \<or> dnd_out_text d = None then Some d
      else case q_pointer env of
          None \<Rightarrow> Some d
        | Some (px, py) \<Rightarrow>
            if surface_hit env then Some (dnd_out_leave dc d)
            else (case dnd_find_aware_target cfg dc env wins of
                None \<Rightarrow> None
              | Some None \<Rightarrow> Some (dnd_out_leave dc d)
              | Some (Some (target, version)) \<Rightarrow>
                  let d1 = (if target \<noteq> dnd_out_target d then dnd_enter dc target version d else d)
                  in Some (dnd_say [DndMessage target (xdnd_position dc)
                             [s_window dc, 0, pack_pos px py, 0, xdnd_action_copy dc]] d1)))"

definition dnd_out_on_button_release :: "dnd_cfg \<Rightarrow> dnd_env \<Rightarrow> dnd_state \<Rightarrow> dnd_state" where
  "dnd_out_on_button_release dc env d =
     (if \<not> dnd_out_active d then d
      else if dnd_out_target d \<noteq> XCB_WINDOW_NONE \<and> dnd_out_accepted d
      then dnd_say [DndMessage (dnd_out_target d) (xdnd_drop dc) [s_window dc, 0, 0, 0, 0]] d
      else dnd_out_finish dc env d)"

text \<open>Serving \<open>XdndSelection\<close>: whether the request was for it, and the answer.\<close>

definition dnd_handle_selection_request ::
  "dnd_cfg \<Rightarrow> selection_request \<Rightarrow> dnd_state \<Rightarrow> bool \<times> dnd_state" where
  "dnd_handle_selection_request dc req d =
     (case (if sr_selection req \<noteq> xdnd_selection dc \<or> \<not> dnd_out_active d then None else dnd_out_text d) of
        None \<Rightarrow> (False, d)
      | Some out \<Rightarrow>
          if sr_target req = atom_targets dc then
            (True, dnd_say [DndSel (ChangeAtoms (sr_requestor req) (sr_property req)
                       [atom_targets dc, atom_utf8_string dc, atom_text_uri_list dc, atom_string dc, atom_text dc]),
                     DndSel (reply_to req (sr_property req))] d)
          else if sr_target req = atom_utf8_string dc \<or> sr_target req = atom_text_uri_list dc
                  \<or> sr_target req = atom_string dc \<or> sr_target req = atom_text dc then
            (True, dnd_say [DndSel (ChangeProperty (sr_requestor req) (sr_property req) (sr_target req)
                       (take (dnd_out_len d) out)),
                     DndSel (reply_to req (sr_property req))] d)
          else (True, dnd_say [DndSel (reply_to req 0)] d))"

section \<open>Messages\<close>

record client_message =
  cm_window :: xid
  cm_type :: atom
  cm_format :: nat
  cm_data :: "32 word list" \<comment> \<open>five words\<close>

definition dnd_handle_client_message :: "dnd_cfg \<Rightarrow> dnd_env \<Rightarrow> client_message \<Rightarrow> dnd_state \<Rightarrow> dnd_state" where
  "dnd_handle_client_message dc env ev d =
     (if cm_format ev \<noteq> 32 then d
      else if cm_type ev = xdnd_status dc \<and> dnd_out_active d
      then d\<lparr>dnd_out_accepted := (cm_data ev ! 1) AND 1 \<noteq> 0\<rparr>
      else if cm_type ev = xdnd_finished dc \<and> dnd_out_active d then dnd_out_finish dc env d
      else if cm_type ev = xdnd_enter dc then
        let v = uint (drop_bit 24 (cm_data ev ! 1) AND 255)
        in d\<lparr>dnd_in_active := True, dnd_in_source := cm_data ev ! 0,
             dnd_in_version := if 5 < v then 5 else v, dnd_in_our_window := cm_window ev\<rparr>
      else if cm_type ev = xdnd_position dc \<and> dnd_in_active d
      then dnd_say [DndMessage (dnd_in_source d) (xdnd_status dc)
                      [cm_window ev, 1, 0, 0, xdnd_action_copy dc]] d
      else if cm_type ev = xdnd_leave dc
      then d\<lparr>dnd_in_active := False, dnd_in_source := XCB_WINDOW_NONE\<rparr>
      else if cm_type ev = xdnd_drop dc \<and> dnd_in_active d
      then dnd_say [DndSel (DeleteProperty (s_window dc) (atom_wlx_dnd dc)),
                    DndSel (ConvertSelection (xdnd_selection dc) (atom_utf8_string dc) (atom_wlx_dnd dc))] d
      else d)"

definition dnd_finished :: "dnd_cfg \<Rightarrow> 32 word \<Rightarrow> 32 word \<Rightarrow> dnd_state \<Rightarrow> dnd_state" where
  "dnd_finished dc ok action d =
     (if dnd_in_source d \<noteq> XCB_WINDOW_NONE
      then dnd_say [DndMessage (dnd_in_source d) (xdnd_finished dc) [dnd_in_our_window d, ok, action, 0, 0]] d
      else d)"

definition dnd_handle_selection_notify ::
  "dnd_cfg \<Rightarrow> dnd_env \<Rightarrow> selection_notify \<Rightarrow> dnd_state \<Rightarrow> dnd_state" where
  "dnd_handle_selection_notify dc env ev d =
     (if sn_property ev = 0 \<or> sn_requestor ev \<noteq> s_window dc \<or> sn_selection ev \<noteq> xdnd_selection dc then d
      else case xdnd_prop env of
          None \<Rightarrow> (dnd_finished dc 0 0 d)\<lparr>dnd_in_active := False\<rparr>
        | Some (type, bytes) \<Rightarrow>
            if type = 0 \<or> bytes = [] then (dnd_finished dc 0 0 d)\<lparr>dnd_in_active := False\<rparr>
            else
              let d1 = (if malloc_ok (d_sel_env env) (length bytes + 1)
                        then d\<lparr>dnd_clip := clipboard_offer_x11_text_to_wayland (d_sel_env env)
                                  (bytes @ [0]) (length bytes) (dnd_clip d)\<rparr>
                        else d)
              in (dnd_finished dc 1 (xdnd_action_copy dc) d1)
                   \<lparr>dnd_in_active := False, dnd_in_source := XCB_WINDOW_NONE\<rparr>)"

text \<open>The drag's end on the Wayland side.\<close>

definition drag_destroy :: "dnd_cfg \<Rightarrow> dnd_env \<Rightarrow> dnd_state \<Rightarrow> dnd_state" where
  "drag_destroy dc env d =
     (let d1 = d\<lparr>dnd_out_drag := False\<rparr>
      in if \<not> (dnd_out_active d1 \<and> dnd_out_target d1 \<noteq> XCB_WINDOW_NONE \<and> dnd_out_accepted d1)
         then dnd_out_finish dc env d1 else d1)"

section \<open>Events\<close>

text \<open>What reaches this part apart from the start of a drag: pointer motion and button release,
  messages, requests and notifies from X11, and the end of the Wayland drag.\<close>

datatype (plugins only: code size) dnd_input =
    DMotion
  | DRelease
  | DMessage client_message
  | DRequest selection_request
  | DNotify selection_notify
  | DDestroy

fun dnd_input_step ::
  "wlx_config \<Rightarrow> dnd_cfg \<Rightarrow> dnd_env \<Rightarrow> wlx_window list \<Rightarrow> dnd_input \<Rightarrow> dnd_state \<Rightarrow> dnd_state option" where
  "dnd_input_step cfg dc env wins DMotion d = dnd_out_update_position cfg dc env wins d"
| "dnd_input_step cfg dc env wins DRelease d = Some (dnd_out_on_button_release dc env d)"
| "dnd_input_step cfg dc env wins (DMessage ev) d = Some (dnd_handle_client_message dc env ev d)"
| "dnd_input_step cfg dc env wins (DRequest req) d = Some (snd (dnd_handle_selection_request dc req d))"
| "dnd_input_step cfg dc env wins (DNotify ev) d = Some (dnd_handle_selection_notify dc env ev d)"
| "dnd_input_step cfg dc env wins DDestroy d = Some (drag_destroy dc env d)"

text \<open>The events one call of \<open>wl_event_loop_dispatch\<close> handles, each with the answers of the X server
  and the windows of its time; \<open>None\<close>: a handler does not return.\<close>

fun dnd_dispatch ::
  "wlx_config \<Rightarrow> dnd_cfg \<Rightarrow> (dnd_env \<times> wlx_window list \<times> dnd_input) list \<Rightarrow> dnd_state \<Rightarrow> dnd_state option" where
  "dnd_dispatch cfg dc [] d = Some d"
| "dnd_dispatch cfg dc ((env, wins, e) # es) d =
     Option.bind (dnd_input_step cfg dc env wins e d) (dnd_dispatch cfg dc es)"

section \<open>Start of a Wayland drag\<close>

text \<open>The scan over the source's types: the last \<open>text/uri-list\<close> and the first text type.\<close>

definition dnd_text_mime :: "string \<Rightarrow> bool" where
  "dnd_text_mime p \<longleftrightarrow> p = ''text/plain;charset=utf-8'' \<or> p = ''text/plain'' \<or> text_prefix p"

definition dnd_scan_mime :: "string \<Rightarrow> string option \<times> string option \<Rightarrow> string option \<times> string option" where
  "dnd_scan_mime p acc =
     (if p = ''text/uri-list'' then (Some p, snd acc)
      else if snd acc = None \<and> dnd_text_mime p then (fst acc, Some p) else acc)"

definition dnd_scan_mimes :: "string list \<Rightarrow> string option \<times> string option" where
  "dnd_scan_mimes mimes = fold dnd_scan_mime mimes (None, None)"

definition dnd_pick_mime :: "string list \<Rightarrow> string option" where
  "dnd_pick_mime mimes =
     (case fst (dnd_scan_mimes mimes) of None \<Rightarrow> snd (dnd_scan_mimes mimes) | Some m \<Rightarrow> Some m)"

text \<open>
  One turn of the read loop: what \<open>poll\<close> and then \<open>read\<close> return. When nothing comes for 5 ms the loop
  dispatches the events that have arrived, from within the handler of the drag's start; no other
  drag can start in there as long as this one lasts, \<open>wlr_seat_request_start_drag\<close> rejects it.
\<close>

datatype (plugins only: code size) poll_result =
    PollError
  | PollTimeout "(dnd_env \<times> wlx_window list \<times> dnd_input) list"
  | PollRead read_result

datatype dnd_read = Collected text_buf | GivenUp | NeverEnds

fun dnd_read_loop ::
  "wlx_config \<Rightarrow> dnd_cfg \<Rightarrow> heap_env \<Rightarrow> nat \<Rightarrow> poll_result list \<Rightarrow> text_buf \<Rightarrow> dnd_state
     \<Rightarrow> dnd_read \<times> dnd_state" where
  "dnd_read_loop cfg dc he 0 ps tb d = (Collected tb, d)"
| "dnd_read_loop cfg dc he (Suc n) [] tb d = (Collected tb, d)"
| "dnd_read_loop cfg dc he (Suc n) (PollError # ps) tb d = (Collected tb, d)"
| "dnd_read_loop cfg dc he (Suc n) (PollTimeout es # ps) tb d =
     (case dnd_dispatch cfg dc es d of
        None \<Rightarrow> (NeverEnds, d)
      | Some d1 \<Rightarrow> dnd_read_loop cfg dc he n ps tb d1)"
| "dnd_read_loop cfg dc he (Suc n) (PollRead ReadAgain # ps) tb d = dnd_read_loop cfg dc he n ps tb d"
| "dnd_read_loop cfg dc he (Suc n) (PollRead ReadError # ps) tb d = (Collected tb, d)"
| "dnd_read_loop cfg dc he (Suc n) (PollRead ReadEof # ps) tb d = (Collected tb, d)"
| "dnd_read_loop cfg dc he (Suc n) (PollRead (ReadBytes c) # ps) tb d =
     (case dnd_append he c tb of
        Appended tb1 \<Rightarrow> dnd_read_loop cfg dc he n ps tb1 d
      | TooLong \<Rightarrow> (GivenUp, d)
      | NoMemory \<Rightarrow> (GivenUp, d)
      | _ \<Rightarrow> (NeverEnds, d))"

text \<open>\<open>ps\<close> is what the pipe delivers; \<open>None\<close> is a loop that does not end.\<close>

definition dnd_out_begin_from_source ::
  "wlx_config \<Rightarrow> dnd_cfg \<Rightarrow> dnd_env \<Rightarrow> wlx_window list \<Rightarrow> string list \<Rightarrow> poll_result list \<Rightarrow> dnd_state
     \<Rightarrow> dnd_state option" where
  "dnd_out_begin_from_source cfg dc env wins mimes ps d =
     (if \<not> s_have_xcb dc then Some d
      else
        case dnd_pick_mime mimes of
             None \<Rightarrow> Some d
           | Some m \<Rightarrow>
               let d1 = d\<lparr>dnd_out_is_uri := fst (dnd_scan_mimes mimes) \<noteq> None\<rparr>
               in case pipe_fds (d_sel_env env) of
                    None \<Rightarrow> Some d1
                  | Some (r, w) \<Rightarrow>
                      let d2 = dnd_say [DndSel (SourceSend False m w), DndSel (CloseFd w)] d1
                      in case dnd_read_loop cfg dc (heap_env.truncate (d_sel_env env)) 100 ps tb_empty d2 of
                           (NeverEnds, _) \<Rightarrow> None
                         | (GivenUp, d3) \<Rightarrow> Some (dnd_say [DndSel (CloseFd r)] d3)
                         | (Collected tb, d3) \<Rightarrow>
                             let d3 = dnd_say [DndSel (CloseFd r)] d3
                             in if tb_buf tb = None \<or> tb_len tb = 0 then Some d3
                                else dnd_out_update_position cfg dc env wins
                                  (dnd_say [DndSel (SetSelectionOwner (s_window dc) (xdnd_selection dc))]
                                     (d3\<lparr>dnd_out_text := tb_buf tb, dnd_out_len := tb_len tb,
                                         dnd_out_active := True, dnd_out_target := XCB_WINDOW_NONE,
                                         dnd_out_accepted := False\<rparr>)))"

text \<open>\<open>server_start_drag\<close> with the source's types if it has a source.\<close>

definition server_start_drag ::
  "wlx_config \<Rightarrow> dnd_cfg \<Rightarrow> dnd_env \<Rightarrow> wlx_window list \<Rightarrow> string list option \<Rightarrow> poll_result list \<Rightarrow> dnd_state
     \<Rightarrow> dnd_state option" where
  "server_start_drag cfg dc env wins source ps d =
     (let d1 = d\<lparr>dnd_out_drag := True\<rparr>
      in case source of
           None \<Rightarrow> Some d1
         | Some mimes \<Rightarrow> dnd_out_begin_from_source cfg dc env wins mimes ps d1)"

section \<open>The search for a target\<close>

definition aware_target :: "dnd_cfg \<Rightarrow> wlx_window list \<Rightarrow> xid \<times> int \<Rightarrow> bool" where
  "aware_target dc wins tv \<longleftrightarrow> fst tv \<noteq> XCB_WINDOW_NONE \<and> \<not> dnd_window_is_ours dc wins (fst tv)
     \<and> 0 \<le> snd tv \<and> snd tv \<le> 5"

lemma dnd_climb_returns:
  fixes env :: dnd_env
  assumes "\<And>w p. q_parent env w = Some p \<Longrightarrow> depth p < (depth w :: nat)"
  shows "\<exists>r. dnd_climb cfg dc env wins cur = Some r"
proof (induction "depth cur" arbitrary: cur rule: less_induct)
  case less
  show ?case
  proof (cases "q_parent env cur")
    case None
    then show ?thesis by (subst dnd_climb.simps) simp
  next
    case (Some p)
    with assms less obtain r where "dnd_climb cfg dc env wins p = Some r" by blast
    with Some show ?thesis by (subst dnd_climb.simps) simp
  qed
qed

lemma dnd_climb_target:
  assumes "dnd_climb cfg dc env wins cur = Some r"
  shows "\<forall>tv. r = Some tv \<longrightarrow> aware_target dc wins tv"
proof (rule dnd_climb.raw_induct[OF _ assms, of "\<lambda>cfg dc env wins cur r. \<forall>tv. r = Some tv \<longrightarrow> aware_target dc wins tv"])
  fix f cfg dc env wins cur r
  assume IH: "\<And>cfg dc env wins w y. f cfg dc env wins w = Some y \<Longrightarrow> \<forall>tv. y = Some tv \<longrightarrow> aware_target dc wins tv"
    and body: "(if cur = XCB_WINDOW_NONE \<or> cur = xcb_root cfg then Some None
      else if dnd_window_is_ours dc wins cur then Some None
      else if 0 \<le> dnd_get_aware_version cfg env cur
      then Some (Some (cur, if 5 < dnd_get_aware_version cfg env cur then 5 else dnd_get_aware_version cfg env cur))
      else case q_parent env cur of None \<Rightarrow> Some None | Some p \<Rightarrow> f cfg dc env wins p) = Some r"
  show "\<forall>tv. r = Some tv \<longrightarrow> aware_target dc wins tv"
  proof (cases "cur = XCB_WINDOW_NONE \<or> cur = xcb_root cfg \<or> dnd_window_is_ours dc wins cur")
    case True with body show ?thesis by (auto split: if_splits)
  next
    case False
    then have body': "(if 0 \<le> dnd_get_aware_version cfg env cur
      then Some (Some (cur, if 5 < dnd_get_aware_version cfg env cur then 5 else dnd_get_aware_version cfg env cur))
      else case q_parent env cur of None \<Rightarrow> Some None | Some p \<Rightarrow> f cfg dc env wins p) = Some r"
      using body by simp
    show ?thesis
    proof (cases "0 \<le> dnd_get_aware_version cfg env cur")
      case True
      with body' False show ?thesis by (auto simp: aware_target_def)
    next
      case neg: False
      with body' have "(case q_parent env cur of None \<Rightarrow> Some None | Some p \<Rightarrow> f cfg dc env wins p) = Some r"
        by simp
      then show ?thesis using IH by (cases "q_parent env cur") auto
    qed
  qed
qed

lemma find_target_returns:
  fixes env :: dnd_env
  assumes "\<And>w p. q_parent env w = Some p \<Longrightarrow> depth p < (depth w :: nat)"
  shows "\<exists>r. dnd_find_aware_target cfg dc env wins = Some r"
  using dnd_climb_returns[OF assms] by (simp add: dnd_find_aware_target_def)

lemma find_target_aware:
  "dnd_find_aware_target cfg dc env wins = Some (Some tv) \<Longrightarrow> aware_target dc wins tv"
  using dnd_climb_target[of cfg dc env wins "dnd_descend env 16 (q_pointer_child env)" "Some tv"]
  by (simp add: dnd_find_aware_target_def split: if_splits)

section \<open>Runs\<close>

datatype (plugins only: code size) dnd_event =
    DStart "string list option" "poll_result list"
  | DInput dnd_input

fun dnd_step ::
  "wlx_config \<Rightarrow> dnd_cfg \<Rightarrow> dnd_env \<Rightarrow> wlx_window list \<Rightarrow> dnd_event \<Rightarrow> dnd_state \<Rightarrow> dnd_state option" where
  "dnd_step cfg dc env wins (DStart source ps) d = server_start_drag cfg dc env wins source ps d"
| "dnd_step cfg dc env wins (DInput e) d = dnd_input_step cfg dc env wins e d"

inductive dnd_reach :: "wlx_config \<Rightarrow> dnd_cfg \<Rightarrow> dnd_state \<Rightarrow> dnd_state \<Rightarrow> bool" for cfg dc d0 where
  dnd_start: "dnd_reach cfg dc d0 d0"
| dnd_more: "dnd_reach cfg dc d0 d \<Longrightarrow> dnd_step cfg dc env wins e d = Some d' \<Longrightarrow> dnd_reach cfg dc d0 d'"

text \<open>The target the messages of the current drag have entered and not left; \<open>None\<close> where one went
  elsewhere. A drag that claims XdndSelection begins anew, with no target.\<close>

fun xdnd_track :: "dnd_cfg \<Rightarrow> dnd_call list \<Rightarrow> xid \<Rightarrow> xid option" where
  "xdnd_track dc [] cur = Some cur"
| "xdnd_track dc (DndSel c # cs) cur =
     xdnd_track dc cs (if c = SetSelectionOwner (s_window dc) (xdnd_selection dc) then XCB_WINDOW_NONE else cur)"
| "xdnd_track dc (DndMessage t a ws # cs) cur =
     (if a = xdnd_enter dc then
        if cur = XCB_WINDOW_NONE \<and> t \<noteq> XCB_WINDOW_NONE then xdnd_track dc cs t else None
      else if a = xdnd_position dc \<or> a = xdnd_drop dc then
        if cur = t \<and> t \<noteq> XCB_WINDOW_NONE then xdnd_track dc cs cur else None
      else if a = xdnd_leave dc then
        if cur = t \<and> t \<noteq> XCB_WINDOW_NONE then xdnd_track dc cs XCB_WINDOW_NONE else None
      else xdnd_track dc cs cur)"

lemma xdnd_track_append: "xdnd_track dc (as @ bs) cur = Option.bind (xdnd_track dc as cur) (xdnd_track dc bs)"
  by (induction dc as cur rule: xdnd_track.induct) auto

definition on_target :: "dnd_cfg \<Rightarrow> dnd_state \<Rightarrow> bool" where
  "on_target dc d \<longleftrightarrow> xdnd_track dc (x_log d) XCB_WINDOW_NONE = Some (dnd_out_target d)"

definition xdnd_atoms_ok :: "dnd_cfg \<Rightarrow> bool" where
  "xdnd_atoms_ok dc \<longleftrightarrow> distinct [xdnd_enter dc, xdnd_position dc, xdnd_status dc, xdnd_leave dc,
     xdnd_drop dc, xdnd_finished dc]"

lemma on_target_same:
  "on_target dc d \<Longrightarrow> x_log d' = x_log d \<Longrightarrow> dnd_out_target d' = dnd_out_target d \<Longrightarrow> on_target dc d'"
  by (simp add: on_target_def)

lemma on_target_say:
  assumes "on_target dc d" "x_log d' = x_log d @ cs" "xdnd_track dc cs (dnd_out_target d) = Some (dnd_out_target d')"
  shows "on_target dc d'"
  using assms by (simp add: on_target_def xdnd_track_append)

lemma dnd_say_frame [simp]:
  "x_log (dnd_say cs d) = x_log d @ cs" "dnd_out_target (dnd_say cs d) = dnd_out_target d"
  "dnd_out_active (dnd_say cs d) = dnd_out_active d" "dnd_out_text (dnd_say cs d) = dnd_out_text d"
  "dnd_out_len (dnd_say cs d) = dnd_out_len d" "dnd_out_accepted (dnd_say cs d) = dnd_out_accepted d"
  "dnd_in_source (dnd_say cs d) = dnd_in_source d" "dnd_in_active (dnd_say cs d) = dnd_in_active d"
  "dnd_in_our_window (dnd_say cs d) = dnd_in_our_window d" "dnd_clip (dnd_say cs d) = dnd_clip d"
  by (simp_all add: dnd_say_def)

lemma leave_on_target:
  assumes "xdnd_atoms_ok dc" "on_target dc d"
  shows "on_target dc (dnd_out_leave dc d)" "dnd_out_target (dnd_out_leave dc d) = XCB_WINDOW_NONE"
    "dnd_out_text (dnd_out_leave dc d) = dnd_out_text d" "dnd_out_len (dnd_out_leave dc d) = dnd_out_len d"
    "dnd_out_active (dnd_out_leave dc d) = dnd_out_active d"
  using assms by (auto simp: dnd_out_leave_def on_target_def xdnd_track_append xdnd_atoms_ok_def)

lemma finish_on_target:
  assumes "xdnd_atoms_ok dc" "on_target dc d"
  shows "on_target dc (dnd_out_finish dc env d)"
proof -
  have "xdnd_track dc (x_log (dnd_out_leave dc d)) XCB_WINDOW_NONE = Some XCB_WINDOW_NONE"
    "dnd_out_target (dnd_out_leave dc d) = XCB_WINDOW_NONE"
    using leave_on_target[OF assms] by (simp_all add: on_target_def)
  then show ?thesis by (simp add: dnd_out_finish_def on_target_def xdnd_track_append Let_def)
qed

lemma enter_on_target:
  assumes "xdnd_atoms_ok dc" "on_target dc d" "t \<noteq> XCB_WINDOW_NONE"
  shows "on_target dc (dnd_enter dc t v d)" "dnd_out_target (dnd_enter dc t v d) = t"
proof -
  note l = leave_on_target[OF assms(1,2)]
  show "dnd_out_target (dnd_enter dc t v d) = t" by (simp add: dnd_enter_def Let_def)
  show "on_target dc (dnd_enter dc t v d)"
    using l(1) unfolding on_target_def
    by (simp add: dnd_enter_def Let_def xdnd_track_append l(2) assms(3))
qed

lemma update_on_target:
  assumes "xdnd_atoms_ok dc" "on_target dc d" "dnd_out_update_position cfg dc env wins d = Some d'"
  shows "on_target dc d'"
proof -
  have pos: "on_target dc (dnd_say [DndMessage t (xdnd_position dc) ws] e)"
    if "on_target dc e" "dnd_out_target e = t" "t \<noteq> XCB_WINDOW_NONE" for e t ws
    using that assms(1) by (auto intro!: on_target_say[of dc e] simp: xdnd_atoms_ok_def)
  have found: "on_target dc (dnd_say [DndMessage t (xdnd_position dc) ws]
      (if t \<noteq> dnd_out_target d then dnd_enter dc t v d else d))"
    if "dnd_find_aware_target cfg dc env wins = Some (Some (t, v))" for t v ws
  proof -
    have t: "t \<noteq> XCB_WINDOW_NONE" using find_target_aware[OF that] by (simp add: aware_target_def)
    show ?thesis
      by (rule pos) (use enter_on_target[OF assms(1,2) t] assms(2) t in auto)
  qed
  show ?thesis
    using assms(3) unfolding dnd_out_update_position_def Let_def
    using assms(2) leave_on_target(1)[OF assms(1,2)] found by (auto split: if_splits option.splits)
qed

section \<open>Every step stays on the entered target\<close>

lemma release_on_target:
  assumes "xdnd_atoms_ok dc" "on_target dc d"
  shows "on_target dc (dnd_out_on_button_release dc env d)"
proof -
  have "on_target dc (dnd_say [DndMessage (dnd_out_target d) (xdnd_drop dc) ws] d)"
    if "dnd_out_target d \<noteq> XCB_WINDOW_NONE" for ws
    using assms that unfolding on_target_def by (auto simp: xdnd_track_append xdnd_atoms_ok_def)
  then show ?thesis using assms finish_on_target[OF assms, of env]
    by (simp add: dnd_out_on_button_release_def)
qed

text \<open>Messages that are not part of an outbound drag do not move the target.\<close>

lemma on_target_other:
  assumes "on_target dc d" "x_log d' = x_log d @ cs" "dnd_out_target d' = dnd_out_target d"
    "\<And>cur. xdnd_track dc cs cur = Some cur"
  shows "on_target dc d'"
  using assms by (simp add: on_target_def xdnd_track_append)

lemma on_target_quiet:
  "on_target dc d \<Longrightarrow> (\<And>cur. xdnd_track dc cs cur = Some cur) \<Longrightarrow> on_target dc (dnd_say cs d)"
  by (rule on_target_other[where cs = cs]) simp_all

lemma track_reply:
  "xdnd_atoms_ok dc \<Longrightarrow> xdnd_track dc [DndMessage t (xdnd_status dc) ws] cur = Some cur"
  "xdnd_atoms_ok dc \<Longrightarrow> xdnd_track dc [DndMessage t (xdnd_finished dc) ws] cur = Some cur"
  by (auto simp: xdnd_atoms_ok_def)

lemma message_on_target:
  assumes "xdnd_atoms_ok dc" "on_target dc d"
  shows "on_target dc (dnd_handle_client_message dc env ev d)"
proof -
  have status: "on_target dc (dnd_say [DndMessage t (xdnd_status dc) ws] d)" for t ws
    by (rule on_target_quiet[OF assms(2) track_reply(1)[OF assms(1)]])
  have drop: "on_target dc (dnd_say [DndSel (DeleteProperty x1 x2), DndSel (ConvertSelection x3 x4 x5)] d)"
    for x1 x2 x3 x4 x5
    by (rule on_target_quiet[OF assms(2)]) simp
  have same: "on_target dc (d\<lparr>dnd_out_accepted := a\<rparr>)"
    "on_target dc (d\<lparr>dnd_in_active := b, dnd_in_source := x, dnd_in_version := n, dnd_in_our_window := y\<rparr>)"
    "on_target dc (d\<lparr>dnd_in_active := b, dnd_in_source := x\<rparr>)" for a b x n y
    by (rule on_target_same[OF assms(2)]; simp)+
  show ?thesis unfolding dnd_handle_client_message_def Let_def
    by (simp only: status drop same assms(2) finish_on_target[OF assms] split: if_split) simp
qed

lemma notify_on_target:
  assumes "xdnd_atoms_ok dc" "on_target dc d"
  shows "on_target dc (dnd_handle_selection_notify dc env ev d)"
proof -
  have fin: "on_target dc (dnd_finished dc a b e)" "dnd_out_target (dnd_finished dc a b e) = dnd_out_target e"
    if "on_target dc e" for a b e
    using that on_target_quiet[OF that track_reply(2)[OF assms(1)]] by (simp_all add: dnd_finished_def)
  have clip: "on_target dc (d\<lparr>dnd_clip := c\<rparr>)" for c by (rule on_target_same[OF assms(2)]) simp_all
  have upd: "on_target dc (e\<lparr>dnd_in_active := b\<rparr>)" "on_target dc (e\<lparr>dnd_in_active := b, dnd_in_source := x\<rparr>)"
    if "on_target dc e" for e b x
    using that by (auto intro: on_target_same)
  show ?thesis unfolding dnd_handle_selection_notify_def Let_def
    by (simp only: upd fin clip assms(2) split: if_split option.split prod.split) simp
qed

lemma input_on_target:
  assumes "xdnd_atoms_ok dc" "on_target dc d" "dnd_input_step cfg dc env wins e d = Some d'"
  shows "on_target dc d'"
proof (cases e)
  case (DRequest req)
  have "on_target dc (snd (dnd_handle_selection_request dc req d))"
    using assms(2) unfolding on_target_def
    by (simp add: dnd_handle_selection_request_def xdnd_track_append reply_to_def split: option.split)
  with assms(3) DRequest show ?thesis by auto
next
  case DDestroy
  have "on_target dc (d\<lparr>dnd_out_drag := False\<rparr>)" using assms(2) by (simp add: on_target_def)
  with assms(3) DDestroy finish_on_target[OF assms(1) this, of env] show ?thesis
    by (auto simp: drag_destroy_def Let_def)
qed (use assms(3) update_on_target[OF assms(1,2)] release_on_target[OF assms(1,2)]
    message_on_target[OF assms(1,2)] notify_on_target[OF assms(1,2)] in auto)

lemma dispatch_on_target:
  "xdnd_atoms_ok dc \<Longrightarrow> on_target dc d \<Longrightarrow> dnd_dispatch cfg dc es d = Some d' \<Longrightarrow> on_target dc d'"
  by (induction cfg dc es d rule: dnd_dispatch.induct) (auto simp: bind_eq_Some_conv dest: input_on_target)

lemma loop_on_target:
  "xdnd_atoms_ok dc \<Longrightarrow> on_target dc d \<Longrightarrow> on_target dc (snd (dnd_read_loop cfg dc he n ps tb d))"
  by (induction cfg dc he n ps tb d rule: dnd_read_loop.induct)
    (auto split: option.splits append_result.splits dest: dispatch_on_target)

text \<open>How the start of a drag ends: nothing to export, a failed pipe, a pipe read in vain, or a drag
  with its first position. \<open>d2\<close> is the state after the reading, with what was dispatched in it.\<close>

lemma begin_cases:
  assumes "dnd_out_begin_from_source cfg dc env wins mimes ps d = Some d'"
  obtains (nothing) "d' = d"
  | (no_pipe) u where "d' = d\<lparr>dnd_out_is_uri := u\<rparr>"
  | (empty) u m r w d2 where
      "d2 = snd (dnd_read_loop cfg dc (heap_env.truncate (d_sel_env env)) 100 ps tb_empty
         (dnd_say [DndSel (SourceSend False m w), DndSel (CloseFd w)] (d\<lparr>dnd_out_is_uri := u\<rparr>)))"
      "d' = dnd_say [DndSel (CloseFd r)] d2"
  | (export) u m r w d2 and tb :: text_buf where
      "d2 = snd (dnd_read_loop cfg dc (heap_env.truncate (d_sel_env env)) 100 ps tb_empty
         (dnd_say [DndSel (SourceSend False m w), DndSel (CloseFd w)] (d\<lparr>dnd_out_is_uri := u\<rparr>)))"
      "dnd_out_update_position cfg dc env wins
        (dnd_say [DndSel (SetSelectionOwner (s_window dc) (xdnd_selection dc))]
          ((dnd_say [DndSel (CloseFd r)] d2)
           \<lparr>dnd_out_text := tb_buf tb, dnd_out_len := tb_len tb, dnd_out_active := True,
            dnd_out_target := XCB_WINDOW_NONE, dnd_out_accepted := False\<rparr>)) = Some d'"
proof (cases "s_have_xcb dc")
  case False
  with assms have "d' = d" by (simp add: dnd_out_begin_from_source_def)
  then show ?thesis by (rule nothing)
next
  case xcb: True
  note eq = assms[unfolded dnd_out_begin_from_source_def if_not_P[OF not_not[THEN iffD2, OF xcb]] Let_def]
  show ?thesis
  proof (cases "dnd_pick_mime mimes")
    case None
    with eq have "d' = d" by simp
    then show ?thesis by (rule nothing)
  next
    case (Some m)
    note eq = eq[unfolded Some option.case]
    let ?u = "fst (dnd_scan_mimes mimes) \<noteq> None"
    show ?thesis
    proof (cases "pipe_fds (d_sel_env env)")
      case None
      with eq have "d' = d\<lparr>dnd_out_is_uri := ?u\<rparr>" by simp
      then show ?thesis by (rule no_pipe)
    next
      case (Some rw)
      obtain r w where rw: "rw = (r, w)" by fastforce
      note eq = eq[unfolded Some rw option.case prod.case]
      obtain res d2 where l: "dnd_read_loop cfg dc (heap_env.truncate (d_sel_env env)) 100 ps tb_empty
          (dnd_say [DndSel (SourceSend False m w), DndSel (CloseFd w)] (d\<lparr>dnd_out_is_uri := ?u\<rparr>)) = (res, d2)"
        by fastforce
      have d2: "d2 = snd (dnd_read_loop cfg dc (heap_env.truncate (d_sel_env env)) 100 ps tb_empty
         (dnd_say [DndSel (SourceSend False m w), DndSel (CloseFd w)] (d\<lparr>dnd_out_is_uri := ?u\<rparr>)))"
        by (simp only: l snd_conv)
      note eq = eq[unfolded l prod.case]
      show ?thesis
      proof (cases res)
        case (Collected tb)
        note eq = eq[unfolded Collected dnd_read.case]
        show ?thesis
        proof (cases "tb_buf tb = None \<or> tb_len tb = 0")
          case True
          from eq[unfolded if_P[OF True], THEN option.inject[THEN iffD1], symmetric] show ?thesis by (rule empty[OF d2])
        next
          case False
          show ?thesis by (rule export[OF d2 eq[unfolded if_not_P[OF False]]])
        qed
      next
        case GivenUp
        from eq[unfolded GivenUp dnd_read.case, THEN option.inject[THEN iffD1], symmetric] show ?thesis
          by (rule empty[OF d2])
      next
        case NeverEnds
        from eq[unfolded NeverEnds dnd_read.case] show ?thesis by simp
      qed
    qed
  qed
qed

lemma start_on_target:
  assumes "xdnd_atoms_ok dc" "on_target dc d" "server_start_drag cfg dc env wins source ps d = Some d'"
  shows "on_target dc d'"
proof -
  let ?d = "d\<lparr>dnd_out_drag := True\<rparr>"
  have read: "on_target dc (snd (dnd_read_loop cfg dc he n ps tb
      (dnd_say [DndSel (SourceSend False m w), DndSel (CloseFd w)] (?d\<lparr>dnd_out_is_uri := u\<rparr>))))" for he n tb m w u
    by (rule loop_on_target[OF assms(1) on_target_quiet]) (use assms(2) in \<open>simp_all add: on_target_def\<close>)
  show ?thesis
  proof (cases source)
    case None with assms(2,3) show ?thesis by (auto simp: server_start_drag_def on_target_def)
  next
    case (Some mimes)
    with assms(3) have b: "dnd_out_begin_from_source cfg dc env wins mimes ps ?d = Some d'"
      by (simp add: server_start_drag_def)
    from begin_cases[OF b] show ?thesis
    proof cases
      case 1 with assms(2) show ?thesis by (simp add: on_target_def)
    next
      case 2 with assms(2) show ?thesis by (simp add: on_target_def)
    next
      case (3 u m r w d2)
      have "on_target dc d2" unfolding 3(1) by (rule read)
      then show ?thesis unfolding 3(2) by (rule on_target_quiet) simp
    next
      case (4 u m r w d2 tb)
      have "on_target dc d2" unfolding 4(1) by (rule read)
      then show ?thesis by (intro update_on_target[OF assms(1) _ 4(2)])
        (simp add: on_target_def xdnd_track_append)
    qed
  qed
qed

text \<open>
  C20 (safety). An outbound drag talks only to the X11 window it has entered: in every run, since the drag
  claimed XdndSelection each XdndPosition, XdndDrop and XdndLeave goes to the window of the last
  XdndEnter that has not been left, and every XdndEnter comes when no window is entered. The target
  the code remembers is that window. (What an earlier drag has entered is not left when a new one
  starts, see \<open>new_drag_forgets_target\<close>.)
\<close>

theorem drag_stays_on_target:
  assumes "dnd_reach cfg dc d0 d" "xdnd_atoms_ok dc" "x_log d0 = []" "dnd_out_target d0 = XCB_WINDOW_NONE"
  shows "xdnd_track dc (x_log d) XCB_WINDOW_NONE = Some (dnd_out_target d)"
proof -
  from assms(1) have "on_target dc d"
  proof (induction rule: dnd_reach.induct)
    case dnd_start then show ?case using assms(3,4) by (simp add: on_target_def)
  next
    case (dnd_more d env wins e d')
    show ?case
    proof (cases e)
      case (DStart source ps)
      with dnd_more.hyps(2) show ?thesis by (intro start_on_target[OF assms(2) dnd_more.IH]) simp
    next
      case (DInput i)
      with dnd_more.hyps(2) show ?thesis by (intro input_on_target[OF assms(2) dnd_more.IH]) simp
    qed
  qed
  then show ?thesis by (simp add: on_target_def)
qed

end
