(* ===== verification/Dnd_Transfer.thy ===== *)
theory Dnd_Transfer
  imports Dnd
begin

text \<open>
  What drag and drop delivers: the text of an outbound drag to X11 requestors, the text of an
  inbound drop to Wayland clients, and the cases where the code delivers something else.
\<close>

section \<open>Reading the source of a drag\<close>

definition chunk_polls :: "byte list list \<Rightarrow> poll_result list" where
  "chunk_polls cs = map (\<lambda>c. PollRead (ReadBytes c)) cs"

text \<open>The turns of a source that is alive: a chunk, nothing yet, or nothing for 5 ms, in which other
  events are dispatched, each at a time when the X windows form a tree.\<close>

definition x_tree :: "dnd_env \<Rightarrow> bool" where
  "x_tree env \<longleftrightarrow> (\<exists>depth :: xid \<Rightarrow> nat. \<forall>w p. q_parent env w = Some p \<longrightarrow> depth p < depth w)"

fun live_poll :: "poll_result \<Rightarrow> bool" where
  "live_poll (PollRead (ReadBytes _)) = True"
| "live_poll (PollRead ReadAgain) = True"
| "live_poll (PollTimeout es) = list_all (\<lambda>(env, _). x_tree env) es"
| "live_poll _ = False"

fun poll_chunk :: "poll_result \<Rightarrow> byte list list" where
  "poll_chunk (PollRead (ReadBytes c)) = [c]"
| "poll_chunk _ = []"

definition polled :: "poll_result list \<Rightarrow> byte list list" where
  "polled ps = concat (map poll_chunk ps)"

lemma polled_simps [simp]:
  "polled [] = []" "polled (x # ps) = poll_chunk x @ polled ps" "polled (take n (chunk_polls cs)) = take n cs"
  "list_all live_poll (chunk_polls cs)"
proof -
  have "polled (chunk_polls cs) = cs" for cs by (induction cs) (simp_all add: polled_def chunk_polls_def)
  then show "polled (take n (chunk_polls cs)) = take n cs" by (simp add: chunk_polls_def take_map)
qed (simp_all add: polled_def chunk_polls_def list_all_iff)

lemma update_position_returns:
  assumes "x_tree env"
  shows "\<exists>d'. dnd_out_update_position cfg dc env wins d = Some d'"
proof -
  obtain r where "dnd_find_aware_target cfg dc env wins = Some r"
    using find_target_returns[of env] assms unfolding x_tree_def by metis
  then show ?thesis
    by (cases r) (auto simp: dnd_out_update_position_def Let_def split: option.split prod.split)
qed

lemma dispatch_returns:
  "list_all (\<lambda>(env, _). x_tree env) es \<Longrightarrow> \<exists>d'. dnd_dispatch cfg dc es d = Some d'"
proof (induction cfg dc es d rule: dnd_dispatch.induct)
  case (2 cfg dc env wins e es d)
  have "\<exists>d1. dnd_input_step cfg dc env wins e d = Some d1"
    using 2(2) update_position_returns[of env] by (cases e) auto
  with 2 show ?case by auto
qed simp

text \<open>Every turn takes at most one chunk: what 100 turns have not read is not read at all.\<close>

lemma read_loop_collect:
  assumes "tb_ok tb" "list_all live_poll ps" "collect (dnd_append he) (polled (take n ps)) tb = Some tb'"
  shows "\<exists>d'. dnd_read_loop cfg dc he n (ps @ [PollRead ReadEof]) tb d = (Collected tb', d')"
  using assms
proof (induction ps arbitrary: n tb d)
  case Nil
  then show ?case by (cases n) simp_all
next
  case (Cons q ps)
  show ?case
  proof (cases n)
    case 0 with Cons.prems show ?thesis by simp
  next
    case (Suc k)
    have ps: "list_all live_poll ps" using Cons.prems(2) by simp
    from Cons.prems(2) consider (chunk) c where "q = PollRead (ReadBytes c)" | (again) "q = PollRead ReadAgain"
      | (timeout) es where "q = PollTimeout es" "list_all (\<lambda>(env, _). x_tree env) es"
      by (cases q rule: live_poll.cases) auto
    then show ?thesis
    proof cases
      case (chunk c)
      with Cons.prems(3) Suc obtain tb1 where a: "dnd_append he c tb = Appended tb1"
          "collect (dnd_append he) (polled (take k ps)) tb1 = Some tb'"
        by (auto split: append_result.splits)
      from clip_append_spec[OF Cons.prems(1), where he = he and tmp = c] a(1) have "tb_ok tb1"
        by (simp add: dnd_append_eq)
      from Cons.IH[OF this ps a(2)] Suc a(1) chunk show ?thesis by simp
    next
      case again
      with Cons.IH[OF Cons.prems(1) ps] Cons.prems(3) Suc show ?thesis by simp
    next
      case (timeout es)
      obtain d1 where "dnd_dispatch cfg dc es d = Some d1" using dispatch_returns[OF timeout(2)] by blast
      with Cons.IH[OF Cons.prems(1) ps] Cons.prems(3) Suc timeout(1) show ?thesis by simp
    qed
  qed
qed

lemma read_loop_text:
  assumes "heap_total he" "list_all live_poll ps" "length (concat (polled (take n ps))) \<le> WLX_CLIPBOARD_MAX"
  shows "\<exists>tb d'. dnd_read_loop cfg dc he n (ps @ [PollRead ReadEof]) tb_empty d = (Collected tb, d')
           \<and> tb_ok tb \<and> tb_text tb = concat (polled (take n ps))"
  using drag_reader.collect_fits[of tb_empty he "polled (take n ps)"] assms
    read_loop_collect[of tb_empty ps he n] by fastforce

lemma concat_length_bound:
  "\<forall>c\<in>set cs. length c \<le> k \<Longrightarrow> length (concat cs) \<le> length cs * k"
  by (induction cs) auto

lemma update_position_keeps:
  assumes "dnd_out_update_position cfg dc env wins d = Some d'"
  shows "dnd_out_text d' = dnd_out_text d \<and> dnd_out_len d' = dnd_out_len d
    \<and> dnd_out_active d' = dnd_out_active d"
proof -
  have l: "dnd_out_text (dnd_out_leave dc d) = dnd_out_text d" "dnd_out_len (dnd_out_leave dc d) = dnd_out_len d"
    "dnd_out_active (dnd_out_leave dc d) = dnd_out_active d" by (simp_all add: dnd_out_leave_def)
  have e: "dnd_out_text (dnd_enter dc t v d) = dnd_out_text d" "dnd_out_len (dnd_enter dc t v d) = dnd_out_len d"
    "dnd_out_active (dnd_enter dc t v d) = dnd_out_active d" for t v by (simp_all add: dnd_enter_def l Let_def)
  show ?thesis using assms unfolding dnd_out_update_position_def Let_def
    by (auto simp: l e split: if_splits option.splits)
qed

text \<open>What an X11 target asking for the drag's text as UTF8_STRING is given.\<close>

definition xdnd_request :: "dnd_cfg \<Rightarrow> xid \<Rightarrow> atom \<Rightarrow> selection_request" where
  "xdnd_request dc w p = \<lparr>sr_requestor = w, sr_selection = xdnd_selection dc,
     sr_target = atom_utf8_string dc, sr_property = p\<rparr>"

lemma drag_started_serves:
  assumes "s_have_xcb dc" "dnd_pick_mime mimes = Some m" "pipe_fds (d_sel_env env) = Some (r, w)"
    and "heap_total (heap_env.truncate (d_sel_env env))" "x_tree env" "list_all live_poll ps"
    and "text = concat (polled (take 100 ps))" "text \<noteq> []" "length text \<le> WLX_CLIPBOARD_MAX"
    and "atom_utf8_string dc \<noteq> atom_targets dc"
  shows "\<exists>d'. server_start_drag cfg dc env wins (Some mimes) (ps @ [PollRead ReadEof]) d = Some d'
    \<and> dnd_handle_selection_request dc (xdnd_request dc x p) d' =
       (True, dnd_say [DndSel (ChangeProperty x p (atom_utf8_string dc) text),
                       DndSel (reply_to (xdnd_request dc x p) p)] d')"
proof -
  let ?d = "dnd_say [DndSel (SourceSend False m w), DndSel (CloseFd w)]
        (d\<lparr>dnd_out_drag := True, dnd_out_is_uri := fst (dnd_scan_mimes mimes) \<noteq> None\<rparr>)"
  obtain tb d2 where tb: "dnd_read_loop cfg dc (heap_env.truncate (d_sel_env env)) 100 (ps @ [PollRead ReadEof])
        tb_empty ?d = (Collected tb, d2)" "tb_ok tb" "tb_text tb = text"
    using read_loop_text[OF assms(4,6), of 100] assms(7,9) by metis
  have ne: "\<not> (tb_buf tb = None \<or> tb_len tb = 0)"
  proof -
    have "tb_len tb = length text" using tb_text_length[OF tb(2)] tb(3) by simp
    then have "0 < tb_len tb" using assms(8) by simp
    then show ?thesis using tb(2) by (auto simp: tb_ok_def split: option.splits)
  qed
  then obtain b where b: "tb_buf tb = Some b" "take (tb_len tb) b = text"
    using tb(3) by (auto simp: tb_text_def)
  let ?e = "dnd_say [DndSel (SetSelectionOwner (s_window dc) (xdnd_selection dc))]
     ((dnd_say [DndSel (CloseFd r)] d2)
      \<lparr>dnd_out_text := tb_buf tb, dnd_out_len := tb_len tb, dnd_out_active := True,
       dnd_out_target := XCB_WINDOW_NONE, dnd_out_accepted := False\<rparr>)"
  obtain d' where d': "dnd_out_update_position cfg dc env wins ?e = Some d'"
    using update_position_returns[OF assms(5)] by blast
  have s: "server_start_drag cfg dc env wins (Some mimes) (ps @ [PollRead ReadEof]) d = Some d'"
    unfolding server_start_drag_def Let_def option.case dnd_out_begin_from_source_def assms(2,3) prod.case
      tb(1) dnd_read.case if_not_P[OF ne] using assms(1) d' by simp
  have "dnd_out_active d'" "dnd_out_text d' = Some b" "dnd_out_len d' = tb_len tb"
    using update_position_keeps[OF d'] b(1) by simp_all
  then have "dnd_handle_selection_request dc (xdnd_request dc x p) d' =
       (True, dnd_say [DndSel (ChangeProperty x p (atom_utf8_string dc) text),
                       DndSel (reply_to (xdnd_request dc x p) p)] d')"
    using assms(10) b(2) by (simp add: dnd_handle_selection_request_def xdnd_request_def)
  with s show ?thesis by blast
qed

text \<open>
  C28 (roundtrip). Text dragged out of a Wayland client reaches the X11 window it is dropped on byte
  for byte, when the source has delivered all of it within 100 turns of the read loop: the drag
  starts, and a request for UTF8_STRING of XdndSelection is answered with exactly the bytes of the
  source. A turn is a chunk, a read that finds nothing, or a wait of 5 ms in which nothing came and
  the events that had arrived were handled, whatever they were. There is memory for the text, and the
  replies of the X server describe a tree of windows. (What is not delivered within the
  100 turns is cut off: \<open>long_drag_truncated\<close>.)
\<close>

theorem dragged_text_reaches_x11:
  assumes "s_have_xcb dc" "dnd_pick_mime mimes = Some m" "pipe_fds (d_sel_env env) = Some (r, w)"
    and "heap_total (heap_env.truncate (d_sel_env env))" "x_tree env"
    and "list_all live_poll ps" "length ps \<le> 100"
    and "text = concat (polled ps)" "text \<noteq> []" "length text \<le> WLX_CLIPBOARD_MAX"
    and "atom_utf8_string dc \<noteq> atom_targets dc"
  shows "\<exists>d'. server_start_drag cfg dc env wins (Some mimes) (ps @ [PollRead ReadEof]) d = Some d'
    \<and> dnd_handle_selection_request dc (xdnd_request dc x p) d' =
       (True, dnd_say [DndSel (ChangeProperty x p (atom_utf8_string dc) text),
                       DndSel (reply_to (xdnd_request dc x p) p)] d')"
proof -
  have "take 100 ps = ps" using assms(7) by simp
  with drag_started_serves[of dc mimes m env r w ps "text" cfg wins d x p] assms show ?thesis by simp
qed

text \<open>
  A longer drag is cut off without a word: the loop ends after 100 turns of at most 4096
  bytes, so an X11 target is served the first 100 chunks as if they were the whole text, and the
  1 MiB limit the loop checks is never reached.
\<close>

theorem long_drag_truncated:
  assumes "s_have_xcb dc" "dnd_pick_mime mimes = Some m" "pipe_fds (d_sel_env env) = Some (r, w)"
    and "heap_total (heap_env.truncate (d_sel_env env))" "x_tree env"
    and "\<forall>c\<in>set cs. 0 < length c \<and> length c \<le> 4096" "100 < length cs"
    and "atom_utf8_string dc \<noteq> atom_targets dc"
  shows "\<exists>d' text. server_start_drag cfg dc env wins (Some mimes) (chunk_polls cs @ [PollRead ReadEof]) d = Some d'
    \<and> dnd_handle_selection_request dc (xdnd_request dc x p) d' =
       (True, dnd_say [DndSel (ChangeProperty x p (atom_utf8_string dc) text),
                       DndSel (reply_to (xdnd_request dc x p) p)] d')
    \<and> length text \<le> 409600 \<and> length text < length (concat cs)"
proof -
  let ?t = "concat (take 100 cs)"
  have "\<forall>c\<in>set (take 100 cs). length c \<le> 4096" using assms(6) by (auto dest: in_set_takeD)
  from concat_length_bound[OF this] have max: "length ?t \<le> 409600" using assms(7) by simp
  obtain c cs' where cs: "cs = c # cs'" using assms(7) by (cases cs) auto
  have ne: "?t \<noteq> []" using assms(6) cs by auto
  have "length (concat cs) = length ?t + length (concat (drop 100 cs))"
    by (metis append_take_drop_id concat_append length_append)
  moreover obtain e es where d: "drop 100 cs = e # es" using assms(7) by (cases "drop 100 cs") auto
  moreover have "e \<in> set cs" by (rule in_set_dropD[of _ 100]) (simp add: d)
  ultimately have "length ?t < length (concat cs)" using assms(6) by auto
  moreover have "length ?t \<le> WLX_CLIPBOARD_MAX" using max by (simp add: WLX_CLIPBOARD_MAX_def)
  ultimately show ?thesis
    using drag_started_serves[of dc mimes m env r w "chunk_polls cs" ?t cfg wins d x p] assms ne max
    by (simp only: polled_simps simp_thms) blast
qed

section \<open>Dropping on a Wayland client\<close>

definition enter_message :: "dnd_cfg \<Rightarrow> xid \<Rightarrow> xid \<Rightarrow> client_message" where
  "enter_message dc ours source =
     \<lparr>cm_window = ours, cm_type = xdnd_enter dc, cm_format = 32, cm_data = [source, 83886080, 0, 0, 0]\<rparr>"

definition drop_message :: "dnd_cfg \<Rightarrow> xid \<Rightarrow> xid \<Rightarrow> client_message" where
  "drop_message dc ours source =
     \<lparr>cm_window = ours, cm_type = xdnd_drop dc, cm_format = 32, cm_data = [source, 0, 0, 0, 0]\<rparr>"

definition dropped :: "dnd_cfg \<Rightarrow> selection_notify" where
  "dropped dc = \<lparr>sn_requestor = s_window dc, sn_selection = xdnd_selection dc, sn_property = atom_wlx_dnd dc\<rparr>"

text \<open>An X11 source enters a window, drops, and answers the conversion.\<close>

definition inbound_drop :: "dnd_cfg \<Rightarrow> dnd_env \<Rightarrow> xid \<Rightarrow> xid \<Rightarrow> dnd_state \<Rightarrow> dnd_state" where
  "inbound_drop dc env ours source d =
     dnd_handle_selection_notify dc env (dropped dc)
       (dnd_handle_client_message dc env (drop_message dc ours source)
         (dnd_handle_client_message dc env (enter_message dc ours source) d))"

lemma inbound_drop_eq:
  assumes "xdnd_atoms_ok dc" "atom_wlx_dnd dc \<noteq> 0" "source \<noteq> XCB_WINDOW_NONE"
    "xdnd_prop env = Some (type, bytes)" "type \<noteq> 0" "bytes \<noteq> []" "heap_total (heap_env.truncate (d_sel_env env))"
  shows "dnd_clip (inbound_drop dc env ours source d) =
      clipboard_offer_x11_text_to_wayland (d_sel_env env) (bytes @ [0]) (length bytes) (dnd_clip d)"
    "x_log (inbound_drop dc env ours source d) = x_log d @
      [DndSel (DeleteProperty (s_window dc) (atom_wlx_dnd dc)),
       DndSel (ConvertSelection (xdnd_selection dc) (atom_utf8_string dc) (atom_wlx_dnd dc)),
       DndMessage source (xdnd_finished dc) [ours, 1, xdnd_action_copy dc, 0, 0]]"
    "\<not> dnd_in_active (inbound_drop dc env ours source d)"
    "dnd_in_source (inbound_drop dc env ours source d) = XCB_WINDOW_NONE"
proof -
  have m: "malloc_ok (d_sel_env env) n" for n using assms(7) by (auto simp: heap_total_def heap_env.truncate_def)
  have e: "dnd_handle_client_message dc env (enter_message dc ours source) d =
      d\<lparr>dnd_in_active := True, dnd_in_source := source, dnd_in_version := 5, dnd_in_our_window := ours\<rparr>"
    using assms(1) by (simp add: dnd_handle_client_message_def enter_message_def xdnd_atoms_ok_def Let_def)
  have dr: "dnd_handle_client_message dc env (drop_message dc ours source) t =
      dnd_say [DndSel (DeleteProperty (s_window dc) (atom_wlx_dnd dc)),
        DndSel (ConvertSelection (xdnd_selection dc) (atom_utf8_string dc) (atom_wlx_dnd dc))] t"
    if "dnd_in_active t" for t
    using assms(1) that by (auto simp: dnd_handle_client_message_def drop_message_def xdnd_atoms_ok_def)
  show "dnd_clip (inbound_drop dc env ours source d) =
      clipboard_offer_x11_text_to_wayland (d_sel_env env) (bytes @ [0]) (length bytes) (dnd_clip d)"
    "x_log (inbound_drop dc env ours source d) = x_log d @
      [DndSel (DeleteProperty (s_window dc) (atom_wlx_dnd dc)),
       DndSel (ConvertSelection (xdnd_selection dc) (atom_utf8_string dc) (atom_wlx_dnd dc)),
       DndMessage source (xdnd_finished dc) [ours, 1, xdnd_action_copy dc, 0, 0]]"
    "\<not> dnd_in_active (inbound_drop dc env ours source d)"
    "dnd_in_source (inbound_drop dc env ours source d) = XCB_WINDOW_NONE"
    using assms(2-6) m
    by (simp_all add: inbound_drop_def e dr dnd_handle_selection_notify_def dropped_def dnd_finished_def Let_def)
qed


text \<open>
  A source that answers the drop with an incremental transfer is misread: the handler
  does not look for the type INCR, which the clipboard handler skips, so the four bytes of the size
  become the Wayland selection and the source is told that its drop has been taken.
\<close>

theorem incr_drop_imports_size:
  assumes "xdnd_atoms_ok dc" "atom_wlx_dnd dc \<noteq> 0" "source \<noteq> XCB_WINDOW_NONE" "atom_incr dc \<noteq> 0"
    and "xdnd_prop env = Some (atom_incr dc, [b0, b1, b2, b3])"
    and "heap_total (heap_env.truncate (d_sel_env env))"
    and "d' = inbound_drop dc env ours source d"
  shows "in_text (clip (dnd_clip d')) = Some [b0, b1, b2, b3, 0]
    \<and> last (x_log d') = DndMessage source (xdnd_finished dc) [ours, 1, xdnd_action_copy dc, 0, 0]
    \<and> (prop_reply e (atom_wlx_clipboard dc) = Some (atom_incr dc, [b0, b1, b2, b3]) \<longrightarrow>
        clipboard_handle_selection_notify dc e
          \<lparr>sn_requestor = s_window dc, sn_selection = atom_clipboard dc, sn_property = atom_wlx_clipboard dc\<rparr>
          c = c)"
proof -
  have "bytes \<noteq> []" if "bytes = [b0, b1, b2, b3]" for bytes using that by simp
  note i = inbound_drop_eq[OF assms(1-3,5,4) this[OF refl] assms(6), of ours d, folded assms(7)]
  have "in_text (side False (dnd_clip d')) = Some ([b0, b1, b2, b3] @ [0])"
    unfolding i(1) offer_in_text by simp
  then show ?thesis using i(2) by (simp add: side_def clipboard_handle_selection_notify_def Let_def)
qed

section \<open>How an outbound drag ends\<close>

text \<open>
  Releasing the button ends an outbound drag in one of two ways: over a window that
  has accepted the drag, that window gets one XdndDrop and the text is kept for it; anywhere else the
  drag is over: the entered window, if any, is left, the text is freed, and XdndSelection is given up
  if it was held. Without a drag the release does nothing.
\<close>

theorem release_drops_or_ends:
  assumes "s_have_xcb dc" "s_window dc \<noteq> XCB_WINDOW_NONE" "d' = dnd_out_on_button_release dc env d"
  shows "(\<not> dnd_out_active d \<longrightarrow> d' = d)
    \<and> (dnd_out_active d \<and> dnd_out_target d \<noteq> XCB_WINDOW_NONE \<and> dnd_out_accepted d \<longrightarrow>
         d' = d\<lparr>x_log := x_log d @ [DndMessage (dnd_out_target d) (xdnd_drop dc) [s_window dc, 0, 0, 0, 0]]\<rparr>)
    \<and> (dnd_out_active d \<and> \<not> (dnd_out_target d \<noteq> XCB_WINDOW_NONE \<and> dnd_out_accepted d) \<longrightarrow>
         \<not> dnd_out_active d' \<and> dnd_out_text d' = None \<and> dnd_out_target d' = XCB_WINDOW_NONE
         \<and> x_log d' = x_log d
             @ (if dnd_out_target d \<noteq> XCB_WINDOW_NONE
                then [DndMessage (dnd_out_target d) (xdnd_leave dc) [s_window dc, 0, 0, 0, 0]] else [])
             @ (if xdnd_owner env = Some (s_window dc)
                then [DndSel (SetSelectionOwner XCB_WINDOW_NONE (xdnd_selection dc))] else []))"
  unfolding assms(3) using assms(1,2)
  by (cases "dnd_out_active d"; cases "dnd_out_target d = XCB_WINDOW_NONE")
    (simp_all add: dnd_out_on_button_release_def dnd_out_finish_def dnd_out_leave_def Let_def dnd_say_def)

text \<open>
  A drag that is cancelled over a window that had accepted it is not over: the end of
  the Wayland drag keeps it although no XdndDrop was sent, and the next two button releases, which
  may belong to any click, each drop the text on that window.
\<close>

theorem cancelled_drag_still_drops:
  assumes "dnd_out_active d" "dnd_out_target d \<noteq> XCB_WINDOW_NONE" "dnd_out_accepted d"
  shows "x_log (dnd_out_on_button_release dc e2 (dnd_out_on_button_release dc e1 (drag_destroy dc env d))) =
    x_log d @ replicate 2 (DndMessage (dnd_out_target d) (xdnd_drop dc) [s_window dc, 0, 0, 0, 0])"
  using assms by (simp add: drag_destroy_def dnd_out_on_button_release_def Let_def numeral_2_eq_2)

text \<open>
  A drag that starts while an earlier one still waits for its target, after XdndDrop or after it was
  cancelled over an accepting window, forgets that target: no XdndLeave is sent to it.
\<close>

lemma new_drag_forgets_target:
  assumes "s_have_xcb dc" "dnd_pick_mime mimes = Some m" "pipe_fds (d_sel_env env) = Some (r, w)"
    and "heap_total (heap_env.truncate (d_sel_env env))" "q_pointer env = None"
    and "c \<noteq> []" "length c \<le> WLX_CLIPBOARD_MAX"
  shows "\<exists>d'. server_start_drag cfg dc env wins (Some mimes) [PollRead (ReadBytes c), PollRead ReadEof] d = Some d'
    \<and> dnd_out_target d' = XCB_WINDOW_NONE
    \<and> x_log d' = x_log d @ map DndSel [SourceSend False m w, CloseFd w, CloseFd r,
        SetSelectionOwner (s_window dc) (xdnd_selection dc)]"
proof -
  let ?he = "heap_env.truncate (d_sel_env env)"
  let ?d = "dnd_say [DndSel (SourceSend False m w), DndSel (CloseFd w)]
        (d\<lparr>dnd_out_drag := True, dnd_out_is_uri := fst (dnd_scan_mimes mimes) \<noteq> None\<rparr>)"
  obtain tb where t: "dnd_append ?he c tb_empty = Appended tb" "tb_ok tb" "tb_text tb = c"
    using drag_reader.collect_fits[of tb_empty ?he "[c]"] assms(4,7) by (auto split: append_result.splits)
  have l: "dnd_read_loop cfg dc ?he 100 [PollRead (ReadBytes c), PollRead ReadEof] tb_empty ?d = (Collected tb, ?d)"
    using t(1) by (simp add: numeral_eq_Suc)
  have ne: "\<not> (tb_buf tb = None \<or> tb_len tb = 0)"
  proof -
    have "0 < tb_len tb" using tb_text_length[OF t(2)] t(3) assms(6) by (cases c) auto
    then show ?thesis using t(2) by (auto simp: tb_ok_def split: option.splits)
  qed
  show ?thesis
    unfolding server_start_drag_def Let_def option.case dnd_out_begin_from_source_def assms(2,3) prod.case
      l dnd_read.case if_not_P[OF ne]
    using assms(1,5) by (simp add: dnd_out_update_position_def)
qed

text \<open>
  The search for a drop target returns whenever the X windows form a tree, and what
  it finds is a window of another program that understands XDND, with a protocol version the
  compositor speaks: never a window of the compositor, whose own drags stay in Wayland.
\<close>

theorem drag_target_found:
  fixes env :: dnd_env
  assumes "\<And>w p. q_parent env w = Some p \<Longrightarrow> depth p < (depth w :: nat)"
  shows "\<exists>r. dnd_find_aware_target cfg dc env wins = Some r
    \<and> (case r of None \<Rightarrow> True
       | Some (t, v) \<Rightarrow> t \<noteq> XCB_WINDOW_NONE \<and> \<not> dnd_window_is_ours dc wins t \<and> 0 \<le> v \<and> v \<le> 5)"
proof -
  obtain r where "dnd_find_aware_target cfg dc env wins = Some r"
    using find_target_returns[of env depth] assms by blast
  with find_target_aware[of cfg dc env wins] show ?thesis
    by (cases r) (auto simp: aware_target_def)
qed

end
