(* ===== verification/Main_Program.thy ===== *)
theory Main_Program
  imports Wlx_Types
begin

text \<open>
  The command line and the life of the compositor as a process (\<open>src/main.c\<close>): the options, the
  count of connected clients, and the decision to shut down when the last one has gone. The C
  library's \<open>strtod\<close> is a parameter: a string to the value and the number of characters read.
\<close>

section \<open>Options\<close>

datatype dbl = Finite rat | Infinite bool \<comment> \<open>negative\<close> | NaN

definition dbl_le_0 :: "dbl \<Rightarrow> bool" where
  "dbl_le_0 v = (case v of Finite r \<Rightarrow> r \<le> 0 | Infinite neg \<Rightarrow> neg | NaN \<Rightarrow> False)"

record options =
  opt_debug :: bool
  opt_prefer_csd :: bool
  opt_decoration_flag_set :: bool
  opt_content_scale :: dbl

definition default_options :: options where
  "default_options = \<lparr>opt_debug = False, opt_prefer_csd = False, opt_decoration_flag_set = False,
     opt_content_scale = Finite 1\<rparr>"

datatype arg = ArgDebug | ArgCsd | ArgSsd | ArgScale | ArgScaleEq string | ArgVersion | ArgHelp | ArgCommand

definition arg_kind :: "string \<Rightarrow> arg" where
  "arg_kind a =
     (if a = ''--debug'' then ArgDebug
      else if a = ''--csd'' then ArgCsd
      else if a = ''--ssd'' then ArgSsd
      else if a = ''--scale'' then ArgScale
      else if take 8 a = ''--scale='' then ArgScaleEq (drop 8 a)
      else if a = ''--version'' \<or> a = ''-V'' then ArgVersion
      else if a = ''--help'' \<or> a = ''-h'' then ArgHelp
      else ArgCommand)"

text \<open>\<open>strtod\<close> must read something, everything, and a value that is not \<open><= 0.0\<close>.\<close>

definition scale_value :: "(string \<Rightarrow> dbl \<times> nat) \<Rightarrow> string \<Rightarrow> dbl option" where
  "scale_value strtod s =
     (case strtod s of (v, n) \<Rightarrow> if n = 0 \<or> n \<noteq> length s \<or> dbl_le_0 v then None else Some v)"

datatype args_result = RunWith options "string list option" | ExitWith nat

fun parse_args :: "(string \<Rightarrow> dbl \<times> nat) \<Rightarrow> options \<Rightarrow> string list \<Rightarrow> args_result" where
  "parse_args strtod opts [] = RunWith opts None"
| "parse_args strtod opts (a # as) =
     (case arg_kind a of
        ArgDebug \<Rightarrow> parse_args strtod (opts\<lparr>opt_debug := True\<rparr>) as
      | ArgCsd \<Rightarrow> parse_args strtod (opts\<lparr>opt_prefer_csd := True, opt_decoration_flag_set := True\<rparr>) as
      | ArgSsd \<Rightarrow> parse_args strtod (opts\<lparr>opt_prefer_csd := False, opt_decoration_flag_set := True\<rparr>) as
      | ArgScale \<Rightarrow> (case as of
            [] \<Rightarrow> ExitWith 1
          | v # rest \<Rightarrow> (case scale_value strtod v of
                None \<Rightarrow> ExitWith 1
              | Some x \<Rightarrow> parse_args strtod (opts\<lparr>opt_content_scale := x\<rparr>) rest))
      | ArgScaleEq v \<Rightarrow> (case scale_value strtod v of
            None \<Rightarrow> ExitWith 1
          | Some x \<Rightarrow> parse_args strtod (opts\<lparr>opt_content_scale := x\<rparr>) as)
      | ArgVersion \<Rightarrow> ExitWith 0
      | ArgHelp \<Rightarrow> ExitWith 0
      | ArgCommand \<Rightarrow> RunWith opts (Some (a # as)))"

text \<open>The flags that were read before the command, by their kinds.\<close>

fun flags_of :: "string list \<Rightarrow> arg list" where
  "flags_of [] = []"
| "flags_of [a] = [arg_kind a]"
| "flags_of (a # b # as) = (if arg_kind a = ArgScale then ArgScale # flags_of as else arg_kind a # flags_of (b # as))"

definition is_deco :: "arg \<Rightarrow> bool" where
  "is_deco k \<longleftrightarrow> k = ArgCsd \<or> k = ArgSsd"

definition wants_csd :: "bool \<Rightarrow> arg list \<Rightarrow> bool" where
  "wants_csd base ks = (case filter is_deco (rev ks) of [] \<Rightarrow> base | k # _ \<Rightarrow> k = ArgCsd)"

lemma wants_csd_Nil [simp]: "wants_csd b [] = b"
  by (simp add: wants_csd_def)

lemma wants_csd_Cons [simp]:
  "wants_csd b (k # ks) = wants_csd (if is_deco k then k = ArgCsd else b) ks"
  by (cases "filter is_deco (rev ks)") (auto simp: wants_csd_def)

text \<open>
  The command to launch is everything from the first argument that is no option, word
  for word: the arguments before it are options only and parse by themselves to the same settings, the
  last of \<open>--csd\<close> and \<open>--ssd\<close> among them decides the decorations, and nothing behind it is read as
  an option of the compositor.
\<close>

theorem options_then_command:
  assumes "parse_args strtod opts args = RunWith o' (Some cmd)"
  shows "\<exists>flags. args = flags @ cmd \<and> cmd \<noteq> [] \<and> arg_kind (hd cmd) = ArgCommand
    \<and> parse_args strtod opts flags = RunWith o' None
    \<and> opt_prefer_csd o' = wants_csd (opt_prefer_csd opts) (flags_of flags)"
  using assms
proof (induction strtod opts args rule: parse_args.induct)
  case (1 strtod opts) then show ?case by simp
next
  case (2 strtod opts a as)
  have step: ?case if "\<exists>flags. as = flags @ cmd \<and> cmd \<noteq> [] \<and> arg_kind (hd cmd) = ArgCommand
      \<and> parse_args strtod opts2 flags = RunWith o' None
      \<and> opt_prefer_csd o' = wants_csd (opt_prefer_csd opts2) (flags_of flags)"
    "\<And>fs. parse_args strtod opts (a # fs) = parse_args strtod opts2 fs" "arg_kind a \<noteq> ArgScale"
    "opt_prefer_csd opts2 = (if is_deco (arg_kind a) then arg_kind a = ArgCsd else opt_prefer_csd opts)" for opts2
  proof -
    from that(1) obtain flags where f: "as = flags @ cmd" "cmd \<noteq> []" "arg_kind (hd cmd) = ArgCommand"
      "parse_args strtod opts2 flags = RunWith o' None"
      "opt_prefer_csd o' = wants_csd (opt_prefer_csd opts2) (flags_of flags)" by blast
    have "flags_of (a # flags) = arg_kind a # flags_of flags" using that(3) by (cases flags) simp_all
    then show ?thesis using f that(2)[of flags] that(4) by (intro exI[of _ "a # flags"]) simp
  qed
  show ?case
  proof (cases "arg_kind a")
    case ArgDebug with 2 show ?thesis by (intro step[of "opts\<lparr>opt_debug := True\<rparr>"]) (auto simp: is_deco_def)
  next
    case ArgCsd with 2 show ?thesis
      by (intro step[of "opts\<lparr>opt_prefer_csd := True, opt_decoration_flag_set := True\<rparr>"]) (auto simp: is_deco_def)
  next
    case ArgSsd with 2 show ?thesis
      by (intro step[of "opts\<lparr>opt_prefer_csd := False, opt_decoration_flag_set := True\<rparr>"]) (auto simp: is_deco_def)
  next
    case ArgScale
    with 2 obtain v rest x where v: "as = v # rest" "scale_value strtod v = Some x"
      by (auto split: list.splits option.splits)
    from 2(4)[OF ArgScale v] 2(6) ArgScale v obtain flags where f: "rest = flags @ cmd" "cmd \<noteq> []"
      "arg_kind (hd cmd) = ArgCommand"
      "parse_args strtod (opts\<lparr>opt_content_scale := x\<rparr>) flags = RunWith o' None"
      "opt_prefer_csd o' = wants_csd (opt_prefer_csd opts) (flags_of flags)" by auto
    with ArgScale v show ?thesis by (intro exI[of _ "a # v # flags"]) (simp add: is_deco_def)
  next
    case (ArgScaleEq v)
    with 2 obtain x where x: "scale_value strtod v = Some x" by (auto split: option.splits)
    with 2(5)[OF ArgScaleEq x] 2(6) ArgScaleEq show ?thesis
      by (intro step[of "opts\<lparr>opt_content_scale := x\<rparr>"]) (auto simp: is_deco_def)
  next
    case ArgCommand
    with 2 have "opts = o'" "cmd = a # as" by simp_all
    with ArgCommand show ?thesis by (intro exI[of _ "[]"]) simp
  qed (use 2 in simp_all)
qed

text \<open>
  The check of \<open>--scale\<close> lets a value pass that is no scale: \<open>nan\<close> is not
  \<open><= 0.0\<close>, so where \<open>strtod\<close> reads it as a NaN the compositor starts with a scale that is not a number.
\<close>

theorem scale_nan_accepted:
  assumes "strtod ''nan'' = (NaN, 3)"
  shows "parse_args strtod default_options [''--scale'', ''nan''] =
    RunWith (default_options\<lparr>opt_content_scale := NaN\<rparr>) None"
proof -
  have "arg_kind ''--scale'' = ArgScale" by code_simp
  then show ?thesis using assms by (simp add: scale_value_def dbl_le_0_def)
qed

section \<open>Clients\<close>

text \<open>The fields of \<open>struct wlx_server\<close>, with the clients that carry a destroy listener.\<close>

record client_state =
  active_clients :: int
  have_seen_client :: bool
  exit_when_clients_gone :: bool
  terminated :: bool
  tracked :: "nat list"

definition client_created_notify :: "bool \<Rightarrow> nat \<Rightarrow> client_state \<Rightarrow> client_state" where
  "client_created_notify alloc client s =
     (let s1 = s\<lparr>active_clients := active_clients s + 1, have_seen_client := True\<rparr>
      in if \<not> alloc then s1 else s1\<lparr>tracked := client # tracked s1\<rparr>)"

definition client_destroy_notify :: "nat \<Rightarrow> client_state \<Rightarrow> client_state" where
  "client_destroy_notify client s =
     (let s1 = s\<lparr>active_clients := active_clients s - 1\<rparr>;
          s2 = (if exit_when_clients_gone s1 \<and> have_seen_client s1 \<and> active_clients s1 \<le> 0
                then s1\<lparr>terminated := True\<rparr> else s1)
      in s2\<lparr>tracked := remove1 client (tracked s2)\<rparr>)"

text \<open>Clients come (with or without memory for their tracker) and go; only a client with a tracker
  is noticed when it goes.\<close>

datatype client_event = Connect nat bool | Disconnect nat

fun client_step :: "client_event \<Rightarrow> client_state \<Rightarrow> client_state" where
  "client_step (Connect c alloc) s = client_created_notify alloc c s"
| "client_step (Disconnect c) s =
     (if c \<in> set (tracked s) then client_destroy_notify c s else s)"

text \<open>Events a server can see: a new client is none of the connected ones, and only a connected one
  leaves.\<close>

fun client_events_ok :: "nat list \<Rightarrow> client_event list \<Rightarrow> bool" where
  "client_events_ok live [] = True"
| "client_events_ok live (Connect c alloc # es) \<longleftrightarrow> alloc \<and> c \<notin> set live \<and> client_events_ok (c # live) es"
| "client_events_ok live (Disconnect c # es) \<longleftrightarrow> c \<in> set live \<and> client_events_ok (remove1 c live) es"

text \<open>The contract, over the number of connected clients: whether the last one ever leaves.\<close>

fun last_leaves :: "nat \<Rightarrow> client_event list \<Rightarrow> bool" where
  "last_leaves n [] = False"
| "last_leaves n (Connect _ _ # es) = last_leaves (n + 1) es"
| "last_leaves n (Disconnect _ # es) = (n = 1 \<or> last_leaves (n - 1) es)"

definition client_start :: "bool \<Rightarrow> client_state" where
  "client_start exit_mode = \<lparr>active_clients = 0, have_seen_client = False,
     exit_when_clients_gone = exit_mode, terminated = False, tracked = []\<rparr>"

lemma remove1_length_Suc:
  assumes "c \<in> set xs"
  obtains k where "length xs = Suc k" "length (remove1 c xs) = k"
proof -
  have "length (remove1 c xs) = length xs - 1" "0 < length xs"
    using assms by (auto simp: length_remove1)
  then show ?thesis by (intro that[of "length xs - 1"]) simp_all
qed

lemma clients_run:
  assumes "client_events_ok (tracked s) es" "active_clients s = int (length (tracked s))"
    "tracked s \<noteq> [] \<longrightarrow> have_seen_client s"
  shows "terminated (fold client_step es s) \<longleftrightarrow>
    terminated s \<or> exit_when_clients_gone s \<and> last_leaves (length (tracked s)) es"
  using assms
proof (induction es arbitrary: s)
  case Nil then show ?case by simp
next
  case (Cons e es)
  show ?case
  proof (cases e)
    case (Connect c alloc)
    with Cons.prems Cons.IH[of "client_created_notify alloc c s"] show ?thesis
      by (simp add: client_created_notify_def Let_def)
  next
    case (Disconnect c)
    with Cons.prems have m: "c \<in> set (tracked s)" by simp
    then obtain k where l: "length (tracked s) = Suc k" "length (remove1 c (tracked s)) = k"
      by (rule remove1_length_Suc)
    have ne: "tracked s \<noteq> []" using l(1) by auto
    let ?s = "client_destroy_notify c s"
    have s: "tracked ?s = remove1 c (tracked s)" "active_clients ?s = int (length (tracked ?s))"
      "have_seen_client ?s" "exit_when_clients_gone ?s = exit_when_clients_gone s"
      "terminated ?s \<longleftrightarrow> terminated s \<or> exit_when_clients_gone s \<and> length (tracked s) = 1"
      using Cons.prems(2,3) l ne by (auto simp: client_destroy_notify_def Let_def)
    have "client_events_ok (tracked ?s) es" using Cons.prems(1) Disconnect s(1) by simp
    from Cons.IH[OF this s(2)] s m l Disconnect show ?thesis
      by auto
  qed
qed

text \<open>
  The bookkeeping of clients implements its contract: as long as every client gets its
  tracker, the compositor is told to stop exactly when it was started with a command and some client's
  leaving leaves none connected; with no command, or before the first client, it keeps running.
\<close>

theorem stops_with_last_client:
  assumes "client_events_ok [] es"
  shows "terminated (fold client_step es (client_start exit_mode)) \<longleftrightarrow> exit_mode \<and> last_leaves 0 es"
  using clients_run[of "client_start exit_mode" es] assms by (simp add: client_start_def)

lemma lost_tracker_counts:
  assumes "int (length (tracked s)) < active_clients s"
  shows "int (length (tracked (client_step e s))) < active_clients (client_step e s)
    \<and> (terminated (client_step e s) \<longleftrightarrow> terminated s)"
proof (cases e)
  case (Connect c alloc)
  with assms show ?thesis by (simp add: client_created_notify_def Let_def)
next
  case (Disconnect c)
  show ?thesis
  proof (cases "c \<in> set (tracked s)")
    case True
    then obtain k where "length (tracked s) = Suc k" "length (remove1 c (tracked s)) = k"
      by (rule remove1_length_Suc)
    with assms True Disconnect show ?thesis
      by (simp add: client_destroy_notify_def Let_def)
  next
    case False with assms Disconnect show ?thesis by simp
  qed
qed

text \<open>
  One client without memory for its tracker is counted but never discounted: after it the
  compositor is never told to stop, whoever connects and leaves, this client included.
\<close>

theorem lost_tracker_never_stops:
  assumes "client_events_ok [] es" "\<not> last_leaves 0 es"
  shows "\<not> terminated (fold client_step (es @ Connect c False # fs) (client_start exit_mode))"
proof -
  let ?s = "fold client_step es (client_start exit_mode)"
  have n: "active_clients (fold client_step gs s) = int (length (tracked (fold client_step gs s)))"
    if "client_events_ok (tracked s) gs" "active_clients s = int (length (tracked s))" for gs s
    using that
  proof (induction gs arbitrary: s)
    case (Cons e gs)
    have "client_events_ok (tracked (client_step e s)) gs
        \<and> active_clients (client_step e s) = int (length (tracked (client_step e s)))"
    proof (cases e)
      case (Connect c alloc)
      with Cons.prems show ?thesis by (simp add: client_created_notify_def Let_def)
    next
      case (Disconnect c)
      with Cons.prems have "c \<in> set (tracked s)" by simp
      then obtain k where "length (tracked s) = Suc k" "length (remove1 c (tracked s)) = k"
        by (rule remove1_length_Suc)
      with Cons.prems Disconnect show ?thesis by (auto simp: client_destroy_notify_def Let_def)
    qed
    with Cons.IH[of "client_step e s"] show ?case by simp
  qed simp
  have t: "\<not> terminated ?s" "active_clients ?s = int (length (tracked ?s))"
    using clients_run[of "client_start exit_mode" es] n[of "client_start exit_mode" es] assms
    by (simp_all add: client_start_def)
  have "\<not> terminated (fold client_step fs s)"
    if "int (length (tracked s)) < active_clients s" "\<not> terminated s" for s
    using that by (induction fs arbitrary: s) (auto dest: lost_tracker_counts)
  from this[of "client_step (Connect c False) ?s"] t show ?thesis
    by (simp add: client_created_notify_def Let_def)
qed

end
