(* ===== verification/Torture.thy ===== *)
theory Torture
  imports Wlx_Types
begin

text \<open>
  The stress client \<open>tools/resize-torture/main.c\<close>: its phases, the buffer size it attaches in each,
  and the loop that walks through them. The clock is an argument of every handler; what is sent to
  the compositor is a trace.
\<close>

section \<open>Phases\<close>

datatype phase = PH_MAP | PH_GROW | PH_SHRINK | PH_OSCILLATE | PH_RESTABLE | PH_FOLLOW
  | PH_MAXIMIZE | PH_UNDERSIZE_MAX | PH_UNMAXIMIZE | PH_DONE

text \<open>The value of the C enumerator; \<open>PH_COUNT\<close> is 10.\<close>

fun phase_index :: "phase \<Rightarrow> nat" where
  "phase_index PH_MAP = 0"
| "phase_index PH_GROW = 1"
| "phase_index PH_SHRINK = 2"
| "phase_index PH_OSCILLATE = 3"
| "phase_index PH_RESTABLE = 4"
| "phase_index PH_FOLLOW = 5"
| "phase_index PH_MAXIMIZE = 6"
| "phase_index PH_UNDERSIZE_MAX = 7"
| "phase_index PH_UNMAXIMIZE = 8"
| "phase_index PH_DONE = 9"

definition all_phases :: "phase list" where
  "all_phases = [PH_MAP, PH_GROW, PH_SHRINK, PH_OSCILLATE, PH_RESTABLE, PH_FOLLOW, PH_MAXIMIZE,
     PH_UNDERSIZE_MAX, PH_UNMAXIMIZE, PH_DONE]"

definition PH_COUNT :: nat where "PH_COUNT = 10"

lemma phase_index_inj [simp]: "phase_index p = phase_index q \<longleftrightarrow> p = q"
  by (cases p; cases q) simp_all

lemma phase_index_less [simp]: "phase_index p < 10"
  by (cases p) simp_all

lemma all_phases_length [simp]: "length all_phases = 10"
  by (simp add: all_phases_def)

lemma all_phases_nth: "all_phases ! phase_index p = p"
  by (cases p) (simp_all add: all_phases_def)

text \<open>The cast \<open>(enum phase)n\<close> of a number below \<open>PH_COUNT\<close>.\<close>

definition phase_of :: "nat \<Rightarrow> phase" where
  "phase_of n = all_phases ! n"

lemma phase_of_index [simp]: "n < 10 \<Longrightarrow> phase_index (phase_of n) = n"
  using upt_rec[of 0 10] by (auto simp: phase_of_def all_phases_def less_Suc_eq numeral_eq_Suc)

instantiation phase :: linorder
begin

definition less_eq_phase :: "phase \<Rightarrow> phase \<Rightarrow> bool" where
  "less_eq_phase p q \<longleftrightarrow> phase_index p \<le> phase_index q"

definition less_phase :: "phase \<Rightarrow> phase \<Rightarrow> bool" where
  "less_phase p q \<longleftrightarrow> phase_index p < phase_index q"

instance
  by standard (auto simp: less_eq_phase_def less_phase_def)

end

section \<open>State\<close>

datatype (plugins only: code size) torture_call =
    SetMaximizedReq
  | UnsetMaximizedReq
  | AckConfigure "32 word"
  | AttachBuffer int int "32 word"

record torture =
  conf_w :: int
  conf_h :: int
  conf_serial :: "32 word"
  conf_pending :: bool
  t_maximized :: bool
  t_activated :: bool
  phase :: phase
  phase_step :: int
  phase_start_ms :: int
  last_step_ms :: int
  period_ms :: int
  loop :: bool
  running :: bool
  buf_w :: int
  buf_h :: int
  visited :: "phase list" \<comment> \<open>phases entered, newest last\<close>
  t_log :: "torture_call list"

section \<open>Sizes\<close>

text \<open>\<open>desired_size\<close>; the C remainder of \<open>phase_step\<close> and the halves are of non-negative numbers
  or of numbers above 80.\<close>

definition halved :: "int \<Rightarrow> int" where
  "halved c = (let w = (if 80 < c then c div 2 else 40) in if w < 64 then 64 else w)"

definition desired_size :: "torture \<Rightarrow> int \<times> int" where
  "desired_size g =
     (let cw = (if 0 < conf_w g then conf_w g else 400);
          ch = (if 0 < conf_h g then conf_h g else 300)
      in case phase g of
           PH_MAP \<Rightarrow> (400, 300)
         | PH_GROW \<Rightarrow> (640, 480)
         | PH_SHRINK \<Rightarrow> (320, 200)
         | PH_OSCILLATE \<Rightarrow> if phase_step g mod 2 = 0 then (400, 300) else (900, 700)
         | PH_RESTABLE \<Rightarrow> (500, 350)
         | PH_UNDERSIZE_MAX \<Rightarrow> (halved cw, halved ch)
         | PH_UNMAXIMIZE \<Rightarrow>
             if 0 < conf_w g \<and> 0 < conf_h g \<and> conf_w g < 1200 \<and> conf_h g < 900
             then (conf_w g, conf_h g) else (500, 350)
         | _ \<Rightarrow> (if 0 < conf_w g then conf_w g else 500, if 0 < conf_h g then conf_h g else 350))"

fun phase_color :: "phase \<Rightarrow> 32 word" where
  "phase_color PH_MAP = 0xFF336699"
| "phase_color PH_GROW = 0xFF339966"
| "phase_color PH_SHRINK = 0xFF996633"
| "phase_color PH_OSCILLATE = 0xFF993366"
| "phase_color PH_RESTABLE = 0xFF669966"
| "phase_color PH_FOLLOW = 0xFF669933"
| "phase_color PH_MAXIMIZE = 0xFF333399"
| "phase_color PH_UNDERSIZE_MAX = 0xFF993333"
| "phase_color PH_UNMAXIMIZE = 0xFF339999"
| "phase_color PH_DONE = 0xFF444444"

text \<open>\<open>shm\<close>: whether the shared memory of a buffer of this size can be had.\<close>

definition attach_desired :: "(int \<Rightarrow> int \<Rightarrow> bool) \<Rightarrow> torture \<Rightarrow> torture" where
  "attach_desired shm g =
     (let (w0, h0) = desired_size g;
          w = (if w0 < 1 then 1 else w0);
          h = (if h0 < 1 then 1 else h0)
      in if \<not> shm w h then g
         else g\<lparr>t_log := t_log g @ [AttachBuffer w h (phase_color (phase g))], buf_w := w, buf_h := h\<rparr>)"

section \<open>The phase machine\<close>

fun phase_duration_ms :: "phase \<Rightarrow> int" where
  "phase_duration_ms PH_MAP = 800"
| "phase_duration_ms PH_GROW = 800"
| "phase_duration_ms PH_SHRINK = 800"
| "phase_duration_ms PH_OSCILLATE = 1500"
| "phase_duration_ms PH_RESTABLE = 900"
| "phase_duration_ms PH_FOLLOW = 600"
| "phase_duration_ms PH_MAXIMIZE = 1000"
| "phase_duration_ms PH_UNDERSIZE_MAX = 1500"
| "phase_duration_ms PH_UNMAXIMIZE = 1200"
| "phase_duration_ms PH_DONE = 500"

definition enter_phase :: "(int \<Rightarrow> int \<Rightarrow> bool) \<Rightarrow> int \<Rightarrow> phase \<Rightarrow> torture \<Rightarrow> torture" where
  "enter_phase shm now p g =
     (let g1 = g\<lparr>phase := p, phase_step := 0, phase_start_ms := now, last_step_ms := now,
                 visited := visited g @ [p]\<rparr>;
          g2 = (if p = PH_MAXIMIZE then g1\<lparr>t_log := t_log g1 @ [SetMaximizedReq]\<rparr>
                else if p = PH_UNMAXIMIZE then g1\<lparr>t_log := t_log g1 @ [UnsetMaximizedReq]\<rparr>
                else g1)
      in attach_desired shm g2)"

definition advance_phase :: "(int \<Rightarrow> int \<Rightarrow> bool) \<Rightarrow> int \<Rightarrow> torture \<Rightarrow> torture" where
  "advance_phase shm now g =
     (let next = phase_index (phase g) + 1
      in if PH_COUNT \<le> next then (if loop g then enter_phase shm now PH_MAP g else g\<lparr>running := False\<rparr>)
         else enter_phase shm now (phase_of next) g)"

definition tick_step :: "(int \<Rightarrow> int \<Rightarrow> bool) \<Rightarrow> int \<Rightarrow> torture \<Rightarrow> torture" where
  "tick_step shm now g = attach_desired shm (g\<lparr>phase_step := phase_step g + 1, last_step_ms := now\<rparr>)"

definition tick :: "(int \<Rightarrow> int \<Rightarrow> bool) \<Rightarrow> int \<Rightarrow> torture \<Rightarrow> torture" where
  "tick shm now g =
     (let elapsed = now - phase_start_ms g;
          g1 = (if phase g = PH_OSCILLATE then
                  if period_ms g \<le> now - last_step_ms g then tick_step shm now g else g
                else if phase g = PH_UNDERSIZE_MAX then
                  if period_ms g * 2 \<le> now - last_step_ms g then tick_step shm now g else g
                else g)
      in if phase_duration_ms (phase g1) \<le> elapsed then advance_phase shm now g1 else g1)"

section \<open>Events of the compositor\<close>

definition xdg_surface_configure :: "(int \<Rightarrow> int \<Rightarrow> bool) \<Rightarrow> 32 word \<Rightarrow> torture \<Rightarrow> torture" where
  "xdg_surface_configure shm serial g =
     attach_desired shm
       (g\<lparr>conf_serial := serial, conf_pending := False, t_log := t_log g @ [AckConfigure serial]\<rparr>)"

datatype xdg_state = XDG_MAXIMIZED | XDG_ACTIVATED | XDG_OTHER

definition toplevel_configure :: "int \<Rightarrow> int \<Rightarrow> xdg_state list \<Rightarrow> torture \<Rightarrow> torture" where
  "toplevel_configure width height states g =
     g\<lparr>conf_w := width, conf_h := height, t_maximized := XDG_MAXIMIZED \<in> set states,
       t_activated := XDG_ACTIVATED \<in> set states\<rparr>"

definition toplevel_close :: "torture \<Rightarrow> torture" where
  "toplevel_close g = g\<lparr>running := False\<rparr>"

text \<open>One turn of the main loop: a tick, then the events that have come.\<close>

datatype torture_event =
    SurfaceConfigure "32 word"
  | ToplevelConfigure int int "xdg_state list"
  | ToplevelClose

fun handle_event :: "(int \<Rightarrow> int \<Rightarrow> bool) \<Rightarrow> torture_event \<Rightarrow> torture \<Rightarrow> torture" where
  "handle_event shm (SurfaceConfigure s) g = xdg_surface_configure shm s g"
| "handle_event shm (ToplevelConfigure w h sts) g = toplevel_configure w h sts g"
| "handle_event shm ToplevelClose g = toplevel_close g"

fun main_loop :: "(int \<Rightarrow> int \<Rightarrow> bool) \<Rightarrow> (int \<times> torture_event list) list \<Rightarrow> torture \<Rightarrow> torture" where
  "main_loop shm [] g = g"
| "main_loop shm ((now, evs) # turns) g =
     (if running g then main_loop shm turns (fold (handle_event shm) evs (tick shm now g)) else g)"

section \<open>Frames\<close>

lemma attach_frame [simp]:
  "phase (attach_desired shm g) = phase g" "phase_start_ms (attach_desired shm g) = phase_start_ms g"
  "running (attach_desired shm g) = running g" "loop (attach_desired shm g) = loop g"
  "visited (attach_desired shm g) = visited g" "period_ms (attach_desired shm g) = period_ms g"
  by (simp_all add: attach_desired_def Let_def split: prod.split)

lemma enter_frame [simp]:
  "phase (enter_phase shm now p g) = p" "phase_start_ms (enter_phase shm now p g) = now"
  "running (enter_phase shm now p g) = running g" "loop (enter_phase shm now p g) = loop g"
  "visited (enter_phase shm now p g) = visited g @ [p]"
  by (simp_all add: enter_phase_def Let_def)

lemma tick_step_frame [simp]:
  "phase (tick_step shm now g) = phase g" "phase_start_ms (tick_step shm now g) = phase_start_ms g"
  "running (tick_step shm now g) = running g" "loop (tick_step shm now g) = loop g"
  "visited (tick_step shm now g) = visited g"
  by (simp_all add: tick_step_def)

lemma event_frame [simp]:
  "phase (handle_event shm e g) = phase g" "phase_start_ms (handle_event shm e g) = phase_start_ms g"
  "loop (handle_event shm e g) = loop g" "visited (handle_event shm e g) = visited g"
  by (cases e; simp add: xdg_surface_configure_def toplevel_configure_def toplevel_close_def)+

lemma event_running: "running (handle_event shm e g) \<Longrightarrow> running g"
  by (cases e) (simp_all add: xdg_surface_configure_def toplevel_configure_def toplevel_close_def)

lemma events_frame [simp]:
  "phase (fold (handle_event shm) es g) = phase g"
  "phase_start_ms (fold (handle_event shm) es g) = phase_start_ms g"
  "loop (fold (handle_event shm) es g) = loop g" "visited (fold (handle_event shm) es g) = visited g"
  by (induction es arbitrary: g) simp_all

lemma events_running: "running (fold (handle_event shm) es g) \<Longrightarrow> running g"
  by (induction es arbitrary: g) (auto dest: event_running)

lemma tick_loop [simp]: "loop (tick shm now g) = loop g"
  by (simp add: tick_def Let_def advance_phase_def)

text \<open>What a tick does to the phase: nothing, the next phase, or the end.\<close>

lemma tick_cases:
  obtains (stay) "phase (tick shm now g) = phase g" "phase_start_ms (tick shm now g) = phase_start_ms g"
      "running (tick shm now g) = running g" "visited (tick shm now g) = visited g"
      "now - phase_start_ms g < phase_duration_ms (phase g)"
  | (go_on) p where "p = phase_of (phase_index (phase g) + 1)" "phase_index (phase g) < 9"
      "phase (tick shm now g) = p" "phase_start_ms (tick shm now g) = now"
      "running (tick shm now g) = running g" "visited (tick shm now g) = visited g @ [p]"
  | (again) "phase g = PH_DONE" "loop g" "phase (tick shm now g) = PH_MAP" "phase_start_ms (tick shm now g) = now"
      "running (tick shm now g) = running g" "visited (tick shm now g) = visited g @ [PH_MAP]"
  | (stop) "phase g = PH_DONE" "\<not> loop g" "\<not> running (tick shm now g)" "visited (tick shm now g) = visited g"
proof -
  define g1 where "g1 = (if phase g = PH_OSCILLATE then
                  if period_ms g \<le> now - last_step_ms g then tick_step shm now g else g
                else if phase g = PH_UNDERSIZE_MAX then
                  if period_ms g * 2 \<le> now - last_step_ms g then tick_step shm now g else g
                else g)"
  have g1: "phase g1 = phase g" "phase_start_ms g1 = phase_start_ms g" "running g1 = running g"
    "loop g1 = loop g" "visited g1 = visited g" by (simp_all add: g1_def)
  have t: "tick shm now g = (if phase_duration_ms (phase g1) \<le> now - phase_start_ms g
      then advance_phase shm now g1 else g1)"
    by (simp only: tick_def Let_def g1_def)
  show ?thesis
  proof (cases "phase_duration_ms (phase g) \<le> now - phase_start_ms g")
    case False
    then have "tick shm now g = g1" by (simp add: t g1)
    with False g1 show ?thesis by (intro stay) simp_all
  next
    case True
    then have a: "tick shm now g = advance_phase shm now g1" by (simp add: t g1)
    show ?thesis
    proof (cases "phase_index (phase g) = 9")
      case True
      then have d: "phase g = PH_DONE" by (cases "phase g") simp_all
      show ?thesis
      proof (cases "loop g")
        case True with d g1 a show ?thesis by (intro again) (simp_all add: advance_phase_def PH_COUNT_def)
      next
        case False with d g1 a show ?thesis by (intro stop) (simp_all add: advance_phase_def PH_COUNT_def)
      qed
    next
      case False
      then have "phase_index (phase g) < 9" using phase_index_less[of "phase g"] by linarith
      with g1 a show ?thesis by (intro go_on) (simp_all add: advance_phase_def PH_COUNT_def)
    qed
  qed
qed

section \<open>Properties\<close>

definition entered_at :: "int \<Rightarrow> torture \<Rightarrow> bool" where
  "entered_at t g \<longleftrightarrow> phase g = PH_MAP \<and> phase_start_ms g = t \<and> running g \<and> visited g = [PH_MAP]"

text \<open>
  Without \<open>--loop\<close> the client walks through its phases in the order of the
  enumeration and skips none: whatever the compositor configures and however late the ticks come, the
  phases entered so far are the first ones of the list.
\<close>

theorem phases_in_order:
  assumes "entered_at t g" "\<not> loop g"
  shows "visited (main_loop shm turns g) = take (phase_index (phase (main_loop shm turns g)) + 1) all_phases"
proof -
  have "visited h = take (phase_index (phase h) + 1) all_phases \<Longrightarrow> \<not> loop h \<Longrightarrow>
      visited (main_loop shm turns h) = take (phase_index (phase (main_loop shm turns h)) + 1) all_phases" for h
  proof (induction shm turns h rule: main_loop.induct)
    case (2 shm now evs turns h)
    let ?h = "fold (handle_event shm) evs (tick shm now h)"
    have "visited ?h = take (phase_index (phase ?h) + 1) all_phases \<and> loop ?h = loop h"
    proof (cases rule: tick_cases[of shm now h])
      case stay with 2 show ?thesis by simp
    next
      case (go_on p)
      have "phase_index p = phase_index (phase h) + 1" using go_on(1,2) phase_of_index by simp
      moreover have "visited h @ [p] = take (phase_index p + 1) all_phases"
        using 2(2) \<open>phase_index p = _\<close> all_phases_nth[of p] phase_index_less[of p]
        by (simp add: take_Suc_conv_app_nth all_phases_length del: phase_index_less)
      ultimately show ?thesis using go_on by simp
    next
      case again with 2 show ?thesis by simp
    next
      case stop
      have "phase (tick shm now h) = phase h" using stop by (simp add: tick_def Let_def advance_phase_def PH_COUNT_def)
      with stop 2 show ?thesis by simp
    qed
    with 2 show ?case by simp
  qed simp
  moreover have "visited g = take (phase_index (phase g) + 1) all_phases"
    using assms(1) by (simp add: entered_at_def all_phases_def)
  ultimately show ?thesis using assms(2) by simp
qed

text \<open>When a phase begins at the latest, if ticks come at least every \<open>d\<close> ms.\<close>

definition phases_before :: "phase \<Rightarrow> int" where
  "phases_before p = sum_list (map phase_duration_ms (take (phase_index p) all_phases))"

lemma phases_before_next:
  "phase_index p < 9 \<Longrightarrow>
     phases_before (phase_of (phase_index p + 1)) = phases_before p + phase_duration_ms p"
  by (cases p) (simp_all add: phases_before_def phase_of_def all_phases_def)

lemma phases_before_bound: "phases_before p + phase_duration_ms p \<le> 9600"
  by (cases p) (simp_all add: phases_before_def all_phases_def)

definition on_schedule :: "int \<Rightarrow> int \<Rightarrow> int \<Rightarrow> torture \<Rightarrow> bool" where
  "on_schedule t0 d now g \<longleftrightarrow>
     phase_start_ms g \<le> t0 + phases_before (phase g) + int (phase_index (phase g)) * d
     \<and> now < phase_start_ms g + phase_duration_ms (phase g)"

lemma phase_duration_pos: "0 < phase_duration_ms p"
  by (cases p) simp_all

lemma tick_on_schedule:
  assumes "on_schedule t0 d prev g" "now \<le> prev + d" "\<not> loop g" "running (tick shm now g)"
  shows "on_schedule t0 d now (tick shm now g)"
proof (cases rule: tick_cases[of shm now g])
  case stay
  with assms(1) show ?thesis by (simp add: on_schedule_def)
next
  case (go_on p)
  have i: "phase_index p = phase_index (phase g) + 1" using go_on(1,2) phase_of_index by simp
  have b: "phases_before p = phases_before (phase g) + phase_duration_ms (phase g)"
    using phases_before_next[OF go_on(2)] go_on(1) by simp
  have "now \<le> t0 + phases_before p + int (phase_index (phase g)) * d + d"
    using assms(1,2) b by (simp add: on_schedule_def)
  then have "now \<le> t0 + phases_before p + int (phase_index p) * d" by (simp add: i algebra_simps)
  then show ?thesis using go_on(3,4) phase_duration_pos[of p] by (simp add: on_schedule_def)
next
  case again with assms(3) show ?thesis by simp
next
  case stop with assms(4) show ?thesis by simp
qed

text \<open>Turns that come at least every \<open>d\<close> ms, from \<open>prev\<close> on.\<close>

fun timely :: "int \<Rightarrow> int \<Rightarrow> (int \<times> torture_event list) list \<Rightarrow> bool" where
  "timely d prev [] = True"
| "timely d prev ((now, evs) # turns) \<longleftrightarrow> now \<le> prev + d \<and> timely d now turns"

text \<open>
  Without \<open>--loop\<close> the client ends: if its main loop turns at least every \<open>d\<close> ms,
  then it has stopped by the turn that comes 9600 + 9 d ms after the first phase was entered, whatever
  the compositor configures in between.
\<close>

theorem torture_ends:
  assumes "entered_at t0 g" "\<not> loop g" "0 \<le> d" "timely d t0 turns"
    and "turns \<noteq> []" "t0 + 9600 + 9 * d \<le> fst (last turns)"
  shows "\<not> running (main_loop shm turns g)"
proof -
  have late: "\<not> on_schedule t0 d now h" if "t0 + 9600 + 9 * d \<le> now" for now h
  proof
    assume s: "on_schedule t0 d now h"
    have "int (phase_index (phase h)) * d \<le> 9 * d"
      using assms(3) phase_index_less[of "phase h"] by (intro mult_right_mono) linarith+
    with s phases_before_bound[of "phase h"] that show False unfolding on_schedule_def by linarith
  qed
  have "\<not> running (main_loop shm turns h)"
    if "on_schedule t0 d prev h" "timely d prev turns" "turns \<noteq> []" "t0 + 9600 + 9 * d \<le> fst (last turns)"
      "\<not> loop h" for h prev
    using that
  proof (induction turns arbitrary: h prev)
    case Nil then show ?case by simp
  next
    case (Cons turn turns)
    obtain now evs where turn: "turn = (now, evs)" by fastforce
    let ?t = "tick shm now h" and ?h = "fold (handle_event shm) evs (tick shm now h)"
    show ?case
    proof (cases "running h \<and> running ?h")
      case False
      then show ?thesis by (cases turns) (auto simp: turn)
    next
      case True
      then have "running ?t" by (blast dest: events_running)
      with Cons.prems turn have s: "on_schedule t0 d now ?t" by (intro tick_on_schedule[where prev = prev]) simp_all
      then have "on_schedule t0 d now ?h" by (simp add: on_schedule_def)
      moreover have "turns \<noteq> []" using late[of now ?t] s Cons.prems(4) by (auto simp: turn)
      ultimately show ?thesis using Cons.IH[of now ?h] Cons.prems True by (simp add: turn)
    qed
  qed
  moreover have "on_schedule t0 d t0 g"
    using assms(1) by (simp add: on_schedule_def entered_at_def phases_before_def)
  ultimately show ?thesis using assms(2,4-6) by blast
qed

text \<open>
  The buffers the client attaches while maximized are letterbox bait: in the undersize
  phase each side is at least 64 and, for configured sides of more than 128 pixels, at most half of
  what the compositor configured, so the buffer never fills the window it was given.
\<close>

theorem undersize_is_undersize:
  assumes "phase g = PH_UNDERSIZE_MAX" "128 < conf_w g" "128 < conf_h g"
    and "shm (halved (conf_w g)) (halved (conf_h g))"
  shows "\<exists>w h. t_log (attach_desired shm g) = t_log g @ [AttachBuffer w h (phase_color PH_UNDERSIZE_MAX)]
    \<and> 64 \<le> w \<and> 2 * w \<le> conf_w g \<and> 64 \<le> h \<and> 2 * h \<le> conf_h g"
proof -
  have h: "64 \<le> halved c \<and> 2 * halved c \<le> c \<and> \<not> halved c < 1" if "128 < c" for c
    using that by (auto simp: halved_def Let_def)
  have "desired_size g = (halved (conf_w g), halved (conf_h g))"
    using assms(1-3) by (simp add: desired_size_def)
  with assms h[OF assms(2)] h[OF assms(3)] show ?thesis
    by (simp add: attach_desired_def Let_def)
qed

end
