(* ===== verification/Program_Witnesses.thy ===== *)
theory Program_Witnesses
  imports Bridge_Witnesses Dnd_Transfer Main_Program Torture
begin

text \<open>
  The properties of drag and drop, of the command line, of the clients' bookkeeping and of the stress
  client applied at concrete inputs.
\<close>

section \<open>Drag and drop\<close>

definition sample_dnd :: dnd_cfg where
  "sample_dnd = sel_cfg.extend sample_sel
     \<lparr>xdnd_enter = 60, xdnd_position = 61, xdnd_status = 62, xdnd_leave = 63, xdnd_drop = 64,
      xdnd_finished = 65, xdnd_selection = 66, xdnd_action_copy = 67, atom_text_uri_list = 68,
      atom_wlx_dnd = 69\<rparr>"

definition sample_dnd_env :: dnd_env where
  "sample_dnd_env = wlx_env.extend ((sample_env 0)\<lparr>q_parent := (\<lambda>w. if w = 1 then None else Some 1)\<rparr>)
     \<lparr>q_aware = (\<lambda>w. if w = 7 then Some 4 else None), surface_hit = False, xdnd_owner = Some 2,
      xdnd_prop = Some (33, [104, 105]), d_sel_env = sample_sel_env\<rparr>"

definition no_drag :: dnd_state where
  "no_drag = \<lparr>dnd_out_active = False, dnd_out_target = 0, dnd_out_version = 0, dnd_out_accepted = False,
     dnd_out_text = None, dnd_out_len = 0, dnd_out_is_uri = False, dnd_out_drag = False,
     dnd_in_active = False, dnd_in_source = 0, dnd_in_version = 0, dnd_in_our_window = 0,
     dnd_clip = sample_clip, x_log = []\<rparr>"

lemma sample_dnd_fields [simp]:
  "s_have_xcb sample_dnd" "s_window sample_dnd = 2" "atom_utf8_string sample_dnd = 33"
  "atom_targets sample_dnd = 32" "xdnd_selection sample_dnd = 66" "atom_wlx_dnd sample_dnd = 69"
  "atom_incr sample_dnd = 39" "xdnd_atoms_ok sample_dnd"
  "pipe_fds (d_sel_env sample_dnd_env) = Some (8, 9)"
  "heap_total (heap_env.truncate (d_sel_env sample_dnd_env))"
  "xdnd_prop sample_dnd_env = Some (33, [104, 105])"
  by (simp_all add: sample_dnd_def sample_sel_def sel_cfg.extend_def xdnd_atoms_ok_def
      sample_dnd_env_def wlx_env.extend_def)

lemma sample_parents:
  "q_parent sample_dnd_env w = Some p \<Longrightarrow> (if p = 1 then 0 else 1 :: nat) < (if w = 1 then 0 else 1)"
  by (simp add: sample_dnd_env_def wlx_env.extend_def split: if_splits)

lemma sample_tree [simp]: "x_tree sample_dnd_env"
  unfolding x_tree_def using sample_parents
  by (intro exI[of _ "\<lambda>w. if w = 1 then 0 else 1"]) blast

lemma sample_text_mime: "dnd_pick_mime [''image/png'', ''text/plain''] = Some ''text/plain''"
  by code_simp

abbreviation "image_or_text \<equiv> [''image/png'', ''text/plain'']"

lemma dragged_text_reaches_x11_witness:
  "\<exists>d'. server_start_drag drag_cfg sample_dnd sample_dnd_env [] (Some image_or_text)
          ([PollRead (ReadBytes [104]), PollTimeout [(sample_dnd_env, [], DMotion)], PollRead (ReadBytes [105])]
            @ [PollRead ReadEof]) no_drag = Some d'
    \<and> dnd_handle_selection_request sample_dnd (xdnd_request sample_dnd 7 50) d' =
       (True, dnd_say [DndSel (ChangeProperty 7 50 (atom_utf8_string sample_dnd) [104, 105]),
                       DndSel (reply_to (xdnd_request sample_dnd 7 50) 50)] d')"
  by (rule dragged_text_reaches_x11[where r = 8 and w = 9 and m = "''text/plain''"])
     (simp_all add: sample_text_mime WLX_CLIPBOARD_MAX_def)

lemma long_drag_truncated_witness:
  "\<exists>d' text. server_start_drag drag_cfg sample_dnd sample_dnd_env [] (Some image_or_text)
          (chunk_polls (replicate 150 (replicate 4096 65)) @ [PollRead ReadEof]) no_drag = Some d'
    \<and> dnd_handle_selection_request sample_dnd (xdnd_request sample_dnd 7 50) d' =
       (True, dnd_say [DndSel (ChangeProperty 7 50 (atom_utf8_string sample_dnd) text),
                       DndSel (reply_to (xdnd_request sample_dnd 7 50) 50)] d')
    \<and> length text \<le> 409600 \<and> length text < length (concat (replicate 150 (replicate 4096 (65::byte))))"
  by (rule long_drag_truncated[where r = 8 and w = 9 and m = "''text/plain''"])
     (simp_all add: sample_text_mime)

lemma drag_stays_on_target_witness:
  "\<exists>d. server_start_drag drag_cfg sample_dnd sample_dnd_env [] (Some image_or_text)
          (chunk_polls [[104], [105]] @ [PollRead ReadEof]) no_drag = Some d
    \<and> xdnd_track sample_dnd (x_log d) XCB_WINDOW_NONE = Some (dnd_out_target d)"
proof -
  obtain d where d: "server_start_drag drag_cfg sample_dnd sample_dnd_env [] (Some image_or_text)
      (chunk_polls [[104], [105]] @ [PollRead ReadEof]) no_drag = Some d"
    using drag_started_serves[of sample_dnd image_or_text "''text/plain''" sample_dnd_env 8 9
        "chunk_polls [[104], [105]]" "[104, 105]" drag_cfg "[]" no_drag 7 50]
    by (auto simp: sample_text_mime WLX_CLIPBOARD_MAX_def)
  have "dnd_reach drag_cfg sample_dnd no_drag d"
    by (rule dnd_more[OF dnd_start, of _ _ sample_dnd_env "[]"
          "DStart (Some image_or_text) (chunk_polls [[104], [105]] @ [PollRead ReadEof])"]) (use d in \<open>simp add: no_drag_def\<close>)
  from drag_stays_on_target[OF this] d show ?thesis by (simp add: no_drag_def XCB_WINDOW_NONE_def)
qed


lemma incr_drop_imports_size_witness:
  "let env = sample_dnd_env\<lparr>xdnd_prop := Some (39, [0, 0, 1, 0])\<rparr>;
       d' = inbound_drop sample_dnd env 7 99 no_drag
   in in_text (clip (dnd_clip d')) = Some [0, 0, 1, 0, 0]
    \<and> last (x_log d') = DndMessage 99 (xdnd_finished sample_dnd) [7, 1, xdnd_action_copy sample_dnd, 0, 0]"
  unfolding Let_def
  using incr_drop_imports_size[of sample_dnd 99 "sample_dnd_env\<lparr>xdnd_prop := Some (39, [0, 0, 1, 0])\<rparr>" 0 0 1 0
      "inbound_drop sample_dnd (sample_dnd_env\<lparr>xdnd_prop := Some (39, [0, 0, 1, 0])\<rparr>) 7 99 no_drag" 7 no_drag]
  by (simp add: XCB_WINDOW_NONE_def)

lemma release_drops_or_ends_witness:
  "\<not> dnd_out_active (dnd_out_on_button_release sample_dnd sample_dnd_env
      (no_drag\<lparr>dnd_out_active := True, dnd_out_text := Some [104, 0], dnd_out_target := 7\<rparr>))"
  using release_drops_or_ends[of sample_dnd
      "dnd_out_on_button_release sample_dnd sample_dnd_env
        (no_drag\<lparr>dnd_out_active := True, dnd_out_text := Some [104, 0], dnd_out_target := 7\<rparr>)"
      sample_dnd_env "no_drag\<lparr>dnd_out_active := True, dnd_out_text := Some [104, 0], dnd_out_target := 7\<rparr>"]
  by (simp add: XCB_WINDOW_NONE_def no_drag_def)

lemma cancelled_drag_still_drops_witness:
  "let d = no_drag\<lparr>dnd_out_active := True, dnd_out_target := 7, dnd_out_accepted := True\<rparr>
   in x_log (dnd_out_on_button_release sample_dnd sample_dnd_env
        (dnd_out_on_button_release sample_dnd sample_dnd_env (drag_destroy sample_dnd sample_dnd_env d))) =
      x_log d @ replicate 2 (DndMessage (dnd_out_target d) (xdnd_drop sample_dnd) [s_window sample_dnd, 0, 0, 0, 0])"
  unfolding Let_def by (rule cancelled_drag_still_drops) (simp_all add: XCB_WINDOW_NONE_def)

lemma drag_target_found_witness:
  "\<exists>r. dnd_find_aware_target drag_cfg sample_dnd sample_dnd_env [] = Some r
    \<and> (case r of None \<Rightarrow> True
       | Some (t, v) \<Rightarrow> t \<noteq> XCB_WINDOW_NONE \<and> \<not> dnd_window_is_ours sample_dnd [] t \<and> 0 \<le> v \<and> v \<le> 5)"
  by (rule drag_target_found[where depth = "\<lambda>w. if w = 1 then 0 else 1"]) (simp add: sample_parents[simplified])

section \<open>The process\<close>

text \<open>\<open>--csd --ssd foot --csd\<close>: the last option before the command counts, and the command keeps its own.\<close>

lemma options_then_command_witness:
  "\<exists>flags. [''--csd'', ''--ssd'', ''foot'', ''--csd''] = flags @ [''foot'', ''--csd'']
    \<and> [''foot'', ''--csd''] \<noteq> [] \<and> arg_kind (hd [''foot'', ''--csd'']) = ArgCommand
    \<and> parse_args (\<lambda>_. (NaN, 0)) default_options flags = RunWith (default_options\<lparr>opt_decoration_flag_set := True\<rparr>) None
    \<and> opt_prefer_csd (default_options\<lparr>opt_decoration_flag_set := True\<rparr>)
        = wants_csd (opt_prefer_csd default_options) (flags_of flags)"
proof (rule options_then_command)
  have "arg_kind ''--csd'' = ArgCsd" "arg_kind ''--ssd'' = ArgSsd" "arg_kind ''foot'' = ArgCommand" by code_simp+
  then show "parse_args (\<lambda>_. (NaN, 0)) default_options [''--csd'', ''--ssd'', ''foot'', ''--csd''] =
      RunWith (default_options\<lparr>opt_decoration_flag_set := True\<rparr>) (Some [''foot'', ''--csd''])"
    by (simp add: default_options_def)
qed

lemma scale_nan_accepted_witness:
  "parse_args (\<lambda>s. if s = ''nan'' then (NaN, 3) else (Finite 1, length s)) default_options [''--scale'', ''nan''] =
    RunWith (default_options\<lparr>opt_content_scale := NaN\<rparr>) None"
  by (rule scale_nan_accepted) simp

lemma stops_with_last_client_witness:
  "terminated (fold client_step [Connect 1 True, Connect 2 True, Disconnect 1, Disconnect 2] (client_start True))
     = (True \<and> last_leaves 0 [Connect 1 True, Connect 2 True, Disconnect 1, Disconnect 2])"
  by (rule stops_with_last_client) simp

lemma lost_tracker_never_stops_witness:
  "\<not> terminated (fold client_step ([Connect 1 True] @ Connect 2 False # [Disconnect 1, Disconnect 2]) (client_start True))"
  by (rule lost_tracker_never_stops) simp_all

section \<open>The stress client\<close>

definition torture_start :: torture where
  "torture_start = \<lparr>conf_w = 400, conf_h = 300, conf_serial = 1, conf_pending = False, t_maximized = False,
     t_activated = False, phase = PH_MAP, phase_step = 0, phase_start_ms = 0, last_step_ms = 0, period_ms = 40,
     loop = False, running = True, buf_w = 400, buf_h = 300, visited = [PH_MAP], t_log = []\<rparr>"

lemma phases_in_order_witness:
  "visited (main_loop (\<lambda>_ _. True) [(900, []), (1800, [ToplevelConfigure 10 10 []])] torture_start) =
     take (phase_index (phase (main_loop (\<lambda>_ _. True) [(900, []), (1800, [ToplevelConfigure 10 10 []])] torture_start)) + 1)
       all_phases"
  by (rule phases_in_order[of 0]) (simp_all add: torture_start_def entered_at_def)

lemma torture_ends_witness:
  "\<not> running (main_loop (\<lambda>_ _. True) (map (\<lambda>i. (int i * 1000, [])) [1..<20]) torture_start)"
  by (rule torture_ends[of 0 _ 1000]) (simp_all add: torture_start_def entered_at_def upt_rec)

lemma undersize_is_undersize_witness:
  "let g = torture_start\<lparr>phase := PH_UNDERSIZE_MAX, conf_w := 1920, conf_h := 1080\<rparr>
   in \<exists>w h. t_log (attach_desired (\<lambda>_ _. True) g) = t_log g @ [AttachBuffer w h (phase_color PH_UNDERSIZE_MAX)]
    \<and> 64 \<le> w \<and> 2 * w \<le> conf_w g \<and> 64 \<le> h \<and> 2 * h \<le> conf_h g"
  unfolding Let_def by (rule undersize_is_undersize) simp_all

end
