(* ===== verification/X11_Buffers.thy ===== *)
theory X11_Buffers
  imports Wlx_Types
begin

text \<open>
  The life of a buffer that is shown on an X window: the reference counts of wlroots
  (\<open>types/buffer/buffer.c\<close>, lines 34 to 76) and the pixmaps the X11 backend makes of buffers
  (\<open>backend/x11/output.c\<close>, lines 200 to 353 and the idle branch of \<open>handle_x11_present_event\<close>).
  One state holds the buffers that exist and the pixmap list of one window. An operation whose
  assertion fails, or that reaches through a pointer to a buffer that is gone, has no result.
\<close>

section \<open>State\<close>

text \<open>What \<open>wlr_buffer_get_dmabuf\<close> and \<open>wlr_buffer_get_shm\<close> answer for a buffer.\<close>

datatype buffer_attribs =
    Dmabuf (attr_format: "32 word") (dmabuf_planes: nat) (dmabuf_modifier_valid: bool)
  | Shm (attr_format: "32 word") (shm_stride: int) (shm_width: int)
  | NoAttribs

record wlr_buffer =
  b_width :: int
  b_height :: int
  b_attribs :: buffer_attribs
  b_locks :: nat
  b_dropped :: bool

record x11_buffer =
  xb_buffer :: nat
  xb_pixmap :: xid
  xb_busy :: nat

datatype pix_call = MakePixmap xid nat | FreePixmap xid

record buf_state =
  bs_store :: "nat \<rightharpoonup> wlr_buffer"
  bs_list :: "x11_buffer list"
  bs_log :: "pix_call list"

text \<open>The backend's format, the DRI3 version, and what the calls out of the program answer.\<close>

record buf_env =
  be_format :: "32 word"
  be_bytes_per_block :: int
  be_pixels_per_block :: int
  be_dri3_1_2 :: bool
  be_dup_ok :: bool
  be_calloc_ok :: bool
  be_new_id :: xid
  be_rects_ok :: bool \<comment> \<open>there is memory for the damage of an opaque buffer, or none is needed\<close>

definition bs_say :: "pix_call \<Rightarrow> buf_state \<Rightarrow> buf_state" where
  "bs_say c s = s\<lparr>bs_log := bs_log s @ [c]\<rparr>"

definition set_buffer :: "nat \<Rightarrow> wlr_buffer \<Rightarrow> buf_state \<Rightarrow> buf_state" where
  "set_buffer b w s = s\<lparr>bs_store := (bs_store s)(b \<mapsto> w)\<rparr>"

section \<open>Reference counts\<close>

text \<open>
  \<open>wlr_buffer_finish\<close> as the destructor of a buffer runs it: every pixmap entry of the buffer is
  unlinked and its pixmap freed. \<open>x11_buffer_destroy\<close> then gives back the locks of a busy entry,
  and \<open>wlr_buffer_unlock\<close> asserts that there is one: at this point there is none left.
\<close>

fun buffer_handle_buffer_destroy :: "nat \<Rightarrow> x11_buffer list \<Rightarrow> (x11_buffer list \<times> pix_call list) option" where
  "buffer_handle_buffer_destroy b [] = Some ([], [])"
| "buffer_handle_buffer_destroy b (xb # xbs) =
     (if xb_buffer xb = b \<and> 0 < xb_busy xb then None
      else case buffer_handle_buffer_destroy b xbs of
          None \<Rightarrow> None
        | Some (ys, cs) \<Rightarrow>
            Some (if xb_buffer xb = b then (ys, FreePixmap (xb_pixmap xb) # cs) else (xb # ys, cs)))"

definition wlr_buffer_finish :: "nat \<Rightarrow> buf_state \<Rightarrow> buf_state option" where
  "wlr_buffer_finish b s =
     (case buffer_handle_buffer_destroy b (bs_list s) of
        None \<Rightarrow> None
      | Some (ys, cs) \<Rightarrow>
          Some (s\<lparr>bs_store := (bs_store s)(b := None), bs_list := ys, bs_log := bs_log s @ cs\<rparr>))"

definition buffer_consider_destroy :: "nat \<Rightarrow> buf_state \<Rightarrow> buf_state option" where
  "buffer_consider_destroy b s =
     (case bs_store s b of
        None \<Rightarrow> None
      | Some w \<Rightarrow> if \<not> b_dropped w \<or> 0 < b_locks w then Some s else wlr_buffer_finish b s)"

definition wlr_buffer_drop :: "nat \<Rightarrow> buf_state \<Rightarrow> buf_state option" where
  "wlr_buffer_drop b s =
     (case bs_store s b of
        None \<Rightarrow> None
      | Some w \<Rightarrow>
          if b_dropped w then None
          else buffer_consider_destroy b (set_buffer b (w\<lparr>b_dropped := True\<rparr>) s))"

definition wlr_buffer_lock :: "nat \<Rightarrow> buf_state \<Rightarrow> buf_state option" where
  "wlr_buffer_lock b s =
     (case bs_store s b of
        None \<Rightarrow> None
      | Some w \<Rightarrow> Some (set_buffer b (w\<lparr>b_locks := b_locks w + 1\<rparr>) s))"

definition wlr_buffer_unlock :: "nat \<Rightarrow> buf_state \<Rightarrow> buf_state option" where
  "wlr_buffer_unlock b s =
     (case bs_store s b of
        None \<Rightarrow> None
      | Some w \<Rightarrow>
          if b_locks w = 0 then None
          else buffer_consider_destroy b (set_buffer b (w\<lparr>b_locks := b_locks w - 1\<rparr>) s))"

section \<open>Pixmaps\<close>

definition div_round_up :: "int \<Rightarrow> int \<Rightarrow> int" where
  "div_round_up dividend divisor =
     (let q = dividend sdiv divisor in if dividend smod divisor \<noteq> 0 then q + 1 else q)"

definition pixel_format_info_min_stride :: "buf_env \<Rightarrow> int \<Rightarrow> int" where
  "pixel_format_info_min_stride env width =
     (if width > (2 ^ 31 - 1) sdiv be_bytes_per_block env then 0
      else div_round_up (width * be_bytes_per_block env) (be_pixels_per_block env))"

definition import_dmabuf :: "buf_env \<Rightarrow> 32 word \<Rightarrow> nat \<Rightarrow> bool \<Rightarrow> xid" where
  "import_dmabuf env fmt planes modifier =
     (if fmt \<noteq> be_format env then 0
      else if \<not> be_dup_ok env then 0
      else if be_dri3_1_2 env then (if 4 < planes then 0 else be_new_id env)
      else if planes \<noteq> 1 \<or> modifier then 0
      else be_new_id env)"

definition import_shm :: "buf_env \<Rightarrow> 32 word \<Rightarrow> int \<Rightarrow> int \<Rightarrow> xid" where
  "import_shm env fmt stride width =
     (if fmt \<noteq> be_format env then 0
      else if stride \<noteq> pixel_format_info_min_stride env width then 0
      else if \<not> be_dup_ok env then 0
      else be_new_id env)"

definition import_buffer :: "buf_env \<Rightarrow> wlr_buffer \<Rightarrow> xid" where
  "import_buffer env w =
     (case b_attribs w of
        Dmabuf fmt planes modifier \<Rightarrow> import_dmabuf env fmt planes modifier
      | Shm fmt stride width \<Rightarrow> import_shm env fmt stride width
      | NoAttribs \<Rightarrow> 0)"

text \<open>The pixmap the new entry shows, or \<open>None\<close> where the function returns NULL.\<close>

definition create_x11_buffer :: "buf_env \<Rightarrow> nat \<Rightarrow> buf_state \<Rightarrow> (buf_state \<times> xid option) option" where
  "create_x11_buffer env b s =
     (case bs_store s b of
        None \<Rightarrow> None
      | Some w \<Rightarrow>
          let pixmap = import_buffer env w in
          if pixmap = 0 then Some (s, None)
          else let s1 = bs_say (MakePixmap pixmap b) s in
          if \<not> be_calloc_ok env then Some (bs_say (FreePixmap pixmap) s1, None)
          else case wlr_buffer_lock b s1 of
              None \<Rightarrow> None
            | Some s2 \<Rightarrow>
                Some (s2\<lparr>bs_list := \<lparr>xb_buffer = b, xb_pixmap = pixmap, xb_busy = 1\<rparr> # bs_list s2\<rparr>,
                      Some pixmap))"

text \<open>One more use of the entry of a buffer, the first of the list; \<open>None\<close> when there is none.\<close>

fun reuse_entry :: "nat \<Rightarrow> x11_buffer list \<Rightarrow> (xid \<times> x11_buffer list) option" where
  "reuse_entry b [] = None"
| "reuse_entry b (xb # xbs) =
     (if xb_buffer xb = b then Some (xb_pixmap xb, xb\<lparr>xb_busy := xb_busy xb + 1\<rparr> # xbs)
      else map_option (\<lambda>(p, ys). (p, xb # ys)) (reuse_entry b xbs))"

definition x11_buffer_get_or_create ::
  "buf_env \<Rightarrow> nat \<Rightarrow> buf_state \<Rightarrow> (buf_state \<times> xid option) option" where
  "x11_buffer_get_or_create env b s =
     (case reuse_entry b (bs_list s) of
        Some (p, xbs) \<Rightarrow> (case wlr_buffer_lock b s of
            None \<Rightarrow> None
          | Some s1 \<Rightarrow> Some (s1\<lparr>bs_list := xbs\<rparr>, Some p))
      | None \<Rightarrow> create_x11_buffer env b s)"

definition x11_buffer_find_by_pixmap :: "x11_buffer list \<Rightarrow> xid \<Rightarrow> x11_buffer option" where
  "x11_buffer_find_by_pixmap xbs pixmap = List.find (\<lambda>xb. xb_pixmap xb = pixmap) xbs"

text \<open>\<open>n_busy--\<close> of the entry that was found.\<close>

fun idle_entry :: "xid \<Rightarrow> x11_buffer list \<Rightarrow> x11_buffer list" where
  "idle_entry pixmap [] = []"
| "idle_entry pixmap (xb # xbs) =
     (if xb_pixmap xb = pixmap then xb\<lparr>xb_busy := xb_busy xb - 1\<rparr> # xbs
      else xb # idle_entry pixmap xbs)"

definition handle_present_idle :: "xid \<Rightarrow> buf_state \<Rightarrow> buf_state option" where
  "handle_present_idle pixmap s =
     (case x11_buffer_find_by_pixmap (bs_list s) pixmap of
        None \<Rightarrow> Some s
      | Some xb \<Rightarrow>
          if xb_busy xb = 0 then None
          else wlr_buffer_unlock (xb_buffer xb) (s\<lparr>bs_list := idle_entry pixmap (bs_list s)\<rparr>))"

text \<open>\<open>x11_buffer_destroy\<close> of an entry of a window that goes away.\<close>

fun unlock_times :: "nat \<Rightarrow> nat \<Rightarrow> buf_state \<Rightarrow> buf_state option" where
  "unlock_times 0 b s = Some s"
| "unlock_times (Suc n) b s = Option.bind (wlr_buffer_unlock b s) (unlock_times n b)"

definition x11_buffer_destroy :: "x11_buffer \<Rightarrow> buf_state \<Rightarrow> buf_state option" where
  "x11_buffer_destroy xb s =
     unlock_times (xb_busy xb) (xb_buffer xb)
       (bs_say (FreePixmap (xb_pixmap xb)) (s\<lparr>bs_list := remove1 xb (bs_list s)\<rparr>))"

text \<open>
  \<open>output_commit_buffer\<close>: the pixmap that is presented, or \<open>None\<close> where it fails. When there is no memory
  for the rectangles of the damage it destroys the entry it has got, which may be one whose earlier
  presents are still unanswered.
\<close>

definition output_commit_buffer :: "buf_env \<Rightarrow> nat \<Rightarrow> buf_state \<Rightarrow> (buf_state \<times> xid option) option" where
  "output_commit_buffer env b s =
     (case x11_buffer_get_or_create env b s of
        None \<Rightarrow> None
      | Some (s1, None) \<Rightarrow> Some (s1, None)
      | Some (s1, Some p) \<Rightarrow>
          if be_rects_ok env then Some (s1, Some p)
          else (case x11_buffer_find_by_pixmap (bs_list s1) p of
              None \<Rightarrow> None
            | Some xb \<Rightarrow> map_option (\<lambda>s2. (s2, None)) (x11_buffer_destroy xb s1)))"

fun destroy_buffers :: "x11_buffer list \<Rightarrow> buf_state \<Rightarrow> buf_state option" where
  "destroy_buffers [] s = Some s"
| "destroy_buffers (xb # xbs) s = Option.bind (x11_buffer_destroy xb s) (destroy_buffers xbs)"

section \<open>Entries and their counts\<close>

text \<open>The uses of the entries with a key: a buffer or a pixmap.\<close>

definition busy_sum :: "(x11_buffer \<Rightarrow> 'k) \<Rightarrow> 'k \<Rightarrow> x11_buffer list \<Rightarrow> nat" where
  "busy_sum f k xbs = sum_list (map xb_busy (filter (\<lambda>xb. f xb = k) xbs))"

lemma busy_sum_simps [simp]:
  "busy_sum f k [] = 0"
  "busy_sum f k (xb # xbs) = (if f xb = k then xb_busy xb else 0) + busy_sum f k xbs"
  by (simp_all add: busy_sum_def)

lemma busy_sum_0: "k \<notin> f ` set xbs \<Longrightarrow> busy_sum f k xbs = 0"
  by (induction xbs) auto

lemma busy_sum_0_iff: "busy_sum f k xbs = 0 \<longleftrightarrow> (\<forall>xb \<in> set xbs. f xb = k \<longrightarrow> xb_busy xb = 0)"
  by (induction xbs) auto

lemma busy_sum_entry:
  "xb \<in> set xbs \<Longrightarrow> distinct (map f xbs) \<Longrightarrow> busy_sum f (f xb) xbs = xb_busy xb"
  by (induction xbs) (auto simp: busy_sum_0)

lemma busy_sum_ge: "xb \<in> set xbs \<Longrightarrow> xb_busy xb \<le> busy_sum f (f xb) xbs"
  by (induction xbs) auto

lemma same_buffers_ball:
  assumes "map xb_buffer ys = map xb_buffer xbs" "\<forall>xb \<in> set xbs. P (xb_buffer xb)"
  shows "\<forall>xb \<in> set ys. P (xb_buffer xb)"
proof -
  from assms(2) have "list_all P (map xb_buffer xbs)" by (simp add: list_all_iff)
  with assms(1) have "list_all P (map xb_buffer ys)" by simp
  then show ?thesis by (simp add: list_all_iff)
qed

lemma reuse_entry_Some:
  "reuse_entry b xbs = Some (p, ys) \<Longrightarrow>
    map xb_pixmap ys = map xb_pixmap xbs \<and> map xb_buffer ys = map xb_buffer xbs
    \<and> p \<in> xb_pixmap ` set xbs \<and> b \<in> xb_buffer ` set xbs
    \<and> busy_sum xb_buffer c ys = busy_sum xb_buffer c xbs + (if c = b then 1 else 0)
    \<and> busy_sum xb_pixmap q ys = busy_sum xb_pixmap q xbs + (if q = p then 1 else 0)"
proof (induction xbs arbitrary: ys)
  case (Cons xb xbs)
  show ?case
  proof (cases "xb_buffer xb = b")
    case True
    with Cons.prems show ?thesis by auto
  next
    case False
    with Cons.prems obtain zs where zs: "reuse_entry b xbs = Some (p, zs)" "ys = xb # zs" by auto
    from Cons.IH[OF zs(1)] zs(2) show ?thesis by simp
  qed
qed simp

lemma reuse_entry_pair:
  "reuse_entry b xbs = Some (p, ys) \<Longrightarrow> \<exists>xb \<in> set ys. xb_buffer xb = b \<and> xb_pixmap xb = p"
  by (induction xbs arbitrary: ys) (force split: if_splits)+

lemma reuse_entry_None: "reuse_entry b xbs = None \<longleftrightarrow> b \<notin> xb_buffer ` set xbs"
  by (induction b xbs rule: reuse_entry.induct) auto

lemma find_by_pixmap_Some:
  "x11_buffer_find_by_pixmap xbs p = Some xb \<Longrightarrow> xb \<in> set xbs \<and> xb_pixmap xb = p"
  by (auto simp: x11_buffer_find_by_pixmap_def find_Some_iff)

lemma find_by_pixmap_None: "x11_buffer_find_by_pixmap xbs p = None \<longleftrightarrow> p \<notin> xb_pixmap ` set xbs"
  by (auto simp: x11_buffer_find_by_pixmap_def find_None_iff)

lemma idle_entry_counts:
  "x11_buffer_find_by_pixmap xbs p = Some xb \<Longrightarrow> 0 < xb_busy xb \<Longrightarrow>
    map xb_pixmap (idle_entry p xbs) = map xb_pixmap xbs
    \<and> map xb_buffer (idle_entry p xbs) = map xb_buffer xbs
    \<and> busy_sum xb_buffer c (idle_entry p xbs) + (if c = xb_buffer xb then 1 else 0)
      = busy_sum xb_buffer c xbs
    \<and> busy_sum xb_pixmap q (idle_entry p xbs) + (if q = p then 1 else 0) = busy_sum xb_pixmap q xbs"
  by (induction p xbs rule: idle_entry.induct)
    (auto simp: x11_buffer_find_by_pixmap_def split: if_splits)

lemma destroy_unused:
  "busy_sum xb_buffer b xbs = 0 \<Longrightarrow>
    \<exists>cs. buffer_handle_buffer_destroy b xbs = Some (filter (\<lambda>xb. xb_buffer xb \<noteq> b) xbs, cs)"
  by (induction b xbs rule: buffer_handle_buffer_destroy.induct) (auto split: if_splits)

lemma busy_sum_filter_buffer [simp]:
  "busy_sum xb_buffer c (filter (\<lambda>xb. xb_buffer xb \<noteq> b) xbs)
    = (if c = b then 0 else busy_sum xb_buffer c xbs)"
  by (induction xbs) auto

lemma busy_sum_filter_pixmap:
  "busy_sum xb_buffer b xbs = 0 \<Longrightarrow>
    busy_sum xb_pixmap q (filter (\<lambda>xb. xb_buffer xb \<noteq> b) xbs) = busy_sum xb_pixmap q xbs"
  by (induction xbs) (auto split: if_splits)

section \<open>Runs\<close>

text \<open>
  One window with everybody else: \<open>bw_out\<close> counts, per pixmap, the presents the X server has not
  answered with an idle event, \<open>bw_others\<close> the locks held by other parts of the program. \<open>bw_lost\<close>
  records the pixmaps whose entry a present without memory for its damage destroyed while presents
  of it were unanswered.
\<close>

record buf_world =
  bw :: buf_state
  bw_out :: "xid \<Rightarrow> nat"
  bw_others :: "nat \<Rightarrow> nat"
  bw_lost :: "xid \<Rightarrow> bool"

datatype buf_event =
    BufPresent buf_env nat
  | BufIdle xid
  | BufLock nat
  | BufUnlock nat
  | BufDrop nat
  | BufNew nat int int buffer_attribs
  | BufGone

definition bump :: "'k \<Rightarrow> ('k \<Rightarrow> nat) \<Rightarrow> 'k \<Rightarrow> nat" where
  "bump k f = f(k := f k + 1)"

definition lower :: "'k \<Rightarrow> ('k \<Rightarrow> nat) \<Rightarrow> 'k \<Rightarrow> nat" where
  "lower k f = f(k := f k - 1)"

fun buf_next :: "buf_event \<Rightarrow> buf_world \<Rightarrow> buf_world option" where
  "buf_next (BufPresent env b) w =
     (case output_commit_buffer env b (bw w) of
        None \<Rightarrow> None
      | Some (s, None) \<Rightarrow>
          Some (w\<lparr>bw := s,
            bw_lost := (\<lambda>p. bw_lost w p \<or> 0 < bw_out w p \<and> p \<notin> xb_pixmap ` set (bs_list s))\<rparr>)
      | Some (s, Some p) \<Rightarrow>
          Some (w\<lparr>bw := s, bw_out := bump p (bw_out w), bw_lost := (bw_lost w)(p := False)\<rparr>))"
| "buf_next (BufIdle p) w =
     map_option (\<lambda>s. w\<lparr>bw := s, bw_out := lower p (bw_out w)\<rparr>) (handle_present_idle p (bw w))"
| "buf_next (BufLock b) w =
     map_option (\<lambda>s. w\<lparr>bw := s, bw_others := bump b (bw_others w)\<rparr>) (wlr_buffer_lock b (bw w))"
| "buf_next (BufUnlock b) w =
     map_option (\<lambda>s. w\<lparr>bw := s, bw_others := lower b (bw_others w)\<rparr>) (wlr_buffer_unlock b (bw w))"
| "buf_next (BufDrop b) w = map_option (\<lambda>s. w\<lparr>bw := s\<rparr>) (wlr_buffer_drop b (bw w))"
| "buf_next (BufNew b bwidth bheight attrs) w =
     Some (w\<lparr>bw := set_buffer b \<lparr>b_width = bwidth, b_height = bheight, b_attribs = attrs,
                                b_locks = 0, b_dropped = False\<rparr> (bw w)\<rparr>)"
| "buf_next BufGone w =
     map_option (\<lambda>s. w\<lparr>bw := s, bw_out := (\<lambda>_. 0), bw_lost := (\<lambda>_. False)\<rparr>) (destroy_buffers (bs_list (bw w)) (bw w))"

text \<open>What the others do: the X server answers each present once at most, ids are fresh, a lock
  is given back by who took it, a buffer is dropped once, by its owner, and not used after.\<close>

fun buf_legal :: "buf_event \<Rightarrow> buf_world \<Rightarrow> bool" where
  "buf_legal (BufPresent env b) w \<longleftrightarrow>
     bs_store (bw w) b \<noteq> None \<and> be_new_id env \<notin> xb_pixmap ` set (bs_list (bw w))
     \<and> bw_out w (be_new_id env) = 0"
| "buf_legal (BufIdle p) w \<longleftrightarrow> 0 < bw_out w p"
| "buf_legal (BufLock b) w \<longleftrightarrow> bs_store (bw w) b \<noteq> None"
| "buf_legal (BufUnlock b) w \<longleftrightarrow> 0 < bw_others w b"
| "buf_legal (BufDrop b) w \<longleftrightarrow>
     (case bs_store (bw w) b of None \<Rightarrow> False | Some x \<Rightarrow> \<not> b_dropped x)"
| "buf_legal (BufNew b _ _ _) w \<longleftrightarrow> bs_store (bw w) b = None"
| "buf_legal BufGone w \<longleftrightarrow> True"

inductive buf_reach :: "buf_world \<Rightarrow> bool" where
  buf_start: "buf_reach \<lparr>bw = \<lparr>bs_store = Map.empty, bs_list = [], bs_log = []\<rparr>,
    bw_out = (\<lambda>_. 0), bw_others = (\<lambda>_. 0), bw_lost = (\<lambda>_. False)\<rparr>"
| buf_step: "buf_reach w \<Longrightarrow> buf_legal e w \<Longrightarrow> buf_next e w = Some w' \<Longrightarrow> buf_reach w'"

definition buf_inv :: "buf_world \<Rightarrow> bool" where
  "buf_inv w \<longleftrightarrow>
     distinct (map xb_pixmap (bs_list (bw w))) \<and> distinct (map xb_buffer (bs_list (bw w)))
     \<and> (\<forall>xb \<in> set (bs_list (bw w)). bs_store (bw w) (xb_buffer xb) \<noteq> None)
     \<and> (\<forall>b x. bs_store (bw w) b = Some x \<longrightarrow>
          b_locks x = bw_others w b + busy_sum xb_buffer b (bs_list (bw w)))
     \<and> (\<forall>b x. bs_store (bw w) b = Some x \<longrightarrow> b_dropped x \<longrightarrow>
          0 < bw_others w b + busy_sum xb_buffer b (bs_list (bw w)))
     \<and> (\<forall>b. bs_store (bw w) b = None \<longrightarrow> bw_others w b = 0)
     \<and> (\<forall>p. bw_lost w p \<or> bw_out w p = busy_sum xb_pixmap p (bs_list (bw w)))
     \<and> (\<forall>p \<in> xb_pixmap ` set (bs_list (bw w)). \<not> bw_lost w p)"

lemma buf_inv_start:
  "buf_inv \<lparr>bw = \<lparr>bs_store = Map.empty, bs_list = [], bs_log = []\<rparr>, bw_out = (\<lambda>_. 0), bw_others = (\<lambda>_. 0), bw_lost = (\<lambda>_. False)\<rparr>"
  by (simp add: buf_inv_def)

text \<open>A buffer whose last lock is gone is destroyed with its unused entries, or kept.\<close>

lemma consider_destroy_inv:
  assumes inv: "distinct (map xb_pixmap (bs_list s))" "distinct (map xb_buffer (bs_list s))"
      "\<forall>xb \<in> set (bs_list s). bs_store s (xb_buffer xb) \<noteq> None"
      "\<forall>c x. bs_store s c = Some x \<longrightarrow> b_locks x = others c + busy_sum xb_buffer c (bs_list s)"
      "\<forall>c x. bs_store s c = Some x \<longrightarrow> c \<noteq> b \<longrightarrow> b_dropped x \<longrightarrow>
         0 < others c + busy_sum xb_buffer c (bs_list s)"
      "\<forall>c. bs_store s c = None \<longrightarrow> others c = 0"
      "\<forall>p. lost p \<or> out p = busy_sum xb_pixmap p (bs_list s)"
      "\<forall>p \<in> xb_pixmap ` set (bs_list s). \<not> lost p"
    and b: "bs_store s b = Some v"
  shows "\<exists>s'. buffer_consider_destroy b s = Some s' \<and> buf_inv \<lparr>bw = s', bw_out = out, bw_others = others, bw_lost = lost\<rparr>"
proof (cases "\<not> b_dropped v \<or> 0 < b_locks v")
  case True
  then have "buffer_consider_destroy b s = Some s" using b by (simp add: buffer_consider_destroy_def)
  moreover have "buf_inv \<lparr>bw = s, bw_out = out, bw_others = others, bw_lost = lost\<rparr>"
    unfolding buf_inv_def
  proof (intro conjI allI impI)
    fix c x
    assume c: "bs_store (bw \<lparr>bw = s, bw_out = out, bw_others = others, bw_lost = lost\<rparr>) c = Some x" "b_dropped x"
    show "0 < bw_others \<lparr>bw = s, bw_out = out, bw_others = others, bw_lost = lost\<rparr> c
        + busy_sum xb_buffer c (bs_list (bw \<lparr>bw = s, bw_out = out, bw_others = others, bw_lost = lost\<rparr>))"
      using inv(4,5) b True c by (cases "c = b") auto
  qed (use inv in auto)
  ultimately show ?thesis by blast
next
  case False
  then have z: "busy_sum xb_buffer b (bs_list s) = 0" "others b = 0" using inv(4) b by auto
  from destroy_unused[OF z(1)] obtain cs where
    cs: "buffer_handle_buffer_destroy b (bs_list s) = Some (filter (\<lambda>xb. xb_buffer xb \<noteq> b) (bs_list s), cs)"
    by blast
  let ?s = "s\<lparr>bs_store := (bs_store s)(b := None), bs_list := filter (\<lambda>xb. xb_buffer xb \<noteq> b) (bs_list s),
    bs_log := bs_log s @ cs\<rparr>"
  have "buffer_consider_destroy b s = Some ?s"
    using False b cs by (simp add: buffer_consider_destroy_def wlr_buffer_finish_def)
  moreover have "buf_inv \<lparr>bw = ?s, bw_out = out, bw_others = others, bw_lost = lost\<rparr>"
    unfolding buf_inv_def
  proof (simp, intro conjI allI impI ballI)
    show "distinct (map xb_pixmap (filter (\<lambda>xb. xb_buffer xb \<noteq> b) (bs_list s)))"
      using inv(1) by (rule distinct_map_filter)
    show "distinct (map xb_buffer (filter (\<lambda>xb. xb_buffer xb \<noteq> b) (bs_list s)))"
      using inv(2) by (rule distinct_map_filter)
  qed (use inv z in \<open>auto simp: busy_sum_filter_pixmap\<close>)
  ultimately show ?thesis by blast
qed

lemma buf_inv_entry:
  assumes "buf_inv w" "p \<in> xb_pixmap ` set (bs_list (bw w))"
  obtains xb where "x11_buffer_find_by_pixmap (bs_list (bw w)) p = Some xb" "xb \<in> set (bs_list (bw w))"
    "xb_pixmap xb = p" "bw_out w p = xb_busy xb" "bs_store (bw w) (xb_buffer xb) \<noteq> None"
proof -
  from assms(2) obtain xb where xb: "x11_buffer_find_by_pixmap (bs_list (bw w)) p = Some xb"
    by (metis find_by_pixmap_None option.exhaust)
  note m = find_by_pixmap_Some[OF xb]
  have "bw_out w p = xb_busy xb"
    using assms m busy_sum_entry[of xb "bs_list (bw w)" xb_pixmap] by (auto simp: buf_inv_def)
  with that[OF xb] m assms(1) show ?thesis by (simp add: buf_inv_def)
qed

lemma buf_out_entry:
  assumes "buf_inv w" "0 < bw_out w p" "\<not> bw_lost w p"
  shows "p \<in> xb_pixmap ` set (bs_list (bw w))"
proof (rule ccontr)
  assume "p \<notin> xb_pixmap ` set (bs_list (bw w))"
  then have "busy_sum xb_pixmap p (bs_list (bw w)) = 0" by (rule busy_sum_0)
  moreover have "bw_lost w p \<or> bw_out w p = busy_sum xb_pixmap p (bs_list (bw w))"
    using assms(1) by (simp add: buf_inv_def)
  ultimately show False using assms(2,3) by simp
qed

lemma import_id: "import_buffer env x \<noteq> 0 \<Longrightarrow> import_buffer env x = be_new_id env" for env :: buf_env
  by (auto simp: import_buffer_def import_dmabuf_def import_shm_def split: buffer_attribs.splits if_splits)

text \<open>An entry with one more use is accounted for by one more present.\<close>

lemma get_or_create_inv:
  assumes inv: "buf_inv w" and legal: "buf_legal (BufPresent env b) w"
  shows "(\<exists>s. x11_buffer_get_or_create env b (bw w) = Some (s, None) \<and> bs_list s = bs_list (bw w)
      \<and> buf_inv (w\<lparr>bw := s\<rparr>))
    \<or> (\<exists>s p. x11_buffer_get_or_create env b (bw w) = Some (s, Some p) \<and> p \<in> xb_pixmap ` set (bs_list s)
      \<and> set (map xb_pixmap (bs_list s)) = insert p (set (map xb_pixmap (bs_list (bw w))))
      \<and> buf_inv (w\<lparr>bw := s, bw_out := bump p (bw_out w), bw_lost := (bw_lost w)(p := False)\<rparr>))"
proof -
  from legal obtain x where x: "bs_store (bw w) b = Some x" by auto
  show ?thesis
  proof (cases "reuse_entry b (bs_list (bw w))")
    case (Some r)
    obtain p ys where r: "r = (p, ys)" by (cases r)
    note c = reuse_entry_Some[OF Some[unfolded r]]
    have m: "map xb_pixmap ys = map xb_pixmap (bs_list (bw w))"
      "map xb_buffer ys = map xb_buffer (bs_list (bw w))" using c by blast+
    have st: "set (map xb_pixmap ys) = set (map xb_pixmap (bs_list (bw w)))" using m(1) by simp
    have p: "p \<in> xb_pixmap ` set (bs_list (bw w))" using c by blast
    have a: "\<forall>xb \<in> set ys. bs_store (bw w) (xb_buffer xb) \<noteq> None"
      by (rule same_buffers_ball[OF m(2)]) (use inv in \<open>simp add: buf_inv_def\<close>)
    let ?s = "(set_buffer b (x\<lparr>b_locks := b_locks x + 1\<rparr>) (bw w))\<lparr>bs_list := ys\<rparr>"
    have g: "x11_buffer_get_or_create env b (bw w) = Some (?s, Some p)"
      using x Some r by (simp add: x11_buffer_get_or_create_def wlr_buffer_lock_def)
    have "\<not> bw_lost w (xb_pixmap y)" if "y \<in> set ys" for y
    proof -
      have "xb_pixmap y \<in> set (map xb_pixmap ys)" using that by simp
      then show ?thesis using inv unfolding st by (auto simp: buf_inv_def)
    qed
    moreover have "bw_lost w q \<or> q = p \<or> bw_out w q = busy_sum xb_pixmap q ys" for q
      using inv c by (auto simp: buf_inv_def)
    moreover have "bw_out w p + 1 = busy_sum xb_pixmap p ys" using inv c p by (auto simp: buf_inv_def)
    ultimately have "buf_inv (w\<lparr>bw := ?s, bw_out := bump p (bw_out w), bw_lost := (bw_lost w)(p := False)\<rparr>)"
      using inv x c m a by (auto simp: set_buffer_def buf_inv_def bump_def)
    with g st p show ?thesis by (intro disjI2 exI[of _ ?s] exI[of _ p]) auto
  next
    case None
    then have nb: "b \<notin> xb_buffer ` set (bs_list (bw w))" by (simp add: reuse_entry_None)
    have np: "be_new_id env \<notin> xb_pixmap ` set (bs_list (bw w))" "bw_out w (be_new_id env) = 0" using legal by simp_all
    consider (no_pixmap) "import_buffer env x = 0"
      | (no_memory) "import_buffer env x \<noteq> 0" "\<not> be_calloc_ok env"
      | (made) "import_buffer env x = be_new_id env" "be_new_id env \<noteq> 0" "be_calloc_ok env"
      using import_id by metis
    then show ?thesis
    proof cases
      case made
      let ?s = "(bw w)\<lparr>bs_store := (bs_store (bw w))(b \<mapsto> x\<lparr>b_locks := b_locks x + 1\<rparr>),
            bs_list := \<lparr>xb_buffer = b, xb_pixmap = be_new_id env, xb_busy = 1\<rparr> # bs_list (bw w),
            bs_log := bs_log (bw w) @ [MakePixmap (be_new_id env) b]\<rparr>"
      have g: "x11_buffer_get_or_create env b (bw w) = Some (?s, Some (be_new_id env))"
        using None x made
        by (simp add: x11_buffer_get_or_create_def create_x11_buffer_def wlr_buffer_lock_def
            set_buffer_def bs_say_def Let_def)
      have "buf_inv (w\<lparr>bw := ?s, bw_out := bump (be_new_id env) (bw_out w),
          bw_lost := (bw_lost w)(be_new_id env := False)\<rparr>)"
        using inv x nb np busy_sum_0[OF nb] busy_sum_0[OF np(1)]
        by (auto simp: buf_inv_def bump_def)
      with g show ?thesis by (intro disjI2 exI[of _ ?s] exI[of _ "be_new_id env"]) auto
    qed (use inv None x in \<open>auto simp: x11_buffer_get_or_create_def create_x11_buffer_def bs_say_def
        buf_inv_def Let_def\<close>)
  qed
qed

text \<open>Giving back a lock that is accounted for leaves the invariant, with the accounts adjusted.\<close>

lemma unlock_inv:
  assumes inv: "distinct (map xb_pixmap (bs_list s))" "distinct (map xb_buffer (bs_list s))"
      "\<forall>xb \<in> set (bs_list s). bs_store s (xb_buffer xb) \<noteq> None"
      "\<forall>c x. bs_store s c = Some x \<longrightarrow>
         b_locks x = others c + busy_sum xb_buffer c (bs_list s) + (if c = b then 1 else 0)"
      "\<forall>c x. bs_store s c = Some x \<longrightarrow> c \<noteq> b \<longrightarrow> b_dropped x \<longrightarrow>
         0 < others c + busy_sum xb_buffer c (bs_list s)"
      "\<forall>c. bs_store s c = None \<longrightarrow> others c = 0"
      "\<forall>p. lost p \<or> out p = busy_sum xb_pixmap p (bs_list s)"
      "\<forall>p \<in> xb_pixmap ` set (bs_list s). \<not> lost p"
    and b: "bs_store s b = Some v"
  shows "\<exists>s'. wlr_buffer_unlock b s = Some s' \<and> buf_inv \<lparr>bw = s', bw_out = out, bw_others = others, bw_lost = lost\<rparr>"
proof -
  have l: "b_locks v = others b + busy_sum xb_buffer b (bs_list s) + 1" using inv(4) b by simp
  let ?s = "set_buffer b (v\<lparr>b_locks := b_locks v - 1\<rparr>) s"
  have "wlr_buffer_unlock b s = buffer_consider_destroy b ?s"
    using b l by (simp add: wlr_buffer_unlock_def)
  moreover have "\<exists>s'. buffer_consider_destroy b ?s = Some s'
      \<and> buf_inv \<lparr>bw = s', bw_out = out, bw_others = others, bw_lost = lost\<rparr>"
    by (rule consider_destroy_inv[where v = "v\<lparr>b_locks := b_locks v - 1\<rparr>"])
      (use inv l in \<open>auto simp: set_buffer_def\<close>)
  ultimately show ?thesis by simp
qed

lemma idle_inv:
  assumes inv: "buf_inv w" and legal: "buf_legal (BufIdle p) w"
  shows "\<exists>w'. buf_next (BufIdle p) w = Some w' \<and> buf_inv w'"
proof -
  from legal have out: "0 < bw_out w p" by simp
  show ?thesis
  proof (cases "bw_lost w p")
    case True
    then have n: "p \<notin> xb_pixmap ` set (bs_list (bw w))" using inv by (auto simp: buf_inv_def)
    then have "buf_next (BufIdle p) w = Some (w\<lparr>bw_out := lower p (bw_out w)\<rparr>)"
      by (simp add: handle_present_idle_def find_by_pixmap_None[THEN iffD2])
    moreover have "buf_inv (w\<lparr>bw_out := lower p (bw_out w)\<rparr>)"
      using inv True by (auto simp: buf_inv_def lower_def)
    ultimately show ?thesis by blast
  next
    case False
    obtain xb where xb: "x11_buffer_find_by_pixmap (bs_list (bw w)) p = Some xb"
        "xb \<in> set (bs_list (bw w))" "xb_pixmap xb = p" "bw_out w p = xb_busy xb"
        "bs_store (bw w) (xb_buffer xb) \<noteq> None"
      using buf_inv_entry[OF inv buf_out_entry[OF inv out False]] by metis
    from xb(5) obtain x where x: "bs_store (bw w) (xb_buffer xb) = Some x" by auto
    note c = idle_entry_counts[OF xb(1)]
    have m: "map xb_pixmap (idle_entry p (bs_list (bw w))) = map xb_pixmap (bs_list (bw w))"
      "map xb_buffer (idle_entry p (bs_list (bw w))) = map xb_buffer (bs_list (bw w))"
      using c out xb(4) by simp_all
    have k: "busy_sum xb_buffer k (bs_list (bw w))
        = busy_sum xb_buffer k (idle_entry p (bs_list (bw w))) + (if k = xb_buffer xb then 1 else 0)"
      and q: "busy_sum xb_pixmap q (bs_list (bw w))
        = busy_sum xb_pixmap q (idle_entry p (bs_list (bw w))) + (if q = p then 1 else 0)" for k q
      using c[of k q] out xb(4) by simp_all
    have a: "\<forall>y \<in> set (idle_entry p (bs_list (bw w))). bs_store (bw w) (xb_buffer y) \<noteq> None"
      by (rule same_buffers_ball[OF m(2)]) (use inv in \<open>simp add: buf_inv_def\<close>)
    have d: "0 < bw_others w c + busy_sum xb_buffer c (idle_entry p (bs_list (bw w)))"
      if "bs_store (bw w) c = Some y" "c \<noteq> xb_buffer xb" "b_dropped y" for c y
    proof -
      from inv that have "0 < bw_others w c + busy_sum xb_buffer c (bs_list (bw w))"
        by (simp add: buf_inv_def)
      then show ?thesis using k[of c] that(2) by simp
    qed
    have l: "b_locks y = bw_others w c + busy_sum xb_buffer c (idle_entry p (bs_list (bw w)))
        + (if c = xb_buffer xb then 1 else 0)" if "bs_store (bw w) c = Some y" for c y
      using inv that k[of c] by (simp add: buf_inv_def)
    have o: "bw_lost w r \<or> lower p (bw_out w) r = busy_sum xb_pixmap r (idle_entry p (bs_list (bw w)))" for r
      using inv q[of r] by (cases "r = p") (auto simp: buf_inv_def lower_def)
    have st: "set (map xb_pixmap (idle_entry p (bs_list (bw w)))) = set (map xb_pixmap (bs_list (bw w)))"
      using m(1) by simp
    have nl: "\<not> bw_lost w (xb_pixmap y)" if "y \<in> set (idle_entry p (bs_list (bw w)))" for y
    proof -
      have "xb_pixmap y \<in> set (map xb_pixmap (idle_entry p (bs_list (bw w))))" using that by simp
      then show ?thesis using inv unfolding st by (auto simp: buf_inv_def)
    qed
    have "\<exists>s'. wlr_buffer_unlock (xb_buffer xb) ((bw w)\<lparr>bs_list := idle_entry p (bs_list (bw w))\<rparr>) = Some s'
        \<and> buf_inv \<lparr>bw = s', bw_out = lower p (bw_out w), bw_others = bw_others w, bw_lost = bw_lost w\<rparr>"
      by (rule unlock_inv[where v = x]) (use inv a m x d l o nl in \<open>simp_all add: buf_inv_def\<close>)
    then show ?thesis using xb(1,4) out
      by (cases w) (auto simp: handle_present_idle_def)
  qed
qed

text \<open>A window that goes away gives back the locks its entries hold.\<close>

lemma unlock_held_inv:
  assumes inv: "buf_inv \<lparr>bw = s, bw_out = out, bw_others = others, bw_lost = lost\<rparr>" and held: "0 < others b"
  shows "\<exists>s'. wlr_buffer_unlock b s = Some s'
    \<and> buf_inv \<lparr>bw = s', bw_out = out, bw_others = lower b others, bw_lost = lost\<rparr>"
proof -
  from inv held obtain v where v: "bs_store s b = Some v"
    by (cases "bs_store s b") (auto simp: buf_inv_def)
  show ?thesis
    by (rule unlock_inv[OF _ _ _ _ _ _ _ _ v]) (use inv held v in \<open>auto simp: buf_inv_def lower_def\<close>)
qed

lemma unlock_keeps_list:
  assumes "b \<notin> xb_buffer ` set (bs_list s)" "wlr_buffer_unlock b s = Some s'"
  shows "bs_list s' = bs_list s"
proof -
  have n: "busy_sum xb_buffer b (bs_list s) = 0" using assms(1) by (rule busy_sum_0)
  have "filter (\<lambda>xb. xb_buffer xb \<noteq> b) (bs_list s) = bs_list s"
    using assms(1) by (auto simp: filter_id_conv)
  with destroy_unused[OF n] assms(2) show ?thesis
    by (auto simp: wlr_buffer_unlock_def buffer_consider_destroy_def wlr_buffer_finish_def set_buffer_def
        split: option.splits if_splits)
qed

lemma unlock_times_inv:
  "buf_inv \<lparr>bw = s, bw_out = out, bw_others = others, bw_lost = lost\<rparr> \<Longrightarrow> n \<le> others b \<Longrightarrow>
    b \<notin> xb_buffer ` set (bs_list s) \<Longrightarrow>
    \<exists>s'. unlock_times n b s = Some s' \<and> bs_list s' = bs_list s
      \<and> buf_inv \<lparr>bw = s', bw_out = out, bw_others = others(b := others b - n), bw_lost = lost\<rparr>"
proof (induction n arbitrary: s others)
  case (Suc n)
  from Suc.prems have "0 < others b" by simp
  from unlock_held_inv[OF Suc.prems(1) this] obtain s1 where s1: "wlr_buffer_unlock b s = Some s1"
    "buf_inv \<lparr>bw = s1, bw_out = out, bw_others = lower b others, bw_lost = lost\<rparr>" by blast
  have l: "bs_list s1 = bs_list s" using Suc.prems(3) s1(1) by (rule unlock_keeps_list)
  have "\<exists>s'. unlock_times n b s1 = Some s' \<and> bs_list s' = bs_list s1
      \<and> buf_inv \<lparr>bw = s', bw_out = out, bw_others = (lower b others)(b := lower b others b - n), bw_lost = lost\<rparr>"
    using Suc.prems l by (intro Suc.IH s1(2)) (auto simp: lower_def)
  moreover have "(lower b others)(b := lower b others b - n) = others(b := others b - Suc n)"
    by (simp add: lower_def)
  ultimately show ?case by (simp only: unlock_times.simps s1(1) l Option.bind.bind_lunit)
qed (simp add: fun_upd_idem)

lemma busy_sum_remove1:
  "xb \<in> set xbs \<Longrightarrow> busy_sum f k xbs = (if f xb = k then xb_busy xb else 0) + busy_sum f k (remove1 xb xbs)"
  by (induction xbs) auto

lemma distinct_remove1_key:
  assumes "distinct (map f xbs)" "xb \<in> set xbs"
  shows "f ` set (remove1 xb xbs) = f ` set xbs - {f xb}" "distinct (map f (remove1 xb xbs))"
proof -
  have d: "distinct xbs" using assms(1) by (simp add: distinct_map)
  show "distinct (map f (remove1 xb xbs))"
    using assms(1) d by (auto simp: distinct_map inj_on_def)
  show "f ` set (remove1 xb xbs) = f ` set xbs - {f xb}"
    using assms d by (auto simp: distinct_map inj_on_def)
qed

text \<open>Destroying an entry gives back the locks it holds; what the X server still reads is lost.\<close>

lemma destroy_entry_inv:
  assumes inv: "buf_inv \<lparr>bw = s, bw_out = out, bw_others = others, bw_lost = lost\<rparr>" and xb: "xb \<in> set (bs_list s)"
    and new: "\<And>p. p \<noteq> xb_pixmap xb \<Longrightarrow> out' p = out p" "\<And>p. p \<noteq> xb_pixmap xb \<Longrightarrow> lost' p = lost p"
      "lost' (xb_pixmap xb) \<or> out' (xb_pixmap xb) = 0"
  shows "\<exists>s'. x11_buffer_destroy xb s = Some s' \<and> bs_list s' = remove1 xb (bs_list s)
    \<and> buf_inv \<lparr>bw = s', bw_out = out', bw_others = others, bw_lost = lost'\<rparr>"
proof -
  let ?b = "xb_buffer xb" and ?xbs = "remove1 xb (bs_list s)"
  let ?s = "bs_say (FreePixmap (xb_pixmap xb)) (s\<lparr>bs_list := ?xbs\<rparr>)"
  let ?o = "others(?b := others ?b + xb_busy xb)"
  have dist: "distinct (map xb_pixmap (bs_list s))" "distinct (map xb_buffer (bs_list s))"
    using inv by (simp_all add: buf_inv_def)
  note pix = distinct_remove1_key[OF dist(1) xb] and buf = distinct_remove1_key[OF dist(2) xb]
  have gone: "?b \<notin> xb_buffer ` set ?xbs" "xb_pixmap xb \<notin> xb_pixmap ` set ?xbs" using pix buf by simp_all
  note sum = busy_sum_remove1[OF xb]
  have d: "0 < ?o c + busy_sum xb_buffer c ?xbs" if "bs_store s c = Some y" "b_dropped y" for c y
  proof -
    from inv that have "0 < others c + busy_sum xb_buffer c (bs_list s)" by (simp add: buf_inv_def)
    then show ?thesis unfolding sum[of xb_buffer c] by (simp split: if_splits)
  qed
  have l: "b_locks y = ?o c + busy_sum xb_buffer c ?xbs" if "bs_store s c = Some y" for c y
    using inv that sum[of xb_buffer c] by (simp add: buf_inv_def)
  have q: "lost' p \<or> out' p = busy_sum xb_pixmap p ?xbs" for p
  proof (cases "p = xb_pixmap xb")
    case True
    with new(3) busy_sum_0[OF gone(2)] show ?thesis by simp
  next
    case False
    have "lost p \<or> out p = busy_sum xb_pixmap p (bs_list s)" using inv by (simp add: buf_inv_def)
    with False show ?thesis using sum[of xb_pixmap p] new(1,2)[OF False] by auto
  qed
  have k: "\<not> lost' p" if "p \<in> xb_pixmap ` set ?xbs" for p
    using that inv new(2)[of p] unfolding pix(1) by (auto simp: buf_inv_def)
  have m: "\<forall>y \<in> set ?xbs. bs_store s (xb_buffer y) \<noteq> None" "\<forall>c. bs_store s c = None \<longrightarrow> ?o c = 0"
    using inv xb by (auto simp: buf_inv_def dest: notin_set_remove1 in_set_remove1[THEN iffD1])
  have "buf_inv \<lparr>bw = ?s, bw_out = out', bw_others = ?o, bw_lost = lost'\<rparr>"
    using pix(2) buf(2) d l q k m by (simp add: buf_inv_def bs_say_def)
  from unlock_times_inv[OF this, of "xb_busy xb" ?b] gone(1) show ?thesis
    by (auto simp: x11_buffer_destroy_def bs_say_def)
qed

lemma destroy_buffers_inv:
  "buf_inv \<lparr>bw = s, bw_out = out, bw_others = others, bw_lost = lost\<rparr> \<Longrightarrow> bs_list s = xbs \<Longrightarrow>
    \<exists>s'. destroy_buffers xbs s = Some s' \<and> bs_list s' = []
      \<and> buf_inv \<lparr>bw = s', bw_out = (\<lambda>_. 0), bw_others = others, bw_lost = (\<lambda>_. False)\<rparr>"
proof (induction xbs arbitrary: s out lost)
  case Nil
  then show ?case by (simp add: buf_inv_def)
next
  case (Cons xb xbs)
  from destroy_entry_inv[OF Cons.prems(1), of xb "out(xb_pixmap xb := 0)" "lost(xb_pixmap xb := False)"] Cons.prems(2)
  obtain s1 where s1: "x11_buffer_destroy xb s = Some s1" "bs_list s1 = xbs"
    "buf_inv \<lparr>bw = s1, bw_out = out(xb_pixmap xb := 0), bw_others = others, bw_lost = lost(xb_pixmap xb := False)\<rparr>"
    by auto
  from Cons.IH[OF s1(3,2)] s1(1) show ?case by simp
qed

text \<open>A present adds its use, fails without an entry, or fails and destroys the entry.\<close>

lemma present_fails:
  assumes inv: "buf_inv w" and rects: "\<not> be_rects_ok env"
    and got: "x11_buffer_get_or_create env b (bw w) = Some (s, Some p)" "p \<in> xb_pixmap ` set (bs_list s)"
      "set (map xb_pixmap (bs_list s)) = insert p (set (map xb_pixmap (bs_list (bw w))))"
      "buf_inv (w\<lparr>bw := s, bw_out := bump p (bw_out w), bw_lost := (bw_lost w)(p := False)\<rparr>)"
  shows "\<exists>xb w'. xb \<in> set (bs_list s) \<and> xb_pixmap xb = p \<and> buf_next (BufPresent env b) w = Some w' \<and> buf_inv w'
    \<and> bs_list (bw w') = remove1 xb (bs_list s) \<and> bw_out w' = bw_out w \<and> bw_others w' = bw_others w
    \<and> bw_lost w' = (\<lambda>q. bw_lost w q \<or> 0 < bw_out w q \<and> q \<notin> xb_pixmap ` set (remove1 xb (bs_list s)))"
proof -
  from buf_inv_entry[OF got(4), of p] got(2) obtain xb where xb: "x11_buffer_find_by_pixmap (bs_list s) p = Some xb"
      "xb \<in> set (bs_list s)" "xb_pixmap xb = p" by auto
  let ?lost = "\<lambda>q. bw_lost w q \<or> 0 < bw_out w q \<and> q \<notin> xb_pixmap ` set (remove1 xb (bs_list s))"
  have dist: "distinct (map xb_pixmap (bs_list s))" using got(4) by (simp add: buf_inv_def)
  have rest: "xb_pixmap ` set (remove1 xb (bs_list s)) = insert p (xb_pixmap ` set (bs_list (bw w))) - {p}"
    using distinct_remove1_key(1)[OF dist xb(2)] got(3) xb(3) by simp
  have same: "?lost q = bw_lost w q" if "q \<noteq> p" for q
    using buf_out_entry[OF inv, of q] that unfolding rest by auto
  have here: "?lost p \<or> bw_out w p = 0" unfolding rest by auto
  obtain s' where s': "x11_buffer_destroy xb s = Some s'" "bs_list s' = remove1 xb (bs_list s)"
    "buf_inv \<lparr>bw = s', bw_out = bw_out w, bw_others = bw_others w, bw_lost = ?lost\<rparr>"
    using destroy_entry_inv[of s "bump p (bw_out w)" "bw_others w" "(bw_lost w)(p := False)" xb "bw_out w" ?lost]
      got(4) xb same here by (cases w) (auto simp: bump_def)
  have "buf_next (BufPresent env b) w = Some \<lparr>bw = s', bw_out = bw_out w, bw_others = bw_others w, bw_lost = ?lost\<rparr>"
    using rects got(1) xb(1) s'(1,2) by (cases w) (simp add: output_commit_buffer_def)
  with s' xb(2,3) show ?thesis by auto
qed

lemma present_inv:
  assumes inv: "buf_inv w" and legal: "buf_legal (BufPresent env b) w"
  shows "\<exists>w'. buf_next (BufPresent env b) w = Some w' \<and> buf_inv w'"
  using get_or_create_inv[OF assms]
proof (elim disjE exE conjE)
  fix s assume g: "x11_buffer_get_or_create env b (bw w) = Some (s, None)" "bs_list s = bs_list (bw w)"
    "buf_inv (w\<lparr>bw := s\<rparr>)"
  have "0 < bw_out w p \<Longrightarrow> p \<notin> xb_pixmap ` set (bs_list s) \<Longrightarrow> bw_lost w p" for p
    using buf_out_entry[OF inv, of p] g(2) by auto
  then have "(\<lambda>p. bw_lost w p \<or> 0 < bw_out w p \<and> p \<notin> xb_pixmap ` set (bs_list s)) = bw_lost w" by auto
  with g(1,3) show ?thesis by (simp add: output_commit_buffer_def)
next
  fix s p assume g: "x11_buffer_get_or_create env b (bw w) = Some (s, Some p)" "p \<in> xb_pixmap ` set (bs_list s)"
    "set (map xb_pixmap (bs_list s)) = insert p (set (map xb_pixmap (bs_list (bw w))))"
    "buf_inv (w\<lparr>bw := s, bw_out := bump p (bw_out w), bw_lost := (bw_lost w)(p := False)\<rparr>)"
  show ?thesis
  proof (cases "be_rects_ok env")
    case True
    with g(1,4) show ?thesis by (simp add: output_commit_buffer_def)
  next
    case False
    from present_fails[OF inv False g] show ?thesis by blast
  qed
qed

lemma buf_next_inv:
  assumes inv: "buf_inv w" and legal: "buf_legal e w"
  shows "\<exists>w'. buf_next e w = Some w' \<and> buf_inv w'"
proof (cases e)
  case (BufPresent env b)
  with present_inv[OF inv] legal show ?thesis by blast
next
  case (BufIdle p)
  with idle_inv[OF inv] legal show ?thesis by blast
next
  case (BufLock b)
  with legal obtain x where "bs_store (bw w) b = Some x" by auto
  with inv BufLock show ?thesis by (auto simp: wlr_buffer_lock_def set_buffer_def bump_def buf_inv_def)
next
  case (BufUnlock b)
  with legal have o: "0 < bw_others w b" by simp
  from unlock_held_inv[of "bw w" "bw_out w" "bw_others w" "bw_lost w", OF _ o] inv
  have "\<exists>s'. wlr_buffer_unlock b (bw w) = Some s'
      \<and> buf_inv \<lparr>bw = s', bw_out = bw_out w, bw_others = lower b (bw_others w), bw_lost = bw_lost w\<rparr>" by (cases w) simp
  then show ?thesis using BufUnlock by (cases w) auto
next
  case BufGone
  show ?thesis using destroy_buffers_inv[of "bw w" "bw_out w" "bw_others w" "bw_lost w"] inv BufGone by (cases w) auto
next
  case (BufDrop b)
  with legal obtain x where x: "bs_store (bw w) b = Some x" "\<not> b_dropped x" by (auto split: option.splits)
  let ?s = "set_buffer b (x\<lparr>b_dropped := True\<rparr>) (bw w)"
  have "\<exists>s'. buffer_consider_destroy b ?s = Some s'
      \<and> buf_inv \<lparr>bw = s', bw_out = bw_out w, bw_others = bw_others w, bw_lost = bw_lost w\<rparr>"
    by (rule consider_destroy_inv[where v = "x\<lparr>b_dropped := True\<rparr>"])
      (use inv x in \<open>auto simp: buf_inv_def set_buffer_def\<close>)
  then show ?thesis using BufDrop x by (cases w) (auto simp: wlr_buffer_drop_def)
next
  case (BufNew b width height attrs)
  with legal have n: "bs_store (bw w) b = None" by simp
  with inv have "b \<notin> xb_buffer ` set (bs_list (bw w))" by (auto simp: buf_inv_def)
  from busy_sum_0[OF this] n inv BufNew show ?thesis by (auto simp: buf_inv_def set_buffer_def)
qed

lemma buf_reach_inv: "buf_reach w \<Longrightarrow> buf_inv w"
proof (induction rule: buf_reach.induct)
  case buf_start
  show ?case by (rule buf_inv_start)
next
  case (buf_step w e w')
  with buf_next_inv[of w e] show ?case by auto
qed

section \<open>Property\<close>

text \<open>
  A present that finds no memory for its damage destroys the entry with all its locks: what the X
  server was given of the pixmap earlier and has not answered stays unanswered, the pixmap has no
  entry any more, and the buffer is left with the locks of the others, so its owner may draw into it.
\<close>

lemma failed_damage_forgets_presents:
  assumes "buf_reach w" "buf_legal (BufPresent env b) w" "\<not> be_rects_ok env"
    and "reuse_entry b (bs_list (bw w)) = Some (p, ys)" "0 < bw_out w p"
  shows "\<exists>w'. buf_next (BufPresent env b) w = Some w' \<and> bw_out w' p = bw_out w p \<and> bw_lost w' p
    \<and> p \<notin> xb_pixmap ` set (bs_list (bw w'))
    \<and> (\<forall>x. bs_store (bw w') b = Some x \<longrightarrow> b_locks x = bw_others w b)"
proof -
  note inv = buf_reach_inv[OF assms(1)]
  from assms(2) obtain x where x: "bs_store (bw w) b = Some x" by auto
  have made: "\<exists>s. x11_buffer_get_or_create env b (bw w) = Some (s, Some p) \<and> bs_list s = ys"
    using x assms(4) by (simp add: x11_buffer_get_or_create_def wlr_buffer_lock_def)
  then obtain s where s: "x11_buffer_get_or_create env b (bw w) = Some (s, Some p)" "bs_list s = ys"
      "p \<in> xb_pixmap ` set (bs_list s)" "set (map xb_pixmap (bs_list s)) = insert p (set (map xb_pixmap (bs_list (bw w))))"
      "buf_inv (w\<lparr>bw := s, bw_out := bump p (bw_out w), bw_lost := (bw_lost w)(p := False)\<rparr>)"
    using get_or_create_inv[OF inv assms(2)] by auto
  from present_fails[OF inv assms(3) s(1,3-5)] obtain xb w' where f: "xb \<in> set (bs_list s)" "xb_pixmap xb = p"
      "buf_next (BufPresent env b) w = Some w'" "buf_inv w'" "bs_list (bw w') = remove1 xb (bs_list s)"
      "bw_out w' = bw_out w" "bw_others w' = bw_others w"
      "bw_lost w' = (\<lambda>q. bw_lost w q \<or> 0 < bw_out w q \<and> q \<notin> xb_pixmap ` set (remove1 xb (bs_list s)))"
    by blast
  have dist: "distinct (map xb_pixmap (bs_list s))" "distinct (map xb_buffer (bs_list s))"
    using s(5) by (simp_all add: buf_inv_def)
  from reuse_entry_pair[OF assms(4)] obtain xc where xc: "xc \<in> set (bs_list s)" "xb_buffer xc = b" "xb_pixmap xc = p"
    unfolding s(2) by blast
  then have "xc = xb" using dist(1) f(1,2) by (auto simp: distinct_map inj_on_def)
  then have b: "xb_buffer xb = b" using xc(2) by simp
  have gone: "p \<notin> xb_pixmap ` set (bs_list (bw w'))" "b \<notin> xb_buffer ` set (bs_list (bw w'))"
    using distinct_remove1_key(1)[OF dist(1) f(1)] distinct_remove1_key(1)[OF dist(2) f(1)] f(2) b
    unfolding f(5) by auto
  have "b_locks y = bw_others w b" if "bs_store (bw w') b = Some y" for y
    using f(4,7) that busy_sum_0[OF gone(2)] by (simp add: buf_inv_def)
  moreover have "bw_lost w' p" using gone(1) assms(5) f(5) unfolding f(8) by simp
  ultimately show ?thesis using f(3,6) gone(1) by auto
qed

text \<open>
  C7 (safety). In every run a buffer the X server may still read exists, unless a present that found no
  memory for its damage has destroyed the pixmap's entry (\<open>failed_damage_forgets_presents\<close>): any other
  pixmap with an unanswered present has its entry, the entry counts exactly the unanswered presents, and its
  buffer is alive with at least that many locks. No step fails an assertion of the reference
  counting or reaches through a pointer to a destroyed buffer, after such a failure neither.
\<close>

theorem presented_buffer_stays_alive:
  assumes "buf_reach w"
  shows "(\<forall>p. 0 < bw_out w p \<longrightarrow> \<not> bw_lost w p \<longrightarrow> (\<exists>xb x. xb \<in> set (bs_list (bw w)) \<and> xb_pixmap xb = p
      \<and> xb_busy xb = bw_out w p \<and> bs_store (bw w) (xb_buffer xb) = Some x \<and> xb_busy xb \<le> b_locks x))
    \<and> (\<forall>e. buf_legal e w \<longrightarrow> buf_next e w \<noteq> None)"
proof (intro conjI allI impI)
  note inv = buf_reach_inv[OF assms]
  fix p assume "0 < bw_out w p" "\<not> bw_lost w p"
  from buf_out_entry[OF inv this] obtain xb where xb: "xb \<in> set (bs_list (bw w))" "xb_pixmap xb = p"
      "bw_out w p = xb_busy xb" "bs_store (bw w) (xb_buffer xb) \<noteq> None"
    using buf_inv_entry[OF inv] by metis
  then obtain x where x: "bs_store (bw w) (xb_buffer xb) = Some x" by auto
  have "xb_busy xb \<le> b_locks x"
    using inv x busy_sum_ge[OF xb(1), of xb_buffer] by (simp add: buf_inv_def)
  with xb x show "\<exists>xb x. xb \<in> set (bs_list (bw w)) \<and> xb_pixmap xb = p
      \<and> xb_busy xb = bw_out w p \<and> bs_store (bw w) (xb_buffer xb) = Some x \<and> xb_busy xb \<le> b_locks x"
    by auto
next
  fix e assume "buf_legal e w"
  with buf_next_inv[OF buf_reach_inv[OF assms]] show "buf_next e w \<noteq> None" by force
qed

end
