(* ===== verification/Present_Window.thy ===== *)
theory Present_Window
  imports Wlx_Types
begin

text \<open>
  The override-redirect windows menus are presented in
  (\<open>src/subprojects/wlroots/backend/x11/present_window.c\<close> and the complete branch of
  \<open>handle_x11_present_event\<close>, \<open>backend/x11/output.c\<close>). Requests are returned as a list; the pixmap
  list of the window is the subject of \<open>X11_Buffers\<close>, here it is the answer of
  \<open>x11_buffer_get_or_create\<close>.
\<close>

section \<open>State and requests\<close>

record present_window =
  pw_win :: xid
  pw_width :: int
  pw_height :: int
  pw_x :: int
  pw_y :: int
  pw_mapped :: bool
  pw_last_msc :: "64 word"
  pw_serial :: "32 word"

datatype pw_call =
    PwCreate xid
  | PwTypes xid "atom list"
  | PwSelect xid
  | PwConfigure xid "(int \<times> int) option" "(int \<times> int) option"
  | PwMap xid
  | PwRaise xid
  | PwUnmap xid
  | PwPresent xid "32 word" "64 word"
  | PwDestroy xid
  | PwGrab xid
  | PwUngrab

text \<open>The backend, and what the allocator and the X server answer at a creation.\<close>

record pw_env =
  pe_is_x11 :: bool
  pe_started :: bool
  pe_calloc_ok :: bool
  pe_new_id :: xid
  pe_window_type :: atom
  pe_popup_menu :: atom
  pe_dropdown_menu :: atom
  pe_menu :: atom

section \<open>Operations\<close>

definition pw_types :: "pw_env \<Rightarrow> atom list" where
  "pw_types env = filter (\<lambda>a. a \<noteq> 0) [pe_popup_menu env, pe_dropdown_menu env, pe_menu env]"

definition wlr_x11_present_window_create :: "pw_env \<Rightarrow> (present_window \<times> pw_call list) option" where
  "wlr_x11_present_window_create env =
     (if \<not> pe_is_x11 env \<or> \<not> pe_started env \<or> \<not> pe_calloc_ok env then None
      else
        let w = pe_new_id env
        in Some (\<lparr>pw_win = w, pw_width = 1, pw_height = 1, pw_x = 0, pw_y = 0, pw_mapped = False,
                  pw_last_msc = 0, pw_serial = 0\<rparr>,
              [PwCreate w]
              @ (if pe_window_type env \<noteq> 0 \<and> pw_types env \<noteq> [] then [PwTypes w (pw_types env)] else [])
              @ [PwSelect w]))"

definition get_x11_present_window_from_window_id :: "present_window list \<Rightarrow> xid \<Rightarrow> present_window option" where
  "get_x11_present_window_from_window_id wins w = List.find (\<lambda>win. pw_win win = w) wins"

definition wlr_x11_present_window_configure ::
  "int \<Rightarrow> int \<Rightarrow> int \<Rightarrow> int \<Rightarrow> present_window \<Rightarrow> present_window \<times> pw_call list" where
  "wlr_x11_present_window_configure root_x root_y width0 height0 win =
     (let width = (if width0 < 1 then 1 else width0);
          height = (if height0 < 1 then 1 else height0);
          pos_changed = (pw_x win \<noteq> root_x \<or> pw_y win \<noteq> root_y);
          size_changed = (pw_width win \<noteq> width \<or> pw_height win \<noteq> height)
      in if \<not> pos_changed \<and> \<not> size_changed then (win, [])
         else (win\<lparr>pw_x := root_x, pw_y := root_y, pw_width := width, pw_height := height\<rparr>,
               [PwConfigure (pw_win win) (if pos_changed then Some (root_x, root_y) else None)
                  (if size_changed then Some (width, height) else None)]))"

definition wlr_x11_present_window_map :: "present_window \<Rightarrow> present_window \<times> pw_call list" where
  "wlr_x11_present_window_map win =
     (if pw_mapped win then (win, [])
      else (win\<lparr>pw_mapped := True\<rparr>, [PwMap (pw_win win), PwRaise (pw_win win)]))"

definition wlr_x11_present_window_unmap :: "present_window \<Rightarrow> present_window \<times> pw_call list" where
  "wlr_x11_present_window_unmap win =
     (if \<not> pw_mapped win then (win, [])
      else (win\<lparr>pw_mapped := False\<rparr>, [PwUnmap (pw_win win)]))"

text \<open>\<open>has_pixmap\<close> says that \<open>x11_buffer_get_or_create\<close> gives an entry for the buffer.\<close>

definition wlr_x11_present_window_present ::
  "bool \<Rightarrow> int \<Rightarrow> int \<Rightarrow> present_window \<Rightarrow> bool \<times> present_window \<times> pw_call list" where
  "wlr_x11_present_window_present has_pixmap buf_width buf_height win =
     (if buf_width \<noteq> pw_width win \<or> buf_height \<noteq> pw_height win then (False, win, [])
      else if \<not> has_pixmap then (False, win, [])
      else
        let serial = pw_serial win + 1
        in (True, win\<lparr>pw_serial := serial\<rparr>,
            [PwPresent (pw_win win) serial (if pw_last_msc win \<noteq> 0 then pw_last_msc win + 1 else 0)]))"

definition wlr_x11_present_window_get_xcb :: "present_window option \<Rightarrow> xid" where
  "wlr_x11_present_window_get_xcb win = (case win of Some w \<Rightarrow> pw_win w | None \<Rightarrow> XCB_WINDOW_NONE)"

definition wlr_x11_present_window_get_geometry :: "present_window \<Rightarrow> int \<times> int \<times> int \<times> int" where
  "wlr_x11_present_window_get_geometry win = (pw_x win, pw_y win, pw_width win, pw_height win)"

definition wlr_x11_present_window_is_mapped :: "present_window option \<Rightarrow> bool" where
  "wlr_x11_present_window_is_mapped win = (case win of Some w \<Rightarrow> pw_mapped w | None \<Rightarrow> False)"

text \<open>The requests of a destruction; the listeners of the destroy signal are the callers' part.\<close>

definition wlr_x11_present_window_destroy :: "present_window \<Rightarrow> pw_call list" where
  "wlr_x11_present_window_destroy win = [PwDestroy (pw_win win)]"

text \<open>A \<open>PresentCompleteNotify\<close> for one of the windows.\<close>

definition present_complete :: "xid \<Rightarrow> 64 word \<Rightarrow> present_window \<Rightarrow> present_window" where
  "present_complete w msc win = (if pw_win win = w then win\<lparr>pw_last_msc := msc\<rparr> else win)"

section \<open>Facts\<close>

lemma configure_fields [simp]:
  "pw_win (fst (wlr_x11_present_window_configure x y w h win)) = pw_win win"
  "pw_mapped (fst (wlr_x11_present_window_configure x y w h win)) = pw_mapped win"
  "pw_serial (fst (wlr_x11_present_window_configure x y w h win)) = pw_serial win"
  by (simp_all add: wlr_x11_present_window_configure_def Let_def)

lemma configure_geometry:
  "wlr_x11_present_window_get_geometry (fst (wlr_x11_present_window_configure x y w h win))
    = (x, y, max 1 w, max 1 h)"
  by (auto simp: wlr_x11_present_window_configure_def wlr_x11_present_window_get_geometry_def Let_def)

lemma map_fields [simp]:
  "pw_win (fst (wlr_x11_present_window_map win)) = pw_win win"
  "pw_mapped (fst (wlr_x11_present_window_map win))"
  "pw_width (fst (wlr_x11_present_window_map win)) = pw_width win"
  "pw_height (fst (wlr_x11_present_window_map win)) = pw_height win"
  "pw_x (fst (wlr_x11_present_window_map win)) = pw_x win"
  "pw_y (fst (wlr_x11_present_window_map win)) = pw_y win"
  by (simp_all add: wlr_x11_present_window_map_def)

lemma present_fields [simp]:
  "pw_win (fst (snd (wlr_x11_present_window_present p w h win))) = pw_win win"
  "pw_width (fst (snd (wlr_x11_present_window_present p w h win))) = pw_width win"
  "pw_height (fst (snd (wlr_x11_present_window_present p w h win))) = pw_height win"
  "pw_x (fst (snd (wlr_x11_present_window_present p w h win))) = pw_x win"
  "pw_y (fst (snd (wlr_x11_present_window_present p w h win))) = pw_y win"
  "pw_mapped (fst (snd (wlr_x11_present_window_present p w h win))) = pw_mapped win"
  by (simp_all add: wlr_x11_present_window_present_def Let_def)

text \<open>Only buffers of the window's size are shown.\<close>

lemma present_size:
  "fst (wlr_x11_present_window_present p w h win) \<longleftrightarrow> w = pw_width win \<and> h = pw_height win \<and> p"
  by (auto simp: wlr_x11_present_window_present_def Let_def)

end
