(* ===== verification/Seat_Pointer.thy ===== *)
theory Seat_Pointer
  imports Wlx_Types "HOL-Library.Multiset"
begin

text \<open>
  The pointer half of the seat: focus, held buttons and the pointer grab
  (\<open>src/subprojects/wlroots/types/seat/wlr_seat_pointer.c\<close>), with the grab an \<open>xdg_popup\<close> takes
  (\<open>types/xdg_shell/wlr_xdg_popup.c\<close>, lines 41 to 151, which the project patches). Events sent to
  clients are a trace in the record. Surfaces and clients are numbers; what wlroots knows about
  a surface is given by a \<open>seat_env\<close>.
\<close>

section \<open>State\<close>

datatype seat_event =
    SeatLeave nat
  | SeatEnter nat rat rat
  | SeatMotion rat rat
  | SeatButton nat "32 word" bool
  | SeatFrame
  | SeatPopupDone nat
  | SeatKeyboardEnter nat
  | SeatKeyboardClear

datatype pointer_grab = DefaultGrab | PopupGrab

text \<open>\<open>struct wlr_seat_pointer_state\<close>; \<open>pt_buttons\<close> is the used part of the \<open>buttons\<close> array with
  \<open>n_pressed\<close>, \<open>pt_pos\<close> is \<open>None\<close> where the position is NAN. \<open>pg_client\<close> and \<open>pg_popups\<close> are the
  seat's \<open>struct wlr_xdg_popup_grab\<close>, the popups newest first.\<close>

record seat =
  pt_focus :: "nat option"
  pt_client :: "nat option"
  pt_pos :: "(rat \<times> rat) option"
  pt_buttons :: "(32 word \<times> nat) list"
  pt_grab_button :: "32 word"
  pt_grab_serial :: "32 word"
  pt_grab :: pointer_grab
  pg_client :: nat
  pg_popups :: "nat list"
  pt_log :: "seat_event list"

text \<open>The client of a surface, whether it has a seat object, which popup surfaces are mapped, the next
  serial, and \<open>wl_fixed_from_double\<close>, the conversion of coordinates to the wire.\<close>

record seat_env =
  se_client :: "nat \<Rightarrow> nat"
  se_seat_client :: "nat \<Rightarrow> bool"
  se_mapped :: "nat \<Rightarrow> bool"
  se_serial :: "32 word"
  se_fixed :: "rat \<Rightarrow> int"

definition WLR_POINTER_BUTTONS_CAP :: nat where "WLR_POINTER_BUTTONS_CAP = 16"

abbreviation button_count :: "seat \<Rightarrow> nat" where
  "button_count s \<equiv> length (pt_buttons s)"

definition seat_say :: "seat_event list \<Rightarrow> seat \<Rightarrow> seat" where
  "seat_say es s = s\<lparr>pt_log := pt_log s @ es\<rparr>"

section \<open>Focus and motion\<close>

definition wlr_seat_pointer_enter ::
  "seat_env \<Rightarrow> nat option \<Rightarrow> rat \<Rightarrow> rat \<Rightarrow> seat \<Rightarrow> seat" where
  "wlr_seat_pointer_enter env surface sx sy s =
     (if pt_focus s = surface then s
      else
        let client = (case surface of None \<Rightarrow> None
              | Some f \<Rightarrow> if se_seat_client env (se_client env f) then Some (se_client env f) else None);
            leave = (case (pt_client s, pt_focus s) of (Some _, Some f) \<Rightarrow> [SeatLeave f] | _ \<Rightarrow> []);
            enter = (case (client, surface) of (Some _, Some f) \<Rightarrow> [SeatEnter f sx sy] | _ \<Rightarrow> [])
        in seat_say (leave @ enter) s\<lparr>pt_client := client, pt_focus := surface,
             pt_pos := (case surface of None \<Rightarrow> None | Some _ \<Rightarrow> Some (sx, sy))\<rparr>)"

definition wlr_seat_pointer_clear_focus :: "seat_env \<Rightarrow> seat \<Rightarrow> seat" where
  "wlr_seat_pointer_clear_focus env s = wlr_seat_pointer_enter env None 0 0 s"

text \<open>A motion that leaves the position what it is on the wire is not sent.\<close>

definition wlr_seat_pointer_send_motion :: "seat_env \<Rightarrow> rat \<Rightarrow> rat \<Rightarrow> seat \<Rightarrow> seat" where
  "wlr_seat_pointer_send_motion env sx sy s =
     (if pt_client s = None then s
      else
        let moved = (case pt_pos s of None \<Rightarrow> True
              | Some (x, y) \<Rightarrow> se_fixed env x \<noteq> se_fixed env sx \<or> se_fixed env y \<noteq> se_fixed env sy)
        in seat_say (if moved then [SeatMotion sx sy] else []) s\<lparr>pt_pos := Some (sx, sy)\<rparr>)"

definition wlr_seat_pointer_send_button ::
  "seat_env \<Rightarrow> 32 word \<Rightarrow> bool \<Rightarrow> seat \<Rightarrow> 32 word \<times> seat" where
  "wlr_seat_pointer_send_button env button pressed s =
     (case (pt_client s, pt_focus s) of
        (Some _, Some f) \<Rightarrow> (se_serial env, seat_say [SeatButton f button pressed] s)
      | (Some _, None) \<Rightarrow> (se_serial env, s)
      | _ \<Rightarrow> (0, s))"

definition wlr_seat_pointer_send_frame :: "seat \<Rightarrow> seat" where
  "wlr_seat_pointer_send_frame s = (if pt_client s = None then s else seat_say [SeatFrame] s)"

section \<open>The popup grab\<close>

text \<open>
  \<open>xdg_popup_grab_end\<close>: every popup of the grab is told it is done. Ending the pointer grab calls
  its cancel hook, \<open>xdg_pointer_grab_cancel\<close>, which ends the popup grab once more, this time with
  the default grab in place.
\<close>

definition xdg_popup_grab_end :: "seat \<Rightarrow> seat" where
  "xdg_popup_grab_end s =
     (let s1 = seat_say (map SeatPopupDone (pg_popups s)) s
      in if pt_grab s1 = DefaultGrab then s1
         else seat_say (map SeatPopupDone (pg_popups s1)) (s1\<lparr>pt_grab := DefaultGrab\<rparr>))"

definition surface_is_grab_popup :: "seat \<Rightarrow> nat option \<Rightarrow> bool" where
  "surface_is_grab_popup s surface =
     (case surface of None \<Rightarrow> False | Some f \<Rightarrow> f \<in> set (pg_popups s))"

definition xdg_pointer_grab_enter :: "seat_env \<Rightarrow> nat \<Rightarrow> rat \<Rightarrow> rat \<Rightarrow> seat \<Rightarrow> seat" where
  "xdg_pointer_grab_enter env surface sx sy s =
     (if se_client env surface = pg_client s
      then wlr_seat_pointer_enter env (Some surface) sx sy s
      else wlr_seat_pointer_clear_focus env s)"

text \<open>A press of the grab button that is already down.\<close>

definition duplicate_press :: "32 word \<Rightarrow> seat \<Rightarrow> bool" where
  "duplicate_press button s =
     (button = pt_grab_button s \<and> list_ex (\<lambda>(b, n). b = button \<and> 1 < n) (pt_buttons s))"

definition xdg_pointer_grab_button ::
  "seat_env \<Rightarrow> 32 word \<Rightarrow> bool \<Rightarrow> seat \<Rightarrow> 32 word \<times> seat" where
  "xdg_pointer_grab_button env button pressed s =
     (if \<not> pressed \<and> \<not> surface_is_grab_popup s (pt_focus s) then (0, s)
      else if pressed \<and> list_ex (\<lambda>p. \<not> se_mapped env p) (pg_popups s) then (0, s)
      else if pressed \<and> duplicate_press button s then (0, s)
      else if pressed \<and> \<not> surface_is_grab_popup s (pt_focus s) then (0, xdg_popup_grab_end s)
      else wlr_seat_pointer_send_button env button pressed s)"

text \<open>The branch of \<open>xdg_popup_handle_grab\<close> that takes the grab, for a popup that is not mapped
  and has no child popup.\<close>

definition xdg_popup_take_grab :: "nat \<Rightarrow> nat \<Rightarrow> seat \<Rightarrow> seat" where
  "xdg_popup_take_grab client popup s =
     s\<lparr>pg_client := client, pg_popups := popup # pg_popups s, pt_grab := PopupGrab\<rparr>"

text \<open>\<open>reset_xdg_popup\<close>: the grab ends with its last popup.\<close>

definition reset_xdg_popup :: "nat \<Rightarrow> seat \<Rightarrow> seat" where
  "reset_xdg_popup popup s =
     (if popup \<notin> set (pg_popups s) then s
      else
        let s1 = s\<lparr>pg_popups := remove1 popup (pg_popups s)\<rparr>
        in if pg_popups s1 = [] \<and> pt_grab s1 = PopupGrab
           then xdg_popup_grab_end (s1\<lparr>pt_grab := DefaultGrab\<rparr>) else s1)"

section \<open>The grab-aware interface\<close>

definition reset_buttons :: "seat \<Rightarrow> seat" where
  "reset_buttons s = s\<lparr>pt_buttons := []\<rparr>"

definition wlr_seat_pointer_notify_enter :: "seat_env \<Rightarrow> nat \<Rightarrow> rat \<Rightarrow> rat \<Rightarrow> seat \<Rightarrow> seat" where
  "wlr_seat_pointer_notify_enter env surface sx sy s =
     (let s1 = (case pt_grab s of
            DefaultGrab \<Rightarrow> wlr_seat_pointer_enter env (Some surface) sx sy s
          | PopupGrab \<Rightarrow> xdg_pointer_grab_enter env surface sx sy s)
      in if pt_focus s \<noteq> pt_focus s1 then reset_buttons s1 else s1)"

text \<open>Both grabs send motion and frames the same way.\<close>

definition wlr_seat_pointer_notify_motion :: "seat_env \<Rightarrow> rat \<Rightarrow> rat \<Rightarrow> seat \<Rightarrow> seat" where
  "wlr_seat_pointer_notify_motion env sx sy s = wlr_seat_pointer_send_motion env sx sy s"

definition wlr_seat_pointer_notify_frame :: "seat \<Rightarrow> seat" where
  "wlr_seat_pointer_notify_frame s = wlr_seat_pointer_send_frame s"

text \<open>The bookkeeping of a press: \<open>None\<close> where the function returns without telling the grab.\<close>

fun count_press :: "32 word \<Rightarrow> (32 word \<times> nat) list \<Rightarrow> (32 word \<times> nat) list option" where
  "count_press b [] = None"
| "count_press b ((c, n) # bs) =
     (if c = b then Some ((c, n + 1) # bs) else map_option ((#) (c, n)) (count_press b bs))"

definition press_button :: "32 word \<Rightarrow> seat \<Rightarrow> bool \<times> seat" where
  "press_button b s =
     (let s1 = (if button_count s = 0 then s\<lparr>pt_grab_button := b\<rparr> else s)
      in case count_press b (pt_buttons s1) of
          Some bs \<Rightarrow> (False, s1\<lparr>pt_buttons := bs\<rparr>)
        | None \<Rightarrow>
            if button_count s1 = WLR_POINTER_BUTTONS_CAP then (False, s1)
            else (True, s1\<lparr>pt_buttons := pt_buttons s1 @ [(b, 1)]\<rparr>))"

text \<open>The index of a held button.\<close>

fun button_index :: "32 word \<Rightarrow> (32 word \<times> nat) list \<Rightarrow> nat option" where
  "button_index b [] = None"
| "button_index b ((c, n) # bs) = (if c = b then Some 0 else map_option Suc (button_index b bs))"

text \<open>A release: a count above one goes down, else the last entry takes the place of this one.\<close>

definition release_button :: "32 word \<Rightarrow> seat \<Rightarrow> bool \<times> seat" where
  "release_button b s =
     (let bs = pt_buttons s
      in case button_index b bs of
          None \<Rightarrow> (False, s)
        | Some i \<Rightarrow>
            if 1 < snd (bs ! i) then (False, s\<lparr>pt_buttons := bs[i := (b, snd (bs ! i) - 1)]\<rparr>)
            else (True, s\<lparr>pt_buttons := butlast (bs[i := last bs])\<rparr>))"

definition wlr_seat_pointer_notify_button ::
  "seat_env \<Rightarrow> 32 word \<Rightarrow> bool \<Rightarrow> seat \<Rightarrow> seat" where
  "wlr_seat_pointer_notify_button env button pressed s =
     (case (if pressed then press_button button s else release_button button s) of
        (False, s1) \<Rightarrow> s1
      | (True, s1) \<Rightarrow>
          (case (case pt_grab s1 of
                   DefaultGrab \<Rightarrow> wlr_seat_pointer_send_button env button pressed s1
                 | PopupGrab \<Rightarrow> xdg_pointer_grab_button env button pressed s1) of
             (serial, s2) \<Rightarrow>
               if serial \<noteq> 0 \<and> button_count s2 = 1 \<and> pressed then s2\<lparr>pt_grab_serial := serial\<rparr> else s2))"

section \<open>Held buttons\<close>

text \<open>What the bookkeeping counts: how often a button is down.\<close>

definition held_in :: "32 word \<Rightarrow> (32 word \<times> nat) list \<Rightarrow> nat" where
  "held_in b bs = sum_list (map (\<lambda>(c, n). if c = b then n else 0) bs)"

definition held :: "seat \<Rightarrow> 32 word \<Rightarrow> nat" where
  "held s b = held_in b (pt_buttons s)"

definition buttons_ok :: "seat \<Rightarrow> bool" where
  "buttons_ok s \<longleftrightarrow> distinct (map fst (pt_buttons s)) \<and> list_all (\<lambda>x. 0 < snd x) (pt_buttons s)"

lemma seat_say_fields [simp]:
  "pt_focus (seat_say es s) = pt_focus s" "pt_client (seat_say es s) = pt_client s"
  "pt_buttons (seat_say es s) = pt_buttons s" "pt_grab (seat_say es s) = pt_grab s"
  "pt_pos (seat_say es s) = pt_pos s" "pg_popups (seat_say es s) = pg_popups s"
  "pg_client (seat_say es s) = pg_client s" "pt_grab_button (seat_say es s) = pt_grab_button s"
  "pt_log (seat_say es s) = pt_log s @ es"
  by (simp_all add: seat_say_def)

lemma pointer_enter_fields [simp]:
  "pt_focus (wlr_seat_pointer_enter env f x y s) = f"
  "pt_buttons (wlr_seat_pointer_enter env f x y s) = pt_buttons s"
  "pt_grab (wlr_seat_pointer_enter env f x y s) = pt_grab s"
  "pg_popups (wlr_seat_pointer_enter env f x y s) = pg_popups s"
  "pg_client (wlr_seat_pointer_enter env f x y s) = pg_client s"
  by (simp_all add: wlr_seat_pointer_enter_def Let_def)

lemma clear_focus_fields [simp]:
  "pt_focus (wlr_seat_pointer_clear_focus env s) = None"
  "pt_buttons (wlr_seat_pointer_clear_focus env s) = pt_buttons s"
  "pt_grab (wlr_seat_pointer_clear_focus env s) = pt_grab s"
  by (simp_all add: wlr_seat_pointer_clear_focus_def)

lemma notify_motion_fields [simp]:
  "pt_focus (wlr_seat_pointer_notify_motion env x y s) = pt_focus s"
  "pt_buttons (wlr_seat_pointer_notify_motion env x y s) = pt_buttons s"
  "pt_grab (wlr_seat_pointer_notify_motion env x y s) = pt_grab s"
  by (simp_all add: wlr_seat_pointer_notify_motion_def wlr_seat_pointer_send_motion_def Let_def)

lemma notify_frame_fields [simp]:
  "pt_focus (wlr_seat_pointer_notify_frame s) = pt_focus s"
  "pt_buttons (wlr_seat_pointer_notify_frame s) = pt_buttons s"
  by (simp_all add: wlr_seat_pointer_notify_frame_def wlr_seat_pointer_send_frame_def)

text \<open>A focus change is the only thing that makes the seat forget held buttons.\<close>

lemma notify_enter_same:
  "pt_focus (wlr_seat_pointer_notify_enter env f x y s) = pt_focus s \<Longrightarrow>
    pt_buttons (wlr_seat_pointer_notify_enter env f x y s) = pt_buttons s"
  by (auto simp: wlr_seat_pointer_notify_enter_def xdg_pointer_grab_enter_def reset_buttons_def Let_def
      split: pointer_grab.splits if_splits)

lemma notify_enter_default:
  "pt_grab s = DefaultGrab \<Longrightarrow> pt_focus (wlr_seat_pointer_notify_enter env f x y s) = Some f"
  "pt_grab s = DefaultGrab \<Longrightarrow> pt_buttons (wlr_seat_pointer_notify_enter env f x y s)
    = (if pt_focus s = Some f then pt_buttons s else [])"
  by (simp_all add: wlr_seat_pointer_notify_enter_def reset_buttons_def Let_def)

lemma notify_enter_idle [simp]:
  "pt_buttons s = [] \<Longrightarrow> pt_buttons (wlr_seat_pointer_notify_enter env f x y s) = []"
  by (auto simp: wlr_seat_pointer_notify_enter_def xdg_pointer_grab_enter_def reset_buttons_def Let_def
      split: pointer_grab.splits)

lemma notify_enter_grab [simp]:
  "pt_grab (wlr_seat_pointer_notify_enter env f x y s) = pt_grab s"
  by (auto simp: wlr_seat_pointer_notify_enter_def xdg_pointer_grab_enter_def reset_buttons_def Let_def
      split: pointer_grab.splits)

lemma button_told_fields [simp]:
  "pt_buttons (snd (wlr_seat_pointer_send_button env b p s)) = pt_buttons s"
  "pt_focus (snd (wlr_seat_pointer_send_button env b p s)) = pt_focus s"
  "pt_grab (snd (wlr_seat_pointer_send_button env b p s)) = pt_grab s"
  by (auto simp: wlr_seat_pointer_send_button_def split: option.split)

lemma grab_end_fields [simp]:
  "pt_buttons (xdg_popup_grab_end s) = pt_buttons s"
  "pt_focus (xdg_popup_grab_end s) = pt_focus s"
  "pt_grab (xdg_popup_grab_end s) = DefaultGrab"
  by (simp_all add: xdg_popup_grab_end_def Let_def)

lemma grab_button_fields [simp]:
  "pt_buttons (snd (xdg_pointer_grab_button env b p s)) = pt_buttons s"
  "pt_focus (snd (xdg_pointer_grab_button env b p s)) = pt_focus s"
  by (simp_all add: xdg_pointer_grab_button_def)

lemma notify_button_buttons:
  "pt_buttons (wlr_seat_pointer_notify_button env b p s)
    = pt_buttons (snd (if p then press_button b s else release_button b s))"
  "pt_focus (wlr_seat_pointer_notify_button env b p s) = pt_focus s"
proof -
  obtain t s1 where r: "(if p then press_button b s else release_button b s) = (t, s1)" by fastforce
  have f: "pt_focus s1 = pt_focus s"
    using r by (auto simp: press_button_def release_button_def Let_def split: if_splits option.splits)
  have g: "pt_buttons (snd (if pt_grab s1 = DefaultGrab then wlr_seat_pointer_send_button env b p s1
      else xdg_pointer_grab_button env b p s1)) = pt_buttons s1" by simp
  show "pt_buttons (wlr_seat_pointer_notify_button env b p s)
      = pt_buttons (snd (if p then press_button b s else release_button b s))"
    "pt_focus (wlr_seat_pointer_notify_button env b p s) = pt_focus s"
    unfolding wlr_seat_pointer_notify_button_def r using f
    by (auto split: prod.split bool.split pointer_grab.split)
      (metis button_told_fields grab_button_fields snd_conv)+
qed

text \<open>Presses and releases count, as long as the sixteen places suffice.\<close>

lemma held_in_simps [simp]:
  "held_in b [] = 0"
  "held_in b ((c, n) # bs) = (if c = b then n else 0) + held_in b bs"
  "held_in b (xs @ ys) = held_in b xs + held_in b ys"
  by (simp_all add: held_in_def)

lemma held_in_mset: "mset xs = mset ys \<Longrightarrow> held_in b xs = held_in b ys"
proof -
  assume "mset xs = mset ys"
  then have "sum_mset (image_mset (\<lambda>(c, n). if c = b then n else 0) (mset xs))
      = sum_mset (image_mset (\<lambda>(c, n). if c = b then n else 0) (mset ys))" by simp
  then show ?thesis by (simp only: held_in_def mset_map[symmetric] sum_mset_sum_list)
qed

lemma held_in_0: "b \<notin> fst ` set bs \<Longrightarrow> held_in b bs = 0"
  by (induction bs) auto

lemma count_press_Some:
  "count_press b bs = Some cs \<Longrightarrow>
    map fst cs = map fst bs \<and> held_in c cs = held_in c bs + (if c = b then 1 else 0)
    \<and> (list_all (\<lambda>x. 0 < snd x) bs \<longrightarrow> list_all (\<lambda>x. 0 < snd x) cs)"
proof (induction bs arbitrary: cs)
  case (Cons x bs)
  obtain d n where x: "x = (d, n)" by (cases x)
  show ?case
  proof (cases "d = b")
    case True
    with Cons.prems x have "cs = (d, n + 1) # bs" by simp
    with x True show ?thesis by simp
  next
    case False
    with Cons.prems x obtain ds where ds: "count_press b bs = Some ds" "cs = (d, n) # ds" by auto
    from Cons.IH[OF ds(1)] ds(2) x show ?thesis by simp
  qed
qed simp

lemma count_press_None: "count_press b bs = None \<longleftrightarrow> b \<notin> fst ` set bs"
  by (induction b bs rule: count_press.induct) auto

lemma button_index_Some:
  "button_index b bs = Some i \<Longrightarrow> i < length bs \<and> fst (bs ! i) = b"
proof (induction bs arbitrary: i)
  case (Cons x bs)
  obtain d n where x: "x = (d, n)" by (cases x)
  show ?case
  proof (cases "d = b")
    case False
    with Cons.prems x obtain j where j: "button_index b bs = Some j" "i = Suc j" by auto
    from Cons.IH[OF j(1)] j(2) show ?thesis by simp
  qed (use Cons.prems x in simp)
qed simp

lemma button_index_None: "button_index b bs = None \<longleftrightarrow> b \<notin> fst ` set bs"
  by (induction b bs rule: button_index.induct) auto

text \<open>Overwriting an entry by the last one and dropping the last removes the entry.\<close>

lemma swap_remove_mset:
  assumes "i < length xs"
  shows "add_mset (xs ! i) (mset (butlast (xs[i := last xs]))) = mset xs"
proof (cases xs rule: rev_cases)
  case (snoc ys y)
  show ?thesis
  proof (cases "i = length ys")
    case False
    with snoc assms have i: "i < length ys" by simp
    then have "mset (ys[i := y]) = add_mset y (mset ys - {#ys ! i#})" by (rule mset_update)
    moreover have "ys ! i \<in># mset ys" using i by simp
    ultimately show ?thesis using snoc i
      by (simp add: list_update_append nth_append del: in_multiset_in_set)
  qed (use snoc in simp)
qed (use assms in simp)

lemma held_in_swap_remove:
  assumes "i < length xs" "xs ! i = (b, n)"
  shows "held_in c xs = held_in c (butlast (xs[i := last xs])) + (if c = b then n else 0)"
proof -
  have "mset ((b, n) # butlast (xs[i := last xs])) = mset xs"
    using swap_remove_mset[OF assms(1)] assms(2) by simp
  from held_in_mset[OF this, of c] show ?thesis by auto
qed

lemma swap_remove_ok:
  assumes "i < length xs" "distinct (map fst xs)" "list_all (\<lambda>x. 0 < snd x) xs"
  shows "distinct (map fst (butlast (xs[i := last xs])))
    \<and> list_all (\<lambda>x. 0 < snd x) (butlast (xs[i := last xs]))"
proof -
  have m: "mset (xs ! i # butlast (xs[i := last xs])) = mset xs"
    using swap_remove_mset[OF assms(1)] by simp
  have "distinct (map fst (xs ! i # butlast (xs[i := last xs])))"
    using assms(2) arg_cong[OF m, of "image_mset fst"] by (metis mset_map mset_eq_imp_distinct_iff)
  moreover have "list_all (\<lambda>x. 0 < snd x) (xs ! i # butlast (xs[i := last xs]))"
    using assms(3) mset_eq_setD[OF m] by (simp add: list_all_iff)
  ultimately show ?thesis by simp
qed

lemma held_press:
  assumes "buttons_ok s" "button_count s < WLR_POINTER_BUTTONS_CAP"
  shows "held (snd (press_button b s)) c = held s c + (if c = b then 1 else 0)"
    "buttons_ok (snd (press_button b s))"
proof -
  show "held (snd (press_button b s)) c = held s c + (if c = b then 1 else 0)"
    using assms count_press_Some[of b "pt_buttons s" _ c]
    by (auto simp: press_button_def held_def Let_def split: option.split)
  show "buttons_ok (snd (press_button b s))"
    using assms count_press_Some[of b "pt_buttons s"] count_press_None[of b "pt_buttons s"]
    by (auto simp: press_button_def buttons_ok_def Let_def split: option.split)
qed

lemma held_release:
  assumes "buttons_ok s"
  shows "held (snd (release_button b s)) c = held s c - (if c = b then 1 else 0)"
    "buttons_ok (snd (release_button b s))"
proof -
  let ?bs = "pt_buttons s"
  have "held (snd (release_button b s)) c = held s c - (if c = b then 1 else 0)
    \<and> buttons_ok (snd (release_button b s))"
  proof (cases "button_index b ?bs")
    case None
    then have "held_in b ?bs = 0" by (simp add: button_index_None held_in_0)
    with None assms show ?thesis by (simp add: release_button_def held_def)
  next
    case (Some i)
    note i = button_index_Some[OF Some]
    obtain n where n: "?bs ! i = (b, n)" using i by (metis prod.collapse)
    have pos: "0 < n" using assms i n nth_mem[of i ?bs] by (auto simp: buttons_ok_def list_all_iff)
    show ?thesis
    proof (cases "1 < n")
      case True
      have "map fst (?bs[i := (b, n - 1)]) = map fst ?bs"
        using i n by (simp add: map_update) (metis fst_conv list_update_id nth_map)
      moreover have "list_all (\<lambda>x. 0 < snd x) (?bs[i := (b, n - 1)])"
        using assms True set_update_subset_insert[of ?bs i "(b, n - 1)"]
        by (fastforce simp: buttons_ok_def list_all_iff)
      moreover have "held_in c ?bs = held_in c (?bs[i := (b, n - 1)]) + (if c = b then 1 else 0)"
      proof -
        have "mset (?bs[i := (b, n - 1)]) = add_mset (b, n - 1) (mset ?bs - {#(b, n)#})"
          using mset_update[of i ?bs] i n by simp
        then have "mset ((b, n) # ?bs[i := (b, n - 1)]) = mset ((b, n - 1) # ?bs)"
          using i n nth_mem_mset[of i ?bs] by simp
        from held_in_mset[OF this, of c] True show ?thesis by (auto split: if_splits)
      qed
      ultimately show ?thesis using Some n True assms
        by (simp add: release_button_def held_def buttons_ok_def Let_def)
    next
      case False
      with pos have "n = 1" by simp
      with held_in_swap_remove[of i ?bs b n c] i n swap_remove_ok[of i ?bs] assms Some show ?thesis
        by (simp add: release_button_def held_def buttons_ok_def Let_def)
    qed
  qed
  then show "held (snd (release_button b s)) c = held s c - (if c = b then 1 else 0)"
    "buttons_ok (snd (release_button b s))" by blast+
qed

end
