(* ===== verification/Positioner.thy ===== *)
theory Positioner
  imports Boxes "HOL-Library.Signed_Division"
begin

text \<open>
  The positioner of menus
  (\<open>src/subprojects/wlroots/types/xdg_shell/wlr_xdg_positioner.c\<close>): the rules a client sets up, the
  box they give, and how the box is fitted into a constraint by flipping, sliding and resizing.
  The compositor hands \<open>wlr_xdg_popup_unconstrain_from_box\<close> the area of the desktop
  (\<open>popup_unconstrain_box\<close>); the popup's window follows the box that comes out.
\<close>

section \<open>Rules\<close>

text \<open>\<open>enum xdg_positioner_anchor\<close>; the values of \<open>enum xdg_positioner_gravity\<close> are the same.\<close>

datatype positioner_anchor =
    AnchorNone | AnchorTop | AnchorBottom | AnchorLeft | AnchorRight
  | AnchorTopLeft | AnchorBottomLeft | AnchorTopRight | AnchorBottomRight

text \<open>The bits of \<open>enum xdg_positioner_constraint_adjustment\<close>.\<close>

record constraint_adjustment =
  adj_slide_x :: bool
  adj_slide_y :: bool
  adj_flip_x :: bool
  adj_flip_y :: bool
  adj_resize_x :: bool
  adj_resize_y :: bool

record positioner_rules =
  pr_anchor_rect :: wlr_box
  pr_anchor :: positioner_anchor
  pr_gravity :: positioner_anchor
  pr_adjustment :: constraint_adjustment
  pr_reactive :: bool
  pr_has_parent_serial :: bool
  pr_parent_serial :: "32 word"
  pr_width :: int
  pr_height :: int
  pr_parent_width :: int
  pr_parent_height :: int
  pr_offset_x :: int
  pr_offset_y :: int

text \<open>A new positioner is zeroed memory.\<close>

definition create_xdg_positioner :: positioner_rules where
  "create_xdg_positioner =
     \<lparr>pr_anchor_rect = zero_box, pr_anchor = AnchorNone, pr_gravity = AnchorNone,
      pr_adjustment = \<lparr>adj_slide_x = False, adj_slide_y = False, adj_flip_x = False, adj_flip_y = False,
        adj_resize_x = False, adj_resize_y = False\<rparr>,
      pr_reactive = False, pr_has_parent_serial = False, pr_parent_serial = 0, pr_width = 0, pr_height = 0,
      pr_parent_width = 0, pr_parent_height = 0, pr_offset_x = 0, pr_offset_y = 0\<rparr>"

text \<open>
  The requests of a client; an enumeration value that the generated validity check refuses is \<open>None\<close>.
  A refused request posts a protocol error (\<open>Inl\<close>) and leaves the rules alone.
\<close>

datatype positioner_error = InvalidInput

definition xdg_positioner_handle_set_size ::
  "int \<Rightarrow> int \<Rightarrow> positioner_rules \<Rightarrow> positioner_error + positioner_rules" where
  "xdg_positioner_handle_set_size width height r =
     (if width < 1 \<or> height < 1 then Inl InvalidInput else Inr (r\<lparr>pr_width := width, pr_height := height\<rparr>))"

definition xdg_positioner_handle_set_anchor_rect ::
  "wlr_box \<Rightarrow> positioner_rules \<Rightarrow> positioner_error + positioner_rules" where
  "xdg_positioner_handle_set_anchor_rect b r =
     (if box_width b < 0 \<or> box_height b < 0 then Inl InvalidInput else Inr (r\<lparr>pr_anchor_rect := b\<rparr>))"

definition xdg_positioner_handle_set_anchor ::
  "positioner_anchor option \<Rightarrow> positioner_rules \<Rightarrow> positioner_error + positioner_rules" where
  "xdg_positioner_handle_set_anchor anchor r =
     (case anchor of None \<Rightarrow> Inl InvalidInput | Some a \<Rightarrow> Inr (r\<lparr>pr_anchor := a\<rparr>))"

definition xdg_positioner_handle_set_gravity ::
  "positioner_anchor option \<Rightarrow> positioner_rules \<Rightarrow> positioner_error + positioner_rules" where
  "xdg_positioner_handle_set_gravity gravity r =
     (case gravity of None \<Rightarrow> Inl InvalidInput | Some g \<Rightarrow> Inr (r\<lparr>pr_gravity := g\<rparr>))"

definition xdg_positioner_handle_set_constraint_adjustment ::
  "constraint_adjustment option \<Rightarrow> positioner_rules \<Rightarrow> positioner_error + positioner_rules" where
  "xdg_positioner_handle_set_constraint_adjustment adj r =
     (case adj of None \<Rightarrow> Inl InvalidInput | Some a \<Rightarrow> Inr (r\<lparr>pr_adjustment := a\<rparr>))"

definition xdg_positioner_handle_set_offset :: "int \<Rightarrow> int \<Rightarrow> positioner_rules \<Rightarrow> positioner_rules" where
  "xdg_positioner_handle_set_offset x y r = r\<lparr>pr_offset_x := x, pr_offset_y := y\<rparr>"

definition xdg_positioner_handle_set_reactive :: "positioner_rules \<Rightarrow> positioner_rules" where
  "xdg_positioner_handle_set_reactive r = r\<lparr>pr_reactive := True\<rparr>"

definition xdg_positioner_handle_set_parent_configure :: "32 word \<Rightarrow> positioner_rules \<Rightarrow> positioner_rules" where
  "xdg_positioner_handle_set_parent_configure serial r =
     r\<lparr>pr_has_parent_serial := True, pr_parent_serial := serial\<rparr>"

definition xdg_positioner_handle_set_parent_size :: "int \<Rightarrow> int \<Rightarrow> positioner_rules \<Rightarrow> positioner_rules" where
  "xdg_positioner_handle_set_parent_size w h r = r\<lparr>pr_parent_width := w, pr_parent_height := h\<rparr>"

datatype positioner_request =
    SetSize int int
  | SetAnchorRect wlr_box
  | SetAnchor "positioner_anchor option"
  | SetGravity "positioner_anchor option"
  | SetAdjustment "constraint_adjustment option"
  | SetOffset int int
  | SetReactive
  | SetParentConfigure "32 word"
  | SetParentSize int int

fun handle_positioner_request :: "positioner_request \<Rightarrow> positioner_rules \<Rightarrow> positioner_error + positioner_rules" where
  "handle_positioner_request (SetSize w h) r = xdg_positioner_handle_set_size w h r"
| "handle_positioner_request (SetAnchorRect b) r = xdg_positioner_handle_set_anchor_rect b r"
| "handle_positioner_request (SetAnchor a) r = xdg_positioner_handle_set_anchor a r"
| "handle_positioner_request (SetGravity g) r = xdg_positioner_handle_set_gravity g r"
| "handle_positioner_request (SetAdjustment a) r = xdg_positioner_handle_set_constraint_adjustment a r"
| "handle_positioner_request (SetOffset x y) r = Inr (xdg_positioner_handle_set_offset x y r)"
| "handle_positioner_request SetReactive r = Inr (xdg_positioner_handle_set_reactive r)"
| "handle_positioner_request (SetParentConfigure s) r = Inr (xdg_positioner_handle_set_parent_configure s r)"
| "handle_positioner_request (SetParentSize w h) r = Inr (xdg_positioner_handle_set_parent_size w h r)"

text \<open>A client is disconnected by its first error.\<close>

fun positioner_requests ::
  "positioner_request list \<Rightarrow> positioner_rules \<Rightarrow> positioner_error + positioner_rules" where
  "positioner_requests [] r = Inr r"
| "positioner_requests (q # qs) r =
     (case handle_positioner_request q r of Inl e \<Rightarrow> Inl e | Inr r1 \<Rightarrow> positioner_requests qs r1)"

definition wlr_xdg_positioner_is_complete :: "positioner_rules \<Rightarrow> bool" where
  "wlr_xdg_positioner_is_complete r \<longleftrightarrow> 0 < pr_width r \<and> 0 < box_width (pr_anchor_rect r)"

section \<open>The box of the rules\<close>

fun xdg_positioner_anchor_to_wlr_edges :: "positioner_anchor \<Rightarrow> 32 word" where
  "xdg_positioner_anchor_to_wlr_edges AnchorNone = 0"
| "xdg_positioner_anchor_to_wlr_edges AnchorTop = WLR_EDGE_TOP"
| "xdg_positioner_anchor_to_wlr_edges AnchorTopLeft = WLR_EDGE_TOP OR WLR_EDGE_LEFT"
| "xdg_positioner_anchor_to_wlr_edges AnchorTopRight = WLR_EDGE_TOP OR WLR_EDGE_RIGHT"
| "xdg_positioner_anchor_to_wlr_edges AnchorBottom = WLR_EDGE_BOTTOM"
| "xdg_positioner_anchor_to_wlr_edges AnchorBottomLeft = WLR_EDGE_BOTTOM OR WLR_EDGE_LEFT"
| "xdg_positioner_anchor_to_wlr_edges AnchorBottomRight = WLR_EDGE_BOTTOM OR WLR_EDGE_RIGHT"
| "xdg_positioner_anchor_to_wlr_edges AnchorLeft = WLR_EDGE_LEFT"
| "xdg_positioner_anchor_to_wlr_edges AnchorRight = WLR_EDGE_RIGHT"

text \<open>One axis of \<open>wlr_xdg_positioner_rules_get_geometry\<close>: the anchor point on the rectangle, then the
  box to the side of it the gravity says. Division by 2 truncates.\<close>

definition anchor_point :: "bool \<Rightarrow> bool \<Rightarrow> int \<Rightarrow> int \<Rightarrow> int" where
  "anchor_point low high lo len = (if low then lo else if high then lo + len else lo + len sdiv 2)"

definition gravity_shift :: "bool \<Rightarrow> bool \<Rightarrow> int \<Rightarrow> int" where
  "gravity_shift low high len = (if low then len else if \<not> high then len sdiv 2 else 0)"

definition wlr_xdg_positioner_rules_get_geometry :: "positioner_rules \<Rightarrow> wlr_box" where
  "wlr_xdg_positioner_rules_get_geometry r =
     (let rect = pr_anchor_rect r;
          edges = xdg_positioner_anchor_to_wlr_edges (pr_anchor r);
          y = pr_offset_y r + anchor_point (edge_set edges WLR_EDGE_TOP) (edge_set edges WLR_EDGE_BOTTOM)
                (box_y rect) (box_height rect);
          x = pr_offset_x r + anchor_point (edge_set edges WLR_EDGE_LEFT) (edge_set edges WLR_EDGE_RIGHT)
                (box_x rect) (box_width rect);
          grav = xdg_positioner_anchor_to_wlr_edges (pr_gravity r)
      in \<lparr>box_x = x - gravity_shift (edge_set grav WLR_EDGE_LEFT) (edge_set grav WLR_EDGE_RIGHT) (pr_width r),
          box_y = y - gravity_shift (edge_set grav WLR_EDGE_TOP) (edge_set grav WLR_EDGE_BOTTOM) (pr_height r),
          box_width = pr_width r, box_height = pr_height r\<rparr>)"

section \<open>Fitting the box\<close>

fun xdg_positioner_anchor_invert_x :: "positioner_anchor \<Rightarrow> positioner_anchor" where
  "xdg_positioner_anchor_invert_x AnchorLeft = AnchorRight"
| "xdg_positioner_anchor_invert_x AnchorRight = AnchorLeft"
| "xdg_positioner_anchor_invert_x AnchorTopLeft = AnchorTopRight"
| "xdg_positioner_anchor_invert_x AnchorTopRight = AnchorTopLeft"
| "xdg_positioner_anchor_invert_x AnchorBottomLeft = AnchorBottomRight"
| "xdg_positioner_anchor_invert_x AnchorBottomRight = AnchorBottomLeft"
| "xdg_positioner_anchor_invert_x a = a"

fun xdg_positioner_anchor_invert_y :: "positioner_anchor \<Rightarrow> positioner_anchor" where
  "xdg_positioner_anchor_invert_y AnchorTop = AnchorBottom"
| "xdg_positioner_anchor_invert_y AnchorBottom = AnchorTop"
| "xdg_positioner_anchor_invert_y AnchorTopLeft = AnchorBottomLeft"
| "xdg_positioner_anchor_invert_y AnchorBottomLeft = AnchorTopLeft"
| "xdg_positioner_anchor_invert_y AnchorTopRight = AnchorBottomRight"
| "xdg_positioner_anchor_invert_y AnchorBottomRight = AnchorTopRight"
| "xdg_positioner_anchor_invert_y a = a"

text \<open>Distances from each edge of the box to that of the constraint, positive where the edge is
  outside.\<close>

record constraint_offsets =
  co_top :: int
  co_bottom :: int
  co_left :: int
  co_right :: int

definition is_unconstrained :: "constraint_offsets \<Rightarrow> bool" where
  "is_unconstrained o1 \<longleftrightarrow> co_top o1 \<le> 0 \<and> co_bottom o1 \<le> 0 \<and> co_left o1 \<le> 0 \<and> co_right o1 \<le> 0"

definition get_constrained_box_offsets :: "wlr_box \<Rightarrow> wlr_box \<Rightarrow> constraint_offsets" where
  "get_constrained_box_offsets c b =
     \<lparr>co_top = box_y c - box_y b,
      co_bottom = box_y b + box_height b - box_y c - box_height c,
      co_left = box_x c - box_x b,
      co_right = box_x b + box_width b - box_x c - box_width c\<rparr>"

text \<open>Each step returns whether the box is unconstrained now, with the box and its offsets.\<close>

definition flipped_rules :: "bool \<Rightarrow> bool \<Rightarrow> positioner_rules \<Rightarrow> positioner_rules" where
  "flipped_rules flip_x flip_y r =
     (let r1 = (if flip_x then r\<lparr>pr_anchor := xdg_positioner_anchor_invert_x (pr_anchor r),
                  pr_gravity := xdg_positioner_anchor_invert_x (pr_gravity r)\<rparr> else r)
      in if flip_y then r1\<lparr>pr_anchor := xdg_positioner_anchor_invert_y (pr_anchor r1),
           pr_gravity := xdg_positioner_anchor_invert_y (pr_gravity r1)\<rparr> else r1)"

definition xdg_positioner_rules_unconstrain_by_flip ::
  "positioner_rules \<Rightarrow> wlr_box \<Rightarrow> wlr_box \<Rightarrow> constraint_offsets \<Rightarrow> bool \<times> wlr_box \<times> constraint_offsets" where
  "xdg_positioner_rules_unconstrain_by_flip r c b o0 =
     (let flip_x = ((0 < co_left o0) \<noteq> (0 < co_right o0) \<and> adj_flip_x (pr_adjustment r));
          flip_y = ((0 < co_top o0) \<noteq> (0 < co_bottom o0) \<and> adj_flip_y (pr_adjustment r))
      in if \<not> flip_x \<and> \<not> flip_y then (False, b, o0)
         else
           let f = wlr_xdg_positioner_rules_get_geometry (flipped_rules flip_x flip_y r);
               fo = get_constrained_box_offsets c f;
               (b1, o1) = (if co_left fo \<le> 0 \<and> co_right fo \<le> 0
                 then (b\<lparr>box_x := box_x f\<rparr>, o0\<lparr>co_left := co_left fo, co_right := co_right fo\<rparr>) else (b, o0));
               (b2, o2) = (if co_top fo \<le> 0 \<and> co_bottom fo \<le> 0
                 then (b1\<lparr>box_y := box_y f\<rparr>, o1\<lparr>co_top := co_top fo, co_bottom := co_bottom fo\<rparr>) else (b1, o1))
           in (is_unconstrained o2, b2, o2))"

text \<open>Sliding along one axis, from the offsets of its low and its high edge.\<close>

definition slide_by :: "bool \<Rightarrow> int \<Rightarrow> int \<Rightarrow> int" where
  "slide_by gravity_low lo hi =
     (if 0 < lo \<and> 0 < hi then (if gravity_low then - hi else lo)
      else if (if 0 < lo then lo else - lo) < (if 0 < hi then hi else - hi) then lo else - hi)"

definition xdg_positioner_rules_unconstrain_by_slide ::
  "positioner_rules \<Rightarrow> wlr_box \<Rightarrow> wlr_box \<Rightarrow> constraint_offsets \<Rightarrow> bool \<times> wlr_box \<times> constraint_offsets" where
  "xdg_positioner_rules_unconstrain_by_slide r c b o0 =
     (let gravity = xdg_positioner_anchor_to_wlr_edges (pr_gravity r);
          slide_x = ((0 < co_left o0 \<or> 0 < co_right o0) \<and> adj_slide_x (pr_adjustment r));
          slide_y = ((0 < co_top o0 \<or> 0 < co_bottom o0) \<and> adj_slide_y (pr_adjustment r))
      in if \<not> slide_x \<and> \<not> slide_y then (False, b, o0)
         else
           let b1 = (if slide_x
                 then b\<lparr>box_x := box_x b + slide_by (edge_set gravity WLR_EDGE_LEFT) (co_left o0) (co_right o0)\<rparr>
                 else b);
               b2 = (if slide_y
                 then b1\<lparr>box_y := box_y b1 + slide_by (edge_set gravity WLR_EDGE_TOP) (co_top o0) (co_bottom o0)\<rparr>
                 else b1);
               o2 = get_constrained_box_offsets c b2
           in (is_unconstrained o2, b2, o2))"

definition xdg_positioner_rules_unconstrain_by_resize ::
  "positioner_rules \<Rightarrow> wlr_box \<Rightarrow> wlr_box \<Rightarrow> constraint_offsets \<Rightarrow> bool \<times> wlr_box \<times> constraint_offsets" where
  "xdg_positioner_rules_unconstrain_by_resize r c b o0 =
     (let resize_x = ((0 < co_left o0 \<or> 0 < co_right o0) \<and> adj_resize_x (pr_adjustment r));
          resize_y = ((0 < co_top o0 \<or> 0 < co_bottom o0) \<and> adj_resize_y (pr_adjustment r))
      in if \<not> resize_x \<and> \<not> resize_y then (False, b, o0)
         else
           let o1 = \<lparr>co_top = max (co_top o0) 0, co_bottom = max (co_bottom o0) 0,
                     co_left = max (co_left o0) 0, co_right = max (co_right o0) 0\<rparr>;
               b1 = (if resize_x then b\<lparr>box_x := box_x b + co_left o1,
                       box_width := box_width b - (co_left o1 + co_right o1)\<rparr> else b);
               b2 = (if resize_y then b1\<lparr>box_y := box_y b1 + co_top o1,
                       box_height := box_height b1 - (co_top o1 + co_bottom o1)\<rparr> else b1)
           in if wlr_box_empty (Some b2) then (False, b, o1)
              else let o2 = get_constrained_box_offsets c b2 in (is_unconstrained o2, b2, o2))"

definition wlr_xdg_positioner_rules_unconstrain_box :: "positioner_rules \<Rightarrow> wlr_box \<Rightarrow> wlr_box \<Rightarrow> wlr_box" where
  "wlr_xdg_positioner_rules_unconstrain_box r c b =
     (let o0 = get_constrained_box_offsets c b
      in if is_unconstrained o0 then b
         else case xdg_positioner_rules_unconstrain_by_flip r c b o0 of
             (True, b1, o1) \<Rightarrow> b1
           | (False, b1, o1) \<Rightarrow> (case xdg_positioner_rules_unconstrain_by_slide r c b1 o1 of
                 (True, b2, o2) \<Rightarrow> b2
               | (False, b2, o2) \<Rightarrow> fst (snd (xdg_positioner_rules_unconstrain_by_resize r c b2 o2))))"

section \<open>One axis at a time\<close>

text \<open>
  What the three steps do along one axis: \<open>lo\<close> and \<open>len\<close> are the constraint, \<open>pos\<close> and \<open>w\<close> the box.
  A flip is taken if it brings the box inside; the offsets, the early returns and the bookkeeping of
  two axes at once do not appear. Only the last step looks at both: clipping is dropped if it leaves
  nothing along either axis.
\<close>

definition fits_axis :: "int \<Rightarrow> int \<Rightarrow> int \<Rightarrow> int \<Rightarrow> bool" where
  "fits_axis lo len pos w \<longleftrightarrow> lo \<le> pos \<and> pos + w \<le> lo + len"

definition flip_axis :: "bool \<Rightarrow> int \<Rightarrow> int \<Rightarrow> int \<Rightarrow> int \<Rightarrow> int \<Rightarrow> int" where
  "flip_axis ok flipped lo len pos w =
     (if ok \<and> (pos < lo) \<noteq> (lo + len < pos + w) \<and> fits_axis lo len flipped w then flipped else pos)"

definition slide_axis :: "bool \<Rightarrow> bool \<Rightarrow> int \<Rightarrow> int \<Rightarrow> int \<Rightarrow> int \<Rightarrow> int" where
  "slide_axis ok low lo len pos w =
     (if ok \<and> \<not> fits_axis lo len pos w then pos + slide_by low (lo - pos) (pos + w - lo - len) else pos)"

definition clip_axis :: "bool \<Rightarrow> int \<Rightarrow> int \<Rightarrow> int \<Rightarrow> int \<Rightarrow> int \<times> int" where
  "clip_axis ok lo len pos w =
     (if ok \<and> \<not> fits_axis lo len pos w
      then (max pos lo, min (pos + w) (lo + len) - max pos lo) else (pos, w))"

definition flip_box :: "positioner_rules \<Rightarrow> wlr_box \<Rightarrow> wlr_box \<Rightarrow> wlr_box" where
  "flip_box r c b =
     b\<lparr>box_x := flip_axis (adj_flip_x (pr_adjustment r))
          (box_x (wlr_xdg_positioner_rules_get_geometry (flipped_rules True False r)))
          (box_x c) (box_width c) (box_x b) (box_width b),
       box_y := flip_axis (adj_flip_y (pr_adjustment r))
          (box_y (wlr_xdg_positioner_rules_get_geometry (flipped_rules False True r)))
          (box_y c) (box_height c) (box_y b) (box_height b)\<rparr>"

definition slide_box :: "positioner_rules \<Rightarrow> wlr_box \<Rightarrow> wlr_box \<Rightarrow> wlr_box" where
  "slide_box r c b =
     (let grav = xdg_positioner_anchor_to_wlr_edges (pr_gravity r)
      in b\<lparr>box_x := slide_axis (adj_slide_x (pr_adjustment r)) (edge_set grav WLR_EDGE_LEFT)
             (box_x c) (box_width c) (box_x b) (box_width b),
           box_y := slide_axis (adj_slide_y (pr_adjustment r)) (edge_set grav WLR_EDGE_TOP)
             (box_y c) (box_height c) (box_y b) (box_height b)\<rparr>)"

definition clip_box :: "positioner_rules \<Rightarrow> wlr_box \<Rightarrow> wlr_box \<Rightarrow> wlr_box" where
  "clip_box r c b =
     (let (x, w) = clip_axis (adj_resize_x (pr_adjustment r)) (box_x c) (box_width c) (box_x b) (box_width b);
          (y, h) = clip_axis (adj_resize_y (pr_adjustment r)) (box_y c) (box_height c) (box_y b) (box_height b)
      in if w \<le> 0 \<or> h \<le> 0 then b else \<lparr>box_x = x, box_y = y, box_width = w, box_height = h\<rparr>)"

definition fit_by_axes :: "positioner_rules \<Rightarrow> wlr_box \<Rightarrow> wlr_box" where
  "fit_by_axes r c = clip_box r c (slide_box r c (flip_box r c (wlr_xdg_positioner_rules_get_geometry r)))"

lemma edges_invert:
  "edge_set (xdg_positioner_anchor_to_wlr_edges (xdg_positioner_anchor_invert_y a)) WLR_EDGE_LEFT
     = edge_set (xdg_positioner_anchor_to_wlr_edges a) WLR_EDGE_LEFT"
  "edge_set (xdg_positioner_anchor_to_wlr_edges (xdg_positioner_anchor_invert_y a)) WLR_EDGE_RIGHT
     = edge_set (xdg_positioner_anchor_to_wlr_edges a) WLR_EDGE_RIGHT"
  "edge_set (xdg_positioner_anchor_to_wlr_edges (xdg_positioner_anchor_invert_x a)) WLR_EDGE_TOP
     = edge_set (xdg_positioner_anchor_to_wlr_edges a) WLR_EDGE_TOP"
  "edge_set (xdg_positioner_anchor_to_wlr_edges (xdg_positioner_anchor_invert_x a)) WLR_EDGE_BOTTOM
     = edge_set (xdg_positioner_anchor_to_wlr_edges a) WLR_EDGE_BOTTOM"
  by (cases a; simp add: edge_set_def WLR_EDGE_TOP_def WLR_EDGE_BOTTOM_def WLR_EDGE_LEFT_def WLR_EDGE_RIGHT_def)+

lemma geometry_size [simp]:
  "box_width (wlr_xdg_positioner_rules_get_geometry r) = pr_width r"
  "box_height (wlr_xdg_positioner_rules_get_geometry r) = pr_height r"
  by (simp_all add: wlr_xdg_positioner_rules_get_geometry_def Let_def)

lemma flipped_fields [simp]:
  "pr_width (flipped_rules fx fy r) = pr_width r" "pr_height (flipped_rules fx fy r) = pr_height r"
  by (simp_all add: flipped_rules_def Let_def)

lemma invert_commute:
  "xdg_positioner_anchor_invert_y (xdg_positioner_anchor_invert_x a)
     = xdg_positioner_anchor_invert_x (xdg_positioner_anchor_invert_y a)"
  by (cases a) simp_all

text \<open>A flip of one axis moves the box along that axis only.\<close>

lemma flipped_geometry:
  "box_x (wlr_xdg_positioner_rules_get_geometry (flipped_rules fx fy r)) =
     box_x (wlr_xdg_positioner_rules_get_geometry (if fx then flipped_rules True False r else r))"
  "box_y (wlr_xdg_positioner_rules_get_geometry (flipped_rules fx fy r)) =
     box_y (wlr_xdg_positioner_rules_get_geometry (if fy then flipped_rules False True r else r))"
  by (simp add: wlr_xdg_positioner_rules_get_geometry_def flipped_rules_def Let_def edges_invert)
    (simp add: wlr_xdg_positioner_rules_get_geometry_def flipped_rules_def Let_def edges_invert invert_commute)

lemma offsets_fit:
  "is_unconstrained (get_constrained_box_offsets c b) \<longleftrightarrow>
     fits_axis (box_x c) (box_width c) (box_x b) (box_width b) \<and> fits_axis (box_y c) (box_height c) (box_y b) (box_height b)"
  by (auto simp: is_unconstrained_def get_constrained_box_offsets_def fits_axis_def)

lemma flip_by_axes:
  assumes "b = wlr_xdg_positioner_rules_get_geometry r" "o0 = get_constrained_box_offsets c b"
    and "\<not> is_unconstrained o0"
  shows "xdg_positioner_rules_unconstrain_by_flip r c b o0 =
      (is_unconstrained (get_constrained_box_offsets c (flip_box r c b)), flip_box r c b,
       get_constrained_box_offsets c (flip_box r c b))"
proof -
  define fx where "fx = ((0 < co_left o0) \<noteq> (0 < co_right o0) \<and> adj_flip_x (pr_adjustment r))"
  define fy where "fy = ((0 < co_top o0) \<noteq> (0 < co_bottom o0) \<and> adj_flip_y (pr_adjustment r))"
  have size: "box_width b = pr_width r" "box_height b = pr_height r" by (simp_all add: assms(1))
  have fx': "fx \<longleftrightarrow> adj_flip_x (pr_adjustment r) \<and> (box_x b < box_x c) \<noteq> (box_x c + box_width c < box_x b + pr_width r)"
    by (auto simp: fx_def assms(2) get_constrained_box_offsets_def size)
  have fy': "fy \<longleftrightarrow> adj_flip_y (pr_adjustment r) \<and> (box_y b < box_y c) \<noteq> (box_y c + box_height c < box_y b + pr_height r)"
    by (auto simp: fy_def assms(2) get_constrained_box_offsets_def size)
  show ?thesis
    unfolding xdg_positioner_rules_unconstrain_by_flip_def fx_def[symmetric] fy_def[symmetric] Let_def
    using assms(1,3) flipped_geometry[of fx fy r]
    by (cases fx; cases fy)
      (auto simp: fx' fy' flip_box_def flip_axis_def fits_axis_def get_constrained_box_offsets_def assms(2) size)
qed

lemma slide_by_axes:
  assumes "\<not> is_unconstrained (get_constrained_box_offsets c b)"
  shows "xdg_positioner_rules_unconstrain_by_slide r c b (get_constrained_box_offsets c b) =
      (is_unconstrained (get_constrained_box_offsets c (slide_box r c b)), slide_box r c b,
       get_constrained_box_offsets c (slide_box r c b))"
proof -
  have x: "0 < co_left (get_constrained_box_offsets c b) \<or> 0 < co_right (get_constrained_box_offsets c b)
    \<longleftrightarrow> \<not> fits_axis (box_x c) (box_width c) (box_x b) (box_width b)"
    and y: "0 < co_top (get_constrained_box_offsets c b) \<or> 0 < co_bottom (get_constrained_box_offsets c b)
    \<longleftrightarrow> \<not> fits_axis (box_y c) (box_height c) (box_y b) (box_height b)"
    by (auto simp: get_constrained_box_offsets_def fits_axis_def)
  show ?thesis
    unfolding xdg_positioner_rules_unconstrain_by_slide_def x y
    using assms by (auto simp: slide_box_def slide_axis_def Let_def get_constrained_box_offsets_def)
qed

text \<open>Clipping one axis with the offsets is taking the common part.\<close>

lemma clip_offsets:
  "p + max (lo - p) 0 = max p (lo :: int)"
  "w - (max (lo - p) 0 + max (p + w - lo - len) 0) = min (p + w) (lo + len) - max p (lo :: int)"
  by (simp_all add: max_def min_def)

lemma resize_by_axes:
  assumes "0 < box_width b" "0 < box_height b"
  shows "fst (snd (xdg_positioner_rules_unconstrain_by_resize r c b (get_constrained_box_offsets c b))) = clip_box r c b"
proof -
  define rx where "rx \<longleftrightarrow> \<not> fits_axis (box_x c) (box_width c) (box_x b) (box_width b) \<and> adj_resize_x (pr_adjustment r)"
  define ry where "ry \<longleftrightarrow> \<not> fits_axis (box_y c) (box_height c) (box_y b) (box_height b) \<and> adj_resize_y (pr_adjustment r)"
  have x: "(0 < co_left (get_constrained_box_offsets c b) \<or> 0 < co_right (get_constrained_box_offsets c b))
      \<and> adj_resize_x (pr_adjustment r) \<longleftrightarrow> rx"
    and y: "(0 < co_top (get_constrained_box_offsets c b) \<or> 0 < co_bottom (get_constrained_box_offsets c b))
      \<and> adj_resize_y (pr_adjustment r) \<longleftrightarrow> ry"
    by (auto simp: rx_def ry_def get_constrained_box_offsets_def fits_axis_def)
  have cx: "clip_axis (adj_resize_x (pr_adjustment r)) (box_x c) (box_width c) (box_x b) (box_width b) =
      (if rx then (max (box_x b) (box_x c), min (box_x b + box_width b) (box_x c + box_width c) - max (box_x b) (box_x c))
       else (box_x b, box_width b))"
    and cy: "clip_axis (adj_resize_y (pr_adjustment r)) (box_y c) (box_height c) (box_y b) (box_height b) =
      (if ry then (max (box_y b) (box_y c), min (box_y b + box_height b) (box_y c + box_height c) - max (box_y b) (box_y c))
       else (box_y b, box_height b))"
    by (simp_all add: clip_axis_def rx_def ry_def)
  show ?thesis
    unfolding xdg_positioner_rules_unconstrain_by_resize_def x y Let_def clip_box_def cx cy
    using assms
    by (cases rx; cases ry) (simp_all add: wlr_box_empty_def get_constrained_box_offsets_def clip_offsets)
qed

lemma fit_axis_id:
  "fits_axis lo len p w \<Longrightarrow> slide_axis ok g lo len p w = p"
  "fits_axis lo len p w \<Longrightarrow> clip_axis ok lo len p w = (p, w)"
  "fits_axis lo len p w \<Longrightarrow> flip_axis ok f lo len p w = p"
  by (auto simp: slide_axis_def clip_axis_def flip_axis_def fits_axis_def)

lemma unconstrained_id:
  assumes "is_unconstrained (get_constrained_box_offsets c b)"
  shows "flip_box r c b = b" "slide_box r c b = b" "clip_box r c b = b"
  using assms by (auto simp: offsets_fit flip_box_def slide_box_def clip_box_def fit_axis_id Let_def)

lemma box_sizes [simp]:
  "box_width (flip_box r c b) = box_width b" "box_height (flip_box r c b) = box_height b"
  "box_width (slide_box r c b) = box_width b" "box_height (slide_box r c b) = box_height b"
  by (simp_all add: flip_box_def slide_box_def Let_def)

lemma unconstrain_by_axes:
  assumes "0 < pr_width r" "0 < pr_height r"
  shows "wlr_xdg_positioner_rules_unconstrain_box r c (wlr_xdg_positioner_rules_get_geometry r) = fit_by_axes r c"
proof -
  let ?b = "wlr_xdg_positioner_rules_get_geometry r"
  let ?unc = "\<lambda>b. is_unconstrained (get_constrained_box_offsets c b)"
  let ?f = "flip_box r c ?b" and ?s = "slide_box r c (flip_box r c ?b)"
  show ?thesis
  proof (cases "?unc ?b")
    case True
    then show ?thesis by (simp add: wlr_xdg_positioner_rules_unconstrain_box_def fit_by_axes_def unconstrained_id)
  next
    case b: False
    note flip = flip_by_axes[OF refl refl b]
    show ?thesis
    proof (cases "?unc ?f")
      case True
      with b flip show ?thesis
        by (simp add: wlr_xdg_positioner_rules_unconstrain_box_def fit_by_axes_def unconstrained_id Let_def)
    next
      case f: False
      have clip: "\<not> ?unc ?s \<Longrightarrow> fst (snd (xdg_positioner_rules_unconstrain_by_resize r c ?s
          (get_constrained_box_offsets c ?s))) = clip_box r c ?s"
        using assms by (simp add: resize_by_axes)
      show ?thesis
        using b f flip slide_by_axes[OF f] clip
        by (cases "?unc ?s")
          (simp_all add: wlr_xdg_positioner_rules_unconstrain_box_def fit_by_axes_def unconstrained_id Let_def)
    qed
  qed
qed

text \<open>
  C36 (equivalence). The routine that fits a menu into the area it may cover, with its offsets and early
  returns, does along each axis the same as its one-dimensional reference: flip if that brings the
  box inside, slide, clip; only the clip looks at both axes, since it may not leave an empty box.
\<close>

theorem fits_menu_by_axes:
  assumes "0 < pr_width r" "0 < pr_height r"
  shows "wlr_xdg_positioner_rules_unconstrain_box r c (wlr_xdg_positioner_rules_get_geometry r) = fit_by_axes r c"
  using assms by (rule unconstrain_by_axes)

section \<open>What the fitting promises\<close>

lemma slide_fits: "w \<le> len \<Longrightarrow> fits_axis lo len (slide_axis True low lo len pos w) w"
  by (auto simp: slide_axis_def slide_by_def fits_axis_def)

lemma slide_least:
  "w \<le> len \<Longrightarrow> fits_axis lo len p w \<Longrightarrow> \<bar>slide_axis ok low lo len pos w - pos\<bar> \<le> \<bar>p - pos\<bar>"
  by (auto simp: slide_axis_def slide_by_def fits_axis_def)

lemma clip_positive: "0 < box_width b \<Longrightarrow> 0 < box_height b \<Longrightarrow> box_set (clip_box r c b)"
  by (auto simp: clip_box_def box_set_def split: prod.split)

text \<open>
  C34 (functional). A menu that may slide and is no larger than the area keeps its size and ends inside
  the area. Along an axis on which it may not be flipped no smaller move would have done; where it may,
  a flip that brings it inside comes first, however far that moves it.
\<close>

theorem sliding_menu_fits:
  assumes "adj_slide_x (pr_adjustment r)" "adj_slide_y (pr_adjustment r)"
    and "0 < pr_width r" "pr_width r \<le> box_width c" "0 < pr_height r" "pr_height r \<le> box_height c"
  defines "b \<equiv> wlr_xdg_positioner_rules_get_geometry r"
  defines "b' \<equiv> wlr_xdg_positioner_rules_unconstrain_box r c b"
  shows "wlr_box_contains_box (Some c) (Some b') \<and> box_width b' = pr_width r \<and> box_height b' = pr_height r
    \<and> (\<forall>d. wlr_box_contains_box (Some c) (Some d) \<and> box_width d = pr_width r \<and> box_height d = pr_height r
        \<longrightarrow> (\<not> adj_flip_x (pr_adjustment r) \<longrightarrow> \<bar>box_x b' - box_x b\<bar> \<le> \<bar>box_x d - box_x b\<bar>)
          \<and> (\<not> adj_flip_y (pr_adjustment r) \<longrightarrow> \<bar>box_y b' - box_y b\<bar> \<le> \<bar>box_y d - box_y b\<bar>))"
proof -
  let ?s = "slide_box r c (flip_box r c b)"
  have size: "box_width b = pr_width r" "box_height b = pr_height r" by (simp_all add: b_def)
  have fits: "fits_axis (box_x c) (box_width c) (box_x ?s) (pr_width r)"
      "fits_axis (box_y c) (box_height c) (box_y ?s) (pr_height r)"
    using assms(1,2,4,6) by (simp_all add: slide_box_def Let_def slide_fits size)
  then have "is_unconstrained (get_constrained_box_offsets c ?s)" by (simp add: offsets_fit size)
  then have b': "b' = ?s"
    by (simp add: b'_def b_def unconstrain_by_axes[OF assms(3,5)] fit_by_axes_def unconstrained_id)
  have "box_x ?s = slide_axis True (edge_set (xdg_positioner_anchor_to_wlr_edges (pr_gravity r)) WLR_EDGE_LEFT)
        (box_x c) (box_width c) (box_x b) (pr_width r)" if "\<not> adj_flip_x (pr_adjustment r)"
    using that assms(1) by (simp add: slide_box_def flip_box_def flip_axis_def Let_def size)
  then have least_x: "\<bar>box_x ?s - box_x b\<bar> \<le> \<bar>box_x d - box_x b\<bar>"
    if "\<not> adj_flip_x (pr_adjustment r)" "fits_axis (box_x c) (box_width c) (box_x d) (pr_width r)" for d :: wlr_box
    using that assms(4) by (simp add: slide_least)
  have "box_y ?s = slide_axis True (edge_set (xdg_positioner_anchor_to_wlr_edges (pr_gravity r)) WLR_EDGE_TOP)
        (box_y c) (box_height c) (box_y b) (pr_height r)" if "\<not> adj_flip_y (pr_adjustment r)"
    using that assms(2) by (simp add: slide_box_def flip_box_def flip_axis_def Let_def size)
  then have least_y: "\<bar>box_y ?s - box_y b\<bar> \<le> \<bar>box_y d - box_y b\<bar>"
    if "\<not> adj_flip_y (pr_adjustment r)" "fits_axis (box_y c) (box_height c) (box_y d) (pr_height r)" for d :: wlr_box
    using that assms(6) by (simp add: slide_least)
  have inside: "wlr_box_contains_box (Some c) (Some ?s)"
    using fits assms(3-6) by (simp add: wlr_box_contains_box_def wlr_box_empty_def fits_axis_def size)
  have "fits_axis (box_x c) (box_width c) (box_x d) (pr_width r) \<and> fits_axis (box_y c) (box_height c) (box_y d) (pr_height r)"
    if "wlr_box_contains_box (Some c) (Some d)" "box_width d = pr_width r" "box_height d = pr_height r" for d
    using that by (simp add: wlr_box_contains_box_def fits_axis_def)
  with inside least_x least_y show ?thesis unfolding b' by (auto simp: size)
qed

text \<open>What the requests keep: a size is set as a whole and positive.\<close>

definition positioner_ok :: "positioner_rules \<Rightarrow> bool" where
  "positioner_ok r \<longleftrightarrow> (pr_width r = 0 \<and> pr_height r = 0 \<or> 1 \<le> pr_width r \<and> 1 \<le> pr_height r)
     \<and> 0 \<le> box_width (pr_anchor_rect r) \<and> 0 \<le> box_height (pr_anchor_rect r)"

lemmas positioner_handlers =
  xdg_positioner_handle_set_size_def xdg_positioner_handle_set_anchor_rect_def xdg_positioner_handle_set_anchor_def
  xdg_positioner_handle_set_gravity_def xdg_positioner_handle_set_constraint_adjustment_def
  xdg_positioner_handle_set_offset_def xdg_positioner_handle_set_reactive_def
  xdg_positioner_handle_set_parent_configure_def xdg_positioner_handle_set_parent_size_def

lemma positioner_request_ok: "positioner_ok r \<Longrightarrow> handle_positioner_request q r = Inr r' \<Longrightarrow> positioner_ok r'"
  by (cases q) (auto simp: positioner_handlers positioner_ok_def split: if_splits option.splits)

lemma positioner_requests_ok: "positioner_ok r \<Longrightarrow> positioner_requests qs r = Inr r' \<Longrightarrow> positioner_ok r'"
  by (induction qs arbitrary: r) (auto split: sum.splits dest: positioner_request_ok)

lemma new_positioner_ok: "positioner_ok create_xdg_positioner"
  by (simp add: positioner_ok_def create_xdg_positioner_def zero_box_def)

text \<open>
  C31 (safety). Whatever a client asks of a positioner that is complete in the end, and whatever the area
  is, the menu's box is not empty: the assertion of \<open>send_xdg_popup_configure\<close> holds.
\<close>

theorem menu_box_never_empty:
  assumes "positioner_requests qs create_xdg_positioner = Inr r" "wlr_xdg_positioner_is_complete r"
  shows "box_set (wlr_xdg_positioner_rules_get_geometry r)
    \<and> box_set (wlr_xdg_positioner_rules_unconstrain_box r c (wlr_xdg_positioner_rules_get_geometry r))"
proof -
  have "positioner_ok r" using positioner_requests_ok[OF new_positioner_ok assms(1)] .
  with assms(2) have r: "0 < pr_width r" "0 < pr_height r"
    by (auto simp: positioner_ok_def wlr_xdg_positioner_is_complete_def)
  then show ?thesis by (simp add: unconstrain_by_axes fit_by_axes_def clip_positive box_set_def[of "wlr_xdg_positioner_rules_get_geometry r"])
qed

end
