(* ===== verification/Desk.thy ===== *)
theory Desk
  imports Scene X11_Windows Present_Window Seat_Pointer Positioner
begin

text \<open>
  The state the parts that deal with several windows share: the lists and the pointer state of
  \<open>struct wlx_server\<close> (\<open>src/server.h\<close>), the popups (\<open>struct wlx_popup\<close>), the promoted
  subsurfaces (\<open>struct wlx_subpresent\<close>, \<open>src/subpresent.c\<close>) and what wlroots knows of the
  surfaces. Lists have their head first: \<open>wl_list_insert\<close> is a cons, and a walk meets the newest
  element first.
\<close>

section \<open>Surfaces\<close>

datatype xdg_role = RoleNone | RoleToplevel | RolePopup

text \<open>
  A \<open>wlr_surface\<close> with its \<open>wlr_xdg_surface\<close> and \<open>wlr_xdg_popup\<close>; \<open>xs_data\<close> is the pointer the
  compositor keeps in \<open>base->data\<close>: a window or a popup, by role. \<open>xs_buffer\<close> is the size of
  \<open>surface->buffer\<close>, \<open>xs_parent\<close> the popup's parent surface, \<open>xs_cur_geo\<close> and \<open>xs_sched_geo\<close> the popup's
  \<open>current.geometry\<close> and \<open>scheduled.geometry\<close>.
\<close>

record xdg_surface =
  xs_role :: xdg_role
  xs_data :: "nat option"
  xs_mapped :: bool
  xs_width :: int
  xs_height :: int
  xs_buffer :: "(int \<times> int) option"
  xs_initial_commit :: bool
  xs_popup :: bool
  xs_parent :: "nat option"
  xs_cur_geo :: wlr_box
  xs_sched_geo :: wlr_box
  xs_rules :: positioner_rules \<comment> \<open>\<open>scheduled.rules\<close>\<close>
  xs_geometry :: wlr_box \<comment> \<open>\<open>geometry\<close> of the \<open>wlr_xdg_surface\<close>\<close>

section \<open>Popups and promoted subsurfaces\<close>

record popup =
  pp_id :: nat
  pp_parent :: "wid option"
  pp_surface :: nat \<comment> \<open>the surface of \<open>xdg_popup->base\<close>\<close>
  pp_scene :: "scene_node option"
  pp_xpresent :: "present_window option"
  pp_listening :: bool \<comment> \<open>\<open>xpresent_frame\<close> and \<open>xpresent_destroy\<close> are linked\<close>
  pp_root_x :: int
  pp_root_y :: int
  pp_root_w :: int
  pp_root_h :: int
  pp_root_valid :: bool
  pp_freed :: bool \<comment> \<open>freed while still in the list\<close>

record subpresent =
  sp_parent :: wid
  sp_surface :: nat
  sp_xpresent :: "present_window option"
  sp_root_x :: int
  sp_root_y :: int
  sp_root_w :: int
  sp_root_h :: int
  sp_root_valid :: bool
  sp_sx :: int
  sp_sy :: int

section \<open>The shared state\<close>

record desk =
  ds_windows :: "wlx_window list"
  ds_popups :: "popup list"
  ds_subs :: "subpresent list"
  ds_surfaces :: "nat \<rightharpoonup> xdg_surface"
  ds_seat :: seat
  ds_focused :: "wid option"
  ds_grabbed :: bool
  ds_grab_pending :: bool
  ds_log :: "pw_call list"

text \<open>What the handlers learn from outside: the replies of the X server, what the allocators give
  and what the scene graph says lies under a layout position.\<close>

record desk_env =
  de_env :: wlx_env
  de_pw :: pw_env
  de_client :: "nat \<Rightarrow> nat"
  de_seat_client :: "nat \<Rightarrow> bool"
  de_serial :: "32 word"
  de_fixed :: "rat \<Rightarrow> int" \<comment> \<open>\<open>wl_fixed_from_double\<close>\<close>
  de_grab_status :: "nat option"
  de_client_pixmap :: "nat \<Rightarrow> bool" \<comment> \<open>the surface's buffer can be presented as it is\<close>
  de_format_ok :: bool
  de_pass_ok :: bool
  de_submit_ok :: bool
  de_calloc_ok :: bool
  de_new_ptr :: nat
  de_new_scene :: "scene_node option"
  de_scene_at :: "rat \<Rightarrow> rat \<Rightarrow> (nat \<times> rat \<times> rat) option"
  de_toplevel_surface :: "wid \<Rightarrow> nat"
  de_scene_origin :: "nat \<Rightarrow> int \<times> int" \<comment> \<open>\<open>wlr_scene_node_coords\<close>\<close>
  de_root_size :: "(int \<times> int) option"
  de_workarea :: "(int \<times> int \<times> int \<times> int) option"

definition desk_say :: "pw_call list \<Rightarrow> desk \<Rightarrow> desk" where
  "desk_say cs ds = ds\<lparr>ds_log := ds_log ds @ cs\<rparr>"

definition find_win :: "desk \<Rightarrow> wid option \<Rightarrow> wlx_window option" where
  "find_win ds w = (case w of None \<Rightarrow> None | Some i \<Rightarrow> List.find (\<lambda>x. w_id x = i) (ds_windows ds))"

definition upd_win :: "wid \<Rightarrow> (wlx_window \<Rightarrow> wlx_window) \<Rightarrow> desk \<Rightarrow> desk" where
  "upd_win i f ds = ds\<lparr>ds_windows := map (\<lambda>x. if w_id x = i then f x else x) (ds_windows ds)\<rparr>"

definition find_popup :: "desk \<Rightarrow> nat \<Rightarrow> popup option" where
  "find_popup ds i = List.find (\<lambda>p. pp_id p = i) (ds_popups ds)"

definition upd_popup :: "nat \<Rightarrow> (popup \<Rightarrow> popup) \<Rightarrow> desk \<Rightarrow> desk" where
  "upd_popup i f ds = ds\<lparr>ds_popups := map (\<lambda>p. if pp_id p = i then f p else p) (ds_popups ds)\<rparr>"

text \<open>\<open>xdg_popup->base->surface->mapped\<close>.\<close>

definition surf_mapped :: "desk \<Rightarrow> nat \<Rightarrow> bool" where
  "surf_mapped ds f = (case ds_surfaces ds f of None \<Rightarrow> False | Some x \<Rightarrow> xs_mapped x)"

definition seat_env_of :: "desk_env \<Rightarrow> desk \<Rightarrow> seat_env" where
  "seat_env_of env ds = \<lparr>se_client = de_client env, se_seat_client = de_seat_client env,
     se_mapped = surf_mapped ds, se_serial = de_serial env, se_fixed = de_fixed env\<rparr>"

definition upd_seat :: "(seat \<Rightarrow> seat) \<Rightarrow> desk \<Rightarrow> desk" where
  "upd_seat f ds = ds\<lparr>ds_seat := f (ds_seat ds)\<rparr>"

section \<open>Boxes in root coordinates\<close>

text \<open>The test of the hit tests: the left and top edges belong to the box.\<close>

definition in_box :: "int \<times> int \<Rightarrow> int \<times> int \<times> int \<times> int \<Rightarrow> bool" where
  "in_box pt bx =
     (case (pt, bx) of ((px, py), (x, y, w, h)) \<Rightarrow> px \<ge> x \<and> py \<ge> y \<and> px < x + w \<and> py < y + h)"

definition pp_box :: "popup \<Rightarrow> int \<times> int \<times> int \<times> int" where
  "pp_box p = (pp_root_x p, pp_root_y p, pp_root_w p, pp_root_h p)"

definition sp_box :: "subpresent \<Rightarrow> int \<times> int \<times> int \<times> int" where
  "sp_box s = (sp_root_x s, sp_root_y s, sp_root_w s, sp_root_h s)"

text \<open>With server-side decorations the content window starts at the window geometry, surface
  offsets are relative to the surface: the offset of a child is reduced by the geometry's.\<close>

definition ssd_origin :: "wlx_config \<Rightarrow> wlx_window \<Rightarrow> (int \<times> int) option" where
  "ssd_origin cfg win =
     (if \<not> prefer_csd cfg \<and> box_set (tl_geometry (toplevel win))
      then Some (box_x (tl_geometry (toplevel win)), box_y (tl_geometry (toplevel win))) else None)"

definition popup_update_root_box :: "wlx_config \<Rightarrow> wlx_env \<Rightarrow> desk \<Rightarrow> popup \<Rightarrow> popup" where
  "popup_update_root_box cfg env ds pop =
     (case pp_xpresent pop of
        Some win \<Rightarrow>
          pop\<lparr>pp_root_x := pw_x win, pp_root_y := pw_y win, pp_root_w := pw_width win,
             pp_root_h := pw_height win, pp_root_valid := 0 < pw_width win \<and> 0 < pw_height win\<rparr>
      | None \<Rightarrow>
          (case (find_win ds (pp_parent pop), ds_surfaces ds (pp_surface pop)) of
             (Some parent, Some xs) \<Rightarrow>
               (case window_content_root_position cfg env parent of
                  None \<Rightarrow> pop\<lparr>pp_root_valid := False\<rparr>
                | Some (ox, oy) \<Rightarrow>
                    let geo = (if box_set (xs_cur_geo xs) then xs_cur_geo xs else xs_sched_geo xs);
                        gw = wlx_scale_size cfg (if 0 < box_width geo then box_width geo else xs_width xs);
                        gh = wlx_scale_size cfg (if 0 < box_height geo then box_height geo else xs_height xs);
                        (dx, dy) = (case ssd_origin cfg parent of None \<Rightarrow> (0, 0) | Some p \<Rightarrow> p);
                        gx = wlx_scale_size cfg (box_x geo - dx);
                        gy = wlx_scale_size cfg (box_y geo - dy)
                    in if gw \<le> 0 \<or> gh \<le> 0 then pop\<lparr>pp_root_valid := False\<rparr>
                       else pop\<lparr>pp_root_x := c_int16 (ox + gx), pp_root_y := c_int16 (oy + gy),
                              pp_root_w := gw, pp_root_h := gh, pp_root_valid := True\<rparr>)
           | _ \<Rightarrow> pop\<lparr>pp_root_valid := False\<rparr>))"

section \<open>Hit tests\<close>

text \<open>A popup as the walk leaves it: its box is refreshed where it was not valid.\<close>

definition fresh_popup :: "wlx_config \<Rightarrow> wlx_env \<Rightarrow> desk \<Rightarrow> popup \<Rightarrow> popup" where
  "fresh_popup cfg env ds pop =
     (if surf_mapped ds (pp_surface pop) \<and> \<not> pp_root_valid pop
      then popup_update_root_box cfg env ds pop else pop)"

definition popup_ready :: "desk \<Rightarrow> popup \<Rightarrow> bool" where
  "popup_ready ds pop \<longleftrightarrow> surf_mapped ds (pp_surface pop) \<and> pp_root_valid pop"

text \<open>The popup found and the list with the boxes refreshed on the way.\<close>

fun scan_popups :: "wlx_config \<Rightarrow> wlx_env \<Rightarrow> desk \<Rightarrow> int \<times> int \<Rightarrow> popup list \<Rightarrow> popup option \<times> popup list" where
  "scan_popups cfg env ds pt [] = (None, [])"
| "scan_popups cfg env ds pt (pop # pops) =
     (let pop1 = fresh_popup cfg env ds pop
      in if popup_ready ds pop1 \<and> in_box pt (pp_box pop1) then (Some pop1, pop1 # pops)
         else case scan_popups cfg env ds pt pops of (r, rest) \<Rightarrow> (r, pop1 # rest))"

definition popup_at_root_pointer :: "wlx_config \<Rightarrow> wlx_env \<Rightarrow> desk \<Rightarrow> popup option \<times> desk" where
  "popup_at_root_pointer cfg env ds =
     (if \<not> have_xcb cfg then (None, ds)
      else case query_root_pointer_position cfg env of
          None \<Rightarrow> (None, ds)
        | Some pt \<Rightarrow> (case scan_popups cfg env ds pt (ds_popups ds) of
            (r, pops) \<Rightarrow> (r, ds\<lparr>ds_popups := pops\<rparr>)))"

definition sub_ready :: "subpresent \<Rightarrow> bool" where
  "sub_ready sp \<longleftrightarrow> sp_root_valid sp \<and> wlr_x11_present_window_is_mapped (sp_xpresent sp)"

fun scan_subs :: "int \<times> int \<Rightarrow> subpresent list \<Rightarrow> subpresent option" where
  "scan_subs pt [] = None"
| "scan_subs pt (sp # sps) = (if sub_ready sp \<and> in_box pt (sp_box sp) then Some sp else scan_subs pt sps)"

definition subpresent_at_root_pointer :: "wlx_config \<Rightarrow> wlx_env \<Rightarrow> desk \<Rightarrow> subpresent option" where
  "subpresent_at_root_pointer cfg env ds =
     (case query_root_pointer_position cfg env of
        None \<Rightarrow> None
      | Some pt \<Rightarrow> scan_subs pt (ds_subs ds))"

text \<open>The surface with the surface coordinates of the pointer.\<close>

definition subpresent_surface_at :: "wlx_config \<Rightarrow> wlx_env \<Rightarrow> subpresent \<Rightarrow> (nat \<times> rat \<times> rat) option" where
  "subpresent_surface_at cfg env sp =
     (if \<not> sp_root_valid sp then None
      else case query_root_pointer_position cfg env of
          None \<Rightarrow> None
        | Some (px, py) \<Rightarrow>
            Some (sp_surface sp,
              wlx_pointer_to_surface cfg (of_int (px - sp_root_x sp), of_int (py - sp_root_y sp))))"

definition window_has_mapped_popup :: "desk \<Rightarrow> wid option \<Rightarrow> bool" where
  "window_has_mapped_popup ds win =
     (win \<noteq> None \<and> list_ex (\<lambda>p. pp_parent p = win \<and> surf_mapped ds (pp_surface p)) (ds_popups ds))"

section \<open>The contract of a hit test\<close>

text \<open>
  Both hit tests walk a list with its newest element first and take the first element that is
  ready and whose box contains the pointer.
\<close>

locale newest_hit =
  fixes scan :: "int \<times> int \<Rightarrow> 'a list \<Rightarrow> 'a option"
    and fresh :: "'a \<Rightarrow> 'a"
    and ready :: "'a \<Rightarrow> bool"
    and box_of :: "'a \<Rightarrow> int \<times> int \<times> int \<times> int"
  assumes scan_Nil: "scan pt [] = None"
    and scan_Cons: "scan pt (x # xs) =
      (if ready (fresh x) \<and> in_box pt (box_of (fresh x)) then Some (fresh x) else scan pt xs)"
begin

definition takes :: "int \<times> int \<Rightarrow> 'a \<Rightarrow> bool" where
  "takes pt x \<longleftrightarrow> ready (fresh x) \<and> in_box pt (box_of (fresh x))"

lemma scan_find: "scan pt xs = map_option fresh (List.find (takes pt) xs)"
  by (induction xs) (auto simp: scan_Nil scan_Cons takes_def)

lemma scan_Some:
  "scan pt xs = Some y \<longleftrightarrow>
    (\<exists>newer x older. xs = newer @ x # older \<and> y = fresh x \<and> takes pt x \<and> list_all (\<lambda>z. \<not> takes pt z) newer)"
proof (induction xs)
  case (Cons x xs)
  show ?case
  proof (cases "takes pt x")
    case True
    then have s: "scan pt (x # xs) = Some (fresh x)" by (simp add: scan_Cons takes_def)
    show ?thesis
    proof
      assume "scan pt (x # xs) = Some y"
      with s True show "\<exists>newer x' older. x # xs = newer @ x' # older \<and> y = fresh x' \<and> takes pt x'
          \<and> list_all (\<lambda>z. \<not> takes pt z) newer"
        by (intro exI[of _ "[]"] exI[of _ x] exI[of _ xs]) simp
    next
      assume "\<exists>newer x' older. x # xs = newer @ x' # older \<and> y = fresh x' \<and> takes pt x'
          \<and> list_all (\<lambda>z. \<not> takes pt z) newer"
      with s True show "scan pt (x # xs) = Some y" by (auto simp: Cons_eq_append_conv)
    qed
  next
    case False
    then have s: "scan pt (x # xs) = scan pt xs" by (auto simp: scan_Cons takes_def)
    show ?thesis unfolding s Cons.IH
    proof
      assume "\<exists>newer x' older. xs = newer @ x' # older \<and> y = fresh x' \<and> takes pt x'
          \<and> list_all (\<lambda>z. \<not> takes pt z) newer"
      then obtain newer x' older where "xs = newer @ x' # older" "y = fresh x'" "takes pt x'"
        "list_all (\<lambda>z. \<not> takes pt z) newer" by blast
      with False show "\<exists>newer x' older. x # xs = newer @ x' # older \<and> y = fresh x' \<and> takes pt x'
          \<and> list_all (\<lambda>z. \<not> takes pt z) newer"
        by (intro exI[of _ "x # newer"] exI[of _ x'] exI[of _ older]) simp
    next
      assume "\<exists>newer x' older. x # xs = newer @ x' # older \<and> y = fresh x' \<and> takes pt x'
          \<and> list_all (\<lambda>z. \<not> takes pt z) newer"
      then obtain newer x' older where n: "x # xs = newer @ x' # older" "y = fresh x'" "takes pt x'"
        "list_all (\<lambda>z. \<not> takes pt z) newer" by blast
      with False obtain ns where "newer = x # ns" by (cases newer) auto
      with n show "\<exists>newer x' older. xs = newer @ x' # older \<and> y = fresh x' \<and> takes pt x'
          \<and> list_all (\<lambda>z. \<not> takes pt z) newer"
        by (intro exI[of _ ns] exI[of _ x'] exI[of _ older]) simp
    qed
  qed
qed (simp add: scan_Nil)

lemma scan_None: "scan pt xs = None \<longleftrightarrow> list_all (\<lambda>z. \<not> takes pt z) xs"
  by (induction xs) (auto simp: scan_Nil scan_Cons takes_def)

end

interpretation popup_hit: newest_hit "\<lambda>pt pops. fst (scan_popups cfg env ds pt pops)"
    "fresh_popup cfg env ds" "popup_ready ds" pp_box
  for cfg env ds
  by unfold_locales (simp_all add: Let_def split: prod.split)

interpretation sub_hit: newest_hit scan_subs "\<lambda>sp. sp" sub_ready sp_box
  by unfold_locales simp_all

lemma update_root_box_fields [simp]:
  "pp_id (popup_update_root_box cfg env ds p) = pp_id p"
  "pp_parent (popup_update_root_box cfg env ds p) = pp_parent p"
  "pp_surface (popup_update_root_box cfg env ds p) = pp_surface p"
  "pp_xpresent (popup_update_root_box cfg env ds p) = pp_xpresent p"
  "pp_scene (popup_update_root_box cfg env ds p) = pp_scene p"
  by (simp_all add: popup_update_root_box_def Let_def split: option.split prod.split)

lemma fresh_popup_fields [simp]:
  "pp_id (fresh_popup cfg env ds p) = pp_id p"
  "pp_parent (fresh_popup cfg env ds p) = pp_parent p"
  "pp_surface (fresh_popup cfg env ds p) = pp_surface p"
  "pp_xpresent (fresh_popup cfg env ds p) = pp_xpresent p"
  "pp_scene (fresh_popup cfg env ds p) = pp_scene p"
  by (simp_all add: fresh_popup_def)

text \<open>A hit test changes nothing of a popup but its cached box.\<close>

lemma scan_popups_map:
  "(\<And>p. f (fresh_popup cfg env ds p) = f p) \<Longrightarrow> map f (snd (scan_popups cfg env ds pt pops)) = map f pops"
  by (induction pops) (auto simp: Let_def split: prod.split)

lemma hit_popups:
  "(\<And>p. f (fresh_popup cfg env ds p) = f p) \<Longrightarrow>
    map f (ds_popups (snd (popup_at_root_pointer cfg env ds))) = map f (ds_popups ds)"
  using scan_popups_map[of f cfg env ds]
  by (simp add: popup_at_root_pointer_def split: option.split prod.split) (metis snd_conv)

lemma hit_fields [simp]:
  "ds_seat (snd (popup_at_root_pointer cfg env ds)) = ds_seat ds"
  "ds_windows (snd (popup_at_root_pointer cfg env ds)) = ds_windows ds"
  "ds_subs (snd (popup_at_root_pointer cfg env ds)) = ds_subs ds"
  "ds_surfaces (snd (popup_at_root_pointer cfg env ds)) = ds_surfaces ds"
  "ds_focused (snd (popup_at_root_pointer cfg env ds)) = ds_focused ds"
  "ds_grabbed (snd (popup_at_root_pointer cfg env ds)) = ds_grabbed ds"
  "ds_grab_pending (snd (popup_at_root_pointer cfg env ds)) = ds_grab_pending ds"
  "ds_log (snd (popup_at_root_pointer cfg env ds)) = ds_log ds"
  by (simp_all add: popup_at_root_pointer_def split: option.split prod.split)

end
