(* ===== verification/Pointer_Focus.thy ===== *)
theory Pointer_Focus
  imports Desk Drag Dnd
begin

text \<open>
  Which surface has the pointer and which window is active (\<open>src/input.c\<close>, lines 36 to 185 and
  289 to 421; \<open>set_active_window\<close>, \<open>src/x11.c\<close>): the surface under the real root pointer, the
  motion handler and the focus refresh around presses and releases. The walk from an X window to
  its toplevel may not return, so the results are options.
\<close>

section \<open>The active window\<close>

definition set_active_window :: "desk_env \<Rightarrow> wid option \<Rightarrow> desk \<Rightarrow> desk" where
  "set_active_window env win ds =
     (if ds_focused ds = win then ds
      else
        let ds1 = (case find_win ds (ds_focused ds) of
              None \<Rightarrow> ds | Some old \<Rightarrow> upd_win (w_id old) (emit (SetActivated (w_id old) False)) ds);
            ds2 = ds1\<lparr>ds_focused := win\<rparr>
        in case find_win ds2 win of
            Some w \<Rightarrow> upd_seat (seat_say [SeatKeyboardEnter (de_toplevel_surface env (w_id w))])
                        (upd_win (w_id w) (emit (SetActivated (w_id w) True)) ds2)
          | None \<Rightarrow> upd_seat (seat_say [SeatKeyboardClear]) ds2)"

section \<open>The surface under the pointer\<close>

text \<open>Surface, surface coordinates, toplevel and popup.\<close>

type_synonym hit = "nat \<times> rat \<times> rat \<times> wid option \<times> nat option"

text \<open>A subsurface of the scene under the pointer goes before the surface itself.\<close>

definition refine_by_scene ::
  "desk_env \<Rightarrow> scene_node option \<Rightarrow> rat \<times> rat \<Rightarrow> nat \<times> rat \<times> rat \<Rightarrow> nat \<times> rat \<times> rat" where
  "refine_by_scene env tree pix r =
     (case tree of
        None \<Rightarrow> r
      | Some n \<Rightarrow>
          (case de_scene_origin env (node_id n) of (ox, oy) \<Rightarrow>
             (case de_scene_at env (of_int ox + fst pix) (of_int oy + snd pix) of
                None \<Rightarrow> r | Some h \<Rightarrow> h)))"

definition hit_popup :: "wlx_config \<Rightarrow> desk_env \<Rightarrow> int \<times> int \<Rightarrow> popup \<Rightarrow> hit" where
  "hit_popup cfg env pt pop =
     (let pix = (of_int (fst pt - pp_root_x pop), of_int (snd pt - pp_root_y pop));
          (sx, sy) = wlx_pointer_to_surface cfg pix;
          (f, x, y) = refine_by_scene env (pp_scene pop) pix (pp_surface pop, sx, sy)
      in (f, x, y, pp_parent pop, Some (pp_id pop)))"

definition surface_offset :: "wlx_config \<Rightarrow> wlx_window \<Rightarrow> rat \<times> rat \<Rightarrow> rat \<times> rat" where
  "surface_offset cfg win p =
     (case ssd_origin cfg win of
        None \<Rightarrow> p
      | Some (gx, gy) \<Rightarrow> (fl64 (fst p + of_int gx), fl64 (snd p + of_int gy)))"

definition hit_toplevel ::
  "wlx_config \<Rightarrow> desk_env \<Rightarrow> wlx_window \<Rightarrow> hit option" where
  "hit_toplevel cfg env win =
     (case pointer_coords_on_window cfg (de_env env) win of
        None \<Rightarrow> None
      | Some (px, py) \<Rightarrow>
          let pix = (of_int px, of_int py);
              (sx, sy) = surface_offset cfg win (wlx_pointer_to_surface cfg pix);
              (f, x, y) = refine_by_scene env (scene_tree win) pix
                            (de_toplevel_surface env (w_id win), sx, sy)
          in Some (f, x, y, Some (w_id win), None))"

definition hit_below_popups :: "wlx_config \<Rightarrow> desk_env \<Rightarrow> desk \<Rightarrow> hit option option" where
  "hit_below_popups cfg env ds =
     (case Option.bind (subpresent_at_root_pointer cfg (de_env env) ds)
             (\<lambda>sp. map_option (\<lambda>(f, x, y). (f, x, y, Some (sp_parent sp), None))
                     (subpresent_surface_at cfg (de_env env) sp)) of
        Some h \<Rightarrow> Some (Some h)
      | None \<Rightarrow> map_option (\<lambda>r. Option.bind r (hit_toplevel cfg env))
                  (window_at_root_pointer cfg (de_env env) (ds_windows ds)))"

definition surface_under_root_pointer ::
  "wlx_config \<Rightarrow> desk_env \<Rightarrow> desk \<Rightarrow> (hit option \<times> desk) option" where
  "surface_under_root_pointer cfg env ds =
     (case query_root_pointer_position cfg (de_env env) of
        None \<Rightarrow> Some (None, ds)
      | Some pt \<Rightarrow>
          (case popup_at_root_pointer cfg (de_env env) ds of
             (Some pop, ds1) \<Rightarrow> Some (Some (hit_popup cfg env pt pop), ds1)
           | (None, ds1) \<Rightarrow> map_option (\<lambda>h. (h, ds1)) (hit_below_popups cfg env ds1)))"

section \<open>Entering and moving\<close>

definition pointer_enter_surface_under_cursor ::
  "wlx_config \<Rightarrow> desk_env \<Rightarrow> desk \<Rightarrow> desk option" where
  "pointer_enter_surface_under_cursor cfg env ds =
     (case surface_under_root_pointer cfg env ds of
        None \<Rightarrow> None
      | Some (None, ds1) \<Rightarrow>
          Some (if pt_focus (ds_seat ds1) \<noteq> None
                then upd_seat (wlr_seat_pointer_clear_focus (seat_env_of env ds1)) ds1 else ds1)
      | Some (Some (f, sx, sy, win, pop), ds1) \<Rightarrow>
          let ds2 = (if win \<noteq> None then set_active_window env win ds1 else ds1);
              prev = pt_focus (ds_seat ds2)
          in if 0 < button_count (ds_seat ds2) \<and> prev \<noteq> None \<and> prev \<noteq> Some f then Some ds2
             else Some (upd_seat (wlr_seat_pointer_notify_enter (seat_env_of env ds2) f sx sy) ds2))"

definition wlx_pointer_refresh_focus :: "wlx_config \<Rightarrow> desk_env \<Rightarrow> desk \<Rightarrow> desk option" where
  "wlx_pointer_refresh_focus cfg env ds = pointer_enter_surface_under_cursor cfg env ds"

text \<open>The focus part of \<open>process_cursor_motion\<close>.\<close>

definition motion_focus :: "wlx_config \<Rightarrow> desk_env \<Rightarrow> desk \<Rightarrow> desk option" where
  "motion_focus cfg env ds =
     (case surface_under_root_pointer cfg env ds of
        None \<Rightarrow> None
      | Some (h, ds1) \<Rightarrow>
          let seat = ds_seat ds1; prev = pt_focus seat; se = seat_env_of env ds1;
              surface = map_option fst h;
              (sx, sy) = (case h of None \<Rightarrow> (0, 0) | Some (f, x, y, _) \<Rightarrow> (x, y))
          in Some (upd_seat (\<lambda>s.
               if surface = prev then
                 (if surface \<noteq> None then wlr_seat_pointer_notify_motion se sx sy s else s)
               else if 0 < button_count s then
                 (if prev \<noteq> None then wlr_seat_pointer_notify_motion se sx sy s else s)
               else case surface of
                   None \<Rightarrow> wlr_seat_pointer_clear_focus se s
                 | Some f \<Rightarrow> wlr_seat_pointer_notify_motion se sx sy
                              (wlr_seat_pointer_notify_enter se f sx sy s)) ds1))"

record input_state =
  in_desk :: desk
  in_drag :: drag_state
  in_dnd :: dnd_state

definition wins_of :: "desk \<Rightarrow> wid \<rightharpoonup> wlx_window" where
  "wins_of ds i = find_win ds (Some i)"

definition process_cursor_motion ::
  "wlx_config \<Rightarrow> dnd_cfg \<Rightarrow> desk_env \<Rightarrow> dnd_env \<Rightarrow> timespec \<Rightarrow> input_state \<Rightarrow> input_state option" where
  "process_cursor_motion cfg dc env denv now st =
     (if move_win (in_drag st) \<noteq> None \<or> resize_win (in_drag st) \<noteq> None then
        Some (st\<lparr>in_drag := update_interactive_drag cfg (wins_of (in_desk st)) now (de_env env) (in_drag st)\<rparr>)
      else
        case (if dnd_out_active (in_dnd st)
              then dnd_out_update_position cfg dc denv (ds_windows (in_desk st)) (in_dnd st)
              else Some (in_dnd st)) of
          None \<Rightarrow> None
        | Some d1 \<Rightarrow> map_option (\<lambda>ds1. st\<lparr>in_dnd := d1, in_desk := ds1\<rparr>)
                       (motion_focus cfg env (in_desk st)))"

end
