(* ===== verification/Popups.thy ===== *)
theory Popups
  imports Pointer_Focus
begin

text \<open>
  Menus (\<open>src/xdg.c\<close>, lines 555 to 1506): an \<open>xdg_popup\<close> gets a window of its own in root
  coordinates, follows its parent, and holds the pointer grab of the X server while it is open.
  A popup is named by its number; the handlers that refresh the focus may not return, since the
  walk up the X window tree may not.
\<close>

section \<open>Finding the toplevel\<close>

text \<open>
  \<open>wlr_xdg_surface_try_from_wlr_surface\<close> reads through its argument: on a NULL parent the program
  crashes. The loop follows parents as long as they are popups.
\<close>

datatype find_result = NullDeref | NoToplevel | FoundToplevel wid

partial_function (option) find_toplevel_from :: "(nat \<rightharpoonup> xdg_surface) \<Rightarrow> nat option \<Rightarrow> find_result option" where
  "find_toplevel_from surfs parent =
     (case parent of
        None \<Rightarrow> Some NullDeref
      | Some f \<Rightarrow> (case surfs f of
            None \<Rightarrow> Some NoToplevel
          | Some xs \<Rightarrow>
              (case (xs_role xs, xs_data xs) of
                 (RoleToplevel, Some win) \<Rightarrow> Some (FoundToplevel win)
               | _ \<Rightarrow>
                   if xs_role xs = RolePopup \<and> xs_popup xs
                   then find_toplevel_from surfs (xs_parent xs) else Some NoToplevel)))"

definition popup_find_toplevel_window :: "desk \<Rightarrow> nat \<Rightarrow> find_result option" where
  "popup_find_toplevel_window ds f =
     (case ds_surfaces ds f of
        None \<Rightarrow> Some NullDeref
      | Some xs \<Rightarrow> find_toplevel_from (ds_surfaces ds) (xs_parent xs))"

section \<open>The window of a popup\<close>

definition popup_destroy_xpresent :: "popup \<Rightarrow> popup \<times> pw_call list" where
  "popup_destroy_xpresent pop =
     (pop\<lparr>pp_listening := False, pp_xpresent := None, pp_root_valid := False\<rparr>,
      case pp_xpresent pop of None \<Rightarrow> [] | Some w \<Rightarrow> wlr_x11_present_window_destroy w)"

text \<open>The backend destroyed the window.\<close>

definition popup_handle_xpresent_destroy :: "popup \<Rightarrow> popup" where
  "popup_handle_xpresent_destroy pop =
     pop\<lparr>pp_listening := False, pp_xpresent := None, pp_root_valid := False\<rparr>"

definition popup_attach_xpresent_listeners :: "popup \<Rightarrow> popup" where
  "popup_attach_xpresent_listeners pop =
     (if pp_xpresent pop = None then pop else pop\<lparr>pp_listening := True\<rparr>)"

text \<open>Changing the window of a popup, with the requests it takes.\<close>

definition on_xpresent ::
  "(present_window \<Rightarrow> present_window \<times> pw_call list) \<Rightarrow> popup \<Rightarrow> popup \<times> pw_call list" where
  "on_xpresent f pop =
     (case pp_xpresent pop of
        None \<Rightarrow> (pop, [])
      | Some w \<Rightarrow> (case f w of (w1, cs) \<Rightarrow> (pop\<lparr>pp_xpresent := Some w1\<rparr>, cs)))"

definition scale_is_1 :: "wlx_config \<Rightarrow> bool" where
  "scale_is_1 cfg \<longleftrightarrow> content_scale cfg \<le> 0 \<or> content_scale cfg = 1"

text \<open>Presenting a buffer on a popup's window: whether it was presented.\<close>

definition popup_present :: "bool \<Rightarrow> int \<Rightarrow> int \<Rightarrow> popup \<Rightarrow> bool \<times> popup \<times> pw_call list" where
  "popup_present has_pixmap w h pop =
     (case pp_xpresent pop of
        None \<Rightarrow> (False, pop, [])
      | Some win \<Rightarrow> (case wlr_x11_present_window_present has_pixmap w h win of
            (ok, win1, cs) \<Rightarrow> (ok, pop\<lparr>pp_xpresent := Some win1\<rparr>, cs)))"

text \<open>At scale 1 the window takes the size of a client buffer that differs.\<close>

definition fit_xpresent :: "wlx_config \<Rightarrow> (int \<times> int) option \<Rightarrow> popup \<Rightarrow> popup \<times> pw_call list" where
  "fit_xpresent cfg buf pop =
     (case (pp_xpresent pop, buf) of
        (Some win, Some (bw, bh)) \<Rightarrow>
          if scale_is_1 cfg \<and> 0 < bw \<and> 0 < bh \<and> (bw \<noteq> pw_width win \<or> bh \<noteq> pw_height win) then
            (case on_xpresent (wlr_x11_present_window_configure (pw_x win) (pw_y win) bw bh) pop of
               (pop1, cs) \<Rightarrow> (pop1\<lparr>pp_root_w := bw, pp_root_h := bh\<rparr>, cs))
          else (pop, [])
      | _ \<Rightarrow> (pop, []))"

text \<open>The composited picture: a buffer of the window's size.\<close>

definition composite_present :: "desk_env \<Rightarrow> popup \<Rightarrow> bool \<times> popup \<times> pw_call list" where
  "composite_present env pop =
     (case pp_xpresent pop of
        None \<Rightarrow> (False, pop, [])
      | Some win \<Rightarrow>
          if \<not> de_format_ok env \<or> \<not> alloc_ok (de_env env) (pw_width win) (pw_height win)
             \<or> \<not> de_pass_ok env \<or> \<not> de_submit_ok env then (False, pop, [])
          else popup_present (import_ok (de_env env) (pw_width win) (pw_height win))
                 (pw_width win) (pw_height win) pop)"

definition popup_render_and_present ::
  "wlx_config \<Rightarrow> desk_env \<Rightarrow> desk \<Rightarrow> popup \<Rightarrow> bool \<times> popup \<times> pw_call list" where
  "popup_render_and_present cfg env ds pop =
     (case (pp_xpresent pop, pp_scene pop) of
        (Some win, Some _) \<Rightarrow>
          if pw_width win < 1 \<or> pw_height win < 1 then (False, pop, [])
          else
            let buf = Option.bind (ds_surfaces ds (pp_surface pop)) xs_buffer
            in case fit_xpresent cfg buf pop of
              (pop1, cs1) \<Rightarrow>
                (case (case buf of None \<Rightarrow> (False, pop1, [])
                       | Some (bw, bh) \<Rightarrow>
                           popup_present (de_client_pixmap env (pp_surface pop)) bw bh pop1) of
                   (True, pop2, cs2) \<Rightarrow> (True, pop2, cs1 @ cs2)
                 | (False, pop2, cs2) \<Rightarrow> (case composite_present env pop2 of
                       (ok, pop3, cs3) \<Rightarrow> (ok, pop3, cs1 @ cs2 @ cs3)))
      | _ \<Rightarrow> (False, pop, []))"

section \<open>The pointer grab\<close>

text \<open>Whether a menu wants the grab, and on which window.\<close>

fun grab_window :: "desk \<Rightarrow> popup list \<Rightarrow> bool \<times> xid \<Rightarrow> bool \<times> xid" where
  "grab_window ds [] r = r"
| "grab_window ds (pop # pops) r =
     (if pp_xpresent pop = None \<or> \<not> surf_mapped ds (pp_surface pop) then grab_window ds pops r
      else let w = wlr_x11_present_window_get_xcb (pp_xpresent pop)
           in if w \<noteq> XCB_WINDOW_NONE then (True, w) else grab_window ds pops (True, w))"

definition wlx_popup_update_pointer_grab :: "wlx_config \<Rightarrow> desk_env \<Rightarrow> desk \<Rightarrow> desk option" where
  "wlx_popup_update_pointer_grab cfg env ds =
     (if \<not> have_xcb cfg then Some ds
      else case grab_window ds (ds_popups ds) (False, XCB_WINDOW_NONE) of
        (want, w) \<Rightarrow>
          if \<not> want then
            Some ((if ds_grabbed ds then desk_say [PwUngrab] (ds\<lparr>ds_grabbed := False\<rparr>) else ds)
                    \<lparr>ds_grab_pending := False\<rparr>)
          else if ds_grabbed ds then Some ds
          else if 0 < button_count (ds_seat ds) then Some (ds\<lparr>ds_grab_pending := True\<rparr>)
          else if w = XCB_WINDOW_NONE then Some ds
          else if de_grab_status env = Some 0 then
            wlx_pointer_refresh_focus cfg env
              (desk_say [PwGrab w] (ds\<lparr>ds_grabbed := True, ds_grab_pending := False\<rparr>))
          else Some (ds\<lparr>ds_grab_pending := False\<rparr>))"

section \<open>Placement\<close>

definition WLX_POPUP_SCENE_PARK_X :: int where "WLX_POPUP_SCENE_PARK_X = - 100000"
definition WLX_POPUP_SCENE_PARK_Y :: int where "WLX_POPUP_SCENE_PARK_Y = - 100000"

text \<open>Offset to the parent surface: the current geometry, or the scheduled one while the
  current one is still at the origin.\<close>

definition popup_offset :: "xdg_surface \<Rightarrow> int \<times> int" where
  "popup_offset xs =
     (let lx = box_x (xs_cur_geo xs); ly = box_y (xs_cur_geo xs)
      in if lx = 0 \<and> ly = 0 \<and> (box_x (xs_sched_geo xs) \<noteq> 0 \<or> box_y (xs_sched_geo xs) \<noteq> 0)
         then (box_x (xs_sched_geo xs), box_y (xs_sched_geo xs)) else (lx, ly))"

definition popup_logical_size :: "xdg_surface \<Rightarrow> int \<times> int" where
  "popup_logical_size xs =
     (if 0 < xs_width xs then xs_width xs
      else if 0 < box_width (xs_cur_geo xs) then box_width (xs_cur_geo xs) else box_width (xs_sched_geo xs),
      if 0 < xs_height xs then xs_height xs
      else if 0 < box_height (xs_cur_geo xs) then box_height (xs_cur_geo xs) else box_height (xs_sched_geo xs))"

text \<open>The popup whose surface is the parent, if the parent is a popup the compositor knows.\<close>

definition parent_popup :: "desk \<Rightarrow> xdg_surface \<Rightarrow> nat option" where
  "parent_popup ds xs =
     (case Option.bind (xs_parent xs) (ds_surfaces ds) of
        Some p \<Rightarrow> if xs_role p = RolePopup then xs_data p else None
      | None \<Rightarrow> None)"

text \<open>Root position of the parent's origin, the offset within it, and the state with the parent
  popup's box refreshed.\<close>

definition placement_origin ::
  "wlx_config \<Rightarrow> wlx_env \<Rightarrow> desk \<Rightarrow> popup \<Rightarrow> xdg_surface \<Rightarrow> ((int \<times> int) \<times> (int \<times> int)) option \<times> desk" where
  "placement_origin cfg env ds pop xs =
     (case parent_popup ds xs of
        Some i \<Rightarrow>
          let ds1 = upd_popup i (\<lambda>p. if pp_root_valid p then p else popup_update_root_box cfg env ds p) ds
          in (case find_popup ds1 i of
                None \<Rightarrow> (None, ds1)
              | Some p \<Rightarrow> (if pp_root_valid p then Some ((pp_root_x p, pp_root_y p), popup_offset xs) else None, ds1))
      | None \<Rightarrow>
          (case find_win ds (pp_parent pop) of
             None \<Rightarrow> (None, ds)
           | Some parent \<Rightarrow>
               (case window_content_root_position cfg env parent of
                  None \<Rightarrow> (None, ds)
                | Some origin \<Rightarrow>
                    let (dx, dy) = (case ssd_origin cfg parent of None \<Rightarrow> (0, 0) | Some p \<Rightarrow> p)
                    in (Some (origin, (fst (popup_offset xs) - dx, snd (popup_offset xs) - dy)), ds))))"

definition popup_compute_root_placement ::
  "wlx_config \<Rightarrow> wlx_env \<Rightarrow> desk \<Rightarrow> popup \<Rightarrow> (int \<times> int \<times> int \<times> int) option \<times> desk" where
  "popup_compute_root_placement cfg env ds pop =
     (case ds_surfaces ds (pp_surface pop) of
        None \<Rightarrow> (None, ds)
      | Some xs \<Rightarrow>
          (case popup_logical_size xs of (lw, lh) \<Rightarrow>
             if lw \<le> 0 \<or> lh \<le> 0 then (None, ds)
             else case placement_origin cfg env ds pop xs of
                 (None, ds1) \<Rightarrow> (None, ds1)
               | (Some ((ox, oy), (lx, ly)), ds1) \<Rightarrow>
                   let gx = wlx_scale_size cfg lx; gy = wlx_scale_size cfg ly;
                       gw = wlx_scale_size cfg lw; gh = wlx_scale_size cfg lh
                   in (Some (c_int16 (ox + gx), c_int16 (oy + gy),
                             if 0 < gw then gw else 1, if 0 < gh then gh else 1), ds1)))"

text \<open>The popup's scene tree, parked off the layout with its children at its origin.\<close>

fun park_scene :: "scene_node \<Rightarrow> scene_node" where
  "park_scene (SceneTree i e x y cs) =
     SceneTree i True WLX_POPUP_SCENE_PARK_X WLX_POPUP_SCENE_PARK_Y
       (map (wlr_scene_node_set_position 0 0) cs)"
| "park_scene n = wlr_scene_node_set_position WLX_POPUP_SCENE_PARK_X WLX_POPUP_SCENE_PARK_Y n"

definition popup_roots :: "desk \<Rightarrow> nat list" where
  "popup_roots ds = List.map_filter (\<lambda>p. map_option node_id (pp_scene p)) (ds_popups ds)"

definition wlx_apply_popup_content_scale :: "wlx_config \<Rightarrow> desk \<Rightarrow> popup \<Rightarrow> popup" where
  "wlx_apply_popup_content_scale cfg ds pop =
     (if scale_is_1 cfg then pop
      else pop\<lparr>pp_scene := map_option (scene_node_apply_scale (popup_roots ds) (content_scale cfg) True) (pp_scene pop)\<rparr>)"

text \<open>Without a window of its own the popup goes into its parent's scene.\<close>

definition fallback_scene :: "wlx_config \<Rightarrow> xdg_surface \<Rightarrow> popup \<Rightarrow> popup" where
  "fallback_scene cfg xs pop =
     (let scale = (if 0 < content_scale cfg then content_scale cfg else 1)
      in pop\<lparr>pp_scene := map_option (wlr_scene_node_set_position
              (scale_px scale (box_x (xs_cur_geo xs))) (scale_px scale (box_y (xs_cur_geo xs)))) (pp_scene pop)\<rparr>)"

text \<open>The size of the window: the scaled buffer, or the placement's.\<close>

definition window_size_for :: "wlx_config \<Rightarrow> xdg_surface \<Rightarrow> int \<times> int \<Rightarrow> int \<times> int" where
  "window_size_for cfg xs sz =
     (case xs_buffer xs of
        Some (bw, bh) \<Rightarrow>
          if 0 < bw \<and> 0 < bh then (wlx_scale_size cfg bw, wlx_scale_size cfg bh) else sz
      | None \<Rightarrow> sz)"

text \<open>Configuring and mapping the window, recording its box.\<close>

definition show_xpresent :: "int \<times> int \<Rightarrow> int \<times> int \<Rightarrow> popup \<Rightarrow> popup \<times> pw_call list" where
  "show_xpresent pos sz pop =
     (case on_xpresent (wlr_x11_present_window_configure (fst pos) (snd pos) (fst sz) (snd sz)) pop of
        (pop1, cs1) \<Rightarrow> (case on_xpresent wlr_x11_present_window_map pop1 of
            (pop2, cs2) \<Rightarrow>
              (pop2\<lparr>pp_root_x := fst pos, pp_root_y := snd pos, pp_root_w := fst sz,
                    pp_root_h := snd sz, pp_root_valid := True\<rparr>, cs1 @ cs2)))"

text \<open>The window the popup has, or a new one; \<open>None\<close> where it cannot be created.\<close>

definition ensure_xpresent :: "desk_env \<Rightarrow> popup \<Rightarrow> (popup \<times> pw_call list) option" where
  "ensure_xpresent env pop =
     (if pp_xpresent pop \<noteq> None then Some (pop, [])
      else map_option (\<lambda>(w, cs). (popup_attach_xpresent_listeners (pop\<lparr>pp_xpresent := Some w\<rparr>), cs))
             (wlr_x11_present_window_create (de_pw env)))"

definition popup_position_and_map :: "wlx_config \<Rightarrow> desk_env \<Rightarrow> nat \<Rightarrow> desk \<Rightarrow> desk option" where
  "popup_position_and_map cfg env i ds =
     (case find_popup ds i of
        None \<Rightarrow> Some ds
      | Some pop0 \<Rightarrow>
          (case (find_win ds (pp_parent pop0), pp_scene pop0, ds_surfaces ds (pp_surface pop0)) of
             (Some parent, Some _, Some xs) \<Rightarrow>
               (case popup_compute_root_placement cfg (de_env env) ds pop0 of
                  (None, ds1) \<Rightarrow> Some ds1
                | (Some (rx, ry, rw, rh), ds1) \<Rightarrow>
                    (case find_popup ds1 i of
                       None \<Rightarrow> Some ds1
                     | Some pop1 \<Rightarrow>
                         let pop2 = wlx_apply_popup_content_scale cfg ds1
                                      (pop1\<lparr>pp_scene := map_option park_scene (pp_scene pop1)\<rparr>)
                         in (case ensure_xpresent env pop2 of
                               None \<Rightarrow>
                                 let pop3 = popup_update_root_box cfg (de_env env) ds1 (fallback_scene cfg xs pop2)
                                 in Some (upd_win (w_id parent)
                                            (\<lambda>w. if w_output w \<noteq> None then emit ScheduleFrame w else w)
                                            (upd_popup i (\<lambda>_. pop3) ds1))
                             | Some (pop3, cs3) \<Rightarrow>
                                 (case show_xpresent (rx, ry) (window_size_for cfg xs (rw, rh)) pop3 of
                                    (pop4, cs4) \<Rightarrow>
                                      (case popup_render_and_present cfg env ds1 pop4 of
                                         (ok, pop5, cs5) \<Rightarrow>
                                           wlx_popup_update_pointer_grab cfg env
                                             (desk_say (cs3 @ cs4 @ cs5) (upd_popup i (\<lambda>_. pop5) ds1)))))))
           | _ \<Rightarrow> Some ds))"

section \<open>Following the parent\<close>

definition reposition_popup :: "wlx_config \<Rightarrow> wlx_env \<Rightarrow> wid \<Rightarrow> nat \<Rightarrow> desk \<Rightarrow> desk" where
  "reposition_popup cfg env win i ds =
     (case find_popup ds i of
        None \<Rightarrow> ds
      | Some pop \<Rightarrow>
          if pp_parent pop \<noteq> Some win \<or> \<not> surf_mapped ds (pp_surface pop) then ds
          else case popup_compute_root_placement cfg env ds pop of
              (None, ds1) \<Rightarrow> ds1
            | (Some (rx, ry, rw, rh), ds1) \<Rightarrow>
                (case find_popup ds1 i of
                   None \<Rightarrow> ds1
                 | Some pop1 \<Rightarrow>
                     (case on_xpresent (wlr_x11_present_window_configure rx ry rw rh) pop1 of
                        (pop2, cs) \<Rightarrow>
                          desk_say cs (upd_popup i (\<lambda>_. pop2\<lparr>pp_root_x := rx, pp_root_y := ry,
                            pp_root_w := rw, pp_root_h := rh, pp_root_valid := True\<rparr>) ds1))))"

text \<open>Oldest first.\<close>

definition reposition_popups :: "wlx_config \<Rightarrow> wlx_env \<Rightarrow> wid \<Rightarrow> desk \<Rightarrow> desk" where
  "reposition_popups cfg env win ds = fold (reposition_popup cfg env win) (map pp_id (rev (ds_popups ds))) ds"

definition set_enabled :: "bool \<Rightarrow> scene_node \<Rightarrow> scene_node" where
  "set_enabled on n =
     (case n of SceneBuffer i e x y s w h \<Rightarrow> SceneBuffer i on x y s w h
              | SceneTree i e x y cs \<Rightarrow> SceneTree i on x y cs
              | SceneRect i e x y \<Rightarrow> SceneRect i on x y)"

definition hide_popup :: "nat \<Rightarrow> desk \<Rightarrow> desk" where
  "hide_popup i ds =
     (case find_popup ds i of
        None \<Rightarrow> ds
      | Some pop \<Rightarrow> (case popup_destroy_xpresent pop of
            (pop1, cs) \<Rightarrow>
              desk_say cs (upd_popup i (\<lambda>_. pop1\<lparr>pp_scene := map_option (set_enabled False) (pp_scene pop1)\<rparr>) ds)))"

definition destroy_present_windows_for_toplevel :: "wid \<Rightarrow> desk \<Rightarrow> desk" where
  "destroy_present_windows_for_toplevel win ds =
     fold hide_popup (map pp_id (filter (\<lambda>p. pp_parent p = Some win) (ds_popups ds))) ds"

section \<open>Handlers\<close>

definition popup_map :: "wlx_config \<Rightarrow> desk_env \<Rightarrow> nat \<Rightarrow> desk \<Rightarrow> desk option" where
  "popup_map cfg env i ds =
     Option.bind (popup_position_and_map cfg env i ds)
       (\<lambda>ds1. if button_count (ds_seat ds1) = 0 then wlx_pointer_refresh_focus cfg env ds1 else Some ds1)"

definition popup_unmap :: "wlx_config \<Rightarrow> desk_env \<Rightarrow> nat \<Rightarrow> desk \<Rightarrow> desk option" where
  "popup_unmap cfg env i ds =
     (case find_popup ds i of
        None \<Rightarrow> None
      | Some pop \<Rightarrow>
          let ds1 = (if pt_focus (ds_seat ds) = Some (pp_surface pop)
                     then upd_seat (wlr_seat_pointer_clear_focus (seat_env_of env ds)) ds else ds)
          in Option.bind (wlx_popup_update_pointer_grab cfg env (hide_popup i ds1))
               (wlx_pointer_refresh_focus cfg env))"

text \<open>The area menus may cover, in the coordinates of the parent surface. \<open>de_workarea\<close> is the
  value of \<open>_NET_WORKAREA\<close> where it can be read.\<close>

definition host_workarea :: "desk_env \<Rightarrow> int \<times> int \<Rightarrow> int \<times> int \<times> int \<times> int" where
  "host_workarea env rsz =
     (case de_workarea env of
        None \<Rightarrow> (0, 0, fst rsz, snd rsz)
      | Some (x, y, w, h) \<Rightarrow>
          (x, y, if w < 1 then fst rsz else w, if h < 1 then snd rsz else h))"

text \<open>Root position of the parent and whether it is a popup, with the state after its box was
  refreshed.\<close>

definition unconstrain_parent ::
  "wlx_config \<Rightarrow> wlx_env \<Rightarrow> desk \<Rightarrow> popup \<Rightarrow> xdg_surface \<Rightarrow> ((int \<times> int) \<times> bool) option \<times> desk" where
  "unconstrain_parent cfg env ds pop xs =
     (let by_window = map_option (\<lambda>p. (p, False))
            (Option.bind (find_win ds (pp_parent pop)) (window_content_root_position cfg env))
      in case parent_popup ds xs of
          None \<Rightarrow> (by_window, ds)
        | Some i \<Rightarrow>
            let ds1 = upd_popup i (\<lambda>p. if pp_root_valid p then p else popup_update_root_box cfg env ds p) ds
            in (case find_popup ds1 i of
                  None \<Rightarrow> (by_window, ds1)
                | Some p \<Rightarrow>
                    (if pp_root_valid p then Some ((pp_root_x p, pp_root_y p), True) else by_window, ds1)))"

definition popup_unconstrain_box ::
  "wlx_config \<Rightarrow> desk_env \<Rightarrow> desk \<Rightarrow> popup \<Rightarrow> xdg_surface \<Rightarrow> wlr_box \<times> desk" where
  "popup_unconstrain_box cfg env ds pop xs =
     (case (if have_xcb cfg then de_root_size env else None) of
        None \<Rightarrow> (\<lparr>box_x = - 2000, box_y = - 2000, box_width = 8000, box_height = 8000\<rparr>, ds)
      | Some rsz \<Rightarrow>
          if fst rsz < 1 \<or> snd rsz < 1
          then (\<lparr>box_x = - 2000, box_y = - 2000, box_width = 8000, box_height = 8000\<rparr>, ds)
          else
            (case host_workarea env rsz of (wa_x, wa_y, wa_w, wa_h) \<Rightarrow>
               let lw = wlx_unscale_size cfg wa_w; lh = wlx_unscale_size cfg wa_h;
                   bw = (if lw < 1 then 1 else lw); bh = (if lh < 1 then 1 else lh)
               in case unconstrain_parent cfg (de_env env) ds pop xs of
                   (None, ds1) \<Rightarrow> (\<lparr>box_x = 0, box_y = 0, box_width = bw, box_height = bh\<rparr>, ds1)
                 | (Some ((rx, ry), is_popup), ds1) \<Rightarrow>
                     let (dx, dy) = (if is_popup then (0, 0)
                           else case Option.bind (find_win ds1 (pp_parent pop)) (ssd_origin cfg) of
                             None \<Rightarrow> (0, 0) | Some g \<Rightarrow> g)
                     in (\<lparr>box_x = wlx_unscale_size cfg (wa_x - rx) + dx,
                          box_y = wlx_unscale_size cfg (wa_y - ry) + dy,
                          box_width = bw, box_height = bh\<rparr>, ds1)))"

text \<open>
  wlroots takes the box to be in the coordinates of the toplevel's surface: it adds up the geometries
  of the popup's parents and moves the box by them (\<open>types/xdg_shell/wlr_xdg_popup.c\<close>). A missing
  parent is a crash, a cycle of parents no return; both are \<open>None\<close>.
\<close>

partial_function (option) wlr_xdg_popup_get_toplevel_coords ::
  "(nat \<rightharpoonup> xdg_surface) \<Rightarrow> nat option \<Rightarrow> int \<times> int \<Rightarrow> (int \<times> int) option" where
  "wlr_xdg_popup_get_toplevel_coords surfs parent p =
     (case parent of
        None \<Rightarrow> None
      | Some f \<Rightarrow> (case surfs f of
            None \<Rightarrow> Some p
          | Some xs \<Rightarrow>
              if xs_role xs = RolePopup \<and> xs_popup xs
              then wlr_xdg_popup_get_toplevel_coords surfs (xs_parent xs)
                     (fst p + box_x (xs_cur_geo xs), snd p + box_y (xs_cur_geo xs))
              else Some (fst p + box_x (xs_geometry xs), snd p + box_y (xs_geometry xs))))"

definition wlr_xdg_popup_unconstrain_from_box ::
  "(nat \<rightharpoonup> xdg_surface) \<Rightarrow> wlr_box \<Rightarrow> xdg_surface \<Rightarrow> xdg_surface option" where
  "wlr_xdg_popup_unconstrain_from_box surfs b xs =
     map_option (\<lambda>(tx, ty).
         xs\<lparr>xs_sched_geo := wlr_xdg_positioner_rules_unconstrain_box (xs_rules xs)
              (b\<lparr>box_x := box_x b - tx, box_y := box_y b - ty\<rparr>) (xs_sched_geo xs)\<rparr>)
       (wlr_xdg_popup_get_toplevel_coords surfs (xs_parent xs) (0, 0))"

text \<open>The first commit hands the box to wlroots, which fits the popup's geometry into it; the
  later ones keep the window in step.\<close>

definition upd_surface :: "nat \<Rightarrow> (xdg_surface \<Rightarrow> xdg_surface) \<Rightarrow> desk \<Rightarrow> desk" where
  "upd_surface f g ds = ds\<lparr>ds_surfaces := (ds_surfaces ds)(f := map_option g (ds_surfaces ds f))\<rparr>"

definition popup_initial_commit :: "wlx_config \<Rightarrow> desk_env \<Rightarrow> popup \<Rightarrow> desk \<Rightarrow> desk option" where
  "popup_initial_commit cfg env pop ds =
     (case ds_surfaces ds (pp_surface pop) of
        None \<Rightarrow> Some ds
      | Some xs \<Rightarrow>
          if \<not> xs_initial_commit xs then Some ds
          else case popup_unconstrain_box cfg env ds pop xs of
              (b, ds1) \<Rightarrow>
                map_option (\<lambda>xs1. upd_surface (pp_surface pop) (\<lambda>x. x\<lparr>xs_sched_geo := xs_sched_geo xs1\<rparr>) ds1)
                  (wlr_xdg_popup_unconstrain_from_box (ds_surfaces ds1) b xs))"

definition popup_commit :: "wlx_config \<Rightarrow> desk_env \<Rightarrow> nat \<Rightarrow> desk \<Rightarrow> desk option" where
  "popup_commit cfg env i ds =
     (case find_popup ds i of
        None \<Rightarrow> Some ds
      | Some pop \<Rightarrow>
          Option.bind (popup_initial_commit cfg env pop ds)
            (\<lambda>ds1. if \<not> surf_mapped ds1 (pp_surface pop) then Some ds1
                   else popup_position_and_map cfg env i ds1))"

definition popup_destroy :: "wlx_config \<Rightarrow> desk_env \<Rightarrow> nat \<Rightarrow> desk \<Rightarrow> desk option" where
  "popup_destroy cfg env i ds =
     (case find_popup ds i of
        None \<Rightarrow> None
      | Some pop \<Rightarrow> (case popup_destroy_xpresent pop of
            (pop1, cs) \<Rightarrow>
              map_option (\<lambda>ds1. ds1\<lparr>ds_popups := filter (\<lambda>p. pp_id p \<noteq> i) (ds_popups ds1)\<rparr>)
                (wlx_popup_update_pointer_grab cfg env (desk_say cs (upd_popup i (\<lambda>_. pop1) ds)))))"

section \<open>New popups\<close>

text \<open>\<open>base->data\<close> is set and the popup listed before its scene tree exists; when that cannot be
  made the popup is freed where it is.\<close>

definition setup_popup :: "desk_env \<Rightarrow> nat \<Rightarrow> wid \<Rightarrow> desk \<Rightarrow> desk" where
  "setup_popup env f parent ds =
     (if \<not> de_calloc_ok env then ds
      else (upd_surface f (\<lambda>xs. xs\<lparr>xs_data := Some (de_new_ptr env)\<rparr>) ds)
             \<lparr>ds_popups := \<lparr>pp_id = de_new_ptr env, pp_parent = Some parent, pp_surface = f,
                pp_scene = de_new_scene env, pp_xpresent = None, pp_listening = False,
                pp_root_x = 0, pp_root_y = 0, pp_root_w = 0, pp_root_h = 0, pp_root_valid = False,
                pp_freed = (de_new_scene env = None)\<rparr> # ds_popups ds\<rparr>)"

text \<open>A handler of a new popup: \<open>None\<close> when it does not return, \<open>Some None\<close> when it crashes.\<close>

definition surf_data :: "desk \<Rightarrow> nat \<Rightarrow> nat option" where
  "surf_data ds f = Option.bind (ds_surfaces ds f) xs_data"

definition setup_under_toplevel :: "desk_env \<Rightarrow> nat \<Rightarrow> desk \<Rightarrow> desk option option" where
  "setup_under_toplevel env f ds =
     map_option (\<lambda>r. case r of
         NullDeref \<Rightarrow> None
       | NoToplevel \<Rightarrow> Some ds
       | FoundToplevel win \<Rightarrow> Some (setup_popup env f win ds)) (popup_find_toplevel_window ds f)"

definition server_new_xdg_popup :: "desk_env \<Rightarrow> nat \<Rightarrow> desk \<Rightarrow> desk option option" where
  "server_new_xdg_popup env f ds =
     (if surf_data ds f \<noteq> None then Some (Some ds) else setup_under_toplevel env f ds)"

definition window_new_popup :: "desk_env \<Rightarrow> nat \<Rightarrow> wid \<Rightarrow> desk \<Rightarrow> desk" where
  "window_new_popup env f win ds = (if surf_data ds f \<noteq> None then ds else setup_popup env f win ds)"

definition handle_new_xdg_popup :: "desk_env \<Rightarrow> nat \<Rightarrow> popup \<Rightarrow> desk \<Rightarrow> desk option option" where
  "handle_new_xdg_popup env f from_pop ds =
     (case pp_parent from_pop of
        Some win \<Rightarrow> Some (Some (setup_popup env f win ds))
      | None \<Rightarrow> setup_under_toplevel env f ds)"

section \<open>Runs\<close>

text \<open>The handlers of all popups of one surface, in list order.\<close>

definition popups_of :: "desk \<Rightarrow> nat \<Rightarrow> nat list" where
  "popups_of ds f = map pp_id (filter (\<lambda>p. pp_surface p = f) (ds_popups ds))"

fun run_all :: "(nat \<Rightarrow> desk \<Rightarrow> desk option) \<Rightarrow> nat list \<Rightarrow> desk \<Rightarrow> desk option" where
  "run_all h [] ds = Some ds"
| "run_all h (i # is) ds = Option.bind (h i ds) (run_all h is)"

definition set_mapped :: "nat \<Rightarrow> bool \<Rightarrow> desk \<Rightarrow> desk" where
  "set_mapped f m ds = upd_surface f (\<lambda>xs. xs\<lparr>xs_mapped := m\<rparr>) ds"

text \<open>
  One event: a popup is set up under a window, commits, maps, unmaps or goes away, a surface that
  is no popup's any more goes away, a window moves, a deferred grab is tried again, the focus is
  refreshed, a client changes a surface, or the seat and the windows change.
\<close>

inductive popup_step :: "wlx_config \<Rightarrow> desk \<Rightarrow> desk \<Rightarrow> bool" for cfg where
  ps_setup: "de_new_ptr env \<notin> pp_id ` set (ds_popups ds) \<Longrightarrow>
    popup_step cfg ds (setup_popup env f win ds)"
| ps_commit: "run_all (popup_commit cfg env) (popups_of ds f) ds = Some ds' \<Longrightarrow> popup_step cfg ds ds'"
| ps_map: "run_all (popup_map cfg env) (popups_of ds f) (set_mapped f True ds) = Some ds' \<Longrightarrow>
    popup_step cfg ds ds'"
| ps_unmap: "run_all (popup_unmap cfg env) (popups_of ds f) (set_mapped f False ds) = Some ds' \<Longrightarrow>
    popup_step cfg ds ds'"
| ps_destroy: "run_all (popup_destroy cfg env) (popups_of ds f) ds = Some ds' \<Longrightarrow>
    popup_step cfg ds ds'"
| ps_gone: "popups_of ds f = [] \<Longrightarrow> popup_step cfg ds (ds\<lparr>ds_surfaces := (ds_surfaces ds)(f := None)\<rparr>)"
| ps_follow: "popup_step cfg ds (reposition_popups cfg wenv win ds)"
| ps_retry: "wlx_popup_update_pointer_grab cfg env ds = Some ds' \<Longrightarrow> popup_step cfg ds ds'"
| ps_pointer: "pointer_enter_surface_under_cursor cfg env ds = Some ds' \<Longrightarrow> popup_step cfg ds ds'"
| ps_client: "ds_surfaces ds f = Some xs \<Longrightarrow> xs_mapped xs' = xs_mapped xs \<Longrightarrow>
    popup_step cfg ds (ds\<lparr>ds_surfaces := (ds_surfaces ds)(f \<mapsto> xs')\<rparr>)"
| ps_other: "popup_step cfg ds (ds\<lparr>ds_seat := s, ds_windows := ws, ds_focused := w\<rparr>)"

inductive menu_reach :: "wlx_config \<Rightarrow> desk \<Rightarrow> bool" for cfg where
  menu_start: "ds_popups ds = [] \<Longrightarrow> \<not> ds_grabbed ds \<Longrightarrow> \<not> ds_grab_pending ds \<Longrightarrow> menu_reach cfg ds"
| menu_step: "menu_reach cfg ds \<Longrightarrow> popup_step cfg ds ds' \<Longrightarrow> menu_reach cfg ds'"

section \<open>Invariants of menus\<close>

text \<open>The box used for hit tests is the geometry of the popup's X window.\<close>

definition popup_ok :: "popup \<Rightarrow> bool" where
  "popup_ok pop \<longleftrightarrow> (\<forall>w. pp_xpresent pop = Some w \<longrightarrow> pp_root_valid pop \<longrightarrow>
     pp_box pop = wlr_x11_present_window_get_geometry w)"

definition wants_grab :: "desk \<Rightarrow> bool" where
  "wants_grab ds \<longleftrightarrow> (\<exists>p \<in> set (ds_popups ds). pp_xpresent p \<noteq> None \<and> surf_mapped ds (pp_surface p))"

definition boxes_ok :: "desk \<Rightarrow> bool" where
  "boxes_ok ds \<longleftrightarrow> list_all popup_ok (ds_popups ds) \<and> distinct (map pp_id (ds_popups ds))"

definition menus_ok :: "desk \<Rightarrow> bool" where
  "menus_ok ds \<longleftrightarrow> boxes_ok ds
     \<and> (ds_grabbed ds \<or> ds_grab_pending ds \<longrightarrow> wants_grab ds)"

text \<open>Steps that leave the menus as they are, but for refreshed boxes.\<close>

definition shape :: "popup \<Rightarrow> nat \<times> nat \<times> wid option \<times> bool" where
  "shape p = (pp_id p, pp_surface p, pp_parent p, pp_xpresent p \<noteq> None)"

definition menu_frame :: "desk \<Rightarrow> desk \<Rightarrow> bool" where
  "menu_frame ds ds' \<longleftrightarrow>
     map shape (ds_popups ds') = map shape (ds_popups ds)
     \<and> (list_all popup_ok (ds_popups ds) \<longrightarrow> list_all popup_ok (ds_popups ds'))
     \<and> ds_grabbed ds' = ds_grabbed ds \<and> ds_grab_pending ds' = ds_grab_pending ds
     \<and> surf_mapped ds' = surf_mapped ds"

lemma menu_frame_refl [simp]: "menu_frame ds ds"
  by (simp add: menu_frame_def)

lemma menu_frame_trans: "menu_frame a b \<Longrightarrow> menu_frame b c \<Longrightarrow> menu_frame a c"
  by (simp add: menu_frame_def)

lemma wants_grab_shape:
  "wants_grab ds \<longleftrightarrow> (\<exists>s \<in> set (map shape (ds_popups ds)). case s of (i, f, w, x) \<Rightarrow> x \<and> surf_mapped ds f)"
  by (auto simp: wants_grab_def shape_def)

lemma menu_frame_wants: "menu_frame ds ds' \<Longrightarrow> wants_grab ds' = wants_grab ds"
  by (simp add: wants_grab_shape menu_frame_def)

lemma ids_of_shape: "map pp_id pops = map fst (map shape pops)"
  by (simp add: shape_def comp_def)

lemma menu_frame_boxes: "menu_frame ds ds' \<Longrightarrow> boxes_ok ds \<Longrightarrow> boxes_ok ds'"
  by (simp only: boxes_ok_def menu_frame_def ids_of_shape)

lemma menu_frame_ok: "menu_frame ds ds' \<Longrightarrow> menus_ok ds \<Longrightarrow> menus_ok ds'"
  using menu_frame_wants[of ds ds'] menu_frame_boxes[of ds ds'] by (simp add: menus_ok_def menu_frame_def)

lemma update_root_box_ok [simp]: "popup_ok (popup_update_root_box cfg env ds p)"
  by (auto simp: popup_ok_def popup_update_root_box_def pp_box_def
      wlr_x11_present_window_get_geometry_def Let_def split: option.splits prod.splits)

lemma fresh_popup_ok: "popup_ok p \<Longrightarrow> popup_ok (fresh_popup cfg env ds p)"
  by (simp add: fresh_popup_def)

lemma scan_popups_ok:
  "list_all popup_ok pops \<Longrightarrow> list_all popup_ok (snd (scan_popups cfg env ds pt pops))"
  by (induction pops) (auto simp: Let_def fresh_popup_ok split: prod.split)

lemma hit_frame: "menu_frame ds (snd (popup_at_root_pointer cfg env ds))"
  using hit_popups[of shape cfg env ds] scan_popups_ok[of "ds_popups ds" cfg env ds]
  by (auto simp: menu_frame_def shape_def popup_at_root_pointer_def surf_mapped_def
      split: option.splits prod.splits) (metis snd_conv)

lemma upd_win_frame [simp]: "menu_frame ds (upd_win i f ds)"
  by (simp add: menu_frame_def upd_win_def surf_mapped_def fun_eq_iff)

lemma upd_seat_frame [simp]: "menu_frame ds (upd_seat f ds)"
  by (simp add: menu_frame_def upd_seat_def surf_mapped_def fun_eq_iff)

lemma desk_say_frame [simp]: "menu_frame ds (desk_say cs ds)"
  by (simp add: menu_frame_def desk_say_def surf_mapped_def fun_eq_iff)

lemma focused_frame [simp]: "menu_frame ds (ds\<lparr>ds_focused := w\<rparr>)"
  by (simp add: menu_frame_def surf_mapped_def fun_eq_iff)

lemmas frames = menu_frame_trans[OF _ upd_win_frame] menu_frame_trans[OF _ upd_seat_frame]
  menu_frame_trans[OF _ desk_say_frame] menu_frame_trans[OF _ focused_frame]

lemma set_active_frame: "menu_frame ds (set_active_window env w ds)"
  by (auto simp: set_active_window_def Let_def intro!: frames split: option.split)

lemma surface_under_frame:
  "surface_under_root_pointer cfg env ds = Some (h, ds') \<Longrightarrow> menu_frame ds ds'"
  using hit_frame[of ds cfg "de_env env"]
  by (auto simp: surface_under_root_pointer_def split: option.splits prod.splits)

lemma pointer_enter_frame:
  assumes "pointer_enter_surface_under_cursor cfg env ds = Some ds'"
  shows "menu_frame ds ds'"
proof -
  obtain h ds1 where s: "surface_under_root_pointer cfg env ds = Some (h, ds1)"
    using assms by (cases "surface_under_root_pointer cfg env ds")
      (auto simp: pointer_enter_surface_under_cursor_def)
  have f: "menu_frame ds ds1" by (rule surface_under_frame[OF s])
  have a: "menu_frame ds (set_active_window env w ds1)" for w
    using menu_frame_trans[OF f set_active_frame] by simp
  show ?thesis
    using assms s f a
    by (auto simp: pointer_enter_surface_under_cursor_def Let_def intro: frames a f
        split: option.splits prod.splits if_splits)
qed

text \<open>Changing one popup.\<close>

lemma find_popup_Some: "find_popup ds i = Some p \<Longrightarrow> p \<in> set (ds_popups ds) \<and> pp_id p = i"
  by (auto simp: find_popup_def find_Some_iff)

lemma find_popup_only:
  "boxes_ok ds \<Longrightarrow> find_popup ds i = Some p \<Longrightarrow> q \<in> set (ds_popups ds) \<Longrightarrow> pp_id q = i \<Longrightarrow> q = p"
  using find_popup_Some[of ds i p] by (auto simp: boxes_ok_def distinct_map inj_on_def)

lemma upd_popup_fields [simp]:
  "ds_grabbed (upd_popup i f ds) = ds_grabbed ds" "ds_grab_pending (upd_popup i f ds) = ds_grab_pending ds"
  "surf_mapped (upd_popup i f ds) = surf_mapped ds" "ds_seat (upd_popup i f ds) = ds_seat ds"
  "ds_surfaces (upd_popup i f ds) = ds_surfaces ds" "ds_windows (upd_popup i f ds) = ds_windows ds"
  by (simp_all add: upd_popup_def surf_mapped_def fun_eq_iff)

lemma upd_popup_frame:
  assumes "\<And>p. shape (f p) = shape p" "\<And>p. popup_ok p \<Longrightarrow> popup_ok (f p)"
  shows "menu_frame ds (upd_popup i f ds)"
  using assms by (auto simp: menu_frame_def upd_popup_def surf_mapped_def list_all_iff fun_eq_iff)

lemma replace_popup_frame:
  assumes "boxes_ok ds" "find_popup ds i = Some p" "shape q = shape p" "popup_ok q"
  shows "menu_frame ds (upd_popup i (\<lambda>_. q) ds)"
  using assms find_popup_only[OF assms(1,2)]
  by (auto simp: menu_frame_def upd_popup_def surf_mapped_def list_all_iff fun_eq_iff)

lemma replace_popup_boxes:
  assumes "boxes_ok ds" "pp_id q = i" "popup_ok q"
  shows "boxes_ok (upd_popup i (\<lambda>_. q) ds)"
proof -
  have "map pp_id (ds_popups (upd_popup i (\<lambda>_. q) ds)) = map pp_id (ds_popups ds)"
    using assms(2) by (simp add: upd_popup_def comp_def if_distrib cong: if_cong)
  moreover have "list_all popup_ok (ds_popups (upd_popup i (\<lambda>_. q) ds))"
    using assms by (auto simp: boxes_ok_def upd_popup_def list_all_iff)
  ultimately show ?thesis using assms(1) by (simp add: boxes_ok_def)
qed

lemma refresh_frame:
  "menu_frame ds (upd_popup i (\<lambda>p. if pp_root_valid p then p else popup_update_root_box cfg env ds p) ds)"
  by (rule upd_popup_frame) (simp_all add: shape_def)

lemma placement_frame: "menu_frame ds (snd (popup_compute_root_placement cfg env ds pop))"
  using refresh_frame[of ds _ cfg env]
  by (auto simp: popup_compute_root_placement_def placement_origin_def Let_def
      split: option.splits prod.splits)

lemma placement_size:
  "fst (popup_compute_root_placement cfg env ds pop) = Some (x, y, w, h) \<Longrightarrow> 1 \<le> w \<and> 1 \<le> h"
  by (auto simp: popup_compute_root_placement_def Let_def split: option.splits prod.splits if_splits)

lemma window_size_pos:
  "1 \<le> fst sz \<Longrightarrow> 1 \<le> snd sz \<Longrightarrow> 1 \<le> fst (window_size_for cfg xs sz) \<and> 1 \<le> snd (window_size_for cfg xs sz)"
  using scale_size_ge1[of cfg] by (auto simp: window_size_for_def wlx_scale_size_def Let_def
      split: option.split)

text \<open>What the window operations keep of a popup.\<close>

lemma popup_fields [simp]:
  "shape (wlx_apply_popup_content_scale cfg ds p) = shape p"
  "pp_xpresent (wlx_apply_popup_content_scale cfg ds p) = pp_xpresent p"
  "shape (fallback_scene cfg xs p) = shape p"
  "shape (popup_update_root_box cfg env ds p) = shape p"
  "shape (p\<lparr>pp_scene := t\<rparr>) = shape p" "popup_ok (p\<lparr>pp_scene := t\<rparr>) = popup_ok p"
  by (simp_all add: wlx_apply_popup_content_scale_def fallback_scene_def shape_def popup_ok_def
      pp_box_def Let_def)

lemma show_xpresent_ok:
  assumes "pp_xpresent p = Some w" "1 \<le> fst sz" "1 \<le> snd sz"
  obtains w' where "pp_xpresent (fst (show_xpresent pos sz p)) = Some w'"
    "popup_ok (fst (show_xpresent pos sz p))" "pp_root_valid (fst (show_xpresent pos sz p))"
    "pp_id (fst (show_xpresent pos sz p)) = pp_id p" "pw_mapped w'"
    "pp_parent (fst (show_xpresent pos sz p)) = pp_parent p"
    "pp_scene (fst (show_xpresent pos sz p)) = pp_scene p"
    "pp_surface (fst (show_xpresent pos sz p)) = pp_surface p"
    "pp_box (fst (show_xpresent pos sz p)) = (fst pos, snd pos, fst sz, snd sz)"
proof -
  let ?w = "fst (wlr_x11_present_window_map
      (fst (wlr_x11_present_window_configure (fst pos) (snd pos) (fst sz) (snd sz) w)))"
  have g: "wlr_x11_present_window_get_geometry ?w = (fst pos, snd pos, fst sz, snd sz)"
    using configure_geometry[of "fst pos" "snd pos" "fst sz" "snd sz" w] assms(2,3)
    by (simp add: wlr_x11_present_window_get_geometry_def max_def)
  show ?thesis
    by (rule that[of ?w]) (use assms g in \<open>auto simp: show_xpresent_def on_xpresent_def popup_ok_def pp_box_def
        split: prod.split\<close>)
qed

text \<open>Presenting keeps the geometry, fitting moves window and box together.\<close>

definition same_popup :: "popup \<Rightarrow> popup \<Rightarrow> bool" where
  "same_popup p q \<longleftrightarrow> shape q = shape p \<and> pp_root_valid q = pp_root_valid p
     \<and> (popup_ok p \<longrightarrow> pp_root_valid p \<longrightarrow> popup_ok q)"

lemma same_popup_refl [simp]: "same_popup p p"
  by (simp add: same_popup_def)

lemma same_popup_trans: "same_popup p q \<Longrightarrow> same_popup q r \<Longrightarrow> same_popup p r"
  by (simp add: same_popup_def)

lemma popup_present_same: "same_popup p (fst (snd (popup_present hp w h p)))"
proof (cases "pp_xpresent p")
  case (Some win)
  obtain ok win1 cs where r: "wlr_x11_present_window_present hp w h win = (ok, win1, cs)"
    by (cases "wlr_x11_present_window_present hp w h win")
  have "wlr_x11_present_window_get_geometry win1 = wlr_x11_present_window_get_geometry win"
    using present_fields[of hp w h win] r by (simp add: wlr_x11_present_window_get_geometry_def)
  with Some r show ?thesis
    by (auto simp: popup_present_def same_popup_def shape_def popup_ok_def pp_box_def)
qed (simp add: popup_present_def)

lemma fit_xpresent_same: "same_popup p (fst (fit_xpresent cfg buf p))"
proof (cases "fst (fit_xpresent cfg buf p) = p")
  case False
  then obtain win bw bh where c: "pp_xpresent p = Some win" "buf = Some (bw, bh)" "0 < bw" "0 < bh"
      "scale_is_1 cfg" "bw \<noteq> pw_width win \<or> bh \<noteq> pw_height win"
    by (auto simp: fit_xpresent_def split: option.splits if_splits)
  have g: "wlr_x11_present_window_get_geometry
      (fst (wlr_x11_present_window_configure (pw_x win) (pw_y win) bw bh win)) = (pw_x win, pw_y win, bw, bh)"
    using configure_geometry[of "pw_x win" "pw_y win" bw bh win] c(3,4) by (simp add: max_def)
  have "fst (fit_xpresent cfg buf p) = p\<lparr>pp_xpresent :=
      Some (fst (wlr_x11_present_window_configure (pw_x win) (pw_y win) bw bh win)),
      pp_root_w := bw, pp_root_h := bh\<rparr>"
    using c by (auto simp: fit_xpresent_def on_xpresent_def split: prod.split)
  with c(1) g show ?thesis
    by (simp add: same_popup_def shape_def popup_ok_def pp_box_def)
      (simp add: wlr_x11_present_window_get_geometry_def)
qed simp

lemma composite_present_same: "same_popup p (fst (snd (composite_present env p)))"
  using popup_present_same by (simp add: composite_present_def split: option.split)

lemma render_same: "same_popup p (fst (snd (popup_render_and_present cfg env ds p)))"
proof -
  let ?buf = "Option.bind (ds_surfaces ds (pp_surface p)) xs_buffer"
  obtain p1 cs1 where p1: "fit_xpresent cfg ?buf p = (p1, cs1)" by (cases "fit_xpresent cfg ?buf p")
  obtain ok p2 cs2 where p2: "(case ?buf of None \<Rightarrow> (False, p1, [])
      | Some (bw, bh) \<Rightarrow> popup_present (de_client_pixmap env (pp_surface p)) bw bh p1) = (ok, p2, cs2)"
    by (cases "case ?buf of None \<Rightarrow> (False, p1, [])
      | Some (bw, bh) \<Rightarrow> popup_present (de_client_pixmap env (pp_surface p)) bw bh p1") simp
  have s1: "same_popup p p1" using fit_xpresent_same[of p cfg ?buf] p1 by simp
  have "same_popup p1 p2" using p2 popup_present_same[of p1]
    by (auto split: option.splits) (metis fst_conv snd_conv)
  with s1 have s2: "same_popup p p2" by (rule same_popup_trans)
  then have "same_popup p (fst (snd (composite_present env p2)))"
    using composite_present_same same_popup_trans by blast
  with s2 p1 p2 show ?thesis
    by (auto simp: popup_render_and_present_def Let_def split: option.split prod.split bool.split)
qed

section \<open>The grab follows the menus\<close>

lemma grab_window_want:
  "fst (grab_window ds pops r) \<longleftrightarrow> fst r
    \<or> (\<exists>p \<in> set pops. pp_xpresent p \<noteq> None \<and> surf_mapped ds (pp_surface p))"
  by (induction ds pops r rule: grab_window.induct) (auto simp: Let_def)

lemma update_grab_ok:
  assumes x: "have_xcb cfg" and b: "boxes_ok ds"
    and u: "wlx_popup_update_pointer_grab cfg env ds = Some ds'"
  shows "menus_ok ds'"
proof -
  obtain want w where g: "grab_window ds (ds_popups ds) (False, XCB_WINDOW_NONE) = (want, w)"
    by (cases "grab_window ds (ds_popups ds) (False, XCB_WINDOW_NONE)")
  have want: "want \<longleftrightarrow> wants_grab ds"
    using grab_window_want[of ds "ds_popups ds" "(False, XCB_WINDOW_NONE)"] g by (simp add: wants_grab_def)
  show ?thesis
  proof (cases want)
    case False
    with u x g have "ds_popups ds' = ds_popups ds" "\<not> ds_grabbed ds'" "\<not> ds_grab_pending ds'"
      by (auto simp: wlx_popup_update_pointer_grab_def desk_say_def split: if_splits)
    with b show ?thesis by (simp add: menus_ok_def boxes_ok_def)
  next
    case True
    have ok: "menus_ok (desk_say cs (ds\<lparr>ds_grabbed := gr, ds_grab_pending := gp\<rparr>))" for cs gr gp
      using b True want by (simp add: menus_ok_def boxes_ok_def desk_say_def wants_grab_def surf_mapped_def)
    have ok': "menus_ok (ds\<lparr>ds_grabbed := gr, ds_grab_pending := gp\<rparr>)" for gr gp
      using b True want by (simp add: menus_ok_def boxes_ok_def wants_grab_def surf_mapped_def)
    note e = u[unfolded wlx_popup_update_pointer_grab_def g prod.case]
    have same: "menus_ok ds" using ok'[where gr = "ds_grabbed ds" and gp = "ds_grab_pending ds"] by simp
    have one: "menus_ok (ds\<lparr>ds_grab_pending := gp\<rparr>)" for gp using ok'[where gr = "ds_grabbed ds" and gp = gp] by simp
    show ?thesis
    proof (cases "ds_grabbed ds \<or> 0 < button_count (ds_seat ds) \<or> w = XCB_WINDOW_NONE \<or> de_grab_status env \<noteq> Some 0")
      case early: True
      then show ?thesis using e x True same one by (simp split: if_splits) auto
    next
      case False
      then have "wlx_pointer_refresh_focus cfg env
          (desk_say [PwGrab w] (ds\<lparr>ds_grabbed := True, ds_grab_pending := False\<rparr>)) = Some ds'"
        using e x True by simp
      then show ?thesis
        unfolding wlx_pointer_refresh_focus_def using menu_frame_ok[OF pointer_enter_frame ok] by blast
    qed
  qed
qed

lemma ensure_xpresent_some:
  assumes "ensure_xpresent env p = Some (q, cs)"
  shows "(\<exists>w. pp_xpresent q = Some w) \<and> pp_id q = pp_id p \<and> pp_surface q = pp_surface p
    \<and> pp_parent q = pp_parent p"
  using assms by (auto simp: ensure_xpresent_def popup_attach_xpresent_listeners_def split: if_splits)

lemma ensure_xpresent_none: "ensure_xpresent env p = None \<Longrightarrow> pp_xpresent p = None"
  by (auto simp: ensure_xpresent_def split: if_splits)

text \<open>How \<open>popup_position_and_map\<close> may end: nothing changed, only the parent's box refreshed, the popup
  left to its parent's scene, or shown in its window.\<close>

lemma position_and_map_cases:
  assumes r: "popup_position_and_map cfg env i ds = Some ds'"
  obtains (Nothing) "ds' = ds"
  | (Refreshed) pop0 where "ds' = snd (popup_compute_root_placement cfg (de_env env) ds pop0)"
  | (Scene) pop0 ds1 pop1 pop3 parent where
      "ds1 = snd (popup_compute_root_placement cfg (de_env env) ds pop0)"
      "find_popup ds1 i = Some pop1" "shape pop3 = shape pop1" "popup_ok pop3"
      "ds' = upd_win parent (\<lambda>w. if w_output w \<noteq> None then emit ScheduleFrame w else w)
               (upd_popup i (\<lambda>_. pop3) ds1)"
  | (Shown) pop0 ds1 pop1 pop5 cs where
      "ds1 = snd (popup_compute_root_placement cfg (de_env env) ds pop0)"
      "find_popup ds1 i = Some pop1" "pp_id pop5 = i" "pp_parent pop5 = pp_parent pop1" "popup_ok pop5"
      "wlx_popup_update_pointer_grab cfg env (desk_say cs (upd_popup i (\<lambda>_. pop5) ds1)) = Some ds'"
proof (cases "\<exists>pop0 parent tree xs rx ry rw rh ds1 pop1. find_popup ds i = Some pop0
    \<and> find_win ds (pp_parent pop0) = Some parent \<and> pp_scene pop0 = Some tree
    \<and> ds_surfaces ds (pp_surface pop0) = Some xs
    \<and> popup_compute_root_placement cfg (de_env env) ds pop0 = (Some (rx, ry, rw, rh), ds1)
    \<and> find_popup ds1 i = Some pop1")
  case no: False
  show thesis
  proof (cases "\<exists>pop0 parent tree xs. find_popup ds i = Some pop0 \<and> find_win ds (pp_parent pop0) = Some parent
      \<and> pp_scene pop0 = Some tree \<and> ds_surfaces ds (pp_surface pop0) = Some xs")
    case False
    with r have "ds' = ds" by (auto simp: popup_position_and_map_def split: option.splits)
    then show thesis by (rule Nothing)
  next
    case True
    then obtain pop0 parent tree xs where c: "find_popup ds i = Some pop0"
      "find_win ds (pp_parent pop0) = Some parent" "pp_scene pop0 = Some tree"
      "ds_surfaces ds (pp_surface pop0) = Some xs" by blast
    obtain pl ds1 where p: "popup_compute_root_placement cfg (de_env env) ds pop0 = (pl, ds1)"
      by (cases "popup_compute_root_placement cfg (de_env env) ds pop0")
    note r1 = r[unfolded popup_position_and_map_def c option.case prod.case p]
    have "pl = None \<or> find_popup ds1 i = None" using no c p by (metis not_None_eq prod_cases4)
    then have "ds' = ds1" using r1 by (auto split: option.splits prod.splits)
    with p show thesis using Refreshed[of pop0] by simp
  qed
next
  case True
  then obtain pop0 parent tree xs rx ry rw rh ds1 pop1 where c: "find_popup ds i = Some pop0"
    "find_win ds (pp_parent pop0) = Some parent" "pp_scene pop0 = Some tree"
    "ds_surfaces ds (pp_surface pop0) = Some xs"
    "popup_compute_root_placement cfg (de_env env) ds pop0 = (Some (rx, ry, rw, rh), ds1)"
    "find_popup ds1 i = Some pop1" by blast
  have sz: "1 \<le> rw" "1 \<le> rh" using placement_size[of cfg "de_env env" ds pop0] c(5) by auto
  have ds1: "ds1 = snd (popup_compute_root_placement cfg (de_env env) ds pop0)" using c(5) by simp
  let ?pop2 = "wlx_apply_popup_content_scale cfg ds1 (pop1\<lparr>pp_scene := map_option park_scene (pp_scene pop1)\<rparr>)"
  have p2: "shape ?pop2 = shape pop1" by simp
  note r2 = r[unfolded popup_position_and_map_def c option.case prod.case Let_def]
  show thesis
  proof (cases "ensure_xpresent env ?pop2")
    case None
    show thesis
      by (rule Scene[OF ds1 c(6), of "popup_update_root_box cfg (de_env env) ds1 (fallback_scene cfg xs ?pop2)" "w_id parent"])
        (use r2 None in simp_all)
  next
    case (Some e)
    obtain pop3 cs3 where e: "e = (pop3, cs3)" by (cases e)
    note e3 = ensure_xpresent_some[OF Some[unfolded e]]
    then obtain w3 where w3: "pp_xpresent pop3 = Some w3" by blast
    let ?sz = "window_size_for cfg xs (rw, rh)"
    have sz': "1 \<le> fst ?sz" "1 \<le> snd ?sz" using window_size_pos[of "(rw, rh)" cfg xs] sz by auto
    obtain pop4 cs4 where s4: "show_xpresent (rx, ry) ?sz pop3 = (pop4, cs4)"
      by (cases "show_xpresent (rx, ry) ?sz pop3")
    obtain okp pop5 cs5 where r5: "popup_render_and_present cfg env ds1 pop4 = (okp, pop5, cs5)"
      by (cases "popup_render_and_present cfg env ds1 pop4")
    have p4: "popup_ok pop4" "pp_root_valid pop4" "pp_id pop4 = pp_id pop3" "pp_parent pop4 = pp_parent pop3"
      using show_xpresent_ok[OF w3 sz', where pos = "(rx, ry)"] s4 by (metis fst_conv)+
    have "popup_ok pop5 \<and> shape pop5 = shape pop4"
      using render_same[of pop4 cfg env ds1] r5 p4 by (simp add: same_popup_def)
    then have p5: "pp_id pop5 = i" "pp_parent pop5 = pp_parent pop1" "popup_ok pop5"
      using p4 e3 p2 find_popup_Some[OF c(6)] by (simp_all add: shape_def)
    show thesis by (rule Shown[OF ds1 c(6) p5, of "cs3 @ cs4 @ cs5"]) (use r2 Some e s4 r5 in simp)
  qed
qed

lemma position_and_map_ok:
  assumes x: "have_xcb cfg" and ok: "menus_ok ds"
    and r: "popup_position_and_map cfg env i ds = Some ds'"
  shows "menus_ok ds'"
  using r
proof (cases rule: position_and_map_cases)
  case Nothing
  with ok show ?thesis by simp
next
  case (Refreshed pop0)
  with menu_frame_ok[OF placement_frame ok] show ?thesis by simp
next
  case (Scene pop0 ds1 pop1 pop3 parent)
  have b1: "boxes_ok ds1"
    unfolding Scene(1) using menu_frame_boxes[OF placement_frame] ok by (simp add: menus_ok_def)
  have "menu_frame ds1 (upd_popup i (\<lambda>_. pop3) ds1)" by (rule replace_popup_frame[OF b1 Scene(2,3,4)])
  then have "menu_frame ds ds'"
    unfolding Scene(5) using menu_frame_trans placement_frame[of ds cfg "de_env env" pop0] Scene(1) frames by blast
  then show ?thesis using menu_frame_ok ok by blast
next
  case (Shown pop0 ds1 pop1 pop5 cs)
  have b1: "boxes_ok ds1"
    unfolding Shown(1) using menu_frame_boxes[OF placement_frame] ok by (simp add: menus_ok_def)
  have "boxes_ok (desk_say cs (upd_popup i (\<lambda>_. pop5) ds1))"
    by (rule menu_frame_boxes[OF desk_say_frame replace_popup_boxes[OF b1 Shown(3,5)]])
  then show ?thesis using update_grab_ok[OF x _ Shown(6)] by blast
qed

section \<open>Every event keeps the invariant\<close>

lemma refresh_ok:
  "menus_ok ds \<Longrightarrow> wlx_pointer_refresh_focus cfg env ds = Some ds' \<Longrightarrow> menus_ok ds'"
  unfolding wlx_pointer_refresh_focus_def by (rule menu_frame_ok[OF pointer_enter_frame])

lemma run_all_ok:
  assumes "\<And>i a b. P a \<Longrightarrow> h i a = Some b \<Longrightarrow> P b"
  shows "P ds \<Longrightarrow> run_all h is ds = Some ds' \<Longrightarrow> P ds'"
  by (induction "is" arbitrary: ds) (auto simp: bind_eq_Some_conv intro: assms)

text \<open>A run of handlers each of which puts things right, if there is one.\<close>

lemma run_all_repairs:
  assumes "\<And>i a b. P a \<Longrightarrow> h i a = Some b \<Longrightarrow> Q b" "\<And>a. Q a \<Longrightarrow> P a" "is \<noteq> []"
  shows "P ds \<Longrightarrow> run_all h is ds = Some ds' \<Longrightarrow> Q ds'"
  using assms(3)
proof (induction "is" arbitrary: ds)
  case (Cons i js)
  from Cons.prems obtain a where a: "h i ds = Some a" "run_all h js a = Some ds'"
    by (auto simp: bind_eq_Some_conv)
  have "Q a" by (rule assms(1)[OF Cons.prems(1) a(1)])
  then show ?case
  proof (cases "js = []")
    case True
    with a \<open>Q a\<close> show ?thesis by simp
  next
    case False
    from Cons.IH[OF assms(2)[OF \<open>Q a\<close>] a(2) False] show ?thesis .
  qed
qed simp

lemma set_mapped_boxes [simp]: "boxes_ok (set_mapped f m ds) = boxes_ok ds"
  by (simp add: boxes_ok_def set_mapped_def upd_surface_def)

lemma surf_mapped_set:
  "surf_mapped (set_mapped f m ds) g = (if g = f then m \<and> ds_surfaces ds f \<noteq> None else surf_mapped ds g)"
  by (auto simp: surf_mapped_def set_mapped_def upd_surface_def split: option.split)

lemma wants_grab_mono:
  assumes "ds_popups b = ds_popups a" "\<And>p. p \<in> set (ds_popups a) \<Longrightarrow> surf_mapped a (pp_surface p) \<Longrightarrow> surf_mapped b (pp_surface p)"
  shows "wants_grab a \<Longrightarrow> wants_grab b"
  using assms by (auto simp: wants_grab_def)

lemma set_mapped_fields [simp]:
  "ds_popups (set_mapped f m ds) = ds_popups ds" "ds_grabbed (set_mapped f m ds) = ds_grabbed ds"
  "ds_grab_pending (set_mapped f m ds) = ds_grab_pending ds"
  by (simp_all add: set_mapped_def upd_surface_def)

lemma surf_mapped_known: "surf_mapped ds f \<Longrightarrow> \<exists>xs. ds_surfaces ds f = Some xs"
  by (auto simp: surf_mapped_def split: option.splits)

lemma map_keeps_ok: "menus_ok ds \<Longrightarrow> menus_ok (set_mapped f True ds)"
proof -
  have "wants_grab ds \<Longrightarrow> wants_grab (set_mapped f True ds)"
    by (rule wants_grab_mono) (auto simp: surf_mapped_set dest: surf_mapped_known)
  then show "menus_ok ds \<Longrightarrow> menus_ok (set_mapped f True ds)" by (auto simp: menus_ok_def)
qed

lemma unmap_other_ok: "menus_ok ds \<Longrightarrow> popups_of ds f = [] \<Longrightarrow> menus_ok (set_mapped f False ds)"
proof -
  assume "popups_of ds f = []"
  then have n: "p \<in> set (ds_popups ds) \<Longrightarrow> pp_surface p \<noteq> f" for p
    by (auto simp: popups_of_def filter_empty_conv)
  have "wants_grab ds \<Longrightarrow> wants_grab (set_mapped f False ds)"
    by (rule wants_grab_mono) (simp_all add: surf_mapped_set n)
  then show "menus_ok ds \<Longrightarrow> menus_ok (set_mapped f False ds)" by (auto simp: menus_ok_def)
qed

lemma destroyed_ok: "popup_ok (fst (popup_destroy_xpresent p))"
  by (simp add: popup_destroy_xpresent_def popup_ok_def)

lemma hide_boxes: "boxes_ok ds \<Longrightarrow> boxes_ok (hide_popup i ds)"
proof (cases "find_popup ds i")
  case (Some p)
  assume b: "boxes_ok ds"
  have "boxes_ok (upd_popup i (\<lambda>_. (fst (popup_destroy_xpresent p))
      \<lparr>pp_scene := map_option (set_enabled False) (pp_scene (fst (popup_destroy_xpresent p)))\<rparr>) ds)"
    by (rule replace_popup_boxes[OF b]) (use find_popup_Some[OF Some] in
      \<open>simp_all add: popup_destroy_xpresent_def popup_ok_def\<close>)
  then show ?thesis using Some
    by (auto simp: hide_popup_def intro: menu_frame_boxes[OF desk_say_frame] split: prod.split)
qed (simp add: hide_popup_def)

lemma popup_unmap_ok:
  assumes "have_xcb cfg" "boxes_ok ds" "popup_unmap cfg env i ds = Some ds'"
  shows "menus_ok ds'"
proof -
  from assms(3) obtain pop where p: "find_popup ds i = Some pop"
    by (cases "find_popup ds i") (auto simp: popup_unmap_def)
  let ?ds1 = "if pt_focus (ds_seat ds) = Some (pp_surface pop)
      then upd_seat (wlr_seat_pointer_clear_focus (seat_env_of env ds)) ds else ds"
  have "boxes_ok ?ds1" using assms(2) menu_frame_boxes[OF upd_seat_frame] by simp
  then have b: "boxes_ok (hide_popup i ?ds1)" by (rule hide_boxes)
  from assms(3) p obtain a where a: "wlx_popup_update_pointer_grab cfg env (hide_popup i ?ds1) = Some a"
    "wlx_pointer_refresh_focus cfg env a = Some ds'"
    by (auto simp: popup_unmap_def Let_def bind_eq_Some_conv)
  from refresh_ok[OF update_grab_ok[OF assms(1) b a(1)] a(2)] show ?thesis .
qed

lemma popup_map_ok:
  assumes "have_xcb cfg" "menus_ok ds" "popup_map cfg env i ds = Some ds'"
  shows "menus_ok ds'"
proof -
  from assms(3) obtain a where a: "popup_position_and_map cfg env i ds = Some a"
    "(if button_count (ds_seat a) = 0 then wlx_pointer_refresh_focus cfg env a else Some a) = Some ds'"
    by (auto simp: popup_map_def bind_eq_Some_conv)
  have "menus_ok a" by (rule position_and_map_ok[OF assms(1,2) a(1)])
  with a(2) refresh_ok[of a cfg env ds'] show ?thesis by (simp split: if_splits)
qed

lemma initial_commit_frame:
  assumes "popup_initial_commit cfg env pop ds = Some ds'"
  shows "menu_frame ds ds'"
proof (cases "ds_surfaces ds (pp_surface pop)")
  case (Some xs)
  have u: "menu_frame ds (snd (unconstrain_parent cfg e ds p xs))" for e p xs
    using refresh_frame[of ds _ cfg e] by (auto simp: unconstrain_parent_def Let_def split: option.splits)
  have b: "menu_frame ds (snd (popup_unconstrain_box cfg env ds p xs))" for p xs
    using u[of "de_env env" p xs]
    by (auto simp: popup_unconstrain_box_def Let_def split: option.splits prod.splits)
  have s: "menu_frame a (upd_surface f (\<lambda>x. x\<lparr>xs_sched_geo := bx\<rparr>) a)" for a f bx
    by (auto simp: menu_frame_def upd_surface_def surf_mapped_def fun_eq_iff split: option.split)
  obtain bx ds1 where r: "popup_unconstrain_box cfg env ds pop xs = (bx, ds1)"
    by (cases "popup_unconstrain_box cfg env ds pop xs")
  then have f: "menu_frame ds ds1" using b[of pop xs] by simp
  show ?thesis
    using assms menu_frame_trans[OF f s]
    by (auto simp: popup_initial_commit_def Some r split: if_splits)
qed (use assms in \<open>simp add: popup_initial_commit_def\<close>)

lemma popup_commit_ok:
  assumes "have_xcb cfg" "menus_ok ds" "popup_commit cfg env i ds = Some ds'"
  shows "menus_ok ds'"
proof (cases "find_popup ds i")
  case (Some pop)
  then obtain ds1 where c: "popup_initial_commit cfg env pop ds = Some ds1"
      "(if \<not> surf_mapped ds1 (pp_surface pop) then Some ds1 else popup_position_and_map cfg env i ds1) = Some ds'"
    using assms(3) by (auto simp: popup_commit_def bind_eq_Some_conv)
  have ok: "menus_ok ds1" by (rule menu_frame_ok[OF initial_commit_frame[OF c(1)] assms(2)])
  with c(2) position_and_map_ok[OF assms(1) ok] show ?thesis by (simp split: if_splits)
qed (use assms in \<open>simp add: popup_commit_def\<close>)

text \<open>The grab update only refreshes boxes.\<close>

lemma update_grab_shape:
  assumes "wlx_popup_update_pointer_grab cfg env ds = Some ds'"
  shows "map shape (ds_popups ds') = map shape (ds_popups ds) \<and> surf_mapped ds' = surf_mapped ds"
proof -
  have e: "wlx_pointer_refresh_focus cfg env a = Some ds' \<Longrightarrow>
      map shape (ds_popups ds') = map shape (ds_popups a) \<and> surf_mapped ds' = surf_mapped a" for a
    unfolding wlx_pointer_refresh_focus_def using pointer_enter_frame by (simp add: menu_frame_def)
  have "ds_popups (desk_say cs (ds\<lparr>ds_grabbed := gr, ds_grab_pending := gp\<rparr>)) = ds_popups ds"
    "surf_mapped (desk_say cs (ds\<lparr>ds_grabbed := gr, ds_grab_pending := gp\<rparr>)) = surf_mapped ds"
    "surf_mapped (ds\<lparr>ds_grab_pending := gp\<rparr>) = surf_mapped ds"
    "surf_mapped ((desk_say cs (ds\<lparr>ds_grabbed := gr\<rparr>))\<lparr>ds_grab_pending := gp\<rparr>) = surf_mapped ds" for cs gr gp
    by (simp_all add: desk_say_def surf_mapped_def fun_eq_iff)
  note same = this
  obtain want w where g: "grab_window ds (ds_popups ds) (False, XCB_WINDOW_NONE) = (want, w)"
    by (cases "grab_window ds (ds_popups ds) (False, XCB_WINDOW_NONE)")
  note r = assms[unfolded wlx_popup_update_pointer_grab_def g prod.case]
  consider "Some ds = Some ds'"
    | "Some ((if ds_grabbed ds then desk_say [PwUngrab] (ds\<lparr>ds_grabbed := False\<rparr>) else ds)
         \<lparr>ds_grab_pending := False\<rparr>) = Some ds'"
    | "Some (ds\<lparr>ds_grab_pending := True\<rparr>) = Some ds'" | "Some (ds\<lparr>ds_grab_pending := False\<rparr>) = Some ds'"
    | "wlx_pointer_refresh_focus cfg env
         (desk_say [PwGrab w] (ds\<lparr>ds_grabbed := True, ds_grab_pending := False\<rparr>)) = Some ds'"
    using r by (simp only: split: if_splits)
  then show ?thesis
  proof cases
    case 2
    then show ?thesis using same by (cases "ds_grabbed ds") (auto simp: desk_say_def)
  next
    case 5
    from e[OF this] same show ?thesis by simp
  qed (use same in auto)
qed

lemma popup_destroy_ok:
  assumes x: "have_xcb cfg" and b: "boxes_ok ds" and d: "popup_destroy cfg env i ds = Some ds'"
  shows "menus_ok ds'"
proof -
  from d obtain pop where p: "find_popup ds i = Some pop"
    by (cases "find_popup ds i") (auto simp: popup_destroy_def)
  let ?q = "fst (popup_destroy_xpresent pop)"
  let ?ds1 = "desk_say (snd (popup_destroy_xpresent pop)) (upd_popup i (\<lambda>_. ?q) ds)"
  have q: "pp_id ?q = i" "pp_xpresent ?q = None" using find_popup_Some[OF p]
    by (simp_all add: popup_destroy_xpresent_def)
  have b1: "boxes_ok ?ds1"
    by (rule menu_frame_boxes[OF desk_say_frame replace_popup_boxes[OF b q(1) destroyed_ok]])
  from d p obtain a where a: "wlx_popup_update_pointer_grab cfg env ?ds1 = Some a"
    "ds' = a\<lparr>ds_popups := filter (\<lambda>p. pp_id p \<noteq> i) (ds_popups a)\<rparr>"
    by (auto simp: popup_destroy_def split: prod.splits)
  have ok: "menus_ok a" by (rule update_grab_ok[OF x b1 a(1)])
  have gone: "pp_xpresent p = None" if "p \<in> set (ds_popups a)" "pp_id p = i" for p
  proof -
    have "shape p \<in> set (map shape (ds_popups ?ds1))"
      using that(1) update_grab_shape[OF a(1)] by (metis image_eqI set_map)
    then obtain r where "r \<in> set (ds_popups ?ds1)" "shape r = shape p" by auto
    with that(2) q show ?thesis
      by (auto simp: shape_def desk_say_def upd_popup_def split: if_splits)
  qed
  have "wants_grab a \<Longrightarrow> wants_grab ds'"
    unfolding wants_grab_def a(2) using gone by (auto simp: surf_mapped_def)
  moreover have "boxes_ok ds'"
    using ok unfolding a(2) by (auto simp: menus_ok_def boxes_ok_def list_all_iff intro: distinct_map_filter)
  ultimately show ?thesis using ok a(2) by (auto simp: menus_ok_def)
qed

lemma reposition_ok:
  assumes ok: "menus_ok ds"
  shows "menus_ok (reposition_popup cfg env win i ds)"
proof (cases "find_popup ds i")
  case (Some pop)
  obtain pl ds1 where p: "popup_compute_root_placement cfg env ds pop = (pl, ds1)"
    by (cases "popup_compute_root_placement cfg env ds pop")
  have f: "menu_frame ds ds1" using placement_frame[of ds cfg env pop] p by simp
  have ok1: "menus_ok ds1" by (rule menu_frame_ok[OF f ok])
  show ?thesis
  proof (cases "pl = None \<or> find_popup ds1 i = None \<or> pp_parent pop \<noteq> Some win \<or> \<not> surf_mapped ds (pp_surface pop)")
    case True
    then show ?thesis using Some p ok ok1 by (auto simp: reposition_popup_def split: option.split)
  next
    case False
    then obtain rx ry rw rh pop1 where q: "pl = Some (rx, ry, rw, rh)" "find_popup ds1 i = Some pop1"
      by (metis not_None_eq prod_cases4)
    have sz: "1 \<le> rw" "1 \<le> rh" using placement_size[of cfg env ds pop] p q(1) by auto
    let ?c = "on_xpresent (wlr_x11_present_window_configure rx ry rw rh) pop1"
    let ?q = "(fst ?c)\<lparr>pp_root_x := rx, pp_root_y := ry, pp_root_w := rw, pp_root_h := rh, pp_root_valid := True\<rparr>"
    have g: "wlr_x11_present_window_get_geometry (fst (wlr_x11_present_window_configure rx ry rw rh w))
        = (rx, ry, rw, rh)" for w
      using configure_geometry[of rx ry rw rh w] sz by (simp add: max_def)
    have "popup_ok ?q" "shape ?q = shape pop1" using g
      by (auto simp: on_xpresent_def popup_ok_def pp_box_def shape_def split: option.split prod.split)
        (metis fst_conv)
    then have "menu_frame ds1 (desk_say (snd ?c) (upd_popup i (\<lambda>_. ?q) ds1))"
      using replace_popup_frame[OF _ q(2)] ok1 by (intro frames) (auto simp: menus_ok_def)
    moreover have "reposition_popup cfg env win i ds = desk_say (snd ?c) (upd_popup i (\<lambda>_. ?q) ds1)"
      using Some p q False by (auto simp: reposition_popup_def split: prod.split)
    ultimately show ?thesis using menu_frame_ok[OF _ ok1] by simp
  qed
qed (use ok in \<open>simp add: reposition_popup_def\<close>)

lemma reposition_all_ok: "menus_ok ds \<Longrightarrow> menus_ok (fold (reposition_popup cfg env win) is ds)"
  by (induction "is" arbitrary: ds) (simp_all add: reposition_ok)

lemma setup_popup_ok:
  assumes ok: "menus_ok ds" and new: "de_new_ptr env \<notin> pp_id ` set (ds_popups ds)"
  shows "menus_ok (setup_popup env f win ds)"
proof (cases "de_calloc_ok env")
  case True
  let ?ds = "setup_popup env f win ds"
  have m: "surf_mapped ?ds = surf_mapped ds"
    using True by (auto simp: setup_popup_def upd_surface_def surf_mapped_def fun_eq_iff split: option.split)
  have fl: "ds_grabbed ?ds = ds_grabbed ds" "ds_grab_pending ?ds = ds_grab_pending ds"
    using True by (simp_all add: setup_popup_def upd_surface_def)
  obtain q where q: "ds_popups ?ds = q # ds_popups ds" "pp_id q = de_new_ptr env" "popup_ok q"
    using True by (simp add: setup_popup_def popup_ok_def)
  have "wants_grab ds \<Longrightarrow> wants_grab ?ds" using q(1) m by (auto simp: wants_grab_def)
  moreover have "boxes_ok ?ds" using ok new q by (simp add: menus_ok_def boxes_ok_def)
  ultimately show ?thesis using ok fl by (auto simp: menus_ok_def)
qed (use ok in \<open>simp add: setup_popup_def\<close>)

lemma client_ok:
  assumes ok: "menus_ok ds" and f: "ds_surfaces ds f = Some xs" "xs_mapped xs' = xs_mapped xs"
  shows "menus_ok (ds\<lparr>ds_surfaces := (ds_surfaces ds)(f \<mapsto> xs')\<rparr>)"
proof -
  have "surf_mapped (ds\<lparr>ds_surfaces := (ds_surfaces ds)(f \<mapsto> xs')\<rparr>) = surf_mapped ds"
    using f by (auto simp: surf_mapped_def fun_eq_iff)
  then show ?thesis using ok by (simp add: menus_ok_def boxes_ok_def wants_grab_def)
qed

lemma gone_ok:
  assumes ok: "menus_ok ds" and f: "popups_of ds f = []"
  shows "menus_ok (ds\<lparr>ds_surfaces := (ds_surfaces ds)(f := None)\<rparr>)"
proof -
  have n: "p \<in> set (ds_popups ds) \<Longrightarrow> pp_surface p \<noteq> f" for p
    using f by (auto simp: popups_of_def filter_empty_conv)
  have "wants_grab ds \<Longrightarrow> wants_grab (ds\<lparr>ds_surfaces := (ds_surfaces ds)(f := None)\<rparr>)"
    by (rule wants_grab_mono) (simp_all add: surf_mapped_def n)
  then show ?thesis using ok by (auto simp: menus_ok_def boxes_ok_def)
qed

lemma other_ok: "menus_ok ds \<Longrightarrow> menus_ok (ds\<lparr>ds_seat := s, ds_windows := ws, ds_focused := w\<rparr>)"
  by (simp add: menus_ok_def boxes_ok_def wants_grab_def surf_mapped_def)

lemma popup_step_ok:
  assumes x: "have_xcb cfg" and step: "popup_step cfg ds ds'" and ok: "menus_ok ds"
  shows "menus_ok ds'"
proof -
  have b: "boxes_ok ds" using ok by (simp add: menus_ok_def)
  note to_boxes = menus_ok_def[THEN iffD1, THEN conjunct1]
  show ?thesis
    using step
  proof cases
    case (ps_setup env f win)
    then show ?thesis using setup_popup_ok[OF ok] by simp
  next
    case (ps_commit env f)
    from run_all_ok[where P = menus_ok, OF popup_commit_ok[OF x] ok ps_commit] show ?thesis .
  next
    case (ps_map env f)
    from run_all_ok[where P = menus_ok, OF popup_map_ok[OF x] map_keeps_ok[OF ok] ps_map] show ?thesis .
  next
    case (ps_unmap env f)
    show ?thesis
    proof (cases "popups_of ds f = []")
      case True
      then show ?thesis using ps_unmap unmap_other_ok[OF ok True] by simp
    next
      case False
      have "boxes_ok (set_mapped f False ds)" using b by simp
      from run_all_repairs[where P = boxes_ok and Q = menus_ok, OF popup_unmap_ok[OF x] to_boxes False this ps_unmap]
      show ?thesis .
    qed
  next
    case (ps_destroy env f)
    show ?thesis
    proof (cases "popups_of ds f = []")
      case True
      then show ?thesis using ps_destroy ok by simp
    next
      case False
      from run_all_repairs[where P = boxes_ok and Q = menus_ok, OF popup_destroy_ok[OF x] to_boxes False b ps_destroy]
      show ?thesis .
    qed
  next
    case (ps_gone f)
    then show ?thesis using gone_ok[OF ok] by simp
  next
    case (ps_follow wenv win)
    then show ?thesis using reposition_all_ok[OF ok] by (simp add: reposition_popups_def)
  next
    case (ps_retry env)
    then show ?thesis by (rule update_grab_ok[OF x b])
  next
    case (ps_pointer env)
    then show ?thesis by (rule menu_frame_ok[OF pointer_enter_frame ok])
  next
    case (ps_client f xs xs')
    then show ?thesis using client_ok[OF ok] by simp
  next
    case (ps_other s ws w)
    then show ?thesis using other_ok[OF ok] by simp
  qed
qed

lemma menu_reach_ok:
  assumes x: "have_xcb cfg" and r: "menu_reach cfg ds"
  shows "menus_ok ds"
  using r
proof (induction rule: menu_reach.induct)
  case (menu_start ds)
  then show ?case by (simp add: menus_ok_def boxes_ok_def)
next
  case (menu_step ds ds')
  then show ?case using popup_step_ok[OF x] by blast
qed

section \<open>Properties\<close>

text \<open>
  C2 (invariant). In every run of popup events the box the hit test uses for a menu is the
  geometry of its X window, and the compositor holds or awaits the pointer grab only while a
  mapped menu with a window exists, so the last menu that closes gives the grab back.
\<close>

theorem menu_invariant:
  assumes "have_xcb cfg" "menu_reach cfg ds"
  shows "(\<forall>p \<in> set (ds_popups ds). \<forall>w. pp_xpresent p = Some w \<longrightarrow> pp_root_valid p \<longrightarrow>
        (pp_root_x p, pp_root_y p, pp_root_w p, pp_root_h p) = (pw_x w, pw_y w, pw_width w, pw_height w))
    \<and> (ds_grabbed ds \<or> ds_grab_pending ds \<longrightarrow>
        (\<exists>p \<in> set (ds_popups ds). pp_xpresent p \<noteq> None \<and> surf_mapped ds (pp_surface p)))"
  using menu_reach_ok[OF assms]
  by (auto simp: menus_ok_def boxes_ok_def list_all_iff popup_ok_def pp_box_def wants_grab_def
      wlr_x11_present_window_get_geometry_def)

text \<open>
  Where a menu has the pointer: in its X window, wherever the cached box is; a mapped menu whose X window
  could not be made has a box computed from its placement.
\<close>

definition pointer_in_menu :: "wlx_config \<Rightarrow> wlx_env \<Rightarrow> desk \<Rightarrow> int \<times> int \<Rightarrow> popup \<Rightarrow> bool" where
  "pointer_in_menu cfg env ds pt p \<longleftrightarrow> surf_mapped ds (pp_surface p) \<and>
     (case pp_xpresent p of
        Some w \<Rightarrow> in_box pt (wlr_x11_present_window_get_geometry w)
      | None \<Rightarrow>
          (let q = (if pp_root_valid p then p else popup_update_root_box cfg env ds p)
           in pp_root_valid q \<and> in_box pt (pp_box q)))"

lemma takes_in_window:
  assumes "popup_ok p"
  shows "popup_hit.takes cfg env ds pt p \<longleftrightarrow> pointer_in_menu cfg env ds pt p"
proof (cases "pp_xpresent p")
  case None
  then show ?thesis
    by (simp add: popup_hit.takes_def pointer_in_menu_def fresh_popup_def popup_ready_def Let_def)
next
  case (Some w)
  have size: "in_box pt (wlr_x11_present_window_get_geometry w) \<Longrightarrow> 0 < pw_width w \<and> 0 < pw_height w"
    by (auto simp: in_box_def wlr_x11_present_window_get_geometry_def split: prod.splits)
  show ?thesis
  proof (cases "pp_root_valid p")
    case True
    with assms Some show ?thesis
      by (simp add: popup_hit.takes_def pointer_in_menu_def fresh_popup_def popup_ready_def popup_ok_def)
  next
    case False
    with size Some show ?thesis
      by (auto simp: popup_hit.takes_def pointer_in_menu_def fresh_popup_def popup_ready_def
          popup_update_root_box_def pp_box_def wlr_x11_present_window_get_geometry_def)
  qed
qed

text \<open>
  C10 (functional). The pointer is given to the newest menu whose X window contains it: the hit test
  returns the first menu of the list, which has the newest in front, that is mapped and has the
  pointer in its X window, whatever box was cached for it, and none when there is no such menu; it
  passes over menus that are not mapped or elsewhere.
\<close>

theorem pointer_takes_newest_menu:
  assumes "have_xcb cfg" "menu_reach cfg ds" "q_pointer env = Some pt"
  shows "case fst (popup_at_root_pointer cfg env ds) of
      None \<Rightarrow> list_all (\<lambda>p. \<not> pointer_in_menu cfg env ds pt p) (ds_popups ds)
    | Some pop \<Rightarrow> in_box pt (pp_box pop) \<and> (\<exists>newer old older. ds_popups ds = newer @ old # older
         \<and> pp_id old = pp_id pop \<and> pp_xpresent old = pp_xpresent pop \<and> pointer_in_menu cfg env ds pt old
         \<and> list_all (\<lambda>p. \<not> pointer_in_menu cfg env ds pt p) newer)"
proof -
  have ok: "list_all popup_ok (ds_popups ds)"
    using menu_reach_ok[OF assms(1,2)] by (simp add: menus_ok_def boxes_ok_def)
  have none: "list_all (\<lambda>p. \<not> popup_hit.takes cfg env ds pt p) ps \<longleftrightarrow> list_all (\<lambda>p. \<not> pointer_in_menu cfg env ds pt p) ps"
    if "list_all popup_ok ps" for ps
    using that by (induction ps) (simp_all add: takes_in_window)
  have scan: "fst (popup_at_root_pointer cfg env ds) = fst (scan_popups cfg env ds pt (ds_popups ds))"
    using assms(1,3) by (simp add: popup_at_root_pointer_def query_root_pointer_position_def split: prod.split)
  show ?thesis
  proof (cases "fst (scan_popups cfg env ds pt (ds_popups ds))")
    case None
    then show ?thesis unfolding scan using popup_hit.scan_None[of cfg env ds pt "ds_popups ds"] none[OF ok] by simp
  next
    case (Some pop)
    then obtain newer old older where n: "ds_popups ds = newer @ old # older" "pop = fresh_popup cfg env ds old"
        "popup_hit.takes cfg env ds pt old" "list_all (\<lambda>z. \<not> popup_hit.takes cfg env ds pt z) newer"
      unfolding popup_hit.scan_Some by blast
    have p: "popup_ok old" "list_all popup_ok newer" using ok n(1) by simp_all
    have "in_box pt (pp_box pop)" using n(2,3) by (simp add: popup_hit.takes_def)
    moreover have "pointer_in_menu cfg env ds pt old" "list_all (\<lambda>z. \<not> pointer_in_menu cfg env ds pt z) newer"
      using n(3,4) takes_in_window[OF p(1)] none[OF p(2)] by blast+
    ultimately show ?thesis unfolding scan Some using n(1,2) by auto
  qed
qed

text \<open>The search for the toplevel of a popup ends, since a popup's parent is older than it.\<close>

lemma find_toplevel_returns:
  assumes "\<And>f xs p. surfs f = Some xs \<Longrightarrow> xs_parent xs = Some p \<Longrightarrow> age p < (age f :: nat)"
  shows "\<exists>r. find_toplevel_from surfs p = Some r"
proof (cases p)
  case (Some f)
  have "\<exists>r. find_toplevel_from surfs (Some f) = Some r"
  proof (induction "age f" arbitrary: f rule: less_induct)
    case less
    show ?case
    proof (cases "surfs f")
      case (Some xs)
      have "\<exists>r. find_toplevel_from surfs (xs_parent xs) = Some r"
      proof (cases "xs_parent xs")
        case (Some g)
        with less assms[OF \<open>surfs f = Some xs\<close> Some] show ?thesis by simp
      qed (simp add: find_toplevel_from.simps)
      with Some show ?thesis
        by (subst find_toplevel_from.simps) (auto split: xdg_role.split option.split)
    qed (simp add: find_toplevel_from.simps)
  qed
  with Some show ?thesis by simp
qed (simp add: find_toplevel_from.simps)

text \<open>
  A client may create a popup without a parent; the shell-level handler follows the
  parent pointer without a test, and the compositor crashes.
\<close>

theorem parentless_popup_crashes:
  assumes "ds_surfaces ds f = Some xs" "xs_data xs = None" "xs_parent xs = None"
  shows "server_new_xdg_popup env f ds = Some None"
  using assms
  by (simp add: server_new_xdg_popup_def surf_data_def setup_under_toplevel_def
      popup_find_toplevel_window_def find_toplevel_from.simps)

text \<open>What wlroots announces for a new popup: first to the shell, then to the parent, whose
  listener is its window's or its popup's.\<close>

definition announce_to_popup :: "desk_env \<Rightarrow> desk_env \<Rightarrow> nat \<Rightarrow> popup \<Rightarrow> desk \<Rightarrow> desk option option" where
  "announce_to_popup env1 env2 f from_pop ds =
     (case server_new_xdg_popup env1 f ds of
        None \<Rightarrow> None
      | Some None \<Rightarrow> Some None
      | Some (Some ds1) \<Rightarrow> handle_new_xdg_popup env2 f from_pop ds1)"

definition announce_to_window :: "desk_env \<Rightarrow> desk_env \<Rightarrow> nat \<Rightarrow> wid \<Rightarrow> desk \<Rightarrow> desk option option" where
  "announce_to_window env1 env2 f win ds =
     map_option (map_option (window_new_popup env2 f win)) (server_new_xdg_popup env1 f ds)"

lemma setup_popup_count:
  "de_calloc_ok env \<Longrightarrow> length (popups_of (setup_popup env f win ds) f) = Suc (length (popups_of ds f))"
  by (simp add: popups_of_def setup_popup_def)

lemma setup_popup_data:
  "de_calloc_ok env \<Longrightarrow> ds_surfaces ds f = Some xs \<Longrightarrow>
    surf_data (setup_popup env f win ds) f = Some (de_new_ptr env)"
  by (simp add: setup_popup_def surf_data_def upd_surface_def)

text \<open>
  A menu of a window is set up once, since the window's listener tests whether the
  shell's handler has done it; a submenu is set up twice, since the popup's listener does not: two
  popups, and once it maps two X windows, show the same surface.
\<close>

theorem submenu_set_up_twice:
  assumes "ds_surfaces ds f = Some xs" "xs_data xs = None" "popups_of ds f = []"
    and "popup_find_toplevel_window ds f = Some (FoundToplevel win)"
    and "de_calloc_ok env1" "de_calloc_ok env2" "pp_parent from_pop = Some win"
  shows "\<exists>ds1 ds2. announce_to_window env1 env2 f win ds = Some (Some ds1)
      \<and> announce_to_popup env1 env2 f from_pop ds = Some (Some ds2)
      \<and> length (popups_of ds1 f) = 1 \<and> length (popups_of ds2 f) = 2"
proof -
  let ?a = "setup_popup env1 f win ds"
  have s: "server_new_xdg_popup env1 f ds = Some (Some ?a)"
    using assms(1,2,4) by (simp add: server_new_xdg_popup_def surf_data_def setup_under_toplevel_def)
  have "window_new_popup env2 f win ?a = ?a"
    using setup_popup_data[OF assms(5,1)] by (simp add: window_new_popup_def)
  moreover have "handle_new_xdg_popup env2 f from_pop ?a = Some (Some (setup_popup env2 f win ?a))"
    using assms(7) by (simp add: handle_new_xdg_popup_def)
  ultimately show ?thesis
    using s setup_popup_count[OF assms(5), of f win ds] setup_popup_count[OF assms(6), of f win ?a] assms(3)
    by (simp add: announce_to_window_def announce_to_popup_def)
qed

lemma set_active_log: "ds_log (set_active_window env w ds) = ds_log ds"
  by (simp add: set_active_window_def upd_seat_def upd_win_def Let_def split: option.split)

lemma pointer_enter_log:
  assumes "pointer_enter_surface_under_cursor cfg env ds = Some ds'"
  shows "ds_log ds' = ds_log ds"
proof -
  obtain h ds1 where s: "surface_under_root_pointer cfg env ds = Some (h, ds1)"
    using assms by (cases "surface_under_root_pointer cfg env ds")
      (auto simp: pointer_enter_surface_under_cursor_def)
  have "ds_log ds1 = ds_log ds"
    using s
    by (auto simp: surface_under_root_pointer_def split: option.splits prod.splits)
      (metis hit_fields(8) snd_conv)+
  then show ?thesis
    using assms s
    by (auto simp: pointer_enter_surface_under_cursor_def Let_def upd_seat_def set_active_log
        split: option.splits prod.splits if_splits)
qed

text \<open>The X server's side of the grab: it ends when its window is unmapped or destroyed.\<close>

fun host_grab :: "pw_call \<Rightarrow> xid option \<Rightarrow> xid option" where
  "host_grab (PwGrab w) g = Some w"
| "host_grab PwUngrab g = None"
| "host_grab (PwUnmap w) g = (if g = Some w then None else g)"
| "host_grab (PwDestroy w) g = (if g = Some w then None else g)"
| "host_grab _ g = g"

definition host_grab_of :: "desk \<Rightarrow> xid option" where
  "host_grab_of ds = fold host_grab (ds_log ds) None"

text \<open>
  When the menu that holds the grab closes while another one is open, the X server ends
  the grab with the menu's window, but the compositor believes it still has it and takes no new one.
\<close>

theorem menu_switch_loses_grab:
  assumes "have_xcb cfg" "find_popup ds i = Some a" "pp_xpresent a = Some wa"
    and "ds_grabbed ds" "host_grab_of ds = Some (pw_win wa)"
    and "b \<in> set (ds_popups ds)" "pp_id b \<noteq> i" "pp_xpresent b \<noteq> None" "surf_mapped ds (pp_surface b)"
    and "popup_unmap cfg env i ds = Some ds'"
  shows "ds_grabbed ds' \<and> wants_grab ds' \<and> host_grab_of ds' = None"
proof -
  define d where "d = (if pt_focus (ds_seat ds) = Some (pp_surface a)
      then upd_seat (wlr_seat_pointer_clear_focus (seat_env_of env ds)) ds else ds)"
  have d: "ds_popups d = ds_popups ds" "surf_mapped d = surf_mapped ds" "ds_log d = ds_log ds"
    "ds_grabbed d = ds_grabbed ds" by (simp_all add: d_def upd_seat_def surf_mapped_def fun_eq_iff)
  then have f1: "find_popup d i = Some a" using assms(2) by (simp add: find_popup_def)
  let ?h = "hide_popup i d"
  obtain q where q: "?h = desk_say [PwDestroy (pw_win wa)] (upd_popup i (\<lambda>_. q) d)"
    unfolding hide_popup_def f1 option.case popup_destroy_xpresent_def prod.case assms(3)
      wlr_x11_present_window_destroy_def by blast
  have "b \<in> set (ds_popups (upd_popup i (\<lambda>_. q) d))"
    using assms(6,7) unfolding upd_popup_def d(1) by force
  then have h: "ds_log ?h = ds_log ds @ [PwDestroy (pw_win wa)]" "ds_grabbed ?h"
    "surf_mapped ?h = surf_mapped ds" "b \<in> set (ds_popups ?h)"
    unfolding q using d assms(4)
    by (simp_all add: desk_say_def upd_popup_def surf_mapped_def fun_eq_iff)
  from h(3,4) have w: "wants_grab ?h" using assms(8,9) by (auto simp: wants_grab_def)
  then have "fst (grab_window ?h (ds_popups ?h) (False, XCB_WINDOW_NONE))"
    using grab_window_want[of ?h "ds_popups ?h" "(False, XCB_WINDOW_NONE)"] by (simp add: wants_grab_def)
  then have "wlx_popup_update_pointer_grab cfg env ?h = Some ?h"
    using h(2) assms(1) by (auto simp: wlx_popup_update_pointer_grab_def split: prod.split)
  then have e: "pointer_enter_surface_under_cursor cfg env ?h = Some ds'"
    using assms(2,10) unfolding d_def by (simp add: popup_unmap_def Let_def wlx_pointer_refresh_focus_def)
  note f = pointer_enter_frame[OF e]
  have "ds_grabbed ds'" "wants_grab ds'" using f h(2) w menu_frame_wants[OF f] by (simp_all add: menu_frame_def)
  moreover have "host_grab_of ds' = None"
    using pointer_enter_log[OF e] h(1) assms(5) by (simp add: host_grab_of_def)
  ultimately show ?thesis by simp
qed

text \<open>
  A menu whose buffer is larger than its surface, as with a buffer scale of 2, gets a window as large as
  the buffer, and a pointer in its far half is reported outside the surface.
\<close>

lemma scaled_buffer_menu_overshoots:
  assumes "content_scale cfg = 1" "xs_buffer xs = Some (2 * n, 2 * n)" "xs_width xs = n" "1 \<le> n" "n \<le> 16384"
    and "(pp_root_w pop, pp_root_h pop) = window_size_for cfg xs sz" "de_scene_at env = (\<lambda>_ _. None)"
    and "n \<le> k" "k < 2 * n"
  shows "in_box (pp_root_x pop + k, pp_root_y pop) (pp_box pop)
    \<and> (\<exists>x y. hit_popup cfg env (pp_root_x pop + k, pp_root_y pop) pop = (pp_surface pop, x, y, pp_parent pop, Some (pp_id pop))
        \<and> of_int (xs_width xs) \<le> x)"
  using assms
  by (auto simp: window_size_for_def in_box_def pp_box_def hit_popup_def refine_by_scene_def Let_def
      wlx_pointer_to_surface_def split: option.split prod.split)






end
