(* ===== verification/Subpresent.thy ===== *)
theory Subpresent
  imports Popups
begin

text \<open>
  Subsurfaces that overflow their toplevel (\<open>src/subpresent.c\<close>): each is shown in an X window of
  its own, like a popup, while the copy in the parent's scene is switched off. A promoted subsurface
  is named by its surface, which at most one element of the list has.
\<close>

section \<open>State operations\<close>

definition subpresent_find :: "desk \<Rightarrow> nat \<Rightarrow> subpresent option" where
  "subpresent_find ds f = List.find (\<lambda>sp. sp_surface sp = f) (ds_subs ds)"

definition upd_sub :: "nat \<Rightarrow> (subpresent \<Rightarrow> subpresent) \<Rightarrow> desk \<Rightarrow> desk" where
  "upd_sub f g ds = ds\<lparr>ds_subs := map (\<lambda>sp. if sp_surface sp = f then g sp else sp) (ds_subs ds)\<rparr>"

fun scene_set_surface_enabled :: "nat \<Rightarrow> bool \<Rightarrow> scene_node \<Rightarrow> scene_node" where
  "scene_set_surface_enabled f on (SceneBuffer i e x y s w h) =
     SceneBuffer i (if map_option fst s = Some f then on else e) x y s w h"
| "scene_set_surface_enabled f on (SceneTree i e x y cs) =
     SceneTree i e x y (map (scene_set_surface_enabled f on) cs)"
| "scene_set_surface_enabled f on (SceneRect i e x y) = SceneRect i e x y"

definition subpresent_set_scene_enabled :: "subpresent \<Rightarrow> bool \<Rightarrow> desk \<Rightarrow> desk" where
  "subpresent_set_scene_enabled sp on =
     upd_win (sp_parent sp)
       (\<lambda>w. w\<lparr>scene_tree := map_option (scene_set_surface_enabled (sp_surface sp) on) (scene_tree w)\<rparr>)"

definition subpresent_handle_xpresent_destroy :: "nat \<Rightarrow> desk \<Rightarrow> desk" where
  "subpresent_handle_xpresent_destroy f ds =
     (case subpresent_find ds f of
        None \<Rightarrow> ds
      | Some sp \<Rightarrow> subpresent_set_scene_enabled sp True (upd_sub f (\<lambda>s. s\<lparr>sp_xpresent := None\<rparr>) ds))"

section \<open>Placement and presenting\<close>

definition subpresent_compute_root ::
  "wlx_config \<Rightarrow> wlx_env \<Rightarrow> desk \<Rightarrow> subpresent \<Rightarrow> (int \<times> int \<times> int \<times> int) option" where
  "subpresent_compute_root cfg env ds sp =
     (case (find_win ds (Some (sp_parent sp)), ds_surfaces ds (sp_surface sp)) of
        (Some parent, Some surf) \<Rightarrow>
          if xs_width surf \<le> 0 \<or> xs_height surf \<le> 0 then None
          else (case window_content_root_position cfg env parent of
              None \<Rightarrow> None
            | Some (ox, oy) \<Rightarrow>
                let (dx, dy) = (case ssd_origin cfg parent of None \<Rightarrow> (0, 0) | Some g \<Rightarrow> g);
                    w = wlx_scale_size cfg (xs_width surf); h = wlx_scale_size cfg (xs_height surf)
                in Some (c_int16 (ox + wlx_scale_size cfg (sp_sx sp - dx)),
                         c_int16 (oy + wlx_scale_size cfg (sp_sy sp - dy)),
                         if w < 1 then 1 else w, if h < 1 then 1 else h))
      | _ \<Rightarrow> None)"

text \<open>The part of \<open>subpresent_render_and_present\<close> that shows the client's buffer as it is, after
  the window has taken its size at scale 1.\<close>

definition sub_fit :: "wlx_config \<Rightarrow> (int \<times> int) option \<Rightarrow> subpresent \<Rightarrow> present_window \<Rightarrow>
    subpresent \<times> present_window \<times> pw_call list" where
  "sub_fit cfg buf sp win =
     (case buf of
        None \<Rightarrow> (sp, win, [])
      | Some (bw, bh) \<Rightarrow>
          if scale_is_1 cfg \<and> 0 < bw \<and> 0 < bh \<and> (bw \<noteq> pw_width win \<or> bh \<noteq> pw_height win) then
            (case wlr_x11_present_window_configure (pw_x win) (pw_y win) bw bh win of
               (win1, cs) \<Rightarrow> (sp\<lparr>sp_root_w := bw, sp_root_h := bh\<rparr>, win1, cs))
          else (sp, win, []))"

definition sub_composite :: "desk_env \<Rightarrow> present_window \<Rightarrow> bool \<times> present_window \<times> pw_call list" where
  "sub_composite env win =
     (if \<not> de_format_ok env \<or> \<not> alloc_ok (de_env env) (pw_width win) (pw_height win)
         \<or> \<not> de_pass_ok env \<or> \<not> de_submit_ok env then (False, win, [])
      else wlr_x11_present_window_present (import_ok (de_env env) (pw_width win) (pw_height win))
             (pw_width win) (pw_height win) win)"

definition subpresent_render_and_present ::
  "wlx_config \<Rightarrow> desk_env \<Rightarrow> desk \<Rightarrow> subpresent \<Rightarrow> bool \<times> subpresent \<times> pw_call list" where
  "subpresent_render_and_present cfg env ds sp =
     (case sp_xpresent sp of
        None \<Rightarrow> (False, sp, [])
      | Some win \<Rightarrow>
          if pw_width win < 1 \<or> pw_height win < 1 then (False, sp, [])
          else
            let buf = Option.bind (ds_surfaces ds (sp_surface sp)) xs_buffer
            in case sub_fit cfg buf sp win of
              (sp1, win1, cs1) \<Rightarrow>
                (case (case buf of None \<Rightarrow> (False, win1, [])
                       | Some (bw, bh) \<Rightarrow>
                           wlr_x11_present_window_present (de_client_pixmap env (sp_surface sp)) bw bh win1) of
                   (True, win2, cs2) \<Rightarrow> (True, sp1\<lparr>sp_xpresent := Some win2\<rparr>, cs1 @ cs2)
                 | (False, win2, cs2) \<Rightarrow> (case sub_composite env win2 of
                       (ok, win3, cs3) \<Rightarrow> (ok, sp1\<lparr>sp_xpresent := Some win3\<rparr>, cs1 @ cs2 @ cs3))))"

definition subpresent_position_and_present :: "wlx_config \<Rightarrow> desk_env \<Rightarrow> nat \<Rightarrow> desk \<Rightarrow> desk" where
  "subpresent_position_and_present cfg env f ds =
     (case subpresent_find ds f of
        None \<Rightarrow> ds
      | Some sp \<Rightarrow>
          if \<not> surf_mapped ds f then ds
          else case subpresent_compute_root cfg (de_env env) ds sp of
              None \<Rightarrow> ds
            | Some (rx, ry, w, h) \<Rightarrow>
                (case (case sp_xpresent sp of
                         Some win \<Rightarrow> Some (win, [])
                       | None \<Rightarrow> wlr_x11_present_window_create (de_pw env)) of
                   None \<Rightarrow> ds
                 | Some (win, cs0) \<Rightarrow>
                     (case wlr_x11_present_window_configure rx ry w h win of
                        (win1, cs1) \<Rightarrow> (case wlr_x11_present_window_map win1 of
                          (win2, cs2) \<Rightarrow>
                            let sp1 = sp\<lparr>sp_xpresent := Some win2, sp_root_x := rx, sp_root_y := ry,
                                  sp_root_w := w, sp_root_h := h, sp_root_valid := True\<rparr>;
                                ds1 = subpresent_set_scene_enabled sp1 False (upd_sub f (\<lambda>_. sp1) ds)
                            in case subpresent_render_and_present cfg env ds1 sp1 of
                                (ok, sp2, cs3) \<Rightarrow>
                                  desk_say (cs0 @ cs1 @ cs2 @ cs3) (upd_sub f (\<lambda>_. sp2) ds1)))))"

definition subpresent_handle_surface_commit :: "wlx_config \<Rightarrow> desk_env \<Rightarrow> nat \<Rightarrow> desk \<Rightarrow> desk" where
  "subpresent_handle_surface_commit cfg env f ds = subpresent_position_and_present cfg env f ds"

definition subpresent_destroy :: "nat \<Rightarrow> desk \<Rightarrow> desk" where
  "subpresent_destroy f ds =
     (case subpresent_find ds f of
        None \<Rightarrow> ds
      | Some sp \<Rightarrow>
          desk_say (case sp_xpresent sp of None \<Rightarrow> [] | Some win \<Rightarrow> wlr_x11_present_window_destroy win)
            ((subpresent_set_scene_enabled sp True ds)
               \<lparr>ds_subs := filter (\<lambda>s. sp_surface s \<noteq> f) (ds_subs ds)\<rparr>))"

text \<open>Whether there is one afterwards, and the state.\<close>

definition subpresent_get_or_create ::
  "desk_env \<Rightarrow> wid \<Rightarrow> nat \<Rightarrow> int \<Rightarrow> int \<Rightarrow> desk \<Rightarrow> bool \<times> desk" where
  "subpresent_get_or_create env win f sx sy ds =
     (if subpresent_find ds f \<noteq> None then
        (True, upd_sub f (\<lambda>sp. sp\<lparr>sp_sx := sx, sp_sy := sy, sp_parent := win\<rparr>) ds)
      else if \<not> de_calloc_ok env then (False, ds)
      else (True, ds\<lparr>ds_subs := \<lparr>sp_parent = win, sp_surface = f, sp_xpresent = None, sp_root_x = 0,
                        sp_root_y = 0, sp_root_w = 0, sp_root_h = 0, sp_root_valid = False,
                        sp_sx = sx, sp_sy = sy\<rparr> # ds_subs ds\<rparr>))"

section \<open>Promoting and demoting\<close>

definition overflows :: "int \<Rightarrow> int \<Rightarrow> int \<Rightarrow> int \<Rightarrow> int \<Rightarrow> int \<Rightarrow> bool" where
  "overflows root_w root_h sx sy w h \<longleftrightarrow> sx < 0 \<or> sy < 0 \<or> sx + w > root_w \<or> sy + h > root_h"

text \<open>The kept surfaces, oldest first, with the capacity of their array.\<close>

record sync_ctx =
  sy_keep :: "nat list"
  sy_cap :: nat
  sy_desk :: desk

text \<open>The test of the iterator up to \<open>overflows\<close>.\<close>

definition promotes :: "desk \<Rightarrow> nat \<Rightarrow> int \<Rightarrow> int \<Rightarrow> nat \<times> int \<times> int \<Rightarrow> bool" where
  "promotes ds rsurf root_w root_h v =
     (case v of (f, sx, sy) \<Rightarrow>
        f \<noteq> rsurf \<and> surf_mapped ds f \<and>
        (case ds_surfaces ds f of
           None \<Rightarrow> False
         | Some xs \<Rightarrow> 0 < xs_width xs \<and> 0 < xs_height xs
                      \<and> overflows root_w root_h sx sy (xs_width xs) (xs_height xs)))"

definition subpresent_sync_iterator ::
  "wlx_config \<Rightarrow> desk_env \<Rightarrow> (nat \<Rightarrow> bool) \<Rightarrow> wid \<Rightarrow> nat \<Rightarrow> int \<Rightarrow> int \<Rightarrow>
    nat \<times> int \<times> int \<Rightarrow> sync_ctx \<Rightarrow> sync_ctx" where
  "subpresent_sync_iterator cfg env grow_ok win rsurf root_w root_h v ctx =
     (if \<not> promotes (sy_desk ctx) rsurf root_w root_h v then ctx
      else case v of (f, sx, sy) \<Rightarrow>
        let full = sy_cap ctx \<le> length (sy_keep ctx);
            ncap = (if \<not> full then sy_cap ctx else if sy_cap ctx \<noteq> 0 then sy_cap ctx * 2 else 8)
        in if full \<and> \<not> grow_ok ncap then ctx
           else case subpresent_get_or_create env win f sx sy (sy_desk ctx) of
             (ok, ds1) \<Rightarrow>
               ctx\<lparr>sy_keep := sy_keep ctx @ [f], sy_cap := ncap,
                   sy_desk := (if ok then subpresent_position_and_present cfg env f ds1 else ds1)\<rparr>)"

definition wlx_window_destroy_subpresents :: "wid \<Rightarrow> desk \<Rightarrow> desk" where
  "wlx_window_destroy_subpresents win ds =
     fold subpresent_destroy (map sp_surface (filter (\<lambda>sp. sp_parent sp = win) (ds_subs ds))) ds"

text \<open>\<open>tree\<close> is what \<open>wlr_surface_for_each_surface\<close> visits: the surfaces of the window's tree with
  their offsets to its root.\<close>

definition wlx_window_sync_subpresents ::
  "wlx_config \<Rightarrow> desk_env \<Rightarrow> (nat \<Rightarrow> bool) \<Rightarrow> (nat \<times> int \<times> int) list \<Rightarrow> wid \<Rightarrow> desk \<Rightarrow> desk" where
  "wlx_window_sync_subpresents cfg env grow_ok tree win ds =
     (case find_win ds (Some win) of
        None \<Rightarrow> ds
      | Some w \<Rightarrow>
          if w_output w = None then wlx_window_destroy_subpresents win ds
          else
            let ctx = fold (subpresent_sync_iterator cfg env grow_ok win (de_toplevel_surface env win)
                        (tl_surf_width (toplevel w)) (tl_surf_height (toplevel w)))
                      tree \<lparr>sy_keep = [], sy_cap = 0, sy_desk = ds\<rparr>;
                demoted = filter (\<lambda>sp. sp_parent sp = win \<and> sp_surface sp \<notin> set (sy_keep ctx))
                            (ds_subs (sy_desk ctx))
            in fold subpresent_destroy (map sp_surface demoted) (sy_desk ctx))"

definition wlx_window_reposition_subpresents :: "wlx_config \<Rightarrow> desk_env \<Rightarrow> wid \<Rightarrow> desk \<Rightarrow> desk" where
  "wlx_window_reposition_subpresents cfg env win ds =
     fold (subpresent_position_and_present cfg env)
       (map sp_surface (filter (\<lambda>sp. sp_parent sp = win \<and> sp_xpresent sp \<noteq> None) (ds_subs ds))) ds"

text \<open>A moved window takes its menus and its promoted subsurfaces along.\<close>

definition wlx_reposition_popups_for_window :: "wlx_config \<Rightarrow> desk_env \<Rightarrow> wid \<Rightarrow> desk \<Rightarrow> desk" where
  "wlx_reposition_popups_for_window cfg env win ds =
     wlx_window_reposition_subpresents cfg env win (reposition_popups cfg (de_env env) win ds)"

section \<open>What the operations keep\<close>

text \<open>Which subsurface is promoted under which window.\<close>

definition sub_key :: "subpresent \<Rightarrow> nat \<times> wid" where
  "sub_key sp = (sp_surface sp, sp_parent sp)"

lemma upd_sub_key:
  assumes "\<And>sp. sp \<in> set (ds_subs ds) \<Longrightarrow> sp_surface sp = f \<Longrightarrow> sub_key (g sp) = sub_key sp"
  shows "map sub_key (ds_subs (upd_sub f g ds)) = map sub_key (ds_subs ds)"
  using assms by (simp add: upd_sub_def)

lemma scene_enabled_fields [simp]:
  "ds_subs (subpresent_set_scene_enabled sp on ds) = ds_subs ds"
  "ds_surfaces (subpresent_set_scene_enabled sp on ds) = ds_surfaces ds"
  by (simp_all add: subpresent_set_scene_enabled_def upd_win_def)

lemma upd_sub_surfaces [simp]: "ds_surfaces (upd_sub f g ds) = ds_surfaces ds"
  by (simp add: upd_sub_def)

lemma desk_say_fields [simp]:
  "ds_subs (desk_say cs ds) = ds_subs ds" "ds_surfaces (desk_say cs ds) = ds_surfaces ds"
  by (simp_all add: desk_say_def)

lemma sub_fit_key: "sub_key (fst (sub_fit cfg buf sp win)) = sub_key sp"
  by (auto simp: sub_fit_def sub_key_def split: option.split prod.split)

lemma sub_composite_key:
  "sub_key (sp\<lparr>sp_xpresent := x\<rparr>) = sub_key sp" "sub_key (sp\<lparr>sp_root_w := a, sp_root_h := b\<rparr>) = sub_key sp"
  by (simp_all add: sub_key_def)

lemma sub_render_key: "sub_key (fst (snd (subpresent_render_and_present cfg env ds sp))) = sub_key sp"
  using sub_fit_key[of cfg _ sp]
  by (auto simp: subpresent_render_and_present_def Let_def sub_composite_key split: option.split prod.split bool.split)
     (metis fst_conv)+

text \<open>The abstract state: the window each promoted surface is shown over.\<close>

definition promoted_under :: "desk \<Rightarrow> nat \<rightharpoonup> wid" where
  "promoted_under ds = map_of (map sub_key (ds_subs ds))"

lemma find_None: "subpresent_find ds f = None \<longleftrightarrow> promoted_under ds f = None"
  by (auto simp: subpresent_find_def promoted_under_def find_None_iff map_of_eq_None_iff sub_key_def image_iff)

lemma find_Some:
  assumes "subpresent_find ds f = Some sp"
  shows "promoted_under ds f = Some (sp_parent sp)" "sp_surface sp = f" "sp \<in> set (ds_subs ds)"
proof -
  have "List.find (\<lambda>sp. sp_surface sp = f) sps = Some sp \<Longrightarrow>
      map_of (map sub_key sps) f = Some (sp_parent sp) \<and> sp_surface sp = f \<and> sp \<in> set sps" for sps
    by (induction sps) (auto simp: sub_key_def split: if_splits)
  with assms show "promoted_under ds f = Some (sp_parent sp)" "sp_surface sp = f" "sp \<in> set (ds_subs ds)"
    by (auto simp: subpresent_find_def promoted_under_def)
qed

lemma promoted_upd:
  assumes "\<And>sp. sp_surface sp = f \<Longrightarrow> sub_key (g sp) = (f, win)" "promoted_under ds f \<noteq> None"
  shows "promoted_under (upd_sub f g ds) = (promoted_under ds)(f \<mapsto> win)"
proof -
  have "map_of (map (sub_key \<circ> (\<lambda>sp. if sp_surface sp = f then g sp else sp)) sps) x
      = (if x = f \<and> map_of (map sub_key sps) f \<noteq> None then Some win else map_of (map sub_key sps) x)" for sps x
  proof (induction sps)
    case (Cons sp sps)
    show ?case
    proof (cases "sp_surface sp = f")
      case True
      then have "sub_key (g sp) = (f, win)" "sub_key sp = (f, sp_parent sp)"
        using assms(1) by (auto simp: sub_key_def)
      with True Cons.IH show ?thesis by simp
    next
      case False
      moreover have "sub_key sp = (sp_surface sp, sp_parent sp)" by (simp add: sub_key_def)
      ultimately show ?thesis using Cons.IH by (cases "x = f") auto
    qed
  qed simp
  with assms(2) show ?thesis by (auto simp: promoted_under_def upd_sub_def fun_eq_iff)
qed

lemma surfaces_upd:
  assumes "\<And>sp. sp_surface sp = f \<Longrightarrow> sp_surface (g sp) = f"
  shows "map sp_surface (ds_subs (upd_sub f g ds)) = map sp_surface (ds_subs ds)"
  using assms by (simp add: upd_sub_def)

text \<open>What showing a promoted subsurface leaves alone.\<close>

definition same_promotions :: "desk \<Rightarrow> desk \<Rightarrow> bool" where
  "same_promotions ds ds' \<longleftrightarrow> promoted_under ds' = promoted_under ds \<and> ds_surfaces ds' = ds_surfaces ds
     \<and> map sp_surface (ds_subs ds') = map sp_surface (ds_subs ds)"

lemma same_promotions_refl: "same_promotions ds ds"
  by (simp add: same_promotions_def)

lemma same_promotions_trans: "same_promotions a b \<Longrightarrow> same_promotions b c \<Longrightarrow> same_promotions a c"
  by (simp add: same_promotions_def)

lemma replace_same:
  assumes "subpresent_find ds f = Some sp" "sub_key sp' = sub_key sp"
  shows "same_promotions ds (upd_sub f (\<lambda>_. sp') ds)"
proof -
  have k: "sub_key sp' = (f, sp_parent sp)" using assms find_Some(2)[OF assms(1)] by (simp add: sub_key_def)
  then have "promoted_under (upd_sub f (\<lambda>_. sp') ds) = (promoted_under ds)(f \<mapsto> sp_parent sp)"
    using find_Some[OF assms(1)] by (intro promoted_upd) auto
  also have "\<dots> = promoted_under ds" using find_Some(1)[OF assms(1)] by (simp add: fun_upd_idem)
  finally show ?thesis using k surfaces_upd[of f "\<lambda>_. sp'" ds] by (simp add: same_promotions_def sub_key_def)
qed

lemma position_same: "same_promotions ds (subpresent_position_and_present cfg env f ds)"
proof (cases "subpresent_find ds f")
  case None
  then show ?thesis by (simp add: subpresent_position_and_present_def same_promotions_refl)
next
  case (Some sp)
  have shown: "same_promotions ds (desk_say cs (upd_sub f (\<lambda>_. sp2)
      (subpresent_set_scene_enabled sp' on (upd_sub f (\<lambda>_. sp1) ds))))"
    if k: "sub_key sp1 = sub_key sp" "sub_key sp2 = sub_key sp" for cs sp' on sp1 sp2
  proof -
    have f: "sp_surface sp = f" using find_Some[OF Some] by simp
    have s1: "sp_surface sp1 = f" "sp_surface sp2 = f" using k f by (simp_all add: sub_key_def)
    have "ds_subs (upd_sub f (\<lambda>_. sp2) (subpresent_set_scene_enabled sp' on (upd_sub f (\<lambda>_. sp1) ds)))
        = ds_subs (upd_sub f (\<lambda>_. sp2) ds)"
      using s1 by (simp add: upd_sub_def comp_def if_distrib cong: if_cong)
    with replace_same[OF Some k(2)] show ?thesis by (simp add: same_promotions_def promoted_under_def)
  qed
  have render: "sub_key sp2 = sub_key sp1"
    if "subpresent_render_and_present cfg env ds' sp1 = (ok, sp2, cs)" for ds' sp1 ok sp2 cs
    using sub_render_key[of cfg env ds' sp1] that by simp
  show ?thesis
    using Some shown render
    by (auto simp: subpresent_position_and_present_def Let_def same_promotions_refl sub_key_def
             split: option.split prod.split)
qed

lemma get_or_create_promotes:
  assumes "de_calloc_ok env" "subpresent_get_or_create env win f sx sy ds = (ok, ds')"
  shows "ok" "promoted_under ds' = (promoted_under ds)(f \<mapsto> win)" "ds_surfaces ds' = ds_surfaces ds"
    "distinct (map sp_surface (ds_subs ds)) \<Longrightarrow> distinct (map sp_surface (ds_subs ds'))"
proof -
  show "ok" "ds_surfaces ds' = ds_surfaces ds"
    using assms by (auto simp: subpresent_get_or_create_def split: if_splits)
  show "promoted_under ds' = (promoted_under ds)(f \<mapsto> win)"
  proof (cases "subpresent_find ds f = None")
    case True
    then show ?thesis using assms
      by (auto simp: subpresent_get_or_create_def promoted_under_def sub_key_def)
  next
    case False
    then show ?thesis using assms find_None[of ds f]
      by (auto simp: subpresent_get_or_create_def sub_key_def intro!: promoted_upd)
  qed
  assume d: "distinct (map sp_surface (ds_subs ds))"
  show "distinct (map sp_surface (ds_subs ds'))"
  proof (cases "subpresent_find ds f = None")
    case True
    then have "f \<notin> sp_surface ` set (ds_subs ds)" by (auto simp: subpresent_find_def find_None_iff)
    with True d assms show ?thesis by (auto simp: subpresent_get_or_create_def)
  next
    case False
    with d assms surfaces_upd[of f "\<lambda>sp. sp\<lparr>sp_sx := sx, sp_sy := sy, sp_parent := win\<rparr>" ds]
    show ?thesis by (auto simp: subpresent_get_or_create_def)
  qed
qed

lemma destroy_demotes:
  "promoted_under (subpresent_destroy f ds) = (promoted_under ds)(f := None)"
  "ds_surfaces (subpresent_destroy f ds) = ds_surfaces ds"
proof -
  have m: "map_of (map sub_key (filter (\<lambda>s. sp_surface s \<noteq> f) sps)) = (map_of (map sub_key sps))(f := None)" for sps
    by (induction sps) (auto simp: sub_key_def fun_eq_iff)
  show "promoted_under (subpresent_destroy f ds) = (promoted_under ds)(f := None)"
  proof (cases "subpresent_find ds f")
    case None
    with find_None[of ds f] show ?thesis by (simp add: subpresent_destroy_def fun_upd_idem)
  next
    case (Some sp)
    with m[of "ds_subs ds"] show ?thesis by (simp add: subpresent_destroy_def promoted_under_def)
  qed
  show "ds_surfaces (subpresent_destroy f ds) = ds_surfaces ds"
    by (simp add: subpresent_destroy_def split: option.split)
qed

lemma destroy_all_demotes:
  "promoted_under (fold subpresent_destroy fs ds) = promoted_under ds |` (- set fs)"
  by (induction fs arbitrary: ds) (auto simp: destroy_demotes restrict_map_def fun_eq_iff)

text \<open>One visit of the walk, where the allocations succeed.\<close>

lemma iterator_step:
  assumes "de_calloc_ok env" "\<And>n. grow_ok n"
    and ctx': "ctx' = subpresent_sync_iterator cfg env grow_ok win rsurf rw rh v ctx"
  shows "promoted_under (sy_desk ctx') =
      (if promotes (sy_desk ctx) rsurf rw rh v then (promoted_under (sy_desk ctx))(fst v \<mapsto> win)
       else promoted_under (sy_desk ctx))"
    "set (sy_keep ctx') = (if promotes (sy_desk ctx) rsurf rw rh v then insert (fst v) (set (sy_keep ctx))
       else set (sy_keep ctx))"
    "ds_surfaces (sy_desk ctx') = ds_surfaces (sy_desk ctx)"
    "distinct (map sp_surface (ds_subs (sy_desk ctx))) \<Longrightarrow> distinct (map sp_surface (ds_subs (sy_desk ctx')))"
proof -
  obtain f sx sy where v: "v = (f, sx, sy)" by (cases v)
  obtain ok ds1 where g: "subpresent_get_or_create env win f sx sy (sy_desk ctx) = (ok, ds1)"
    by (cases "subpresent_get_or_create env win f sx sy (sy_desk ctx)")
  note g1 = get_or_create_promotes[OF assms(1) g]
  have p: "same_promotions ds1 (subpresent_position_and_present cfg env f ds1)" by (rule position_same)
  have c: "ctx' = (if promotes (sy_desk ctx) rsurf rw rh v then ctx' else ctx)"
    "promotes (sy_desk ctx) rsurf rw rh v \<Longrightarrow> sy_desk ctx' = subpresent_position_and_present cfg env f ds1"
    "promotes (sy_desk ctx) rsurf rw rh v \<Longrightarrow> sy_keep ctx' = sy_keep ctx @ [f]"
    using g g1(1) assms(2) by (simp_all add: ctx' subpresent_sync_iterator_def v Let_def)
  show "promoted_under (sy_desk ctx') =
      (if promotes (sy_desk ctx) rsurf rw rh v then (promoted_under (sy_desk ctx))(fst v \<mapsto> win)
       else promoted_under (sy_desk ctx))"
    "set (sy_keep ctx') = (if promotes (sy_desk ctx) rsurf rw rh v then insert (fst v) (set (sy_keep ctx))
       else set (sy_keep ctx))"
    "ds_surfaces (sy_desk ctx') = ds_surfaces (sy_desk ctx)"
    "distinct (map sp_surface (ds_subs (sy_desk ctx))) \<Longrightarrow> distinct (map sp_surface (ds_subs (sy_desk ctx')))"
    using c(1) c(2,3) p g1(2-4) by (auto simp: v same_promotions_def split: if_splits)
qed

lemma promotes_surfaces:
  "ds_surfaces ds' = ds_surfaces ds \<Longrightarrow> promotes ds' rsurf rw rh v = promotes ds rsurf rw rh v"
  by (simp add: promotes_def surf_mapped_def)

lemma iterator_fold:
  assumes ok: "de_calloc_ok env" "\<And>n. grow_ok n"
  shows "distinct (map sp_surface (ds_subs (sy_desk ctx))) \<Longrightarrow>
    ctx' = fold (subpresent_sync_iterator cfg env grow_ok win rsurf rw rh) tree ctx \<Longrightarrow>
    P = fst ` {v \<in> set tree. promotes (sy_desk ctx) rsurf rw rh v} \<Longrightarrow>
      set (sy_keep ctx') = set (sy_keep ctx) \<union> P
      \<and> promoted_under (sy_desk ctx') = (\<lambda>f. if f \<in> P then Some win else promoted_under (sy_desk ctx) f)
      \<and> distinct (map sp_surface (ds_subs (sy_desk ctx')))"
proof (induction tree arbitrary: ctx P)
  case (Cons v tree)
  let ?c = "subpresent_sync_iterator cfg env grow_ok win rsurf rw rh v ctx"
  note step = iterator_step[OF ok(1), of grow_ok ?c cfg win rsurf rw rh v ctx, OF ok(2) refl]
  define Q where "Q = fst ` {v \<in> set tree. promotes (sy_desk ctx) rsurf rw rh v}"
  have P: "P = (if promotes (sy_desk ctx) rsurf rw rh v then insert (fst v) Q else Q)"
    by (auto simp: Q_def Cons.prems(3))
  have "Q = fst ` {v \<in> set tree. promotes (sy_desk ?c) rsurf rw rh v}"
    unfolding Q_def by (simp add: promotes_surfaces[OF step(3)])
  from Cons.IH[OF step(4)[OF Cons.prems(1)] _ this] Cons.prems(2) show ?case
    unfolding P step(1,2) by (auto simp: fun_eq_iff)
qed simp

lemma promoted_mem:
  assumes "distinct (map sp_surface (ds_subs ds))"
  shows "promoted_under ds f = Some win \<longleftrightarrow> f \<in> sp_surface ` {sp \<in> set (ds_subs ds). sp_parent sp = win}"
proof -
  have "distinct (map fst (map sub_key (ds_subs ds)))" using assms by (simp add: sub_key_def comp_def)
  from map_of_eq_Some_iff[OF this] show ?thesis by (auto simp: promoted_under_def sub_key_def)
qed

text \<open>Destroying the subsurfaces of a window that are not in \<open>K\<close>.\<close>

lemma demote_others:
  assumes "distinct (map sp_surface (ds_subs ds))"
  shows "promoted_under (fold subpresent_destroy (map sp_surface
      (filter (\<lambda>sp. sp_parent sp = win \<and> sp_surface sp \<notin> K) (ds_subs ds))) ds) f
    = (if promoted_under ds f = Some win \<and> f \<notin> K then None else promoted_under ds f)"
  using promoted_mem[OF assms, of f win] by (auto simp: destroy_all_demotes restrict_map_def)

section \<open>Properties\<close>

text \<open>
  C13 (refinement). A pass of \<open>wlx_window_sync_subpresents\<close> over a window that has an output, where
  the allocations succeed, leaves exactly those subsurfaces promoted over the window that are mapped,
  not empty and reach out of the window's surface: these are added (also when another window had
  them), the others of the window are demoted, and those of other windows stay.
\<close>
theorem sync_promotes_overflow:
  assumes w: "find_win ds (Some win) = Some w" "w_output w \<noteq> None"
    and alloc: "de_calloc_ok env" "\<And>n. grow_ok n"
    and d: "distinct (map sp_surface (ds_subs ds))"
  shows "promoted_under (wlx_window_sync_subpresents cfg env grow_ok tree win ds) f =
    (if \<exists>sx sy. (f, sx, sy) \<in> set tree \<and>
          promotes ds (de_toplevel_surface env win) (tl_surf_width (toplevel w)) (tl_surf_height (toplevel w))
            (f, sx, sy)
     then Some win
     else if promoted_under ds f = Some win then None else promoted_under ds f)"
proof -
  let ?p = "promotes ds (de_toplevel_surface env win) (tl_surf_width (toplevel w)) (tl_surf_height (toplevel w))"
  define P where "P = fst ` {v \<in> set tree. ?p v}"
  define ctx where "ctx = fold (subpresent_sync_iterator cfg env grow_ok win (de_toplevel_surface env win)
      (tl_surf_width (toplevel w)) (tl_surf_height (toplevel w))) tree \<lparr>sy_keep = [], sy_cap = 0, sy_desk = ds\<rparr>"
  have c: "set (sy_keep ctx) = P" "promoted_under (sy_desk ctx) = (\<lambda>f. if f \<in> P then Some win else promoted_under ds f)"
    "distinct (map sp_surface (ds_subs (sy_desk ctx)))"
    using iterator_fold[OF alloc _ ctx_def, of P] d by (simp_all add: P_def cong: if_cong)
  have eq: "wlx_window_sync_subpresents cfg env grow_ok tree win ds = fold subpresent_destroy (map sp_surface
      (filter (\<lambda>sp. sp_parent sp = win \<and> sp_surface sp \<notin> P) (ds_subs (sy_desk ctx)))) (sy_desk ctx)"
    using w by (auto simp: wlx_window_sync_subpresents_def Let_def ctx_def[symmetric] c(1))
  have m: "f \<in> P \<longleftrightarrow> (\<exists>sx sy. (f, sx, sy) \<in> set tree \<and> ?p (f, sx, sy))"
    by (auto simp: P_def image_iff)
  show ?thesis unfolding eq demote_others[OF c(3)] c(2) m[symmetric] by auto
qed

text \<open>
  A window that lost its output loses its promoted subsurfaces, and no other window
  does.
\<close>
theorem unmapped_window_demotes_all:
  assumes "find_win ds (Some win) = Some w" "w_output w = None" "distinct (map sp_surface (ds_subs ds))"
  shows "promoted_under (wlx_window_sync_subpresents cfg env grow_ok tree win ds) f
    = (if promoted_under ds f = Some win then None else promoted_under ds f)"
  using demote_others[OF assms(3), of win "{}"] assms(1,2)
  by (simp add: wlx_window_sync_subpresents_def wlx_window_destroy_subpresents_def)

end
