(* ===== verification/Desk_Witnesses.thy ===== *)
theory Desk_Witnesses
  imports Bridge_Witnesses X11_Buffers Subpresent
begin

text \<open>
  The properties of menus, promoted subsurfaces and buffers applied at concrete
  inputs: a window at (100, 50) of the root, a menu of it at (3, 4), the pointer over the menu.
\<close>

section \<open>A desk with a window and a menu\<close>

definition sample_surface :: "xdg_role \<Rightarrow> nat option \<Rightarrow> nat option \<Rightarrow> xdg_surface" where
  "sample_surface r d p =
     \<lparr>xs_role = r, xs_data = d, xs_mapped = False, xs_width = 20, xs_height = 20, xs_buffer = Some (20, 20),
      xs_initial_commit = False, xs_popup = True, xs_parent = p,
      xs_cur_geo = \<lparr>box_x = 3, box_y = 4, box_width = 20, box_height = 20\<rparr>,
      xs_sched_geo = \<lparr>box_x = 3, box_y = 4, box_width = 20, box_height = 20\<rparr>,
      xs_rules = create_xdg_positioner, xs_geometry = zero_box\<rparr>"

definition sample_seat :: seat where
  "sample_seat =
     \<lparr>pt_focus = None, pt_client = None, pt_pos = None, pt_buttons = [], pt_grab_button = 0,
      pt_grab_serial = 0, pt_grab = DefaultGrab, pg_client = 0, pg_popups = [], pt_log = []\<rparr>"

text \<open>Surface 100 is the window's, 200 a menu of it, 300 a submenu of 200, 400 a popup without parent.\<close>

definition sample_desk :: desk where
  "sample_desk =
     \<lparr>ds_windows = [drag_win], ds_popups = [], ds_subs = [],
      ds_surfaces = [100 \<mapsto> sample_surface RoleToplevel (Some 1) None,
                     200 \<mapsto> sample_surface RolePopup None (Some 100),
                     300 \<mapsto> sample_surface RolePopup None (Some 200),
                     400 \<mapsto> sample_surface RolePopup None None],
      ds_seat = sample_seat, ds_focused = None, ds_grabbed = False, ds_grab_pending = False, ds_log = []\<rparr>"

definition sample_desk_env :: "nat \<Rightarrow> xid \<Rightarrow> desk_env" where
  "sample_desk_env ptr x =
     \<lparr>de_env = (sample_env 0)\<lparr>q_pointer := Some (110, 60)\<rparr>,
      de_pw = \<lparr>pe_is_x11 = True, pe_started = True, pe_calloc_ok = True, pe_new_id = x, pe_window_type = 20,
               pe_popup_menu = 30, pe_dropdown_menu = 31, pe_menu = 32\<rparr>,
      de_client = (\<lambda>_. 5), de_seat_client = (\<lambda>_. True), de_serial = 1, de_fixed = (\<lambda>x. \<lfloor>x * 256\<rfloor>), de_grab_status = Some 0,
      de_client_pixmap = (\<lambda>_. True), de_format_ok = True, de_pass_ok = True, de_submit_ok = True,
      de_calloc_ok = True, de_new_ptr = ptr, de_new_scene = Some (SceneTree 9 True 0 0 []),
      de_scene_at = (\<lambda>_ _. None), de_toplevel_surface = (\<lambda>_. 100), de_scene_origin = (\<lambda>_. (0, 0)),
      de_root_size = Some (1920, 1080), de_workarea = None\<rparr>"

abbreviation menu_cfg :: wlx_config where
  "menu_cfg \<equiv> sample_cfg 1 True"

definition menu_known :: desk where
  "menu_known = setup_popup (sample_desk_env 3 40) 200 1 sample_desk"

definition menu_shown :: desk where
  "menu_shown = the (run_all (popup_map menu_cfg (sample_desk_env 3 40)) (popups_of menu_known 200)
     (set_mapped 200 True menu_known))"

lemma menu_shows:
  "run_all (popup_map menu_cfg (sample_desk_env 3 40)) (popups_of menu_known 200)
     (set_mapped 200 True menu_known) \<noteq> None"
  by code_simp

lemma menu_shown_reach: "menu_reach menu_cfg menu_shown"
proof -
  have "menu_reach menu_cfg sample_desk" by (rule menu_start) (simp_all add: sample_desk_def)
  then have "menu_reach menu_cfg menu_known"
    unfolding menu_known_def by (rule menu_step) (rule ps_setup, simp add: sample_desk_def)
  then show ?thesis
    by (rule menu_step) (rule ps_map[where f = 200 and env = "sample_desk_env 3 40"], use menu_shows in \<open>auto simp: menu_shown_def\<close>)
qed

lemma menu_shown_facts:
  "ds_grabbed menu_shown" "map pp_id (ds_popups menu_shown) = [3]"
  "map pp_root_valid (ds_popups menu_shown) = [True]"
  "map_option pp_id (fst (popup_at_root_pointer menu_cfg (de_env (sample_desk_env 3 40)) menu_shown)) = Some 3"
  by code_simp+

section \<open>Menus\<close>

lemma menu_invariant_witness:
  "ds_grabbed menu_shown \<and> (\<exists>p w. ds_popups menu_shown = [p] \<and> pp_xpresent p = Some w
     \<and> (pp_root_x p, pp_root_y p, pp_root_w p, pp_root_h p) = (pw_x w, pw_y w, pw_width w, pw_height w)
     \<and> surf_mapped menu_shown (pp_surface p))"
proof -
  obtain p where p: "ds_popups menu_shown = [p]" "pp_root_valid p"
    using menu_shown_facts(2,3) by (auto simp: map_eq_Cons_conv)
  have "have_xcb menu_cfg" by (simp add: sample_cfg_def)
  from menu_invariant[OF this menu_shown_reach] menu_shown_facts(1) p show ?thesis by auto
qed

lemma pointer_takes_newest_menu_witness:
  "\<exists>pop. fst (popup_at_root_pointer menu_cfg (de_env (sample_desk_env 3 40)) menu_shown) = Some pop
    \<and> in_box (110, 60) (pp_box pop)
    \<and> (\<exists>newer old older. ds_popups menu_shown = newer @ old # older \<and> pp_id old = pp_id pop)"
proof -
  obtain pop where p: "fst (popup_at_root_pointer menu_cfg (de_env (sample_desk_env 3 40)) menu_shown) = Some pop"
    using menu_shown_facts(4) by auto
  have "q_pointer (de_env (sample_desk_env 3 40)) = Some (110, 60)" "have_xcb menu_cfg"
    by (simp_all add: sample_desk_env_def sample_cfg_def)
  from pointer_takes_newest_menu[OF this(2) menu_shown_reach this(1)] p show ?thesis by auto
qed


definition sample_popup :: "nat \<Rightarrow> nat \<Rightarrow> xid \<Rightarrow> popup" where
  "sample_popup i f x =
     \<lparr>pp_id = i, pp_parent = Some 1, pp_surface = f, pp_scene = Some (SceneTree i True 0 0 []),
      pp_xpresent = Some \<lparr>pw_win = x, pw_width = 20, pw_height = 20, pw_x = 103, pw_y = 54, pw_mapped = True,
        pw_last_msc = 0, pw_serial = 0\<rparr>,
      pp_listening = True, pp_root_x = 103, pp_root_y = 54, pp_root_w = 20, pp_root_h = 20, pp_root_valid = True,
      pp_freed = False\<rparr>"


lemma parentless_popup_crashes_witness: "server_new_xdg_popup (sample_desk_env 3 40) 400 sample_desk = Some None"
  by (rule parentless_popup_crashes[where xs = "sample_surface RolePopup None None"])
    (simp_all add: sample_desk_def sample_surface_def)

lemma submenu_set_up_twice_witness:
  "\<exists>ds1 ds2. announce_to_window (sample_desk_env 4 41) (sample_desk_env 5 42) 300 1 menu_known = Some (Some ds1)
      \<and> announce_to_popup (sample_desk_env 4 41) (sample_desk_env 5 42) 300 (hd (ds_popups menu_known)) menu_known = Some (Some ds2)
      \<and> length (popups_of ds1 300) = 1 \<and> length (popups_of ds2 300) = 2"
proof (rule submenu_set_up_twice[where xs = "sample_surface RolePopup None (Some 200)"])
  show "popup_find_toplevel_window menu_known 300 = Some (FoundToplevel 1)"
    by (simp add: popup_find_toplevel_window_def menu_known_def setup_popup_def sample_desk_env_def sample_desk_def
        upd_surface_def sample_surface_def find_toplevel_from.simps)
qed (simp_all add: menu_known_def setup_popup_def sample_desk_env_def sample_desk_def upd_surface_def
    sample_surface_def popups_of_def)

text \<open>The menu with the grab closes while its submenu is open.\<close>

definition menu_closing :: desk where
  "menu_closing = sample_desk\<lparr>ds_popups := [sample_popup 4 300 41, sample_popup 3 200 40], ds_grabbed := True,
     ds_surfaces := [300 \<mapsto> (sample_surface RolePopup (Some 4) (Some 200))\<lparr>xs_mapped := True\<rparr>,
                     200 \<mapsto> sample_surface RolePopup (Some 3) (Some 100)],
     ds_log := [PwGrab 40]\<rparr>"

lemma menu_closing_facts:
  "case find_popup menu_closing 3 of None \<Rightarrow> False | Some a \<Rightarrow> (case pp_xpresent a of None \<Rightarrow> False
     | Some wa \<Rightarrow> host_grab_of menu_closing = Some (pw_win wa))"
  "list_ex (\<lambda>p. pp_id p \<noteq> 3 \<and> pp_xpresent p \<noteq> None \<and> surf_mapped menu_closing (pp_surface p)) (ds_popups menu_closing)"
  "ds_grabbed menu_closing"
  "popup_unmap menu_cfg (sample_desk_env 4 41) 3 menu_closing \<noteq> None"
  by code_simp+

lemma menu_switch_loses_grab_witness:
  "\<exists>ds'. popup_unmap menu_cfg (sample_desk_env 4 41) 3 menu_closing = Some ds'
    \<and> ds_grabbed ds' \<and> wants_grab ds' \<and> host_grab_of ds' = None"
proof -
  obtain a wa where a: "find_popup menu_closing 3 = Some a" "pp_xpresent a = Some wa"
      "host_grab_of menu_closing = Some (pw_win wa)"
    using menu_closing_facts(1) by (auto split: option.splits)
  obtain b where b: "b \<in> set (ds_popups menu_closing)" "pp_id b \<noteq> 3" "pp_xpresent b \<noteq> None"
      "surf_mapped menu_closing (pp_surface b)"
    using menu_closing_facts(2) by (auto simp: list_ex_iff)
  obtain ds' where u: "popup_unmap menu_cfg (sample_desk_env 4 41) 3 menu_closing = Some ds'"
    using menu_closing_facts(4) by blast
  have "have_xcb menu_cfg" by (simp add: sample_cfg_def)
  from menu_switch_loses_grab[OF this a(1,2) menu_closing_facts(3) a(3) b u] u show ?thesis by blast
qed

section \<open>Promoted subsurfaces\<close>

lemma sync_promotes_overflow_witness:
  "promoted_under (wlx_window_sync_subpresents menu_cfg (sample_desk_env 3 40) (\<lambda>_. True) [(200, 390, 10)] 1
      (set_mapped 200 True sample_desk)) 200 = Some 1"
proof -
  let ?ds = "set_mapped 200 True sample_desk"
  have w: "find_win ?ds (Some 1) = Some drag_win"
    by (simp add: set_mapped_def upd_surface_def sample_desk_def find_win_def sample_window_def server_new_xdg_toplevel_def)
  have p: "promotes ?ds (de_toplevel_surface (sample_desk_env 3 40) 1) (tl_surf_width (toplevel drag_win))
      (tl_surf_height (toplevel drag_win)) (200, 390, 10)" by code_simp
  show ?thesis
    by (subst sync_promotes_overflow[OF w])
      (use p in \<open>simp_all add: sample_window_def sample_desk_env_def set_mapped_def upd_surface_def sample_desk_def\<close>)
qed

definition sample_sub :: subpresent where
  "sample_sub = \<lparr>sp_parent = 1, sp_surface = 200, sp_xpresent = None, sp_root_x = 0, sp_root_y = 0, sp_root_w = 0,
     sp_root_h = 0, sp_root_valid = False, sp_sx = 390, sp_sy = 10\<rparr>"

definition hidden_desk :: desk where
  "hidden_desk = sample_desk\<lparr>ds_windows := [drag_win\<lparr>w_output := None\<rparr>], ds_subs := [sample_sub]\<rparr>"

lemma unmapped_window_demotes_all_witness:
  "promoted_under hidden_desk 200 = Some 1
    \<and> promoted_under (wlx_window_sync_subpresents menu_cfg (sample_desk_env 3 40) (\<lambda>_. True) [] 1 hidden_desk) 200 = None"
proof -
  have w: "find_win hidden_desk (Some 1) = Some (drag_win\<lparr>w_output := None\<rparr>)" "distinct (map sp_surface (ds_subs hidden_desk))"
    by (simp_all add: hidden_desk_def find_win_def sample_window_def server_new_xdg_toplevel_def)
  have "promoted_under hidden_desk 200 = Some 1"
    by (simp add: promoted_under_def hidden_desk_def sub_key_def sample_sub_def)
  then show ?thesis by (subst unmapped_window_demotes_all[OF w(1) _ w(2)]) (simp_all add: sample_window_def)
qed

section \<open>Buffers\<close>

definition sample_buf_env :: buf_env where
  "sample_buf_env = \<lparr>be_format = 7, be_bytes_per_block = 4, be_pixels_per_block = 1, be_dri3_1_2 = True,
     be_dup_ok = True, be_calloc_ok = True, be_new_id = 90, be_rects_ok = True\<rparr>"

definition no_buffers :: buf_world where
  "no_buffers = \<lparr>bw = \<lparr>bs_store = Map.empty, bs_list = [], bs_log = []\<rparr>, bw_out = (\<lambda>_. 0), bw_others = (\<lambda>_. 0),
     bw_lost = (\<lambda>_. False)\<rparr>"

definition one_buffer :: buf_world where
  "one_buffer = the (buf_next (BufNew 1 20 20 (Dmabuf 7 1 True)) no_buffers)"

definition presented :: buf_world where
  "presented = the (buf_next (BufPresent sample_buf_env 1) one_buffer)"

lemma presented_facts:
  "buf_legal (BufNew 1 20 20 (Dmabuf 7 1 True)) no_buffers" "buf_next (BufNew 1 20 20 (Dmabuf 7 1 True)) no_buffers \<noteq> None"
  "buf_legal (BufPresent sample_buf_env 1) one_buffer" "buf_next (BufPresent sample_buf_env 1) one_buffer \<noteq> None"
  "bw_out presented 90 = 1" "\<not> bw_lost presented 90"
  by code_simp+

lemma presented_buffer_stays_alive_witness:
  "\<exists>xb x. xb \<in> set (bs_list (bw presented)) \<and> xb_pixmap xb = 90 \<and> xb_busy xb = 1
    \<and> bs_store (bw presented) (xb_buffer xb) = Some x \<and> xb_busy xb \<le> b_locks x"
proof -
  have "buf_reach no_buffers" unfolding no_buffers_def by (rule buf_start)
  then have "buf_reach one_buffer" by (rule buf_step[OF _ presented_facts(1)]) (use presented_facts(2) in \<open>auto simp: one_buffer_def\<close>)
  then have "buf_reach presented" by (rule buf_step[OF _ presented_facts(3)]) (use presented_facts(4) in \<open>auto simp: presented_def\<close>)
  from presented_buffer_stays_alive[OF this] presented_facts(5,6) show ?thesis by (metis zero_less_one)
qed

end
