(* ===== verification/Activation.thy ===== *)
theory Activation
  imports Window_Steps
begin

fun is_act :: "wlr_call \<Rightarrow> bool" where
  "is_act (SetActivated _ _) = True"
| "is_act _ = False"

definition told :: "wlx_window \<Rightarrow> wid \<times> wlr_call list" where
  "told w = (w_id w, filter is_act (w_log w))"

lemma told_emit [simp]: "\<not> is_act c \<Longrightarrow> told (emit c w) = told w"
  by (simp add: told_def)

lemma told_emit_all [simp]: "\<not> list_ex is_act cs \<Longrightarrow> told (emit_all cs w) = told w"
  by (simp add: told_def) (metis append_Nil2 filter_False list_ex_iff)

lemma told_upd [simp]:
  "told (w\<lparr>w_output := a1\<rparr>) = told w" "told (w\<lparr>toplevel := a2\<rparr>) = told w"
  "told (w\<lparr>scene_tree := a3\<rparr>) = told w" "told (w\<lparr>listeners := a4\<rparr>) = told w"
  "told (w\<lparr>l_output := a5\<rparr>) = told w" "told (w\<lparr>scene_output := a6\<rparr>) = told w"
  "told (w\<lparr>last_output_width := i1\<rparr>) = told w" "told (w\<lparr>last_output_height := i1\<rparr>) = told w"
  "told (w\<lparr>csd_margin_w := i1\<rparr>) = told w" "told (w\<lparr>csd_margin_h := i1\<rparr>) = told w"
  "told (w\<lparr>size_from_wm := b\<rparr>) = told w" "told (w\<lparr>last_client_conf_w := i1\<rparr>) = told w"
  "told (w\<lparr>last_client_conf_h := i1\<rparr>) = told w" "told (w\<lparr>fit_last_w := i1\<rparr>) = told w"
  "told (w\<lparr>fit_last_h := i1\<rparr>) = told w" "told (w\<lparr>fit_prev_w := i1\<rparr>) = told w"
  "told (w\<lparr>fit_prev_h := i1\<rparr>) = told w" "told (w\<lparr>fit_last_msec := i1\<rparr>) = told w"
  "told (w\<lparr>fill_host_last_msec := i1\<rparr>) = told w" "told (w\<lparr>hold_present := b\<rparr>) = told w"
  "told (w\<lparr>xwin := x\<rparr>) = told w" "told (w\<lparr>related := xs\<rparr>) = told w" "told (w\<lparr>content_xwin := x\<rparr>) = told w"
  "told (w\<lparr>last_title := s\<rparr>) = told w" "told (w\<lparr>last_app_id := s\<rparr>) = told w"
  "told (w\<lparr>initial_configure_sent := b\<rparr>) = told w" "told (w\<lparr>pending_decoration := d\<rparr>) = told w"
  by (simp_all add: told_def)


section \<open>The handlers of one window tell nothing about activation\<close>

lemma told_props [simp]:
  "told (xwin_set_title cfg x t w) = told w" "told (xwin_set_class cfg x t w) = told w"
  "told (xwin_set_motif_decorations cfg x b w) = told w" "told (send_root_client_message cfg x a d w) = told w"
  "told (send_net_wm_state cfg x b a1 a2 w) = told w" "told (xwin_set_transient_for cfg x y w) = told w"
  "told (xwin_set_window_type_dialog cfg x b w) = told w" "told (xwin_set_modal cfg x b w) = told w"
  "told (dnd_set_xdnd_aware cfg x w) = told w" "told (select_window_events cfg x w) = told w"
  "told (xwin_set_size_hints cfg x wd ht i1 i2 i3 i4 w) = told w"
  by (simp_all add: xwin_set_title_def xwin_set_class_def xwin_set_motif_decorations_def
      send_root_client_message_def send_net_wm_state_def xwin_set_transient_for_def Let_def
      xwin_set_window_type_dialog_def xwin_set_modal_def dnd_set_xdnd_aware_def select_window_events_def
      xwin_set_size_hints_def)

lemma told_sync_size_hints [simp]: "told (win_sync_size_hints cfg w) = told w"
  by (simp add: win_sync_size_hints_def Let_def split: prod.split)

lemma told_scale [simp]: "told (wlx_apply_content_scale_ex cfg r p w) = told w"
    "told (wlx_apply_content_scale cfg r w) = told w"
  by (simp_all add: wlx_apply_content_scale_ex_def wlx_apply_content_scale_def split: option.split)

lemma told_set_size [simp]: "told (wlx_toplevel_set_size a b w) = told w"
  by (simp add: wlx_toplevel_set_size_def Let_def)

lemma told_fill_host [simp]: "told (wlx_toplevel_fill_host cfg env w) = told w"
  by (simp add: wlx_toplevel_fill_host_def Let_def split: prod.split)

lemma told_output_commit [simp]: "told (output_commit cfg env r w) = told w"
  by (simp add: output_commit_def hold_or_schedule_def Let_def split: option.split)

lemma backend_calls_tell_nothing:
  assumes "wlr_output_commit_state env st x = (ok, x', cs)"
  shows "\<not> list_ex is_act cs"
proof -
  have m: "output_set_custom_mode a b x = (x1, cs1) \<Longrightarrow> \<not> list_ex is_act cs1" for a b x1 cs1
    by (auto simp: output_set_custom_mode_def Let_def split: if_splits)
  have b: "\<not> list_ex is_act (snd (snd (backend_commit env st1 x)))" for st1
    using m by (cases "os_mode st1") (auto simp: backend_commit_def Let_def split: option.splits prod.splits if_splits)
  obtain ok1 x1 cs1 where r: "backend_commit env (drop_unchanged st x) x = (ok1, x1, cs1)"
    by (cases "backend_commit env (drop_unchanged st x) x") auto
  with b have "\<not> list_ex is_act cs1" by (metis snd_conv)
  moreover have "cs = [] \<or> cs = cs1"
    using assms unfolding wlr_output_commit_state_def Let_def case_prod_beta r
    by (cases ok1) (auto split: if_splits)
  ultimately show ?thesis by auto
qed

lemma told_commit_state [simp]: "told (snd (win_commit_state cfg env r st w)) = told w"
  by (auto simp: win_commit_state_def Let_def dest: backend_calls_tell_nothing split: option.split prod.split)

lemma told_resize [simp]: "told (resize_output_to cfg env r a b w) = told w"
  by (simp add: resize_output_to_def Let_def split: option.split)

lemma told_net_wm [simp]: "told (win_handle_net_wm_state_notify cfg env w) = told w"
  by (simp add: win_handle_net_wm_state_notify_def host_state_owner_def Let_def split: option.split prod.split)

lemma told_request_state [simp]: "told (output_request_state cfg env r req w) = told w"
  by (simp add: output_request_state_def Let_def split: option.split prod.split)

lemma told_configure [simp]: "told (win_configure_notify cfg env r ev w) = told w"
  by (simp add: win_configure_notify_def split: option.split prod.split)

lemma told_requests [simp]:
  "told (toplevel_request_maximize cfg w) = told w" "told (toplevel_request_fullscreen cfg w) = told w"
  "told (toplevel_request_minimize cfg w) = told w" "told (output_request_close w) = told w"
  "told (output_frame cfg r w) = told w"
  by (simp_all add: toplevel_request_maximize_def toplevel_request_fullscreen_def
      toplevel_request_minimize_def output_request_close_def output_frame_def Let_def)

lemma told_before [simp]: "told (sc_before cfg w) = told w"
proof -
  have "told (sc_release_hold cfg v) = told v" "told (sc_decoration cfg v) = told v"
    "told (sc_initial_configure v) = told v" "told (sc_csd_margin v) = told v" for v
    by (simp_all add: sc_csd_margin_def sc_decoration_def sc_initial_configure_def sc_release_hold_def Let_def
        split: option.split prod.split)
  then show ?thesis by (simp add: sc_before_def)
qed

lemma told_fit [simp]: "told (sc_fit cfg env r w) = told w"
  by (simp add: sc_fit_def fit_host_def place_tree_def record_fit_def sc_release_wm_def Let_def
      split: option.split prod.split)

lemma told_after [simp]: "told (sc_after cfg r w) = told w"
proof -
  have "told (sc_class cfg v) = told v" "told (sc_title cfg v) = told v" "told (sc_hints cfg v) = told v"
    "told (sc_placement cfg r v) = told v" for v
    by (simp_all add: sc_class_def sc_title_def sc_hints_def sc_placement_def Let_def split: prod.split)
  then show ?thesis by (simp add: sc_after_def Let_def)
qed

lemma told_surface_commit [simp]: "told (surface_commit cfg env r w) = told w"
  by (simp add: surface_commit_parts)

lemma told_transient [simp]: "told (apply_transient_hints cfg env p w) = told w"
  by (cases "transient_position cfg env (the p) w")
    (simp_all add: apply_transient_hints_def Let_def split: option.split prod.split)

lemma told_write_props [simp]: "told (write_props cfg env p x w) = told w"
  by (simp add: write_props_def)

lemma told_register [simp]: "told (register_x11_window_subtree cfg t w) = told w"
proof (induction t arbitrary: w)
  case (XWin x cs)
  have f: "set ds \<subseteq> set cs \<Longrightarrow> told (fold (register_x11_window_subtree cfg) ds w) = told w" for ds w
    by (induction ds arbitrary: w) (simp_all add: XWin.IH)
  show ?case by (simp add: f add_related_def)
qed

lemma told_identify [simp]: "told (identify_output cfg env p want x w) = told w"
  by (simp add: identify_output_def Let_def)

lemma told_create [simp]: "told (create_output_for_window cfg env r p new w) = told w"
proof -
  have "told (place_tree v) = told v" "told (reset_identity v) = told v" for v
    by (simp_all add: place_tree_def reset_identity_def split: option.split)
  then show ?thesis by (simp add: create_output_for_window_def Let_def split: option.split prod.split)
qed

lemma told_output_destroy [simp]: "told (wlr_output_destroy w) = told w"
  by (simp add: wlr_output_destroy_def output_destroy_def reset_identity_def split: option.split)

lemma told_reparent [simp]: "told (win_reparent_notify cfg env r p x y w) = told w"
proof -
  have "told (reparent_sync cfg env r v) = told v" for v
    by (simp add: reparent_sync_def Let_def split: option.split prod.split)
  then show ?thesis by (simp add: win_reparent_notify_def Let_def)
qed

lemma told_decoration [simp]: "told (decoration_request_mode cfg d w) = told w"
  by (simp add: decoration_request_mode_def wlx_decoration_apply_mode_def)

lemma told_win_step [simp]: "told (win_step cfg env r ev w) = told w"
  by (cases ev) simp_all

end
