(* ===== verification/Input.thy ===== *)
theory Input
  imports Subpresent Activation
begin

text \<open>
  The handlers of pointer events and of the events on the compositor's own X connection
  (\<open>src/input.c\<close>, lines 354 to 385 and 467 to 515; \<open>handle_core_pointer_during_grab\<close> and
  \<open>handle_xcb_readable\<close>, \<open>src/x11.c\<close>, lines 596 to 919), put together from the operations of the
  components. The state is that of \<open>input_state\<close>: windows, popups and seat, the drag, the drag and
  drop with the clipboard. Shapes of the cursor are not modelled.
\<close>

section \<open>Small handlers\<close>

definition server_seat_request_cursor :: "nat option \<Rightarrow> seat \<Rightarrow> bool" where
  "server_seat_request_cursor seat_client s = (seat_client = pt_client s)"

definition server_cursor_frame :: "desk \<Rightarrow> desk" where
  "server_cursor_frame ds = upd_seat wlr_seat_pointer_notify_frame ds"

definition window_from_surface :: "desk \<Rightarrow> nat \<Rightarrow> nat option" where
  "window_from_surface ds f =
     (case ds_surfaces ds f of
        None \<Rightarrow> None
      | Some xs \<Rightarrow> if xs_role xs \<noteq> RoleToplevel then None else xs_data xs)"

text \<open>The capabilities the seat announces after a new device: pointer 1, keyboard 2.\<close>

datatype input_device = InputKeyboard | InputPointer | InputOther

record seat_devices =
  have_keyboard :: bool
  have_pointer :: bool
  seat_caps :: "32 word"

definition server_new_input :: "bool \<Rightarrow> input_device \<Rightarrow> seat_devices \<Rightarrow> seat_devices" where
  "server_new_input calloc_kb dev s =
     (let s1 = (case dev of
            InputKeyboard \<Rightarrow> if calloc_kb then s\<lparr>have_keyboard := True\<rparr> else s
          | InputPointer \<Rightarrow> s\<lparr>have_pointer := True\<rparr>
          | InputOther \<Rightarrow> s)
      in s1\<lparr>seat_caps := (if have_pointer s1 then 1 else 0) + (if have_keyboard s1 then 2 else 0)\<rparr>)"

section \<open>Buttons\<close>

definition notify_button :: "desk_env \<Rightarrow> 32 word \<Rightarrow> bool \<Rightarrow> desk \<Rightarrow> desk" where
  "notify_button env b pressed ds =
     upd_seat (wlr_seat_pointer_notify_button (seat_env_of env ds) b pressed) ds"

definition cursor_press :: "wlx_config \<Rightarrow> desk_env \<Rightarrow> 32 word \<Rightarrow> desk \<Rightarrow> desk option" where
  "cursor_press cfg env b ds =
     map_option (notify_button env b True) (pointer_enter_surface_under_cursor cfg env ds)"

text \<open>A grab that had to wait for the opening click.\<close>

definition retry_menu_grab :: "wlx_config \<Rightarrow> desk_env \<Rightarrow> desk \<Rightarrow> desk option" where
  "retry_menu_grab cfg env ds =
     (if ds_grab_pending ds \<and> button_count (ds_seat ds) = 0
      then wlx_popup_update_pointer_grab cfg env ds else Some ds)"

definition cursor_release :: "wlx_config \<Rightarrow> desk_env \<Rightarrow> 32 word \<Rightarrow> desk \<Rightarrow> desk option" where
  "cursor_release cfg env b ds =
     Option.bind (retry_menu_grab cfg env (notify_button env b False ds))
       (pointer_enter_surface_under_cursor cfg env)"

definition on_desk :: "(desk \<Rightarrow> desk option) \<Rightarrow> input_state \<Rightarrow> input_state option" where
  "on_desk h st = map_option (\<lambda>ds. st\<lparr>in_desk := ds\<rparr>) (h (in_desk st))"

definition server_cursor_button ::
  "wlx_config \<Rightarrow> dnd_cfg \<Rightarrow> desk_env \<Rightarrow> dnd_env \<Rightarrow> 32 word \<Rightarrow> bool \<Rightarrow> input_state \<Rightarrow> input_state option" where
  "server_cursor_button cfg dc env denv b pressed st =
     (if pressed then on_desk (cursor_press cfg env b) st
      else map_option
        (\<lambda>st1. st1\<lparr>in_drag := drag_release (in_drag st1),
                   in_dnd := dnd_out_on_button_release dc denv (in_dnd st1)\<rparr>)
        (on_desk (cursor_release cfg env b) st))"

section \<open>Core events while the compositor holds the pointer grab\<close>

datatype (plugins only: code size) core_event = CoreMotion | CoreButton nat bool

definition core_button :: "nat \<Rightarrow> 32 word option" where
  "core_button detail =
     (if detail = 1 then Some 272 else if detail = 2 then Some 274
      else if detail = 3 then Some 273 else None)"

text \<open>Here the focus is refreshed before the waiting grab is tried.\<close>

definition core_release :: "wlx_config \<Rightarrow> desk_env \<Rightarrow> 32 word \<Rightarrow> desk \<Rightarrow> desk option" where
  "core_release cfg env b ds =
     Option.bind (pointer_enter_surface_under_cursor cfg env (notify_button env b False ds))
       (retry_menu_grab cfg env)"

definition handle_core_pointer_during_grab ::
  "wlx_config \<Rightarrow> dnd_cfg \<Rightarrow> desk_env \<Rightarrow> dnd_env \<Rightarrow> timespec \<Rightarrow> core_event \<Rightarrow> input_state \<Rightarrow> input_state option" where
  "handle_core_pointer_during_grab cfg dc env denv now ev st =
     (let frame = (\<lambda>st1. st1\<lparr>in_desk := server_cursor_frame (in_desk st1)\<rparr>)
      in case ev of
          CoreMotion \<Rightarrow> map_option frame (process_cursor_motion cfg dc env denv now st)
        | CoreButton detail pressed \<Rightarrow>
            (case core_button detail of
               None \<Rightarrow> Some st
             | Some b \<Rightarrow> map_option frame
                 (on_desk (if pressed then cursor_press cfg env b else core_release cfg env b) st)))"

section \<open>The host's keyboard focus\<close>

text \<open>Mode 0 is \<open>NotifyNormal\<close>, 3 \<open>NotifyWhileGrabbed\<close>; detail 2 \<open>NotifyInferior\<close>, 5
  \<open>NotifyPointer\<close>, 6 \<open>NotifyPointerRoot\<close>.\<close>

definition focus_counts :: "nat \<Rightarrow> nat \<Rightarrow> bool" where
  "focus_counts mode detail \<longleftrightarrow> mode \<in> {0, 3} \<and> detail \<notin> {2, 5, 6}"

definition x11_focus_in :: "wlx_config \<Rightarrow> desk_env \<Rightarrow> nat \<Rightarrow> nat \<Rightarrow> xid \<Rightarrow> desk \<Rightarrow> desk" where
  "x11_focus_in cfg env mode detail x ds =
     (if \<not> focus_counts mode detail then ds
      else case window_from_xwin (ds_windows ds) x of
          None \<Rightarrow> ds
        | Some win \<Rightarrow>
            let ds1 = set_active_window env (Some (w_id win)) ds
            in case pointer_coords_on_window cfg (de_env env) win of
                None \<Rightarrow> ds1
              | Some (px, py) \<Rightarrow>
                  (case surface_offset cfg win (wlx_pointer_to_surface cfg (of_int px, of_int py)) of
                     (sx, sy) \<Rightarrow>
                       upd_seat (wlr_seat_pointer_notify_enter (seat_env_of env ds1)
                         (de_toplevel_surface env (w_id win)) sx sy) ds1))"

definition x11_focus_out ::
  "wlx_config \<Rightarrow> desk_env \<Rightarrow> nat \<Rightarrow> nat \<Rightarrow> xid \<Rightarrow> desk \<Rightarrow> desk option" where
  "x11_focus_out cfg env mode detail x ds =
     (if \<not> focus_counts mode detail then Some ds
      else case window_from_xwin (ds_windows ds) x of
          None \<Rightarrow> Some ds
        | Some win \<Rightarrow>
            if ds_focused ds \<noteq> Some (w_id win) then Some ds
            else
              map_option
                (\<lambda>under. if under \<noteq> None then ds
                  else case popup_at_root_pointer cfg (de_env env) ds of
                      (hit, ds1) \<Rightarrow>
                        if hit \<noteq> None \<or> window_has_mapped_popup ds1 (Some (w_id win)) then ds1
                        else set_active_window env None ds1)
                (window_at_root_pointer cfg (de_env env) (ds_windows ds)))"

end
