(* ===== verification/Server.thy ===== *)
theory Server
  imports Input
begin

text \<open>
  The compositor as one machine: the dispatch of X events (\<open>handle_xcb_readable\<close>, \<open>src/x11.c\<close>), the
  life of a toplevel with what it means for focus, drags, menus and promoted subsurfaces
  (\<open>src/xdg.c\<close>, lines 33 to 66 and 380 to 422; \<open>output_destroy\<close>, \<open>src/output.c\<close>), and the runs of the
  event loop.
\<close>

section \<open>One window of the desk\<close>

text \<open>The scene trees of the popups, which the commit and the scale leave where they are.\<close>

definition popup_scenes :: "desk \<Rightarrow> nat list" where
  "popup_scenes ds =
     concat (map (\<lambda>p. case pp_scene p of None \<Rightarrow> [] | Some n \<Rightarrow> [node_id n]) (ds_popups ds))"

definition transient_parent :: "desk \<Rightarrow> wlx_window \<Rightarrow> wlx_window option" where
  "transient_parent ds win = find_win ds (tl_parent (toplevel win))"

definition on_window :: "wlx_config \<Rightarrow> desk_env \<Rightarrow> win_event \<Rightarrow> wid \<Rightarrow> desk \<Rightarrow> desk" where
  "on_window cfg env ev i ds = upd_win i (win_step cfg (de_env env) (popup_scenes ds) ev) ds"

section \<open>Events of the X connection\<close>

datatype (plugins only: code size) xcb_event =
    XCore core_event
  | XFocusIn nat nat xid
  | XFocusOut nat nat xid
  | XReparent xid xid
  | XConfigure xid int int
  | XSelectionRequest selection_request
  | XSelectionNotify selection_notify
  | XSelectionClear atom
  | XPropertyNotify xid atom
  | XClientMessage client_message
  | XFixesSelection atom xid

record xcb_env =
  xe_desk :: desk_env
  xe_dnd :: dnd_env
  xe_now :: timespec
  xe_fixes_ok :: bool

definition xcb_reparent :: "wlx_config \<Rightarrow> desk_env \<Rightarrow> xid \<Rightarrow> xid \<Rightarrow> desk \<Rightarrow> desk" where
  "xcb_reparent cfg env x parent ds =
     (case window_from_xwin (ds_windows ds) x of
        None \<Rightarrow> ds
      | Some win \<Rightarrow> on_window cfg env (EvReparent (transient_parent ds win) x parent) (w_id win) ds)"

definition xcb_configure :: "wlx_config \<Rightarrow> desk_env \<Rightarrow> xid \<Rightarrow> int \<Rightarrow> int \<Rightarrow> input_state \<Rightarrow> input_state" where
  "xcb_configure cfg env x cx cy st =
     (let ds = (case window_from_xwin (ds_windows (in_desk st)) x of
            None \<Rightarrow> in_desk st
          | Some win \<Rightarrow> wlx_reposition_popups_for_window cfg env (w_id win) (in_desk st))
      in st\<lparr>in_desk := ds, in_drag := drag_learn_correction (wins_of ds) x cx cy (in_drag st)\<rparr>)"

definition xcb_property :: "wlx_config \<Rightarrow> desk_env \<Rightarrow> xid \<Rightarrow> atom \<Rightarrow> desk \<Rightarrow> desk" where
  "xcb_property cfg env x prop ds =
     (if prop \<noteq> atom_net_wm_state cfg then ds
      else case window_from_xwin (ds_windows ds) x of
          None \<Rightarrow> ds
        | Some win \<Rightarrow> on_window cfg env EvNetWmState (w_id win) ds)"

definition on_clip :: "(clip_state \<Rightarrow> clip_state) \<Rightarrow> dnd_state \<Rightarrow> dnd_state" where
  "on_clip f d = d\<lparr>dnd_clip := f (dnd_clip d)\<rparr>"

definition xcb_selection_request :: "dnd_cfg \<Rightarrow> selection_request \<Rightarrow> dnd_state \<Rightarrow> dnd_state" where
  "xcb_selection_request dc req d =
     (case dnd_handle_selection_request dc req d of
        (True, d1) \<Rightarrow> d1
      | (False, d1) \<Rightarrow> on_clip (clipboard_handle_selection_request dc req) d1)"

definition xcb_selection_notify :: "dnd_cfg \<Rightarrow> dnd_env \<Rightarrow> selection_notify \<Rightarrow> dnd_state \<Rightarrow> dnd_state" where
  "xcb_selection_notify dc env ev d =
     on_clip (clipboard_handle_selection_notify dc (d_sel_env env) ev) (dnd_handle_selection_notify dc env ev d)"

fun handle_xcb_event ::
  "wlx_config \<Rightarrow> dnd_cfg \<Rightarrow> xcb_env \<Rightarrow> xcb_event \<Rightarrow> input_state \<Rightarrow> input_state option" where
  "handle_xcb_event cfg dc e (XCore ev) st =
     (if ds_grabbed (in_desk st)
      then handle_core_pointer_during_grab cfg dc (xe_desk e) (xe_dnd e) (xe_now e) ev st else Some st)"
| "handle_xcb_event cfg dc e (XFocusIn mode detail x) st =
     Some (st\<lparr>in_desk := x11_focus_in cfg (xe_desk e) mode detail x (in_desk st)\<rparr>)"
| "handle_xcb_event cfg dc e (XFocusOut mode detail x) st =
     on_desk (x11_focus_out cfg (xe_desk e) mode detail x) st"
| "handle_xcb_event cfg dc e (XReparent x parent) st =
     Some (st\<lparr>in_desk := xcb_reparent cfg (xe_desk e) x parent (in_desk st)\<rparr>)"
| "handle_xcb_event cfg dc e (XConfigure x cx cy) st = Some (xcb_configure cfg (xe_desk e) x cx cy st)"
| "handle_xcb_event cfg dc e (XSelectionRequest req) st =
     Some (st\<lparr>in_dnd := xcb_selection_request dc req (in_dnd st)\<rparr>)"
| "handle_xcb_event cfg dc e (XSelectionNotify ev) st =
     Some (st\<lparr>in_dnd := xcb_selection_notify dc (xe_dnd e) ev (in_dnd st)\<rparr>)"
| "handle_xcb_event cfg dc e (XSelectionClear sel) st =
     Some (st\<lparr>in_dnd := on_clip (clipboard_handle_selection_clear dc sel) (in_dnd st)\<rparr>)"
| "handle_xcb_event cfg dc e (XPropertyNotify x prop) st =
     Some (st\<lparr>in_desk := xcb_property cfg (xe_desk e) x prop (in_desk st)\<rparr>)"
| "handle_xcb_event cfg dc e (XClientMessage ev) st =
     Some (st\<lparr>in_dnd := dnd_handle_client_message dc (xe_dnd e) ev (in_dnd st)\<rparr>)"
| "handle_xcb_event cfg dc e (XFixesSelection sel owner) st =
     Some (if xe_fixes_ok e
           then st\<lparr>in_dnd := on_clip (xfixes_selection_notify dc sel owner) (in_dnd st)\<rparr> else st)"

text \<open>The queued events in order, each with what the X server answers while it is handled.\<close>

fun handle_xcb_readable ::
  "wlx_config \<Rightarrow> dnd_cfg \<Rightarrow> (xcb_env \<times> xcb_event) list \<Rightarrow> input_state \<Rightarrow> input_state option" where
  "handle_xcb_readable cfg dc [] st = Some st"
| "handle_xcb_readable cfg dc ((e, ev) # evs) st =
     Option.bind (handle_xcb_event cfg dc e ev st) (handle_xcb_readable cfg dc evs)"

section \<open>The life of a toplevel\<close>

definition add_toplevel :: "wid \<Rightarrow> wlr_toplevel \<Rightarrow> scene_node \<Rightarrow> desk \<Rightarrow> desk" where
  "add_toplevel i t tree ds = ds\<lparr>ds_windows := server_new_xdg_toplevel i t tree # ds_windows ds\<rparr>"

definition xdg_toplevel_map :: "wlx_config \<Rightarrow> desk_env \<Rightarrow> new_output \<Rightarrow> wid \<Rightarrow> desk \<Rightarrow> desk" where
  "xdg_toplevel_map cfg env new i ds =
     (case find_win ds (Some i) of
        None \<Rightarrow> ds
      | Some win \<Rightarrow>
          if w_output win \<noteq> None then ds
          else
            let ds1 = on_window cfg env (EvMap (transient_parent ds win) new) i ds
            in (case find_win ds1 (Some i) of
                  None \<Rightarrow> ds1
                | Some win1 \<Rightarrow> if w_output win1 \<noteq> None then set_active_window env (Some i) ds1 else ds1))"

text \<open>\<open>wlr_output_destroy\<close> with the listener \<open>output_destroy\<close>, its effect on focus and drags included.\<close>

definition destroy_output :: "wid \<Rightarrow> input_state \<Rightarrow> input_state" where
  "destroy_output i st =
     (case find_win (in_desk st) (Some i) of
        None \<Rightarrow> st
      | Some win \<Rightarrow>
          if w_output win = None then st
          else
            let ds1 = upd_win i wlr_output_destroy (in_desk st)
            in if listeners win
               then st\<lparr>in_desk := (if ds_focused ds1 = Some i then ds1\<lparr>ds_focused := None\<rparr> else ds1),
                       in_drag := drag_forget i (in_drag st)\<rparr>
               else st\<lparr>in_desk := ds1\<rparr>)"

definition xdg_toplevel_unmap :: "wid \<Rightarrow> input_state \<Rightarrow> input_state" where
  "xdg_toplevel_unmap i st =
     destroy_output i (st\<lparr>in_desk :=
       destroy_present_windows_for_toplevel i (wlx_window_destroy_subpresents i (in_desk st))\<rparr>)"

definition xdg_toplevel_destroy :: "wid \<Rightarrow> input_state \<Rightarrow> input_state" where
  "xdg_toplevel_destroy i st =
     (let st1 = xdg_toplevel_unmap i st;
          ds = in_desk st1;
          ds1 = (if ds_focused ds = Some i then ds\<lparr>ds_focused := None\<rparr> else ds)
      in st1\<lparr>in_desk := ds1\<lparr>ds_windows := filter (\<lambda>w. w_id w \<noteq> i) (ds_windows ds1)\<rparr>,
             in_drag := drag_forget i (in_drag st1)\<rparr>)"

text \<open>The whole commit handler: the window's part, then the promotion of its subsurfaces unless it
  has no X window.\<close>

definition toplevel_commit ::
  "wlx_config \<Rightarrow> desk_env \<Rightarrow> (nat \<Rightarrow> bool) \<Rightarrow> (nat \<times> int \<times> int) list \<Rightarrow> wid \<Rightarrow> desk \<Rightarrow> desk" where
  "toplevel_commit cfg env grow_ok tree i ds =
     (let ds1 = on_window cfg env EvCommit i ds
      in case find_win ds1 (Some i) of
          None \<Rightarrow> ds1
        | Some win \<Rightarrow>
            if xwin win = XCB_WINDOW_NONE then ds1
            else wlx_window_sync_subpresents cfg env grow_ok tree i ds1)"

definition window_new_subsurface ::
  "wlx_config \<Rightarrow> desk_env \<Rightarrow> (nat \<Rightarrow> bool) \<Rightarrow> (nat \<times> int \<times> int) list \<Rightarrow> wid \<Rightarrow> desk \<Rightarrow> desk" where
  "window_new_subsurface cfg env grow_ok tree i ds = wlx_window_sync_subpresents cfg env grow_ok tree i ds"

end
