(* ===== verification/Focus_Invariant.thy ===== *)
theory Focus_Invariant
  imports Server
begin

text \<open>
  What the references between the parts mean: focus, menus and promoted subsurfaces name windows
  the compositor still has, and the window with the focus is the one that was last told to be
  active. The operations are taken one by one; the runs are in theory \<open>Server_Runs\<close>.
\<close>

section \<open>The invariant\<close>

definition live :: "desk \<Rightarrow> wid set" where
  "live ds = w_id ` set (ds_windows ds)"

text \<open>The last activation state the window's client was told.\<close>

definition told_active :: "wlx_window \<Rightarrow> bool" where
  "told_active w =
     (case rev (snd (told w)) of SetActivated i on # cs \<Rightarrow> on | _ \<Rightarrow> False)"

definition refs_ok :: "desk \<Rightarrow> bool" where
  "refs_ok ds \<longleftrightarrow>
     distinct (map w_id (ds_windows ds)) \<and> set_option (ds_focused ds) \<subseteq> live ds
     \<and> sp_parent ` set (ds_subs ds) \<subseteq> live ds
     \<and> (\<Union>p \<in> set (ds_popups ds). set_option (pp_parent p)) \<subseteq> live ds"

text \<open>A window without an output may have been told to be active before it lost it.\<close>

definition active_ok :: "desk \<Rightarrow> bool" where
  "active_ok ds \<longleftrightarrow> (\<forall>w \<in> set (ds_windows ds).
     (ds_focused ds = Some (w_id w) \<longrightarrow> told_active w)
     \<and> (told_active w \<longrightarrow> ds_focused ds = Some (w_id w) \<or> w_output w = None))"

definition active_except :: "wid set \<Rightarrow> desk \<Rightarrow> bool" where
  "active_except I ds \<longleftrightarrow> (\<forall>w \<in> set (ds_windows ds). w_id w \<notin> I \<longrightarrow>
     (ds_focused ds = Some (w_id w) \<longrightarrow> told_active w)
     \<and> (told_active w \<longrightarrow> ds_focused ds = Some (w_id w) \<or> w_output w = None))"

lemma active_except_empty [simp]: "active_except {} ds = active_ok ds"
  by (simp add: active_except_def active_ok_def)

definition desk_ok :: "desk \<Rightarrow> bool" where
  "desk_ok ds \<longleftrightarrow> refs_ok ds \<and> active_ok ds"

section \<open>Operations that leave it alone\<close>

definition win_frame :: "wlx_window \<Rightarrow> wlx_window \<Rightarrow> bool" where
  "win_frame w w' \<longleftrightarrow> told w' = told w \<and> (w_output w = None \<longrightarrow> w_output w' = None)"

definition desk_frame :: "desk \<Rightarrow> desk \<Rightarrow> bool" where
  "desk_frame ds ds' \<longleftrightarrow>
     list_all2 win_frame (ds_windows ds) (ds_windows ds') \<and> ds_focused ds' = ds_focused ds
     \<and> sp_parent ` set (ds_subs ds') \<subseteq> sp_parent ` set (ds_subs ds)
     \<and> pp_parent ` set (ds_popups ds') \<subseteq> pp_parent ` set (ds_popups ds)"

lemma win_frame_refl [simp]: "win_frame w w"
  by (simp add: win_frame_def)

lemma win_frame_trans: "win_frame a b \<Longrightarrow> win_frame b c \<Longrightarrow> win_frame a c"
  by (simp add: win_frame_def)

lemma desk_frame_refl [simp]: "desk_frame ds ds"
  by (simp add: desk_frame_def list_all2_refl)

lemma desk_frame_trans:
  assumes "desk_frame a b" "desk_frame b c"
  shows "desk_frame a c"
proof -
  have w: "list_all2 win_frame (ds_windows a) (ds_windows b)" "list_all2 win_frame (ds_windows b) (ds_windows c)"
    using assms by (simp_all add: desk_frame_def)
  have "list_all2 win_frame (ds_windows a) (ds_windows c)"
    by (rule list_all2_trans[OF _ w]) (rule win_frame_trans)
  moreover have "sp_parent ` set (ds_subs c) \<subseteq> sp_parent ` set (ds_subs a)"
    "pp_parent ` set (ds_popups c) \<subseteq> pp_parent ` set (ds_popups a)"
    using assms unfolding desk_frame_def by (meson subset_trans)+
  ultimately show ?thesis using assms by (simp add: desk_frame_def)
qed

lemma list_all2_map_id: "list_all2 win_frame ws ws' \<Longrightarrow> map w_id ws' = map w_id ws"
  by (induction rule: list_all2_induct) (simp_all add: win_frame_def told_def)

lemma frame_live: "desk_frame ds ds' \<Longrightarrow> live ds' = live ds"
proof -
  assume "desk_frame ds ds'"
  then have "map w_id (ds_windows ds') = map w_id (ds_windows ds)"
    by (simp add: desk_frame_def list_all2_map_id)
  then show ?thesis unfolding live_def set_map[symmetric] by simp
qed

lemma frame_refs:
  assumes f: "desk_frame ds ds'" and r: "refs_ok ds"
  shows "refs_ok ds'"
proof -
  have "map w_id (ds_windows ds') = map w_id (ds_windows ds)"
    using f by (simp add: desk_frame_def list_all2_map_id)
  moreover have "(\<Union>p \<in> set (ds_popups ds'). set_option (pp_parent p))
      \<subseteq> (\<Union>p \<in> set (ds_popups ds). set_option (pp_parent p))"
    using f by (fastforce simp: desk_frame_def)
  moreover have "sp_parent ` set (ds_subs ds') \<subseteq> live ds"
    by (rule subset_trans[of _ "sp_parent ` set (ds_subs ds)"]) (use f r in \<open>simp_all add: refs_ok_def desk_frame_def\<close>)
  moreover have "(\<Union>p \<in> set (ds_popups ds). set_option (pp_parent p)) \<subseteq> live ds"
    using r by (simp add: refs_ok_def)
  ultimately show ?thesis using f r frame_live[OF f] unfolding refs_ok_def desk_frame_def
    by (metis (no_types, lifting) subset_trans)
qed

lemma frame_active:
  assumes f: "desk_frame ds ds'" and a: "active_ok ds"
  shows "active_ok ds'"
  unfolding active_ok_def
proof
  fix w' assume "w' \<in> set (ds_windows ds')"
  then obtain n where n: "n < length (ds_windows ds')" "w' = ds_windows ds' ! n" by (auto simp: in_set_conv_nth)
  let ?w = "ds_windows ds ! n"
  have l: "list_all2 win_frame (ds_windows ds) (ds_windows ds')" and e: "ds_focused ds' = ds_focused ds"
    using f by (auto simp: desk_frame_def)
  then have w: "win_frame ?w w'" "?w \<in> set (ds_windows ds)"
    using n list_all2_nthD2[OF l n(1)] list_all2_lengthD[OF l] by auto
  then have s: "told_active w' = told_active ?w" "w_id w' = w_id ?w" "w_output ?w = None \<longrightarrow> w_output w' = None"
    by (auto simp: win_frame_def told_active_def told_def)
  with a w(2) e show "(ds_focused ds' = Some (w_id w') \<longrightarrow> told_active w')
      \<and> (told_active w' \<longrightarrow> ds_focused ds' = Some (w_id w') \<or> w_output w' = None)"
    unfolding active_ok_def by metis
qed

lemma frame_ok: "desk_frame ds ds' \<Longrightarrow> desk_ok ds \<Longrightarrow> desk_ok ds'"
  by (simp add: desk_ok_def frame_refs frame_active)

text \<open>Fields the invariant does not look at.\<close>

lemma frame_upd_seat [frame_intros, simp]: "desk_frame ds (upd_seat f ds)"
  by (simp add: desk_frame_def upd_seat_def list_all2_refl)

lemma frame_say [frame_intros, simp]: "desk_frame ds (desk_say cs ds)"
  by (simp add: desk_frame_def desk_say_def list_all2_refl)

lemma frame_grab [frame_intros, simp]:
  "desk_frame ds (ds\<lparr>ds_grabbed := a\<rparr>)" "desk_frame ds (ds\<lparr>ds_grab_pending := b\<rparr>)"
  "desk_frame ds (ds\<lparr>ds_grabbed := a, ds_grab_pending := b\<rparr>)" "desk_frame ds (ds\<lparr>ds_surfaces := m\<rparr>)"
  "desk_frame ds (ds\<lparr>ds_seat := s\<rparr>)"
  by (simp_all add: desk_frame_def list_all2_refl)

lemma frame_upd_win:
  assumes "\<And>w. w_id w = i \<Longrightarrow> win_frame w (f w)"
  shows "desk_frame ds (upd_win i f ds)"
proof -
  have "list_all2 win_frame ws (map (\<lambda>x. if w_id x = i then f x else x) ws)" for ws
    using assms by (induction ws) simp_all
  then show ?thesis by (simp add: desk_frame_def upd_win_def)
qed

lemma frame_hit [frame_intros, simp]: "desk_frame ds (snd (popup_at_root_pointer cfg env ds))"
proof -
  have "map pp_parent (ds_popups (snd (popup_at_root_pointer cfg env ds))) = map pp_parent (ds_popups ds)"
    by (rule hit_popups) simp
  then have "pp_parent ` set (ds_popups (snd (popup_at_root_pointer cfg env ds))) = pp_parent ` set (ds_popups ds)"
    by (metis set_map)
  then show ?thesis by (simp add: desk_frame_def list_all2_refl)
qed

lemma frame_upd_popup:
  assumes "\<And>p. p \<in> set (ds_popups ds) \<Longrightarrow> pp_id p = i \<Longrightarrow> pp_parent (f p) \<in> pp_parent ` set (ds_popups ds)"
  shows "desk_frame ds (upd_popup i f ds)"
  using assms by (auto simp: desk_frame_def upd_popup_def list_all2_refl)

lemma frame_upd_surface [simp]: "desk_frame ds (upd_surface f g ds)" "desk_frame ds (set_mapped f m ds)"
  by (simp_all add: desk_frame_def upd_surface_def set_mapped_def list_all2_refl)


section \<open>Windows\<close>

text \<open>Only the map handler gives a window an output.\<close>

definition keeps_no_output :: "(wlx_window \<Rightarrow> wlx_window) \<Rightarrow> bool" where
  "keeps_no_output f \<longleftrightarrow> (\<forall>w. w_output w = None \<longrightarrow> w_output (f w) = None)"

lemma commit_no_output: "w_output w = None \<Longrightarrow> w_output (surface_commit cfg env r w) = None"
proof -
  assume n: "w_output w = None"
  have "size_same w (sc_before cfg w)" by (rule size_same_before)
  with n have b: "w_output (sc_before cfg w) = None" by (simp add: size_same_def)
  then have "sc_fit cfg env r (sc_before cfg w) = sc_before cfg w" by (simp add: sc_fit_def)
  moreover have "size_same (sc_before cfg w) (sc_after cfg r (sc_before cfg w))" by (rule size_same_after)
  ultimately show ?thesis using b by (simp add: surface_commit_parts size_same_def)
qed

lemma set_size_output [simp]: "w_output (wlx_toplevel_set_size a b w) = w_output w"
  by (simp add: wlx_toplevel_set_size_def Let_def)

lemma reparent_no_output: "w_output w = None \<Longrightarrow> w_output (win_reparent_notify cfg env r p x y w) = None"
proof -
  assume n: "w_output w = None"
  have t: "w_output (apply_transient_hints cfg env p v) = w_output v" for v
    using log_only_same(1)[OF transient_hints_log_only] .
  have m: "w_output (xwin_set_motif_decorations cfg x b v) = w_output v"
    "w_output (dnd_set_xdnd_aware cfg x v) = w_output v" for x b v
    by (simp_all add: xwin_set_motif_decorations_def dnd_set_xdnd_aware_def)
  have g: "w_output (register_x11_window_subtree cfg u v) = w_output v" for u v
    by simp
  show ?thesis using n by (simp add: win_reparent_notify_def reparent_sync_def Let_def t m g)
qed

lemma step_no_output:
  assumes "w_output w = None" "\<And>p new. ev \<noteq> EvMap p new"
  shows "w_output (win_step cfg env r ev w) = None"
proof (cases ev)
  case EvNetWmState
  then show ?thesis using assms by (simp add: win_handle_net_wm_state_notify_def host_state_owner_def Let_def
      split: option.split prod.split)
qed (use assms commit_no_output reparent_no_output in \<open>simp_all add: win_configure_notify_def output_frame_def
    wlr_output_destroy_def toplevel_request_maximize_def toplevel_request_fullscreen_def send_net_wm_state_def
    toplevel_request_minimize_def send_root_client_message_def output_request_close_def decoration_request_mode_def
    wlx_decoration_apply_mode_def Let_def\<close>)

lemma on_window_frame: "(\<And>p new. ev \<noteq> EvMap p new) \<Longrightarrow> desk_frame ds (on_window cfg env ev i ds)"
  unfolding on_window_def by (rule frame_upd_win) (simp add: win_frame_def step_no_output)

section \<open>Focus\<close>

lemma told_active_emit [simp]: "told_active (emit (SetActivated i on) w) = on"
  by (simp add: told_active_def told_def)

lemma find_win_Some: "find_win ds (Some i) = Some w \<Longrightarrow> w \<in> set (ds_windows ds) \<and> w_id w = i"
  by (auto simp: find_win_def find_Some_iff)

lemma find_win_live: "i \<in> live ds \<longleftrightarrow> (\<exists>w. find_win ds (Some i) = Some w)"
proof -
  have "find_win ds (Some i) = None \<longleftrightarrow> i \<notin> live ds"
    by (auto simp: live_def find_win_def find_None_iff)
  then show ?thesis by auto
qed

lemma upd_win_ids [simp]: "(\<And>w. w_id (f w) = w_id w) \<Longrightarrow> map w_id (ds_windows (upd_win i f ds)) = map w_id (ds_windows ds)"
  by (simp add: upd_win_def)

lemma upd_win_live: "(\<And>w. w_id (f w) = w_id w) \<Longrightarrow> live (upd_win i f ds) = live ds"
  unfolding live_def set_map[symmetric] by simp

lemma upd_win_other [simp]:
  "ds_focused (upd_win i f ds) = ds_focused ds" "ds_subs (upd_win i f ds) = ds_subs ds"
  "ds_popups (upd_win i f ds) = ds_popups ds"
  by (simp_all add: upd_win_def)

text \<open>The windows after a change of the active window: the old one is told off, the new one on.\<close>

definition tell_active :: "wid option \<Rightarrow> wid option \<Rightarrow> wlx_window \<Rightarrow> wlx_window" where
  "tell_active old new w =
     (if new = Some (w_id w) then emit (SetActivated (w_id w) True) w
      else if old = Some (w_id w) then emit (SetActivated (w_id w) False) w else w)"

lemma tell_active_id [simp]: "w_id (tell_active old new w) = w_id w"
  by (simp add: tell_active_def)

lemma set_active_windows:
  assumes "refs_ok ds" "set_option win \<subseteq> live ds" "ds_focused ds \<noteq> win"
  shows "ds_windows (set_active_window env win ds) = map (tell_active (ds_focused ds) win) (ds_windows ds)
    \<and> ds_focused (set_active_window env win ds) = win
    \<and> ds_subs (set_active_window env win ds) = ds_subs ds
    \<and> ds_popups (set_active_window env win ds) = ds_popups ds"
proof -
  define ds1 where "ds1 = (case find_win ds (ds_focused ds) of
      None \<Rightarrow> ds | Some old \<Rightarrow> upd_win (w_id old) (emit (SetActivated (w_id old) False)) ds)"
  have w1: "ds_windows ds1 = map (tell_active (ds_focused ds) None) (ds_windows ds)"
  proof (cases "ds_focused ds")
    case None
    then show ?thesis by (simp add: ds1_def find_win_def tell_active_def map_idI)
  next
    case (Some i)
    with assms(1) obtain old where old: "find_win ds (Some i) = Some old"
      by (auto simp: refs_ok_def find_win_live)
    with find_win_Some[OF old] Some show ?thesis by (auto simp: ds1_def upd_win_def tell_active_def)
  qed
  have s1: "ds_subs ds1 = ds_subs ds" "ds_popups ds1 = ds_popups ds" by (simp_all add: ds1_def split: option.split)
  have sa: "set_active_window env win ds = (case find_win (ds1\<lparr>ds_focused := win\<rparr>) win of
      Some w \<Rightarrow> upd_seat (seat_say [SeatKeyboardEnter (de_toplevel_surface env (w_id w))])
        (upd_win (w_id w) (emit (SetActivated (w_id w) True)) (ds1\<lparr>ds_focused := win\<rparr>))
    | None \<Rightarrow> upd_seat (seat_say [SeatKeyboardClear]) (ds1\<lparr>ds_focused := win\<rparr>))"
    using assms(3) unfolding set_active_window_def Let_def ds1_def by simp
  show ?thesis
  proof (cases win)
    case None
    with w1 s1 sa show ?thesis by (simp add: find_win_def upd_seat_def)
  next
    case (Some i)
    have "map w_id (ds_windows ds1) = map w_id (ds_windows ds)" unfolding w1 by (simp add: tell_active_def)
    then have "i \<in> live (ds1\<lparr>ds_focused := win\<rparr>)"
      using assms(2) Some unfolding live_def set_map[symmetric] by simp
    then obtain w where w: "find_win (ds1\<lparr>ds_focused := win\<rparr>) (Some i) = Some w" by (auto simp: find_win_live)
    then have "w_id w = i" using find_win_Some by blast
    then have "set_active_window env win ds = upd_seat (seat_say [SeatKeyboardEnter (de_toplevel_surface env i)])
        (upd_win i (emit (SetActivated i True)) (ds1\<lparr>ds_focused := win\<rparr>))"
      using sa w Some by simp
    moreover have "(if w_id v = i then emit (SetActivated i True) (tell_active (ds_focused ds) None v)
        else tell_active (ds_focused ds) None v) = tell_active (ds_focused ds) (Some i) v" for v
      using assms(3) Some by (auto simp: tell_active_def)
    ultimately show ?thesis using w1 s1 Some
      by (simp add: upd_seat_def upd_win_def comp_def)
  qed
qed

text \<open>It puts things right where only the new window is out of order.\<close>

lemma set_active_repairs:
  assumes "refs_ok ds" "set_option win \<subseteq> live ds"
    "active_except (if ds_focused ds = win then {} else set_option win) ds"
  shows "desk_ok (set_active_window env win ds) \<and> live (set_active_window env win ds) = live ds"
proof (cases "ds_focused ds = win")
  case False
  note w = set_active_windows[OF assms(1,2) False, of env]
  have ids: "map w_id (ds_windows (set_active_window env win ds)) = map w_id (ds_windows ds)"
    using w by simp
  then have l: "live (set_active_window env win ds) = live ds" unfolding live_def set_map[symmetric] by simp
  have "refs_ok (set_active_window env win ds)"
    using assms l ids w unfolding refs_ok_def by metis
  moreover have "active_ok (set_active_window env win ds)"
    using assms(3) False w by (auto simp: active_ok_def active_except_def tell_active_def split: if_splits)
  ultimately show ?thesis using l by (simp add: desk_ok_def)
qed (use assms in \<open>simp add: set_active_window_def desk_ok_def\<close>)

lemma set_active_ok:
  assumes "desk_ok ds" "set_option win \<subseteq> live ds"
  shows "desk_ok (set_active_window env win ds) \<and> live (set_active_window env win ds) = live ds"
  by (rule set_active_repairs) (use assms in \<open>auto simp: desk_ok_def active_ok_def active_except_def\<close>)

section \<open>The surface under the pointer\<close>

lemma at_pointer_member:
  "window_at_root_pointer cfg env wins = Some (Some w) \<Longrightarrow> w \<in> set wins"
  by (auto simp: window_at_root_pointer_def split: if_splits dest: window_above_owned)

lemma scan_subs_member: "scan_subs pt sps = Some sp \<Longrightarrow> sp \<in> set sps"
  by (induction sps) (auto split: if_splits)

lemma sub_hit_member: "subpresent_at_root_pointer cfg env ds = Some sp \<Longrightarrow> sp \<in> set (ds_subs ds)"
  by (auto simp: subpresent_at_root_pointer_def dest: scan_subs_member split: option.splits)

lemma scan_popups_member: "scan_popups cfg env ds pt pops = (Some p, pops') \<Longrightarrow> p \<in> set pops'"
  by (induction pops arbitrary: pops') (auto simp: Let_def split: if_splits prod.splits)

lemma popup_hit_member:
  "popup_at_root_pointer cfg env ds = (Some p, ds') \<Longrightarrow> p \<in> set (ds_popups ds')"
  by (auto simp: popup_at_root_pointer_def dest: scan_popups_member split: if_splits option.splits prod.splits)

lemma hit_toplevel_win: "hit_toplevel cfg env win = Some (f, x, y, w, p) \<Longrightarrow> w = Some (w_id win)"
  by (auto simp: hit_toplevel_def Let_def split: option.splits prod.splits)

lemma below_popups_live:
  assumes "refs_ok ds" "hit_below_popups cfg env ds = Some (Some (f, x, y, w, p))"
  shows "set_option w \<subseteq> live ds"
proof (cases "Option.bind (subpresent_at_root_pointer cfg (de_env env) ds)
    (\<lambda>sp. map_option (\<lambda>(f, x, y). (f, x, y, Some (sp_parent sp), None :: nat option))
            (subpresent_surface_at cfg (de_env env) sp))")
  case (Some h)
  then obtain sp where sp: "subpresent_at_root_pointer cfg (de_env env) ds = Some sp" "w = Some (sp_parent sp)"
    using assms(2) by (auto simp: hit_below_popups_def bind_eq_Some_conv)
  with assms(1) sub_hit_member[OF sp(1)] show ?thesis by (auto simp: refs_ok_def)
next
  case None
  then obtain win where "window_at_root_pointer cfg (de_env env) (ds_windows ds) = Some (Some win)"
    "hit_toplevel cfg env win = Some (f, x, y, w, p)"
    using assms(2) by (auto simp: hit_below_popups_def bind_eq_Some_conv)
  with hit_toplevel_win at_pointer_member show ?thesis by (fastforce simp: live_def)
qed

lemma surface_under_live:
  assumes "desk_ok ds" "surface_under_root_pointer cfg env ds = Some (h, ds1)"
  shows "desk_frame ds ds1" "h = Some (f, x, y, w, p) \<Longrightarrow> set_option w \<subseteq> live ds1"
proof -
  obtain r ds2 where r: "popup_at_root_pointer cfg (de_env env) ds = (r, ds2)"
    by (cases "popup_at_root_pointer cfg (de_env env) ds")
  have f2: "desk_frame ds ds2" using frame_hit[of ds cfg "de_env env"] r by simp
  have ok2: "desk_ok ds2" by (rule frame_ok[OF f2 assms(1)])
  show "desk_frame ds ds1"
    using assms(2) r f2 by (auto simp: surface_under_root_pointer_def split: option.splits prod.splits)
  assume h: "h = Some (f, x, y, w, p)"
  then obtain pt where pt: "query_root_pointer_position cfg (de_env env) = Some pt"
    using assms(2) by (auto simp: surface_under_root_pointer_def split: option.splits)
  show "set_option w \<subseteq> live ds1"
  proof (cases r)
    case (Some pop)
    then have "w = pp_parent pop" "ds1 = ds2" using assms(2) h r pt
      by (auto simp: surface_under_root_pointer_def hit_popup_def Let_def split: prod.splits)
    moreover have "pop \<in> set (ds_popups ds2)" using popup_hit_member r Some by blast
    ultimately show ?thesis using ok2 by (auto simp: desk_ok_def refs_ok_def)
  next
    case None
    then have "hit_below_popups cfg env ds2 = Some h" "ds1 = ds2" using assms(2) r pt
      by (auto simp: surface_under_root_pointer_def)
    with h ok2 show ?thesis using below_popups_live by (simp add: desk_ok_def)
  qed
qed

lemma pointer_enter_ok:
  assumes ok: "desk_ok ds" and e: "pointer_enter_surface_under_cursor cfg env ds = Some ds'"
  shows "desk_ok ds' \<and> live ds' = live ds"
proof -
  obtain h ds1 where s: "surface_under_root_pointer cfg env ds = Some (h, ds1)"
    using e by (cases "surface_under_root_pointer cfg env ds") (auto simp: pointer_enter_surface_under_cursor_def)
  note f = surface_under_live[OF ok s]
  have ok1: "desk_ok ds1" "live ds1 = live ds" using frame_ok[OF f(1) ok] frame_live[OF f(1)] by simp_all
  have seat: "desk_ok (upd_seat g d) \<and> live (upd_seat g d) = live ds" if "desk_ok d" "live d = live ds" for g d
    using frame_ok[OF frame_upd_seat that(1)] frame_live[OF frame_upd_seat] that(2) by simp
  show ?thesis
  proof (cases h)
    case None
    with e s ok1 seat show ?thesis by (auto simp: pointer_enter_surface_under_cursor_def split: if_splits)
  next
    case (Some t)
    obtain fs x y w p where t: "t = (fs, x, y, w, p)" by (cases t)
    define ds2 where "ds2 = (if w \<noteq> None then set_active_window env w ds1 else ds1)"
    have ok2: "desk_ok ds2" "live ds2 = live ds"
      using set_active_ok[OF ok1(1) f(2)[OF Some[unfolded t]]] ok1 by (simp_all add: ds2_def)
    have "ds' = ds2 \<or> (\<exists>g. ds' = upd_seat g ds2)"
      using e s Some t unfolding pointer_enter_surface_under_cursor_def ds2_def
      by (auto simp: Let_def split: if_splits)
    with ok2 seat show ?thesis by auto
  qed
qed

section \<open>Handlers\<close>

text \<open>A handler that keeps the invariant and the windows there are.\<close>

interpretation desk_frames: frame_contract desk_frame desk_ok live
  by unfold_locales (simp, rule desk_frame_trans, assumption+, rule frame_ok, assumption+, rule frame_live)

abbreviation keeps :: "(desk \<Rightarrow> desk option) \<Rightarrow> bool" where
  "keeps \<equiv> desk_frames.keeps"

lemmas keepsI = desk_frames.keepsI
lemmas keepsD = desk_frames.keepsD

lemma keeps_pointer_enter [keeps_intros]: "keeps (pointer_enter_surface_under_cursor cfg env)"
  by (rule keepsI) (rule pointer_enter_ok)

lemma keeps_refresh [keeps_intros]: "keeps (wlx_pointer_refresh_focus cfg env)"
  unfolding wlx_pointer_refresh_focus_def by (rule keeps_pointer_enter)

lemma keeps_update_grab [keeps_intros]: "keeps (wlx_popup_update_pointer_grab cfg env)"
proof (rule keepsI)
  fix ds ds' assume ok: "desk_ok ds" and u: "wlx_popup_update_pointer_grab cfg env ds = Some ds'"
  obtain want w where g: "grab_window ds (ds_popups ds) (False, XCB_WINDOW_NONE) = (want, w)"
    by (cases "grab_window ds (ds_popups ds) (False, XCB_WINDOW_NONE)")
  let ?g = "desk_say [PwGrab w] (ds\<lparr>ds_grabbed := True, ds_grab_pending := False\<rparr>)"
  have f: "desk_frame ds ?g" by (rule desk_frame_trans[OF _ frame_say]) simp
  have u2: "desk_frame ds ((desk_say [PwUngrab] (ds\<lparr>ds_grabbed := False\<rparr>))\<lparr>ds_grab_pending := False\<rparr>)"
    by (intro desk_frame_trans[OF _ frame_grab(2)] desk_frame_trans[OF _ frame_say]) simp
  have "desk_frame ds ds' \<or> wlx_pointer_refresh_focus cfg env ?g = Some ds'"
    using u u2 unfolding wlx_popup_update_pointer_grab_def g by (auto split: if_splits)
  then show "desk_ok ds' \<and> live ds' = live ds"
  proof
    assume "desk_frame ds ds'"
    with ok show ?thesis by (simp add: frame_ok frame_live)
  next
    assume "wlx_pointer_refresh_focus cfg env ?g = Some ds'"
    from keepsD[OF keeps_refresh frame_ok[OF f ok] this] frame_live[OF f] show ?thesis by simp
  qed
qed

text \<open>The operations on popups.\<close>

lemma frame_refresh_box [frame_intros]:
  "desk_frame ds (upd_popup i (\<lambda>p. if pp_root_valid p then p else popup_update_root_box cfg env ds0 p) ds)"
  by (rule frame_upd_popup) auto

lemma frame_placement [frame_intros]: "desk_frame ds (snd (popup_compute_root_placement cfg env ds pop))"
  using frame_refresh_box[of ds _ cfg env ds]
  by (auto simp: popup_compute_root_placement_def placement_origin_def Let_def split: option.splits prod.splits)

lemma frame_replace_popup:
  "find_popup ds i = Some q \<Longrightarrow> pp_parent p = pp_parent q \<Longrightarrow> desk_frame ds (upd_popup i (\<lambda>_. p) ds)"
  by (rule frame_upd_popup) (auto dest: find_popup_Some)

lemma win_frame_schedule: "win_frame w (if w_output w \<noteq> None then emit ScheduleFrame w else w)"
  by (simp add: win_frame_def)

lemma keeps_position_and_map [keeps_intros]: "keeps (popup_position_and_map cfg env i)"
proof (rule keepsI)
  fix ds ds' assume ok: "desk_ok ds" and r: "popup_position_and_map cfg env i ds = Some ds'"
  from r show "desk_ok ds' \<and> live ds' = live ds"
  proof (cases rule: position_and_map_cases)
    case Nothing
    with ok show ?thesis by simp
  next
    case (Refreshed pop0)
    with frame_placement[of ds cfg "de_env env" pop0] ok show ?thesis by (simp add: frame_ok frame_live)
  next
    case (Scene pop0 ds1 pop1 pop3 parent)
    have "desk_frame ds ds1" unfolding Scene(1) by (rule frame_placement)
    moreover have "desk_frame ds1 (upd_popup i (\<lambda>_. pop3) ds1)"
      by (rule frame_replace_popup[OF Scene(2)]) (use Scene(3) in \<open>simp add: shape_def\<close>)
    ultimately have "desk_frame ds ds'"
      unfolding Scene(5) using desk_frame_trans frame_upd_win[OF win_frame_schedule] by blast
    with ok show ?thesis by (simp add: frame_ok frame_live)
  next
    case (Shown pop0 ds1 pop1 pop5 cs)
    have "desk_frame ds ds1" unfolding Shown(1) by (rule frame_placement)
    moreover have "desk_frame ds1 (upd_popup i (\<lambda>_. pop5) ds1)" by (rule frame_replace_popup[OF Shown(2,4)])
    ultimately have f: "desk_frame ds (desk_say cs (upd_popup i (\<lambda>_. pop5) ds1))"
      using desk_frame_trans frame_say by blast
    from keepsD[OF keeps_update_grab frame_ok[OF f ok] Shown(6)] frame_live[OF f] show ?thesis by simp
  qed
qed

lemma frame_hide [frame_intros]: "desk_frame ds (hide_popup i ds)"
proof (cases "find_popup ds i")
  case (Some p)
  have "desk_frame ds (upd_popup i (\<lambda>_. (fst (popup_destroy_xpresent p))
      \<lparr>pp_scene := map_option (set_enabled False) (pp_scene (fst (popup_destroy_xpresent p)))\<rparr>) ds)"
    by (rule frame_replace_popup[OF Some]) (simp add: popup_destroy_xpresent_def)
  then show ?thesis using Some desk_frame_trans frame_say
    by (auto simp: hide_popup_def split: prod.split)
qed (simp add: hide_popup_def)

lemmas frame_fold = desk_frames.fold_frame

lemma frame_hide_all [frame_intros]: "desk_frame ds (destroy_present_windows_for_toplevel win ds)"
  unfolding destroy_present_windows_for_toplevel_def by (rule frame_fold) (rule frame_hide)

lemma keeps_popup_map [keeps_intros]: "keeps (popup_map cfg env i)"
proof -
  have "keeps (\<lambda>ds1. if button_count (ds_seat ds1) = 0 then wlx_pointer_refresh_focus cfg env ds1 else Some ds1)"
    using keeps_refresh[of cfg env] by (simp add: desk_frames.keeps_def)
  from desk_frames.keeps_bind[OF keeps_position_and_map this] show ?thesis unfolding popup_map_def .
qed

lemma keeps_popup_unmap [keeps_intros]: "keeps (popup_unmap cfg env i)"
proof (rule keepsI)
  fix ds ds' assume ok: "desk_ok ds" and r: "popup_unmap cfg env i ds = Some ds'"
  obtain pop where p: "find_popup ds i = Some pop"
    using r by (cases "find_popup ds i") (simp_all add: popup_unmap_def)
  define ds1 where "ds1 = (if pt_focus (ds_seat ds) = Some (pp_surface pop)
      then upd_seat (wlr_seat_pointer_clear_focus (seat_env_of env ds)) ds else ds)"
  have "Option.bind (wlx_popup_update_pointer_grab cfg env (hide_popup i ds1)) (wlx_pointer_refresh_focus cfg env) = Some ds'"
    using r p unfolding popup_unmap_def ds1_def by (simp only: option.case Let_def)
  then obtain b where b: "wlx_popup_update_pointer_grab cfg env (hide_popup i ds1) = Some b"
    "wlx_pointer_refresh_focus cfg env b = Some ds'" by (auto simp: bind_eq_Some_conv)
  have "desk_frame ds ds1" by (simp add: ds1_def)
  note a = this b
  have f: "desk_frame ds (hide_popup i ds1)" by (rule desk_frame_trans[OF a(1) frame_hide])
  note k = keepsD[OF keeps_update_grab frame_ok[OF f ok] a(2)]
  from keepsD[OF keeps_refresh conjunct1[OF k] a(3)] k frame_live[OF f] show "desk_ok ds' \<and> live ds' = live ds" by simp
qed

lemma frame_filter_popups [frame_intros]: "desk_frame ds (ds\<lparr>ds_popups := filter P (ds_popups ds)\<rparr>)"
  by (auto simp: desk_frame_def list_all2_refl)

lemma keeps_popup_destroy [keeps_intros]: "keeps (popup_destroy cfg env i)"
proof (rule keepsI)
  fix ds ds' assume ok: "desk_ok ds" and r: "popup_destroy cfg env i ds = Some ds'"
  then obtain p a where p: "find_popup ds i = Some p"
    "wlx_popup_update_pointer_grab cfg env (desk_say (snd (popup_destroy_xpresent p))
       (upd_popup i (\<lambda>_. fst (popup_destroy_xpresent p)) ds)) = Some a"
    "ds' = a\<lparr>ds_popups := filter (\<lambda>p. pp_id p \<noteq> i) (ds_popups a)\<rparr>"
    by (auto simp: popup_destroy_def split: option.splits prod.splits)
  have f: "desk_frame ds (desk_say (snd (popup_destroy_xpresent p)) (upd_popup i (\<lambda>_. fst (popup_destroy_xpresent p)) ds))"
    by (rule desk_frame_trans[OF frame_replace_popup[OF p(1)] frame_say]) (simp add: popup_destroy_xpresent_def)
  from keepsD[OF keeps_update_grab frame_ok[OF f ok] p(2)] frame_live[OF f]
  show "desk_ok ds' \<and> live ds' = live ds"
    unfolding p(3) using frame_ok[OF frame_filter_popups] frame_live[OF frame_filter_popups] by simp
qed

lemma frame_unconstrain [frame_intros]: "desk_frame ds (snd (popup_unconstrain_box cfg env ds pop xs))"
proof -
  have "desk_frame ds (snd (unconstrain_parent cfg (de_env env) ds pop xs))"
    using frame_refresh_box[of ds _ cfg "de_env env" ds]
    by (simp add: unconstrain_parent_def Let_def split: option.split)
  then show ?thesis by (auto simp: popup_unconstrain_box_def Let_def split: option.split prod.split)
qed

lemma frame_initial_commit:
  assumes "popup_initial_commit cfg env pop ds = Some ds'"
  shows "desk_frame ds ds'"
proof (cases "ds_surfaces ds (pp_surface pop)")
  case (Some xs)
  obtain b ds1 where u: "popup_unconstrain_box cfg env ds pop xs = (b, ds1)"
    by (cases "popup_unconstrain_box cfg env ds pop xs")
  have "desk_frame ds (upd_surface (pp_surface pop) (\<lambda>x. x\<lparr>xs_sched_geo := g\<rparr>) ds1)" for g
    using frame_unconstrain[of ds cfg env pop xs] u by (intro desk_frame_trans[OF _ frame_upd_surface(1)]) simp
  with assms Some u show ?thesis by (auto simp: popup_initial_commit_def split: if_splits)
qed (use assms in \<open>simp add: popup_initial_commit_def\<close>)

lemma keeps_popup_commit [keeps_intros]: "keeps (popup_commit cfg env i)"
proof (rule keepsI)
  fix ds ds' assume ok: "desk_ok ds" and r: "popup_commit cfg env i ds = Some ds'"
  show "desk_ok ds' \<and> live ds' = live ds"
  proof (cases "find_popup ds i")
    case (Some pop)
    then obtain ds1 where c: "popup_initial_commit cfg env pop ds = Some ds1"
        "ds' = ds1 \<or> popup_position_and_map cfg env i ds1 = Some ds'"
      using r by (auto simp: popup_commit_def bind_eq_Some_conv split: if_splits)
    note f = frame_initial_commit[OF c(1)]
    show ?thesis
      using c(2) keepsD[OF keeps_position_and_map frame_ok[OF f ok]] frame_ok[OF f ok] frame_live[OF f] by auto
  qed (use ok r in \<open>simp add: popup_commit_def\<close>)
qed

lemma setup_refs_ok:
  assumes "desk_ok ds" "win \<in> live ds"
  shows "desk_ok (setup_popup env f win ds) \<and> live (setup_popup env f win ds) = live ds"
  using assms by (auto simp: setup_popup_def desk_ok_def refs_ok_def active_ok_def live_def upd_surface_def)

end
