(* ===== verification/Server_Runs.thy ===== *)
theory Server_Runs
  imports Focus_Invariant
begin

text \<open>
  The runs of the event loop and what holds along them: the references between windows, menus,
  promoted subsurfaces, focus and drags stay valid, and one window at most is active. A run ends
  where a window has gone away before its menus: the last section shows what happens there.
\<close>

section \<open>Promoted subsurfaces\<close>

lemma frame_upd_sub:
  assumes "\<And>sp. sp \<in> set (ds_subs ds) \<Longrightarrow> sp_surface sp = f \<Longrightarrow> sp_parent (g sp) \<in> sp_parent ` set (ds_subs ds)"
  shows "desk_frame ds (upd_sub f g ds)"
  using assms by (auto simp: desk_frame_def upd_sub_def list_all2_refl)

lemma frame_scene_enabled [frame_intros]: "desk_frame ds (subpresent_set_scene_enabled sp on ds)"
  unfolding subpresent_set_scene_enabled_def by (rule frame_upd_win) (simp add: win_frame_def)

lemma frame_replace_sub:
  "subpresent_find ds f = Some sp \<Longrightarrow> sub_key sp' = sub_key sp \<Longrightarrow> desk_frame ds (upd_sub f (\<lambda>_. sp') ds)"
  by (rule frame_upd_sub) (auto dest: find_Some(3) simp: sub_key_def)

lemma frame_position_present [frame_intros]: "desk_frame ds (subpresent_position_and_present cfg env f ds)"
proof (cases "subpresent_find ds f")
  case (Some sp)
  have shown: "desk_frame ds (desk_say cs (upd_sub f (\<lambda>_. sp2)
      (subpresent_set_scene_enabled sp' on (upd_sub f (\<lambda>_. sp1) ds))))"
    if k: "sub_key sp1 = sub_key sp" "sub_key sp2 = sub_key sp" for cs sp' on sp1 sp2
  proof -
    let ?d = "subpresent_set_scene_enabled sp' on (upd_sub f (\<lambda>_. sp1) ds)"
    have f1: "desk_frame ds (upd_sub f (\<lambda>_. sp1) ds)" by (rule frame_replace_sub[OF Some k(1)])
    have f2: "desk_frame ds ?d" by (rule desk_frame_trans[OF f1 frame_scene_enabled])
    have "sp_surface sp1 = f" "sp_parent sp1 = sp_parent sp2"
      using k find_Some[OF Some] by (simp_all add: sub_key_def)
    moreover have "sp1 \<in> set (ds_subs ?d)"
      using find_Some[OF Some] by (force simp: upd_sub_def)
    ultimately have "desk_frame ?d (upd_sub f (\<lambda>_. sp2) ?d)" by (intro frame_upd_sub) (metis image_eqI)
    with f2 show ?thesis using desk_frame_trans[OF desk_frame_trans frame_say] by simp
  qed
  have render: "sub_key sp2 = sub_key sp1"
    if "subpresent_render_and_present cfg env ds' sp1 = (ok, sp2, cs)" for ds' sp1 ok sp2 cs
    using sub_render_key[of cfg env ds' sp1] that by simp
  show ?thesis
    using Some shown render
    by (auto simp: subpresent_position_and_present_def Let_def sub_key_def split: option.split prod.split)
qed (simp add: subpresent_position_and_present_def)

lemma frame_sub_destroy [frame_intros]: "desk_frame ds (subpresent_destroy f ds)"
proof (cases "subpresent_find ds f")
  case (Some sp)
  have "desk_frame (subpresent_set_scene_enabled sp True ds)
      ((subpresent_set_scene_enabled sp True ds)\<lparr>ds_subs := filter (\<lambda>s. sp_surface s \<noteq> f) (ds_subs ds)\<rparr>)"
    by (auto simp: desk_frame_def list_all2_refl)
  from desk_frame_trans[OF desk_frame_trans[OF frame_scene_enabled this] frame_say] Some
  show ?thesis by (simp add: subpresent_destroy_def)
qed (simp add: subpresent_destroy_def)

lemma frame_destroy_subs [frame_intros]: "desk_frame ds (wlx_window_destroy_subpresents win ds)"
  unfolding wlx_window_destroy_subpresents_def by (rule frame_fold[where f = subpresent_destroy, OF frame_sub_destroy])

lemma get_or_create_ok:
  assumes "desk_ok ds" "win \<in> live ds" "subpresent_get_or_create env win f sx sy ds = (ok, ds')"
  shows "desk_ok ds' \<and> live ds' = live ds"
proof -
  have "ds_windows ds' = ds_windows ds" "ds_focused ds' = ds_focused ds" "ds_popups ds' = ds_popups ds"
    "sp_parent ` set (ds_subs ds') \<subseteq> insert win (sp_parent ` set (ds_subs ds))"
    using assms(3) by (auto simp: subpresent_get_or_create_def upd_sub_def split: if_splits)
  moreover from this have "sp_parent ` set (ds_subs ds') \<subseteq> live ds"
    using assms(1,2) by (auto simp: desk_ok_def refs_ok_def)
  ultimately show ?thesis using assms(1) by (simp add: desk_ok_def refs_ok_def active_ok_def live_def)
qed

lemma sync_ok:
  assumes ok: "desk_ok ds"
  shows "desk_ok (wlx_window_sync_subpresents cfg env grow_ok tree win ds)
    \<and> live (wlx_window_sync_subpresents cfg env grow_ok tree win ds) = live ds"
proof (cases "find_win ds (Some win)")
  case (Some w)
  have it: "desk_ok (sy_desk (subpresent_sync_iterator cfg env grow_ok win r a b v ctx))
      \<and> live (sy_desk (subpresent_sync_iterator cfg env grow_ok win r a b v ctx)) = live (sy_desk ctx)"
    if c: "desk_ok (sy_desk ctx)" "win \<in> live (sy_desk ctx)" for r a b v ctx
  proof -
    obtain f sx sy where v: "v = (f, sx, sy)" by (cases v)
    obtain k ds1 where g: "subpresent_get_or_create env win f sx sy (sy_desk ctx) = (k, ds1)"
      by (cases "subpresent_get_or_create env win f sx sy (sy_desk ctx)")
    note o1 = get_or_create_ok[OF c g]
    note p = frame_position_present[of ds1 cfg env f]
    have "sy_desk (subpresent_sync_iterator cfg env grow_ok win r a b v ctx)
        \<in> {sy_desk ctx, ds1, subpresent_position_and_present cfg env f ds1}"
      using g by (simp add: subpresent_sync_iterator_def v Let_def)
    with c(1) o1 frame_ok[OF p] frame_live[OF p] show ?thesis by auto
  qed
  have fold: "desk_ok (sy_desk (fold (subpresent_sync_iterator cfg env grow_ok win r a b) vs ctx))
      \<and> live (sy_desk (fold (subpresent_sync_iterator cfg env grow_ok win r a b) vs ctx)) = live (sy_desk ctx)"
    if "desk_ok (sy_desk ctx)" "win \<in> live (sy_desk ctx)" for r a b vs ctx
    using that
  proof (induction vs arbitrary: ctx)
    case (Cons v vs)
    from it[OF Cons.prems, of r a b v] Cons.IH Cons.prems(2) show ?case by simp
  qed simp
  have w: "win \<in> live ds" using Some find_win_live by blast
  have dem: "desk_ok (fold subpresent_destroy fs d) \<and> live (fold subpresent_destroy fs d) = live d"
    if "desk_ok d" for fs d
    using frame_ok[OF frame_fold[where f = subpresent_destroy, OF frame_sub_destroy] that]
      frame_live[OF frame_fold[where f = subpresent_destroy, OF frame_sub_destroy]] by simp
  show ?thesis
    using Some fold[of "\<lparr>sy_keep = [], sy_cap = 0, sy_desk = ds\<rparr>"] ok w dem
      frame_ok[OF frame_destroy_subs ok] frame_live[OF frame_destroy_subs]
    by (simp add: wlx_window_sync_subpresents_def Let_def)
qed (use ok in \<open>simp add: wlx_window_sync_subpresents_def\<close>)

lemma frame_reposition_popup [frame_intros]: "desk_frame ds (reposition_popup cfg env win i ds)"
proof (cases "find_popup ds i")
  case (Some pop)
  obtain pl ds1 where p: "popup_compute_root_placement cfg env ds pop = (pl, ds1)"
    by (cases "popup_compute_root_placement cfg env ds pop")
  have f: "desk_frame ds ds1" using frame_placement[of ds cfg env pop] p by simp
  have "desk_frame ds1 (desk_say cs (upd_popup i (\<lambda>_. q) ds1))"
    if "find_popup ds1 i = Some pop1" "pp_parent q = pp_parent pop1" for pop1 q cs
    using desk_frame_trans[OF frame_replace_popup[OF that] frame_say] .
  then show ?thesis using Some p f
    by (auto simp: reposition_popup_def on_xpresent_def intro: desk_frame_trans split: option.split prod.split)
qed (simp add: reposition_popup_def)

lemma frame_follow [frame_intros]: "desk_frame ds (wlx_reposition_popups_for_window cfg env win ds)"
  unfolding wlx_reposition_popups_for_window_def wlx_window_reposition_subpresents_def reposition_popups_def
  by (rule desk_frame_trans[OF frame_fold[where f = "reposition_popup cfg (de_env env) win", OF frame_reposition_popup]
        frame_fold[where f = "subpresent_position_and_present cfg env", OF frame_position_present]])

section \<open>Pointer and X events\<close>

lemma frame_notify_button [frame_intros]: "desk_frame ds (notify_button env b p ds)"
  by (simp add: notify_button_def)

lemma keeps_press [keeps_intros]: "keeps (cursor_press cfg env b)"
  using desk_frames.keeps_map[OF keeps_pointer_enter[of cfg env], of "notify_button env b True"]
  by (simp add: cursor_press_def[abs_def] frame_notify_button)

lemma keeps_retry [keeps_intros]: "keeps (retry_menu_grab cfg env)"
proof (rule keepsI)
  fix ds ds' assume ok: "desk_ok ds" "retry_menu_grab cfg env ds = Some ds'"
  then have "ds' = ds \<or> wlx_popup_update_pointer_grab cfg env ds = Some ds'"
    by (auto simp: retry_menu_grab_def split: if_splits)
  with keepsD[OF keeps_update_grab ok(1)] ok(1) show "desk_ok ds' \<and> live ds' = live ds" by auto
qed

lemma keeps_release [keeps_intros]: "keeps (cursor_release cfg env b)"
  unfolding cursor_release_def
  by (rule desk_frames.keeps_bind[OF desk_frames.keeps_after[OF keeps_retry frame_notify_button] keeps_pointer_enter])

lemma keeps_core_release [keeps_intros]: "keeps (core_release cfg env b)"
  unfolding core_release_def
  by (rule desk_frames.keeps_bind[OF desk_frames.keeps_after[OF keeps_pointer_enter frame_notify_button] keeps_retry])

lemma keeps_motion [keeps_intros]: "keeps (motion_focus cfg env)"
proof (rule keepsI)
  fix ds ds' assume ok: "desk_ok ds" and r: "motion_focus cfg env ds = Some ds'"
  then obtain h ds1 where s: "surface_under_root_pointer cfg env ds = Some (h, ds1)"
    by (cases "surface_under_root_pointer cfg env ds") (auto simp: motion_focus_def)
  then obtain g where "ds' = upd_seat g ds1" using r by (auto simp: motion_focus_def Let_def split: prod.splits)
  with desk_frame_trans[OF surface_under_live(1)[OF ok s] frame_upd_seat] ok
  show "desk_ok ds' \<and> live ds' = live ds" using frame_ok frame_live by blast
qed

lemma keeps_focus_out [keeps_intros]: "keeps (x11_focus_out cfg env mode detail x)"
proof (rule keepsI)
  fix ds ds' assume ok: "desk_ok ds" and r: "x11_focus_out cfg env mode detail x ds = Some ds'"
  define ds1 where "ds1 = snd (popup_at_root_pointer cfg (de_env env) ds)"
  have f: "desk_frame ds ds1" unfolding ds1_def by (rule frame_hit)
  have "ds' = ds \<or> ds' = ds1 \<or> ds' = set_active_window env None ds1"
    using r unfolding x11_focus_out_def ds1_def
    by (auto simp: case_prod_beta split: if_splits option.splits)
  with ok frame_ok[OF f ok] frame_live[OF f] set_active_ok[OF frame_ok[OF f ok], of None env]
  show "desk_ok ds' \<and> live ds' = live ds" by auto
qed

lemma from_xwin_live: "window_from_xwin (ds_windows ds) x = Some win \<Longrightarrow> w_id win \<in> live ds"
  by (auto simp: window_from_xwin_def find_Some_iff live_def)

lemma focus_in_ok:
  assumes "desk_ok ds"
  shows "desk_ok (x11_focus_in cfg env mode detail x ds) \<and> live (x11_focus_in cfg env mode detail x ds) = live ds"
proof (cases "focus_counts mode detail \<and> window_from_xwin (ds_windows ds) x \<noteq> None")
  case True
  then obtain win where w: "window_from_xwin (ds_windows ds) x = Some win" by auto
  let ?d = "set_active_window env (Some (w_id win)) ds"
  have ok: "desk_ok ?d" "live ?d = live ds" using set_active_ok[OF assms, of "Some (w_id win)" env] from_xwin_live[OF w] by auto
  have "x11_focus_in cfg env mode detail x ds = ?d \<or> (\<exists>g. x11_focus_in cfg env mode detail x ds = upd_seat g ?d)"
    using True w by (auto simp: x11_focus_in_def Let_def split: option.split prod.split)
  with ok frame_ok[OF frame_upd_seat ok(1)] frame_live[OF frame_upd_seat[of ?d]] show ?thesis by auto
qed (use assms in \<open>auto simp: x11_focus_in_def\<close>)

section \<open>The whole state\<close>

definition dragged :: "drag_state \<Rightarrow> wid set" where
  "dragged d = set_option (move_win d) \<union> set_option (resize_win d)"

definition server_ok :: "input_state \<Rightarrow> bool" where
  "server_ok st \<longleftrightarrow> desk_ok (in_desk st) \<and> dragged (in_drag st) \<subseteq> live (in_desk st)"

lemma dragged_simps [simp]:
  "dragged (update_interactive_drag cfg wins now env d) = dragged d"
  "dragged (drag_learn_correction wins x a b d) = dragged d"
  "dragged (drag_release d) = {}"
  "dragged (drag_forget i d) = dragged d - {i}"
  by (auto simp: dragged_def update_interactive_drag_def drag_throttle_ready_def drag_move_request_def
      drag_resize_request_def drag_learn_correction_def drag_release_def drag_forget_def Let_def
      split: option.split prod.split)

lemma dragged_begin:
  "dragged (begin_interactive_move cfg env win d) \<subseteq> insert (w_id win) (dragged d)"
  "dragged (begin_interactive_resize cfg env win edges d) \<subseteq> insert (w_id win) (dragged d)"
  by (auto simp: dragged_def begin_interactive_move_def begin_interactive_resize_def drag_reset_def Let_def
      split: option.splits)

lemma server_on_desk:
  "keeps h \<Longrightarrow> server_ok st \<Longrightarrow> on_desk h st = Some st' \<Longrightarrow> server_ok st'"
  by (auto simp: server_ok_def on_desk_def dest!: keepsD)

lemma server_frame:
  "desk_frame (in_desk st) ds \<Longrightarrow> server_ok st \<Longrightarrow> server_ok (st\<lparr>in_desk := ds\<rparr>)"
  by (simp add: server_ok_def frame_ok frame_live)

lemma server_desk:
  "desk_ok ds \<and> live ds = live (in_desk st) \<Longrightarrow> server_ok st \<Longrightarrow> server_ok (st\<lparr>in_desk := ds\<rparr>)"
  by (simp add: server_ok_def)

lemma server_dnd [simp]: "server_ok (st\<lparr>in_dnd := d\<rparr>) = server_ok st"
  by (simp add: server_ok_def)

lemma server_drag: "server_ok st \<Longrightarrow> dragged d \<subseteq> dragged (in_drag st) \<Longrightarrow> server_ok (st\<lparr>in_drag := d\<rparr>)"
  by (auto simp: server_ok_def)

lemma button_ok:
  assumes "server_ok st" "server_cursor_button cfg dc env denv b pressed st = Some st'"
  shows "server_ok st'"
proof (cases pressed)
  case True
  with assms server_on_desk[OF keeps_press] show ?thesis by (simp add: server_cursor_button_def)
next
  case False
  then obtain st1 where "on_desk (cursor_release cfg env b) st = Some st1"
    "st' = st1\<lparr>in_drag := drag_release (in_drag st1), in_dnd := dnd_out_on_button_release dc denv (in_dnd st1)\<rparr>"
    using assms(2) by (auto simp: server_cursor_button_def)
  with server_on_desk[OF keeps_release assms(1)] server_drag[of st1 "drag_release (in_drag st1)"]
  show ?thesis by (auto simp: server_ok_def)
qed

lemma motion_ok:
  assumes "server_ok st" "process_cursor_motion cfg dc env denv now st = Some st'"
  shows "server_ok st'"
proof (cases "move_win (in_drag st) \<noteq> None \<or> resize_win (in_drag st) \<noteq> None")
  case True
  with assms server_drag[of st] show ?thesis by (auto simp: process_cursor_motion_def)
next
  case False
  then obtain d1 ds1 where m: "motion_focus cfg env (in_desk st) = Some ds1" "st' = st\<lparr>in_dnd := d1, in_desk := ds1\<rparr>"
    using assms(2) unfolding process_cursor_motion_def by (auto split: option.splits if_splits)
  have "desk_ok (in_desk st)" using assms(1) by (simp add: server_ok_def)
  from keepsD[OF keeps_motion this m(1)] assms(1) m(2) show ?thesis by (simp add: server_ok_def)
qed

lemma core_ok:
  assumes "server_ok st" "handle_core_pointer_during_grab cfg dc env denv now ev st = Some st'"
  shows "server_ok st'"
proof -
  have fr: "server_ok (st1\<lparr>in_desk := server_cursor_frame (in_desk st1)\<rparr>)" if "server_ok st1" for st1
    by (rule server_frame[OF _ that]) (simp add: server_cursor_frame_def)
  show ?thesis
  proof (cases ev)
    case CoreMotion
    then obtain z where "process_cursor_motion cfg dc env denv now st = Some z"
      "st' = z\<lparr>in_desk := server_cursor_frame (in_desk z)\<rparr>"
      using assms(2) by (auto simp: handle_core_pointer_during_grab_def Let_def)
    with fr motion_ok[OF assms(1)] show ?thesis by blast
  next
    case (CoreButton detail pressed)
    show ?thesis
    proof (cases "core_button detail")
      case (Some b)
      have "keeps (if pressed then cursor_press cfg env b else core_release cfg env b)"
        by (simp add: keeps_intros)
      with assms fr server_on_desk CoreButton Some show ?thesis
        by (fastforce simp: handle_core_pointer_during_grab_def Let_def)
    qed (use assms CoreButton in \<open>simp add: handle_core_pointer_during_grab_def\<close>)
  qed
qed

lemma frame_xcb_window [frame_intros]:
  "desk_frame ds (xcb_reparent cfg env x parent ds)" "desk_frame ds (xcb_property cfg env x prop ds)"
  by (auto simp: xcb_reparent_def xcb_property_def intro: on_window_frame split: option.split)

lemma configure_ok:
  assumes "server_ok st"
  shows "server_ok (xcb_configure cfg env x cx cy st)"
proof -
  define ds where "ds = (case window_from_xwin (ds_windows (in_desk st)) x of
      None \<Rightarrow> in_desk st | Some win \<Rightarrow> wlx_reposition_popups_for_window cfg env (w_id win) (in_desk st))"
  have f: "desk_frame (in_desk st) ds" by (simp add: ds_def frame_follow split: option.split)
  have e: "xcb_configure cfg env x cx cy st
      = st\<lparr>in_desk := ds, in_drag := drag_learn_correction (wins_of ds) x cx cy (in_drag st)\<rparr>"
    unfolding xcb_configure_def ds_def Let_def ..
  show ?thesis unfolding e
    using assms frame_live[OF f] frame_ok[OF f] by (simp add: server_ok_def)
qed

lemma xcb_event_ok:
  assumes ok: "server_ok st" and e: "handle_xcb_event cfg dc e ev st = Some st'"
  shows "server_ok st'"
proof (cases ev)
  case (XCore c)
  show ?thesis
  proof (cases "ds_grabbed (in_desk st)")
    case True
    with e XCore have "handle_core_pointer_during_grab cfg dc (xe_desk e) (xe_dnd e) (xe_now e) c st = Some st'" by simp
    then show ?thesis by (rule core_ok[OF ok])
  qed (use e XCore ok in simp)
next
  case (XFocusIn mode detail x)
  have "desk_ok (in_desk st)" using ok by (simp add: server_ok_def)
  from server_desk[OF focus_in_ok[OF this] ok] e XFocusIn show ?thesis by auto
next
  case (XFocusOut mode detail x)
  with e have "on_desk (x11_focus_out cfg (xe_desk e) mode detail x) st = Some st'" by simp
  then show ?thesis by (rule server_on_desk[OF keeps_focus_out ok])
next
  case (XReparent x parent)
  with e server_frame[OF frame_xcb_window(1) ok] show ?thesis by auto
next
  case (XConfigure x cx cy)
  with e configure_ok[OF ok] show ?thesis by auto
next
  case (XPropertyNotify x atm)
  with e server_frame[OF frame_xcb_window(2) ok] show ?thesis by auto
qed (use e ok in \<open>auto split: if_splits\<close>)

lemma readable_ok:
  "server_ok st \<Longrightarrow> handle_xcb_readable cfg dc evs st = Some st' \<Longrightarrow> server_ok st'"
  by (induction cfg dc evs st rule: handle_xcb_readable.induct)
    (auto simp: bind_eq_Some_conv dest: xcb_event_ok)

section \<open>The life of a toplevel\<close>

lemma add_toplevel_ok:
  assumes "server_ok st" "i \<notin> live (in_desk st)"
  shows "server_ok (st\<lparr>in_desk := add_toplevel i t tree (in_desk st)\<rparr>)"
proof -
  let ?w = "server_new_xdg_toplevel i t tree"
  have n: "w_id ?w = i" "\<not> told_active ?w" by (simp_all add: server_new_xdg_toplevel_def told_active_def told_def)
  have "live (add_toplevel i t tree (in_desk st)) = insert i (live (in_desk st))"
    using n by (simp add: live_def add_toplevel_def)
  moreover have "ds_focused (in_desk st) \<noteq> Some i"
    using assms by (auto simp: server_ok_def desk_ok_def refs_ok_def)
  ultimately show ?thesis using assms n
    by (auto simp: server_ok_def desk_ok_def refs_ok_def active_ok_def add_toplevel_def live_def)
qed

text \<open>A change of the windows named \<open>i\<close> that tells the client nothing.\<close>

lemma upd_win_refs:
  assumes "refs_ok ds" "\<And>w. w_id (g w) = w_id w"
  shows "refs_ok (upd_win i g ds)" "live (upd_win i g ds) = live ds"
proof -
  have ids: "map w_id (ds_windows (upd_win i g ds)) = map w_id (ds_windows ds)" using assms(2) by simp
  show l: "live (upd_win i g ds) = live ds" by (rule upd_win_live) (rule assms(2))
  show "refs_ok (upd_win i g ds)" using assms(1) l unfolding refs_ok_def ids by simp
qed

lemma told_same: "told w' = told w \<Longrightarrow> w_id w' = w_id w \<and> told_active w' = told_active w"
  by (simp add: told_def told_active_def)

lemma map_ok:
  assumes ok: "desk_ok ds"
  shows "desk_ok (xdg_toplevel_map cfg env new i ds) \<and> live (xdg_toplevel_map cfg env new i ds) = live ds"
proof (cases "\<exists>win. find_win ds (Some i) = Some win \<and> w_output win = None")
  case True
  then obtain win where w: "find_win ds (Some i) = Some win" "w_output win = None" by blast
  define g where "g = win_step cfg (de_env env) (popup_scenes ds) (EvMap (transient_parent ds win) new)"
  define ds1 where "ds1 = upd_win i g ds"
  have t: "told (g v) = told v" for v by (simp add: g_def)
  then have g: "w_id (g v) = w_id v \<and> told_active (g v) = told_active v" for v by (rule told_same)
  have r: "refs_ok ds1" "live ds1 = live ds"
    unfolding ds1_def using upd_win_refs[of ds g i] ok g by (auto simp: desk_ok_def)
  have one: "v = win" if "v \<in> set (ds_windows ds)" "w_id v = i" for v
    using ok that find_win_Some[OF w(1)] by (auto simp: desk_ok_def refs_ok_def distinct_map inj_on_def)
  have others: "active_except (if ds_focused ds1 = Some i then {} else set_option (Some i)) ds1"
    using ok g one by (auto simp: ds1_def active_except_def desk_ok_def active_ok_def upd_win_def)
  have i: "i \<in> live ds1" using w(1) r(2) find_win_live by blast
  then obtain win1 where w1: "find_win ds1 (Some i) = Some win1" using find_win_live by blast
  have e: "xdg_toplevel_map cfg env new i ds = (if w_output win1 \<noteq> None then set_active_window env (Some i) ds1 else ds1)"
    using w w1 by (simp add: xdg_toplevel_map_def on_window_def ds1_def g_def)
  show ?thesis
  proof (cases "w_output win1 = None")
    case True
    have "v = win1" if "v \<in> set (ds_windows ds1)" "w_id v = i" for v
      using r(1) that find_win_Some[OF w1] by (auto simp: refs_ok_def distinct_map inj_on_def)
    then have "active_ok ds1" using others True
      by (auto simp: active_ok_def active_except_def split: if_splits)
    with e True r show ?thesis by (simp add: desk_ok_def)
  next
    case False
    with e r i set_active_repairs[OF r(1) _ others, of env] show ?thesis by simp
  qed
qed (use ok in \<open>auto simp: xdg_toplevel_map_def split: option.split\<close>)

lemma destroy_output_ok:
  assumes "server_ok st"
  shows "server_ok (destroy_output i st)" "live (in_desk (destroy_output i st)) = live (in_desk st)"
    "set (ds_popups (in_desk (destroy_output i st))) = set (ds_popups (in_desk st))"
    "ds_subs (in_desk (destroy_output i st)) = ds_subs (in_desk st)"
proof -
  let ?d1 = "upd_win i wlr_output_destroy (in_desk st)"
  have ok: "desk_ok (in_desk st)" using assms by (simp add: server_ok_def)
  have f: "desk_frame (in_desk st) ?d1"
  proof (rule frame_upd_win)
    fix w :: wlx_window assume "w_id w = i"
    have "w_output w = None \<Longrightarrow> wlr_output_destroy w = w" by (simp add: wlr_output_destroy_def)
    then show "win_frame w (wlr_output_destroy w)" by (auto simp: win_frame_def)
  qed
  have "server_ok (destroy_output i st) \<and> live (in_desk (destroy_output i st)) = live (in_desk st)
    \<and> set (ds_popups (in_desk (destroy_output i st))) = set (ds_popups (in_desk st))
    \<and> ds_subs (in_desk (destroy_output i st)) = ds_subs (in_desk st)"
  proof (cases "\<exists>win. find_win (in_desk st) (Some i) = Some win \<and> w_output win \<noteq> None \<and> listeners win")
    case False
    then have "destroy_output i st = st \<or> destroy_output i st = st\<lparr>in_desk := ?d1\<rparr>"
    proof (cases "find_win (in_desk st) (Some i)")
      case (Some a)
      with False consider "w_output a = None" | "w_output a \<noteq> None" "\<not> listeners a" by blast
      then show ?thesis by cases (simp_all add: destroy_output_def Some Let_def)
    qed (simp add: destroy_output_def)
    then show ?thesis
    proof
      assume e: "destroy_output i st = st"
      show ?thesis unfolding e using assms by simp
    next
      assume e: "destroy_output i st = st\<lparr>in_desk := ?d1\<rparr>"
      show ?thesis unfolding e using server_frame[OF f assms] frame_live[OF f] by simp
    qed
  next
    case True
    then obtain win x where w: "find_win (in_desk st) (Some i) = Some win" "w_output win = Some x" "listeners win" by blast
    let ?d2 = "if ds_focused ?d1 = Some i then ?d1\<lparr>ds_focused := None\<rparr> else ?d1"
    have e: "destroy_output i st = st\<lparr>in_desk := ?d2, in_drag := drag_forget i (in_drag st)\<rparr>"
      using w by (simp add: destroy_output_def Let_def)
    have ok1: "desk_ok ?d1" by (rule frame_ok[OF f ok])
    have one: "v = win" if "v \<in> set (ds_windows (in_desk st))" "w_id v = i" for v
      using ok that find_win_Some[OF w(1)] by (auto simp: desk_ok_def refs_ok_def distinct_map inj_on_def)
    have "w_output v = None" if "v \<in> set (ds_windows ?d1)" "w_id v = i" for v
    proof -
      have "v \<in> (\<lambda>u. if w_id u = i then wlr_output_destroy u else u) ` set (ds_windows (in_desk st))"
        using that(1) unfolding upd_win_def set_map[symmetric] by simp
      then obtain u where u: "u \<in> set (ds_windows (in_desk st))"
        "v = (if w_id u = i then wlr_output_destroy u else u)" by blast
      have "w_id u = i"
        using that(2) u(2) told_same[OF told_output_destroy[of u]] by (auto split: if_splits)
      with u one w(3) show ?thesis
        by (auto simp: wlr_output_destroy_def output_destroy_def reset_identity_def split: option.split)
    qed
    then have "desk_ok ?d2 \<and> live ?d2 = live ?d1"
      using ok1 by (auto simp: desk_ok_def refs_ok_def active_ok_def live_def)
    with frame_live[OF f] assms show ?thesis unfolding e by (auto simp: server_ok_def)
  qed
  then show "server_ok (destroy_output i st)" "live (in_desk (destroy_output i st)) = live (in_desk st)"
    "set (ds_popups (in_desk (destroy_output i st))) = set (ds_popups (in_desk st))"
    "ds_subs (in_desk (destroy_output i st)) = ds_subs (in_desk st)" by blast+
qed

lemma destroy_subs_parents:
  "sp \<in> set (ds_subs (wlx_window_destroy_subpresents i ds)) \<Longrightarrow> sp \<in> set (ds_subs ds) \<and> sp_parent sp \<noteq> i"
proof -
  have d: "ds_subs (subpresent_destroy f d) = filter (\<lambda>s. sp_surface s \<noteq> f) (ds_subs d)" for f d
    using find_None[of d f]
    by (auto simp: subpresent_destroy_def subpresent_find_def find_None_iff split: option.split intro!: filter_True[symmetric])
  have "set (ds_subs (fold subpresent_destroy fs d)) = {s \<in> set (ds_subs d). sp_surface s \<notin> set fs}" for fs d
    by (induction fs arbitrary: d) (auto simp: d)
  then show "sp \<in> set (ds_subs (wlx_window_destroy_subpresents i ds)) \<Longrightarrow> sp \<in> set (ds_subs ds) \<and> sp_parent sp \<noteq> i"
    by (auto simp: wlx_window_destroy_subpresents_def)
qed

lemma hide_all_subs [simp]: "ds_subs (destroy_present_windows_for_toplevel i ds) = ds_subs ds"
proof -
  have "ds_subs (hide_popup j d) = ds_subs d" for j d
    by (simp add: hide_popup_def desk_say_def upd_popup_def split: option.split prod.split)
  then have "ds_subs (fold hide_popup js d) = ds_subs d" for js d by (induction js arbitrary: d) simp_all
  then show ?thesis by (simp add: destroy_present_windows_for_toplevel_def)
qed

lemma unmap_ok:
  assumes "server_ok st"
  shows "server_ok (xdg_toplevel_unmap i st)" "live (in_desk (xdg_toplevel_unmap i st)) = live (in_desk st)"
    "pp_parent ` set (ds_popups (in_desk (xdg_toplevel_unmap i st))) \<subseteq> pp_parent ` set (ds_popups (in_desk st))"
    "\<And>sp. sp \<in> set (ds_subs (in_desk (xdg_toplevel_unmap i st))) \<Longrightarrow> sp_parent sp \<noteq> i"
proof -
  let ?d = "destroy_present_windows_for_toplevel i (wlx_window_destroy_subpresents i (in_desk st))"
  have f: "desk_frame (in_desk st) ?d" by (rule desk_frame_trans[OF frame_destroy_subs frame_hide_all])
  note o = destroy_output_ok[OF server_frame[OF f assms], of i]
  show "server_ok (xdg_toplevel_unmap i st)" unfolding xdg_toplevel_unmap_def by (rule o(1))
  show "live (in_desk (xdg_toplevel_unmap i st)) = live (in_desk st)"
    unfolding xdg_toplevel_unmap_def using o(2) frame_live[OF f] by simp
  show "pp_parent ` set (ds_popups (in_desk (xdg_toplevel_unmap i st))) \<subseteq> pp_parent ` set (ds_popups (in_desk st))"
    unfolding xdg_toplevel_unmap_def o(3) using f by (simp add: desk_frame_def)
  show "\<And>sp. sp \<in> set (ds_subs (in_desk (xdg_toplevel_unmap i st))) \<Longrightarrow> sp_parent sp \<noteq> i"
    unfolding xdg_toplevel_unmap_def o(4) using destroy_subs_parents by auto
qed

text \<open>A window nothing refers to but the focus can be dropped.\<close>

lemma drop_window_ok:
  assumes ok: "desk_ok ds" and "Some i \<notin> pp_parent ` set (ds_popups ds)" "i \<notin> sp_parent ` set (ds_subs ds)"
    and ds': "ds' = (if ds_focused ds = Some i then ds\<lparr>ds_focused := None\<rparr> else ds)
                \<lparr>ds_windows := filter (\<lambda>w. w_id w \<noteq> i) (ds_windows ds)\<rparr>"
  shows "desk_ok ds'" "live ds' = live ds - {i}"
proof -
  show l: "live ds' = live ds - {i}" by (auto simp: live_def ds')
  have r: "refs_ok ds" "active_ok ds" using ok by (simp_all add: desk_ok_def)
  have e: "ds_windows ds' = filter (\<lambda>w. w_id w \<noteq> i) (ds_windows ds)" "ds_subs ds' = ds_subs ds"
    "ds_popups ds' = ds_popups ds" "set_option (ds_focused ds') = set_option (ds_focused ds) - {i}"
    by (simp_all add: ds')
  have "i \<notin> (\<Union>p \<in> set (ds_popups ds). set_option (pp_parent p))" using assms(2) by force
  then have "(\<Union>p \<in> set (ds_popups ds). set_option (pp_parent p)) \<subseteq> live ds - {i}"
    "sp_parent ` set (ds_subs ds) \<subseteq> live ds - {i}" "set_option (ds_focused ds) - {i} \<subseteq> live ds - {i}"
    using r(1) assms(3) unfolding refs_ok_def by blast+
  moreover have "distinct (map w_id (filter (\<lambda>w. w_id w \<noteq> i) (ds_windows ds)))"
    using r(1) by (simp add: refs_ok_def distinct_map_filter)
  ultimately have "refs_ok ds'" unfolding refs_ok_def l e by blast
  moreover have "active_ok ds'"
    unfolding active_ok_def e(1)
  proof
    fix w assume "w \<in> set (filter (\<lambda>w. w_id w \<noteq> i) (ds_windows ds))"
    then have w: "w \<in> set (ds_windows ds)" "w_id w \<noteq> i" by simp_all
    then have "ds_focused ds' = Some (w_id w) \<longleftrightarrow> ds_focused ds = Some (w_id w)" by (simp add: ds')
    with r(2) w(1) show "(ds_focused ds' = Some (w_id w) \<longrightarrow> told_active w)
        \<and> (told_active w \<longrightarrow> ds_focused ds' = Some (w_id w) \<or> w_output w = None)"
      by (simp add: active_ok_def)
  qed
  ultimately show "desk_ok ds'" by (simp add: desk_ok_def)
qed

lemma toplevel_destroy_ok:
  assumes ok: "server_ok st" and gone: "Some i \<notin> pp_parent ` set (ds_popups (in_desk st))"
  shows "server_ok (xdg_toplevel_destroy i st)"
proof -
  define st1 where "st1 = xdg_toplevel_unmap i st"
  note u = unmap_ok[OF ok, where i = i, folded st1_def]
  have d: "desk_ok (in_desk st1)" "dragged (in_drag st1) \<subseteq> live (in_desk st1)"
    using u(1) by (simp_all add: server_ok_def)
  have n: "Some i \<notin> pp_parent ` set (ds_popups (in_desk st1))" "i \<notin> sp_parent ` set (ds_subs (in_desk st1))"
    using u(3,4) gone by blast+
  define ds2 where "ds2 = (if ds_focused (in_desk st1) = Some i then (in_desk st1)\<lparr>ds_focused := None\<rparr> else in_desk st1)
                \<lparr>ds_windows := filter (\<lambda>w. w_id w \<noteq> i) (ds_windows (in_desk st1))\<rparr>"
  have "xdg_toplevel_destroy i st = st1\<lparr>in_desk := ds2, in_drag := drag_forget i (in_drag st1)\<rparr>"
    by (simp add: xdg_toplevel_destroy_def Let_def st1_def[symmetric] ds2_def)
  with drop_window_ok[OF d(1) n ds2_def] d(2) show ?thesis by (auto simp: server_ok_def)
qed

section \<open>References that do not count the menus\<close>

text \<open>\<open>menus_live\<close>: every menu's window exists. \<open>server_core\<close> is what holds of the rest of the state
  whether it does or not.\<close>

definition menus_live :: "desk \<Rightarrow> bool" where
  "menus_live ds \<longleftrightarrow> (\<forall>p \<in> set (ds_popups ds). set_option (pp_parent p) \<subseteq> live ds)"

definition no_menus :: "desk \<Rightarrow> desk" where
  "no_menus ds = ds\<lparr>ds_popups := []\<rparr>"

definition server_core :: "input_state \<Rightarrow> bool" where
  "server_core st \<longleftrightarrow> desk_ok (no_menus (in_desk st)) \<and> dragged (in_drag st) \<subseteq> live (in_desk st)"

lemma live_no_menus [simp]: "live (no_menus ds) = live ds"
  by (simp add: live_def no_menus_def)

lemma desk_ok_no_menus: "desk_ok ds \<longleftrightarrow> desk_ok (no_menus ds) \<and> menus_live ds"
  by (auto simp: desk_ok_def refs_ok_def active_ok_def menus_live_def no_menus_def live_def)

lemma server_ok_core: "server_ok st \<longleftrightarrow> server_core st \<and> menus_live (in_desk st)"
  using desk_ok_no_menus[of "in_desk st"] by (auto simp: server_ok_def server_core_def)

lemma toplevel_destroy_core:
  assumes ok: "server_ok st"
  shows "server_core (xdg_toplevel_destroy i st)"
proof -
  define st1 where "st1 = xdg_toplevel_unmap i st"
  note u = unmap_ok[OF ok, where i = i, folded st1_def]
  have d: "desk_ok (no_menus (in_desk st1))" "dragged (in_drag st1) \<subseteq> live (in_desk st1)"
    using u(1) desk_ok_no_menus[of "in_desk st1"] by (simp_all add: server_ok_def)
  have n: "Some i \<notin> pp_parent ` set (ds_popups (no_menus (in_desk st1)))"
      "i \<notin> sp_parent ` set (ds_subs (no_menus (in_desk st1)))"
    using u(4) by (auto simp: no_menus_def)
  define ds2 where "ds2 = (if ds_focused (in_desk st1) = Some i then (in_desk st1)\<lparr>ds_focused := None\<rparr> else in_desk st1)
                \<lparr>ds_windows := filter (\<lambda>w. w_id w \<noteq> i) (ds_windows (in_desk st1))\<rparr>"
  have "xdg_toplevel_destroy i st = st1\<lparr>in_desk := ds2, in_drag := drag_forget i (in_drag st1)\<rparr>"
    by (simp add: xdg_toplevel_destroy_def Let_def st1_def[symmetric] ds2_def)
  moreover have "no_menus ds2 = (if ds_focused (no_menus (in_desk st1)) = Some i
      then (no_menus (in_desk st1))\<lparr>ds_focused := None\<rparr> else no_menus (in_desk st1))
                \<lparr>ds_windows := filter (\<lambda>w. w_id w \<noteq> i) (ds_windows (no_menus (in_desk st1)))\<rparr>"
    by (simp add: no_menus_def ds2_def)
  note dw = drop_window_ok[OF d(1) n this]
  ultimately show ?thesis using dw(1) dw(2)[unfolded live_no_menus] d(2) by (auto simp: server_core_def)
qed

lemma setup_core: "server_ok st \<Longrightarrow> server_core (st\<lparr>in_desk := setup_popup env f win (in_desk st)\<rparr>)"
  by (auto simp: server_ok_def server_core_def no_menus_def setup_popup_def desk_ok_def refs_ok_def active_ok_def
      live_def upd_surface_def)

section \<open>Runs\<close>

text \<open>The events of one window that the theory \<open>Window_Steps\<close> treats alone.\<close>

fun window_event :: "win_event \<Rightarrow> bool" where
  "window_event (EvMap p new) = False"
| "window_event EvUnmap = False"
| "window_event EvCommit = False"
| "window_event ev = True"

text \<open>
  One turn of the event loop. What wlroots does on its own is a change of the surfaces or of the
  seat; a drag of a Wayland client and the clipboard change only their own state.
\<close>

inductive srv_step :: "wlx_config \<Rightarrow> dnd_cfg \<Rightarrow> input_state \<Rightarrow> input_state \<Rightarrow> bool" for cfg dc where
  sv_button: "server_cursor_button cfg dc env denv b p st = Some st' \<Longrightarrow> srv_step cfg dc st st'"
| sv_motion: "process_cursor_motion cfg dc env denv now st = Some st' \<Longrightarrow> srv_step cfg dc st st'"
| sv_frame: "srv_step cfg dc st (st\<lparr>in_desk := server_cursor_frame (in_desk st)\<rparr>)"
| sv_xcb: "handle_xcb_readable cfg dc evs st = Some st' \<Longrightarrow> srv_step cfg dc st st'"
| sv_new: "i \<notin> live (in_desk st) \<Longrightarrow> srv_step cfg dc st (st\<lparr>in_desk := add_toplevel i t tree (in_desk st)\<rparr>)"
| sv_map: "srv_step cfg dc st (st\<lparr>in_desk := xdg_toplevel_map cfg env new i (in_desk st)\<rparr>)"
| sv_unmap: "srv_step cfg dc st (xdg_toplevel_unmap i st)"
| sv_destroy: "srv_step cfg dc st (xdg_toplevel_destroy i st)"
| sv_commit: "srv_step cfg dc st (st\<lparr>in_desk := toplevel_commit cfg env grow_ok walk i (in_desk st)\<rparr>)"
| sv_subsurface: "srv_step cfg dc st (st\<lparr>in_desk := window_new_subsurface cfg env grow_ok walk i (in_desk st)\<rparr>)"
| sv_window: "window_event ev \<Longrightarrow> srv_step cfg dc st (st\<lparr>in_desk := on_window cfg env ev i (in_desk st)\<rparr>)"
| sv_move: "find_win (in_desk st) (Some i) = Some win \<Longrightarrow>
    srv_step cfg dc st (st\<lparr>in_drag := begin_interactive_move cfg wenv win (in_drag st)\<rparr>)"
| sv_resize: "find_win (in_desk st) (Some i) = Some win \<Longrightarrow>
    srv_step cfg dc st (st\<lparr>in_drag := begin_interactive_resize cfg wenv win edges (in_drag st)\<rparr>)"
| sv_setup: "srv_step cfg dc st (st\<lparr>in_desk := setup_popup env f win (in_desk st)\<rparr>)"
| sv_popup: "h \<in> {popup_commit cfg env i, popup_map cfg env i, popup_unmap cfg env i, popup_destroy cfg env i} \<Longrightarrow>
    on_desk h st = Some st' \<Longrightarrow> srv_step cfg dc st st'"
| sv_sub: "srv_step cfg dc st (st\<lparr>in_desk := subpresent_handle_surface_commit cfg env f (in_desk st)\<rparr>)"
| sv_sub_gone: "srv_step cfg dc st (st\<lparr>in_desk := subpresent_destroy f (in_desk st)\<rparr>)"
| sv_surfaces: "srv_step cfg dc st (st\<lparr>in_desk := (in_desk st)\<lparr>ds_surfaces := m\<rparr>\<rparr>)"
| sv_seat: "srv_step cfg dc st (st\<lparr>in_desk := (in_desk st)\<lparr>ds_seat := s\<rparr>\<rparr>)"
| sv_dnd: "srv_step cfg dc st (st\<lparr>in_dnd := d\<rparr>)"

text \<open>
  A run goes on as long as every menu's window exists: where a menu has outlived it, the code's
  next event may read freed memory (last section).
\<close>

inductive srv_reach :: "wlx_config \<Rightarrow> dnd_cfg \<Rightarrow> input_state \<Rightarrow> bool" for cfg dc where
  sr_start: "ds_windows (in_desk st) = [] \<Longrightarrow> ds_popups (in_desk st) = [] \<Longrightarrow> ds_subs (in_desk st) = [] \<Longrightarrow>
    ds_focused (in_desk st) = None \<Longrightarrow> move_win (in_drag st) = None \<Longrightarrow> resize_win (in_drag st) = None \<Longrightarrow>
    srv_reach cfg dc st"
| sr_step: "srv_reach cfg dc st \<Longrightarrow> menus_live (in_desk st) \<Longrightarrow> srv_step cfg dc st st' \<Longrightarrow> srv_reach cfg dc st'"

lemma commit_ok:
  assumes "desk_ok ds"
  shows "desk_ok (toplevel_commit cfg env grow_ok walk i ds) \<and> live (toplevel_commit cfg env grow_ok walk i ds) = live ds"
proof -
  have f: "desk_frame ds (on_window cfg env EvCommit i ds)" by (rule on_window_frame) simp
  from sync_ok[OF frame_ok[OF f assms]] frame_ok[OF f assms] frame_live[OF f] show ?thesis
    by (simp add: toplevel_commit_def Let_def split: option.split)
qed

lemma srv_step_core: "srv_step cfg dc st st' \<Longrightarrow> server_ok st \<Longrightarrow> server_core st'"
proof -
  have core: "server_ok st \<Longrightarrow> server_core st" for st by (simp add: server_ok_core)
  assume "srv_step cfg dc st st'" "server_ok st"
  then show "server_core st'"
  proof (induction rule: srv_step.induct)
    case (sv_button env denv b p st st')
    then show ?case using button_ok core by blast
  next
    case (sv_motion env denv now st st')
    then show ?case using motion_ok core by blast
  next
    case (sv_xcb evs st st')
    then show ?case using readable_ok core by blast
  next
    case (sv_new i st t tree)
    then show ?case using add_toplevel_ok core by blast
  next
    case (sv_map st env new i)
    then show ?case using map_ok by (intro core server_desk) (simp_all add: server_ok_def)
  next
    case (sv_commit st env grow_ok walk i)
    then show ?case using commit_ok by (intro core server_desk) (simp_all add: server_ok_def)
  next
    case (sv_subsurface st env grow_ok walk i)
    then show ?case using sync_ok unfolding window_new_subsurface_def
      by (intro core server_desk) (simp_all add: server_ok_def)
  next
    case (sv_window ev st env i)
    then show ?case by (intro core server_frame on_window_frame) auto
  next
    case (sv_move st i win wenv)
    then have "w_id win \<in> live (in_desk st)" using find_win_Some by (force simp: live_def)
    with sv_move dragged_begin(1)[of cfg wenv win "in_drag st"] show ?case by (intro core) (auto simp: server_ok_def)
  next
    case (sv_resize st i win wenv edges)
    then have "w_id win \<in> live (in_desk st)" using find_win_Some by (force simp: live_def)
    with sv_resize dragged_begin(2)[of cfg wenv win edges "in_drag st"] show ?case by (intro core) (auto simp: server_ok_def)
  next
    case (sv_destroy st i)
    then show ?case by (rule toplevel_destroy_core)
  next
    case (sv_setup st env f win)
    then show ?case by (rule setup_core)
  next
    case (sv_popup h env i st st')
    from sv_popup(1) have "keeps h" by (auto intro: keeps_intros)
    with sv_popup show ?case using server_on_desk core by blast
  qed (auto intro!: core server_frame frame_intros simp: server_cursor_frame_def unmap_ok
      subpresent_handle_surface_commit_def)
qed

lemma srv_reach_core: "srv_reach cfg dc st \<Longrightarrow> server_core st"
proof (induction rule: srv_reach.induct)
  case (sr_start st)
  then show ?case by (simp add: server_core_def no_menus_def desk_ok_def refs_ok_def active_ok_def dragged_def)
next
  case (sr_step st st')
  then show ?case using srv_step_core server_ok_core by blast
qed

text \<open>
  C18 (type). A reference to a window is to one the compositor still has: the keyboard focus, the
  window being moved or resized and the parents of the promoted subsurfaces, and no two windows have
  the same identity, whatever windows are made and destroyed. A run ends where a window has gone
  before its menus: the parent of a menu is not among these references
  (\<open>window_gone_before_its_menu\<close>).
\<close>

theorem focus_names_live_window:
  assumes "srv_reach cfg dc st"
  shows "set_option (ds_focused (in_desk st)) \<union> set_option (move_win (in_drag st)) \<union> set_option (resize_win (in_drag st))
      \<union> sp_parent ` set (ds_subs (in_desk st)) \<subseteq> live (in_desk st)
    \<and> distinct (map w_id (ds_windows (in_desk st)))"
  using srv_reach_core[OF assms]
  by (auto simp: server_core_def no_menus_def desk_ok_def refs_ok_def dragged_def live_def)

text \<open>
  C3 (invariant). In every run, of the windows with an output exactly the one with the keyboard
  focus was last told to be active, so two windows never look active at once; a focused window was
  told in any case.
\<close>

theorem one_active_window:
  assumes "srv_reach cfg dc st" "w \<in> set (ds_windows (in_desk st))"
  shows "(w_output w \<noteq> None \<longrightarrow> told_active w = (ds_focused (in_desk st) = Some (w_id w)))
    \<and> (ds_focused (in_desk st) = Some (w_id w) \<longrightarrow> told_active w)"
  using srv_reach_core[OF assms(1)] assms(2) by (auto simp: server_core_def no_menus_def desk_ok_def active_ok_def)

section \<open>A window that goes before its menus\<close>

definition menu_key :: "popup \<Rightarrow> nat \<times> wid option \<times> nat" where
  "menu_key p = (pp_id p, pp_parent p, pp_surface p)"

lemma hide_keys:
  assumes "distinct (map pp_id (ds_popups ds))"
  shows "map menu_key (ds_popups (hide_popup j ds)) = map menu_key (ds_popups ds)"
proof (cases "find_popup ds j")
  case (Some pop)
  have m: "pop \<in> set (ds_popups ds)" "pp_id pop = j" using Some by (auto simp: find_popup_def find_Some_iff)
  obtain q cs where q: "popup_destroy_xpresent pop = (q, cs)" by (cases "popup_destroy_xpresent pop")
  define r where "r = q\<lparr>pp_scene := map_option (set_enabled False) (pp_scene q)\<rparr>"
  have r: "menu_key r = menu_key pop" using q
    by (auto simp: r_def menu_key_def popup_destroy_xpresent_def split: option.splits prod.splits)
  have "hide_popup j ds = desk_say cs (upd_popup j (\<lambda>_. r) ds)" using Some q by (simp add: hide_popup_def r_def)
  then have l: "ds_popups (hide_popup j ds) = map (\<lambda>p. if pp_id p = j then r else p) (ds_popups ds)"
    by (simp add: desk_say_def upd_popup_def)
  have "p = pop" if "p \<in> set (ds_popups ds)" "pp_id p = j" for p
    using assms that m by (auto simp: distinct_map inj_on_def)
  with r show ?thesis unfolding l by (auto simp: comp_def)
qed (simp add: hide_popup_def)

lemma keys_ids:
  assumes "map menu_key ps = map menu_key qs"
  shows "map pp_id ps = map pp_id qs"
proof -
  have "map fst (map menu_key ps) = map fst (map menu_key qs)" using assms by (rule arg_cong)
  then show ?thesis by (simp add: menu_key_def comp_def)
qed

lemma hide_all_keys:
  "distinct (map pp_id (ds_popups ds)) \<Longrightarrow>
    map menu_key (ds_popups (fold hide_popup js ds)) = map menu_key (ds_popups ds)"
proof (induction js arbitrary: ds)
  case (Cons j js)
  note k = hide_keys[OF Cons.prems, of j]
  have "distinct (map pp_id (ds_popups (hide_popup j ds)))" using Cons.prems keys_ids[OF k] by simp
  from Cons.IH[OF this] k show ?case by simp
qed simp

lemma destroy_subs_popups: "ds_popups (wlx_window_destroy_subpresents i ds) = ds_popups ds"
proof -
  have "ds_popups (subpresent_destroy f d) = ds_popups d" for f d
    by (simp add: subpresent_destroy_def desk_say_def subpresent_set_scene_enabled_def upd_win_def split: option.split)
  then have "ds_popups (fold subpresent_destroy fs d) = ds_popups d" for fs d by (induction fs arbitrary: d) simp_all
  then show ?thesis by (simp add: wlx_window_destroy_subpresents_def)
qed

text \<open>
  A toplevel that is destroyed while a menu of it exists, as wlroots does when a client
  goes away, leaves the menu in the list with its parent pointer: the pointer no longer names a
  window, and the hit test and the menu's own handlers read through it.
\<close>

theorem window_gone_before_its_menu:
  assumes "distinct (map pp_id (ds_popups (in_desk st)))"
    and "p \<in> set (ds_popups (in_desk st))" "pp_parent p = Some i"
  shows "i \<notin> live (in_desk (xdg_toplevel_destroy i st))
    \<and> (\<exists>p' \<in> set (ds_popups (in_desk (xdg_toplevel_destroy i st))).
         pp_id p' = pp_id p \<and> pp_surface p' = pp_surface p \<and> pp_parent p' = Some i)"
proof -
  define ds where "ds = wlx_window_destroy_subpresents i (in_desk st)"
  have d: "distinct (map pp_id (ds_popups ds))" using assms(1) by (simp add: ds_def destroy_subs_popups)
  have l: "ds_popups (in_desk (xdg_toplevel_destroy i st)) = ds_popups (destroy_present_windows_for_toplevel i ds)"
    by (simp add: xdg_toplevel_destroy_def xdg_toplevel_unmap_def destroy_output_def upd_win_def ds_def Let_def
        split: option.split)
  have "menu_key p \<in> set (map menu_key (ds_popups (in_desk (xdg_toplevel_destroy i st))))"
    unfolding l destroy_present_windows_for_toplevel_def hide_all_keys[OF d]
    using assms(2) by (simp add: ds_def destroy_subs_popups)
  then have "\<exists>p' \<in> set (ds_popups (in_desk (xdg_toplevel_destroy i st))). menu_key p' = menu_key p" by force
  moreover have "i \<notin> live (in_desk (xdg_toplevel_destroy i st))"
    by (auto simp: xdg_toplevel_destroy_def live_def Let_def)
  ultimately show ?thesis using assms(3) by (auto simp: menu_key_def)
qed

end
