(* ===== verification/Held_Buttons.thy ===== *)
theory Held_Buttons
  imports Server
begin

text \<open>
  The buttons the seat holds against the buttons the user holds. wlroots forgets the held buttons
  when the pointer focus changes; the handlers avoid such a change while a button is down. That
  works as long as the pointer is over a surface whenever a button goes down or stays down.
\<close>

section \<open>What the handlers do to the seat\<close>



lemma upd_seat_seat [simp]: "ds_seat (upd_seat f ds) = f (ds_seat ds)"
  by (simp add: upd_seat_def)


definition seat_view :: "seat \<Rightarrow> (32 word \<times> nat) list \<times> nat option \<times> pointer_grab \<times> nat" where
  "seat_view s = (pt_buttons s, pt_focus s, pt_grab s, pg_client s)"

lemma set_active_seat [simp]: "seat_view (ds_seat (set_active_window env w ds)) = seat_view (ds_seat ds)"
  by (simp add: set_active_window_def upd_seat_def upd_win_def seat_view_def Let_def split: option.split)






section \<open>Runs of button and motion events\<close>




















section \<open>Where the count is lost\<close>

text \<open>
  A press away from every surface takes the focus off the surface that has the held buttons, and
  the next press over a surface finds no focus to protect: the seat forgets the buttons.
\<close>

lemma outside_press_forgets:
  assumes "surface_under_root_pointer cfg env1 ds = Some (None, ds)"
    and "cursor_press cfg env1 b ds = Some ds1"
    and "surface_under_root_pointer cfg env2 ds1 = Some (Some (f, x, y, None, pop), ds1)"
    and "pt_grab (ds_seat ds1) = DefaultGrab"
    and "pointer_enter_surface_under_cursor cfg env2 ds1 = Some ds2"
  shows "pt_focus (ds_seat ds1) = None \<and> pt_focus (ds_seat ds2) = Some f \<and> pt_buttons (ds_seat ds2) = []"
proof -
  have "pt_focus (ds_seat ds1) = None"
    using assms(1,2) by (auto simp: cursor_press_def pointer_enter_surface_under_cursor_def notify_button_def
        notify_button_buttons split: if_splits)
  with assms(3-5) show ?thesis
    by (auto simp: pointer_enter_surface_under_cursor_def Let_def notify_enter_default)
qed

text \<open>
  When a window gets the keyboard focus from the host, its surface also gets the pointer focus,
  wherever the pointer is and whatever is held down: the held buttons are forgotten.
\<close>

lemma focus_in_forgets:
  assumes "focus_counts mode detail" "window_from_xwin (ds_windows ds) x = Some win"
    and "pointer_coords_on_window cfg (de_env env) win = Some p"
    and "pt_grab (ds_seat ds) = DefaultGrab"
    and "pt_focus (ds_seat ds) \<noteq> Some (de_toplevel_surface env (w_id win))"
  shows "pt_focus (ds_seat (x11_focus_in cfg env mode detail x ds)) = Some (de_toplevel_surface env (w_id win))
    \<and> pt_buttons (ds_seat (x11_focus_in cfg env mode detail x ds)) = []"
proof -
  let ?s = "ds_seat (set_active_window env (Some (w_id win)) ds)"
  have v: "pt_grab ?s = DefaultGrab" "pt_focus ?s = pt_focus (ds_seat ds)"
    using set_active_seat[of env "Some (w_id win)" ds] assms(4) by (simp_all add: seat_view_def)
  show ?thesis using assms(1-3,5) v notify_enter_default[OF v(1)]
    by (auto simp: x11_focus_in_def Let_def split: prod.splits)
qed

end
