(* ===== verification/Event_Returns.thy ===== *)
theory Event_Returns
  imports Server Dnd_Transfer
begin

text \<open>
  The handlers return. The only loops that need not end walk up the X window tree from the window
  under the pointer, one for the hit test and one for drags; where the replies of the X server
  describe a forest both end, and with them every handler of pointer, menu and X events.
\<close>

section \<open>The hit test and the focus\<close>

lemma surface_under_returns:
  assumes "acyclic_parents (de_env env) depth"
  shows "surface_under_root_pointer cfg env ds \<noteq> None"
proof -
  have "hit_below_popups cfg env d \<noteq> None" for d
  proof -
    obtain r where "window_at_root_pointer cfg (de_env env) (ds_windows d) = Some r"
      using window_above_returns[OF assms] by (fastforce simp: window_at_root_pointer_def)
    then show ?thesis by (auto simp: hit_below_popups_def split: option.split)
  qed
  then show ?thesis by (auto simp: surface_under_root_pointer_def split: option.split prod.split)
qed

lemma pointer_enter_returns:
  "acyclic_parents (de_env env) depth \<Longrightarrow> pointer_enter_surface_under_cursor cfg env ds \<noteq> None"
  using surface_under_returns[of env depth cfg ds]
  by (auto simp: pointer_enter_surface_under_cursor_def Let_def split: option.split prod.split)

lemma motion_focus_returns:
  "acyclic_parents (de_env env) depth \<Longrightarrow> motion_focus cfg env ds \<noteq> None"
  using surface_under_returns[of env depth cfg ds] by (auto simp: motion_focus_def Let_def split: prod.split)

lemma update_grab_returns:
  "acyclic_parents (de_env env) depth \<Longrightarrow> wlx_popup_update_pointer_grab cfg env ds \<noteq> None"
  using pointer_enter_returns[of env depth cfg]
  by (simp add: wlx_popup_update_pointer_grab_def wlx_pointer_refresh_focus_def split: prod.split)

section \<open>Pointer events\<close>

lemma press_returns: "acyclic_parents (de_env env) depth \<Longrightarrow> cursor_press cfg env b ds \<noteq> None"
  using pointer_enter_returns[of env depth cfg ds] by (simp add: cursor_press_def)

lemma retry_returns: "acyclic_parents (de_env env) depth \<Longrightarrow> retry_menu_grab cfg env ds \<noteq> None"
  using update_grab_returns[of env depth cfg ds] by (simp add: retry_menu_grab_def)

lemma bind_returns: "m \<noteq> None \<Longrightarrow> (\<And>t. g t \<noteq> None) \<Longrightarrow> Option.bind m g \<noteq> None"
  by (cases m) auto

lemma release_returns:
  assumes "acyclic_parents (de_env env) depth"
  shows "cursor_release cfg env b ds \<noteq> None" "core_release cfg env b ds \<noteq> None"
  unfolding cursor_release_def core_release_def
  using retry_returns[OF assms] pointer_enter_returns[OF assms] by (intro bind_returns; blast)+

lemma button_returns:
  assumes "acyclic_parents (de_env env) depth"
  shows "server_cursor_button cfg dc env denv b p st \<noteq> None"
  using press_returns[OF assms] release_returns(1)[OF assms]
  by (simp add: server_cursor_button_def on_desk_def)

lemma motion_returns:
  assumes "acyclic_parents (de_env env) depth" "acyclic_parents denv depth'"
  shows "process_cursor_motion cfg dc env denv now st \<noteq> None"
proof -
  obtain d where "dnd_out_update_position cfg dc denv (ds_windows (in_desk st)) (in_dnd st) = Some d"
    using update_position_returns[of denv cfg dc "ds_windows (in_desk st)" "in_dnd st"] assms(2)
    unfolding acyclic_parents_def x_tree_def by blast
  with motion_focus_returns[OF assms(1)] show ?thesis by (auto simp: process_cursor_motion_def)
qed

lemma core_returns:
  assumes "acyclic_parents (de_env env) depth" "acyclic_parents denv depth'"
  shows "handle_core_pointer_during_grab cfg dc env denv now ev st \<noteq> None"
  using motion_returns[OF assms] press_returns[OF assms(1)] release_returns(2)[OF assms(1)]
  by (auto simp: handle_core_pointer_during_grab_def on_desk_def Let_def split: core_event.split option.split)

section \<open>Events of the X connection\<close>

lemma focus_out_returns:
  assumes "acyclic_parents (de_env env) depth"
  shows "x11_focus_out cfg env mode detail x ds \<noteq> None"
proof -
  obtain r where "window_at_root_pointer cfg (de_env env) (ds_windows ds) = Some r"
    using window_above_returns[OF assms] by (fastforce simp: window_at_root_pointer_def)
  then show ?thesis by (auto simp: x11_focus_out_def split: option.split)
qed

lemma xcb_event_returns:
  assumes "acyclic_parents (de_env (xe_desk e)) depth" "acyclic_parents (xe_dnd e) depth'"
  shows "handle_xcb_event cfg dc e ev st \<noteq> None"
  using core_returns[OF assms] focus_out_returns[OF assms(1)] by (cases ev) (simp_all add: on_desk_def)

definition forest :: "xcb_env \<Rightarrow> bool" where
  "forest e \<longleftrightarrow> (\<exists>depth. acyclic_parents (de_env (xe_desk e)) depth) \<and> (\<exists>depth. acyclic_parents (xe_dnd e) depth)"

lemma readable_returns:
  "list_all (\<lambda>(e, ev). forest e) evs \<Longrightarrow> handle_xcb_readable cfg dc evs st \<noteq> None"
proof (induction evs arbitrary: st)
  case (Cons x evs)
  obtain e ev where x: "x = (e, ev)" by (cases x)
  obtain st1 where "handle_xcb_event cfg dc e ev st = Some st1"
    using Cons.prems xcb_event_returns[of e _ _ cfg dc ev st] by (auto simp: x forest_def)
  with Cons show ?case by (simp add: x)
qed simp

section \<open>Menu events\<close>

lemma position_and_map_returns:
  assumes "acyclic_parents (de_env env) depth"
  shows "popup_position_and_map cfg env i ds \<noteq> None"
  using update_grab_returns[OF assms, of cfg]
  by (auto simp: popup_position_and_map_def Let_def split: option.split prod.split)

text \<open>Every popup has a parent, older than itself: \<open>get_popup\<close> names a surface that exists, and wlroots
  destroys the popups of a surface with it.\<close>

definition menu_parents :: "desk \<Rightarrow> bool" where
  "menu_parents ds \<longleftrightarrow>
     (\<exists>age :: nat \<Rightarrow> nat. \<forall>f xs. ds_surfaces ds f = Some xs \<and> xs_popup xs \<longrightarrow>
        (\<exists>p. xs_parent xs = Some p \<and> age p < age f))
     \<and> list_all (\<lambda>pop. case ds_surfaces ds (pp_surface pop) of None \<Rightarrow> True | Some xs \<Rightarrow> xs_popup xs) (ds_popups ds)"

lemma toplevel_coords_returns:
  assumes "\<forall>f xs. surfs f = Some xs \<and> xs_popup xs \<longrightarrow> (\<exists>p. xs_parent xs = Some p \<and> age p < (age f :: nat))"
  shows "wlr_xdg_popup_get_toplevel_coords surfs (Some f) q \<noteq> None"
proof (induction "age f" arbitrary: f q rule: less_induct)
  case less
  show ?case
  proof (cases "\<exists>xs. surfs f = Some xs \<and> xs_role xs = RolePopup \<and> xs_popup xs")
    case True
    then obtain xs p where xs: "surfs f = Some xs" "xs_role xs = RolePopup" "xs_popup xs"
        "xs_parent xs = Some p" "age p < age f"
      using assms by blast
    with less[OF xs(5)] show ?thesis by (subst wlr_xdg_popup_get_toplevel_coords.simps) simp
  next
    case False
    then show ?thesis
      by (subst wlr_xdg_popup_get_toplevel_coords.simps) (auto split: option.split)
  qed
qed

lemma unconstrain_surfaces: "ds_surfaces (snd (popup_unconstrain_box cfg env ds pop xs)) = ds_surfaces ds"
proof -
  have "ds_surfaces (snd (unconstrain_parent cfg e ds pop xs)) = ds_surfaces ds" for e
    by (auto simp: unconstrain_parent_def Let_def upd_popup_def split: option.split)
  from this[of "de_env env"] show ?thesis
    by (auto simp: popup_unconstrain_box_def Let_def split: option.split prod.split)
qed

lemma initial_commit_returns:
  assumes "menu_parents ds" "find_popup ds i = Some pop"
  shows "popup_initial_commit cfg env pop ds \<noteq> None"
proof (cases "ds_surfaces ds (pp_surface pop)")
  case (Some xs)
  have "pop \<in> set (ds_popups ds)"
    using assms(2) by (auto simp: find_popup_def find_Some_iff)
  then have "xs_popup xs" using assms(1) Some by (fastforce simp: menu_parents_def list_all_iff)
  moreover obtain age :: "nat \<Rightarrow> nat" where age: "\<forall>f xs. ds_surfaces ds f = Some xs \<and> xs_popup xs \<longrightarrow>
      (\<exists>p. xs_parent xs = Some p \<and> age p < age f)"
    using assms(1) by (auto simp: menu_parents_def)
  ultimately obtain p where p: "xs_parent xs = Some p" using Some by blast
  obtain b ds1 where u: "popup_unconstrain_box cfg env ds pop xs = (b, ds1)"
    by (cases "popup_unconstrain_box cfg env ds pop xs")
  then have "ds_surfaces ds1 = ds_surfaces ds" using unconstrain_surfaces[of cfg env ds pop xs] by simp
  then have "wlr_xdg_popup_unconstrain_from_box (ds_surfaces ds1) b xs \<noteq> None"
    using toplevel_coords_returns[OF age, of p "(0, 0)"] p
    by (auto simp: wlr_xdg_popup_unconstrain_from_box_def)
  then show ?thesis by (auto simp: popup_initial_commit_def Some u)
qed (simp add: popup_initial_commit_def)

text \<open>
  C37 (termination). Every handler of pointer, menu and queued X events returns, provided the replies
  of the X server describe a forest and the menus' parents exist: the walks up the window tree and up
  the parents of a menu are the only loops of the handlers that the code does not bound.
\<close>

theorem event_handlers_return:
  assumes "forest e" "list_all (\<lambda>(e, ev). forest e) evs" "find_popup ds i \<noteq> None" "menu_parents ds"
  shows "server_cursor_button cfg dc (xe_desk e) (xe_dnd e) b p st \<noteq> None
    \<and> process_cursor_motion cfg dc (xe_desk e) (xe_dnd e) (xe_now e) st \<noteq> None
    \<and> handle_xcb_readable cfg dc evs st \<noteq> None
    \<and> popup_map cfg (xe_desk e) i ds \<noteq> None \<and> popup_unmap cfg (xe_desk e) i ds \<noteq> None
    \<and> popup_commit cfg (xe_desk e) i ds \<noteq> None \<and> popup_destroy cfg (xe_desk e) i ds \<noteq> None"
proof -
  obtain depth depth' where f: "acyclic_parents (de_env (xe_desk e)) depth" "acyclic_parents (xe_dnd e) depth'"
    using assms(1) by (auto simp: forest_def)
  note enter = pointer_enter_returns[OF f(1)] and grab = update_grab_returns[OF f(1)]
    and place = position_and_map_returns[OF f(1)]
  have "popup_map cfg (xe_desk e) i ds \<noteq> None"
    unfolding popup_map_def wlx_pointer_refresh_focus_def by (rule bind_returns[OF place]) (use enter in simp)
  moreover have "Option.bind (wlx_popup_update_pointer_grab cfg (xe_desk e) d)
      (wlx_pointer_refresh_focus cfg (xe_desk e)) \<noteq> None" for d
    by (rule bind_returns[OF grab]) (simp only: wlx_pointer_refresh_focus_def, rule enter)
  then have "popup_unmap cfg (xe_desk e) i ds \<noteq> None"
    using assms(3) by (auto simp: popup_unmap_def Let_def simp del: bind_eq_None_conv)
  moreover have "popup_commit cfg (xe_desk e) i ds \<noteq> None"
  proof -
    obtain pop where pop: "find_popup ds i = Some pop" using assms(3) by blast
    then have "Option.bind (popup_initial_commit cfg (xe_desk e) pop ds)
        (\<lambda>d. if \<not> surf_mapped d (pp_surface pop) then Some d else popup_position_and_map cfg (xe_desk e) i d) \<noteq> None"
      by (intro bind_returns initial_commit_returns[OF assms(4)]) (simp_all add: place del: not_None_eq)
    with pop show ?thesis by (simp add: popup_commit_def)
  qed
  moreover have "popup_destroy cfg (xe_desk e) i ds \<noteq> None"
    using assms(3) grab by (auto simp: popup_destroy_def split: prod.split)
  ultimately show ?thesis
    using button_returns[OF f(1)] motion_returns[OF f] readable_returns[OF assms(2)] by blast
qed

end
