(* ===== verification/Run_Witnesses.thy ===== *)
theory Run_Witnesses
  imports Desk_Witnesses Size_Witnesses Program_Witnesses Server_Runs Held_Buttons Event_Returns
begin

text \<open>The properties of the compositor's runs applied at a concrete run.\<close>

section \<open>A window is created and mapped\<close>

definition server_start :: input_state where
  "server_start = \<lparr>in_desk = sample_desk\<lparr>ds_windows := []\<rparr>, in_drag = idle_drag, in_dnd = no_drag\<rparr>"

definition server_known :: input_state where
  "server_known = server_start\<lparr>in_desk :=
     add_toplevel 1 (sample_toplevel 400 300) (SceneTree 0 True 0 0 []) (in_desk server_start)\<rparr>"

abbreviation shown_output :: new_output where
  "shown_output \<equiv> \<lparr>no_output = Some (7, 9), no_layout = (0, 0)\<rparr>"

definition server_shown :: input_state where
  "server_shown = server_known\<lparr>in_desk := xdg_toplevel_map drag_cfg (sample_desk_env 3 40) shown_output 1
     (in_desk server_known)\<rparr>"

lemma server_shown_reach: "srv_reach drag_cfg sample_dnd server_shown"
proof -
  have "srv_reach drag_cfg sample_dnd server_start"
    by (rule sr_start) (simp_all add: server_start_def sample_desk_def idle_drag_def)
  then have "srv_reach drag_cfg sample_dnd server_known"
    unfolding server_known_def
    by (rule sr_step[OF _ _ sv_new]) (simp_all add: menus_live_def server_start_def sample_desk_def live_def)
  moreover have "menus_live (in_desk server_known)"
    by (simp add: menus_live_def server_known_def server_start_def add_toplevel_def sample_desk_def)
  ultimately show ?thesis unfolding server_shown_def by (rule sr_step[OF _ _ sv_map])
qed

lemma server_shown_window:
  "\<exists>w. ds_windows (in_desk server_shown) = [w] \<and> w_id w = 1 \<and> w_output w \<noteq> None
    \<and> ds_focused (in_desk server_shown) = Some 1"
proof -
  let ?i = "server_new_xdg_toplevel 1 (sample_toplevel 400 300) (SceneTree 0 True 0 0 [])"
  let ?w = "create_output_for_window drag_cfg (de_env (sample_desk_env 3 40)) [] None shown_output ?i"
  have i: "w_id ?i = 1" "w_output ?i = None" "toplevel ?i = sample_toplevel 400 300"
    by (simp_all add: server_new_xdg_toplevel_def)
  have "told ?w = told ?i" by simp
  then have id: "w_id ?w = 1" using i(1) by (simp add: told_def)
  have pr: "toplevel_preferred_size drag_cfg (toplevel ?i) = (400, 300)" unfolding i(3) by (simp add: sample_pref)
  have m: "mode_ok (de_env (sample_desk_env 3 40)) 400 300"
    by (simp add: mode_ok_def sample_desk_env_def sample_env_def)
  have sc: "wlx_scale_size drag_cfg 400 = 400" "wlx_scale_size drag_cfg 300 = 300" by code_simp+
  have o: "w_output ?w \<noteq> None"
    using create_output_result[OF _ pr sc m, of shown_output 7 9 "[]" None] by auto
  have k: "ds_windows (in_desk server_known) = [?i]" "ds_focused (in_desk server_known) = None"
    "ds_popups (in_desk server_known) = []"
    by (simp_all add: server_known_def server_start_def add_toplevel_def sample_desk_def)
  have t: "transient_parent (in_desk server_known) ?i = None"
    unfolding transient_parent_def i(3) by (simp add: sample_toplevel_def Let_def find_win_def)
  have "ds_windows (on_window drag_cfg (sample_desk_env 3 40) (EvMap None shown_output) 1 (in_desk server_known)) = [?w]"
    using i(1,2) by (simp add: on_window_def upd_win_def k popup_scenes_def del: One_nat_def)
  then show ?thesis
    using k t i(1,2) id o
    by (simp add: server_shown_def xdg_toplevel_map_def find_win_def set_active_window_def upd_win_def upd_seat_def
        on_window_def Let_def popup_scenes_def del: One_nat_def)
qed

lemma focus_names_live_window_witness:
  "set_option (ds_focused (in_desk server_shown)) \<union> set_option (move_win (in_drag server_shown))
      \<union> set_option (resize_win (in_drag server_shown)) \<union> sp_parent ` set (ds_subs (in_desk server_shown))
    \<subseteq> live (in_desk server_shown)
    \<and> distinct (map w_id (ds_windows (in_desk server_shown))) \<and> ds_focused (in_desk server_shown) = Some 1"
  using focus_names_live_window[OF server_shown_reach] server_shown_window by auto

lemma one_active_window_witness:
  "\<exists>w. ds_windows (in_desk server_shown) = [w] \<and> w_output w \<noteq> None \<and> told_active w"
proof -
  obtain w where w: "ds_windows (in_desk server_shown) = [w]" "w_id w = 1" "w_output w \<noteq> None"
      "ds_focused (in_desk server_shown) = Some 1"
    using server_shown_window by blast
  with one_active_window[OF server_shown_reach, of w] show ?thesis by auto
qed

lemma window_gone_before_its_menu_witness:
  "1 \<notin> live (in_desk (xdg_toplevel_destroy 1 (server_start\<lparr>in_desk := menu_closing\<rparr>)))
    \<and> (\<exists>p' \<in> set (ds_popups (in_desk (xdg_toplevel_destroy 1 (server_start\<lparr>in_desk := menu_closing\<rparr>)))).
         pp_id p' = 4 \<and> pp_surface p' = 300 \<and> pp_parent p' = Some 1)"
  using window_gone_before_its_menu[where p = "sample_popup 4 300 41" and i = 1 and st = "server_start\<lparr>in_desk := menu_closing\<rparr>"]
  by (simp add: menu_closing_def sample_popup_def)

section \<open>A button goes down over a menu\<close>

definition menu_input :: input_state where
  "menu_input = server_start\<lparr>in_desk := menu_closing\<rparr>"



section \<open>A forest of windows\<close>

definition forest_env :: xcb_env where
  "forest_env = \<lparr>xe_desk = (sample_desk_env 3 40)\<lparr>de_env := (sample_env 0)\<lparr>q_parent := (\<lambda>w. if w = 1 then None else Some 1)\<rparr>\<rparr>,
     xe_dnd = sample_dnd_env, xe_now = (0, 0), xe_fixes_ok = True\<rparr>"

lemma forest_env_forest: "forest forest_env"
proof -
  let ?depth = "\<lambda>w :: xid. if w = 1 then 0 else 1 :: nat"
  have "acyclic_parents (de_env (xe_desk forest_env)) ?depth" "acyclic_parents (xe_dnd forest_env) ?depth"
    using sample_parents by (auto simp: acyclic_parents_def forest_env_def split: if_splits)
  then show ?thesis unfolding forest_def by blast
qed

text \<open>The same desk without the popup that has no parent.\<close>

definition rooted_desk :: desk where
  "rooted_desk = menu_closing\<lparr>ds_surfaces := (ds_surfaces menu_closing)
     (400 := None, 100 \<mapsto> (sample_surface RoleToplevel (Some 1) None)\<lparr>xs_popup := False\<rparr>)\<rparr>"

lemma rooted_desk_parents: "menu_parents rooted_desk"
proof -
  have "(\<exists>p. xs_parent xs = Some p \<and> p < f)" if "ds_surfaces rooted_desk f = Some xs" "xs_popup xs" for f xs
    using that by (auto simp: rooted_desk_def menu_closing_def sample_desk_def sample_surface_def split: if_splits)
  moreover have "list_all (\<lambda>pop. case ds_surfaces rooted_desk (pp_surface pop) of None \<Rightarrow> True | Some xs \<Rightarrow> xs_popup xs)
      (ds_popups rooted_desk)"
    by (simp add: rooted_desk_def menu_closing_def sample_desk_def sample_surface_def sample_popup_def)
  ultimately show ?thesis unfolding menu_parents_def by (intro conjI exI[of _ "\<lambda>n. n"]) auto
qed

lemma event_handlers_return_witness:
  "server_cursor_button menu_cfg sample_dnd (xe_desk forest_env) (xe_dnd forest_env) 272 True menu_input \<noteq> None
    \<and> process_cursor_motion menu_cfg sample_dnd (xe_desk forest_env) (xe_dnd forest_env) (xe_now forest_env) menu_input \<noteq> None
    \<and> handle_xcb_readable menu_cfg sample_dnd [(forest_env, XCore CoreMotion), (forest_env, XFocusOut 0 3 7)] menu_input \<noteq> None
    \<and> popup_map menu_cfg (xe_desk forest_env) 4 rooted_desk \<noteq> None
    \<and> popup_unmap menu_cfg (xe_desk forest_env) 4 rooted_desk \<noteq> None
    \<and> popup_commit menu_cfg (xe_desk forest_env) 4 rooted_desk \<noteq> None
    \<and> popup_destroy menu_cfg (xe_desk forest_env) 4 rooted_desk \<noteq> None"
  by (rule event_handlers_return[OF forest_env_forest _ _ rooted_desk_parents])
    (simp_all add: forest_env_forest rooted_desk_def find_popup_def menu_closing_def sample_popup_def)

end
