(* ===== verification/Popup_Position.thy ===== *)
theory Popup_Position
  imports Popups
begin

text \<open>
  How a menu gets its place: the client creates it with a positioner, the compositor's handler of
  the first commit computes the area it may cover (\<open>popup_unconstrain_box\<close>, \<open>src/xdg.c\<close>) and wlroots
  fits it in (\<open>types/xdg_shell/wlr_xdg_popup.c\<close>).
\<close>

section \<open>Creation and repositioning\<close>

datatype popup_error = InvalidPositioner | RoleTaken | InvalidParent | NoMemory

text \<open>\<open>set_xdg_surface_role\<close>; \<open>xs_popup\<close> tells that the role object exists.\<close>

definition set_popup_role :: "xdg_surface \<Rightarrow> popup_error + xdg_surface" where
  "set_popup_role xs =
     (if xs_role xs \<noteq> RoleNone \<and> xs_role xs \<noteq> RolePopup then Inl RoleTaken
      else if xs_popup xs then Inl RoleTaken
      else Inr (xs\<lparr>xs_role := RolePopup\<rparr>))"

definition create_xdg_popup ::
  "bool \<Rightarrow> (nat \<rightharpoonup> xdg_surface) \<Rightarrow> nat option \<Rightarrow> positioner_rules \<Rightarrow> xdg_surface \<Rightarrow> popup_error + xdg_surface" where
  "create_xdg_popup enough_memory surfs parent r xs =
     (if \<not> wlr_xdg_positioner_is_complete r then Inl InvalidPositioner
      else case set_popup_role xs of
          Inl e \<Rightarrow> Inl e
        | Inr xs1 \<Rightarrow>
            if (case Option.bind parent surfs of None \<Rightarrow> False | Some p \<Rightarrow> xs_role p = RoleNone)
            then Inl InvalidParent
            else if \<not> enough_memory then Inl NoMemory
            else Inr (xs1\<lparr>xs_popup := True, xs_parent := parent, xs_rules := r,
                   xs_sched_geo := wlr_xdg_positioner_rules_get_geometry r\<rparr>))"

definition xdg_popup_handle_reposition :: "positioner_rules \<Rightarrow> xdg_surface \<Rightarrow> popup_error + xdg_surface" where
  "xdg_popup_handle_reposition r xs =
     (if \<not> wlr_xdg_positioner_is_complete r then Inl InvalidPositioner
      else Inr (xs\<lparr>xs_sched_geo := wlr_xdg_positioner_rules_get_geometry r, xs_rules := r\<rparr>))"

text \<open>Before the first commit the scheduled geometry is that of the rules.\<close>

definition fresh_rules :: "xdg_surface \<Rightarrow> bool" where
  "fresh_rules xs \<longleftrightarrow> xs_sched_geo xs = wlr_xdg_positioner_rules_get_geometry (xs_rules xs)"

lemma created_fresh:
  "create_xdg_popup ok surfs parent r xs = Inr xs' \<Longrightarrow> fresh_rules xs' \<and> xs_rules xs' = r \<and> xs_parent xs' = parent"
  "xdg_popup_handle_reposition r xs = Inr xs' \<Longrightarrow> fresh_rules xs'"
  by (auto simp: create_xdg_popup_def xdg_popup_handle_reposition_def fresh_rules_def set_popup_role_def
      split: if_splits sum.splits option.splits)

section \<open>The area a menu may cover\<close>

lemma unscale_size_nonpos:
  assumes "0 < content_scale cfg" "n \<le> 0" "- (2 ^ 30) \<le> of_int n / content_scale cfg"
  shows "wlx_unscale_size cfg n = 1"
proof -
  let ?q = "of_int n / content_scale cfg"
  have np: "?q \<le> 0" using assms by (simp add: divide_nonpos_pos)
  then have "\<bar>?q\<bar> \<le> of_int (2 ^ 30)" using assms(3) by simp
  then have c: "c_int (lround (fl64 ?q)) = lround (fl64 ?q)" by (rule rounded_small) simp
  have "lround (fl64 ?q) \<le> 0" using lround_mono[OF fl64_mono[OF np]] by simp
  then show ?thesis using assms(1) c by (simp add: wlx_unscale_size_def Let_def)
qed

text \<open>
  \<open>wlx_unscale_size\<close> is meant for sizes and never gives less than 1. The compositor uses it for the
  distance from the parent to the corner of the desktop as well, which is negative for every parent
  right of and below that corner: the area always starts at (1, 1) of the parent.
\<close>

lemma area_ignores_place:
  assumes "have_xcb cfg" "0 < content_scale cfg" "de_root_size env = Some rsz" "1 \<le> fst rsz" "1 \<le> snd rsz"
    and "host_workarea env rsz = (wx, wy, ww, wh)"
    and "unconstrain_parent cfg (de_env env) ds pop xs = (Some ((rx, ry), sub), ds1)"
    and "wx \<le> rx" "wy \<le> ry" "- (2 ^ 30) \<le> of_int (wx - rx) / content_scale cfg"
      "- (2 ^ 30) \<le> of_int (wy - ry) / content_scale cfg"
  shows "popup_unconstrain_box cfg env ds pop xs =
    (let (dx, dy) = (if sub then (0, 0)
         else case Option.bind (find_win ds1 (pp_parent pop)) (ssd_origin cfg) of None \<Rightarrow> (0, 0) | Some g \<Rightarrow> g)
     in (\<lparr>box_x = 1 + dx, box_y = 1 + dy, box_width = wlx_unscale_size cfg ww, box_height = wlx_unscale_size cfg wh\<rparr>, ds1))"
proof -
  have "wlx_unscale_size cfg (wx - rx) = 1" "wlx_unscale_size cfg (wy - ry) = 1"
    using assms by (simp_all add: unscale_size_nonpos)
  moreover have "(if wlx_unscale_size cfg n < 1 then 1 else wlx_unscale_size cfg n) = wlx_unscale_size cfg n" for n
    using unscale_size_ge1[OF assms(2), of n] by simp
  ultimately show ?thesis
    using assms(1,3-7) by (simp add: popup_unconstrain_box_def Let_def split: prod.split)
qed

text \<open>The same area as wlroots sees it: relative to the window geometry of the parent.\<close>

lemma toplevel_coords_of_window:
  assumes "surfs f = Some ts" "xs_role ts = RoleToplevel"
  shows "wlr_xdg_popup_get_toplevel_coords surfs (Some f) p = Some (fst p + box_x (xs_geometry ts), snd p + box_y (xs_geometry ts))"
  using assms by (simp add: wlr_xdg_popup_get_toplevel_coords.simps)

lemma parent_of_window:
  assumes "ds_surfaces ds f = Some ts" "xs_role ts = RoleToplevel" "xs_parent xs = Some f"
    "find_win ds (pp_parent pop) = Some win" "window_content_root_position cfg env win = Some pos"
  shows "unconstrain_parent cfg env ds pop xs = (Some (pos, False), ds)"
  using assms by (simp add: unconstrain_parent_def parent_popup_def Let_def)

text \<open>
  A menu of a window that would leave the desktop is left where it is: wherever the window
  stands right of and below the desktop's corner, the area a menu may cover is as wide and as high
  as the desktop but starts at (1, 1) of the window, so its right and bottom edges are off the screen.
\<close>

theorem menu_leaves_screen:
  assumes "have_xcb cfg" "content_scale cfg = 1" "de_root_size env = Some rsz" "1 \<le> fst rsz" "1 \<le> snd rsz"
    and "host_workarea env rsz = (wx, wy, ww, wh)" "1 \<le> ww" "ww < 2 ^ 31" "1 \<le> wh" "wh < 2 ^ 31"
    and "ds_surfaces ds (pp_surface pop) = Some xs" "xs_initial_commit xs" "xs_parent xs = Some f"
    and "ds_surfaces ds f = Some ts" "xs_role ts = RoleToplevel"
    and "find_win ds (pp_parent pop) = Some win" "window_content_root_position cfg (de_env env) win = Some (rx, ry)"
    and "wx \<le> rx" "rx - wx \<le> 2 ^ 30" "wy \<le> ry" "ry - wy \<le> 2 ^ 30"
    and "(case ssd_origin cfg win of None \<Rightarrow> (0, 0) | Some g \<Rightarrow> g) = (box_x (xs_geometry ts), box_y (xs_geometry ts))"
    and "xs_sched_geo xs = b" "fits_axis 1 ww (box_x b) (box_width b)" "fits_axis 1 wh (box_y b) (box_height b)"
    and "wx + ww < rx + box_x b + box_width b"
  shows "\<exists>ds'. popup_initial_commit cfg env pop ds = Some ds'
    \<and> map_option xs_sched_geo (ds_surfaces ds' (pp_surface pop)) = Some b"
proof -
  let ?c = "\<lparr>box_x = 1, box_y = 1, box_width = ww, box_height = wh\<rparr>"
  have "(of_int (wx - rx) :: rat) \<ge> of_int (- (2 ^ 30))" "(of_int (wy - ry) :: rat) \<ge> of_int (- (2 ^ 30))"
    using assms(19,21) by (simp_all only: of_int_le_iff)
  then have far: "- (2 ^ 30) \<le> of_int (wx - rx) / content_scale cfg" "- (2 ^ 30) \<le> of_int (wy - ry) / content_scale cfg"
    by (simp_all add: assms(2))
  have pos: "0 < content_scale cfg" by (simp add: assms(2))
  have u: "popup_unconstrain_box cfg env ds pop xs =
      (\<lparr>box_x = 1 + box_x (xs_geometry ts), box_y = 1 + box_y (xs_geometry ts), box_width = ww, box_height = wh\<rparr>, ds)"
    using area_ignores_place[OF assms(1) pos assms(3-6) parent_of_window[OF assms(14,15,13,16,17)] assms(18,20) far]
      assms(2,7-10,16,22) by (auto split: option.splits)
  have "wlr_xdg_positioner_rules_unconstrain_box r ?c b = b" for r
    using assms(24,25) by (simp add: wlr_xdg_positioner_rules_unconstrain_box_def offsets_fit)
  then have w: "wlr_xdg_popup_unconstrain_from_box (ds_surfaces ds)
      \<lparr>box_x = 1 + box_x (xs_geometry ts), box_y = 1 + box_y (xs_geometry ts), box_width = ww, box_height = wh\<rparr> xs
      = Some (xs\<lparr>xs_sched_geo := b\<rparr>)"
    by (simp add: wlr_xdg_popup_unconstrain_from_box_def assms(13) toplevel_coords_of_window[of "ds_surfaces ds", OF assms(14,15)] assms(23))
  show ?thesis
    by (simp add: popup_initial_commit_def assms(11,12) u w upd_surface_def)
qed

end
