(* ===== verification/Position_Witnesses.thy ===== *)
theory Position_Witnesses
  imports Desk_Witnesses Popup_Position
begin

text \<open>
  The properties of boxes and of the placing of menus applied at concrete inputs: a context menu of 60
  by 40 pixels that hangs from the button at (1850, 10) of a window, on a desktop of 1920 by 1080.
\<close>

abbreviation all_adjustments :: constraint_adjustment where
  "all_adjustments \<equiv> \<lparr>adj_slide_x = True, adj_slide_y = True, adj_flip_x = True, adj_flip_y = True,
     adj_resize_x = True, adj_resize_y = True\<rparr>"

definition menu_requests :: "positioner_request list" where
  "menu_requests = [SetSize 60 40, SetAnchorRect (Box 1850 10 20 20), SetAnchor (Some AnchorBottomLeft),
     SetGravity (Some AnchorBottomRight), SetAdjustment (Some all_adjustments), SetReactive]"

definition menu_rules :: positioner_rules where
  "menu_rules = create_xdg_positioner\<lparr>pr_width := 60, pr_height := 40, pr_anchor_rect := Box 1850 10 20 20,
     pr_anchor := AnchorBottomLeft, pr_gravity := AnchorBottomRight, pr_adjustment := all_adjustments,
     pr_reactive := True\<rparr>"

lemma menu_rules_set: "positioner_requests menu_requests create_xdg_positioner = Inr menu_rules"
  by (simp add: menu_requests_def menu_rules_def positioner_handlers)

lemma menu_rules_simps:
  "pr_width menu_rules = 60" "pr_height menu_rules = 40" "pr_adjustment menu_rules = all_adjustments"
  "pr_anchor_rect menu_rules = Box 1850 10 20 20"
  "wlr_xdg_positioner_rules_get_geometry menu_rules = Box 1850 30 60 40"
  by (simp_all add: menu_rules_def create_xdg_positioner_def wlr_xdg_positioner_rules_get_geometry_def edge_set_def anchor_point_def
      gravity_shift_def WLR_EDGE_TOP_def WLR_EDGE_BOTTOM_def WLR_EDGE_LEFT_def WLR_EDGE_RIGHT_def)

theorem fits_menu_by_axes_witness:
  "wlr_xdg_positioner_rules_unconstrain_box menu_rules (Box 0 0 1900 1080) (Box 1850 30 60 40)
     = fit_by_axes menu_rules (Box 0 0 1900 1080)"
  using fits_menu_by_axes[of menu_rules "Box 0 0 1900 1080"] by (simp add: menu_rules_simps)

theorem sliding_menu_fits_witness:
  "wlr_box_contains_box (Some (Box 0 0 1900 1080))
     (Some (wlr_xdg_positioner_rules_unconstrain_box menu_rules (Box 0 0 1900 1080) (Box 1850 30 60 40)))"
  using sliding_menu_fits[of menu_rules "Box 0 0 1900 1080"] by (simp add: menu_rules_simps)

theorem menu_box_never_empty_witness:
  "box_set (wlr_xdg_positioner_rules_unconstrain_box menu_rules (Box 5000 0 10 10) (Box 1850 30 60 40))"
  using menu_box_never_empty[OF menu_rules_set, of "Box 5000 0 10 10"]
  by (simp add: menu_rules_simps wlr_xdg_positioner_is_complete_def)

theorem transform_round_trip_witness:
  "wlr_box_transform zero_box (Some (wlr_box_transform zero_box (Some (Box 1 2 3 4)) 5 100 50))
     (wlr_output_transform_invert 5) 50 100 = Box 1 2 3 4"
  using transform_round_trip[of 5 zero_box zero_box "Box 1 2 3 4" 100 50]
  by (simp add: wlr_output_transform_coords_def WL_OUTPUT_TRANSFORM_90_def)

section \<open>A menu at the right edge\<close>

definition edge_menu :: popup where
  "edge_menu = hd (ds_popups menu_known)"

definition edge_surface :: xdg_surface where
  "edge_surface = (sample_surface RolePopup (Some 3) (Some 100))
     \<lparr>xs_initial_commit := True, xs_rules := menu_rules, xs_sched_geo := Box 1850 30 60 40\<rparr>"

definition edge_desk :: desk where
  "edge_desk = menu_known\<lparr>ds_surfaces := (ds_surfaces menu_known)(200 \<mapsto> edge_surface)\<rparr>"

theorem menu_leaves_screen_witness:
  "\<exists>ds'. popup_initial_commit menu_cfg (sample_desk_env 3 40) edge_menu edge_desk = Some ds'
     \<and> map_option xs_sched_geo (ds_surfaces ds' 200) = Some (Box 1850 30 60 40)"
proof -
  have pos: "window_content_root_position menu_cfg (de_env (sample_desk_env 3 40)) drag_win = Some (100, 50)"
    by code_simp
  have win: "find_win edge_desk (pp_parent edge_menu) = Some drag_win" by code_simp
  have desk: "pp_surface edge_menu = 200" "ds_surfaces edge_desk 200 = Some edge_surface"
    "ds_surfaces edge_desk 100 = Some (sample_surface RoleToplevel (Some 1) None)"
    "host_workarea (sample_desk_env 3 40) (1920, 1080) = (0, 0, 1920, 1080)" "have_xcb menu_cfg"
    "content_scale menu_cfg = 1" "de_root_size (sample_desk_env 3 40) = Some (1920, 1080)"
    "ssd_origin menu_cfg drag_win = None"
    by code_simp+
  show ?thesis
    using menu_leaves_screen[OF desk(5,6,7) _ _ desk(4) _ _ _ _ _ _ _ desk(3) _ win pos, of edge_surface "Box 1850 30 60 40"]
    by (simp add: desk edge_surface_def sample_surface_def zero_box_def fits_axis_def)
qed

end
