(* ===== verification/Serials.thy ===== *)
theory Serials
  imports Wlx_Types
begin

text \<open>
  The serials a client was sent with its events, and the check of a serial it sends back
  (\<open>src/subprojects/wlroots/types/seat/wlr_seat.c\<close>): a ring of 128 ranges of 32 bit numbers, which wrap
  around. The specification counts the serials of the display without a bound and remembers every
  one the client was sent.
\<close>

section \<open>The ring of ranges\<close>

definition WLR_SERIAL_RINGSET_SIZE :: nat where "WLR_SERIAL_RINGSET_SIZE = 128"

text \<open>\<open>struct wlr_serial_ringset\<close>: pairs of \<open>min_incl\<close> and \<open>max_incl\<close>.\<close>

record serial_ringset =
  sr_data :: "(32 word \<times> 32 word) list"
  sr_end :: nat
  sr_count :: nat

definition empty_ringset :: serial_ringset where
  "empty_ringset = \<lparr>sr_data = replicate WLR_SERIAL_RINGSET_SIZE (0, 0), sr_end = 0, sr_count = 0\<rparr>"

text \<open>\<open>wl_display_next_serial\<close> increments the display's serial and returns it.\<close>

definition wl_display_next_serial :: "32 word \<Rightarrow> 32 word" where
  "wl_display_next_serial cur = cur + 1"

text \<open>The ring after a serial was sent.\<close>

definition ringset_add :: "32 word \<Rightarrow> serial_ringset \<Rightarrow> serial_ringset" where
  "ringset_add serial r =
     (if sr_count r = 0
      then r\<lparr>sr_data := (sr_data r)[0 := (serial, serial)], sr_count := 1, sr_end := 0\<rparr>
      else if snd (sr_data r ! sr_end r) + 1 \<noteq> serial
      then
        let e = (sr_end r + 1) mod WLR_SERIAL_RINGSET_SIZE
        in r\<lparr>sr_count := (if sr_count r < WLR_SERIAL_RINGSET_SIZE then sr_count r + 1 else sr_count r),
               sr_end := e, sr_data := (sr_data r)[e := (serial, serial)]\<rparr>
      else r\<lparr>sr_data := (sr_data r)[sr_end r := (fst (sr_data r ! sr_end r), serial)]\<rparr>)"

text \<open>The serial is the display's as well; 0 is skipped.\<close>

definition wlr_seat_client_next_serial :: "32 word \<times> serial_ringset \<Rightarrow> 32 word \<times> serial_ringset" where
  "wlr_seat_client_next_serial st =
     (let s = wl_display_next_serial (fst st);
          serial = (if s = 0 then wl_display_next_serial s else s)
      in (serial, ringset_add serial (snd st)))"

text \<open>The loop of the check: \<open>n\<close> ranges are left, the next one is the \<open>i\<close>-th from the end.\<close>

fun validate_from :: "32 word \<Rightarrow> 32 word \<Rightarrow> serial_ringset \<Rightarrow> nat \<Rightarrow> nat \<Rightarrow> bool" where
  "validate_from cur rev_dist r i 0 \<longleftrightarrow> sr_count r = WLR_SERIAL_RINGSET_SIZE"
| "validate_from cur rev_dist r i (Suc n) \<longleftrightarrow>
     (case sr_data r ! ((sr_end r + WLR_SERIAL_RINGSET_SIZE - i) mod WLR_SERIAL_RINGSET_SIZE) of
        (min_incl, max_incl) \<Rightarrow>
          if rev_dist < cur - max_incl then False
          else if rev_dist \<le> cur - min_incl then True
          else validate_from cur rev_dist r (i + 1) n)"

definition wlr_seat_client_validate_event_serial :: "32 word \<Rightarrow> serial_ringset \<Rightarrow> 32 word \<Rightarrow> bool" where
  "wlr_seat_client_validate_event_serial cur r serial =
     (let rev_dist = cur - serial
      in if 2147483647 \<le> rev_dist then False else validate_from cur rev_dist r 0 (sr_count r))"

section \<open>The specification\<close>

text \<open>
  \<open>t\<close> counts the serials of the display, \<open>sent\<close> are those the client got. A step is a serial for this
  client (\<open>True\<close>) or one for another use.
\<close>

fun serial_spec :: "bool \<Rightarrow> nat \<times> nat set \<Rightarrow> nat \<times> nat set" where
  "serial_spec False (t, sent) = (t + 1, sent)"
| "serial_spec True (t, sent) = (let n = (if (t + 1) mod 2 ^ 32 = 0 then t + 2 else t + 1) in (n, insert n sent))"

fun serial_step :: "bool \<Rightarrow> 32 word \<times> serial_ringset \<Rightarrow> 32 word \<times> serial_ringset" where
  "serial_step False (cur, r) = (wl_display_next_serial cur, r)"
| "serial_step True st = wlr_seat_client_next_serial st"

section \<open>The ring as a list, newest range first\<close>

definition newest_first :: "serial_ringset \<Rightarrow> (32 word \<times> 32 word) list" where
  "newest_first r =
     map (\<lambda>i. sr_data r ! ((sr_end r + WLR_SERIAL_RINGSET_SIZE - i) mod WLR_SERIAL_RINGSET_SIZE)) [0..<sr_count r]"

definition ring_wf :: "serial_ringset \<Rightarrow> bool" where
  "ring_wf r \<longleftrightarrow> length (sr_data r) = WLR_SERIAL_RINGSET_SIZE \<and> sr_end r < WLR_SERIAL_RINGSET_SIZE
     \<and> sr_count r \<le> WLR_SERIAL_RINGSET_SIZE"

lemma length_newest [simp]: "length (newest_first r) = sr_count r"
  by (simp add: newest_first_def)

text \<open>What a new serial does to the list: it makes the newest range longer or starts one, and the
  oldest goes when the ring is full.\<close>

definition list_add :: "32 word \<Rightarrow> (32 word \<times> 32 word) list \<Rightarrow> (32 word \<times> 32 word) list" where
  "list_add s rs =
     (case rs of
        [] \<Rightarrow> [(s, s)]
      | (a, b) # rs' \<Rightarrow>
          if b + 1 \<noteq> s then (s, s) # take (WLR_SERIAL_RINGSET_SIZE - 1) rs else (a, s) # rs')"

lemma slot:
  assumes "e < 128" "i < (128 :: nat)"
  shows "(e + 128 - i) mod 128 = (if i \<le> e then e - i else e + 128 - i)"
proof (cases "i \<le> e")
  case True
  then have "e + 128 - i = (e - i) + 128" by simp
  then have "(e + 128 - i) mod 128 = (e - i) mod 128" by (simp only: mod_add_self2)
  with True assms show ?thesis by simp
qed (use assms in simp)

lemma next_slot: "e < 128 \<Longrightarrow> (e + 1) mod 128 = (if e = 127 then 0 else e + (1 :: nat))"
  by auto

lemma slot_zero: "e < 128 \<Longrightarrow> i < 128 \<Longrightarrow> (e + 128 - i) mod 128 = (e :: nat) \<longleftrightarrow> i = 0"
  by (subst slot) auto

text \<open>After the end moved on, the slot of an older range is one further from it.\<close>

lemma slot_shift:
  assumes "e < 128" "Suc k < (128 :: nat)"
  shows "((e + 1) mod 128 + 128 - Suc k) mod 128 = (e + 128 - k) mod 128"
    "((e + 1) mod 128 + 128 - Suc k) mod 128 \<noteq> (e + 1) mod 128"
proof -
  have n: "(e + 1) mod 128 < (128 :: nat)" by simp
  have k: "k < 128" using assms(2) by simp
  have "(if Suc k \<le> m then m - Suc k else m + 128 - Suc k) = (if k \<le> e then e - k else e + 128 - k)"
    if "m = (if e = 127 then 0 else e + 1)" for m
    using assms that by auto
  from this[OF next_slot[OF assms(1)]] show "((e + 1) mod 128 + 128 - Suc k) mod 128 = (e + 128 - k) mod 128"
    by (simp only: slot[OF n assms(2)] slot[OF assms(1) k])
  show "((e + 1) mod 128 + 128 - Suc k) mod 128 \<noteq> (e + 1) mod 128"
    using slot_zero[OF n assms(2)] by simp
qed

lemma ringset_add_wf: "ring_wf r \<Longrightarrow> ring_wf (ringset_add s r)"
  by (auto simp: ring_wf_def ringset_add_def Let_def WLR_SERIAL_RINGSET_SIZE_def)

lemma newest_add:
  assumes "ring_wf r"
  shows "newest_first (ringset_add s r) = list_add s (newest_first r)"
proof -
  let ?d = "sr_data r" and ?e = "sr_end r" and ?c = "sr_count r"
  have wf: "length ?d = 128" "?e < 128" "?c \<le> 128" using assms by (auto simp: ring_wf_def WLR_SERIAL_RINGSET_SIZE_def)
  show ?thesis
  proof (cases ?c)
    case 0
    then show ?thesis using wf
      by (simp add: newest_first_def ringset_add_def list_add_def WLR_SERIAL_RINGSET_SIZE_def)
  next
    case (Suc c)
    have first: "newest_first r ! 0 = ?d ! ?e" using Suc wf
      by (simp add: newest_first_def WLR_SERIAL_RINGSET_SIZE_def del: upt_Suc)
    then obtain rs where rs: "newest_first r = ?d ! ?e # rs"
      by (cases "newest_first r") (use length_newest[of r] Suc in auto)
    show ?thesis
    proof (cases "snd (?d ! ?e) + 1 = s")
      case True
      have "newest_first (ringset_add s r) = (newest_first r)[0 := (fst (?d ! ?e), s)]"
      proof (rule nth_equalityI)
        show "length (newest_first (ringset_add s r)) = length ((newest_first r)[0 := (fst (?d ! ?e), s)])"
          using True Suc by (simp add: ringset_add_def)
        fix i assume "i < length (newest_first (ringset_add s r))"
        then have i: "i < ?c" using True Suc by (simp add: ringset_add_def)
        have "(?e + 128 - i) mod 128 = ?e \<longleftrightarrow> i = 0" using slot_zero[of ?e i] i wf by simp
        then show "newest_first (ringset_add s r) ! i = (newest_first r)[0 := (fst (?d ! ?e), s)] ! i"
          using True Suc i wf
          by (cases i) (auto simp: newest_first_def ringset_add_def nth_list_update WLR_SERIAL_RINGSET_SIZE_def simp del: upt_Suc)
      qed
      then show ?thesis using True by (cases "?d ! ?e") (simp add: rs list_add_def)
    next
      case False
      let ?n = "(?e + 1) mod 128" and ?c' = "if ?c < 128 then ?c + 1 else ?c"
      have add: "ringset_add s r = r\<lparr>sr_count := ?c', sr_end := ?n, sr_data := ?d[?n := (s, s)]\<rparr>"
        using False Suc by (simp add: ringset_add_def Let_def WLR_SERIAL_RINGSET_SIZE_def)
      have "newest_first (ringset_add s r) = (s, s) # take 127 (newest_first r)"
      proof (rule nth_equalityI)
        show "length (newest_first (ringset_add s r)) = length ((s, s) # take 127 (newest_first r))"
          using wf by (simp add: add)
        fix i assume "i < length (newest_first (ringset_add s r))"
        then have i: "i < ?c'" "i < 128" using wf by (auto simp: add split: if_splits)
        have n: "?n < 128" by simp
        show "newest_first (ringset_add s r) ! i = ((s, s) # take 127 (newest_first r)) ! i"
        proof (cases i)
          case 0
          then show ?thesis using i wf n
            by (simp add: newest_first_def add WLR_SERIAL_RINGSET_SIZE_def del: upt_Suc)
        next
          case (Suc k)
          have slot: "(?n + 128 - i) mod 128 = (?e + 128 - k) mod 128" "(?n + 128 - i) mod 128 \<noteq> ?n"
            using slot_shift[of ?e k] i wf Suc by simp_all
          have k: "k < ?c" "k < 127" using i Suc by (auto split: if_splits)
          then show ?thesis using Suc i slot wf
            by (simp add: newest_first_def add WLR_SERIAL_RINGSET_SIZE_def del: upt_Suc)
        qed
      qed
      then show ?thesis using False by (cases "?d ! ?e") (simp add: rs list_add_def WLR_SERIAL_RINGSET_SIZE_def)
    qed
  qed
qed

section \<open>Ranges of unbounded serials\<close>

text \<open>Ranges in falling order, none above \<open>t\<close>.\<close>

fun falling :: "nat \<Rightarrow> (nat \<times> nat) list \<Rightarrow> bool" where
  "falling t [] \<longleftrightarrow> True"
| "falling t ((a, b) # rs) \<longleftrightarrow> 0 < a \<and> a \<le> b \<and> b \<le> t \<and> falling (a - 1) rs"

fun in_ranges :: "nat \<Rightarrow> (nat \<times> nat) list \<Rightarrow> bool" where
  "in_ranges n [] \<longleftrightarrow> False"
| "in_ranges n ((a, b) # rs) \<longleftrightarrow> a \<le> n \<and> n \<le> b \<or> in_ranges n rs"

fun below_ranges :: "nat \<Rightarrow> (nat \<times> nat) list \<Rightarrow> bool" where
  "below_ranges n [] \<longleftrightarrow> True"
| "below_ranges n ((a, b) # rs) \<longleftrightarrow> n < a \<and> below_ranges n rs"

abbreviation as_words :: "(nat \<times> nat) list \<Rightarrow> (32 word \<times> 32 word) list" where
  "as_words rs \<equiv> map (map_prod of_nat of_nat) rs"

lemma falling_mono: "falling t rs \<Longrightarrow> t \<le> t' \<Longrightarrow> falling t' rs"
  by (cases rs) auto

lemma in_ranges_le: "falling t rs \<Longrightarrow> in_ranges n rs \<Longrightarrow> n \<le> t"
  by (induction rs arbitrary: t) fastforce+

lemma falling_take: "falling t rs \<Longrightarrow> falling t (take k rs)"
  by (induction rs arbitrary: t k) (auto simp: take_Cons split: nat.split)

text \<open>What leaves the ring lies below what stays.\<close>

lemma take_ranges: "falling t rs \<Longrightarrow> in_ranges n rs \<Longrightarrow> in_ranges n (take k rs) \<or> below_ranges n (take k rs)"
proof (induction rs arbitrary: t k)
  case (Cons x rs)
  obtain a b where x: "x = (a, b)" by (cases x)
  then have f: "falling (a - 1) rs" "0 < a" using Cons.prems(1) by auto
  show ?case
  proof (cases k)
    case (Suc j)
    show ?thesis
    proof (cases "a \<le> n \<and> n \<le> b")
      case False
      then have n: "in_ranges n rs" using Cons.prems(2) x by auto
      then have "n < a" using in_ranges_le[OF f(1)] f(2) by fastforce
      with Cons.IH[OF f(1) n, of j] show ?thesis by (auto simp: Suc x)
    qed (simp add: Suc x)
  qed simp
qed simp

lemma in_take: "in_ranges n (take k rs) \<Longrightarrow> in_ranges n rs"
proof (induction rs arbitrary: k)
  case (Cons x rs)
  then show ?case by (cases x; cases k) auto
qed simp

section \<open>The check against the ranges\<close>

lemma word_of_nat_order:
  "m < 2 ^ 32 \<Longrightarrow> n < 2 ^ 32 \<Longrightarrow> (of_nat m :: 32 word) < of_nat n \<longleftrightarrow> m < n"
  "m < 2 ^ 32 \<Longrightarrow> n < 2 ^ 32 \<Longrightarrow> (of_nat m :: 32 word) \<le> of_nat n \<longleftrightarrow> m \<le> n"
  "m < 2 ^ 32 \<Longrightarrow> n < 2 ^ 32 \<Longrightarrow> (of_nat m :: 32 word) = of_nat n \<longleftrightarrow> m = n"
  by (simp_all add: word_less_nat_alt word_le_nat_alt word_unat_eq_iff unat_of_nat take_bit_nat_eq_self)

fun validate_list :: "32 word \<Rightarrow> 32 word \<Rightarrow> bool \<Rightarrow> (32 word \<times> 32 word) list \<Rightarrow> bool" where
  "validate_list cur d full [] \<longleftrightarrow> full"
| "validate_list cur d full ((lo, hi) # ws) \<longleftrightarrow>
     (if d < cur - hi then False else if d \<le> cur - lo then True else validate_list cur d full ws)"

lemma validate_from_list:
  "i + n = sr_count r \<Longrightarrow> validate_from cur d r i n =
     validate_list cur d (sr_count r = WLR_SERIAL_RINGSET_SIZE) (drop i (newest_first r))"
proof (induction n arbitrary: i)
  case (Suc n)
  then have "drop i (newest_first r) = newest_first r ! i # drop (Suc i) (newest_first r)"
    by (simp add: Cons_nth_drop_Suc)
  moreover have "newest_first r ! i =
      sr_data r ! ((sr_end r + WLR_SERIAL_RINGSET_SIZE - i) mod WLR_SERIAL_RINGSET_SIZE)"
    using Suc.prems by (simp add: newest_first_def del: upt_Suc)
  ultimately show ?case
    using Suc.IH[of "Suc i"] Suc.prems by (simp split: prod.split)
qed simp

lemma validate_ranges:
  assumes "falling t rs" "t \<le> T" "n \<le> T" "T - n < 2 ^ 32" "list_all (\<lambda>(a, b). T - a < 2 ^ 32) rs"
  shows "validate_list (of_nat T) (of_nat (T - n)) full (as_words rs) \<longleftrightarrow>
    in_ranges n rs \<or> full \<and> below_ranges n rs"
  using assms
proof (induction rs arbitrary: t)
  case (Cons x rs)
  obtain a b where x: "x = (a, b)" by (cases x)
  have r: "0 < a" "a \<le> b" "b \<le> T" "falling (a - 1) rs" "T - a < 2 ^ 32" "T - b < 2 ^ 32"
    using Cons.prems by (auto simp: x)
  have hi: "(of_nat T :: 32 word) - of_nat b = of_nat (T - b)" and lo: "(of_nat T :: 32 word) - of_nat a = of_nat (T - a)"
    using r by (simp_all add: of_nat_diff)
  have out: "n < a" if "in_ranges n rs" using in_ranges_le[OF r(4) that] r(1) by simp
  have ih: "validate_list (of_nat T) (of_nat (T - n)) full (as_words rs) \<longleftrightarrow> in_ranges n rs \<or> full \<and> below_ranges n rs"
    using Cons.prems r by (intro Cons.IH[OF r(4)]) (auto simp: x)
  have cmp: "(of_nat (T - n) :: 32 word) < of_nat (T - b) \<longleftrightarrow> b < n" "(of_nat (T - n) :: 32 word) \<le> of_nat (T - a) \<longleftrightarrow> a \<le> n"
    using r Cons.prems(3,4) by (subst word_of_nat_order; auto)+
  show ?case
    using r out by (auto simp: x hi lo cmp ih simp del: of_nat_diff)
qed simp

section \<open>The refinement\<close>

definition serial_inv :: "nat \<Rightarrow> nat set \<Rightarrow> (32 word \<times> 32 word) list \<Rightarrow> bool" where
  "serial_inv t sent ws \<longleftrightarrow>
     (\<exists>rs. ws = as_words rs \<and> falling t rs \<and> (\<forall>n. in_ranges n rs \<longrightarrow> n \<in> sent)
        \<and> (\<forall>n\<in>sent. n \<le> t \<and> (in_ranges n rs \<or> length rs = WLR_SERIAL_RINGSET_SIZE \<and> below_ranges n rs)))"

lemma below_take: "below_ranges n rs \<Longrightarrow> below_ranges n (take k rs)"
proof (induction rs arbitrary: k)
  case (Cons x rs)
  then show ?case by (cases x; cases k) auto
qed simp

lemma in_rangesI: "(a, b) \<in> set rs \<Longrightarrow> a \<le> n \<Longrightarrow> n \<le> b \<Longrightarrow> in_ranges n rs"
  by (induction rs) auto

lemma falling_bounds: "falling t rs \<Longrightarrow> (a, b) \<in> set rs \<Longrightarrow> in_ranges a rs"
proof (induction rs arbitrary: t)
  case (Cons x rs)
  then show ?case by (cases x) auto
qed simp

lemma serial_inv_add:
  assumes "serial_inv t sent ws" "t < n" "\<forall>m\<in>sent. n - m < 2 ^ 32" "length ws \<le> WLR_SERIAL_RINGSET_SIZE"
  shows "serial_inv n (insert n sent) (list_add (of_nat n) ws)"
proof -
  obtain rs where rs: "ws = as_words rs" "falling t rs" "\<And>m. in_ranges m rs \<Longrightarrow> m \<in> sent"
      "\<And>m. m \<in> sent \<Longrightarrow> m \<le> t \<and> (in_ranges m rs \<or> length rs = WLR_SERIAL_RINGSET_SIZE \<and> below_ranges m rs)"
    using assms(1) by (auto simp: serial_inv_def)
  have fresh: "serial_inv n (insert n sent) ((of_nat n, of_nat n) # take (WLR_SERIAL_RINGSET_SIZE - 1) ws)"
  proof -
    let ?rs = "(n, n) # take (WLR_SERIAL_RINGSET_SIZE - 1) rs"
    have "falling n ?rs" using assms(2) falling_take[OF falling_mono[OF rs(2)]] by simp
    moreover have "m \<le> n \<and> (in_ranges m ?rs \<or> length ?rs = WLR_SERIAL_RINGSET_SIZE \<and> below_ranges m ?rs)"
      if m: "m \<in> sent" for m
    proof (cases "length rs < WLR_SERIAL_RINGSET_SIZE")
      case True
      then have "take (WLR_SERIAL_RINGSET_SIZE - 1) rs = rs" by simp
      with True rs(4)[OF m] assms(2) show ?thesis by simp
    next
      case False
      then have len: "length ?rs = WLR_SERIAL_RINGSET_SIZE"
        using assms(4) by (simp add: rs(1) WLR_SERIAL_RINGSET_SIZE_def)
      have mt: "m < n" using rs(4)[OF m] assms(2) by simp
      have "in_ranges m (take (WLR_SERIAL_RINGSET_SIZE - 1) rs) \<or> below_ranges m (take (WLR_SERIAL_RINGSET_SIZE - 1) rs)"
        using rs(4)[OF m] take_ranges[OF rs(2)] below_take by blast
      then have "in_ranges m ?rs \<or> below_ranges m ?rs" using mt by auto
      with len less_imp_le[OF mt] show ?thesis by blast
    qed
    moreover have "m \<in> insert n sent" if "in_ranges m ?rs" for m using that rs(3) by (auto dest: in_take)
    ultimately show ?thesis using assms(2) unfolding serial_inv_def
      by (intro exI[of _ ?rs]) (auto simp: rs(1) take_map)
  qed
  show ?thesis
  proof (cases rs)
    case Nil
    then show ?thesis using fresh by (simp add: list_add_def rs(1))
  next
    case (Cons x rs')
    obtain a b where x: "x = (a, b)" by (cases x)
    have ab: "0 < a" "a \<le> b" "b \<le> t" "falling (a - 1) rs'" using rs(2) by (auto simp: Cons x)
    have "b \<in> sent" using rs(3)[of b] ab by (simp add: Cons x)
    then have d: "n - b < 2 ^ 32" using assms(3) by simp
    have "(of_nat b :: 32 word) + 1 = of_nat n \<longleftrightarrow> (of_nat (n - b) :: 32 word) = of_nat 1"
      using ab assms(2) by (auto simp: of_nat_diff algebra_simps)
    also have "\<dots> \<longleftrightarrow> n = b + 1" using d ab assms(2) by (subst word_of_nat_order(3)) auto
    finally have merge: "(of_nat b :: 32 word) + 1 = of_nat n \<longleftrightarrow> n = b + 1" .
    show ?thesis
    proof (cases "n = b + 1")
      case True
      have "m \<le> n \<and> (in_ranges m ((a, n) # rs') \<or> length rs = WLR_SERIAL_RINGSET_SIZE \<and> below_ranges m ((a, n) # rs'))"
        if "m \<in> sent" for m
        using rs(4)[OF that] assms(2) ab True by (auto simp: Cons x)
      moreover have "m \<in> insert n sent" if "in_ranges m ((a, n) # rs')" for m
      proof -
        have "m = n \<or> in_ranges m rs" using that True by (auto simp: Cons x)
        with rs(3) show ?thesis by auto
      qed
      ultimately have "serial_inv n (insert n sent) (as_words ((a, n) # rs'))"
        unfolding serial_inv_def using ab assms(2) by (intro exI[of _ "(a, n) # rs'"]) (auto simp: Cons)
      then show ?thesis using True merge by (simp add: list_add_def rs(1) Cons x)
    next
      case False
      then show ?thesis using fresh merge by (simp add: list_add_def rs(1) Cons x)
    qed
  qed
qed

lemma next_serial_step:
  assumes "serial_spec True (t, sent) = (t', sent')"
  shows "wlr_seat_client_next_serial (of_nat t, r) = (of_nat t', ringset_add (of_nat t') r) \<and> t < t' \<and> sent' = insert t' sent"
proof -
  have "(of_nat (t + 1) :: 32 word) = 0 \<longleftrightarrow> 2 ^ 32 dvd t + 1"
    by (simp only: word_of_nat_eq_0_iff) simp
  then have z: "(of_nat t + 1 :: 32 word) = 0 \<longleftrightarrow> (t + 1) mod 2 ^ 32 = 0"
    by (simp only: of_nat_add of_nat_1 dvd_eq_mod_eq_0)
  have t': "t' = (if (t + 1) mod 2 ^ 32 = 0 then t + 2 else t + 1)" "sent' = insert t' sent"
    using assms by (auto simp: Let_def split: if_splits)
  have "(of_nat (t + 2) :: 32 word) = of_nat t + 1 + 1" "(of_nat (t + 1) :: 32 word) = of_nat t + 1"
    by (simp_all add: numeral_2_eq_2)
  then have "(if (of_nat t + 1 :: 32 word) = 0 then of_nat t + 1 + 1 else of_nat t + 1 :: 32 word) = of_nat t'"
    unfolding t'(1) z by (simp only: split: if_split) simp
  then have "wlr_seat_client_next_serial (of_nat t, r) = (of_nat t', ringset_add (of_nat t') r)"
    by (simp only: wlr_seat_client_next_serial_def wl_display_next_serial_def Let_def fst_conv snd_conv)
  moreover have "t < t'" by (simp add: t'(1))
  ultimately show ?thesis using t'(2) by blast
qed

text \<open>The ring holds what the specification remembers, up to what 128 ranges can.\<close>

definition tracks :: "nat \<Rightarrow> nat set \<Rightarrow> serial_ringset \<Rightarrow> bool" where
  "tracks t sent r \<longleftrightarrow> ring_wf r \<and> serial_inv t sent (newest_first r)"

lemma tracks_start: "tracks t {} empty_ringset"
  unfolding tracks_def serial_inv_def
  by (auto simp: newest_first_def empty_ringset_def ring_wf_def WLR_SERIAL_RINGSET_SIZE_def intro!: exI[of _ "[]"])

lemma tracks_other: "tracks t sent r \<Longrightarrow> t \<le> t' \<Longrightarrow> tracks t' sent r"
  unfolding tracks_def serial_inv_def using falling_mono[of t _ t'] by fastforce

lemma tracks_next:
  assumes "tracks t sent r" "serial_spec True (t, sent) = (t', sent')" "\<forall>m\<in>sent. t' - m < 2 ^ 32"
  shows "wlr_seat_client_next_serial (of_nat t, r) = (of_nat t', ringset_add (of_nat t') r)"
    and "tracks t' sent' (ringset_add (of_nat t') r)"
proof -
  have r: "ring_wf r" "serial_inv t sent (newest_first r)" using assms(1) by (auto simp: tracks_def)
  from next_serial_step[OF assms(2), of r]
  have n: "wlr_seat_client_next_serial (of_nat t, r) = (of_nat t', ringset_add (of_nat t') r)" "t < t'" "sent' = insert t' sent"
    by auto
  have "length (newest_first r) \<le> WLR_SERIAL_RINGSET_SIZE" using r(1) by (simp add: ring_wf_def)
  from serial_inv_add[OF r(2) n(2) assms(3) this]
  show "tracks t' sent' (ringset_add (of_nat t') r)"
    using ringset_add_wf[OF r(1)] newest_add[OF r(1)] n(3) by (simp add: tracks_def)
  show "wlr_seat_client_next_serial (of_nat t, r) = (of_nat t', ringset_add (of_nat t') r)" by (rule n(1))
qed

lemma tracks_valid:
  assumes "tracks t sent r" "\<forall>m\<in>sent. t - m < 2 ^ 32" "n \<le> t" "t - n < 2147483647"
  shows "n \<in> sent \<Longrightarrow> wlr_seat_client_validate_event_serial (of_nat t) r (of_nat n)"
    and "wlr_seat_client_validate_event_serial (of_nat t) r (of_nat n) \<Longrightarrow> n \<in> sent \<or> sr_count r = WLR_SERIAL_RINGSET_SIZE"
proof -
  from assms(1) obtain rs where inv: "newest_first r = as_words rs"
      "falling t rs" "\<And>m. in_ranges m rs \<Longrightarrow> m \<in> sent"
      "\<And>m. m \<in> sent \<Longrightarrow> in_ranges m rs \<or> length rs = WLR_SERIAL_RINGSET_SIZE \<and> below_ranges m rs"
    by (auto simp: tracks_def serial_inv_def)
  have near: "list_all (\<lambda>(a, b). t - a < 2 ^ 32) rs"
    using falling_bounds[OF inv(2)] inv(3) assms(2) by (fastforce simp: list_all_iff)
  have len: "sr_count r = length rs" using inv(1) length_newest[of r] by simp
  have d: "(of_nat t :: 32 word) - of_nat n = of_nat (t - n)" using assms(3) by simp
  have "\<not> (2147483647 :: 32 word) \<le> of_nat (t - n)"
    using word_of_nat_order(2)[of 2147483647 "t - n"] assms(4) by simp
  moreover have "t - n < 2 ^ 32" using assms(4) by simp
  ultimately have valid: "wlr_seat_client_validate_event_serial (of_nat t) r (of_nat n) \<longleftrightarrow>
      in_ranges n rs \<or> sr_count r = WLR_SERIAL_RINGSET_SIZE \<and> below_ranges n rs"
    using validate_from_list[of 0 "sr_count r" r] validate_ranges[OF inv(2) order_refl assms(3) _ near]
    by (simp add: wlr_seat_client_validate_event_serial_def inv(1) d Let_def del: of_nat_diff)
  show "n \<in> sent \<Longrightarrow> wlr_seat_client_validate_event_serial (of_nat t) r (of_nat n)"
    using valid inv(4)[of n] len by auto
  show "wlr_seat_client_validate_event_serial (of_nat t) r (of_nat n) \<Longrightarrow> n \<in> sent \<or> sr_count r = WLR_SERIAL_RINGSET_SIZE"
    using valid inv(3)[of n] by auto
qed

lemma future_invalid:
  assumes "0 < k" "k \<le> 2 ^ 31"
  shows "\<not> wlr_seat_client_validate_event_serial (of_nat t) r (of_nat (t + k))"
proof -
  have "(of_nat t :: 32 word) - of_nat (t + k) = of_nat (2 ^ 32 - k)"
    using assms by (simp add: of_nat_diff)
  moreover have "(2147483647 :: 32 word) \<le> of_nat (2 ^ 32 - k)"
    using word_of_nat_order(2)[of 2147483647 "2 ^ 32 - k"] assms by simp
  ultimately show ?thesis
    by (simp add: wlr_seat_client_validate_event_serial_def Let_def del: of_nat_add of_nat_diff)
qed

text \<open>A ring overflows only after 128 serials.\<close>

lemma ranges_card: "falling t rs \<Longrightarrow> finite {n. in_ranges n rs} \<and> length rs \<le> card {n. in_ranges n rs}"
proof (induction rs arbitrary: t)
  case (Cons x rs)
  obtain a b where x: "x = (a, b)" by (cases x)
  then have f: "falling (a - 1) rs" "0 < a" "a \<le> b" using Cons.prems by auto
  have "{n. in_ranges n (x # rs)} = {a..b} \<union> {n. in_ranges n rs}" by (auto simp: x)
  moreover have "{a..b} \<inter> {n. in_ranges n rs} = {}" using in_ranges_le[OF f(1)] f(2) by fastforce
  ultimately show ?case using Cons.IH[OF f(1)] f(3) by (simp add: card_Un_disjoint, linarith)
qed simp

lemma tracks_count:
  assumes "tracks t sent r" "finite sent"
  shows "sr_count r \<le> card sent"
proof -
  from assms(1) obtain rs where rs: "newest_first r = as_words rs" "falling t rs" "\<And>m. in_ranges m rs \<Longrightarrow> m \<in> sent"
    by (auto simp: tracks_def serial_inv_def)
  have "{n. in_ranges n rs} \<subseteq> sent" using rs(3) by blast
  with ranges_card[OF rs(2)] card_mono[OF assms(2) this] have "length rs \<le> card sent" by simp
  then show ?thesis using rs(1) length_newest[of r] by simp
qed

lemma serial_run:
  assumes "fold serial_spec es (t0, {}) = (t, sent)"
    and "fold serial_step es (of_nat t0, empty_ringset) = (cur, r)"
    and "\<forall>m\<in>sent. t - m < 2 ^ 32"
  shows "cur = of_nat t \<and> tracks t sent r"
  using assms
proof (induction es arbitrary: t sent cur r rule: rev_induct)
  case Nil
  then show ?case by (auto simp: tracks_start)
next
  case (snoc e es)
  obtain t1 sent1 where a: "fold serial_spec es (t0, {}) = (t1, sent1)" by fastforce
  obtain cur1 r1 where c: "fold serial_step es (of_nat t0, empty_ringset) = (cur1, r1)" by fastforce
  have step: "serial_spec e (t1, sent1) = (t, sent)" "serial_step e (cur1, r1) = (cur, r)"
    using snoc.prems(1,2) a c by simp_all
  have le: "t1 \<le> t" "sent1 \<subseteq> sent" using step(1) by (cases e; auto simp: Let_def split: if_splits)+
  have "t1 - m < 2 ^ 32" if "m \<in> sent1" for m
    using snoc.prems(3) le that by (intro le_less_trans[OF diff_le_mono[OF le(1)]]) auto
  then have ih: "cur1 = of_nat t1" "tracks t1 sent1 r1" using snoc.IH[OF a c] by auto
  show ?case
  proof (cases e)
    case False
    then show ?thesis using step ih tracks_other[OF ih(2)] by (auto simp: wl_display_next_serial_def)
  next
    case True
    then have spec: "serial_spec True (t1, sent1) = (t, sent)" using step(1) by (simp only: simp_thms)
    have "\<forall>m\<in>sent1. t - m < 2 ^ 32" using snoc.prems(3) le(2) by blast
    from tracks_next[OF ih(2) spec this] show ?thesis using step(2) ih(1) True by auto
  qed
qed

text \<open>
  C25 (refinement). The check of an event serial agrees with the history of all serials the client was
  sent, across the wrap-around of the 32 bit numbers: a serial that was sent is accepted, one that was
  not is refused unless the ring has overflowed, and one that is still to come is refused.
\<close>

theorem event_serials_checked:
  assumes "fold serial_spec es (t0, {}) = (t, sent)"
    and "fold serial_step es (of_nat t0, empty_ringset) = (cur, r)"
    and "\<forall>m\<in>sent. t - m < 2 ^ 32"
    and "n \<le> t" "t - n < 2147483647" "0 < k" "k \<le> 2 ^ 31"
  shows "(n \<in> sent \<longrightarrow> wlr_seat_client_validate_event_serial cur r (of_nat n))
    \<and> (wlr_seat_client_validate_event_serial cur r (of_nat n) \<longrightarrow> n \<in> sent \<or> sr_count r = WLR_SERIAL_RINGSET_SIZE)
    \<and> \<not> wlr_seat_client_validate_event_serial cur r (of_nat (t + k))"
  using serial_run[OF assms(1-3)] tracks_valid[of t sent r n, OF _ assms(3-5)] future_invalid[OF assms(6,7)]
  by auto

end
