(* ===== verification/Selection_Order.thy ===== *)
theory Selection_Order
  imports Serials
begin

text \<open>
  Who owns the selections of the seat (\<open>src/subprojects/wlroots/types/data_device/wlr_data_device.c\<close>,
  \<open>types/wlr_primary_selection.c\<close>): a client's request is checked against the serials it was sent and
  against the serial of the present selection; \<open>clipboard.c\<close> grants what passes, and sets the
  selections of X11 with a new serial. Sources are named by numbers.
\<close>

section \<open>State\<close>

text \<open>\<open>selection_source\<close> and \<open>selection_serial\<close> of \<open>struct wlr_seat\<close>, or their PRIMARY twins.\<close>

record selection =
  sel_source :: "nat option"
  sel_serial :: "32 word"

datatype selection_msg =
    SourceDestroyed nat
  | SelectionSent nat "nat option" \<comment> \<open>a client is told the source of the selection\<close>
  | SelectionSet bool "nat option" \<comment> \<open>the signal, for PRIMARY or not\<close>

text \<open>\<open>so_focused\<close> is the client with the keyboard focus; \<open>so_cur\<close> the serial of the display.\<close>

record selections =
  so_cur :: "32 word"
  so_rings :: "nat \<Rightarrow> serial_ringset"
  so_sel :: selection
  so_pri :: selection
  so_focused :: "nat option"
  so_log :: "selection_msg list"

definition sel_say :: "selection_msg list \<Rightarrow> selections \<Rightarrow> selections" where
  "sel_say es s = s\<lparr>so_log := so_log s @ es\<rparr>"

section \<open>Setting a selection\<close>

text \<open>The offers made before become inert and the client gets one for the present source.\<close>

definition seat_client_send_selection :: "nat \<Rightarrow> selections \<Rightarrow> selections" where
  "seat_client_send_selection c s = sel_say [SelectionSent c (sel_source (so_sel s))] s"

definition send_to_focused :: "selections \<Rightarrow> selections" where
  "send_to_focused s = (case so_focused s of None \<Rightarrow> s | Some c \<Rightarrow> seat_client_send_selection c s)"

abbreviation destroyed :: "nat option \<Rightarrow> selection_msg list" where
  "destroyed src \<equiv> (case src of None \<Rightarrow> [] | Some x \<Rightarrow> [SourceDestroyed x])"

definition wlr_seat_set_selection :: "nat option \<Rightarrow> 32 word \<Rightarrow> selections \<Rightarrow> selections" where
  "wlr_seat_set_selection source serial s =
     (if sel_source (so_sel s) = source then s\<lparr>so_sel := (so_sel s)\<lparr>sel_serial := serial\<rparr>\<rparr>
      else
        let s1 = sel_say (destroyed (sel_source (so_sel s))) s;
            s2 = s1\<lparr>so_sel := \<lparr>sel_source = source, sel_serial = serial\<rparr>\<rparr>
        in sel_say [SelectionSet False source] (send_to_focused s2))"

definition wlr_seat_set_primary_selection :: "nat option \<Rightarrow> 32 word \<Rightarrow> selections \<Rightarrow> selections" where
  "wlr_seat_set_primary_selection source serial s =
     (if sel_source (so_pri s) = source then s\<lparr>so_pri := (so_pri s)\<lparr>sel_serial := serial\<rparr>\<rparr>
      else
        let s1 = sel_say (destroyed (sel_source (so_pri s))) s
        in sel_say [SelectionSet True source] (s1\<lparr>so_pri := \<lparr>sel_source = source, sel_serial = serial\<rparr>\<rparr>))"

text \<open>The source went away by itself, with its client.\<close>

definition seat_handle_selection_source_destroy :: "selections \<Rightarrow> selections" where
  "seat_handle_selection_source_destroy s =
     sel_say [SelectionSet False None] (send_to_focused (s\<lparr>so_sel := (so_sel s)\<lparr>sel_source := None\<rparr>\<rparr>))"

definition seat_handle_primary_selection_source_destroy :: "selections \<Rightarrow> selections" where
  "seat_handle_primary_selection_source_destroy s =
     sel_say [SelectionSet True None] (s\<lparr>so_pri := (so_pri s)\<lparr>sel_source := None\<rparr>\<rparr>)"

section \<open>Requests of clients\<close>

definition superseded :: "selection \<Rightarrow> 32 word \<Rightarrow> bool" where
  "superseded sel serial \<longleftrightarrow> sel_source sel \<noteq> None \<and> 2147483647 < serial - sel_serial sel"

definition forged :: "nat option \<Rightarrow> 32 word \<Rightarrow> selections \<Rightarrow> bool" where
  "forged client serial s \<longleftrightarrow>
     (case client of None \<Rightarrow> False
      | Some c \<Rightarrow> \<not> wlr_seat_client_validate_event_serial (so_cur s) (so_rings s c) serial)"

text \<open>What passes is granted by the compositor (\<open>server_request_set_selection\<close>).\<close>

definition wlr_seat_request_set_selection ::
  "nat option \<Rightarrow> nat option \<Rightarrow> 32 word \<Rightarrow> selections \<Rightarrow> selections" where
  "wlr_seat_request_set_selection client source serial s =
     (if forged client serial s then s
      else if superseded (so_sel s) serial then s
      else wlr_seat_set_selection source serial s)"

definition wlr_seat_request_set_primary_selection ::
  "nat option \<Rightarrow> nat option \<Rightarrow> 32 word \<Rightarrow> selections \<Rightarrow> selections" where
  "wlr_seat_request_set_primary_selection client source serial s =
     (if forged client serial s then s
      else if superseded (so_pri s) serial then s
      else wlr_seat_set_primary_selection source serial s)"

section \<open>Runs\<close>

text \<open>A client is sent an event, the display's serial is used otherwise, a client requests a selection
  (PRIMARY or not) with the serial numbered \<open>n\<close>, X11 sets one, a source goes away, the focus moves.\<close>

datatype selection_event =
    SendSerial nat
  | OtherSerial
  | RequestSelection bool nat "nat option" nat
  | SetFromX11 bool nat
  | SourceGone bool
  | FocusClient "nat option"

fun selection_step :: "selection_event \<Rightarrow> selections \<Rightarrow> selections" where
  "selection_step (SendSerial c) s =
     (case wlr_seat_client_next_serial (so_cur s, so_rings s c) of
        (cur, r) \<Rightarrow> s\<lparr>so_cur := cur, so_rings := (so_rings s)(c := r)\<rparr>)"
| "selection_step OtherSerial s = s\<lparr>so_cur := wl_display_next_serial (so_cur s)\<rparr>"
| "selection_step (RequestSelection False c source n) s = wlr_seat_request_set_selection (Some c) source (of_nat n) s"
| "selection_step (RequestSelection True c source n) s = wlr_seat_request_set_primary_selection (Some c) source (of_nat n) s"
| "selection_step (SetFromX11 False x) s =
     (let cur = wl_display_next_serial (so_cur s) in wlr_seat_set_selection (Some x) cur (s\<lparr>so_cur := cur\<rparr>))"
| "selection_step (SetFromX11 True x) s =
     (let cur = wl_display_next_serial (so_cur s) in wlr_seat_set_primary_selection (Some x) cur (s\<lparr>so_cur := cur\<rparr>))"
| "selection_step (SourceGone False) s =
     (if sel_source (so_sel s) = None then s else seat_handle_selection_source_destroy s)"
| "selection_step (SourceGone True) s =
     (if sel_source (so_pri s) = None then s else seat_handle_primary_selection_source_destroy s)"
| "selection_step (FocusClient c) s = s\<lparr>so_focused := c\<rparr>"

definition no_selections :: "32 word \<Rightarrow> selections" where
  "no_selections cur = \<lparr>so_cur = cur, so_rings = \<lambda>_. empty_ringset, so_sel = \<lparr>sel_source = None, sel_serial = 0\<rparr>,
     so_pri = \<lparr>sel_source = None, sel_serial = 0\<rparr>, so_focused = None, so_log = []\<rparr>"

section \<open>The specification\<close>

text \<open>Serials without a bound: how many there were, which each client was sent, and for each selection
  its source with the serial it was set with. A selection gives way to one that is not older.\<close>

record owners =
  ow_now :: nat
  ow_sent :: "nat \<Rightarrow> nat set"
  ow_sel :: "bool \<Rightarrow> (nat \<times> nat) option"

definition not_older :: "(nat \<times> nat) option \<Rightarrow> nat \<Rightarrow> bool" where
  "not_older sel n \<longleftrightarrow> (case sel of None \<Rightarrow> True | Some (_, m) \<Rightarrow> m \<le> n)"

fun owner_spec :: "selection_event \<Rightarrow> owners \<Rightarrow> owners" where
  "owner_spec (SendSerial c) a =
     (case serial_spec True (ow_now a, ow_sent a c) of
        (t, sent) \<Rightarrow> a\<lparr>ow_now := t, ow_sent := (ow_sent a)(c := sent)\<rparr>)"
| "owner_spec OtherSerial a = a\<lparr>ow_now := ow_now a + 1\<rparr>"
| "owner_spec (RequestSelection p c source n) a =
     (if n \<in> ow_sent a c \<and> not_older (ow_sel a p) n
      then a\<lparr>ow_sel := (ow_sel a)(p := map_option (\<lambda>x. (x, n)) source)\<rparr> else a)"
| "owner_spec (SetFromX11 p x) a =
     a\<lparr>ow_now := ow_now a + 1, ow_sel := (ow_sel a)(p := Some (x, ow_now a + 1))\<rparr>"
| "owner_spec (SourceGone p) a = a\<lparr>ow_sel := (ow_sel a)(p := None)\<rparr>"
| "owner_spec (FocusClient c) a = a"

definition no_owners :: "nat \<Rightarrow> owners" where
  "no_owners t = \<lparr>ow_now = t, ow_sent = \<lambda>_. {}, ow_sel = \<lambda>_. None\<rparr>"

text \<open>A request may carry a serial the client was sent, one still to come, or, for a client that was
  sent fewer than 128, any since the start.\<close>

fun request_ok :: "nat \<Rightarrow> selection_event \<Rightarrow> owners \<Rightarrow> bool" where
  "request_ok t0 (RequestSelection p c source n) a \<longleftrightarrow>
     n \<in> ow_sent a c \<or> ow_now a < n \<and> n \<le> ow_now a + 2 ^ 31
     \<or> t0 \<le> n \<and> n \<le> ow_now a \<and> card (ow_sent a c) < WLR_SERIAL_RINGSET_SIZE"
| "request_ok t0 ev a \<longleftrightarrow> True"

fun requests_ok :: "nat \<Rightarrow> selection_event list \<Rightarrow> owners \<Rightarrow> bool" where
  "requests_ok t0 [] a \<longleftrightarrow> True"
| "requests_ok t0 (ev # evs) a \<longleftrightarrow> request_ok t0 ev a \<and> requests_ok t0 evs (owner_spec ev a)"

section \<open>The refinement\<close>

text \<open>Fewer than \<open>2 ^ 31 - 1\<close> serials are used in the run.\<close>

definition sel_rel :: "nat \<Rightarrow> nat \<Rightarrow> (nat \<times> nat) option \<Rightarrow> selection \<Rightarrow> bool" where
  "sel_rel t0 t owner sel \<longleftrightarrow>
     (case owner of None \<Rightarrow> sel_source sel = None
      | Some (x, m) \<Rightarrow> sel_source sel = Some x \<and> sel_serial sel = of_nat m \<and> t0 \<le> m \<and> m \<le> t)"

definition owners_rel :: "nat \<Rightarrow> owners \<Rightarrow> selections \<Rightarrow> bool" where
  "owners_rel t0 a s \<longleftrightarrow> so_cur s = of_nat (ow_now a) \<and> t0 \<le> ow_now a
     \<and> (\<forall>c. tracks (ow_now a) (ow_sent a c) (so_rings s c) \<and> finite (ow_sent a c) \<and> ow_sent a c \<subseteq> {t0..ow_now a})
     \<and> sel_rel t0 (ow_now a) (ow_sel a False) (so_sel s) \<and> sel_rel t0 (ow_now a) (ow_sel a True) (so_pri s)"

lemma sel_rel_later: "sel_rel t0 t owner sel \<Longrightarrow> t \<le> t' \<Longrightarrow> sel_rel t0 t' owner sel"
  by (auto simp: sel_rel_def split: option.splits)

lemma sel_say_fields [simp]:
  "so_cur (sel_say es s) = so_cur s" "so_rings (sel_say es s) = so_rings s" "so_sel (sel_say es s) = so_sel s"
  "so_pri (sel_say es s) = so_pri s" "so_focused (sel_say es s) = so_focused s"
  by (simp_all add: sel_say_def)

lemma send_to_focused_fields [simp]:
  "so_cur (send_to_focused s) = so_cur s" "so_rings (send_to_focused s) = so_rings s"
  "so_sel (send_to_focused s) = so_sel s" "so_pri (send_to_focused s) = so_pri s"
  by (auto simp: send_to_focused_def seat_client_send_selection_def split: option.split)

lemma set_selection_fields [simp]:
  "so_sel (wlr_seat_set_selection x n s) = \<lparr>sel_source = x, sel_serial = n\<rparr>"
  "so_pri (wlr_seat_set_selection x n s) = so_pri s"
  "so_cur (wlr_seat_set_selection x n s) = so_cur s" "so_rings (wlr_seat_set_selection x n s) = so_rings s"
  by (auto simp: wlr_seat_set_selection_def Let_def)

lemma set_primary_fields [simp]:
  "so_pri (wlr_seat_set_primary_selection x n s) = \<lparr>sel_source = x, sel_serial = n\<rparr>"
  "so_sel (wlr_seat_set_primary_selection x n s) = so_sel s"
  "so_cur (wlr_seat_set_primary_selection x n s) = so_cur s"
  "so_rings (wlr_seat_set_primary_selection x n s) = so_rings s"
  by (auto simp: wlr_seat_set_primary_selection_def Let_def)

lemma source_gone_fields [simp]:
  "so_sel (seat_handle_selection_source_destroy s) = (so_sel s)\<lparr>sel_source := None\<rparr>"
  "so_pri (seat_handle_selection_source_destroy s) = so_pri s"
  "so_cur (seat_handle_selection_source_destroy s) = so_cur s"
  "so_rings (seat_handle_selection_source_destroy s) = so_rings s"
  "so_pri (seat_handle_primary_selection_source_destroy s) = (so_pri s)\<lparr>sel_source := None\<rparr>"
  "so_sel (seat_handle_primary_selection_source_destroy s) = so_sel s"
  "so_cur (seat_handle_primary_selection_source_destroy s) = so_cur s"
  "so_rings (seat_handle_primary_selection_source_destroy s) = so_rings s"
  by (simp_all add: seat_handle_selection_source_destroy_def seat_handle_primary_selection_source_destroy_def)

text \<open>Serials compare like the numbers they stand for, as long as these are near.\<close>

lemma later_serial:
  assumes "t0 \<le> m" "m \<le> t" "t0 \<le> n" "n \<le> t" "t - t0 < 2147483647"
  shows "(2147483647 :: 32 word) < of_nat n - of_nat m \<longleftrightarrow> \<not> m \<le> n"
proof (cases "m \<le> n")
  case True
  then have "(of_nat n :: 32 word) - of_nat m = of_nat (n - m)" by simp
  moreover have "n - m < 2147483647" using assms by linarith
  ultimately show ?thesis
    using True word_of_nat_order(1)[of 2147483647 "n - m"] by (simp del: of_nat_diff)
next
  case False
  then have "(of_nat n :: 32 word) - of_nat m = of_nat (2 ^ 32 - (m - n))"
    using assms by (simp add: of_nat_diff)
  moreover have "m - n < 2147483647" "0 < m - n" using assms False by linarith+
  ultimately show ?thesis
    using False word_of_nat_order(1)[of 2147483647 "2 ^ 32 - (m - n)"] by (simp del: of_nat_diff)
qed

lemma superseded_spec:
  assumes "sel_rel t0 t owner sel" "t0 \<le> n" "n \<le> t" "t - t0 < 2147483647"
  shows "superseded sel (of_nat n) \<longleftrightarrow> \<not> not_older owner n"
  using assms later_serial[OF _ _ assms(2-4)]
  by (auto simp: sel_rel_def superseded_def not_older_def split: option.splits)

lemma forged_spec:
  assumes "owners_rel t0 a s" "request_ok t0 (RequestSelection p c source n) a" "ow_now a - t0 < 2147483647"
  shows "forged (Some c) (of_nat n) s \<longleftrightarrow> n \<notin> ow_sent a c"
proof -
  have r: "so_cur s = of_nat (ow_now a)" "tracks (ow_now a) (ow_sent a c) (so_rings s c)" "finite (ow_sent a c)"
      "ow_sent a c \<subseteq> {t0..ow_now a}"
    using assms(1) by (auto simp: owners_rel_def)
  have near: "\<forall>m\<in>ow_sent a c. ow_now a - m < 2 ^ 32"
    using r(4) assms(3) by fastforce
  consider "n \<in> ow_sent a c" | "n \<notin> ow_sent a c" "ow_now a < n" "n \<le> ow_now a + 2 ^ 31"
    | "n \<notin> ow_sent a c" "t0 \<le> n" "n \<le> ow_now a" "card (ow_sent a c) < WLR_SERIAL_RINGSET_SIZE"
    using assms(2) by auto
  then show ?thesis
  proof cases
    case 1
    then have "t0 \<le> n" "n \<le> ow_now a" using r(4) by auto
    then have "n \<le> ow_now a" "ow_now a - n < 2147483647" using assms(3) by linarith+
    from tracks_valid(1)[OF r(2) near this 1] 1 show ?thesis by (simp add: forged_def r(1))
  next
    case 2
    then show ?thesis using future_invalid[of "n - ow_now a" "ow_now a" "so_rings s c"] by (simp add: forged_def r(1))
  next
    case 3
    then have "ow_now a - n < 2147483647" using assms(3) by linarith
    moreover have "sr_count (so_rings s c) \<noteq> WLR_SERIAL_RINGSET_SIZE" using tracks_count[OF r(2,3)] 3(4) by linarith
    ultimately show ?thesis using tracks_valid(2)[OF r(2) near 3(3)] 3(1) by (auto simp: forged_def r(1))
  qed
qed

lemma owner_spec_later: "ow_now a \<le> ow_now (owner_spec ev a)"
  by (cases ev) (auto simp: Let_def split: prod.split)

lemma request_rel:
  assumes rel: "owners_rel t0 a s" and ok: "request_ok t0 (RequestSelection p c source n) a"
    and near: "ow_now a - t0 < 2147483647"
  shows "owners_rel t0 (owner_spec (RequestSelection p c source n) a) (selection_step (RequestSelection p c source n) s)"
proof (cases "n \<in> ow_sent a c")
  case False
  then show ?thesis using rel forged_spec[OF rel ok near]
    by (cases p) (simp_all add: wlr_seat_request_set_selection_def wlr_seat_request_set_primary_selection_def)
next
  case True
  moreover have "ow_sent a c \<subseteq> {t0..ow_now a}" using rel by (simp add: owners_rel_def)
  ultimately have n: "t0 \<le> n" "n \<le> ow_now a" by auto
  have s: "sel_rel t0 (ow_now a) (ow_sel a False) (so_sel s)" "sel_rel t0 (ow_now a) (ow_sel a True) (so_pri s)"
    using rel by (auto simp: owners_rel_def)
  have new: "sel_rel t0 (ow_now a) (map_option (\<lambda>x. (x, n)) source) \<lparr>sel_source = source, sel_serial = of_nat n\<rparr>"
    using n by (auto simp: sel_rel_def split: option.split)
  show ?thesis
    using rel True new s forged_spec[OF rel ok near] superseded_spec[OF s(1) n near] superseded_spec[OF s(2) n near]
    by (cases p) (auto simp: wlr_seat_request_set_selection_def wlr_seat_request_set_primary_selection_def owners_rel_def)
qed

lemma step_rel:
  assumes rel: "owners_rel t0 a s" and ok: "request_ok t0 ev a" and near: "ow_now (owner_spec ev a) - t0 < 2147483647"
  shows "owners_rel t0 (owner_spec ev a) (selection_step ev s)"
proof (cases ev)
  case (SendSerial c)
  obtain t sent where spec: "serial_spec True (ow_now a, ow_sent a c) = (t, sent)" by fastforce
  have t: "ow_now a \<le> t" "sent = insert t (ow_sent a c)" using spec by (auto simp: Let_def split: if_splits)
  have r: "so_cur s = of_nat (ow_now a)" "t0 \<le> ow_now a" "\<And>d. tracks (ow_now a) (ow_sent a d) (so_rings s d)"
      "\<And>d. finite (ow_sent a d)" "\<And>d. ow_sent a d \<subseteq> {t0..ow_now a}"
    using rel by (auto simp: owners_rel_def)
  have "t - t0 < 2147483647" using near spec by (simp add: SendSerial del: serial_spec.simps)
  then have "\<forall>m\<in>ow_sent a c. t - m < 2 ^ 32" using r(5)[of c] by fastforce
  from tracks_next[OF r(3) spec this] have next_c:
    "wlr_seat_client_next_serial (so_cur s, so_rings s c) = (of_nat t, ringset_add (of_nat t) (so_rings s c))"
    "tracks t sent (ringset_add (of_nat t) (so_rings s c))" by (simp_all add: r(1))
  have old: "tracks t (ow_sent a d) (so_rings s d)" "ow_sent a d \<subseteq> {t0..t}" for d
    using tracks_other[OF r(3) t(1)] r(5)[of d] t(1) by auto
  show ?thesis
    using rel old next_c r(2,4) t sel_rel_later[OF _ t(1)]
    by (auto simp: SendSerial owners_rel_def spec simp del: serial_spec.simps)
next
  case OtherSerial
  have r: "tracks (ow_now a) (ow_sent a d) (so_rings s d)" "ow_sent a d \<subseteq> {t0..ow_now a}" for d
    using rel by (auto simp: owners_rel_def)
  have "tracks (ow_now a + 1) (ow_sent a d) (so_rings s d)" "ow_sent a d \<subseteq> {t0..ow_now a + 1}" for d
    using tracks_other[OF r(1)] r(2)[of d] by auto
  then show ?thesis using rel sel_rel_later[of t0 "ow_now a" _ _ "ow_now a + 1"]
    by (auto simp: OtherSerial owners_rel_def wl_display_next_serial_def)
next
  case (RequestSelection p c source n)
  then show ?thesis using request_rel[OF rel] ok near owner_spec_later[of a ev] by auto
next
  case (SetFromX11 p x)
  have r: "tracks (ow_now a) (ow_sent a d) (so_rings s d)" "ow_sent a d \<subseteq> {t0..ow_now a}" for d
    using rel by (auto simp: owners_rel_def)
  have "tracks (ow_now a + 1) (ow_sent a d) (so_rings s d)" "ow_sent a d \<subseteq> {t0..ow_now a + 1}" for d
    using tracks_other[OF r(1)] r(2)[of d] by auto
  moreover have "sel_rel t0 (ow_now a + 1) (Some (x, ow_now a + 1)) \<lparr>sel_source = Some x, sel_serial = of_nat (ow_now a) + 1\<rparr>"
    using rel by (simp add: sel_rel_def owners_rel_def)
  ultimately show ?thesis using rel sel_rel_later[of t0 "ow_now a" _ _ "ow_now a + 1"]
    by (cases p) (auto simp: SetFromX11 owners_rel_def wl_display_next_serial_def Let_def)
next
  case (SourceGone p)
  then show ?thesis using rel by (cases p) (auto simp: owners_rel_def sel_rel_def split: option.splits)
next
  case (FocusClient c)
  then show ?thesis using rel by (simp add: owners_rel_def)
qed

lemma owners_later: "ow_now a \<le> ow_now (fold owner_spec evs a)"
  by (induction evs arbitrary: a) (auto intro: order_trans[OF owner_spec_later])

lemma run_rel:
  assumes "owners_rel t0 a s" "requests_ok t0 evs a" "ow_now (fold owner_spec evs a) - t0 < 2147483647"
  shows "owners_rel t0 (fold owner_spec evs a) (fold selection_step evs s)"
  using assms
proof (induction evs arbitrary: a s)
  case (Cons ev evs)
  have "ow_now (owner_spec ev a) - t0 < 2147483647"
    using Cons.prems(3) owners_later[of "owner_spec ev a" evs] by simp
  then have "owners_rel t0 (owner_spec ev a) (selection_step ev s)"
    using step_rel[OF Cons.prems(1)] Cons.prems(2) by simp
  then show ?case using Cons.IH Cons.prems by simp
qed simp

lemma start_rel: "owners_rel t (no_owners t) (no_selections (of_nat t))"
  by (simp add: owners_rel_def no_owners_def no_selections_def tracks_start sel_rel_def)

text \<open>
  C24 (refinement). Each selection belongs to the source that was set with the newest serial: a request is granted
  exactly when its serial was sent to the client and is not older than that of the selection, whatever the
  order in which clients and X11 set selections, across the wrap-around of the 32 bit numbers. A request
  either uses a serial its client was sent, or the client was sent fewer than 128 serials: beyond
  that its ring is full, and the seat lets a serial pass that it no longer can tell from one it sent.
\<close>

theorem newest_selection_wins:
  assumes "requests_ok t evs (no_owners t)" "ow_now (fold owner_spec evs (no_owners t)) - t < 2147483647"
  shows "sel_source (so_sel (fold selection_step evs (no_selections (of_nat t)))) =
      map_option fst (ow_sel (fold owner_spec evs (no_owners t)) False)
    \<and> sel_source (so_pri (fold selection_step evs (no_selections (of_nat t)))) =
      map_option fst (ow_sel (fold owner_spec evs (no_owners t)) True)"
  using run_rel[OF start_rel assms] by (auto simp: owners_rel_def sel_rel_def split: option.splits)

end
