(* ===== verification/Output_Layout.thy ===== *)
theory Output_Layout
  imports Popups
begin

text \<open>
  The layout of the monitors (\<open>src/subprojects/wlroots/types/wlr_output_layout.c\<close>), the part of the scene each of
  them shows (\<open>types/scene/output_layout.c\<close>), and where the compositor puts the contents of the windows
  (\<open>create_bootstrap_output\<close>, \<open>create_output_for_window\<close>, \<open>src/output.c\<close>, and the fit of \<open>surface_commit\<close>,
  \<open>src/xdg.c\<close>). Monitors are named by numbers; they have scale 1 and no transform, so that their
  effective resolution is their size. Coordinates are integers without the overflow of C's \<open>int\<close>.
\<close>

section \<open>The layout\<close>

text \<open>\<open>struct wlr_output_layout_output\<close> with the size of its output, in the order of the layout's list.\<close>

record layout_output =
  lo_output :: nat
  lo_x :: int
  lo_y :: int
  lo_auto :: bool
  lo_width :: int
  lo_height :: int

definition output_layout_output_get_box :: "layout_output \<Rightarrow> wlr_box" where
  "output_layout_output_get_box lo =
     \<lparr>box_x = lo_x lo, box_y = lo_y lo, box_width = lo_width lo, box_height = lo_height lo\<rparr>"

definition INT_MIN :: int where "INT_MIN = - 2147483648"

text \<open>The right edge of the monitors with a place of their own, and the top of the one it belongs to.\<close>

fun manual_edge :: "layout_output list \<Rightarrow> int \<times> int \<Rightarrow> int \<times> int" where
  "manual_edge [] (mx, my) = (mx, my)"
| "manual_edge (lo # los) (mx, my) =
     (if lo_auto lo then manual_edge los (mx, my)
      else
        let b = output_layout_output_get_box lo
        in if mx < box_x b + box_width b then manual_edge los (box_x b + box_width b, box_y b)
           else manual_edge los (mx, my))"

fun place_auto :: "int \<Rightarrow> int \<Rightarrow> layout_output list \<Rightarrow> layout_output list" where
  "place_auto mx my [] = []"
| "place_auto mx my (lo # los) =
     (if \<not> lo_auto lo then lo # place_auto mx my los
      else lo\<lparr>lo_x := mx, lo_y := my\<rparr> # place_auto (mx + lo_width lo) my los)"

definition output_layout_reconfigure :: "layout_output list \<Rightarrow> layout_output list" where
  "output_layout_reconfigure los =
     (case manual_edge los (INT_MIN, INT_MIN) of
        (mx, my) \<Rightarrow> if mx = INT_MIN then place_auto 0 0 los else place_auto mx my los)"

text \<open>\<open>width\<close> and \<open>height\<close> are the output's; an output that is in the layout keeps its place in the list.\<close>

definition output_layout_add ::
  "nat \<Rightarrow> int \<Rightarrow> int \<Rightarrow> bool \<Rightarrow> int \<Rightarrow> int \<Rightarrow> layout_output list \<Rightarrow> layout_output list" where
  "output_layout_add out lx ly auto width height los =
     (let los1 = (if out \<in> lo_output ` set los then los
            else los @ [\<lparr>lo_output = out, lo_x = 0, lo_y = 0, lo_auto = False, lo_width = width, lo_height = height\<rparr>])
      in output_layout_reconfigure
           (map (\<lambda>lo. if lo_output lo = out then lo\<lparr>lo_x := lx, lo_y := ly, lo_auto := auto\<rparr> else lo) los1))"

definition wlr_output_layout_add :: "nat \<Rightarrow> int \<Rightarrow> int \<Rightarrow> int \<Rightarrow> int \<Rightarrow> layout_output list \<Rightarrow> layout_output list" where
  "wlr_output_layout_add out lx ly = output_layout_add out lx ly False"

definition wlr_output_layout_add_auto :: "nat \<Rightarrow> int \<Rightarrow> int \<Rightarrow> layout_output list \<Rightarrow> layout_output list" where
  "wlr_output_layout_add_auto out = output_layout_add out 0 0 True"

text \<open>The output is destroyed, or has a new mode.\<close>

definition addon_destroy :: "nat \<Rightarrow> layout_output list \<Rightarrow> layout_output list" where
  "addon_destroy out los = output_layout_reconfigure (filter (\<lambda>lo. lo_output lo \<noteq> out) los)"

definition handle_output_commit :: "nat \<Rightarrow> int \<Rightarrow> int \<Rightarrow> layout_output list \<Rightarrow> layout_output list" where
  "handle_output_commit out width height los =
     output_layout_reconfigure
       (map (\<lambda>lo. if lo_output lo = out then lo\<lparr>lo_width := width, lo_height := height\<rparr> else lo) los)"

definition wlr_output_layout_output_at :: "rat \<Rightarrow> rat \<Rightarrow> layout_output list \<Rightarrow> nat option" where
  "wlr_output_layout_output_at lx ly los =
     map_option lo_output (List.find (\<lambda>lo. wlr_box_contains_point (Some (output_layout_output_get_box lo)) lx ly) los)"

section \<open>The stage\<close>

text \<open>Where the scene outputs are, by monitor, newest first, and where the windows' scene trees are.\<close>

record stage =
  st_layout :: "layout_output list"
  st_scene_outputs :: "(nat \<times> int \<times> int) list"
  st_trees :: "nat \<Rightarrow> int \<times> int"
  st_bootstrap :: "nat option"

definition layout_place :: "layout_output list \<Rightarrow> nat \<Rightarrow> (int \<times> int) option" where
  "layout_place los out = map_option (\<lambda>lo. (lo_x lo, lo_y lo)) (List.find (\<lambda>lo. lo_output lo = out) los)"

definition scene_output_layout_handle_layout_change :: "stage \<Rightarrow> stage" where
  "scene_output_layout_handle_layout_change st =
     st\<lparr>st_scene_outputs := map (\<lambda>(out, pos). case layout_place (st_layout st) out of
          None \<Rightarrow> (out, pos) | Some pos' \<Rightarrow> (out, pos')) (st_scene_outputs st)\<rparr>"

definition change_layout :: "(layout_output list \<Rightarrow> layout_output list) \<Rightarrow> stage \<Rightarrow> stage" where
  "change_layout f st = scene_output_layout_handle_layout_change (st\<lparr>st_layout := f (st_layout st)\<rparr>)"

definition wlr_scene_output_layout_add_output :: "nat \<Rightarrow> stage \<Rightarrow> stage" where
  "wlr_scene_output_layout_add_output out st =
     (if out \<in> fst ` set (st_scene_outputs st) then st
      else case layout_place (st_layout st) out of
          None \<Rightarrow> st | Some pos \<Rightarrow> st\<lparr>st_scene_outputs := (out, pos) # st_scene_outputs st\<rparr>)"

section \<open>The compositor\<close>

text \<open>The monitor that is there before any window, and what the calls it makes answer: \<open>be_screen\<close> is the
  size of the X screen, where known.\<close>

record boot_env =
  be_backend :: bool
  be_screen :: "(int \<times> int) option"
  be_output :: "nat option"
  be_commit_ok :: bool
  be_layout_ok :: bool
  be_scene_output_ok :: bool

definition bootstrap_size :: "boot_env \<Rightarrow> int \<times> int" where
  "bootstrap_size env =
     (case be_screen env of None \<Rightarrow> (1920, 1080)
      | Some (w, h) \<Rightarrow> (if w < 640 then 640 else w, if h < 480 then 480 else h))"

definition create_bootstrap_output :: "boot_env \<Rightarrow> stage \<Rightarrow> bool \<times> stage" where
  "create_bootstrap_output env st =
     (if \<not> be_backend env \<or> st_bootstrap st \<noteq> None then (st_bootstrap st \<noteq> None, st)
      else case be_output env of
          None \<Rightarrow> (False, st)
        | Some out \<Rightarrow>
            let (bw, bh) = bootstrap_size env
            in if \<not> be_commit_ok env then (False, st)
               else if \<not> be_layout_ok env then (False, st)
               else
                 let st1 = change_layout (wlr_output_layout_add out (- bw - 256) 0 bw bh) st;
                     st2 = (if be_scene_output_ok env then wlr_scene_output_layout_add_output out st1 else st1)
                 in (True, st2\<lparr>st_bootstrap := Some out\<rparr>))"

definition place_tree :: "nat \<Rightarrow> stage \<Rightarrow> stage" where
  "place_tree out st =
     (case layout_place (st_layout st) out of
        None \<Rightarrow> st | Some pos \<Rightarrow> st\<lparr>st_trees := (st_trees st)(out := pos)\<rparr>)"

text \<open>The end of \<open>create_output_for_window\<close>; a window is named by its monitor.\<close>

definition add_window_output :: "nat \<Rightarrow> int \<Rightarrow> int \<Rightarrow> stage \<Rightarrow> stage" where
  "add_window_output out width height st =
     place_tree out (wlr_scene_output_layout_add_output out
       (change_layout (wlr_output_layout_add_auto out width height) st))"

text \<open>The fit of \<open>surface_commit\<close>: the output gets a new mode, then the tree is put to its place.\<close>

definition fit_window_output :: "nat \<Rightarrow> int \<Rightarrow> int \<Rightarrow> stage \<Rightarrow> stage" where
  "fit_window_output out width height st = place_tree out (change_layout (handle_output_commit out width height) st)"

text \<open>A size of the host: only the output changes.\<close>

definition host_sizes_output :: "nat \<Rightarrow> int \<Rightarrow> int \<Rightarrow> stage \<Rightarrow> stage" where
  "host_sizes_output out width height st = change_layout (handle_output_commit out width height) st"

definition destroy_window_output :: "nat \<Rightarrow> stage \<Rightarrow> stage" where
  "destroy_window_output out st =
     change_layout (addon_destroy out) (st\<lparr>st_scene_outputs := filter (\<lambda>so. fst so \<noteq> out) (st_scene_outputs st)\<rparr>)"

text \<open>What a monitor shows of the scene.\<close>

definition shown_at :: "stage \<Rightarrow> nat \<Rightarrow> (int \<times> int) option" where
  "shown_at st out = map_of (st_scene_outputs st) out"

section \<open>Runs\<close>

inductive stage_step :: "stage \<Rightarrow> stage \<Rightarrow> bool" where
  stage_open: "0 < width \<Longrightarrow> 0 < height \<Longrightarrow> out \<notin> lo_output ` set (st_layout st) \<Longrightarrow>
    stage_step st (add_window_output out width height st)"
| stage_fit: "0 < width \<Longrightarrow> 0 < height \<Longrightarrow> st_bootstrap st \<noteq> Some out \<Longrightarrow> stage_step st (fit_window_output out width height st)"
| stage_host: "0 < width \<Longrightarrow> 0 < height \<Longrightarrow> st_bootstrap st \<noteq> Some out \<Longrightarrow> stage_step st (host_sizes_output out width height st)"
| stage_close: "st_bootstrap st \<noteq> Some out \<Longrightarrow> stage_step st (destroy_window_output out st)"

definition empty_stage :: stage where
  "empty_stage = \<lparr>st_layout = [], st_scene_outputs = [], st_trees = \<lambda>_. (0, 0), st_bootstrap = None\<rparr>"

abbreviation stage_reach :: "boot_env \<Rightarrow> stage \<Rightarrow> bool" where
  "stage_reach env \<equiv> stage_step\<^sup>*\<^sup>* (snd (create_bootstrap_output env empty_stage))"

section \<open>A row of monitors\<close>

text \<open>The windows' monitors stand side by side.\<close>

fun side_by_side :: "int \<Rightarrow> layout_output list \<Rightarrow> bool" where
  "side_by_side x [] \<longleftrightarrow> True"
| "side_by_side x (lo # los) \<longleftrightarrow>
     lo_x lo = x \<and> lo_y lo = 0 \<and> side_by_side (x + lo_width lo) los"

definition window_monitor :: "layout_output \<Rightarrow> bool" where
  "window_monitor lo \<longleftrightarrow> lo_auto lo \<and> 0 < lo_width lo \<and> 0 < lo_height lo"

text \<open>What stands before them: the bootstrap monitor, if there is one.\<close>

definition row_head :: "layout_output list \<Rightarrow> int \<Rightarrow> bool" where
  "row_head front base \<longleftrightarrow> front = [] \<and> base = 0
     \<or> (\<exists>boot. front = [boot] \<and> \<not> lo_auto boot \<and> lo_y boot = 0 \<and> 0 < lo_width boot \<and> lo_x boot + lo_width boot = base \<and> base = - 256)"

text \<open>Every scene output is at the place of its monitor.\<close>

definition scene_follows :: "stage \<Rightarrow> bool" where
  "scene_follows st \<longleftrightarrow> (\<forall>(out, pos)\<in>set (st_scene_outputs st). layout_place (st_layout st) out = Some pos)"

text \<open>The monitors in \<open>late\<close> may not have their scene output yet.\<close>

definition stage_row :: "nat set \<Rightarrow> stage \<Rightarrow> layout_output list \<Rightarrow> int \<Rightarrow> layout_output list \<Rightarrow> bool" where
  "stage_row late st front base los \<longleftrightarrow>
     st_layout st = front @ los \<and> row_head front base \<and> side_by_side base los \<and> list_all window_monitor los
     \<and> st_bootstrap st = (case front of [] \<Rightarrow> None | boot # _ \<Rightarrow> Some (lo_output boot))
     \<and> lo_output ` set los \<subseteq> fst ` set (st_scene_outputs st) \<union> late
     \<and> distinct (map lo_output (front @ los)) \<and> distinct (map fst (st_scene_outputs st)) \<and> scene_follows st"

definition stage_ok :: "stage \<Rightarrow> bool" where
  "stage_ok st \<longleftrightarrow> (\<exists>front base los. stage_row {} st front base los)"

lemma side_by_side_placed: "list_all window_monitor los \<Longrightarrow> side_by_side x (place_auto x 0 los)"
  by (induction los arbitrary: x) (auto simp: window_monitor_def)

lemma placed_windows: "list_all window_monitor los \<Longrightarrow> list_all window_monitor (place_auto x y los)"
  by (induction los arbitrary: x) (auto simp: window_monitor_def)

lemma placed_outputs [simp]: "map lo_output (place_auto x y los) = map lo_output los"
  by (induction los arbitrary: x) auto

lemma placed_output_set [simp]: "lo_output ` set (place_auto x y los) = lo_output ` set los"
  by (metis list.set_map placed_outputs)

lemma manual_edge_windows: "list_all window_monitor los \<Longrightarrow> manual_edge los e = e"
  by (induction los arbitrary: e) (auto simp: window_monitor_def)

lemma reconfigure_row:
  assumes "row_head front base" "list_all window_monitor los"
  shows "output_layout_reconfigure (front @ los) = front @ place_auto base 0 los"
  using assms manual_edge_windows[OF assms(2)]
  by (auto simp: row_head_def output_layout_reconfigure_def output_layout_output_get_box_def INT_MIN_def Let_def)

lemma layout_place_some: "out \<in> lo_output ` set los \<Longrightarrow> \<exists>pos. layout_place los out = Some pos"
  by (induction los) (auto simp: layout_place_def)

lemma layout_place_in: "layout_place los out = Some pos \<Longrightarrow> out \<in> lo_output ` set los"
  by (induction los) (auto simp: layout_place_def split: if_splits)

lemma change_layout_fields [simp]:
  "st_layout (change_layout f st) = f (st_layout st)" "st_bootstrap (change_layout f st) = st_bootstrap st"
  "st_trees (change_layout f st) = st_trees st"
  "map fst (st_scene_outputs (change_layout f st)) = map fst (st_scene_outputs st)"
  by (auto simp: change_layout_def scene_output_layout_handle_layout_change_def comp_def split: option.split prod.split)

lemma change_layout_scene_set [simp]: "fst ` set (st_scene_outputs (change_layout f st)) = fst ` set (st_scene_outputs st)"
  by (metis list.set_map change_layout_fields(4))

lemma change_follows:
  assumes "fst ` set (st_scene_outputs st) \<subseteq> lo_output ` set (f (st_layout st))"
  shows "scene_follows (change_layout f st)"
proof -
  have "\<exists>pos. layout_place (f (st_layout st)) out = Some pos" if "(out, pos0) \<in> set (st_scene_outputs st)" for out pos0
    using assms that by (intro layout_place_some) (force simp: image_iff)
  then show ?thesis
    by (fastforce simp: scene_follows_def change_layout_def scene_output_layout_handle_layout_change_def split: option.splits)
qed

lemma row_change:
  assumes "stage_row {} st front base los" "f (front @ los) = front @ place_auto base 0 los'" "list_all window_monitor los'"
    and "distinct (map lo_output (front @ los'))" "fst ` set (st_scene_outputs st) \<subseteq> lo_output ` set (front @ los')"
    and "lo_output ` set los' \<subseteq> fst ` set (st_scene_outputs st) \<union> late"
  shows "stage_row late (change_layout f st) front base (place_auto base 0 los')"
proof -
  have "st_layout st = front @ los" "row_head front base" using assms(1) by (simp_all add: stage_row_def)
  moreover have "fst ` set (st_scene_outputs st) \<subseteq> lo_output ` set (f (front @ los))"
    using assms(5) by (simp add: assms(2) image_Un)
  ultimately show ?thesis
    using assms(1,3,4,6) side_by_side_placed[OF assms(3)] placed_windows[OF assms(3)] change_follows[of st f]
    by (simp add: stage_row_def assms(2))
qed

lemma row_scenes: "stage_row {} st front base los \<Longrightarrow> fst ` set (st_scene_outputs st) \<subseteq> lo_output ` set (front @ los)"
proof
  fix out assume row: "stage_row {} st front base los" and "out \<in> fst ` set (st_scene_outputs st)"
  then obtain pos where "layout_place (front @ los) out = Some pos"
    by (fastforce simp: stage_row_def scene_follows_def)
  then show "out \<in> lo_output ` set (front @ los)" by (rule layout_place_in)
qed

text \<open>A new mode of a window's output.\<close>

lemma resize_row:
  assumes "stage_row {} st front base los" "0 < width" "0 < height" "st_bootstrap st \<noteq> Some out"
  defines "los' \<equiv> map (\<lambda>lo. if lo_output lo = out then lo\<lparr>lo_width := width, lo_height := height\<rparr> else lo) los"
  shows "stage_row {} (change_layout (handle_output_commit out width height) st) front base (place_auto base 0 los')"
proof (rule row_change[OF assms(1)])
  have r: "row_head front base" "list_all window_monitor los" "distinct (map lo_output (front @ los))"
      "lo_output ` set los \<subseteq> fst ` set (st_scene_outputs st)"
      "st_bootstrap st = (case front of [] \<Rightarrow> None | boot # _ \<Rightarrow> Some (lo_output boot))"
    using assms(1) by (simp_all only: stage_row_def Un_empty_right)
  have ids: "map lo_output los' = map lo_output los" by (simp add: los'_def)
  show w: "list_all window_monitor los'" using r(2) assms(2,3) by (auto simp: los'_def list_all_iff window_monitor_def)
  have "map (\<lambda>lo. if lo_output lo = out then lo\<lparr>lo_width := width, lo_height := height\<rparr> else lo) front = front"
    using r(1,5) assms(4) by (auto simp: row_head_def)
  then show "handle_output_commit out width height (front @ los) = front @ place_auto base 0 los'"
    using reconfigure_row[OF r(1) w] by (simp add: handle_output_commit_def los'_def)
  show "distinct (map lo_output (front @ los'))" using r(3) by (simp only: map_append ids)
  have "lo_output ` set los' = lo_output ` set los" using arg_cong[OF ids, of set] by simp
  then show "lo_output ` set los' \<subseteq> fst ` set (st_scene_outputs st) \<union> {}"
    "fst ` set (st_scene_outputs st) \<subseteq> lo_output ` set (front @ los')"
    using r(4) row_scenes[OF assms(1)] by (simp_all add: image_Un)
qed

text \<open>A window's output goes away.\<close>

lemma destroy_row:
  assumes "stage_row {} st front base los" "st_bootstrap st \<noteq> Some out"
  defines "los' \<equiv> filter (\<lambda>lo. lo_output lo \<noteq> out) los"
  shows "stage_row {} (destroy_window_output out st) front base (place_auto base 0 los')"
proof -
  let ?st = "st\<lparr>st_scene_outputs := filter (\<lambda>so. fst so \<noteq> out) (st_scene_outputs st)\<rparr>"
  have r: "row_head front base" "list_all window_monitor los" "distinct (map lo_output (front @ los))"
      "lo_output ` set los \<subseteq> fst ` set (st_scene_outputs st)" "st_layout st = front @ los" "side_by_side base los"
      "st_bootstrap st = (case front of [] \<Rightarrow> None | boot # _ \<Rightarrow> Some (lo_output boot))" "scene_follows st"
      "distinct (map fst (st_scene_outputs st))"
    using assms(1) by (simp_all only: stage_row_def Un_empty_right)
  have w: "list_all window_monitor los'" using r(2) by (auto simp: los'_def list_all_iff)
  have "filter (\<lambda>lo. lo_output lo \<noteq> out) front = front" using r(1,7) assms(2) by (auto simp: row_head_def)
  then have f: "addon_destroy out (front @ los) = front @ place_auto base 0 los'"
    using reconfigure_row[OF r(1) w] by (simp add: addon_destroy_def los'_def)
  have ids: "lo_output ` set los' = lo_output ` set los - {out}" by (auto simp: los'_def)
  have front: "out \<notin> lo_output ` set front" using r(1,7) assms(2) by (auto simp: row_head_def)
  have "stage_row {out} (change_layout (addon_destroy out) ?st) front base (place_auto base 0 los')"
  proof -
    have d: "distinct (map fst (st_scene_outputs ?st))" using r(9) by (simp add: distinct_map_filter)
    have dl: "distinct (map lo_output (front @ los'))"
      using r(3) by (auto simp: los'_def distinct_map_filter)
    have so: "fst ` set (st_scene_outputs ?st) = fst ` set (st_scene_outputs st) - {out}" by auto
    have "fst ` set (st_scene_outputs ?st) \<subseteq> lo_output ` set (front @ los')"
      using row_scenes[OF assms(1)] so ids front by (auto simp: image_Un)
    then have "fst ` set (st_scene_outputs ?st) \<subseteq> lo_output ` set (addon_destroy out (st_layout ?st))"
      by (simp add: r(5) f image_Un)
    then have fol: "scene_follows (change_layout (addon_destroy out) ?st)" by (rule change_follows)
    have sub: "lo_output ` set los' \<subseteq> fst ` set (st_scene_outputs ?st) \<union> {out}" using r(4) ids so by auto
    have same: "st_layout ?st = front @ los" "st_bootstrap ?st = st_bootstrap st" by (simp_all add: r(5))
    show ?thesis
      unfolding stage_row_def
      using r(1) side_by_side_placed[OF w] placed_windows[OF w] r(7) sub dl d fol
      by (simp only: change_layout_fields change_layout_scene_set placed_output_set map_append placed_outputs
          same f simp_thms)
  qed
  then show ?thesis using ids
    by (auto simp: destroy_window_output_def stage_row_def)
qed

text \<open>A new window's output, its scene output comes right after.\<close>

lemma open_row:
  assumes "stage_row {} st front base los" "0 < width" "0 < height" "out \<notin> lo_output ` set (st_layout st)"
  defines "los' \<equiv> los @ [\<lparr>lo_output = out, lo_x = 0, lo_y = 0, lo_auto = True, lo_width = width, lo_height = height\<rparr>]"
  shows "stage_row {out} (change_layout (wlr_output_layout_add_auto out width height) st) front base (place_auto base 0 los')"
proof (rule row_change[OF assms(1)])
  have r: "row_head front base" "list_all window_monitor los" "distinct (map lo_output (front @ los))"
      "lo_output ` set los \<subseteq> fst ` set (st_scene_outputs st)" "st_layout st = front @ los"
    using assms(1) by (simp_all only: stage_row_def Un_empty_right)
  have new: "out \<notin> lo_output ` set (front @ los)" using assms(4) unfolding r(5) .
  show w: "list_all window_monitor los'" using r(2) assms(2,3) by (simp add: los'_def window_monitor_def)
  have "map (\<lambda>lo. if lo_output lo = out then lo\<lparr>lo_x := 0, lo_y := 0, lo_auto := True\<rparr> else lo) (front @ los) = front @ los"
    using new by (auto intro!: map_idI)
  then show "wlr_output_layout_add_auto out width height (front @ los) = front @ place_auto base 0 los'"
    using reconfigure_row[OF r(1) w] new
    by (simp add: wlr_output_layout_add_auto_def output_layout_add_def los'_def image_iff Let_def)
  show "distinct (map lo_output (front @ los'))" using r(3) new by (auto simp: los'_def)
  show "lo_output ` set los' \<subseteq> fst ` set (st_scene_outputs st) \<union> {out}" using r(4) by (auto simp: los'_def)
  show "fst ` set (st_scene_outputs st) \<subseteq> lo_output ` set (front @ los')"
    using row_scenes[OF assms(1)] by (auto simp: los'_def)
qed

lemma scene_output_row:
  assumes "stage_row {out} st front base los" "out \<in> lo_output ` set los"
  shows "stage_row {} (wlr_scene_output_layout_add_output out st) front base los"
proof (cases "out \<in> fst ` set (st_scene_outputs st)")
  case True
  then show ?thesis using assms(1)
    by (simp add: wlr_scene_output_layout_add_output_def stage_row_def insert_absorb)
next
  case False
  have lay: "st_layout st = front @ los" using assms(1) by (simp add: stage_row_def)
  then have "out \<in> lo_output ` set (st_layout st)" using assms(2) by auto
  then obtain pos where "layout_place (st_layout st) out = Some pos" using layout_place_some by blast
  then have pos: "layout_place (front @ los) out = Some pos" by (simp add: lay)
  show ?thesis using assms(1) False
    by (simp add: wlr_scene_output_layout_add_output_def stage_row_def scene_follows_def lay pos)
qed

lemma place_tree_fields [simp]:
  "st_layout (place_tree out st) = st_layout st" "st_scene_outputs (place_tree out st) = st_scene_outputs st"
  "st_bootstrap (place_tree out st) = st_bootstrap st"
  by (simp_all add: place_tree_def split: option.split)

lemma place_tree_row [simp]: "stage_row late (place_tree out st) front base los = stage_row late st front base los"
  by (simp add: stage_row_def scene_follows_def)

lemma stage_step_ok: "stage_step st st' \<Longrightarrow> stage_ok st \<Longrightarrow> stage_ok st'"
proof (induction rule: stage_step.induct)
  case (stage_open width height out st)
  then obtain front base los where row: "stage_row {} st front base los" by (auto simp: stage_ok_def)
  have "stage_row {} (add_window_output out width height st) front base
      (place_auto base 0 (los @ [\<lparr>lo_output = out, lo_x = 0, lo_y = 0, lo_auto = True, lo_width = width, lo_height = height\<rparr>]))"
    unfolding add_window_output_def place_tree_row by (intro scene_output_row open_row[OF row stage_open(1-3)]) simp
  then show ?case unfolding stage_ok_def by blast
next
  case (stage_fit width height st out)
  then show ?case using resize_row unfolding stage_ok_def fit_window_output_def place_tree_row by blast
next
  case (stage_host width height st out)
  then show ?case using resize_row unfolding stage_ok_def host_sizes_output_def by blast
next
  case (stage_close st out)
  then show ?case using destroy_row unfolding stage_ok_def by blast
qed

lemma boot_ok: "stage_ok (snd (create_bootstrap_output env empty_stage))"
proof -
  have empty: "stage_row {} empty_stage [] 0 []"
    by (simp add: stage_row_def empty_stage_def row_head_def scene_follows_def)
  have boot: "stage_ok (snd (create_bootstrap_output env empty_stage))"
    if "be_backend env" "be_output env = Some out" "be_commit_ok env" "be_layout_ok env" for out
  proof -
    obtain bw bh where size: "bootstrap_size env = (bw, bh)" by fastforce
    then have pos: "0 < bw" by (auto simp: bootstrap_size_def split: option.splits prod.splits if_splits)
    let ?b = "\<lparr>lo_output = out, lo_x = - bw - 256, lo_y = 0, lo_auto = False, lo_width = bw, lo_height = bh\<rparr>"
    have "stage_row {} (snd (create_bootstrap_output env empty_stage)) [?b] (- 256) []"
      using that pos
      by (simp add: create_bootstrap_output_def empty_stage_def size stage_row_def row_head_def scene_follows_def
          change_layout_def scene_output_layout_handle_layout_change_def wlr_output_layout_add_def output_layout_add_def
          output_layout_reconfigure_def output_layout_output_get_box_def INT_MIN_def Let_def layout_place_def
          wlr_scene_output_layout_add_output_def)
    then show ?thesis unfolding stage_ok_def by blast
  qed
  show ?thesis
    using empty boot
    by (cases "be_backend env"; cases "be_output env"; cases "be_commit_ok env"; cases "be_layout_ok env")
      (auto simp: create_bootstrap_output_def stage_ok_def empty_stage_def Let_def split: prod.split)
qed

lemma stage_reach_ok: "stage_reach env st \<Longrightarrow> stage_ok st"
  by (induction rule: rtranclp_induct) (auto intro: boot_ok stage_step_ok)

section \<open>Monitors and what they show\<close>

abbreviation widths :: "layout_output list \<Rightarrow> int" where
  "widths los \<equiv> sum_list (map lo_width los)"

lemma place_auto_append:
  "list_all window_monitor xs \<Longrightarrow> place_auto x y (xs @ ys) = place_auto x y xs @ place_auto (x + widths xs) y ys"
  by (induction xs arbitrary: x) (auto simp: window_monitor_def algebra_simps)

lemma side_by_side_append:
  "side_by_side x (xs @ ys) \<longleftrightarrow> side_by_side x xs \<and> side_by_side (x + widths xs) ys"
  by (induction xs arbitrary: x) (auto simp: algebra_simps)

lemma side_by_side_start: "side_by_side x los \<Longrightarrow> list_all window_monitor los \<Longrightarrow> lo \<in> set los \<Longrightarrow> x \<le> lo_x lo \<and> lo_y lo = 0"
  by (induction los arbitrary: x) (fastforce simp: window_monitor_def)+

lemma side_by_side_apart:
  "side_by_side x los \<Longrightarrow> list_all window_monitor los \<Longrightarrow> i < j \<Longrightarrow> j < length los \<Longrightarrow>
    lo_x (los ! i) + lo_width (los ! i) \<le> lo_x (los ! j)"
proof (induction los arbitrary: x i j)
  case (Cons lo los)
  show ?case
  proof (cases i)
    case 0
    then have "los ! (j - 1) \<in> set los" using Cons.prems(3,4) by (intro nth_mem) simp
    with side_by_side_start[of "x + lo_width lo" los "los ! (j - 1)"] Cons.prems 0 show ?thesis
      by (simp add: nth_Cons')
  next
    case (Suc k)
    then show ?thesis using Cons.IH[of "x + lo_width lo" k "j - 1"] Cons.prems by (cases j) auto
  qed
qed simp

text \<open>
  C26 (safety). However windows come, change their size and go, no two monitors of the layout overlap, and none
  of them, the last and an only one included, shows the place where the scenes of the menus are
  parked, for scenes up to 100000 pixels high, the distance of that place above the monitors.
\<close>

theorem monitors_never_overlap:
  assumes "stage_reach env st" "j < length (st_layout st)" "height \<le> 100000"
  shows "(\<forall>i < j. \<not> wlr_box_intersects (Some (output_layout_output_get_box (st_layout st ! i)))
      (Some (output_layout_output_get_box (st_layout st ! j))))
    \<and> \<not> wlr_box_intersects (Some (output_layout_output_get_box (st_layout st ! j)))
      (Some \<lparr>box_x = WLX_POPUP_SCENE_PARK_X, box_y = WLX_POPUP_SCENE_PARK_Y, box_width = width, box_height = height\<rparr>)"
proof -
  obtain front base los where row: "st_layout st = front @ los" "row_head front base" "side_by_side base los"
      "list_all window_monitor los"
    using stage_reach_ok[OF assms(1)] by (auto simp: stage_ok_def stage_row_def)
  have y: "lo_y lo = 0" if "lo \<in> set (st_layout st)" for lo
    using that row(2) side_by_side_start[OF row(3,4)] by (auto simp: row(1) row_head_def)
  have "lo_x (st_layout st ! i) + lo_width (st_layout st ! i) \<le> lo_x (st_layout st ! j)" if ij: "i < j" for i
  proof (cases front)
    case Nil
    then show ?thesis using side_by_side_apart[OF row(3,4) ij] assms(2) row(1) by simp
  next
    case (Cons boot rest)
    then have b: "front = [boot]" "lo_x boot + lo_width boot = base" using row(2) by (auto simp: row_head_def)
    show ?thesis
    proof (cases i)
      case 0
      then have "los ! (j - 1) \<in> set los" using ij assms(2) by (intro nth_mem) (simp add: row(1) b(1))
      from side_by_side_start[OF row(3,4) this] 0 ij show ?thesis by (simp add: row(1) b nth_Cons')
    next
      case (Suc k)
      then show ?thesis using side_by_side_apart[OF row(3,4), of k "j - 1"] ij assms(2)
        by (cases j) (auto simp: row(1) b(1))
    qed
  qed
  then show ?thesis using assms(2,3) y[of "st_layout st ! j"]
    by (fastforce simp: wlr_box_intersects_def output_layout_output_get_box_def WLX_POPUP_SCENE_PARK_Y_def)
qed

text \<open>A window's monitor shows the scene from its place in the layout on.\<close>

lemma shown_at_place:
  assumes "stage_row {} st front base los" "lo \<in> set los"
  shows "shown_at st (lo_output lo) = Some (lo_x lo, lo_y lo)"
proof -
  have r: "st_layout st = front @ los" "lo_output ` set los \<subseteq> fst ` set (st_scene_outputs st)"
      "distinct (map lo_output (front @ los))" "scene_follows st" "distinct (map fst (st_scene_outputs st))"
    using assms(1) by (simp_all only: stage_row_def Un_empty_right)
  obtain pos where pos: "(lo_output lo, pos) \<in> set (st_scene_outputs st)" using r(2) assms(2) by fastforce
  then have "layout_place (front @ los) (lo_output lo) = Some pos" using r(1,4) by (auto simp: scene_follows_def)
  moreover have "layout_place (front @ los) (lo_output lo) = Some (lo_x lo, lo_y lo)"
  proof -
    have "layout_place ms (lo_output lo) = Some (lo_x lo, lo_y lo)" if "lo \<in> set ms" "distinct (map lo_output ms)" for ms
      using that by (induction ms) (auto simp: layout_place_def image_iff)
    then show ?thesis using assms(2) r(3) by (metis UnCI set_append)
  qed
  ultimately show ?thesis using pos r(5) by (simp add: shown_at_def)
qed

lemma split_row:
  assumes "stage_row {} st front base los" "st_layout st = xs @ a # ys @ b # zs" "lo_auto a"
  shows "\<exists>xs'. los = xs' @ a # ys @ b # zs"
proof -
  have "front = [] \<or> (\<exists>boot. front = [boot] \<and> \<not> lo_auto boot)" "st_layout st = front @ los"
    using assms(1) by (auto simp: stage_row_def row_head_def)
  then show ?thesis using assms(2,3) by (cases xs) auto
qed

text \<open>The places of two windows' monitors, before and after a change of the first.\<close>

lemma place_behind:
  assumes "list_all window_monitor (xs @ b # zs)"
  shows "\<exists>b'\<in>set (place_auto base 0 (xs @ b # zs)). lo_output b' = lo_output b \<and> lo_x b' = base + widths xs \<and> lo_y b' = 0"
  using assms by (auto simp: place_auto_append window_monitor_def)

lemma shown_behind:
  assumes "stage_row {} st front base (place_auto base 0 (xs @ b # zs))" "list_all window_monitor (xs @ b # zs)"
  shows "shown_at st (lo_output b) = Some (base + widths xs, 0)"
  using place_behind[OF assms(2), of base] shown_at_place[OF assms(1)] by metis

text \<open>
  C40 (error). The scene of a window is put where its monitor is when the window opens and when it is fitted. When a window
  that was opened before it closes, or is resized by the host, its monitor moves and its scene stays: what
  the X window shows is displaced by the difference of the widths.
\<close>

theorem relayout_displaces_content:
  assumes "stage_reach env st" "st_layout st = xs @ a # ys @ b # zs" "lo_auto a" "lo_output a = aid" "lo_output b = bid"
    and "shown_at st bid = Some (x, y)" "st_trees st bid = (x, y)" "0 < width" "0 < height"
  shows "shown_at (destroy_window_output aid st) bid = Some (x - lo_width a, y)
    \<and> st_trees (destroy_window_output aid st) bid = (x, y)
    \<and> shown_at (host_sizes_output aid width height st) bid = Some (x + (width - lo_width a), y)
    \<and> st_trees (host_sizes_output aid width height st) bid = (x, y)"
proof -
  obtain front base los where row: "stage_row {} st front base los" using stage_reach_ok[OF assms(1)] by (auto simp: stage_ok_def)
  obtain xs' where los: "los = xs' @ a # ys @ b # zs" using split_row[OF row assms(2,3)] by blast
  have r: "st_layout st = front @ los" "row_head front base" "side_by_side base los" "list_all window_monitor los"
      "st_bootstrap st = (case front of [] \<Rightarrow> None | boot # _ \<Rightarrow> Some (lo_output boot))" "distinct (map lo_output (front @ los))"
    using row by (simp_all only: stage_row_def Un_empty_right)
  have boot: "st_bootstrap st \<noteq> Some aid" using r(2,5,6) assms(4) by (auto simp: row_head_def los)
  have ids: "lo_output lo \<noteq> aid" if "lo \<in> set xs' \<union> set ys \<union> set (b # zs)" for lo
    using r(6) that assms(4) by (auto simp: los image_iff)
  have "b \<in> set los" by (simp add: los)
  from shown_at_place[OF row this] have b: "x = lo_x b" "y = lo_y b" using assms(5,6) by simp_all
  have bx: "x = base + widths xs' + lo_width a + widths ys" "y = 0"
    using r(3) b by (simp_all add: los side_by_side_append algebra_simps)
  let ?closed = "filter (\<lambda>lo. lo_output lo \<noteq> aid) los"
  have closed: "?closed = (xs' @ ys) @ b # zs" using ids assms(4) by (auto simp: los intro!: filter_True)
  have "stage_row {} (destroy_window_output aid st) front base (place_auto base 0 ((xs' @ ys) @ b # zs))"
    using destroy_row[OF row boot] by (simp only: closed)
  moreover have "list_all window_monitor ((xs' @ ys) @ b # zs)" using r(4) by (simp add: los)
  ultimately have one: "shown_at (destroy_window_output aid st) bid = Some (base + widths (xs' @ ys), 0)"
    using shown_behind assms(5) by blast
  let ?a = "a\<lparr>lo_width := width, lo_height := height\<rparr>"
  let ?sized = "map (\<lambda>lo. if lo_output lo = aid then lo\<lparr>lo_width := width, lo_height := height\<rparr> else lo) los"
  have sized: "?sized = (xs' @ ?a # ys) @ b # zs" using ids assms(4) by (auto simp: los intro!: map_idI)
  have "stage_row {} (host_sizes_output aid width height st) front base (place_auto base 0 ((xs' @ ?a # ys) @ b # zs))"
    using resize_row[OF row assms(8,9) boot] by (simp only: sized host_sizes_output_def)
  moreover have "list_all window_monitor ((xs' @ ?a # ys) @ b # zs)" using r(4) assms(8,9) by (auto simp: los window_monitor_def)
  ultimately have two: "shown_at (host_sizes_output aid width height st) bid = Some (base + widths (xs' @ ?a # ys), 0)"
    using shown_behind assms(5) by blast
  show ?thesis
    using one two assms(7) by (simp add: bx destroy_window_output_def host_sizes_output_def)
qed

text \<open>A fit and an opening put the scene where the monitor is.\<close>

lemma fit_shows_content:
  assumes "stage_ok st" "lo \<in> set (st_layout st)" "lo_auto lo" "0 < width" "0 < height"
  shows "shown_at (fit_window_output (lo_output lo) width height st) (lo_output lo) =
    Some (st_trees (fit_window_output (lo_output lo) width height st) (lo_output lo))"
proof -
  let ?out = "lo_output lo"
  obtain front base los where row: "stage_row {} st front base los" using assms(1) by (auto simp: stage_ok_def)
  have r: "st_layout st = front @ los" "row_head front base" "distinct (map lo_output (front @ los))"
      "st_bootstrap st = (case front of [] \<Rightarrow> None | boot # _ \<Rightarrow> Some (lo_output boot))"
    using row by (simp_all only: stage_row_def Un_empty_right)
  have lo: "lo \<in> set los" using assms(2,3) r(1,2) by (auto simp: row_head_def)
  then have boot: "st_bootstrap st \<noteq> Some ?out" using r(2-4) by (auto simp: row_head_def image_iff)
  let ?st = "change_layout (handle_output_commit ?out width height) st"
  let ?los = "place_auto base 0 (map (\<lambda>l. if lo_output l = ?out then l\<lparr>lo_width := width, lo_height := height\<rparr> else l) los)"
  have row': "stage_row {} ?st front base ?los" by (rule resize_row[OF row assms(4,5) boot])
  have "map lo_output ?los = map lo_output los" by simp
  then have "set (map lo_output ?los) = set (map lo_output los)" by (rule arg_cong)
  then have "lo_output ` set ?los = lo_output ` set los" by (simp only: set_map)
  then have "?out \<in> lo_output ` set ?los" using imageI[OF lo, of lo_output] by (simp only:)
  then obtain lo' where lo': "?out = lo_output lo'" "lo' \<in> set ?los" by (rule imageE)
  obtain pos where pos: "shown_at ?st ?out = Some pos" using shown_at_place[OF row' lo'(2)] unfolding lo'(1) by blast
  then have "(?out, pos) \<in> set (st_scene_outputs ?st)" unfolding shown_at_def by (rule map_of_SomeD)
  moreover have "scene_follows ?st" using row' by (simp only: stage_row_def)
  ultimately have "layout_place (st_layout ?st) ?out = Some pos" unfolding scene_follows_def by blast
  then show ?thesis using pos by (simp add: fit_window_output_def place_tree_def shown_at_def)
qed

end
