(* ===== verification/Scroll.thy ===== *)
theory Scroll
  imports Prelude "HOL-Library.Signed_Division"
begin

text \<open>
  Scrolling: from the wheel buttons of the X server, which arrive as XInput events
  (\<open>send_axis_event\<close>, \<open>src/subprojects/wlroots/backend/x11/input_device.c\<close>) or, while a menu holds
  the pointer, as core events (\<open>handle_core_pointer_during_grab\<close>, \<open>src/x11.c\<close>), over \<open>server_cursor_axis\<close> and
  \<open>server_cursor_frame\<close> (\<open>src/input.c\<close>) to the messages a client gets
  (\<open>types/seat/wlr_seat_pointer.c\<close>), which depend on the version of each of its pointer objects.
\<close>

section \<open>State\<close>

datatype axis_source = SourceWheel | SourceFinger | SourceContinuous | SourceWheelTilt
datatype orientation = VerticalScroll | HorizontalScroll

text \<open>\<open>value120\<close> of \<open>struct wlr_seat_client\<close> for one orientation.\<close>

record value120 =
  acc_discrete :: int
  last_discrete :: int
  acc_axis :: rat

datatype axis_message =
    MsgSource axis_source
  | MsgRelativeDirection orientation bool
  | MsgValue120 orientation int
  | MsgDiscrete orientation int
  | MsgAxis orientation rat
  | MsgStop orientation
  | MsgFrame
  | MsgLeave nat
  | MsgEnter nat

text \<open>
  The fields of the seat that scrolling uses, and whether the compositor holds the X pointer grab for
  a menu. Surfaces and clients are numbers. A client's pointer objects are named by number and
  version, newest first; \<open>ax_log\<close> is the trace of the messages, with axis values as they are before
  \<open>wl_fixed_from_double\<close> puts them on the wire.
\<close>

record scroll_state =
  ax_surface :: "nat option" \<comment> \<open>\<open>focused_surface\<close>\<close>
  ax_client :: "nat option" \<comment> \<open>\<open>focused_client\<close>\<close>
  ax_core_grab :: bool \<comment> \<open>\<open>popup_pointer_grabbed\<close>\<close>
  ax_sent_source :: bool
  ax_cached_source :: axis_source
  ax_acc :: "nat \<Rightarrow> orientation \<Rightarrow> value120"
  ax_pointers :: "nat \<Rightarrow> (nat \<times> nat) list"
  ax_log :: "(nat \<times> axis_message) list"

definition zero120 :: value120 where
  "zero120 = \<lparr>acc_discrete = 0, last_discrete = 0, acc_axis = 0\<rparr>"

text \<open>The versions of \<open>wl_pointer\<close> that brought the messages.\<close>

definition AXIS_SINCE :: nat where "AXIS_SINCE = 5" \<comment> \<open>source, stop, discrete and frame\<close>
definition VALUE120_SINCE :: nat where "VALUE120_SINCE = 8"
definition RELATIVE_DIRECTION_SINCE :: nat where "RELATIVE_DIRECTION_SINCE = 9"
definition WLR_POINTER_AXIS_DISCRETE_STEP :: int where "WLR_POINTER_AXIS_DISCRETE_STEP = 120"

lemmas axis_constants = AXIS_SINCE_def VALUE120_SINCE_def RELATIVE_DIRECTION_SINCE_def WLR_POINTER_AXIS_DISCRETE_STEP_def

section \<open>Accumulators\<close>

definition should_reset_value120_accumulators :: "int \<Rightarrow> int \<Rightarrow> bool" where
  "should_reset_value120_accumulators current prev \<longleftrightarrow>
     prev = 0 \<or> current < 0 \<and> 0 < prev \<or> 0 < current \<and> prev < 0"

text \<open>The accumulators, the low resolution value and the low resolution steps.\<close>

definition update_value120_accumulators :: "rat \<Rightarrow> int \<Rightarrow> value120 \<Rightarrow> value120 \<times> rat \<times> int" where
  "update_value120_accumulators value value_discrete v =
     (if value_discrete = 0 then (v, 0, 0)
      else
        let v1 = (if should_reset_value120_accumulators value_discrete (last_discrete v)
                  then v\<lparr>acc_discrete := 0, acc_axis := 0\<rparr> else v);
            v2 = v1\<lparr>acc_discrete := acc_discrete v1 + value_discrete, last_discrete := value_discrete,
                    acc_axis := fl64 (acc_axis v1 + value)\<rparr>;
            low = acc_discrete v2 sdiv WLR_POINTER_AXIS_DISCRETE_STEP
        in if low = 0 then (v2, 0, 0)
           else (v2\<lparr>acc_discrete := acc_discrete v2 - low * WLR_POINTER_AXIS_DISCRETE_STEP, acc_axis := 0\<rparr>,
                 acc_axis v2, low))"

section \<open>Sending\<close>

text \<open>What one pointer object gets; \<open>inverted\<close> is the relative direction.\<close>

definition axis_messages ::
  "orientation \<Rightarrow> rat \<Rightarrow> int \<Rightarrow> axis_source \<Rightarrow> bool \<Rightarrow> bool \<Rightarrow> rat \<Rightarrow> int \<Rightarrow> nat \<Rightarrow> axis_message list" where
  "axis_messages ori value value_discrete source inverted send_source low_value low_discrete version =
     (if version < VALUE120_SINCE \<and> value_discrete \<noteq> 0 \<and> low_discrete = 0 then []
      else (if send_source \<and> AXIS_SINCE \<le> version then [MsgSource source] else []) @
        (if value \<noteq> 0
         then (if RELATIVE_DIRECTION_SINCE \<le> version then [MsgRelativeDirection ori inverted] else []) @
           (if value_discrete \<noteq> 0
            then if VALUE120_SINCE \<le> version then [MsgValue120 ori value_discrete, MsgAxis ori value]
              else (if AXIS_SINCE \<le> version then [MsgDiscrete ori low_discrete] else []) @ [MsgAxis ori low_value]
            else [MsgAxis ori value])
         else if AXIS_SINCE \<le> version then [MsgStop ori] else []))"

definition send_to_pointers ::
  "(nat \<Rightarrow> axis_message list) \<Rightarrow> nat \<Rightarrow> scroll_state \<Rightarrow> scroll_state" where
  "send_to_pointers msgs c s =
     s\<lparr>ax_log := ax_log s @ concat (map (\<lambda>(p, version). map (Pair p) (msgs version)) (ax_pointers s c))\<rparr>"

text \<open>\<open>None\<close> is the assertion that one frame has one source.\<close>

definition wlr_seat_pointer_send_axis ::
  "orientation \<Rightarrow> rat \<Rightarrow> int \<Rightarrow> axis_source \<Rightarrow> bool \<Rightarrow> scroll_state \<Rightarrow> scroll_state option" where
  "wlr_seat_pointer_send_axis ori value value_discrete source inverted s =
     (case ax_client s of
        None \<Rightarrow> Some s
      | Some c \<Rightarrow>
          if ax_sent_source s \<and> ax_cached_source s \<noteq> source then None
          else
            let send_source = (\<not> ax_sent_source s);
                s1 = s\<lparr>ax_sent_source := True, ax_cached_source := source\<rparr>
            in case update_value120_accumulators value value_discrete (ax_acc s1 c ori) of
                (v, low_value, low_discrete) \<Rightarrow>
                  Some (send_to_pointers
                    (axis_messages ori value value_discrete source inverted send_source low_value low_discrete) c
                    (s1\<lparr>ax_acc := (ax_acc s1)(c := (ax_acc s1 c)(ori := v))\<rparr>)))"

definition wlr_seat_pointer_send_axis_frame :: "scroll_state \<Rightarrow> scroll_state" where
  "wlr_seat_pointer_send_axis_frame s =
     (case ax_client s of
        None \<Rightarrow> s
      | Some c \<Rightarrow> send_to_pointers (\<lambda>version. if AXIS_SINCE \<le> version then [MsgFrame] else []) c
          (s\<lparr>ax_sent_source := False\<rparr>))"

text \<open>
  Both grabs, the default one and that of a menu, hand the event on. The X server reports a click of
  the wheel as a press of button 4 or 5.
\<close>

definition server_cursor_axis ::
  "orientation \<Rightarrow> rat \<Rightarrow> int \<Rightarrow> axis_source \<Rightarrow> bool \<Rightarrow> scroll_state \<Rightarrow> scroll_state option" where
  "server_cursor_axis ori value value_discrete source inverted s =
     wlr_seat_pointer_send_axis ori value value_discrete source inverted s"

definition send_axis_event :: "int \<Rightarrow> scroll_state \<Rightarrow> scroll_state option" where
  "send_axis_event delta s =
     map_option wlr_seat_pointer_send_axis_frame
       (server_cursor_axis VerticalScroll (of_int (delta * 15)) (delta * WLR_POINTER_AXIS_DISCRETE_STEP)
          SourceWheel False s)"

text \<open>
  Moving the pointer focus: each pointer object of the client that is left and of the one that is
  entered gets a frame of its own (\<open>pointer_send_frame\<close>). \<open>client\<close> is the seat's record of the
  surface's client, which has none without a seat object.
\<close>

definition seat_client_send_pointer_leave_raw :: "nat \<Rightarrow> nat \<Rightarrow> scroll_state \<Rightarrow> scroll_state" where
  "seat_client_send_pointer_leave_raw surface c s =
     send_to_pointers (\<lambda>version. MsgLeave surface # (if AXIS_SINCE \<le> version then [MsgFrame] else [])) c s"

definition seat_client_send_enter :: "nat \<Rightarrow> nat \<Rightarrow> scroll_state \<Rightarrow> scroll_state" where
  "seat_client_send_enter surface c s =
     send_to_pointers (\<lambda>version. MsgEnter surface # (if AXIS_SINCE \<le> version then [MsgFrame] else [])) c s"

definition seat_pointer_enter :: "nat option \<Rightarrow> nat option \<Rightarrow> scroll_state \<Rightarrow> scroll_state" where
  "seat_pointer_enter surface client s =
     (if ax_surface s = surface then s
      else
        let client = (if surface = None then None else client);
            s1 = (case (ax_client s, ax_surface s) of
                (Some c, Some f) \<Rightarrow> seat_client_send_pointer_leave_raw f c s | _ \<Rightarrow> s);
            s2 = (case (client, surface) of
                (Some c, Some f) \<Rightarrow> seat_client_send_enter f c s1 | _ \<Rightarrow> s1)
        in s2\<lparr>ax_client := client, ax_surface := surface\<rparr>)"

text \<open>The branch of \<open>handle_core_pointer_during_grab\<close> for buttons above the third: nothing is sent.\<close>

definition core_wheel_during_grab :: "scroll_state \<Rightarrow> scroll_state" where
  "core_wheel_during_grab s = s"

section \<open>The accumulators keep what is not sent\<close>

text \<open>Where the direction does not change, what was scrolled is what was sent in whole steps and what
  is left, less than a step; the reset at a change of direction drops the rest.\<close>

lemma accumulators_conserve:
  assumes "update_value120_accumulators value d v = (v', low_value, low)" "d \<noteq> 0"
  defines "rest \<equiv> if should_reset_value120_accumulators d (last_discrete v) then 0 else acc_discrete v"
  shows "120 * low + acc_discrete v' = rest + d \<and> \<bar>acc_discrete v'\<bar> < 120"
proof -
  have q: "120 * (x sdiv 120) + (x smod 120) = x" for x :: int by (simp add: mult_sdiv_smod_eq)
  have m: "\<bar>x smod 120\<bar> < 120" for x :: int
    using smod_int_range[of 120 x] by (auto simp: abs_less_iff)
  show ?thesis
    using assms(1,2) q[of "rest + d"] m[of "rest + d"]
    by (auto simp: update_value120_accumulators_def rest_def axis_constants Let_def split: if_splits)
qed

section \<open>Clicks of the wheel\<close>

text \<open>
  What happens: a surface, with its client, is entered, the X pointer grab for a menu begins or ends,
  the wheel is clicked down or up, or another pointer event ends with a frame. While the grab lasts
  the X server hands the pointer's events to the connection that holds it, as core events.
\<close>

datatype scroll_event =
    ScEnter "nat option" "nat option"
  | ScGrab bool
  | ScClick bool
  | ScFrame

fun scroll_step :: "scroll_event \<Rightarrow> scroll_state \<Rightarrow> scroll_state option" where
  "scroll_step (ScEnter surface client) s = Some (seat_pointer_enter surface client s)"
| "scroll_step (ScGrab on) s = Some (s\<lparr>ax_core_grab := on\<rparr>)"
| "scroll_step (ScClick down) s =
     (if ax_core_grab s then Some (core_wheel_during_grab s)
      else send_axis_event (if down then 1 else - 1) s)"
| "scroll_step ScFrame s = Some (wlr_seat_pointer_send_axis_frame s)"

fun scroll_run :: "scroll_event list \<Rightarrow> scroll_state \<Rightarrow> scroll_state option" where
  "scroll_run [] s = Some s"
| "scroll_run (e # es) s = Option.bind (scroll_step e s) (scroll_run es)"

text \<open>What a pointer object should get for a click, by its version: the source, one step in the units
  it understands and the distance of 15 degrees.\<close>

definition click_messages :: "int \<Rightarrow> nat \<Rightarrow> axis_message list" where
  "click_messages delta version =
     (if 5 \<le> version then [MsgSource SourceWheel] else []) @
     (if 9 \<le> version then [MsgRelativeDirection VerticalScroll False] else []) @
     (if 8 \<le> version then [MsgValue120 VerticalScroll (delta * 120)]
      else if 5 \<le> version then [MsgDiscrete VerticalScroll delta] else []) @
     [MsgAxis VerticalScroll (of_int (delta * 15))]"

definition to_pointers :: "(nat \<Rightarrow> axis_message list) \<Rightarrow> (nat \<times> nat) list \<Rightarrow> (nat \<times> axis_message) list" where
  "to_pointers msgs ps = concat (map (\<lambda>(p, version). map (Pair p) (msgs version)) ps)"

definition frame_messages :: "nat \<Rightarrow> axis_message list" where
  "frame_messages version = (if 5 \<le> version then [MsgFrame] else [])"

text \<open>What the client that has the focus should get, event by event. \<open>f\<close> and \<open>c\<close> are the surface
  with the focus and its client, \<open>grab\<close> tells whether a menu holds the X pointer grab.\<close>

definition to_client :: "(nat \<Rightarrow> (nat \<times> nat) list) \<Rightarrow> nat option \<Rightarrow> (nat \<Rightarrow> axis_message list) \<Rightarrow> (nat \<times> axis_message) list" where
  "to_client ps c msgs = (case c of None \<Rightarrow> [] | Some c \<Rightarrow> to_pointers msgs (ps c))"

definition focus_messages :: "(nat \<Rightarrow> axis_message) \<Rightarrow> nat option \<Rightarrow> nat \<Rightarrow> axis_message list" where
  "focus_messages msg f version = (case f of None \<Rightarrow> [] | Some x \<Rightarrow> msg x # frame_messages version)"

fun clicks_log ::
  "(nat \<Rightarrow> (nat \<times> nat) list) \<Rightarrow> nat option \<Rightarrow> nat option \<Rightarrow> bool \<Rightarrow> scroll_event list \<Rightarrow> (nat \<times> axis_message) list" where
  "clicks_log ps f c grab [] = []"
| "clicks_log ps f c grab (ScEnter f' c' # es) =
     (if f' = f then clicks_log ps f c grab es
      else to_client ps c (focus_messages MsgLeave f) @ to_client ps c' (focus_messages MsgEnter f')
        @ clicks_log ps f' (if f' = None then None else c') grab es)"
| "clicks_log ps f c grab (ScGrab on # es) = clicks_log ps f c on es"
| "clicks_log ps f c grab (ScClick down # es) =
     (if grab then []
      else to_client ps c (click_messages (if down then 1 else - 1)) @ to_client ps c frame_messages)
     @ clicks_log ps f c grab es"
| "clicks_log ps f c grab (ScFrame # es) = to_client ps c frame_messages @ clicks_log ps f c grab es"

text \<open>Between events no source is pending and nothing is left in the accumulators.\<close>

definition scroll_idle :: "scroll_state \<Rightarrow> bool" where
  "scroll_idle s \<longleftrightarrow> \<not> ax_sent_source s \<and>
     (\<forall>c ori. acc_discrete (ax_acc s c ori) = 0 \<and> acc_axis (ax_acc s c ori) = 0)"

lemma click_accumulators:
  assumes "acc_discrete v = 0" "acc_axis v = 0" "delta = 1 \<or> delta = - 1"
  shows "\<exists>v'. update_value120_accumulators (of_int (delta * 15)) (delta * 120) v = (v', of_int (delta * 15), delta)
    \<and> acc_discrete v' = 0 \<and> acc_axis v' = 0"
proof -
  have "fl64 (15 :: rat) = 15" using fl64_of_int[of 15] by simp
  moreover have "fl64 (- 15 :: rat) = - 15" using fl64_of_int[of "- 15"] by simp
  ultimately show ?thesis
    using assms by (auto simp: update_value120_accumulators_def axis_constants Let_def signed_divide_int_def)
qed

lemma click_axis_messages:
  assumes "delta = 1 \<or> delta = - 1"
  shows "axis_messages VerticalScroll (of_int (delta * 15)) (delta * 120) SourceWheel False True (of_int (delta * 15)) delta
    = click_messages delta"
  using assms by (intro ext) (auto simp: axis_messages_def click_messages_def axis_constants)

lemma click_step:
  assumes "scroll_idle s" "delta = 1 \<or> delta = - 1"
  shows "\<exists>s'. send_axis_event delta s = Some s' \<and> scroll_idle s' \<and> ax_client s' = ax_client s \<and> ax_surface s' = ax_surface s
    \<and> ax_core_grab s' = ax_core_grab s \<and> ax_pointers s' = ax_pointers s
    \<and> ax_log s' = ax_log s @ to_client (ax_pointers s) (ax_client s) (click_messages delta)
        @ to_client (ax_pointers s) (ax_client s) frame_messages"
proof (cases "ax_client s")
  case None
  with assms(1) show ?thesis
    by (simp add: send_axis_event_def server_cursor_axis_def wlr_seat_pointer_send_axis_def
        wlr_seat_pointer_send_axis_frame_def to_client_def)
next
  case (Some c)
  obtain v where v: "update_value120_accumulators (of_int (delta * 15)) (delta * 120) (ax_acc s c VerticalScroll)
      = (v, of_int (delta * 15), delta)" "acc_discrete v = 0" "acc_axis v = 0"
    using click_accumulators[of "ax_acc s c VerticalScroll" delta] assms by (auto simp: scroll_idle_def)
  have f: "(\<lambda>version. if AXIS_SINCE \<le> version then [MsgFrame] else []) = frame_messages"
    by (simp add: fun_eq_iff frame_messages_def AXIS_SINCE_def)
  show ?thesis
    using assms(1) v(2,3)
    by (auto simp: send_axis_event_def server_cursor_axis_def wlr_seat_pointer_send_axis_def Some scroll_idle_def
        WLR_POINTER_AXIS_DISCRETE_STEP_def v(1)[simplified] click_axis_messages[OF assms(2), simplified] f
        wlr_seat_pointer_send_axis_frame_def send_to_pointers_def to_pointers_def to_client_def Let_def)
qed

text \<open>A move of the focus sends its messages and leaves the accumulators alone. A client without a
  surface has no focus.\<close>

lemma enter_step:
  assumes "scroll_idle s" "ax_surface s = None \<longrightarrow> ax_client s = None"
  and "s' = seat_pointer_enter f c s"
  shows "scroll_idle s' \<and> ax_core_grab s' = ax_core_grab s \<and> ax_pointers s' = ax_pointers s
    \<and> ax_surface s' = f
    \<and> ax_client s' = (if f = ax_surface s then ax_client s else if f = None then None else c)
    \<and> ax_log s' = ax_log s @ (if f = ax_surface s then []
        else to_client (ax_pointers s) (ax_client s) (focus_messages MsgLeave (ax_surface s))
          @ to_client (ax_pointers s) c (focus_messages MsgEnter f))"
proof -
  have empty: "to_pointers (\<lambda>_. []) ps = []" for ps by (induction ps) (simp_all add: to_pointers_def)
  have msgs: "focus_messages m (Some x) = (\<lambda>version. m x # (if AXIS_SINCE \<le> version then [MsgFrame] else []))"
    "focus_messages m None = (\<lambda>_. [])" for m x
    by (simp_all add: fun_eq_iff focus_messages_def frame_messages_def AXIS_SINCE_def)
  show ?thesis
    using assms
    by (auto simp: seat_pointer_enter_def seat_client_send_pointer_leave_raw_def seat_client_send_enter_def
        send_to_pointers_def to_client_def msgs empty scroll_idle_def to_pointers_def Let_def split: option.splits)
qed

text \<open>
  C27 (functional). Every click of the wheel that arrives as an XInput event reaches the client that has
  the focus as exactly one step, in the units of each of its pointer objects and closed by a frame;
  the assertion that a frame has one source never fails. Moves of the focus send a frame to the
  client that is left and to the one that is entered, and a click while a menu holds the X pointer
  grab, which arrives as a core event, reaches nobody.
\<close>

theorem wheel_clicks_reach_client:
  assumes "scroll_idle s" "ax_surface s = None \<longrightarrow> ax_client s = None"
  shows "\<exists>s'. scroll_run es s = Some s' \<and> ax_log s' = ax_log s
    @ clicks_log (ax_pointers s) (ax_surface s) (ax_client s) (ax_core_grab s) es"
  using assms
proof (induction es arbitrary: s)
  case (Cons e es)
  have f: "(\<lambda>version. if AXIS_SINCE \<le> version then [MsgFrame] else []) = frame_messages"
    by (simp add: fun_eq_iff frame_messages_def AXIS_SINCE_def)
  show ?case
  proof (cases e)
    case (ScEnter x c)
    note st = enter_step[OF Cons.prems refl, of x c]
    have "ax_surface (seat_pointer_enter x c s) = None \<longrightarrow> ax_client (seat_pointer_enter x c s) = None"
      using st Cons.prems(2) by auto
    from Cons.IH[OF conjunct1[OF st] this] st show ?thesis by (auto simp: ScEnter)
  next
    case (ScGrab on)
    have "scroll_idle (s\<lparr>ax_core_grab := on\<rparr>)" using Cons.prems(1) by (simp add: scroll_idle_def)
    from Cons.IH[OF this] Cons.prems(2) show ?thesis by (simp add: ScGrab)
  next
    case (ScClick down)
    show ?thesis
    proof (cases "ax_core_grab s")
      case True
      with Cons.IH[OF Cons.prems] show ?thesis by (simp add: ScClick core_wheel_during_grab_def)
    next
      case False
      obtain s1 where s1: "send_axis_event (if down then 1 else - 1) s = Some s1" "scroll_idle s1"
          "ax_client s1 = ax_client s" "ax_surface s1 = ax_surface s" "ax_core_grab s1 = ax_core_grab s"
          "ax_pointers s1 = ax_pointers s"
          "ax_log s1 = ax_log s @ to_client (ax_pointers s) (ax_client s) (click_messages (if down then 1 else - 1))
            @ to_client (ax_pointers s) (ax_client s) frame_messages"
        using click_step[OF Cons.prems(1), of "if down then 1 else - 1"] by (cases down) auto
      from Cons.IH[OF s1(2)] Cons.prems(2) False show ?thesis by (simp add: ScClick s1)
    qed
  next
    case ScFrame
    have "scroll_idle (wlr_seat_pointer_send_axis_frame s)"
      using Cons.prems(1) by (auto simp: scroll_idle_def wlr_seat_pointer_send_axis_frame_def send_to_pointers_def split: option.split)
    from Cons.IH[OF this] Cons.prems(2) show ?thesis
      by (cases "ax_client s")
        (simp_all add: ScFrame wlr_seat_pointer_send_axis_frame_def send_to_pointers_def f to_pointers_def to_client_def)
  qed
qed simp

end
