(* ===== verification/X11_Input.thy ===== *)
theory X11_Input
  imports Present_Window
begin

text \<open>
  Input from the X server (\<open>src/subprojects/wlroots/backend/x11/input_device.c\<close>): XInput events become
  events of wlroots' keyboard, of the pointer and touch device of an output. Windows of menus are not
  outputs; their events go to an output that the backend picks. An output is named by its window.
\<close>

section \<open>State\<close>

text \<open>The fields of \<open>struct wlr_x11_output\<close> that input uses; a touchpoint is \<open>x11_id\<close> and
  \<open>wayland_id\<close>, newest first.\<close>

record input_output =
  io_win :: xid
  io_width :: int
  io_height :: int
  io_touches :: "(32 word \<times> int) list"

datatype device_event =
    KeyboardModifiers "32 word" "32 word" "32 word" "32 word"
  | KeyboardKey "32 word" bool "32 word"
  | PointerButton xid "32 word" bool "32 word"
  | PointerAxis xid int "32 word"
  | PointerAbsolute xid rat rat "32 word"
  | PointerRelative xid rat rat "32 word"
  | PointerFrame xid
  | TouchDown xid rat rat int "32 word"
  | TouchMotion xid rat rat int "32 word"
  | TouchUp xid int "32 word"
  | TouchFrame xid
  | DeviceGone xid \<comment> \<open>the output and its devices are destroyed\<close>

record x11_input =
  xi_outputs :: "input_output list"
  xi_present :: "present_window list"
  xi_time :: "32 word"
  xi_log :: "device_event list"

definition xi_say :: "device_event list \<Rightarrow> x11_input \<Rightarrow> x11_input" where
  "xi_say es x = x\<lparr>xi_log := xi_log x @ es\<rparr>"

text \<open>The XInput events: modifiers as base, latched, locked and group; coordinates in 16.16 fixed point.\<close>

record key_data =
  kd_detail :: "32 word"
  kd_repeat :: bool
  kd_base :: "32 word"
  kd_latched :: "32 word"
  kd_locked :: "32 word"
  kd_group :: "32 word"

datatype xinput_event =
    XiKeyPress key_data "32 word"
  | XiKeyRelease key_data "32 word"
  | XiButtonPress xid nat "32 word"
  | XiButtonRelease xid nat "32 word"
  | XiMotion xid int int "32 word"
  | XiTouchBegin xid "32 word" int int "32 word"
  | XiTouchEnd xid "32 word" "32 word"
  | XiTouchUpdate xid "32 word" int int "32 word"
  | XiOther

definition BTN_LEFT :: "32 word" where "BTN_LEFT = 272"
definition BTN_RIGHT :: "32 word" where "BTN_RIGHT = 273"
definition BTN_MIDDLE :: "32 word" where "BTN_MIDDLE = 274"

section \<open>Sending\<close>

definition send_key_event :: "32 word \<Rightarrow> bool \<Rightarrow> 32 word \<Rightarrow> device_event list" where
  "send_key_event key pressed time = [KeyboardKey key pressed time]"

definition send_button_event :: "input_output \<Rightarrow> 32 word \<Rightarrow> bool \<Rightarrow> 32 word \<Rightarrow> device_event list" where
  "send_button_event out key pressed time = [PointerButton (io_win out) key pressed time, PointerFrame (io_win out)]"

definition send_wheel_event :: "input_output \<Rightarrow> int \<Rightarrow> 32 word \<Rightarrow> device_event list" where
  "send_wheel_event out delta time = [PointerAxis (io_win out) delta time, PointerFrame (io_win out)]"

definition fraction :: "int \<Rightarrow> int \<Rightarrow> rat" where
  "fraction x len = fl64 (of_int x / of_int len)"

definition send_pointer_position_event :: "input_output \<Rightarrow> int \<Rightarrow> int \<Rightarrow> 32 word \<Rightarrow> device_event list" where
  "send_pointer_position_event out x y time =
     [PointerAbsolute (io_win out) (fraction x (io_width out)) (fraction y (io_height out)) time, PointerFrame (io_win out)]"

definition send_touch_down_event :: "input_output \<Rightarrow> int \<Rightarrow> int \<Rightarrow> int \<Rightarrow> 32 word \<Rightarrow> device_event list" where
  "send_touch_down_event out x y touch_id time =
     [TouchDown (io_win out) (fraction x (io_width out)) (fraction y (io_height out)) touch_id time, TouchFrame (io_win out)]"

definition send_touch_motion_event :: "input_output \<Rightarrow> int \<Rightarrow> int \<Rightarrow> int \<Rightarrow> 32 word \<Rightarrow> device_event list" where
  "send_touch_motion_event out x y touch_id time =
     [TouchMotion (io_win out) (fraction x (io_width out)) (fraction y (io_height out)) touch_id time, TouchFrame (io_win out)]"

definition send_touch_up_event :: "input_output \<Rightarrow> int \<Rightarrow> 32 word \<Rightarrow> device_event list" where
  "send_touch_up_event out touch_id time = [TouchUp (io_win out) touch_id time, TouchFrame (io_win out)]"

definition send_present_window_motion :: "input_output \<Rightarrow> 32 word \<Rightarrow> device_event list" where
  "send_present_window_motion out time = [PointerRelative (io_win out) 0 0 time, PointerFrame (io_win out)]"

section \<open>Finding the output\<close>

definition get_touchpoint_from_x11_touch_id :: "input_output \<Rightarrow> 32 word \<Rightarrow> (32 word \<times> int) option" where
  "get_touchpoint_from_x11_touch_id out touch = List.find (\<lambda>t. fst t = touch) (io_touches out)"

definition get_x11_output_from_window_id :: "x11_input \<Rightarrow> xid \<Rightarrow> input_output option" where
  "get_x11_output_from_window_id x w = List.find (\<lambda>out. io_win out = w) (xi_outputs x)"

text \<open>The first output of at least 32 by 32 pixels, or the first one.\<close>

definition x11_pick_seat_output :: "x11_input \<Rightarrow> input_output option" where
  "x11_pick_seat_output x =
     (case List.find (\<lambda>out. 32 \<le> io_width out \<and> 32 \<le> io_height out) (xi_outputs x) of
        Some out \<Rightarrow> Some out
      | None \<Rightarrow> (case xi_outputs x of [] \<Rightarrow> None | out # _ \<Rightarrow> Some out))"

definition output_for_event_window :: "x11_input \<Rightarrow> xid \<Rightarrow> input_output option" where
  "output_for_event_window x w =
     (case get_x11_output_from_window_id x w of
        Some out \<Rightarrow> Some out
      | None \<Rightarrow>
          if get_x11_present_window_from_window_id (xi_present x) w = None then None else x11_pick_seat_output x)"

section \<open>The handler\<close>

text \<open>The touchpoints of an output are replaced; its window names it.\<close>

definition set_touches :: "xid \<Rightarrow> (32 word \<times> int) list \<Rightarrow> x11_input \<Rightarrow> x11_input" where
  "set_touches w ts x =
     x\<lparr>xi_outputs := map (\<lambda>out. if io_win out = w then out\<lparr>io_touches := ts\<rparr> else out) (xi_outputs x)\<rparr>"

definition next_touch_id :: "input_output \<Rightarrow> int" where
  "next_touch_id out = (case io_touches out of [] \<Rightarrow> 0 | t # _ \<Rightarrow> snd t + 1)"

definition pressed_button :: "input_output \<Rightarrow> nat \<Rightarrow> 32 word \<Rightarrow> device_event list" where
  "pressed_button out detail time =
     (if detail = 1 then send_button_event out BTN_LEFT True time
      else if detail = 2 then send_button_event out BTN_MIDDLE True time
      else if detail = 3 then send_button_event out BTN_RIGHT True time
      else if detail = 4 then send_wheel_event out (- 1) time
      else if detail = 5 then send_wheel_event out 1 time
      else [])"

definition released_button :: "input_output \<Rightarrow> nat \<Rightarrow> 32 word \<Rightarrow> device_event list" where
  "released_button out detail time =
     (if detail = 1 then send_button_event out BTN_LEFT False time
      else if detail = 2 then send_button_event out BTN_MIDDLE False time
      else if detail = 3 then send_button_event out BTN_RIGHT False time
      else [])"

abbreviation pixel :: "int \<Rightarrow> int" where
  "pixel fp \<equiv> c_int16 (fp div 65536)"

definition with_output ::
  "xid \<Rightarrow> (input_output \<Rightarrow> x11_input \<Rightarrow> x11_input) \<Rightarrow> x11_input \<Rightarrow> x11_input" where
  "with_output w f x = (case output_for_event_window x w of None \<Rightarrow> x | Some out \<Rightarrow> f out x)"

text \<open>\<open>room\<close> is the answer of the allocation of a touchpoint.\<close>

fun handle_x11_xinput_event :: "bool \<Rightarrow> xinput_event \<Rightarrow> x11_input \<Rightarrow> x11_input" where
  "handle_x11_xinput_event room (XiKeyPress k time) x =
     (if kd_repeat k then x
      else (xi_say (KeyboardModifiers (kd_base k) (kd_latched k) (kd_locked k) (kd_group k)
              # send_key_event (kd_detail k - 8) True time) x)\<lparr>xi_time := time\<rparr>)"
| "handle_x11_xinput_event room (XiKeyRelease k time) x =
     (xi_say (KeyboardModifiers (kd_base k) (kd_latched k) (kd_locked k) (kd_group k)
        # send_key_event (kd_detail k - 8) False time) x)\<lparr>xi_time := time\<rparr>"
| "handle_x11_xinput_event room (XiButtonPress w detail time) x =
     with_output w (\<lambda>out x. (xi_say (pressed_button out detail time) x)\<lparr>xi_time := time\<rparr>) x"
| "handle_x11_xinput_event room (XiButtonRelease w detail time) x =
     with_output w (\<lambda>out x. (xi_say (released_button out detail time) x)\<lparr>xi_time := time\<rparr>) x"
| "handle_x11_xinput_event room (XiMotion w ex ey time) x =
     with_output w (\<lambda>out x.
       (xi_say (if get_x11_present_window_from_window_id (xi_present x) w \<noteq> None then send_present_window_motion out time
                else send_pointer_position_event out (pixel ex) (pixel ey) time) x)\<lparr>xi_time := time\<rparr>) x"
| "handle_x11_xinput_event room (XiTouchBegin w touch ex ey time) x =
     with_output w (\<lambda>out x.
       let i = next_touch_id out
       in if \<not> room then x
          else (xi_say (send_touch_down_event out (pixel ex) (pixel ey) i time)
                 (set_touches (io_win out) ((touch, i) # io_touches out) x))\<lparr>xi_time := time\<rparr>) x"
| "handle_x11_xinput_event room (XiTouchEnd w touch time) x =
     with_output w (\<lambda>out x.
       case get_touchpoint_from_x11_touch_id out touch of
         None \<Rightarrow> x
       | Some t \<Rightarrow> set_touches (io_win out) (remove1 t (io_touches out))
           ((xi_say (send_touch_up_event out (snd t) time) x)\<lparr>xi_time := time\<rparr>)) x"
| "handle_x11_xinput_event room (XiTouchUpdate w touch ex ey time) x =
     with_output w (\<lambda>out x.
       case get_touchpoint_from_x11_touch_id out touch of
         None \<Rightarrow> x
       | Some t \<Rightarrow>
           (xi_say (send_touch_motion_event out (pixel ex) (pixel ey) (snd t) time) x)\<lparr>xi_time := time\<rparr>) x"
| "handle_x11_xinput_event room XiOther x = x"

text \<open>The pointer's position is queried when an output gets another size; \<open>reply\<close> is the X server's answer.\<close>

definition update_x11_pointer_position ::
  "(int \<times> int) option \<Rightarrow> input_output \<Rightarrow> 32 word \<Rightarrow> x11_input \<Rightarrow> x11_input" where
  "update_x11_pointer_position reply out time x =
     (case reply of None \<Rightarrow> x | Some (wx, wy) \<Rightarrow> xi_say (send_pointer_position_event out wx wy time) x)"

section \<open>Runs of the backend\<close>

text \<open>Input and queries, outputs that come (with a window of their own) and go, menus that come and go.\<close>

inductive xi_step :: "x11_input \<Rightarrow> x11_input \<Rightarrow> bool" where
  xi_input: "xi_step x (handle_x11_xinput_event room ev x)"
| xi_query: "out \<in> set (xi_outputs x) \<Longrightarrow> xi_step x (update_x11_pointer_position reply out time x)"
| xi_created: "w \<notin> io_win ` set (xi_outputs x) \<Longrightarrow>
    xi_step x (x\<lparr>xi_outputs := \<lparr>io_win = w, io_width = width, io_height = height, io_touches = []\<rparr> # xi_outputs x\<rparr>)"
| xi_resized: "xi_step x (x\<lparr>xi_outputs :=
      map (\<lambda>out. if io_win out = w then out\<lparr>io_width := width, io_height := height\<rparr> else out) (xi_outputs x)\<rparr>)"
| xi_destroyed: "xi_step x (xi_say [DeviceGone w] (x\<lparr>xi_outputs := filter (\<lambda>out. io_win out \<noteq> w) (xi_outputs x)\<rparr>))"
| xi_menus: "xi_step x (x\<lparr>xi_present := menus\<rparr>)"

definition xi_start :: x11_input where
  "xi_start = \<lparr>xi_outputs = [], xi_present = [], xi_time = 0, xi_log = []\<rparr>"

abbreviation xi_reach :: "x11_input \<Rightarrow> bool" where
  "xi_reach \<equiv> xi_step\<^sup>*\<^sup>* xi_start"

section \<open>The protocol of touches\<close>

text \<open>What a touch device may say: the touches that are down, as a set of ids; \<open>None\<close> is a violation.\<close>

fun touch_protocol :: "xid \<Rightarrow> device_event \<Rightarrow> int set option \<Rightarrow> int set option" where
  "touch_protocol w (TouchDown v _ _ i _) (Some down) =
     (if v \<noteq> w then Some down else if i \<in> down then None else Some (insert i down))"
| "touch_protocol w (TouchMotion v _ _ i _) (Some down) =
     (if v \<noteq> w then Some down else if i \<in> down then Some down else None)"
| "touch_protocol w (TouchUp v i _) (Some down) =
     (if v \<noteq> w then Some down else if i \<in> down then Some (down - {i}) else None)"
| "touch_protocol w (DeviceGone v) (Some down) = Some (if v = w then {} else down)"
| "touch_protocol w _ down = down"

definition touches_down :: "xid \<Rightarrow> device_event list \<Rightarrow> int set option" where
  "touches_down w es = fold (touch_protocol w) es (Some {})"

definition touch_ids :: "xid \<Rightarrow> x11_input \<Rightarrow> int set" where
  "touch_ids w x = (\<Union>out\<in>set (xi_outputs x). if io_win out = w then snd ` set (io_touches out) else {})"

fun is_down :: "device_event \<Rightarrow> bool" where
  "is_down (TouchDown _ _ _ _ _) = True"
| "is_down _ = False"

definition downs :: "device_event list \<Rightarrow> nat" where
  "downs es = length (filter is_down es)"

text \<open>The ids of an output fall along its list and stay below the number of touches there have been.\<close>

definition touches_ok :: "nat \<Rightarrow> input_output \<Rightarrow> bool" where
  "touches_ok n out \<longleftrightarrow> sorted_wrt (>) (map snd (io_touches out)) \<and>
     (\<forall>i\<in>snd ` set (io_touches out). 0 \<le> i \<and> i < int n)"

definition xi_ok :: "x11_input \<Rightarrow> bool" where
  "xi_ok x \<longleftrightarrow> distinct (map io_win (xi_outputs x))
     \<and> (\<forall>out\<in>set (xi_outputs x). touches_ok (downs (xi_log x)) out)
     \<and> (\<forall>w. touches_down w (xi_log x) = Some (touch_ids w x))"

lemma in_touch_ids: "i \<in> touch_ids w x \<longleftrightarrow> (\<exists>out\<in>set (xi_outputs x). io_win out = w \<and> i \<in> snd ` set (io_touches out))"
  by (auto simp: touch_ids_def split: if_splits)

lemma touch_ids_map:
  "i \<in> touch_ids w (x\<lparr>xi_outputs := map f (xi_outputs x)\<rparr>) \<longleftrightarrow>
    (\<exists>out\<in>set (xi_outputs x). io_win (f out) = w \<and> i \<in> snd ` set (io_touches (f out)))"
  by (simp add: in_touch_ids)

lemma touches_down_append: "touches_down w (es @ fs) = fold (touch_protocol w) fs (touches_down w es)"
  by (simp add: touches_down_def)

lemma downs_append [simp]: "downs (es @ fs) = downs es + downs fs"
  by (simp add: downs_def)

lemma xi_say_fields [simp]:
  "xi_outputs (xi_say es x) = xi_outputs x" "xi_log (xi_say es x) = xi_log x @ es" "xi_present (xi_say es x) = xi_present x"
  by (simp_all add: xi_say_def)

lemma set_touches_fields [simp]:
  "xi_log (set_touches w ts x) = xi_log x" "map io_win (xi_outputs (set_touches w ts x)) = map io_win (xi_outputs x)"
  by (auto simp: set_touches_def)

lemma touch_ids_cong: "xi_outputs x = xi_outputs y \<Longrightarrow> touch_ids w x = touch_ids w y"
  by (simp add: touch_ids_def)

lemma touches_ok_more: "touches_ok n out \<Longrightarrow> n \<le> m \<Longrightarrow> touches_ok m out"
  by (fastforce simp: touches_ok_def)

lemma touches_ok_resized [simp]: "touches_ok n (out\<lparr>io_width := width, io_height := height\<rparr>) = touches_ok n out"
  by (simp add: touches_ok_def)

text \<open>Events of the keyboard and of pointers are no touches.\<close>

definition no_touch :: "device_event list \<Rightarrow> bool" where
  "no_touch es \<longleftrightarrow> (\<forall>w d. fold (touch_protocol w) es d = d) \<and> downs es = 0"

lemmas sends = send_key_event_def send_button_event_def send_wheel_event_def send_pointer_position_event_def
  send_present_window_motion_def

lemma protocol_keyboard [simp]: "touch_protocol w (KeyboardModifiers a b c d) s = s" "touch_protocol w (KeyboardKey k p t) s = s"
  by (cases s; simp)+

lemma protocol_pointer [simp]: "touch_protocol w (PointerButton v b p t) s = s" "touch_protocol w (PointerAxis v n t) s = s"
  "touch_protocol w (PointerAbsolute v i j t) s = s" "touch_protocol w (PointerRelative v i j t) s = s"
  "touch_protocol w (PointerFrame v) s = s" "touch_protocol w (TouchFrame v) s = s"
  by (cases s; simp)+

lemma no_touch_events:
  "no_touch (KeyboardModifiers a b c d # send_key_event k p time)" "no_touch (pressed_button out n time)"
  "no_touch (released_button out n time)" "no_touch (send_pointer_position_event out i j time)"
  "no_touch (send_present_window_motion out time)"
  by (auto simp: no_touch_def pressed_button_def released_button_def sends downs_def)

lemma ok_no_touch:
  assumes "xi_ok x" "no_touch es"
  shows "xi_ok (xi_say es x)" "xi_ok ((xi_say es x)\<lparr>xi_time := time\<rparr>)"
  using assms touch_ids_cong[of _ x]
  by (auto simp: xi_ok_def no_touch_def touches_down_append touch_ids_def)

lemma output_found:
  assumes "output_for_event_window x w = Some out"
  shows "out \<in> set (xi_outputs x)"
proof -
  have found: "List.find P xs = Some y \<Longrightarrow> y \<in> set xs" for P xs and y :: input_output
    by (induction xs) (auto split: if_splits)
  show ?thesis
    using assms found
    by (auto simp: output_for_event_window_def get_x11_output_from_window_id_def x11_pick_seat_output_def
        split: option.splits if_splits list.splits dest!: found)
qed

lemma ok_with_output:
  assumes "xi_ok x" "\<And>out. out \<in> set (xi_outputs x) \<Longrightarrow> xi_ok (f out x)"
  shows "xi_ok (with_output w f x)"
  using assms output_found by (auto simp: with_output_def split: option.split)

section \<open>Touches of one output\<close>

lemma ids_of_output:
  assumes "xi_ok x" "out \<in> set (xi_outputs x)"
  shows "touch_ids (io_win out) x = snd ` set (io_touches out)"
proof -
  have "o' = out" if "o' \<in> set (xi_outputs x)" "io_win o' = io_win out" for o'
    using assms that by (auto simp: xi_ok_def distinct_map inj_on_def)
  with assms(2) show ?thesis by (auto simp: set_eq_iff in_touch_ids)
qed

text \<open>The touchpoints of one output change and its device says so.\<close>

lemma ok_touches:
  assumes "xi_ok x" "out \<in> set (xi_outputs x)"
    and "\<And>w. w \<noteq> io_win out \<Longrightarrow> fold (touch_protocol w) es (Some (touch_ids w x)) = Some (touch_ids w x)"
    and "fold (touch_protocol (io_win out)) es (Some (snd ` set (io_touches out))) = Some (snd ` set ts)"
    and "touches_ok (downs (xi_log x) + downs es) (out\<lparr>io_touches := ts\<rparr>)"
  shows "xi_ok (set_touches (io_win out) ts (xi_say es x))"
proof -
  let ?y = "set_touches (io_win out) ts (xi_say es x)"
  have ids: "touch_ids w ?y = (if w = io_win out then snd ` set ts else touch_ids w x)" for w
  proof -
    have "i \<in> touch_ids w ?y \<longleftrightarrow> (\<exists>o'\<in>set (xi_outputs x). io_win o' = w \<and>
        i \<in> snd ` set (if io_win o' = io_win out then ts else io_touches o'))" for i
      unfolding set_touches_def xi_say_fields(1)[symmetric]
      by (subst touch_ids_map) (auto intro!: bex_cong)
    then show ?thesis using assms(2) by (auto simp: set_eq_iff in_touch_ids)
  qed
  have "touches_ok (downs (xi_log x) + downs es) o'" if "o' \<in> set (xi_outputs x)" for o'
    using assms(1) that touches_ok_more[of "downs (xi_log x)" o'] by (auto simp: xi_ok_def)
  then have "\<forall>o'\<in>set (xi_outputs ?y). touches_ok (downs (xi_log ?y)) o'"
    using assms(5) by (auto simp: set_touches_def touches_ok_def)
  moreover have "touches_down w (xi_log ?y) = Some (touch_ids w ?y)" for w
    using assms(1,3,4) ids_of_output[OF assms(1,2)]
    by (cases "w = io_win out") (simp_all add: ids xi_ok_def touches_down_append)
  ultimately show ?thesis using assms(1) by (simp add: xi_ok_def del: map_map)
qed

text \<open>Of the new id only its freshness counts.\<close>

lemma next_touch_fresh:
  assumes "touches_ok n out"
  shows "next_touch_id out \<notin> snd ` set (io_touches out)"
    and "touches_ok (n + 1) (out\<lparr>io_touches := (touch, next_touch_id out) # io_touches out\<rparr>)"
  using assms by (cases "io_touches out"; fastforce simp: next_touch_id_def touches_ok_def)+

lemma removed_touch:
  assumes "touches_ok n out" "t \<in> set (io_touches out)"
  shows "snd ` set (remove1 t (io_touches out)) = snd ` set (io_touches out) - {snd t}"
    and "touches_ok n (out\<lparr>io_touches := remove1 t (io_touches out)\<rparr>)"
proof -
  have d: "distinct (map snd (io_touches out))"
    using assms(1) unfolding touches_ok_def
    by (metis (mono_tags, lifting) distinct_rev rev_map sorted_wrt_rev strict_sorted_iff sorted_wrt_mono_rel)
  then have i: "inj_on snd (set (io_touches out))" "distinct (io_touches out)" by (auto simp: distinct_map)
  then show "snd ` set (remove1 t (io_touches out)) = snd ` set (io_touches out) - {snd t}"
    using assms(2) by (auto simp: set_remove1_eq inj_on_def)
  have "sorted_wrt (>) (map snd (remove1 t xs))" if "sorted_wrt (>) (map snd xs)" for xs :: "(32 word \<times> int) list"
    using that by (induction xs) (auto dest: notin_set_remove1 set_remove1_subset[THEN subsetD])
  then show "touches_ok n (out\<lparr>io_touches := remove1 t (io_touches out)\<rparr>)"
    using assms(1) by (auto simp: touches_ok_def dest!: set_remove1_subset[THEN subsetD])
qed

lemma touch_found: "get_touchpoint_from_x11_touch_id out touch = Some t \<Longrightarrow> t \<in> set (io_touches out)"
  unfolding get_touchpoint_from_x11_touch_id_def by (induction "io_touches out") (auto simp: find_Some_iff)

lemma xi_time_ok [simp]: "xi_ok (x\<lparr>xi_time := time\<rparr>) = xi_ok x"
  by (simp add: xi_ok_def touch_ids_def)

lemma set_touches_say: "set_touches w ts ((xi_say es x)\<lparr>xi_time := time\<rparr>) = (set_touches w ts (xi_say es x))\<lparr>xi_time := time\<rparr>"
  "(xi_say es (set_touches w ts x))\<lparr>xi_time := time\<rparr> = (set_touches w ts (xi_say es x))\<lparr>xi_time := time\<rparr>"
  by (simp_all add: set_touches_def xi_say_def)

lemma touch_begin_ok:
  assumes "xi_ok x" "out \<in> set (xi_outputs x)"
  shows "xi_ok (set_touches (io_win out) ((touch, next_touch_id out) # io_touches out)
    (xi_say (send_touch_down_event out i j (next_touch_id out) time) x))"
proof -
  have "touches_ok (downs (xi_log x)) out" using assms by (simp add: xi_ok_def)
  from next_touch_fresh[OF this] show ?thesis
    by (intro ok_touches[OF assms]) (simp_all add: send_touch_down_event_def downs_def)
qed

lemma touch_end_ok:
  assumes "xi_ok x" "out \<in> set (xi_outputs x)" "t \<in> set (io_touches out)"
  shows "xi_ok (set_touches (io_win out) (remove1 t (io_touches out)) (xi_say (send_touch_up_event out (snd t) time) x))"
proof -
  have "touches_ok (downs (xi_log x)) out" using assms(1,2) by (simp add: xi_ok_def)
  from removed_touch[OF this assms(3)] assms(3) show ?thesis
    by (intro ok_touches[OF assms(1,2)]) (auto simp: send_touch_up_event_def downs_def)
qed

lemma touch_update_ok:
  assumes "xi_ok x" "out \<in> set (xi_outputs x)" "t \<in> set (io_touches out)"
  shows "xi_ok (xi_say (send_touch_motion_event out i j (snd t) time) x)"
proof -
  have "fold (touch_protocol w) (send_touch_motion_event out i j (snd t) time) (Some (touch_ids w x)) = Some (touch_ids w x)" for w
    using ids_of_output[OF assms(1,2)] assms(3) by (cases "w = io_win out") (auto simp: send_touch_motion_event_def)
  then show ?thesis
    using assms(1) touch_ids_cong[of "xi_say (send_touch_motion_event out i j (snd t) time) x" x]
    by (simp add: xi_ok_def touches_down_append) (simp add: send_touch_motion_event_def downs_def)
qed

lemma input_ok: "xi_ok x \<Longrightarrow> xi_ok (handle_x11_xinput_event room ev x)"
proof (cases ev)
  case (XiTouchEnd w touch time)
  then show "xi_ok x \<Longrightarrow> ?thesis"
    by (auto intro!: ok_with_output touch_end_ok[of _ _ "(a, b)" for a b, simplified] dest: touch_found
        simp: set_touches_say split: option.split)
next
  case (XiTouchUpdate w touch ex ey time)
  then show "xi_ok x \<Longrightarrow> ?thesis"
    by (auto intro!: ok_with_output touch_update_ok[of _ _ "(a, b)" for a b, simplified] dest: touch_found split: option.split)
qed (auto intro!: ok_with_output ok_no_touch no_touch_events touch_begin_ok simp: Let_def set_touches_say)

section \<open>Touches along a run\<close>

lemma xi_step_ok: "xi_step x y \<Longrightarrow> xi_ok x \<Longrightarrow> xi_ok y"
proof (induction rule: xi_step.induct)
  case (xi_input x room ev)
  then show ?case by (rule input_ok)
next
  case (xi_query out x reply time)
  then show ?case by (auto simp: update_x11_pointer_position_def intro: ok_no_touch no_touch_events split: option.split)
next
  case (xi_created w x width height)
  then show ?case by (auto simp: xi_ok_def touch_ids_def touches_ok_def)
next
  case (xi_resized x w height width)
  let ?o = "map (\<lambda>out. if io_win out = w then out\<lparr>io_width := width, io_height := height\<rparr> else out) (xi_outputs x)"
  have "touch_ids v (x\<lparr>xi_outputs := ?o\<rparr>) = touch_ids v x" for v
    by (intro set_eqI, subst touch_ids_map) (auto simp: in_touch_ids intro!: bex_cong)
  moreover have "map io_win ?o = map io_win (xi_outputs x)" by simp
  ultimately show ?case using xi_resized by (auto simp: xi_ok_def simp del: map_map)
next
  case (xi_destroyed x w)
  have "touch_ids v (x\<lparr>xi_outputs := filter (\<lambda>out. io_win out \<noteq> w) (xi_outputs x)\<rparr>) = (if v = w then {} else touch_ids v x)" for v
    by (auto simp: touch_ids_def split: if_splits)
  then have "touches_down v (xi_log x @ [DeviceGone w]) = Some (touch_ids v (x\<lparr>xi_outputs := filter (\<lambda>out. io_win out \<noteq> w) (xi_outputs x)\<rparr>))" for v
    using xi_destroyed by (simp add: xi_ok_def touches_down_append)
  then show ?case using xi_destroyed
    by (auto simp: xi_ok_def downs_def distinct_map_filter touch_ids_def)
next
  case (xi_menus x menus)
  then show ?case by (simp add: xi_ok_def touch_ids_def)
qed

lemma xi_reach_ok: "xi_reach x \<Longrightarrow> xi_ok x"
proof (induction rule: rtranclp_induct)
  case base
  show ?case by (simp add: xi_start_def xi_ok_def touches_down_def touch_ids_def)
qed (rule xi_step_ok)

text \<open>
  C35 (invariant). Whatever the X server reports, and however windows and menus come and go, the touch device
  of every output keeps its protocol: a touch goes down under an id that is not in use, moves and goes up
  only while it is down; the ids in use are those of the output's touchpoints and smaller than the number
  of touches so far.
\<close>

theorem touches_keep_their_id:
  assumes "xi_reach x"
  shows "touches_down w (xi_log x) = Some (touch_ids w x) \<and> touch_ids w x \<subseteq> {0..<int (downs (xi_log x))}"
  using xi_reach_ok[OF assms] by (fastforce simp: xi_ok_def in_touch_ids touches_ok_def)

section \<open>A touch on a menu\<close>

text \<open>
  The output of a menu's events is picked anew for each event: when a window opens between the beginning and
  the end of a touch on a menu, the end is looked up on the new output and the touch stays down for ever.
\<close>

lemma menu_touch_stays_down:
  assumes "io_win a = 1" "32 \<le> io_width a" "32 \<le> io_height a" "io_touches a = []"
    and "io_win b = 2" "32 \<le> io_width b" "32 \<le> io_height b" "io_touches b = []"
    and "map pw_win menus = [9]" "xi_outputs x = [a]" "xi_present x = menus"
    and y: "y = handle_x11_xinput_event True (XiTouchBegin 9 touch ex ey t0) x"
  shows "touch_ids 1 (handle_x11_xinput_event room (XiTouchEnd 9 touch t1) (y\<lparr>xi_outputs := b # xi_outputs y\<rparr>)) = {0}"
proof -
  obtain m where m: "menus = [m]" "pw_win m = 9" using assms(9) by auto
  have y': "xi_outputs y = [a\<lparr>io_touches := [(touch, 0)]\<rparr>]" "xi_present y = [m]"
    using assms(1-4,10,11) m
    by (simp_all add: y with_output_def output_for_event_window_def get_x11_output_from_window_id_def
        get_x11_present_window_from_window_id_def x11_pick_seat_output_def next_touch_id_def set_touches_def Let_def)
  show ?thesis
    using assms(1-8) m
    by (simp add: y' with_output_def output_for_event_window_def get_x11_output_from_window_id_def
        get_x11_present_window_from_window_id_def x11_pick_seat_output_def get_touchpoint_from_x11_touch_id_def
        touch_ids_def)
qed

end
