(* ===== verification/Main_Run.thy ===== *)
theory Main_Run
  imports Main_Program
begin

text \<open>
  The body of \<open>main\<close> after the options (\<open>src/main.c\<close>): the objects it creates, the listeners it
  puts on their signals, launching the command, and the tear-down after the event loop. wlroots
  asserts that nobody listens to the signals of an object that is destroyed
  (\<open>wlr_backend_finish\<close> in \<open>backend/backend.c\<close>, \<open>types/seat/wlr_seat.c\<close>, \<open>types/wlr_cursor.c\<close>, \<open>types/xdg_shell/wlr_xdg_shell.c\<close>,
  \<open>types/wlr_xdg_decoration_v1.c\<close>), and that destroying the display destroys what hangs on it. Of
  what happens in the event loop only the end of the connection to the X server touches these objects
  (\<open>x11_event\<close>, \<open>backend/x11/backend.c\<close>).
\<close>

section \<open>Objects, listeners, state\<close>

datatype main_object =
    ODisplay | OBackend | ORenderer | OAllocator | OScene | OXdgShell | ODecorationManager | OSeat
  | OCursor | OCursorManager | OXcb

datatype main_listener =
    LNewToplevel | LNewPopup | LNewDecoration | LClientCreated | LNewInput
  | LCursorMotion | LCursorMotionAbsolute | LCursorButton | LCursorAxis | LCursorFrame
  | LRequestSetCursor | LRequestSetSelection | LRequestSetPrimarySelection | LRequestStartDrag | LStartDrag

fun signal_owner :: "main_listener \<Rightarrow> main_object" where
  "signal_owner LNewToplevel = OXdgShell"
| "signal_owner LNewPopup = OXdgShell"
| "signal_owner LNewDecoration = ODecorationManager"
| "signal_owner LClientCreated = ODisplay"
| "signal_owner LNewInput = OBackend"
| "signal_owner LCursorMotion = OCursor"
| "signal_owner LCursorMotionAbsolute = OCursor"
| "signal_owner LCursorButton = OCursor"
| "signal_owner LCursorAxis = OCursor"
| "signal_owner LCursorFrame = OCursor"
| "signal_owner LRequestSetCursor = OSeat"
| "signal_owner LRequestSetSelection = OSeat"
| "signal_owner LRequestSetPrimarySelection = OSeat"
| "signal_owner LRequestStartDrag = OSeat"
| "signal_owner LStartDrag = OSeat"

datatype loop_source = XcbSource | SigintSource | SigtermSource | SigchldSource

record main_state =
  ms_alive :: "main_object list"
  ms_listening :: "main_listener list"
  ms_sources :: "loop_source list"
  ms_clipboard :: bool \<comment> \<open>\<open>clipboard_init\<close> has run\<close>
  ms_wayland_display :: "string option"
  ms_exit_when_gone :: bool
  ms_launched_pid :: int
  ms_killed :: "int list"
  ms_clients :: nat \<comment> \<open>clients that are connected\<close>

definition main_start :: main_state where
  "main_start = \<lparr>ms_alive = [], ms_listening = [], ms_sources = [], ms_clipboard = False,
     ms_wayland_display = None, ms_exit_when_gone = False, ms_launched_pid = 0, ms_killed = [], ms_clients = 0\<rparr>"

text \<open>What the calls into the system, the X server and wlroots give.\<close>

datatype xcb_result = XcbNull | XcbError | XcbOk

record main_env =
  me_display :: "string option" \<comment> \<open>\<open>$DISPLAY\<close>\<close>
  me_backend_ok :: bool
  me_renderer_ok :: bool
  me_allocator_ok :: bool
  me_cursor_manager_ok :: bool
  me_xcb :: xcb_result
  me_socket :: "string option"
  me_sigint_ok :: bool
  me_sigterm_ok :: bool
  me_fork :: int
  me_exec_ok :: bool
  me_connection_lost :: bool \<comment> \<open>the X server closes the backend's connection while the loop runs\<close>
  me_clients :: nat \<comment> \<open>how many clients are connected when the loop ends\<close>

section \<open>Primitive steps\<close>

text \<open>\<open>None\<close> is a failed assertion or a crash. Listening takes an object that exists, and only what is
  on a list can be taken off.\<close>

type_synonym main_step = "main_state \<Rightarrow> main_state option"

definition create :: "main_object \<Rightarrow> main_step" where
  "create x s = Some (s\<lparr>ms_alive := x # ms_alive s\<rparr>)"

definition listen :: "main_listener \<Rightarrow> main_step" where
  "listen l s = (if signal_owner l \<in> set (ms_alive s) then Some (s\<lparr>ms_listening := l # ms_listening s\<rparr>) else None)"

definition unlisten :: "main_listener \<Rightarrow> main_step" where
  "unlisten l s = (if l \<in> set (ms_listening s) then Some (s\<lparr>ms_listening := remove1 l (ms_listening s)\<rparr>) else None)"

definition destroy_object :: "main_object \<Rightarrow> main_step" where
  "destroy_object x s =
     (if x \<notin> set (ms_alive s) \<or> list_ex (\<lambda>l. signal_owner l = x) (ms_listening s) then None
      else Some (s\<lparr>ms_alive := remove1 x (ms_alive s)\<rparr>))"

definition when_alive :: "main_object \<Rightarrow> main_step \<Rightarrow> main_step" where
  "when_alive x f s = (if x \<in> set (ms_alive s) then f s else Some s)"

fun steps :: "main_step list \<Rightarrow> main_step" where
  "steps [] s = Some s"
| "steps (f # fs) s = Option.bind (f s) (steps fs)"

text \<open>\<open>wl_display_destroy\<close>: the globals of the display go with it, then the event loop, whose end
  takes a backend along that still exists. The display's own signals are not asserted empty.\<close>

definition wl_display_destroy :: main_step where
  "wl_display_destroy s =
     map_option (\<lambda>s1. s1\<lparr>ms_alive := remove1 ODisplay (ms_alive s1), ms_sources := []\<rparr>)
       (steps (map (\<lambda>x. when_alive x (destroy_object x)) [OXdgShell, ODecorationManager, OSeat, OBackend]) s)"

section \<open>Start-up\<close>

definition set_up_globals :: "main_env \<Rightarrow> main_step list" where
  "set_up_globals env =
     [create OScene,
      create OXdgShell, listen LNewToplevel, listen LNewPopup,
      create ODecorationManager, listen LNewDecoration,
      create OSeat, create OCursor] @
     (if me_cursor_manager_ok env then [create OCursorManager] else []) @
     [listen LNewInput, listen LCursorMotion, listen LCursorMotionAbsolute, listen LCursorButton,
      listen LCursorAxis, listen LCursorFrame, listen LRequestSetCursor, listen LRequestSetSelection,
      listen LRequestSetPrimarySelection, listen LRequestStartDrag, listen LStartDrag]"

text \<open>The auxiliary connection: one with an error is kept but not used.\<close>

definition connect_xcb :: "main_env \<Rightarrow> main_step" where
  "connect_xcb env s =
     (case me_xcb env of
        XcbNull \<Rightarrow> Some s
      | XcbError \<Rightarrow> create OXcb s
      | XcbOk \<Rightarrow> map_option (\<lambda>s1. s1\<lparr>ms_clipboard := True, ms_sources := XcbSource # ms_sources s1\<rparr>) (create OXcb s))"

definition watch_signals :: "main_env \<Rightarrow> main_step" where
  "watch_signals env s =
     Some (s\<lparr>ms_sources := [SigchldSource] @ (if me_sigterm_ok env then [SigtermSource] else []) @
       (if me_sigint_ok env then [SigintSource] else []) @ ms_sources s\<rparr>)"

text \<open>The backend of X11 starts whatever happens; its keyboard and outputs are not this state.\<close>

definition backend_start :: "main_state \<Rightarrow> bool \<times> main_state" where
  "backend_start s = (True, s)"

section \<open>The event loop\<close>

text \<open>What the loop leaves: the clients that have connected and not gone; a hangup or an error of the
  connection destroys the backend.\<close>

definition serve_clients :: "nat \<Rightarrow> main_step" where
  "serve_clients n s = Some (s\<lparr>ms_clients := n\<rparr>)"

definition x11_event :: "bool \<Rightarrow> main_step" where
  "x11_event lost s = (if lost then destroy_object OBackend s else Some s)"

section \<open>Tear-down\<close>

definition remove_source :: "loop_source \<Rightarrow> main_step" where
  "remove_source x s = Some (s\<lparr>ms_sources := remove1 x (ms_sources s)\<rparr>)"

definition close_xcb :: main_step where
  "close_xcb = when_alive OXcb (\<lambda>s. destroy_object OXcb (s\<lparr>ms_clipboard := False\<rparr>))"

definition kill_launched :: main_step where
  "kill_launched s =
     Some (if 0 < ms_launched_pid s then s\<lparr>ms_killed := ms_launched_pid s # ms_killed s\<rparr> else s)"

text \<open>Each client goes with its resources, so with its windows and their outputs; the loop that
  \<open>client_destroy_notify\<close> may terminate then has ended already.\<close>

definition wl_display_destroy_clients :: main_step where
  "wl_display_destroy_clients s = Some (s\<lparr>ms_clients := 0\<rparr>)"

definition tear_down :: "main_step list" where
  "tear_down =
     [kill_launched, wl_display_destroy_clients,
      unlisten LNewToplevel, unlisten LNewPopup, unlisten LNewDecoration, unlisten LClientCreated,
      unlisten LNewInput, unlisten LCursorMotion, unlisten LCursorMotionAbsolute, unlisten LCursorButton,
      unlisten LCursorAxis, unlisten LCursorFrame, unlisten LRequestSetCursor, unlisten LRequestSetSelection,
      unlisten LRequestSetPrimarySelection, unlisten LRequestStartDrag, unlisten LStartDrag,
      remove_source SigintSource, remove_source SigtermSource,
      destroy_object OScene, destroy_object OCursor, when_alive OCursorManager (destroy_object OCursorManager),
      close_xcb, destroy_object OAllocator, destroy_object ORenderer, destroy_object OBackend,
      wl_display_destroy]"

section \<open>The program\<close>

datatype main_result =
    Exits nat main_state \<comment> \<open>\<open>main\<close> returns\<close>
  | Aborts
  | BecomesCommand "string list" \<comment> \<open>the child after \<open>execvp\<close>\<close>
  | ChildExits nat

definition finish :: "nat \<Rightarrow> main_state option \<Rightarrow> main_result" where
  "finish code r = (case r of None \<Rightarrow> Aborts | Some s \<Rightarrow> Exits code s)"

text \<open>Launching the command: the result for the child, or the state of the compositor.\<close>

definition launch :: "main_env \<Rightarrow> string list option \<Rightarrow> main_state \<Rightarrow> main_result + main_state" where
  "launch env command s =
     (let s1 = s\<lparr>ms_launched_pid := - 1\<rparr>
      in case command of
          None \<Rightarrow> Inr s1
        | Some argv \<Rightarrow>
            let s2 = s1\<lparr>ms_exit_when_gone := True\<rparr>
            in if me_fork env = 0 then Inl (if me_exec_ok env then BecomesCommand argv else ChildExits 127)
               else if me_fork env < 0 then Inr (s2\<lparr>ms_exit_when_gone := False\<rparr>)
               else Inr (s2\<lparr>ms_launched_pid := me_fork env\<rparr>))"

definition run_compositor :: "main_env \<Rightarrow> string list option \<Rightarrow> main_state \<Rightarrow> main_result" where
  "run_compositor env command s =
     (case steps (set_up_globals env @ [connect_xcb env]) s of
        None \<Rightarrow> Aborts
      | Some s1 \<Rightarrow>
          (case me_socket env of
             None \<Rightarrow> Exits 1 s1
           | Some socket \<Rightarrow>
               (case backend_start s1 of
                  (False, s2) \<Rightarrow> finish 1 (wl_display_destroy s2)
                | (True, s2) \<Rightarrow>
                    (case steps [listen LClientCreated, watch_signals env] (s2\<lparr>ms_wayland_display := Some socket\<rparr>) of
                       None \<Rightarrow> Aborts
                     | Some s3 \<Rightarrow>
                         (case launch env command s3 of
                            Inl r \<Rightarrow> r
                          | Inr s4 \<Rightarrow> finish 0 (steps (serve_clients (me_clients env) # x11_event (me_connection_lost env) # tear_down) s4))))))"

definition main_program :: "(string \<Rightarrow> dbl \<times> nat) \<Rightarrow> main_env \<Rightarrow> string list \<Rightarrow> main_result" where
  "main_program strtod env args =
     (case parse_args strtod default_options args of
        ExitWith n \<Rightarrow> Exits n main_start
      | RunWith opts command \<Rightarrow>
          if me_display env = None then Exits 1 main_start
          else
            let s0 = main_start\<lparr>ms_alive := [ODisplay]\<rparr>;
                s1 = s0\<lparr>ms_alive := OBackend # ms_alive s0\<rparr>;
                s2 = s1\<lparr>ms_alive := ORenderer # ms_alive s1\<rparr>;
                s3 = s2\<lparr>ms_alive := OAllocator # ms_alive s2\<rparr>
            in if \<not> me_backend_ok env then Exits 1 s0
               else if \<not> me_renderer_ok env then Exits 1 s1
               else if \<not> me_allocator_ok env then Exits 1 s2
               else run_compositor env command s3)"

section \<open>What it leaves behind\<close>

lemmas main_steps = create_def listen_def unlisten_def destroy_object_def when_alive_def connect_xcb_def
  watch_signals_def remove_source_def close_xcb_def kill_launched_def wl_display_destroy_def wl_display_destroy_clients_def

text \<open>After the start-up: every object, and every listener but the one of new clients.\<close>

definition started :: "main_env \<Rightarrow> main_state" where
  "started env = main_start\<lparr>
     ms_alive := (if me_xcb env = XcbNull then [] else [OXcb]) @
       (if me_cursor_manager_ok env then [OCursorManager] else []) @
       [OCursor, OSeat, ODecorationManager, OXdgShell, OScene, OAllocator, ORenderer, OBackend, ODisplay],
     ms_listening := [LStartDrag, LRequestStartDrag, LRequestSetPrimarySelection, LRequestSetSelection,
       LRequestSetCursor, LCursorFrame, LCursorAxis, LCursorButton, LCursorMotionAbsolute, LCursorMotion,
       LNewInput, LNewDecoration, LNewPopup, LNewToplevel],
     ms_clipboard := (me_xcb env = XcbOk), ms_sources := (if me_xcb env = XcbOk then [XcbSource] else [])\<rparr>"

lemma starts:
  "steps (set_up_globals env @ [connect_xcb env])
     (main_start\<lparr>ms_alive := [OAllocator, ORenderer, OBackend, ODisplay]\<rparr>) = Some (started env)"
  by (cases "me_xcb env"; cases "me_cursor_manager_ok env")
    (simp_all add: set_up_globals_def main_steps started_def main_start_def)

lemma starts_main:
  assumes "parse_args strtod default_options args = RunWith opts command" "me_display env \<noteq> None"
    and "me_backend_ok env" "me_renderer_ok env" "me_allocator_ok env"
  shows "main_program strtod env args =
    run_compositor env command (main_start\<lparr>ms_alive := [OAllocator, ORenderer, OBackend, ODisplay]\<rparr>)"
  using assms by (auto simp: main_program_def main_start_def)

text \<open>The state the event loop runs in, and what the tear-down makes of it.\<close>

definition running :: "main_env \<Rightarrow> string \<Rightarrow> main_state" where
  "running env socket = (started env)\<lparr>ms_wayland_display := Some socket,
     ms_listening := LClientCreated # ms_listening (started env),
     ms_sources := [SigchldSource] @ (if me_sigterm_ok env then [SigtermSource] else []) @
       (if me_sigint_ok env then [SigintSource] else []) @ ms_sources (started env)\<rparr>"

lemma runs:
  "steps [listen LClientCreated, watch_signals env] ((started env)\<lparr>ms_wayland_display := Some socket\<rparr>)
     = Some (running env socket)"
  by (simp add: main_steps started_def running_def)

lemma tears_down:
  "steps tear_down ((running env socket)\<lparr>ms_exit_when_gone := e, ms_launched_pid := p, ms_clients := n\<rparr>) =
     Some (main_start\<lparr>ms_wayland_display := Some socket, ms_exit_when_gone := e, ms_launched_pid := p,
       ms_killed := (if 0 < p then [p] else [])\<rparr>)"
  by (cases "me_xcb env"; cases "me_cursor_manager_ok env")
    (simp_all add: tear_down_def main_steps running_def started_def main_start_def)

lemma launched:
  assumes "command = None \<or> me_fork env \<noteq> 0"
  shows "\<exists>e p. launch env command (running env socket) = Inr ((running env socket)\<lparr>ms_exit_when_gone := e, ms_launched_pid := p\<rparr>)
    \<and> (if 0 < p then [p] else []) = (if command \<noteq> None \<and> 0 < me_fork env then [me_fork env] else [])"
proof (cases command)
  case None
  then show ?thesis
    by (intro exI[of _ False] exI[of _ "- 1"]) (simp add: launch_def running_def started_def main_start_def)
next
  case (Some argv)
  then show ?thesis using assms
    by (intro exI[of _ "0 < me_fork env"] exI[of _ "if 0 < me_fork env then me_fork env else - 1"])
      (simp add: launch_def running_def started_def main_start_def)
qed

text \<open>What is left to decide once the options, the objects and the socket are there.\<close>

lemma runs_main:
  assumes "parse_args strtod default_options args = RunWith opts command" "me_display env \<noteq> None"
    and "me_backend_ok env" "me_renderer_ok env" "me_allocator_ok env" "me_socket env = Some socket"
  shows "main_program strtod env args =
    (case launch env command (running env socket) of
       Inl r \<Rightarrow> r
     | Inr s \<Rightarrow> finish 0 (steps (serve_clients (me_clients env) # x11_event (me_connection_lost env) # tear_down) s))"
  unfolding starts_main[OF assms(1-5)] run_compositor_def starts option.case assms(6) backend_start_def prod.case
    bool.case runs ..

lemma shut_down:
  assumes "parse_args strtod default_options args = RunWith opts command" "me_display env \<noteq> None"
    and "me_backend_ok env" "me_renderer_ok env" "me_allocator_ok env" "me_socket env = Some socket"
    and "command = None \<or> me_fork env \<noteq> 0" "\<not> me_connection_lost env"
  shows "\<exists>s. main_program strtod env args = Exits 0 s \<and> ms_clients s = 0 \<and> ms_alive s = [] \<and> ms_listening s = [] \<and> ms_sources s = []
    \<and> \<not> ms_clipboard s \<and> ms_killed s = (if command \<noteq> None \<and> 0 < me_fork env then [me_fork env] else [])"
proof -
  obtain e p where l: "launch env command (running env socket) =
      Inr ((running env socket)\<lparr>ms_exit_when_gone := e, ms_launched_pid := p\<rparr>)"
    "(if 0 < p then [p] else []) = (if command \<noteq> None \<and> 0 < me_fork env then [me_fork env] else [])"
    using launched[OF assms(7)] by blast
  have loop: "steps (serve_clients n # x11_event (me_connection_lost env) # fs) s = steps fs (s\<lparr>ms_clients := n\<rparr>)"
    for n fs and s :: main_state
    using assms(8) by (simp add: x11_event_def serve_clients_def)
  show ?thesis
    unfolding runs_main[OF assms(1-6)] l(1) sum.case loop tears_down l(2) finish_def option.case
    by (auto simp: main_start_def)
qed


text \<open>The backend cannot be destroyed while its new input devices are listened for.\<close>

lemma lost_connection: "x11_event True ((running env socket)\<lparr>ms_exit_when_gone := e, ms_launched_pid := p, ms_clients := n\<rparr>) = None"
  by (simp add: x11_event_def destroy_object_def running_def started_def)

text \<open>
  When the X server closes the connection, the backend destroys itself while \<open>main\<close> still
  listens for its input devices, and an assertion of wlroots aborts the process before the launched command is
  told to end. This is the only way it aborts.
\<close>

theorem lost_connection_aborts:
  "main_program strtod env args = Aborts \<longleftrightarrow>
    (\<exists>opts command. parse_args strtod default_options args = RunWith opts command
       \<and> (command = None \<or> me_fork env \<noteq> 0))
    \<and> me_display env \<noteq> None \<and> me_backend_ok env \<and> me_renderer_ok env \<and> me_allocator_ok env
    \<and> me_socket env \<noteq> None \<and> me_connection_lost env"
proof (cases "parse_args strtod default_options args")
  case (RunWith opts command)
  show ?thesis
  proof (cases "me_display env \<noteq> None \<and> me_backend_ok env \<and> me_renderer_ok env \<and> me_allocator_ok env")
    case True
    show ?thesis
    proof (cases "me_socket env")
      case None
      with True show ?thesis
        by (simp add: starts_main[OF RunWith] run_compositor_def starts del: steps.simps)
    next
      case (Some socket)
      then have m: "main_program strtod env args =
          (case launch env command (running env socket) of
             Inl r \<Rightarrow> r
           | Inr s \<Rightarrow> finish 0 (steps (serve_clients (me_clients env) # x11_event (me_connection_lost env) # tear_down) s))"
        using runs_main[OF RunWith] True by blast
      show ?thesis
      proof (cases "command = None \<or> me_fork env \<noteq> 0")
        case fork: True
        show ?thesis
        proof (cases "me_connection_lost env")
          case lost: True
          obtain e p where "launch env command (running env socket) =
              Inr ((running env socket)\<lparr>ms_exit_when_gone := e, ms_launched_pid := p\<rparr>)"
            using launched[OF fork] by blast
          then have "main_program strtod env args = Aborts"
            by (simp add: m lost lost_connection serve_clients_def finish_def)
          with True Some fork lost RunWith show ?thesis by simp
        next
          case False
          from shut_down[OF RunWith _ _ _ _ Some fork False] True False show ?thesis by auto
        qed
      next
        case False
        then have "main_program strtod env args \<noteq> Aborts" by (auto simp: m launch_def split: if_splits)
        with False RunWith show ?thesis by simp
      qed
    qed
  next
    case False
    then show ?thesis using RunWith by (auto simp: main_program_def Let_def)
  qed
qed (simp add: main_program_def)

end
