(* ===== verification/Seat_Witnesses.thy ===== *)
theory Seat_Witnesses
  imports Selection_Order Output_Layout Scroll X11_Input Main_Run
begin

text \<open>
  The properties of event serials, of selections, of monitors, of scrolling, of touches and of the body of \<open>main\<close> applied at concrete inputs.
\<close>

section \<open>Serials around the wrap\<close>

text \<open>The client is sent a serial, the display uses one for something else, the client is sent one
  more: 4294967295 and 1, while 0 was not its own.\<close>

abbreviation wrap_events :: "bool list" where "wrap_events \<equiv> [True, False, True]"

definition wrap_ring :: serial_ringset where
  "wrap_ring = snd (fold serial_step wrap_events (4294967294, empty_ringset))"

lemma wrap_run: "fold serial_step wrap_events (4294967294, empty_ringset) = (1, wrap_ring)"
  by (simp add: wrap_ring_def wlr_seat_client_next_serial_def wl_display_next_serial_def Let_def)

lemma wrap_count: "sr_count wrap_ring = 2"
  by (simp add: wrap_ring_def wlr_seat_client_next_serial_def wl_display_next_serial_def Let_def
      ringset_add_def empty_ringset_def WLR_SERIAL_RINGSET_SIZE_def)

lemma wrap_spec: "fold serial_spec wrap_events (4294967294, {}) = (4294967297, {4294967297, 4294967295})"
  by (simp add: Let_def)

lemma wrap_start: "fold serial_step wrap_events (of_nat 4294967294, empty_ringset) = (1, wrap_ring)"
  using wrap_run by (simp del: fold.simps fold_simps)

lemma word_past_wrap: "(of_nat 4294967296 :: 32 word) = 0" "(of_nat 4294967298 :: 32 word) = 2"
  "(of_nat 4294967295 :: 32 word) = 4294967295"
  by simp_all

theorem event_serials_checked_witness:
  "wlr_seat_client_validate_event_serial 1 wrap_ring 4294967295
   \<and> \<not> wlr_seat_client_validate_event_serial 1 wrap_ring 0
   \<and> \<not> wlr_seat_client_validate_event_serial 1 wrap_ring 2"
  using event_serials_checked[OF wrap_spec wrap_start, of 4294967295 1]
    event_serials_checked[OF wrap_spec wrap_start, of 4294967296 1]
  by (simp add: wrap_count WLR_SERIAL_RINGSET_SIZE_def word_past_wrap del: of_nat_add of_nat_numeral)

section \<open>Two clients and X11\<close>

text \<open>Client 1 is sent a serial, then client 2; client 2 sets the selection, client 1 is too late. X11 sets
  the primary selection.\<close>

definition late_requests :: "selection_event list" where
  "late_requests = [SendSerial 1, SendSerial 2, RequestSelection False 2 (Some 20) 4294967297,
     RequestSelection False 1 (Some 10) 4294967295, SetFromX11 True 30]"

lemma late_owners: "ow_now (fold owner_spec late_requests (no_owners 4294967294)) = 4294967298"
  "ow_sel (fold owner_spec late_requests (no_owners 4294967294)) = (\<lambda>_. None)(False := Some (20, 4294967297), True := Some (30, 4294967298))"
  by (simp_all add: late_requests_def no_owners_def not_older_def Let_def)

lemma late_ok: "requests_ok 4294967294 late_requests (no_owners 4294967294)"
  by (simp add: late_requests_def no_owners_def not_older_def Let_def)

theorem newest_selection_wins_witness:
  "sel_source (so_sel (fold selection_step late_requests (no_selections (of_nat 4294967294)))) = Some 20
   \<and> sel_source (so_pri (fold selection_step late_requests (no_selections (of_nat 4294967294)))) = Some 30"
  using newest_selection_wins[OF late_ok] unfolding late_owners by simp

section \<open>Two windows\<close>

text \<open>On a screen of 1920 by 1080 a window of 500 pixels is opened, then one of 600.\<close>

definition screen_env :: boot_env where
  "screen_env = \<lparr>be_backend = True, be_screen = Some (1920, 1080), be_output = Some 0, be_commit_ok = True,
     be_layout_ok = True, be_scene_output_ok = True\<rparr>"

definition two_windows :: stage where
  "two_windows = add_window_output 2 600 300 (add_window_output 1 500 400 (snd (create_bootstrap_output screen_env empty_stage)))"

lemmas layout_ops = create_bootstrap_output_def bootstrap_size_def screen_env_def empty_stage_def add_window_output_def
  change_layout_def scene_output_layout_handle_layout_change_def wlr_output_layout_add_def wlr_output_layout_add_auto_def
  output_layout_add_def output_layout_reconfigure_def output_layout_output_get_box_def INT_MIN_def Let_def
  layout_place_def wlr_scene_output_layout_add_output_def place_tree_def

lemma boot_layout: "lo_output ` set (st_layout (snd (create_bootstrap_output screen_env empty_stage))) = {0}"
  by (simp add: layout_ops)

lemma one_layout: "lo_output ` set (st_layout (add_window_output 1 500 400 (snd (create_bootstrap_output screen_env empty_stage)))) = {0, 1}"
  by (simp add: layout_ops)

lemma two_windows_reached: "stage_reach screen_env two_windows"
proof -
  have "stage_step (snd (create_bootstrap_output screen_env empty_stage))
      (add_window_output 1 500 400 (snd (create_bootstrap_output screen_env empty_stage)))"
    by (rule stage_open) (use boot_layout in auto)
  moreover have "stage_step (add_window_output 1 500 400 (snd (create_bootstrap_output screen_env empty_stage))) two_windows"
    unfolding two_windows_def by (rule stage_open) (use one_layout in auto)
  ultimately show ?thesis by (meson rtranclp.rtrancl_refl rtranclp.rtrancl_into_rtrancl)
qed

definition first_monitor :: layout_output where
  "first_monitor = \<lparr>lo_output = 1, lo_x = - 256, lo_y = 0, lo_auto = True, lo_width = 500, lo_height = 400\<rparr>"

definition second_monitor :: layout_output where
  "second_monitor = \<lparr>lo_output = 2, lo_x = 244, lo_y = 0, lo_auto = True, lo_width = 600, lo_height = 300\<rparr>"

definition boot_monitor :: layout_output where
  "boot_monitor = \<lparr>lo_output = 0, lo_x = - 2176, lo_y = 0, lo_auto = False, lo_width = 1920, lo_height = 1080\<rparr>"

lemma two_windows_state:
  "st_layout two_windows = [boot_monitor] @ first_monitor # [] @ second_monitor # []"
  "shown_at two_windows 2 = Some (244, 0)" "st_trees two_windows 2 = (244, 0)"
  by (simp_all add: two_windows_def layout_ops shown_at_def first_monitor_def second_monitor_def boot_monitor_def)

theorem monitors_never_overlap_witness:
  "\<not> wlr_box_intersects (Some (output_layout_output_get_box first_monitor)) (Some (output_layout_output_get_box second_monitor))
   \<and> \<not> wlr_box_intersects (Some (output_layout_output_get_box second_monitor))
        (Some \<lparr>box_x = WLX_POPUP_SCENE_PARK_X, box_y = WLX_POPUP_SCENE_PARK_Y, box_width = 800, box_height = 600\<rparr>)"
  using monitors_never_overlap[OF two_windows_reached, of 2 600 800] by (auto simp: two_windows_state dest!: spec[of _ 1])

theorem relayout_displaces_content_witness:
  "shown_at (destroy_window_output 1 two_windows) 2 = Some (- 256, 0) \<and> st_trees (destroy_window_output 1 two_windows) 2 = (244, 0)
   \<and> shown_at (host_sizes_output 1 800 400 two_windows) 2 = Some (544, 0)"
  using relayout_displaces_content[OF two_windows_reached two_windows_state(1) _ _ _ two_windows_state(2,3), of 1 800 400]
  by (simp add: first_monitor_def second_monitor_def)

section \<open>A click of the wheel\<close>

text \<open>A client with an old and a new pointer object gets the focus, and the wheel is clicked down.\<close>

definition idle_scroll :: scroll_state where
  "idle_scroll = \<lparr>ax_surface = None, ax_client = None, ax_core_grab = False, ax_sent_source = False, ax_cached_source = SourceWheel,
     ax_acc = \<lambda>_ _. zero120, ax_pointers = \<lambda>_. [(1, 4), (0, 8)], ax_log = []\<rparr>"

theorem wheel_clicks_reach_client_witness:
  "map_option ax_log (scroll_run [ScClick False, ScEnter (Some 5) (Some 7), ScClick True, ScGrab True, ScClick True] idle_scroll) =
     Some [(1, MsgEnter 5), (0, MsgEnter 5), (0, MsgFrame), (1, MsgAxis VerticalScroll 15),
       (0, MsgSource SourceWheel), (0, MsgValue120 VerticalScroll 120), (0, MsgAxis VerticalScroll 15),
       (0, MsgFrame)]"
proof -
  have "scroll_idle idle_scroll" "ax_surface idle_scroll = None \<longrightarrow> ax_client idle_scroll = None"
    by (simp_all add: scroll_idle_def idle_scroll_def zero120_def)
  from wheel_clicks_reach_client[OF this,
      of "[ScClick False, ScEnter (Some 5) (Some 7), ScClick True, ScGrab True, ScClick True]"] show ?thesis
    by (auto simp: idle_scroll_def to_pointers_def to_client_def focus_messages_def click_messages_def
        frame_messages_def simp del: scroll_run.simps)
qed

section \<open>Two touches\<close>

text \<open>Two fingers on a window, the first is lifted.\<close>

definition one_output :: x11_input where
  "one_output = xi_start\<lparr>xi_outputs := [\<lparr>io_win = 7, io_width = 100, io_height = 50, io_touches = []\<rparr>]\<rparr>"

definition two_touches :: x11_input where
  "two_touches = handle_x11_xinput_event True (XiTouchEnd 7 31 12)
     (handle_x11_xinput_event True (XiTouchBegin 7 32 655360 0 11)
       (handle_x11_xinput_event True (XiTouchBegin 7 31 0 0 10) one_output))"

lemma two_touches_reached: "xi_reach two_touches"
proof -
  have "xi_step xi_start one_output"
    using xi_created[of 7 xi_start 100 50] by (simp add: one_output_def xi_start_def)
  then have "xi_reach one_output" by (rule r_into_rtranclp)
  moreover have "xi_reach (handle_x11_xinput_event True ev x)" if "xi_reach x" for ev x
    using that xi_input[of x True ev] by (rule rtranclp.rtrancl_into_rtrancl)
  ultimately show ?thesis unfolding two_touches_def by blast
qed

lemma two_touches_ids: "touch_ids 7 two_touches = {1}"
  by (simp add: two_touches_def one_output_def xi_start_def with_output_def output_for_event_window_def
      get_x11_output_from_window_id_def get_touchpoint_from_x11_touch_id_def next_touch_id_def set_touches_def
      xi_say_def touch_ids_def Let_def)

theorem touches_keep_their_id_witness:
  "touches_down 7 (xi_log two_touches) = Some {1} \<and> {1} \<subseteq> {0..<int (downs (xi_log two_touches))}"
  using touches_keep_their_id[OF two_touches_reached, of 7] unfolding two_touches_ids .

section \<open>A run of the program\<close>

definition good_host :: main_env where
  "good_host = \<lparr>me_display = Some '':0'', me_backend_ok = True, me_renderer_ok = True,
     me_allocator_ok = True, me_cursor_manager_ok = False, me_xcb = XcbOk,
     me_socket = Some ''wayland-1'', me_sigint_ok = True, me_sigterm_ok = False,
     me_fork = 4711, me_exec_ok = True,
     me_connection_lost = False, me_clients = 2\<rparr>"

text \<open>\<open>wl-x11 foot\<close>.\<close>

lemma foot_args: "parse_args (\<lambda>_. (NaN, 0)) default_options [''foot''] = RunWith default_options (Some [''foot''])"
  by (simp add: arg_kind_def)


text \<open>The same run when the X server goes away.\<close>

theorem lost_connection_aborts_witness:
  "main_program (\<lambda>_. (NaN, 0)) (good_host\<lparr>me_connection_lost := True\<rparr>) [''foot''] = Aborts"
  unfolding lost_connection_aborts using foot_args by (simp add: good_host_def)

end
