(* ===== verification/Xdg_Configure.thy ===== *)
theory Xdg_Configure
  imports Window_Steps Serials Boxes
begin

text \<open>
  The configure events of a toplevel: how the compositor's requests on it
  (\<open>wlr_xdg_toplevel_set_size\<close> and the like) become events to the client, and how the client's
  acknowledgements and commits bring their contents into force
  (\<open>src/subprojects/wlroots/types/xdg_shell/wlr_xdg_surface.c\<close>, \<open>wlr_xdg_toplevel.c\<close>, the commit of
  \<open>wlr_compositor.c\<close>). The window's handlers are those of theory \<open>Window_Steps\<close>; each call they make
  is served here, with wlroots' assertions as errors. A session is one toplevel from
  \<open>get_toplevel\<close> on; the surface's pending states are not locked.
\<close>

section \<open>State\<close>

text \<open>\<open>struct wlr_xdg_toplevel_configure\<close>.\<close>

record toplevel_configure =
  cf_fields :: "32 word"
  cf_maximized :: bool
  cf_fullscreen :: bool
  cf_resizing :: bool
  cf_activated :: bool
  cf_suspended :: bool
  cf_tiled :: "32 word"
  cf_constrained :: "32 word"
  cf_width :: int
  cf_height :: int
  cf_bounds :: "int \<times> int"
  cf_wm_capabilities :: "32 word"

text \<open>The rest of \<open>struct wlr_xdg_toplevel_state\<close>.\<close>

record xdg_toplevel_state = toplevel_state +
  st_resizing :: bool
  st_activated :: bool
  st_suspended :: bool
  st_tiled :: "32 word"
  st_constrained :: "32 word"
  st_width :: int
  st_height :: int

text \<open>\<open>enum xdg_toplevel_state\<close> and \<open>enum xdg_toplevel_wm_capabilities\<close> of the protocol, and the
  events the client receives.\<close>

datatype (plugins only: code size) xdg_state =
    MAXIMIZED | FULLSCREEN | RESIZING | ACTIVATED | SUSPENDED
  | TILED_LEFT | TILED_RIGHT | TILED_TOP | TILED_BOTTOM
  | CONSTRAINED_LEFT | CONSTRAINED_RIGHT | CONSTRAINED_TOP | CONSTRAINED_BOTTOM

datatype (plugins only: code size) wm_capability = CAN_WINDOW_MENU | CAN_MAXIMIZE | CAN_FULLSCREEN | CAN_MINIMIZE

datatype (plugins only: code size) xdg_event =
    ConfigureBounds int int
  | WmCapabilities "wm_capability list"
  | ToplevelConfigure int int "xdg_state list"
  | SurfaceConfigure "32 word"

text \<open>
  \<open>struct wlr_xdg_surface\<close> with its toplevel and what matters here of its \<open>wlr_surface\<close>. The client
  bound version \<open>b_version\<close> of the protocol. \<open>b_idle\<close> says that \<open>configure_idle\<close> is set;
  \<open>b_sent\<close> and \<open>b_events\<close> record the configures and events sent, for the properties.
\<close>

record xdg_base =
  b_version :: nat
  b_mapped :: bool
  b_has_buffer :: bool
  b_next_buffer :: bool
  b_configured :: bool
  b_idle :: bool
  b_scheduled_serial :: "32 word"
  b_configure_list :: "(32 word \<times> toplevel_configure) list"
  b_initialized :: bool
  b_initial_commit :: bool
  b_scheduled :: toplevel_configure
  b_current :: xdg_toplevel_state
  b_pending :: xdg_toplevel_state
  b_sent :: "(32 word \<times> toplevel_configure) list"
  b_events :: "xdg_event list"

text \<open>What ends a session: a failed assertion ends the compositor, a protocol error the client.\<close>

datatype (plugins only: code size) xdg_fault =
    Assertion
  | InvalidSurfaceState
  | UnconfiguredBuffer
  | InvalidSize

section \<open>Scheduling a configure\<close>

text \<open>The calls work on the serial of the display and the surface. \<open>main\<close> creates version 5 of the
  global.\<close>

definition XDG_SHELL_VERSION :: nat where "XDG_SHELL_VERSION = 5"

type_synonym serial_base = "32 word \<times> xdg_base"

definition wlr_xdg_surface_schedule_configure :: "serial_base \<Rightarrow> xdg_fault + serial_base" where
  "wlr_xdg_surface_schedule_configure sb =
     (case sb of (serial, b) \<Rightarrow>
        if \<not> b_initialized b then Inl Assertion
        else if b_idle b then Inr (serial, b)
        else let next = wl_display_next_serial serial
             in Inr (next, b\<lparr>b_scheduled_serial := next, b_idle := True\<rparr>))"

definition upd_scheduled :: "(toplevel_configure \<Rightarrow> toplevel_configure) \<Rightarrow> serial_base \<Rightarrow> serial_base" where
  "upd_scheduled f sb = (fst sb, (snd sb)\<lparr>b_scheduled := f (b_scheduled (snd sb))\<rparr>)"

definition wlr_xdg_toplevel_set_size :: "int \<Rightarrow> int \<Rightarrow> serial_base \<Rightarrow> xdg_fault + serial_base" where
  "wlr_xdg_toplevel_set_size width height sb =
     (if width < 0 \<or> height < 0 then Inl Assertion
      else wlr_xdg_surface_schedule_configure
             (upd_scheduled (\<lambda>c. c\<lparr>cf_width := width, cf_height := height\<rparr>) sb))"

definition wlr_xdg_toplevel_set_activated :: "bool \<Rightarrow> serial_base \<Rightarrow> xdg_fault + serial_base" where
  "wlr_xdg_toplevel_set_activated activated sb =
     wlr_xdg_surface_schedule_configure (upd_scheduled (\<lambda>c. c\<lparr>cf_activated := activated\<rparr>) sb)"

definition wlr_xdg_toplevel_set_maximized :: "bool \<Rightarrow> serial_base \<Rightarrow> xdg_fault + serial_base" where
  "wlr_xdg_toplevel_set_maximized maximized sb =
     wlr_xdg_surface_schedule_configure (upd_scheduled (\<lambda>c. c\<lparr>cf_maximized := maximized\<rparr>) sb)"

definition wlr_xdg_toplevel_set_fullscreen :: "bool \<Rightarrow> serial_base \<Rightarrow> xdg_fault + serial_base" where
  "wlr_xdg_toplevel_set_fullscreen fullscreen sb =
     wlr_xdg_surface_schedule_configure (upd_scheduled (\<lambda>c. c\<lparr>cf_fullscreen := fullscreen\<rparr>) sb)"

definition CONFIGURE_BOUNDS :: "32 word" where "CONFIGURE_BOUNDS = 1"
definition CONFIGURE_WM_CAPABILITIES :: "32 word" where "CONFIGURE_WM_CAPABILITIES = 2"

definition wlr_xdg_toplevel_set_wm_capabilities :: "32 word \<Rightarrow> serial_base \<Rightarrow> xdg_fault + serial_base" where
  "wlr_xdg_toplevel_set_wm_capabilities caps sb =
     (if XDG_SHELL_VERSION < 5 then Inl Assertion
      else wlr_xdg_surface_schedule_configure
             (upd_scheduled (\<lambda>c. c\<lparr>cf_fields := or (cf_fields c) CONFIGURE_WM_CAPABILITIES,
                                  cf_wm_capabilities := caps\<rparr>) sb))"

text \<open>The decoration's own mode is sent by a listener of the configure and is left out.\<close>

definition wlr_xdg_toplevel_decoration_v1_set_mode :: "deco_mode \<Rightarrow> serial_base \<Rightarrow> xdg_fault + serial_base" where
  "wlr_xdg_toplevel_decoration_v1_set_mode mode sb = wlr_xdg_surface_schedule_configure sb"

section \<open>Sending it\<close>

definition has_edge :: "32 word \<Rightarrow> 32 word \<Rightarrow> bool" where
  "has_edge edges e \<longleftrightarrow> and edges e \<noteq> 0"

definition edge_states :: "(32 word \<times> xdg_state) list \<Rightarrow> 32 word \<Rightarrow> xdg_state list" where
  "edge_states table edges = map snd (filter (\<lambda>(e, s). has_edge edges e) table)"

definition tiled_table :: "(32 word \<times> xdg_state) list" where
  "tiled_table = [(WLR_EDGE_LEFT, TILED_LEFT), (WLR_EDGE_RIGHT, TILED_RIGHT),
                  (WLR_EDGE_TOP, TILED_TOP), (WLR_EDGE_BOTTOM, TILED_BOTTOM)]"

definition constrained_table :: "(32 word \<times> xdg_state) list" where
  "constrained_table = [(WLR_EDGE_LEFT, CONSTRAINED_LEFT), (WLR_EDGE_RIGHT, CONSTRAINED_RIGHT),
                        (WLR_EDGE_TOP, CONSTRAINED_TOP), (WLR_EDGE_BOTTOM, CONSTRAINED_BOTTOM)]"

text \<open>The versions are those in which the protocol introduced the states.\<close>

definition configure_states :: "nat \<Rightarrow> toplevel_configure \<Rightarrow> xdg_state list" where
  "configure_states version c =
     (if cf_maximized c then [MAXIMIZED] else []) @ (if cf_fullscreen c then [FULLSCREEN] else [])
     @ (if cf_resizing c then [RESIZING] else []) @ (if cf_activated c then [ACTIVATED] else [])
     @ (if cf_tiled c \<noteq> 0 \<and> 2 \<le> version then edge_states tiled_table (cf_tiled c) else [])
     @ (if cf_suspended c \<and> 6 \<le> version then [SUSPENDED] else [])
     @ (if cf_constrained c \<noteq> 0 \<and> 7 \<le> version then edge_states constrained_table (cf_constrained c) else [])"

text \<open>The client reads back what is scheduled, and the array of 32 states is never full.\<close>

lemma configure_states_read_back:
  "MAXIMIZED \<in> set (configure_states v c) \<longleftrightarrow> cf_maximized c"
  "FULLSCREEN \<in> set (configure_states v c) \<longleftrightarrow> cf_fullscreen c"
  "RESIZING \<in> set (configure_states v c) \<longleftrightarrow> cf_resizing c"
  "ACTIVATED \<in> set (configure_states v c) \<longleftrightarrow> cf_activated c"
  "SUSPENDED \<in> set (configure_states v c) \<longleftrightarrow> cf_suspended c \<and> 6 \<le> v"
  "TILED_LEFT \<in> set (configure_states v c) \<longleftrightarrow> has_edge (cf_tiled c) WLR_EDGE_LEFT \<and> 2 \<le> v"
  "TILED_BOTTOM \<in> set (configure_states v c) \<longleftrightarrow> has_edge (cf_tiled c) WLR_EDGE_BOTTOM \<and> 2 \<le> v"
  by (auto simp: configure_states_def edge_states_def tiled_table_def constrained_table_def has_edge_def)

lemma configure_states_length: "length (configure_states v c) \<le> 13"
proof -
  have "length (edge_states tiled_table e) \<le> 4" "length (edge_states constrained_table e) \<le> 4" for e
    using length_filter_le[of _ tiled_table] length_filter_le[of _ constrained_table]
    by (simp_all add: edge_states_def tiled_table_def constrained_table_def)
  then have "length (edge_states tiled_table (cf_tiled c)) + length (edge_states constrained_table (cf_constrained c)) \<le> 8"
    by (metis add_mono numeral_Bit0)
  then show ?thesis by (simp add: configure_states_def)
qed

definition configure_caps :: "toplevel_configure \<Rightarrow> wm_capability list" where
  "configure_caps c =
     (if bit (cf_wm_capabilities c) 0 then [CAN_WINDOW_MENU] else [])
     @ (if bit (cf_wm_capabilities c) 1 then [CAN_MAXIMIZE] else [])
     @ (if bit (cf_wm_capabilities c) 2 then [CAN_FULLSCREEN] else [])
     @ (if bit (cf_wm_capabilities c) 3 then [CAN_MINIMIZE] else [])"

definition send_xdg_toplevel_configure :: "xdg_base \<Rightarrow> xdg_event list \<times> toplevel_configure \<times> xdg_base" where
  "send_xdg_toplevel_configure b =
     (let c = b_scheduled b; version = b_version b
      in ((if and (cf_fields c) CONFIGURE_BOUNDS \<noteq> 0 \<and> 4 \<le> version
           then [ConfigureBounds (fst (cf_bounds c)) (snd (cf_bounds c))] else [])
          @ (if and (cf_fields c) CONFIGURE_WM_CAPABILITIES \<noteq> 0 \<and> 5 \<le> version
             then [WmCapabilities (configure_caps c)] else [])
          @ [ToplevelConfigure (cf_width c) (cf_height c) (configure_states version c)],
          c, b\<lparr>b_scheduled := c\<lparr>cf_fields := 0\<rparr>\<rparr>))"

text \<open>The idle callback.\<close>

definition surface_send_configure :: "xdg_base \<Rightarrow> xdg_base" where
  "surface_send_configure b =
     (case send_xdg_toplevel_configure (b\<lparr>b_idle := False\<rparr>) of (evs, c, b1) \<Rightarrow>
        b1\<lparr>b_configure_list := b_configure_list b @ [(b_scheduled_serial b, c)],
           b_sent := b_sent b @ [(b_scheduled_serial b, c)],
           b_events := b_events b @ evs @ [SurfaceConfigure (b_scheduled_serial b)]\<rparr>)"

section \<open>Acknowledging it\<close>

definition handle_xdg_toplevel_ack_configure :: "toplevel_configure \<Rightarrow> xdg_toplevel_state \<Rightarrow> xdg_toplevel_state" where
  "handle_xdg_toplevel_ack_configure c st =
     st\<lparr>st_maximized := cf_maximized c, st_fullscreen := cf_fullscreen c, st_resizing := cf_resizing c,
        st_activated := cf_activated c, st_tiled := cf_tiled c, st_constrained := cf_constrained c,
        st_suspended := cf_suspended c, st_width := cf_width c, st_height := cf_height c\<rparr>"

definition xdg_surface_handle_ack_configure :: "32 word \<Rightarrow> xdg_base \<Rightarrow> xdg_fault + xdg_base" where
  "xdg_surface_handle_ack_configure serial b =
     (case dropWhile (\<lambda>c. fst c \<noteq> serial) (b_configure_list b) of
        [] \<Rightarrow> Inl InvalidSurfaceState
      | c # later \<Rightarrow> Inr (b\<lparr>b_pending := handle_xdg_toplevel_ack_configure (snd c) (b_pending b),
                          b_configured := True, b_configure_list := later\<rparr>))"

section \<open>Sessions\<close>

text \<open>The display's serial, the surface, and the compositor's window with an empty trace.\<close>

record xdg_session =
  xs_serial :: "32 word"
  xs_base :: xdg_base
  xs_win :: wlx_window

text \<open>The first configure carries all four capabilities.\<close>

definition ALL_WM_CAPABILITIES :: "32 word" where "ALL_WM_CAPABILITIES = 15"

definition create_xdg_toplevel :: "nat \<Rightarrow> xdg_base" where
  "create_xdg_toplevel version =
     \<lparr>b_version = version, b_mapped = False, b_has_buffer = False, b_next_buffer = False,
      b_configured = False, b_idle = False, b_scheduled_serial = 0, b_configure_list = [],
      b_initialized = False, b_initial_commit = False,
      b_scheduled = \<lparr>cf_fields = (if 5 \<le> XDG_SHELL_VERSION then CONFIGURE_WM_CAPABILITIES else 0),
        cf_maximized = False, cf_fullscreen = False, cf_resizing = False, cf_activated = False,
        cf_suspended = False, cf_tiled = 0, cf_constrained = 0, cf_width = 0, cf_height = 0,
        cf_bounds = (0, 0),
        cf_wm_capabilities = (if 5 \<le> XDG_SHELL_VERSION then ALL_WM_CAPABILITIES else 0)\<rparr>,
      b_current = \<lparr>st_maximized = False, st_fullscreen = False, st_min_width = 0, st_min_height = 0,
        st_max_width = 0, st_max_height = 0, st_resizing = False, st_activated = False,
        st_suspended = False, st_tiled = 0, st_constrained = 0, st_width = 0, st_height = 0\<rparr>,
      b_pending = \<lparr>st_maximized = False, st_fullscreen = False, st_min_width = 0, st_min_height = 0,
        st_max_width = 0, st_max_height = 0, st_resizing = False, st_activated = False,
        st_suspended = False, st_tiled = 0, st_constrained = 0, st_width = 0, st_height = 0\<rparr>,
      b_sent = [], b_events = []\<rparr>"

definition fresh_toplevel :: wlr_toplevel where
  "fresh_toplevel =
     (let st = toplevel_state.truncate (b_current (create_xdg_toplevel 0))
      in \<lparr>tl_current = st, tl_pending = st, tl_requested_maximized = False, tl_requested_fullscreen = False,
          tl_geometry = Box 0 0 0 0, tl_surf_width = 0, tl_surf_height = 0, tl_title = None,
          tl_app_id = None, tl_parent = None\<rparr>)"

definition new_session :: "nat \<Rightarrow> 32 word \<Rightarrow> wid \<Rightarrow> scene_node \<Rightarrow> xdg_session" where
  "new_session version serial i tree =
     \<lparr>xs_serial = serial, xs_base = create_xdg_toplevel version,
      xs_win = server_new_xdg_toplevel i fresh_toplevel tree\<rparr>"

text \<open>The calls a handler made on the toplevel; those on X objects do not concern it.\<close>

fun serve :: "wlr_call \<Rightarrow> serial_base \<Rightarrow> xdg_fault + serial_base" where
  "serve (SetSize w h) sb = wlr_xdg_toplevel_set_size w h sb"
| "serve (SetMaximized on) sb = wlr_xdg_toplevel_set_maximized on sb"
| "serve (SetFullscreen on) sb = wlr_xdg_toplevel_set_fullscreen on sb"
| "serve (SetActivated i on) sb = wlr_xdg_toplevel_set_activated on sb"
| "serve SetWmCapabilities sb = wlr_xdg_toplevel_set_wm_capabilities ALL_WM_CAPABILITIES sb"
| "serve ScheduleConfigure sb = wlr_xdg_surface_schedule_configure sb"
| "serve (SetDecorationMode d mode) sb = wlr_xdg_toplevel_decoration_v1_set_mode mode sb"
| "serve _ sb = Inr sb"

fun serve_all :: "wlr_call list \<Rightarrow> serial_base \<Rightarrow> xdg_fault + serial_base" where
  "serve_all [] sb = Inr sb"
| "serve_all (c # cs) sb = (case serve c sb of Inl f \<Rightarrow> Inl f | Inr sb1 \<Rightarrow> serve_all cs sb1)"

definition run_handler :: "(wlx_window \<Rightarrow> wlx_window) \<Rightarrow> xdg_session \<Rightarrow> xdg_fault + xdg_session" where
  "run_handler h s =
     (let w = h (xs_win s)
      in case serve_all (w_log w) (xs_serial s, xs_base s) of
           Inl f \<Rightarrow> Inl f
         | Inr (serial, b) \<Rightarrow> Inr \<lparr>xs_serial = serial, xs_base = b, xs_win = w\<lparr>w_log := []\<rparr>\<rparr>)"

definition upd_toplevel :: "(wlr_toplevel \<Rightarrow> wlr_toplevel) \<Rightarrow> xdg_session \<Rightarrow> xdg_session" where
  "upd_toplevel f s = s\<lparr>xs_win := (xs_win s)\<lparr>toplevel := f (toplevel (xs_win s))\<rparr>\<rparr>"

text \<open>The handlers read the toplevel's states through the surface.\<close>

definition see_states :: "xdg_session \<Rightarrow> xdg_session" where
  "see_states s =
     upd_toplevel (\<lambda>t. t\<lparr>tl_current := toplevel_state.truncate (b_current (xs_base s)),
                       tl_pending := toplevel_state.truncate (b_pending (xs_base s))\<rparr>) s"

section \<open>A commit of the client\<close>

text \<open>What was attached since the last commit.\<close>

datatype (plugins only: code size) attachment = NothingAttached | NullAttached | BufferAttached

text \<open>What a commit shows: window geometry, surface size and the scene of the window; and what the
  handlers it runs learn from outside.\<close>

record commit_data =
  cd_attach :: attachment
  cd_geometry :: wlr_box
  cd_size :: "int \<times> int"
  cd_tree :: "scene_node option"
  cd_popups :: "nat list"
  cd_map_env :: wlx_env
  cd_parent_win :: "wlx_window option"
  cd_output :: new_output
  cd_env :: wlx_env

definition invalid_limits :: "xdg_toplevel_state \<Rightarrow> bool" where
  "invalid_limits st \<longleftrightarrow>
     st_min_width st < 0 \<or> st_min_height st < 0 \<or> st_max_width st < 0 \<or> st_max_height st < 0
     \<or> st_max_width st \<noteq> 0 \<and> st_max_width st < st_min_width st
     \<or> st_max_height st \<noteq> 0 \<and> st_max_height st < st_min_height st"

definition handle_xdg_toplevel_client_commit :: "xdg_base \<Rightarrow> xdg_fault + unit" where
  "handle_xdg_toplevel_client_commit b = (if invalid_limits (b_pending b) then Inl InvalidSize else Inr ())"

definition xdg_surface_role_client_commit :: "xdg_base \<Rightarrow> xdg_fault + unit" where
  "xdg_surface_role_client_commit b =
     (if b_next_buffer b \<and> \<not> b_configured b then Inl UnconfiguredBuffer
      else handle_xdg_toplevel_client_commit b)"

definition reset_xdg_toplevel :: "xdg_session \<Rightarrow> xdg_session" where
  "reset_xdg_toplevel =
     upd_toplevel (\<lambda>t. t\<lparr>tl_parent := None, tl_title := None, tl_app_id := None,
                       tl_requested_fullscreen := False, tl_requested_maximized := False\<rparr>)"

definition reset_xdg_surface :: "xdg_base \<Rightarrow> xdg_base" where
  "reset_xdg_surface b = b\<lparr>b_configured := False, b_initialized := False, b_configure_list := [], b_idle := False\<rparr>"

definition wlr_surface_unmap :: "xdg_session \<Rightarrow> xdg_fault + xdg_session" where
  "wlr_surface_unmap s =
     (if \<not> b_mapped (xs_base s) then Inr s
      else run_handler wlr_output_destroy (s\<lparr>xs_base := (xs_base s)\<lparr>b_mapped := False\<rparr>\<rparr>))"

definition wlr_surface_map :: "wlx_config \<Rightarrow> commit_data \<Rightarrow> xdg_session \<Rightarrow> xdg_fault + xdg_session" where
  "wlr_surface_map cfg cd s =
     (if b_mapped (xs_base s) then Inr s
      else if \<not> b_has_buffer (xs_base s) then Inl Assertion
      else run_handler (win_step cfg (cd_map_env cd) (cd_popups cd) (EvMap (cd_parent_win cd) (cd_output cd)))
             (s\<lparr>xs_base := (xs_base s)\<lparr>b_mapped := True\<rparr>\<rparr>))"

text \<open>The surface's \<open>unmap_commit\<close> is passed on. The geometry is part of \<open>commit_data\<close>.\<close>

definition role_commit_flags :: "bool \<Rightarrow> xdg_session \<Rightarrow> xdg_fault + xdg_session" where
  "role_commit_flags unmap_commit s =
     (if unmap_commit then
        let s1 = reset_xdg_toplevel s; b = reset_xdg_surface (xs_base s1)
        in if b_initialized b \<or> b_initial_commit b then Inl Assertion
           else Inr (s1\<lparr>xs_base := b\<lparr>b_initial_commit := False\<rparr>\<rparr>)
      else Inr (s\<lparr>xs_base := (xs_base s)\<lparr>b_initial_commit := \<not> b_initialized (xs_base s), b_initialized := True\<rparr>\<rparr>))"

definition xdg_surface_role_commit ::
  "wlx_config \<Rightarrow> commit_data \<Rightarrow> bool \<Rightarrow> xdg_session \<Rightarrow> xdg_fault + xdg_session" where
  "xdg_surface_role_commit cfg cd unmap_commit s =
     (case role_commit_flags unmap_commit s of
        Inl f \<Rightarrow> Inl f
      | Inr s1 \<Rightarrow> if \<not> b_mapped (xs_base s1) \<and> b_has_buffer (xs_base s1) then wlr_surface_map cfg cd s1
                  else Inr s1)"

text \<open>The pending states become current.\<close>

definition move_states :: "commit_data \<Rightarrow> xdg_session \<Rightarrow> xdg_session" where
  "move_states cd s =
     (let b = xs_base s; s1 = see_states (s\<lparr>xs_base := b\<lparr>b_current := b_pending b, b_has_buffer := b_next_buffer b\<rparr>\<rparr>)
      in upd_toplevel (\<lambda>t. t\<lparr>tl_geometry := cd_geometry cd, tl_surf_width := fst (cd_size cd),
                           tl_surf_height := snd (cd_size cd)\<rparr>)
           (s1\<lparr>xs_win := (xs_win s1)\<lparr>scene_tree := cd_tree cd\<rparr>\<rparr>))"

definition surface_commit_state :: "wlx_config \<Rightarrow> commit_data \<Rightarrow> xdg_session \<Rightarrow> xdg_fault + xdg_session" where
  "surface_commit_state cfg cd s =
     (let unmap_commit = (cd_attach cd = NullAttached \<and> b_mapped (xs_base s))
      in case (if cd_attach cd = NullAttached then wlr_surface_unmap s else Inr s) of
           Inl f \<Rightarrow> Inl f
         | Inr s1 \<Rightarrow>
           (case xdg_surface_role_commit cfg cd unmap_commit (move_states cd s1) of
              Inl f \<Rightarrow> Inl f
            | Inr s2 \<Rightarrow> run_handler (win_step cfg (cd_env cd) (cd_popups cd) EvCommit) s2))"

definition surface_finalize_pending :: "attachment \<Rightarrow> xdg_base \<Rightarrow> xdg_base" where
  "surface_finalize_pending a b =
     (case a of NothingAttached \<Rightarrow> b | NullAttached \<Rightarrow> b\<lparr>b_next_buffer := False\<rparr>
      | BufferAttached \<Rightarrow> b\<lparr>b_next_buffer := True\<rparr>)"

definition surface_handle_commit :: "wlx_config \<Rightarrow> commit_data \<Rightarrow> xdg_session \<Rightarrow> xdg_fault + xdg_session" where
  "surface_handle_commit cfg cd s =
     (let b = surface_finalize_pending (cd_attach cd) (xs_base s)
      in case xdg_surface_role_client_commit b of
           Inl f \<Rightarrow> Inl f
         | Inr _ \<Rightarrow> surface_commit_state cfg cd (s\<lparr>xs_base := b\<rparr>))"

section \<open>Runs of a session\<close>

datatype (plugins only: code size) session_event =
    Commit commit_data
  | Ack "32 word"
  | MinSize int int
  | MaxSize int int
  | Describe "string option" "string option" "wid option"
  | RequestMaximized bool
  | RequestFullscreen bool
  | RequestMinimized
  | RequestDecoration nat
  | HostEvent wlx_env "nat list" win_event
  | Activate bool
  | SendIdle
  | OtherSerial

text \<open>Events of the X server; the others have steps of their own.\<close>

fun is_host_event :: "win_event \<Rightarrow> bool" where
  "is_host_event (EvConfigure _) = True"
| "is_host_event EvNetWmState = True"
| "is_host_event (EvReparent _ _ _) = True"
| "is_host_event EvFrame = True"
| "is_host_event EvRequestClose = True"
| "is_host_event _ = False"

text \<open>The handlers of requests ask the environment nothing.\<close>

definition request :: "wlx_config \<Rightarrow> win_event \<Rightarrow> xdg_session \<Rightarrow> xdg_fault + xdg_session" where
  "request cfg ev s =
     run_handler (\<lambda>w. (case ev of
        EvRequestMaximize \<Rightarrow> toplevel_request_maximize cfg w
      | EvRequestFullscreen \<Rightarrow> toplevel_request_fullscreen cfg w
      | EvRequestMinimize \<Rightarrow> toplevel_request_minimize cfg w
      | EvDecoration d \<Rightarrow> decoration_request_mode cfg d w
      | _ \<Rightarrow> w)) s"

text \<open>\<open>set_active_window\<close> calls \<open>set_activated\<close> on windows that have an output: \<open>output_destroy\<close> clears
  \<open>focused_window\<close>, and focus moves to a window by its X id or when it has just been mapped.\<close>

fun xdg_step :: "wlx_config \<Rightarrow> session_event \<Rightarrow> xdg_session \<Rightarrow> xdg_fault + xdg_session" where
  "xdg_step cfg (Commit cd) s = surface_handle_commit cfg cd s"
| "xdg_step cfg (Ack serial) s =
     (case xdg_surface_handle_ack_configure serial (xs_base s) of
        Inl f \<Rightarrow> Inl f | Inr b \<Rightarrow> Inr (see_states (s\<lparr>xs_base := b\<rparr>)))"
| "xdg_step cfg (MinSize w h) s =
     Inr (see_states (s\<lparr>xs_base := (xs_base s)\<lparr>b_pending := (b_pending (xs_base s))\<lparr>st_min_width := w, st_min_height := h\<rparr>\<rparr>\<rparr>))"
| "xdg_step cfg (MaxSize w h) s =
     Inr (see_states (s\<lparr>xs_base := (xs_base s)\<lparr>b_pending := (b_pending (xs_base s))\<lparr>st_max_width := w, st_max_height := h\<rparr>\<rparr>\<rparr>))"
| "xdg_step cfg (Describe title app parent) s =
     Inr (upd_toplevel (\<lambda>t. t\<lparr>tl_title := title, tl_app_id := app, tl_parent := parent\<rparr>) s)"
| "xdg_step cfg (RequestMaximized on) s =
     request cfg EvRequestMaximize (upd_toplevel (\<lambda>t. t\<lparr>tl_requested_maximized := on\<rparr>) s)"
| "xdg_step cfg (RequestFullscreen on) s =
     request cfg EvRequestFullscreen (upd_toplevel (\<lambda>t. t\<lparr>tl_requested_fullscreen := on\<rparr>) s)"
| "xdg_step cfg RequestMinimized s = request cfg EvRequestMinimize s"
| "xdg_step cfg (RequestDecoration d) s = request cfg (EvDecoration d) s"
| "xdg_step cfg (HostEvent env popups ev) s =
     (if is_host_event ev then run_handler (win_step cfg env popups ev) s else Inr s)"
| "xdg_step cfg (Activate on) s =
     (if w_output (xs_win s) = None then Inr s else run_handler (emit (SetActivated (w_id (xs_win s)) on)) s)"
| "xdg_step cfg SendIdle s =
     Inr (if b_idle (xs_base s) then s\<lparr>xs_base := surface_send_configure (xs_base s)\<rparr> else s)"
| "xdg_step cfg OtherSerial s = Inr (s\<lparr>xs_serial := wl_display_next_serial (xs_serial s)\<rparr>)"

fun xdg_exec :: "wlx_config \<Rightarrow> session_event list \<Rightarrow> xdg_session \<Rightarrow> xdg_fault + xdg_session" where
  "xdg_exec cfg [] s = Inr s"
| "xdg_exec cfg (x # xs) s = (case xdg_step cfg x s of Inl f \<Rightarrow> Inl f | Inr s1 \<Rightarrow> xdg_exec cfg xs s1)"

end
