(* ===== verification/Configure_Calls.thy ===== *)
theory Configure_Calls
  imports Window_Steps
begin

text \<open>
  Which calls on the toplevel the handlers of a window make: none while the window has no output
  and was sent no first configure, and never a negative size. Both follow from what each handler
  does to \<open>face\<close>, the calls of a kind with the fields that guard them.
\<close>

section \<open>Calls on the toplevel\<close>

fun client_call :: "wlr_call \<Rightarrow> bool" where
  "client_call (SetSize _ _) = True"
| "client_call (SetMaximized _) = True"
| "client_call (SetFullscreen _) = True"
| "client_call (SetActivated _ _) = True"
| "client_call SetWmCapabilities = True"
| "client_call ScheduleConfigure = True"
| "client_call (SetDecorationMode _ _) = True"
| "client_call _ = False"

fun negative_size :: "wlr_call \<Rightarrow> bool" where
  "negative_size (SetSize w h) \<longleftrightarrow> w < 0 \<or> h < 0"
| "negative_size _ = False"

definition face :: "(wlr_call \<Rightarrow> bool) \<Rightarrow> wlx_window \<Rightarrow> bool \<times> nat option \<times> wlr_call list" where
  "face P w = (initial_configure_sent w, pending_decoration w, filter P (w_log w))"

lemma face_upd [simp]:
  "face P (w\<lparr>w_output := a1\<rparr>) = face P w" "face P (w\<lparr>toplevel := a2\<rparr>) = face P w"
  "face P (w\<lparr>scene_tree := a3\<rparr>) = face P w" "face P (w\<lparr>listeners := a4\<rparr>) = face P w"
  "face P (w\<lparr>l_output := a5\<rparr>) = face P w" "face P (w\<lparr>scene_output := a6\<rparr>) = face P w"
  "face P (w\<lparr>last_output_width := i1\<rparr>) = face P w" "face P (w\<lparr>last_output_height := i1\<rparr>) = face P w"
  "face P (w\<lparr>csd_margin_w := i1\<rparr>) = face P w" "face P (w\<lparr>csd_margin_h := i1\<rparr>) = face P w"
  "face P (w\<lparr>size_from_wm := b\<rparr>) = face P w" "face P (w\<lparr>last_client_conf_w := i1\<rparr>) = face P w"
  "face P (w\<lparr>last_client_conf_h := i1\<rparr>) = face P w" "face P (w\<lparr>fit_last_w := i1\<rparr>) = face P w"
  "face P (w\<lparr>fit_last_h := i1\<rparr>) = face P w" "face P (w\<lparr>fit_prev_w := i1\<rparr>) = face P w"
  "face P (w\<lparr>fit_prev_h := i1\<rparr>) = face P w" "face P (w\<lparr>fit_last_msec := i1\<rparr>) = face P w"
  "face P (w\<lparr>fill_host_last_msec := i1\<rparr>) = face P w" "face P (w\<lparr>hold_present := b\<rparr>) = face P w"
  "face P (w\<lparr>xwin := x\<rparr>) = face P w" "face P (w\<lparr>related := xs\<rparr>) = face P w" "face P (w\<lparr>content_xwin := x\<rparr>) = face P w"
  "face P (w\<lparr>last_title := s\<rparr>) = face P w" "face P (w\<lparr>last_app_id := s\<rparr>) = face P w"
  by (simp_all add: face_def)

section \<open>Handlers that only speak to the X server\<close>

text \<open>A kind of calls on the toplevel.\<close>

locale call_kind =
  fixes P :: "wlr_call \<Rightarrow> bool"
  assumes kind: "P c \<Longrightarrow> client_call c"
begin

lemma other: "\<not> client_call c \<Longrightarrow> \<not> P c"
  using kind by blast

lemma face_emit [simp]: "\<not> client_call c \<Longrightarrow> face P (emit c w) = face P w"
  by (simp add: face_def other)

lemma face_emit_all [simp]: "\<not> list_ex client_call cs \<Longrightarrow> face P (emit_all cs w) = face P w"
  by (simp add: face_def) (metis filter_False kind list_ex_iff)

lemma face_props [simp]:
  "face P (xwin_set_title cfg x t w) = face P w" "face P (xwin_set_class cfg x t w) = face P w"
  "face P (xwin_set_motif_decorations cfg x b w) = face P w" "face P (send_root_client_message cfg x a d w) = face P w"
  "face P (send_net_wm_state cfg x b a1 a2 w) = face P w" "face P (xwin_set_transient_for cfg x y w) = face P w"
  "face P (xwin_set_window_type_dialog cfg x b w) = face P w" "face P (xwin_set_modal cfg x b w) = face P w"
  "face P (dnd_set_xdnd_aware cfg x w) = face P w" "face P (select_window_events cfg x w) = face P w"
  "face P (xwin_set_size_hints cfg x wd ht i1 i2 i3 i4 w) = face P w"
  by (simp_all add: xwin_set_title_def xwin_set_class_def xwin_set_motif_decorations_def
      send_root_client_message_def send_net_wm_state_def xwin_set_transient_for_def Let_def
      xwin_set_window_type_dialog_def xwin_set_modal_def dnd_set_xdnd_aware_def select_window_events_def
      xwin_set_size_hints_def)

lemma face_sync_size_hints [simp]: "face P (win_sync_size_hints cfg w) = face P w"
  by (simp add: win_sync_size_hints_def Let_def split: prod.split)

lemma face_scale [simp]: "face P (wlx_apply_content_scale_ex cfg r p w) = face P w"
    "face P (wlx_apply_content_scale cfg r w) = face P w"
  by (simp_all add: wlx_apply_content_scale_ex_def wlx_apply_content_scale_def split: option.split)

lemma face_transient [simp]: "face P (apply_transient_hints cfg env p w) = face P w"
  by (cases "transient_position cfg env (the p) w")
    (simp_all add: apply_transient_hints_def Let_def split: option.split prod.split)

lemma face_write_props [simp]: "face P (write_props cfg env p x w) = face P w"
  by (simp add: write_props_def)

lemma face_register [simp]: "face P (register_x11_window_subtree cfg t w) = face P w"
proof (induction t arbitrary: w)
  case (XWin x cs)
  have f: "set ds \<subseteq> set cs \<Longrightarrow> face P (fold (register_x11_window_subtree cfg) ds w) = face P w" for ds w
    by (induction ds arbitrary: w) (simp_all add: XWin.IH)
  show ?case by (simp add: f add_related_def)
qed

lemma face_identify [simp]: "face P (identify_output cfg env p want x w) = face P w"
  by (simp add: identify_output_def Let_def)

lemma face_requests [simp]:
  "face P (toplevel_request_minimize cfg w) = face P w" "face P (output_request_close w) = face P w"
  "face P (output_frame cfg r w) = face P w" "face P (place_tree w) = face P w"
  "face P (reset_identity w) = face P w" "face P (host_state_owner b w) = face P w"
  "face P (wlr_output_destroy w) = face P w"
  by (simp_all add: toplevel_request_minimize_def output_request_close_def output_frame_def Let_def
      place_tree_def reset_identity_def host_state_owner_def wlr_output_destroy_def output_destroy_def
      split: option.split)

lemma face_hold_or_schedule [simp]: "face P (hold_or_schedule cfg r f w) = face P w"
  by (simp add: hold_or_schedule_def Let_def)

lemma backend_calls_host:
  assumes "wlr_output_commit_state env st x = (ok, x', cs)"
  shows "\<not> list_ex client_call cs"
proof -
  have m: "output_set_custom_mode a b x = (x1, cs1) \<Longrightarrow> \<not> list_ex client_call cs1" for a b x1 cs1
    by (auto simp: output_set_custom_mode_def Let_def split: if_splits)
  have b: "\<not> list_ex client_call (snd (snd (backend_commit env st1 x)))" for st1
    using m by (cases "os_mode st1") (auto simp: backend_commit_def Let_def split: option.splits prod.splits if_splits)
  obtain ok1 x1 cs1 where r: "backend_commit env (drop_unchanged st x) x = (ok1, x1, cs1)"
    by (cases "backend_commit env (drop_unchanged st x) x") auto
  with b have "\<not> list_ex client_call cs1" by (metis snd_conv)
  moreover have "cs = [] \<or> cs = cs1"
    using assms unfolding wlr_output_commit_state_def Let_def case_prod_beta r
    by (cases ok1) (auto split: if_splits)
  ultimately show ?thesis by auto
qed

lemma face_sc [simp]:
  "face P (sc_release_hold cfg w) = face P w" "face P (sc_csd_margin w) = face P w"
  "face P (sc_class cfg w) = face P w" "face P (sc_title cfg w) = face P w" "face P (sc_hints cfg w) = face P w"
  "face P (sc_placement cfg r w) = face P w" "face P (sc_after cfg r w) = face P w"
proof -
  have a: "face P (sc_class cfg v) = face P v" "face P (sc_title cfg v) = face P v" "face P (sc_hints cfg v) = face P v"
    "face P (sc_placement cfg r v) = face P v" for v
    by (simp_all add: sc_class_def sc_title_def sc_hints_def sc_placement_def Let_def split: prod.split)
  show "face P (sc_release_hold cfg w) = face P w" "face P (sc_csd_margin w) = face P w"
    by (simp_all add: sc_release_hold_def sc_csd_margin_def Let_def split: option.split prod.split)
  show "face P (sc_class cfg w) = face P w" "face P (sc_title cfg w) = face P w" "face P (sc_hints cfg w) = face P w"
    "face P (sc_placement cfg r w) = face P w" "face P (sc_after cfg r w) = face P w"
    by (simp_all add: a sc_after_def Let_def)
qed

lemma face_request_unsent:
  "\<not> initial_configure_sent w \<Longrightarrow> face P (toplevel_request_maximize cfg w) = face P w"
  "\<not> initial_configure_sent w \<Longrightarrow> face P (toplevel_request_fullscreen cfg w) = face P w"
  by (simp_all add: toplevel_request_maximize_def toplevel_request_fullscreen_def Let_def)

lemma face_net_wm_unsent:
  "\<not> initial_configure_sent w \<Longrightarrow> win_handle_net_wm_state_notify cfg env w = w"
  by (simp add: win_handle_net_wm_state_notify_def)

lemma face_reparent_hidden:
  assumes "w_output w = None"
  shows "face P (win_reparent_notify cfg env r p x y w) = face P w"
proof -
  have o: "w_output (register_x11_window_subtree cfg t v) = w_output v" for t v by simp
  have "reparent_sync cfg env r v = v" if "w_output v = None" for v
    using that by (simp add: reparent_sync_def)
  then show ?thesis
    using assms by (simp add: win_reparent_notify_def Let_def)
qed

end

section \<open>Sizes sent to the client\<close>

interpretation client: call_kind client_call
  by unfold_locales

interpretation negative: call_kind negative_size
proof unfold_locales
  show "negative_size c \<Longrightarrow> client_call c" for c by (cases c) simp_all
qed

lemma face_set_size [simp]:
  "0 \<le> a \<Longrightarrow> 0 \<le> b \<Longrightarrow> face negative_size (wlx_toplevel_set_size a b w) = face negative_size w"
  by (simp add: wlx_toplevel_set_size_def face_def Let_def)

lemma face_nonnegative [simp]:
  "\<not> negative_size c \<Longrightarrow> face negative_size (emit c w) = face negative_size w"
  by (simp add: face_def)

lemma face_fill_host [simp]: "face negative_size (wlx_toplevel_fill_host cfg env w) = face negative_size w"
  by (cases rule: fill_host_cases[of cfg env w]) simp_all

lemma face_output_commit [simp]: "face negative_size (output_commit cfg env r w) = face negative_size w"
  by (cases rule: output_commit_cases[of cfg env r w]) simp_all

lemma face_commit_state [simp]: "face negative_size (snd (win_commit_state cfg env r st w)) = face negative_size w"
  by (auto simp: win_commit_state_def Let_def dest: negative.backend_calls_host split: option.split prod.split)

lemma face_resize [simp]: "face negative_size (resize_output_to cfg env r a b w) = face negative_size w"
  by (simp add: resize_output_to_def Let_def split: option.split)

lemma face_net_wm [simp]: "face negative_size (win_handle_net_wm_state_notify cfg env w) = face negative_size w"
  by (simp add: win_handle_net_wm_state_notify_def Let_def split: option.split prod.split)

lemma face_request_state [simp]: "face negative_size (output_request_state cfg env r req w) = face negative_size w"
  by (simp add: output_request_state_def Let_def split: option.split prod.split)

lemma face_configure [simp]: "face negative_size (win_configure_notify cfg env r ev w) = face negative_size w"
  by (simp add: win_configure_notify_def split: option.split prod.split)

lemma face_client_requests [simp]:
  "face negative_size (toplevel_request_maximize cfg w) = face negative_size w"
  "face negative_size (toplevel_request_fullscreen cfg w) = face negative_size w"
  by (simp_all add: toplevel_request_maximize_def toplevel_request_fullscreen_def Let_def)

lemma face_create [simp]: "face negative_size (create_output_for_window cfg env r p new w) = face negative_size w"
  by (simp add: create_output_for_window_def Let_def split: option.split prod.split)

lemma face_reparent [simp]:
  assumes "0 < content_scale cfg"
  shows "face negative_size (win_reparent_notify cfg env r p x y w) = face negative_size w"
proof -
  have "0 \<le> wlx_unscale_size cfg a" for a
    using unscale_size_ge1[OF assms, of a] by simp
  then have "face negative_size (reparent_sync cfg env r v) = face negative_size v" for v
    by (simp add: reparent_sync_def Let_def split: option.split prod.split)
  then show ?thesis by (simp add: win_reparent_notify_def Let_def)
qed

lemma face_fit [simp]: "face negative_size (sc_fit cfg env r w) = face negative_size w"
proof -
  have p: "face negative_size (sc_release_wm v u) = face negative_size u"
    "face negative_size (record_fit env v u) = face negative_size u" for v u
    by (simp_all add: sc_release_wm_def record_fit_def)
  have "0 \<le> fst (fv_conf (fit_view_of cfg x w))" "0 \<le> snd (fv_conf (fit_view_of cfg x w))" for x
  proof -
    obtain a b where "toplevel_preferred_size cfg (toplevel w) = (a, b)" by fastforce
    with preferred_size_min[OF this] show "0 \<le> fst (fv_conf (fit_view_of cfg x w))"
      "0 \<le> snd (fv_conf (fit_view_of cfg x w))"
      by (simp_all add: fit_view_of_def Let_def wlx_constants)
  qed
  then have "face negative_size (fit_host cfg env r (fit_view_of cfg x w) u) = face negative_size u" for x u
    by (simp add: fit_host_def Let_def p)
  then show ?thesis
    by (simp add: sc_fit_def Let_def p split: option.split)
qed

section \<open>What every handler keeps\<close>

abbreviation negatives :: "wlx_window \<Rightarrow> wlr_call list" where
  "negatives w \<equiv> filter negative_size (w_log w)"

lemma negatives_face: "negatives w = snd (snd (face negative_size w))"
  by (simp add: face_def)

lemma before_face: "face negative_size (sc_before cfg w) = (True, None, negatives w)"
proof -
  have d: "face negative_size (sc_decoration cfg v) = (initial_configure_sent v, None, negatives v)" for v
    by (simp add: sc_decoration_def face_def split: option.split)
  have i: "initial_configure_sent (sc_initial_configure v)" "negatives (sc_initial_configure v) = negatives v" for v
    by (simp_all add: sc_initial_configure_def)
  have "negatives (sc_release_hold cfg w) = negatives w"
    using negative.face_sc(1)[of cfg w] unfolding negatives_face by metis
  then show ?thesis by (simp add: sc_before_def d i)
qed

lemma commit_face: "face negative_size (surface_commit cfg env r w) = (True, None, negatives w)"
  by (simp add: surface_commit_parts before_face)

lemma step_face:
  assumes "0 < content_scale cfg" "ev \<noteq> EvCommit" "\<And>d. ev \<noteq> EvDecoration d"
  shows "face negative_size (win_step cfg env r ev w) = face negative_size w"
  using assms(1,2) by (cases ev) (simp_all add: assms(3))

text \<open>A window without output that was sent no first configure is not spoken to; one that was
  sent it only by requests of the client.\<close>

lemma commit_hidden_face:
  assumes "w_output w = None" "initial_configure_sent w" "pending_decoration w = None"
  shows "face client_call (surface_commit cfg env r w) = face client_call w"
proof -
  have b: "sc_before cfg w = sc_csd_margin w"
    using assms by (simp add: sc_before_def sc_release_hold_def sc_initial_configure_def sc_decoration_def)
  have "w_output (sc_csd_margin w) = None"
    using assms by (simp add: sc_csd_margin_def Let_def)
  then show ?thesis
    by (simp add: surface_commit_parts b sc_fit_def)
qed

lemma step_hidden_face:
  assumes "w_output w = None"
  shows "face client_call (win_step cfg env r (EvConfigure n) w) = face client_call w"
    "face client_call (win_step cfg env r (EvReparent p x y) w) = face client_call w"
    "face client_call (win_step cfg env r EvFrame w) = face client_call w"
    "face client_call (win_step cfg env r EvRequestClose w) = face client_call w"
  using assms client.face_reparent_hidden[OF assms] by (simp_all add: win_configure_notify_def)

lemma net_wm_hidden:
  assumes "w_output w = None" "xwin w = XCB_WINDOW_NONE" "content_xwin w = XCB_WINDOW_NONE"
  shows "win_handle_net_wm_state_notify cfg env w = w"
  using assms by (simp add: win_handle_net_wm_state_notify_def host_net_wm_state_def net_wm_state_targets_def
      ewmh_target_window_def)

lemma step_listeners:
  assumes "\<And>p new. ev \<noteq> EvMap p new" "ev \<noteq> EvUnmap"
  shows "listeners (win_step cfg env r ev w) = listeners w"
proof -
  have h: "listeners (host_state_owner b v) = listeners v" "listeners (send_net_wm_state cfg x b a1 a2 v) = listeners v"
    "listeners (send_root_client_message cfg x a d v) = listeners v" "listeners (place_tree v) = listeners v"
    "listeners (sc_release_wm fv v) = listeners v" "listeners (record_fit env fv v) = listeners v"
    for b v x a1 a2 a d fv
    by (simp_all add: host_state_owner_def send_net_wm_state_def send_root_client_message_def place_tree_def
        sc_release_wm_def record_fit_def Let_def split: option.split)
  have n: "listeners (win_handle_net_wm_state_notify cfg env v) = listeners v" for v
    by (simp add: win_handle_net_wm_state_notify_def h Let_def split: option.split prod.split)
  have q: "listeners (output_request_state cfg env r req v) = listeners v" for req v
    by (simp add: output_request_state_def n Let_def split: option.split prod.split)
  have c: "listeners (win_configure_notify cfg env r e w) = listeners w" for e
    by (simp add: win_configure_notify_def q split: option.split prod.split)
  have f: "listeners (sc_fit cfg env r v) = listeners v" for v
    by (simp add: sc_fit_def fit_host_def h Let_def split: option.split prod.split)
  have s: "listeners (surface_commit cfg env r w) = listeners w"
    using size_same_before[of w cfg] size_same_after[of "sc_fit cfg env r (sc_before cfg w)" cfg r]
    by (simp add: surface_commit_parts size_same_def f)
  have t: "listeners (apply_transient_hints cfg env p v) = listeners v" for p v
    using log_only_same(8)[OF transient_hints_log_only] .
  have m: "listeners (xwin_set_motif_decorations cfg x b v) = listeners v"
    "listeners (dnd_set_xdnd_aware cfg x v) = listeners v" for x b v
    by (simp_all add: xwin_set_motif_decorations_def dnd_set_xdnd_aware_def)
  have p: "listeners (win_reparent_notify cfg env r pw x y w) = listeners w" for pw x y
  proof -
    have "listeners (reparent_sync cfg env r v) = listeners v" for v
      by (simp add: reparent_sync_def Let_def split: option.split prod.split)
    then show ?thesis by (simp add: win_reparent_notify_def Let_def t m)
  qed
  show ?thesis
    using assms(2)
    by (cases ev) (simp_all add: assms(1) h n c s p output_frame_def toplevel_request_maximize_def
        toplevel_request_fullscreen_def toplevel_request_minimize_def output_request_close_def
        decoration_request_mode_def wlx_decoration_apply_mode_def wlx_apply_content_scale_def Let_def)
qed

text \<open>A window without an output has no X ids and no listeners on it.\<close>

definition output_known :: "wlx_window \<Rightarrow> bool" where
  "output_known w \<longleftrightarrow>
     (if w_output w = None then xwin w = XCB_WINDOW_NONE \<and> content_xwin w = XCB_WINDOW_NONE else listeners w)"

lemma commit_state_keeps: "w_output w \<noteq> None \<Longrightarrow> w_output (snd (win_commit_state cfg env r st w)) \<noteq> None"
  by (simp add: win_commit_state_def Let_def split: option.split prod.split)

lemma step_keeps_output:
  assumes "\<And>p new. ev \<noteq> EvMap p new" "ev \<noteq> EvUnmap"
  shows "w_output (win_step cfg env r ev w) = None \<longleftrightarrow> w_output w = None"
proof -
  have h: "w_output (host_state_owner b v) = w_output v" "w_output (send_net_wm_state cfg x b a1 a2 v) = w_output v"
    "w_output (send_root_client_message cfg x a d v) = w_output v" "w_output (place_tree v) = w_output v"
    "w_output (sc_release_wm fv v) = w_output v" "w_output (record_fit env fv v) = w_output v"
    for b v x a1 a2 a d fv
    by (simp_all add: host_state_owner_def send_net_wm_state_def send_root_client_message_def place_tree_def
        sc_release_wm_def record_fit_def Let_def split: option.split)
  have k: "w_output (snd (win_commit_state cfg env r st v)) = None \<longleftrightarrow> w_output v = None" for st v
    by (simp add: win_commit_state_def Let_def split: option.split prod.split)
  have z: "w_output (resize_output_to cfg env r a b v) = None \<longleftrightarrow> w_output v = None" for a b v
    using resize_output_keeps[of cfg env r a b v] k by metis
  have n: "w_output (win_handle_net_wm_state_notify cfg env v) = w_output v" for v
    by (simp add: win_handle_net_wm_state_notify_def h Let_def split: option.split prod.split)
  have q: "w_output (output_request_state cfg env r req v) = None \<longleftrightarrow> w_output v = None" for req v
    by (cases req) (simp_all add: output_request_state_def n k Let_def split: prod.split)
  have c: "w_output (win_configure_notify cfg env r e w) = None \<longleftrightarrow> w_output w = None" for e
  proof (cases "w_output w")
    case (Some x)
    have "w_output (output_request_state cfg env r (Some sz) (w\<lparr>w_output := Some x'\<rparr>)) \<noteq> None" for sz x'
      using q[of "Some sz" "w\<lparr>w_output := Some x'\<rparr>"] by simp
    with Some show ?thesis
      by (simp add: win_configure_notify_def del: not_None_eq split: option.split prod.split)
  qed (simp add: win_configure_notify_def)
  have f: "w_output (sc_fit cfg env r v) = None \<longleftrightarrow> w_output v = None" for v
    by (cases "w_output v") (simp_all add: sc_fit_def fit_host_def h z Let_def del: not_None_eq)
  have s: "w_output (surface_commit cfg env r w) = None \<longleftrightarrow> w_output w = None"
    using size_same_before[of w cfg] size_same_after[of "sc_fit cfg env r (sc_before cfg w)" cfg r]
    by (simp add: surface_commit_parts size_same_def f)
  have t: "w_output (apply_transient_hints cfg env p v) = w_output v" for p v
    using log_only_same(1)[OF transient_hints_log_only] .
  have m: "w_output (xwin_set_motif_decorations cfg x b v) = w_output v"
    "w_output (dnd_set_xdnd_aware cfg x v) = w_output v" for x b v
    by (simp_all add: xwin_set_motif_decorations_def dnd_set_xdnd_aware_def)
  have p: "w_output (win_reparent_notify cfg env r pw x y w) = None \<longleftrightarrow> w_output w = None" for pw x y
  proof -
    have "w_output (reparent_sync cfg env r v) = None \<longleftrightarrow> w_output v = None" for v
      by (cases "w_output v") (simp_all add: reparent_sync_def z Let_def del: not_None_eq split: option.split prod.split)
    then show ?thesis by (simp add: win_reparent_notify_def Let_def t m)
  qed
  show ?thesis
    using assms(2)
    by (cases ev) (simp_all add: assms(1) h n c s p output_frame_def toplevel_request_maximize_def
        toplevel_request_fullscreen_def toplevel_request_minimize_def output_request_close_def
        decoration_request_mode_def wlx_decoration_apply_mode_def wlx_apply_content_scale_def Let_def del: not_None_eq)
qed

lemma create_output_some:
  assumes "no_output new = Some a"
  shows "listeners (create_output_for_window cfg env r p new w)"
    "w_output (create_output_for_window cfg env r p new w) \<noteq> None"
proof -
  obtain x seq where a: "a = (x, seq)" by fastforce
  obtain lw lh where s: "toplevel_preferred_size cfg (toplevel w) = (lw, lh)" by fastforce
  have p: "listeners (place_tree v) = listeners v" "w_output (place_tree v) = w_output v" for v
    by (simp_all add: place_tree_def split: option.split)
  let ?want = "(wlx_scale_size cfg lw, wlx_scale_size cfg lh)"
  let ?i = "identify_output cfg env p ?want x ((reset_identity w)\<lparr>size_from_wm := False,
      w_output := Some (x11_output_create x seq), listeners := False\<rparr>)"
  let ?c = "snd (win_commit_state cfg env r (initial_mode ?want) ?i)"
  have "w_output ?i \<noteq> None" by simp
  then have "w_output ?c \<noteq> None" by (rule commit_state_keeps)
  then obtain out where o: "w_output ?c = Some out" by blast
  show "listeners (create_output_for_window cfg env r p new w)"
    "w_output (create_output_for_window cfg env r p new w) \<noteq> None"
    unfolding create_output_for_window_def assms a option.case prod.case s Let_def o
    using o by (simp_all add: p case_prod_beta)
qed

lemma create_known: "w_output w = None \<Longrightarrow> output_known (create_output_for_window cfg env r p new w)"
  using create_output_some[of new _ cfg env r p w]
  by (cases "no_output new") (auto simp: output_known_def create_output_for_window_def reset_identity_def)

lemma same_known:
  "size_same w w' \<Longrightarrow> output_known w' = output_known w"
  by (simp add: size_same_def output_known_def)

lemma step_known:
  assumes "output_known w"
  shows "output_known (win_step cfg env r ev w)"
proof (cases "w_output w")
  case None
  then have i: "xwin w = XCB_WINDOW_NONE" "content_xwin w = XCB_WINDOW_NONE"
    using assms by (simp_all add: output_known_def)
  show ?thesis
  proof (cases ev)
    case EvCommit
    have b: "size_same w (sc_before cfg w)" by (rule size_same_before)
    then have "sc_fit cfg env r (sc_before cfg w) = sc_before cfg w"
      using None by (simp add: sc_fit_def size_same_def)
    then have "size_same w (surface_commit cfg env r w)"
      using b size_same_after[of "sc_before cfg w" cfg r] size_same_trans by (metis surface_commit_parts)
    then show ?thesis using same_known assms EvCommit by simp
  next
    case (EvMap p new)
    then show ?thesis using create_known None by simp
  next
    case EvNetWmState
    then show ?thesis using net_wm_hidden[OF None i] assms by simp
  qed (use None i assms in \<open>simp_all add: win_configure_notify_def win_reparent_notify_def output_frame_def
      wlr_output_destroy_def output_known_def toplevel_request_maximize_def toplevel_request_fullscreen_def
      toplevel_request_minimize_def output_request_close_def decoration_request_mode_def ewmh_target_window_def
      wlx_decoration_apply_mode_def Let_def\<close>)
next
  case (Some x)
  then have l: "listeners w" using assms by (simp add: output_known_def)
  show ?thesis
  proof (cases "ev = EvUnmap \<or> (\<exists>p new. ev = EvMap p new)")
    case True
    then show ?thesis
      using Some l assms by (auto simp: wlr_output_destroy_def output_destroy_def reset_identity_def output_known_def)
  next
    case False
    then have "listeners (win_step cfg env r ev w)" using step_listeners[of ev cfg env r w] l by auto
    moreover have "w_output (win_step cfg env r ev w) \<noteq> None"
      using step_keeps_output[of ev cfg env r w] False Some by auto
    ultimately show ?thesis unfolding output_known_def by (simp only: if_False)
  qed
qed

end
