(* ===== verification/Configure_Runs.thy ===== *)
theory Configure_Runs
  imports Xdg_Configure Configure_Calls Focus_Invariant
begin

text \<open>
  Runs of a toplevel's session (theory \<open>Xdg_Configure\<close>): when the compositor's calls meet wlroots'
  assertions, and what a window that was hidden can still become.
\<close>

section \<open>Serving calls\<close>

text \<open>Calls on an initialized surface change the scheduled configure only.\<close>

definition same_base :: "xdg_base \<Rightarrow> xdg_base \<Rightarrow> bool" where
  "same_base b b' \<longleftrightarrow>
     b_version b' = b_version b \<and> b_mapped b' = b_mapped b \<and> b_has_buffer b' = b_has_buffer b
     \<and> b_next_buffer b' = b_next_buffer b \<and> b_configured b' = b_configured b
     \<and> b_configure_list b' = b_configure_list b \<and> b_initialized b' = b_initialized b
     \<and> b_initial_commit b' = b_initial_commit b \<and> b_current b' = b_current b
     \<and> b_pending b' = b_pending b \<and> b_sent b' = b_sent b \<and> b_events b' = b_events b
     \<and> (b_idle b \<longrightarrow> b_idle b') \<and> (b_idle b' \<longrightarrow> b_idle b \<or> b_initialized b)"

lemma same_base_refl [simp]: "same_base b b"
  by (simp add: same_base_def)

lemma same_base_trans: "same_base a b \<Longrightarrow> same_base b c \<Longrightarrow> same_base a c"
  by (auto simp: same_base_def)

lemmas call_defs = wlr_xdg_toplevel_set_size_def wlr_xdg_toplevel_set_maximized_def
  wlr_xdg_toplevel_set_fullscreen_def wlr_xdg_toplevel_set_activated_def
  wlr_xdg_toplevel_set_wm_capabilities_def wlr_xdg_toplevel_decoration_v1_set_mode_def
  wlr_xdg_surface_schedule_configure_def upd_scheduled_def

lemma serve_same: "serve c sb = Inr sb' \<Longrightarrow> same_base (snd sb) (snd sb')"
  by (cases sb; cases c) (auto simp: call_defs same_base_def Let_def split: if_splits)

lemma serve_unsent: "serve c sb = Inr sb' \<Longrightarrow> \<not> b_initialized (snd sb) \<Longrightarrow> sb' = sb \<and> \<not> client_call c"
  by (cases sb; cases c) (auto simp: call_defs Let_def split: if_splits)

lemma serve_total:
  assumes "b_initialized (snd sb) \<or> \<not> client_call c" "\<not> negative_size c"
  shows "\<exists>sb'. serve c sb = Inr sb'"
  using assms by (cases sb; cases c) (auto simp: call_defs XDG_SHELL_VERSION_def Let_def)

lemma serve_all_same: "serve_all cs sb = Inr sb' \<Longrightarrow> same_base (snd sb) (snd sb')"
proof (induction cs sb rule: serve_all.induct)
  case (2 c cs sb)
  then obtain sb1 where "serve c sb = Inr sb1" "serve_all cs sb1 = Inr sb'"
    by (auto split: sum.splits)
  with 2 serve_same same_base_trans show ?case by blast
qed simp

lemma serve_all_host: "filter client_call cs = [] \<Longrightarrow> serve_all cs sb = Inr sb"
proof (induction cs)
  case (Cons c cs)
  then have "serve c sb = Inr sb" by (cases c) auto
  with Cons show ?case by (auto split: if_splits)
qed simp

lemma serve_all_total:
  assumes "b_initialized (snd sb)" "filter negative_size cs = []"
  shows "\<exists>sb'. serve_all cs sb = Inr sb'"
  using assms
proof (induction cs sb rule: serve_all.induct)
  case (2 c cs sb)
  then have n: "\<not> negative_size c" "filter negative_size cs = []" by (auto split: if_splits)
  obtain sb1 where s: "serve c sb = Inr sb1" using serve_total 2(2) n(1) by blast
  moreover have "b_initialized (snd sb1)" using serve_same[OF s] 2(2) by (simp add: same_base_def)
  ultimately show ?case using 2(1) n(2) by simp
qed simp

section \<open>Running a handler\<close>

lemma run_handler_Inr:
  assumes "run_handler h s = Inr s'"
  shows "same_base (xs_base s) (xs_base s')" "xs_win s' = (h (xs_win s))\<lparr>w_log := []\<rparr>"
  using assms serve_all_same[of "w_log (h (xs_win s))" "(xs_serial s, xs_base s)"]
  by (auto simp: run_handler_def Let_def split: sum.splits)

lemma run_handler_total:
  assumes "b_initialized (xs_base s)" "negatives (h (xs_win s)) = []"
  obtains s' where "run_handler h s = Inr s'"
  using serve_all_total[of "(xs_serial s, xs_base s)" "w_log (h (xs_win s))"] assms
  by (auto simp: run_handler_def Let_def)

lemma run_handler_silent:
  assumes "filter client_call (w_log (h (xs_win s))) = []"
  shows "run_handler h s = Inr (s\<lparr>xs_win := (h (xs_win s))\<lparr>w_log := []\<rparr>\<rparr>)"
  using serve_all_host[OF assms] by (simp add: run_handler_def Let_def)

section \<open>The invariant\<close>

text \<open>Of wlroots' surface, of the compositor's window, and of both.\<close>

definition base_ok :: "xdg_base \<Rightarrow> bool" where
  "base_ok b \<longleftrightarrow>
     (b_mapped b \<longrightarrow> b_initialized b \<and> \<not> b_initial_commit b)
     \<and> (b_configured b \<or> b_idle b \<or> b_configure_list b \<noteq> [] \<longrightarrow> b_initialized b)"

definition win_ok :: "wlx_window \<Rightarrow> bool" where
  "win_ok w \<longleftrightarrow>
     output_known w \<and> (initial_configure_sent w \<longrightarrow> pending_decoration w = None)"

definition linked :: "xdg_session \<Rightarrow> bool" where
  "linked s \<longleftrightarrow>
     base_ok (xs_base s) \<and> win_ok (xs_win s) \<and> w_log (xs_win s) = []
     \<and> (w_output (xs_win s) \<noteq> None \<longrightarrow> b_mapped (xs_base s))"

text \<open>Between the handlers of events an initialized surface was sent a configure.\<close>

definition session_ok :: "xdg_session \<Rightarrow> bool" where
  "session_ok s \<longleftrightarrow> linked s \<and> (b_initialized (xs_base s) \<longrightarrow> initial_configure_sent (xs_win s))"

text \<open>The converse is what the guards of the handlers rest on.\<close>

definition guarded :: "xdg_session \<Rightarrow> bool" where
  "guarded s \<longleftrightarrow> (initial_configure_sent (xs_win s) \<longrightarrow> b_initialized (xs_base s))"

lemma same_base_ok: "same_base b b' \<Longrightarrow> base_ok b \<Longrightarrow> base_ok b'"
  by (auto simp: same_base_def base_ok_def)

lemma win_ok_log [simp]: "win_ok (w\<lparr>w_log := l\<rparr>) = win_ok w"
  by (simp add: win_ok_def output_known_def)

lemma handler_linked:
  assumes "linked s" "run_handler h s = Inr s'" "win_ok (h (xs_win s))"
    and "w_output (h (xs_win s)) \<noteq> None \<Longrightarrow> b_mapped (xs_base s)"
  shows "linked s'"
  using run_handler_Inr[OF assms(2)] assms(1,3,4) same_base_ok
  by (auto simp: linked_def same_base_def)

lemma step_win_ok:
  assumes "0 < content_scale cfg" "win_ok w"
  shows "win_ok (win_step cfg env r ev w)"
proof -
  have "initial_configure_sent (win_step cfg env r ev w) \<longrightarrow> pending_decoration (win_step cfg env r ev w) = None"
  proof (cases ev)
    case (EvDecoration d)
    then show ?thesis
      using assms(2) by (auto simp: win_ok_def decoration_request_mode_def wlx_decoration_apply_mode_def)
  next
    case EvCommit
    then show ?thesis using commit_face[of cfg env r w] by (simp add: face_def)
  qed (use assms(2) step_face[OF assms(1), of ev env r w] in \<open>auto simp: win_ok_def face_def\<close>)
  then show ?thesis
    using step_known assms(2) unfolding win_ok_def by blast
qed

lemma step_output:
  "(\<And>p new. ev \<noteq> EvMap p new) \<Longrightarrow> w_output (win_step cfg env r ev w) \<noteq> None \<Longrightarrow> w_output w \<noteq> None"
  using step_no_output[of w ev cfg env r] by metis

lemma step_sent:
  assumes "0 < content_scale cfg" "ev \<noteq> EvCommit" "\<And>d. ev \<noteq> EvDecoration d"
  shows "initial_configure_sent (win_step cfg env r ev w) = initial_configure_sent w"
    and "negatives (win_step cfg env r ev w) = negatives w"
  using step_face[OF assms, of env r w] by (simp_all add: face_def)

section \<open>Handlers between commits\<close>

definition plain_event :: "win_event \<Rightarrow> bool" where
  "plain_event ev \<longleftrightarrow> is_host_event ev \<or> ev \<in> {EvRequestMaximize, EvRequestFullscreen, EvRequestMinimize}
     \<or> (\<exists>d. ev = EvDecoration d)"

lemma request_step:
  assumes "ev \<in> {EvRequestMaximize, EvRequestFullscreen, EvRequestMinimize} \<or> (\<exists>d. ev = EvDecoration d)"
  shows "request cfg ev s = run_handler (win_step cfg env [] ev) s"
  using assms by (auto simp: request_def run_handler_def)

text \<open>An uninitialized surface that was sent no configure is not spoken to.\<close>

lemma plain_unsent:
  assumes "plain_event ev" "w_output w = None" "\<not> initial_configure_sent w"
  shows "filter client_call (w_log (win_step cfg env r ev w)) = filter client_call (w_log w)"
proof -
  have "face client_call (win_step cfg env r ev w) = face client_call w" if "\<And>d. ev \<noteq> EvDecoration d"
    using assms(1) step_hidden_face[OF assms(2)] client.face_request_unsent[OF assms(3)]
      client.face_net_wm_unsent[OF assms(3)]
    by (cases ev) (simp_all add: plain_event_def that)
  then show ?thesis
    using assms(3) by (cases ev) (simp_all add: face_def decoration_request_mode_def wlx_decoration_apply_mode_def)
qed

lemma plain_negatives:
  assumes "0 < content_scale cfg" "plain_event ev"
  shows "negatives (win_step cfg env r ev w) = negatives w"
  using assms step_sent(2)[OF assms(1), of ev env r w]
  by (cases ev) (auto simp: plain_event_def decoration_request_mode_def wlx_decoration_apply_mode_def)

lemma plain_sent:
  assumes "0 < content_scale cfg" "plain_event ev"
  shows "initial_configure_sent (win_step cfg env r ev w) = initial_configure_sent w"
  using assms step_sent(1)[OF assms(1), of ev env r w]
  by (cases ev) (auto simp: plain_event_def decoration_request_mode_def wlx_decoration_apply_mode_def)

lemma plain_not_map: "plain_event ev \<Longrightarrow> ev \<noteq> EvMap p new"
  by (auto simp: plain_event_def)

lemma plain_ok:
  assumes "0 < content_scale cfg" "session_ok s" "plain_event ev"
    and "run_handler (win_step cfg env r ev) s = Inr s'"
  shows "session_ok s'" "guarded s \<Longrightarrow> guarded s'"
proof -
  let ?w = "win_step cfg env r ev (xs_win s)"
  have l: "linked s" using assms(2) by (simp add: session_ok_def)
  have "linked s'"
  proof (rule handler_linked[OF l assms(4)])
    show "win_ok ?w" using step_win_ok assms(1) l by (simp add: linked_def)
    show "w_output ?w \<noteq> None \<Longrightarrow> b_mapped (xs_base s)"
      using step_output[OF plain_not_map[OF assms(3)]] l by (auto simp: linked_def)
  qed
  moreover have "initial_configure_sent (xs_win s') = initial_configure_sent (xs_win s)"
    using run_handler_Inr(2)[OF assms(4)] plain_sent[OF assms(1,3)] by simp
  moreover have "b_initialized (xs_base s') = b_initialized (xs_base s)"
    using run_handler_Inr(1)[OF assms(4)] by (simp add: same_base_def)
  ultimately show "session_ok s'" "guarded s \<Longrightarrow> guarded s'"
    using assms(2) by (simp_all add: session_ok_def guarded_def)
qed

lemma plain_total:
  assumes "0 < content_scale cfg" "session_ok s" "guarded s" "plain_event ev"
  obtains s' where "run_handler (win_step cfg env r ev) s = Inr s'"
proof (cases "b_initialized (xs_base s)")
  case True
  then show ?thesis
    using that assms(2) plain_negatives[OF assms(1,4), of env r "xs_win s"]
    by (auto simp: session_ok_def linked_def elim!: run_handler_total[of s "win_step cfg env r ev"])
next
  case False
  then have "w_output (xs_win s) = None" "\<not> initial_configure_sent (xs_win s)" "w_log (xs_win s) = []"
    using assms(2,3) by (auto simp: session_ok_def linked_def base_ok_def guarded_def)
  then show ?thesis
    using that run_handler_silent[of "win_step cfg env r ev" s] plain_unsent[OF assms(4), of "xs_win s" cfg env r]
    by simp
qed

section \<open>Commits\<close>

lemma finalize_ok:
  assumes "session_ok s"
  shows "session_ok (s\<lparr>xs_base := surface_finalize_pending a (xs_base s)\<rparr>)"
  using assms by (auto simp: session_ok_def linked_def base_ok_def surface_finalize_pending_def split: attachment.split)

lemma move_states_parts [simp]:
  "xs_base (move_states cd s) = (xs_base s)\<lparr>b_current := b_pending (xs_base s), b_has_buffer := b_next_buffer (xs_base s)\<rparr>"
  "w_output (xs_win (move_states cd s)) = w_output (xs_win s)"
  "initial_configure_sent (xs_win (move_states cd s)) = initial_configure_sent (xs_win s)"
  "pending_decoration (xs_win (move_states cd s)) = pending_decoration (xs_win s)"
  "listeners (xs_win (move_states cd s)) = listeners (xs_win s)"
  "xwin (xs_win (move_states cd s)) = xwin (xs_win s)"
  "content_xwin (xs_win (move_states cd s)) = content_xwin (xs_win s)"
  "w_log (xs_win (move_states cd s)) = w_log (xs_win s)"
  by (simp_all add: move_states_def see_states_def upd_toplevel_def Let_def)

text \<open>The commit listener, on an initialized surface.\<close>

lemma commit_listener:
  assumes "0 < content_scale cfg" "linked s" "b_initialized (xs_base s)"
  obtains s' where "run_handler (win_step cfg env r EvCommit) s = Inr s'" "session_ok s'" "guarded s'"
    "b_mapped (xs_base s') = b_mapped (xs_base s)"
proof -
  let ?h = "win_step cfg env r EvCommit"
  have f: "initial_configure_sent (?h (xs_win s))" "negatives (?h (xs_win s)) = negatives (xs_win s)"
    using commit_face[of cfg env r "xs_win s"] by (simp_all add: face_def)
  then obtain s' where r: "run_handler ?h s = Inr s'"
    using run_handler_total[of s ?h] assms(2,3) by (auto simp: linked_def)
  have "linked s'"
  proof (rule handler_linked[OF assms(2) r])
    show "win_ok (?h (xs_win s))" using step_win_ok assms(1,2) unfolding linked_def by blast
    show "w_output (?h (xs_win s)) \<noteq> None \<Longrightarrow> b_mapped (xs_base s)"
      using step_output[of EvCommit cfg env r "xs_win s"] assms(2) by (auto simp: linked_def)
  qed
  with r f(1) run_handler_Inr[OF r] assms(3) that show thesis
    by (simp add: session_ok_def guarded_def same_base_def)
qed

text \<open>Every commit that wlroots takes and that does not hide the window.\<close>

lemma visible_commit:
  assumes "0 < content_scale cfg" "session_ok s"
    and "xdg_surface_role_client_commit (surface_finalize_pending (cd_attach cd) (xs_base s)) = Inr u"
    and "cd_attach cd = NullAttached \<Longrightarrow> \<not> b_mapped (xs_base s)"
  obtains s' where "surface_handle_commit cfg cd s = Inr s'" "session_ok s'" "guarded s'"
    "cd_attach cd = BufferAttached \<Longrightarrow> b_mapped (xs_base s')"
proof -
  let ?b = "surface_finalize_pending (cd_attach cd) (xs_base s)"
  let ?s0 = "s\<lparr>xs_base := ?b\<rparr>"
  have ok: "session_ok ?s0" by (rule finalize_ok[OF assms(2)])
  have u: "(cd_attach cd = NullAttached \<and> b_mapped (xs_base ?s0)) = False"
    using assms(4) by (auto simp: surface_finalize_pending_def)
  let ?m = "move_states cd ?s0"
  let ?s1 = "?m\<lparr>xs_base := (xs_base ?m)\<lparr>b_initial_commit := \<not> b_initialized ?b, b_initialized := True\<rparr>\<rparr>"
  have fl: "role_commit_flags False ?m = Inr ?s1"
    by (simp add: role_commit_flags_def)
  have c: "b_next_buffer ?b \<longrightarrow> b_initialized ?b"
    using assms(3) ok by (auto simp: xdg_surface_role_client_commit_def session_ok_def linked_def base_ok_def split: if_splits)
  have l1: "linked ?s1" "b_initialized (xs_base ?s1)"
    using ok by (auto simp: session_ok_def linked_def base_ok_def win_ok_def output_known_def)
  obtain s2 where s2: "xdg_surface_role_commit cfg cd False ?m = Inr s2" "linked s2" "b_initialized (xs_base s2)"
    "b_next_buffer ?b \<Longrightarrow> b_mapped (xs_base s2)"
  proof (cases "\<not> b_mapped (xs_base ?s1) \<and> b_has_buffer (xs_base ?s1)")
    case False
    then show thesis using that[of ?s1] l1 fl by (auto simp: xdg_surface_role_commit_def)
  next
    case True
    let ?h = "win_step cfg (cd_map_env cd) (cd_popups cd) (EvMap (cd_parent_win cd) (cd_output cd))"
    let ?s1m = "?s1\<lparr>xs_base := (xs_base ?s1)\<lparr>b_mapped := True\<rparr>\<rparr>"
    have l: "linked ?s1m" using l1 True c by (simp add: linked_def base_ok_def)
    have "negatives (?h (xs_win ?s1m)) = []"
      using step_sent(2)[OF assms(1), of "EvMap (cd_parent_win cd) (cd_output cd)"] l
      by (simp add: linked_def del: win_step.simps)
    then obtain s2 where r: "run_handler ?h ?s1m = Inr s2"
      using run_handler_total[of ?s1m ?h] by auto
    have "win_ok (?h (xs_win ?s1m))"
      using step_win_ok[OF assms(1)] l unfolding linked_def by blast
    then have "linked s2"
      by (rule handler_linked[OF l r]) simp
    moreover have "b_initialized (xs_base s2)" "b_mapped (xs_base s2)"
      using run_handler_Inr(1)[OF r] by (simp_all add: same_base_def)
    moreover have "xdg_surface_role_commit cfg cd False ?m = Inr s2"
      using True fl r by (simp add: xdg_surface_role_commit_def wlr_surface_map_def)
    ultimately show thesis using that by blast
  qed
  obtain s' where s': "run_handler (win_step cfg (cd_env cd) (cd_popups cd) EvCommit) s2 = Inr s'" "session_ok s'" "guarded s'"
      "b_mapped (xs_base s') = b_mapped (xs_base s2)"
    using commit_listener[OF assms(1) s2(2,3)] by metis
  have "cd_attach cd = BufferAttached \<Longrightarrow> b_mapped (xs_base s')"
    using s2(4) s'(4) by (simp add: surface_finalize_pending_def)
  have n: "(if cd_attach cd = NullAttached then wlr_surface_unmap ?s0 else Inr ?s0) = Inr ?s0"
    using u by (simp add: wlr_surface_unmap_def)
  have "surface_handle_commit cfg cd s = Inr s'"
    by (simp only: surface_handle_commit_def surface_commit_state_def Let_def assms(3) sum.case
        xdg_session.simps u n s2(1) s'(1))
  then show thesis
    using that s'(2,3) \<open>cd_attach cd = BufferAttached \<Longrightarrow> b_mapped (xs_base s')\<close> by blast
qed

section \<open>Hiding the window\<close>

text \<open>What is left after a commit without a buffer.\<close>

definition hidden :: "xdg_session \<Rightarrow> bool" where
  "hidden s \<longleftrightarrow>
     \<not> b_mapped (xs_base s) \<and> \<not> b_has_buffer (xs_base s) \<and> \<not> b_next_buffer (xs_base s)
     \<and> \<not> b_configured (xs_base s) \<and> \<not> b_idle (xs_base s) \<and> b_configure_list (xs_base s) = []
     \<and> initial_configure_sent (xs_win s) \<and> pending_decoration (xs_win s) = None
     \<and> w_output (xs_win s) = None \<and> xwin (xs_win s) = XCB_WINDOW_NONE
     \<and> content_xwin (xs_win s) = XCB_WINDOW_NONE \<and> w_log (xs_win s) = []"

lemma hidden_ok: "hidden s \<Longrightarrow> session_ok s"
  by (simp add: hidden_def session_ok_def linked_def base_ok_def win_ok_def output_known_def)

lemma commit_hidden_win:
  assumes "w_output w = None" "initial_configure_sent w" "pending_decoration w = None" "w_log w = []"
    and "xwin w = XCB_WINDOW_NONE" "content_xwin w = XCB_WINDOW_NONE"
  shows "filter client_call (w_log (surface_commit cfg env r w)) = []"
    "initial_configure_sent (surface_commit cfg env r w)" "pending_decoration (surface_commit cfg env r w) = None"
    "w_output (surface_commit cfg env r w) = None" "xwin (surface_commit cfg env r w) = XCB_WINDOW_NONE"
    "content_xwin (surface_commit cfg env r w) = XCB_WINDOW_NONE"
proof -
  have f: "face client_call (surface_commit cfg env r w) = (True, None, [])"
    using commit_hidden_face[OF assms(1-3)] assms(2-4) by (simp add: face_def)
  then show "filter client_call (w_log (surface_commit cfg env r w)) = []"
    "initial_configure_sent (surface_commit cfg env r w)" "pending_decoration (surface_commit cfg env r w) = None"
    by (simp_all add: face_def)
  have b: "size_same w (sc_before cfg w)" by (rule size_same_before)
  then have "sc_fit cfg env r (sc_before cfg w) = sc_before cfg w"
    using assms(1) by (simp add: sc_fit_def size_same_def)
  then have "size_same w (surface_commit cfg env r w)"
    using b size_same_after[of "sc_before cfg w" cfg r] size_same_trans by (metis surface_commit_parts)
  then show "w_output (surface_commit cfg env r w) = None" "xwin (surface_commit cfg env r w) = XCB_WINDOW_NONE"
    "content_xwin (surface_commit cfg env r w) = XCB_WINDOW_NONE"
    using assms by (simp_all add: size_same_def)
qed

lemma hidden_listener:
  assumes "hidden s"
  obtains s' where "run_handler (win_step cfg env r EvCommit) s = Inr s'" "hidden s'"
    "xs_base s' = xs_base s"
proof -
  have w: "w_output (xs_win s) = None" "initial_configure_sent (xs_win s)" "pending_decoration (xs_win s) = None"
    "w_log (xs_win s) = []" "xwin (xs_win s) = XCB_WINDOW_NONE" "content_xwin (xs_win s) = XCB_WINDOW_NONE"
    using assms by (simp_all add: hidden_def)
  note c = commit_hidden_win[OF w, of cfg env r]
  have r: "run_handler (win_step cfg env r EvCommit) s
      = Inr (s\<lparr>xs_win := (surface_commit cfg env r (xs_win s))\<lparr>w_log := []\<rparr>\<rparr>)"
    using run_handler_silent[of "win_step cfg env r EvCommit" s] c(1) by simp
  moreover have "hidden (s\<lparr>xs_win := (surface_commit cfg env r (xs_win s))\<lparr>w_log := []\<rparr>\<rparr>)"
    using assms c by (simp add: hidden_def)
  ultimately show thesis using that by fastforce
qed

lemma hiding_commit:
  assumes "session_ok s" "cd_attach cd = NullAttached" "b_mapped (xs_base s)"
    and "xdg_surface_role_client_commit (surface_finalize_pending NullAttached (xs_base s)) = Inr u"
  obtains s' where "surface_handle_commit cfg cd s = Inr s'" "hidden s'" "\<not> b_initialized (xs_base s')"
    "b_sent (xs_base s') = b_sent (xs_base s)"
proof -
  let ?b = "(xs_base s)\<lparr>b_next_buffer := False\<rparr>"
  let ?s0 = "s\<lparr>xs_base := ?b\<rparr>"
  let ?w = "(wlr_output_destroy (xs_win s))\<lparr>w_log := []\<rparr>"
  let ?s1 = "s\<lparr>xs_base := ?b\<lparr>b_mapped := False\<rparr>, xs_win := ?w\<rparr>"
  have w: "w_log (xs_win s) = []" "win_ok (xs_win s)" "initial_configure_sent (xs_win s)"
    "\<not> b_initial_commit (xs_base s)"
    using assms(1,3) by (auto simp: session_ok_def linked_def base_ok_def)
  have d: "filter client_call (w_log (wlr_output_destroy (xs_win s))) = []"
    using client.face_requests(7)[of "xs_win s"] w(1) by (simp add: face_def)
  have un: "wlr_surface_unmap ?s0 = Inr ?s1"
    using assms(3) run_handler_silent[of wlr_output_destroy "?s0\<lparr>xs_base := ?b\<lparr>b_mapped := False\<rparr>\<rparr>"] d
    by (simp add: wlr_surface_unmap_def)
  have o: "w_output ?w = None" "initial_configure_sent ?w" "pending_decoration ?w = None"
    using w(2,3) by (auto simp: win_ok_def output_known_def wlr_output_destroy_def output_destroy_def
        reset_identity_def split: option.split)
  have x: "xwin ?w = XCB_WINDOW_NONE" "content_xwin ?w = XCB_WINDOW_NONE"
    using w(2) by (auto simp: win_ok_def output_known_def wlr_output_destroy_def output_destroy_def
        reset_identity_def split: option.split)
  let ?m = "move_states cd ?s1"
  let ?s2 = "(reset_xdg_toplevel ?m)\<lparr>xs_base := (reset_xdg_surface (xs_base ?m))\<lparr>b_initial_commit := False\<rparr>\<rparr>"
  have fl: "role_commit_flags True ?m = Inr ?s2"
    using w(4) by (simp add: role_commit_flags_def reset_xdg_surface_def reset_xdg_toplevel_def upd_toplevel_def Let_def)
  have h: "hidden ?s2" "\<not> b_initialized (xs_base ?s2)" "b_sent (xs_base ?s2) = b_sent (xs_base s)"
    using o x by (simp_all add: hidden_def reset_xdg_surface_def reset_xdg_toplevel_def upd_toplevel_def)
  have rc: "xdg_surface_role_commit cfg cd True ?m = Inr ?s2"
    using fl h(1) by (simp add: xdg_surface_role_commit_def hidden_def)
  obtain s' where s': "run_handler (win_step cfg (cd_env cd) (cd_popups cd) EvCommit) ?s2 = Inr s'" "hidden s'"
      "xs_base s' = xs_base ?s2"
    using hidden_listener[OF h(1)] by metis
  have "surface_handle_commit cfg cd s = Inr s'"
    using assms(2,3,4) un rc s'(1)
    by (simp add: surface_handle_commit_def surface_commit_state_def surface_finalize_pending_def del: win_step.simps)
  with s' h that show thesis by simp
qed

section \<open>Runs\<close>

text \<open>\<open>detaches\<close>: the client commits a NULL buffer, the way to hide a window.\<close>

fun detaches :: "session_event \<Rightarrow> bool" where
  "detaches (Commit cd) \<longleftrightarrow> cd_attach cd = NullAttached"
| "detaches _ \<longleftrightarrow> False"

lemma commit_cases:
  assumes "0 < content_scale cfg" "session_ok s"
  obtains (refused) f where "surface_handle_commit cfg cd s = Inl f" "f = UnconfiguredBuffer \<or> f = InvalidSize"
  | (shown) s' where "surface_handle_commit cfg cd s = Inr s'" "session_ok s'" "guarded s'"
      "\<not> (cd_attach cd = NullAttached \<and> b_mapped (xs_base s))"
  | (hides) s' where "surface_handle_commit cfg cd s = Inr s'" "hidden s'" "\<not> b_initialized (xs_base s')"
      "cd_attach cd = NullAttached" "b_mapped (xs_base s)"
proof (cases "xdg_surface_role_client_commit (surface_finalize_pending (cd_attach cd) (xs_base s))")
  case (Inl f)
  then have "f = UnconfiguredBuffer \<or> f = InvalidSize"
    by (auto simp: xdg_surface_role_client_commit_def handle_xdg_toplevel_client_commit_def split: if_splits)
  then show thesis using refused[of f] Inl by (simp add: surface_handle_commit_def Let_def)
next
  case (Inr u)
  show thesis
  proof (cases "cd_attach cd = NullAttached \<and> b_mapped (xs_base s)")
    case True
    then show thesis
      using hiding_commit[OF assms(2), of cd u cfg] Inr hides by auto
  next
    case False
    then show thesis
      using visible_commit[OF assms Inr] shown by blast
  qed
qed

lemma see_states_ok [simp]:
  "session_ok (see_states s) = session_ok s" "guarded (see_states s) = guarded s"
  "session_ok (upd_toplevel f s) = session_ok s" "guarded (upd_toplevel f s) = guarded s"
  by (simp_all add: see_states_def upd_toplevel_def session_ok_def linked_def guarded_def win_ok_def output_known_def)

lemma ack_base:
  assumes "xdg_surface_handle_ack_configure serial b = Inr b'" "base_ok b"
  shows "base_ok b'" "b_initialized b' = b_initialized b" "b_mapped b' = b_mapped b"
proof -
  obtain c later where d: "dropWhile (\<lambda>c. fst c \<noteq> serial) (b_configure_list b) = c # later"
    "b' = b\<lparr>b_pending := handle_xdg_toplevel_ack_configure (snd c) (b_pending b),
            b_configured := True, b_configure_list := later\<rparr>"
    using assms(1) by (auto simp: xdg_surface_handle_ack_configure_def split: list.splits)
  then have "b_configure_list b \<noteq> []" by auto
  with assms(2) d(2) show "base_ok b'" "b_initialized b' = b_initialized b" "b_mapped b' = b_mapped b"
    by (auto simp: base_ok_def)
qed

lemma send_base [simp]:
  "b_initialized (surface_send_configure b) = b_initialized b" "b_mapped (surface_send_configure b) = b_mapped b"
  "b_initial_commit (surface_send_configure b) = b_initial_commit b" "\<not> b_idle (surface_send_configure b)"
  "b_configured (surface_send_configure b) = b_configured b"
  "b_current (surface_send_configure b) = b_current b" "b_pending (surface_send_configure b) = b_pending b"
  by (simp_all add: surface_send_configure_def send_xdg_toplevel_configure_def Let_def)

lemma pending_ok:
  "session_ok (s\<lparr>xs_base := (xs_base s)\<lparr>b_pending := st\<rparr>\<rparr>) = session_ok s"
  "guarded (s\<lparr>xs_base := (xs_base s)\<lparr>b_pending := st\<rparr>\<rparr>) = guarded s"
  by (simp_all add: session_ok_def linked_def guarded_def base_ok_def)

lemma serial_ok: "session_ok (s\<lparr>xs_serial := n\<rparr>) = session_ok s" "guarded (s\<lparr>xs_serial := n\<rparr>) = guarded s"
  by (simp_all add: session_ok_def linked_def guarded_def)

lemma send_ok: "base_ok b \<Longrightarrow> b_idle b \<Longrightarrow> base_ok (surface_send_configure b)"
  by (simp add: base_ok_def)

lemma activate_keeps:
  "win_ok (emit c w) = win_ok w"
  by (simp add: win_ok_def output_known_def)

text \<open>The invariant survives every event; while the client hides nothing, nothing fails.\<close>

lemma xdg_step_ok:
  assumes "0 < content_scale cfg" "session_ok s" "xdg_step cfg e s = Inr s'"
  shows "session_ok s'" "guarded s \<Longrightarrow> \<not> detaches e \<Longrightarrow> guarded s'"
proof -
  have req: "session_ok s' \<and> (guarded s \<longrightarrow> guarded s')"
    if "request cfg ev (upd_toplevel f s) = Inr s'"
      "ev \<in> {EvRequestMaximize, EvRequestFullscreen, EvRequestMinimize} \<or> (\<exists>d. ev = EvDecoration d)" for ev f
    using that plain_ok[OF assms(1), of "upd_toplevel f s" ev undefined "[]" s'] assms(2)
      request_step[OF that(2), of cfg "upd_toplevel f s" undefined]
    by (auto simp: plain_event_def)
  have "session_ok s' \<and> (guarded s \<longrightarrow> \<not> detaches e \<longrightarrow> guarded s')"
  proof (cases e)
    case (Commit cd)
    show ?thesis
      by (rule commit_cases[OF assms(1,2), of cd]) (use Commit assms(3) hidden_ok in auto)
  next
    case (Ack serial)
    then obtain b where b: "xdg_surface_handle_ack_configure serial (xs_base s) = Inr b"
      "s' = see_states (s\<lparr>xs_base := b\<rparr>)"
      using assms(3) by (auto split: sum.splits)
    then show ?thesis
      using ack_base[OF b(1)] assms(2) by (auto simp: session_ok_def linked_def guarded_def see_states_def upd_toplevel_def
          win_ok_def output_known_def)
  next
    case SendIdle
    then have "s' = (if b_idle (xs_base s) then s\<lparr>xs_base := surface_send_configure (xs_base s)\<rparr> else s)"
      using assms(3) by simp
    then show ?thesis
      using assms(2) send_ok[of "xs_base s"]
      by (cases "b_idle (xs_base s)") (simp_all add: session_ok_def linked_def guarded_def)
  next
    case RequestMinimized
    then show ?thesis using req[of EvRequestMinimize "\<lambda>t. t"] assms(3) by (simp add: upd_toplevel_def)
  next
    case (RequestDecoration d)
    then show ?thesis using req[of "EvDecoration d" "\<lambda>t. t"] assms(3) by (simp add: upd_toplevel_def)
  next
    case (HostEvent env r ev)
    then show ?thesis
      using assms plain_ok[OF assms(1,2), of ev env r s'] by (auto simp: plain_event_def split: if_splits)
  next
    case (Activate on)
    have "session_ok s1 \<and> (guarded s \<longrightarrow> guarded s1)" if r: "run_handler (emit c) s = Inr s1" for c s1
      using handler_linked[OF _ r] run_handler_Inr[OF r] assms(2)
      by (auto simp: session_ok_def linked_def guarded_def same_base_def activate_keeps)
    then show ?thesis using Activate assms(2,3) by (auto split: if_splits)
  next
    case (RequestMaximized on)
    then show ?thesis using req[of EvRequestMaximize] assms(3) by simp
  next
    case (RequestFullscreen on)
    then show ?thesis using req[of EvRequestFullscreen] assms(3) by simp
  qed (use assms(2,3) pending_ok serial_ok in auto)
  then show "session_ok s'" "guarded s \<Longrightarrow> \<not> detaches e \<Longrightarrow> guarded s'" by blast+
qed

lemma xdg_step_safe:
  assumes "0 < content_scale cfg" "session_ok s" "guarded s" "\<not> detaches e"
  shows "xdg_step cfg e s \<noteq> Inl Assertion"
proof -
  have req: "request cfg ev (upd_toplevel f s) \<noteq> Inl Assertion"
    if "ev \<in> {EvRequestMaximize, EvRequestFullscreen, EvRequestMinimize} \<or> (\<exists>d. ev = EvDecoration d)" for ev f
  proof -
    have p: "plain_event ev" using that by (auto simp: plain_event_def)
    obtain s1 where "run_handler (win_step cfg undefined [] ev) (upd_toplevel f s) = Inr s1"
      using plain_total[OF assms(1) _ _ p, of "upd_toplevel f s" undefined "[]"] assms(2,3) by auto
    then show ?thesis using request_step[OF that, of cfg "upd_toplevel f s" undefined] by simp
  qed
  show ?thesis
  proof (cases e)
    case (Commit cd)
    show ?thesis
      by (rule commit_cases[OF assms(1,2), of cd]) (use Commit in auto)
  next
    case (Ack serial)
    then show ?thesis by (auto simp: xdg_surface_handle_ack_configure_def split: list.split)
  next
    case RequestMinimized
    then show ?thesis using req[of EvRequestMinimize "\<lambda>t. t"] by (simp add: upd_toplevel_def)
  next
    case (RequestDecoration d)
    then show ?thesis using req[of "EvDecoration d" "\<lambda>t. t"] by (simp add: upd_toplevel_def)
  next
    case (HostEvent env r ev)
    show ?thesis
    proof (cases "is_host_event ev")
      case True
      then obtain s1 where "run_handler (win_step cfg env r ev) s = Inr s1"
        using plain_total[OF assms(1-3), of ev env r] by (auto simp: plain_event_def)
      then show ?thesis using HostEvent by simp
    qed (simp add: HostEvent)
  next
    case (Activate on)
    have "b_initialized (xs_base s)" if "w_output (xs_win s) \<noteq> None"
      using that assms(2) by (auto simp: session_ok_def linked_def base_ok_def)
    moreover have "negatives (emit (SetActivated (w_id (xs_win s)) on) (xs_win s)) = []"
      using assms(2) by (simp add: session_ok_def linked_def)
    ultimately show ?thesis
      using Activate run_handler_total[of s "emit (SetActivated (w_id (xs_win s)) on)"]
      by (cases "w_output (xs_win s)") fastforce+
  qed (use req in auto)
qed

lemma xdg_exec_safe:
  assumes "0 < content_scale cfg" "session_ok s" "guarded s" "\<forall>e \<in> set es. \<not> detaches e"
  shows "xdg_exec cfg es s \<noteq> Inl Assertion"
  using assms(2-)
proof (induction es arbitrary: s)
  case (Cons e es)
  then have "xdg_step cfg e s \<noteq> Inl Assertion" using xdg_step_safe[OF assms(1)] by simp
  then show ?case
    using Cons xdg_step_ok[OF assms(1)] by (cases "xdg_step cfg e s") auto
qed simp

lemma new_session_ok: "session_ok (new_session version serial i tree)" "guarded (new_session version serial i tree)"
  by (simp_all add: session_ok_def linked_def guarded_def new_session_def create_xdg_toplevel_def base_ok_def
      win_ok_def output_known_def server_new_xdg_toplevel_def)

text \<open>
  C8 (safety). No call the compositor makes on a toplevel trips an assertion of wlroots, whatever
  the client and the X server send and in whatever order, as long as the client does not hide the
  window with a NULL buffer: sizes are not negative, and configures are scheduled only once the
  surface has seen its first commit.
\<close>

theorem configures_only_when_ready:
  assumes "0 < content_scale cfg" "\<forall>e \<in> set es. \<not> detaches e"
  shows "xdg_exec cfg es (new_session version serial i tree) \<noteq> Inl Assertion"
  using xdg_exec_safe[OF assms(1) new_session_ok assms(2)] .

section \<open>A window that was hidden\<close>

text \<open>Requests of the client for a state; the compositor answers them with a configure.\<close>

fun asks_for_state :: "session_event \<Rightarrow> bool" where
  "asks_for_state (RequestMaximized _) \<longleftrightarrow> True"
| "asks_for_state (RequestFullscreen _) \<longleftrightarrow> True"
| "asks_for_state (RequestDecoration _) \<longleftrightarrow> True"
| "asks_for_state _ \<longleftrightarrow> False"

lemma hidden_commit:
  assumes "hidden s" "surface_handle_commit cfg cd s = Inr s'"
  shows "hidden s' \<and> b_sent (xs_base s') = b_sent (xs_base s)"
proof -
  let ?b = "surface_finalize_pending (cd_attach cd) (xs_base s)"
  have c: "\<not> b_next_buffer ?b" "\<not> b_configured (xs_base s)"
    using assms by (auto simp: surface_handle_commit_def xdg_surface_role_client_commit_def hidden_def
        surface_finalize_pending_def Let_def split: sum.splits if_splits attachment.splits)
  let ?s0 = "s\<lparr>xs_base := ?b\<rparr>"
  have h0: "hidden ?s0" "b_sent ?b = b_sent (xs_base s)"
    using assms(1) c by (auto simp: hidden_def surface_finalize_pending_def split: attachment.splits)
  let ?m = "move_states cd ?s0"
  let ?s1 = "?m\<lparr>xs_base := (xs_base ?m)\<lparr>b_initial_commit := \<not> b_initialized ?b, b_initialized := True\<rparr>\<rparr>"
  have h1: "hidden ?s1" "b_sent (xs_base ?s1) = b_sent (xs_base s)"
    using h0 by (simp_all add: hidden_def)
  have rc: "xdg_surface_role_commit cfg cd False ?m = Inr ?s1"
    using h1(1) by (simp add: xdg_surface_role_commit_def role_commit_flags_def hidden_def)
  obtain s2 where s2: "run_handler (win_step cfg (cd_env cd) (cd_popups cd) EvCommit) ?s1 = Inr s2" "hidden s2"
      "xs_base s2 = xs_base ?s1"
    using hidden_listener[OF h1(1)] by metis
  have u: "(cd_attach cd = NullAttached \<and> b_mapped (xs_base ?s0)) = False"
    using h0(1) by (simp add: hidden_def)
  have un: "wlr_surface_unmap ?s0 = Inr ?s0"
    using h0(1) by (simp add: wlr_surface_unmap_def hidden_def)
  have n: "(if cd_attach cd = NullAttached then wlr_surface_unmap ?s0 else Inr ?s0) = Inr ?s0"
    by (simp only: un if_cancel)
  have st: "surface_commit_state cfg cd ?s0 = Inr s2"
    by (simp only: surface_commit_state_def Let_def sum.case u n rc s2(1))
  have "surface_handle_commit cfg cd s = Inr s2"
    using assms(2) st unfolding surface_handle_commit_def Let_def by (simp split: sum.splits)
  with assms(2) s2 h1(2) show ?thesis by simp
qed

lemma hidden_plain:
  assumes "hidden s" "is_host_event ev \<or> ev = EvRequestMinimize"
  shows "run_handler (win_step cfg env r ev) s = Inr s"
proof -
  let ?w = "xs_win s"
  have w: "w_output ?w = None" "xwin ?w = XCB_WINDOW_NONE" "content_xwin ?w = XCB_WINDOW_NONE" "w_log ?w = []"
    using assms(1) by (simp_all add: hidden_def)
  have "\<exists>cs. win_step cfg env r ev ?w = emit_all cs ?w \<and> filter client_call cs = []"
  proof (cases "ev = EvRequestClose")
    case True
    then show ?thesis by (intro exI[of _ "[SendClose]"]) (simp add: output_request_close_def emit_def emit_all_def)
  next
    case False
    have "win_step cfg env r ev ?w = ?w"
      using assms(2) False net_wm_hidden[OF w(1-3), of cfg env]
      by (cases ev) (simp_all add: w win_configure_notify_def win_reparent_notify_def output_frame_def
          toplevel_request_minimize_def ewmh_target_window_def)
    then show ?thesis by (intro exI[of _ "[]"]) simp
  qed
  then obtain cs where e: "win_step cfg env r ev ?w = emit_all cs ?w" "filter client_call cs = []" by blast
  have "(emit_all cs ?w)\<lparr>w_log := []\<rparr> = ?w"
    using w(4) by (simp add: emit_all_def)
  then show ?thesis
    using run_handler_silent[of "win_step cfg env r ev" s] e w(4) by simp
qed

lemma hidden_step:
  assumes "hidden s" "\<not> asks_for_state e" "xdg_step cfg e s = Inr s'"
  shows "hidden s' \<and> b_sent (xs_base s') = b_sent (xs_base s)"
proof (cases e)
  case (Commit cd)
  then show ?thesis using hidden_commit assms(1,3) by simp
next
  case (Ack serial)
  then show ?thesis using assms by (simp add: xdg_surface_handle_ack_configure_def hidden_def)
next
  case RequestMinimized
  have "request cfg EvRequestMinimize s = Inr s"
    using request_step[of EvRequestMinimize cfg s undefined] hidden_plain[OF assms(1)] by simp
  then show ?thesis using RequestMinimized assms(1,3) by simp
next
  case (HostEvent env r ev)
  then show ?thesis using hidden_plain[OF assms(1), of ev cfg env r] assms(1,3) by (auto split: if_splits)
qed (use assms in \<open>auto simp: hidden_def see_states_def upd_toplevel_def\<close>)

lemma hidden_exec:
  assumes "hidden s" "\<forall>e \<in> set es. \<not> asks_for_state e" "xdg_exec cfg es s = Inr s'"
  shows "hidden s' \<and> b_sent (xs_base s') = b_sent (xs_base s)"
  using assms
proof (induction es arbitrary: s)
  case (Cons e es)
  then obtain s1 where s1: "xdg_step cfg e s = Inr s1" "xdg_exec cfg es s1 = Inr s'"
    by (auto split: sum.splits)
  with hidden_step[OF Cons.prems(1) _ s1(1)] Cons.prems(2) Cons.IH[of s1] show ?case by auto
qed simp

lemma exec_ok:
  assumes "0 < content_scale cfg" "session_ok s" "xdg_exec cfg es s = Inr s'"
  shows "session_ok s'"
  using assms(2,3)
proof (induction es arbitrary: s)
  case (Cons e es)
  then obtain s1 where "xdg_step cfg e s = Inr s1" "xdg_exec cfg es s1 = Inr s'"
    by (auto split: sum.splits)
  then show ?case using xdg_step_ok(1)[OF assms(1)] Cons by blast
qed simp

lemma hides_window:
  assumes "0 < content_scale cfg" "xdg_exec cfg es (new_session version serial i tree) = Inr s"
    and "b_mapped (xs_base s)" "cd_attach cd = NullAttached" "xdg_step cfg (Commit cd) s = Inr s1"
  shows "hidden s1" "\<not> b_initialized (xs_base s1)" "b_sent (xs_base s1) = b_sent (xs_base s)"
proof -
  have ok: "session_ok s" using exec_ok[OF assms(1) new_session_ok(1) assms(2)] .
  obtain u where "xdg_surface_role_client_commit (surface_finalize_pending NullAttached (xs_base s)) = Inr u"
    using assms(4,5) by (auto simp: surface_handle_commit_def Let_def split: sum.splits)
  then obtain s2 where s2: "surface_handle_commit cfg cd s = Inr s2" "hidden s2" "\<not> b_initialized (xs_base s2)"
      "b_sent (xs_base s2) = b_sent (xs_base s)"
    using hiding_commit[OF ok assms(4,3)] by metis
  then show "hidden s1" "\<not> b_initialized (xs_base s1)" "b_sent (xs_base s1) = b_sent (xs_base s)"
    using assms(5) by auto
qed

text \<open>
  C39 (error). A window that the client has hidden with a NULL buffer cannot be shown again the way
  it was shown first: whatever the client commits and acknowledges and whatever the X server sends,
  the compositor sends no configure (\<open>initial_configure_sent\<close> is still set), so the surface is never
  mapped. Only a request for a state makes it send one.
\<close>

theorem hidden_window_stays_hidden:
  assumes "0 < content_scale cfg" "xdg_exec cfg es (new_session version serial i tree) = Inr s"
    and "b_mapped (xs_base s)" "cd_attach cd = NullAttached"
    and "xdg_exec cfg (Commit cd # later) s = Inr s'" "\<forall>e \<in> set later. \<not> asks_for_state e"
  shows "\<not> b_mapped (xs_base s') \<and> b_sent (xs_base s') = b_sent (xs_base s)"
proof -
  obtain s1 where s1: "xdg_step cfg (Commit cd) s = Inr s1" "xdg_exec cfg later s1 = Inr s'"
    using assms(5) by (auto split: sum.splits)
  from hides_window[OF assms(1-4) s1(1)] hidden_exec[OF _ assms(6) s1(2)]
  show ?thesis by (auto simp: hidden_def)
qed

text \<open>
  C9 (error). After it has hidden its window, a client that asks to be maximized, to be made
  fullscreen or to be decorated before it commits again aborts the compositor: the guard of the
  handlers still says that the surface is initialized, which wlroots has reset.
\<close>

theorem hidden_request_aborts:
  assumes "0 < content_scale cfg" "xdg_exec cfg es (new_session version serial i tree) = Inr s"
    and "b_mapped (xs_base s)" "cd_attach cd = NullAttached" "xdg_step cfg (Commit cd) s = Inr s1"
  shows "xdg_step cfg (RequestMaximized on) s1 = Inl Assertion
    \<and> xdg_step cfg (RequestFullscreen on) s1 = Inl Assertion
    \<and> xdg_step cfg (RequestDecoration d) s1 = Inl Assertion"
  using hides_window[OF assms]
  by (simp add: hidden_def request_def run_handler_def upd_toplevel_def toplevel_request_maximize_def
      toplevel_request_fullscreen_def decoration_request_mode_def wlx_decoration_apply_mode_def
      ewmh_target_window_def call_defs Let_def)

end
