(* ===== verification/Configure_Acks.thy ===== *)
theory Configure_Acks
  imports Configure_Runs
begin

text \<open>
  Which contents come into force (theory \<open>Xdg_Configure\<close>): the toplevel's pending state is the
  content of the last configure the client acknowledged, its current state that of the last one
  before its last commit, and the client acknowledges in the order of sending. The serials, which
  wrap around, name the configures uniquely in runs of fewer than \<open>2^30\<close> events.
\<close>

section \<open>What a run acknowledges\<close>

fun acks :: "session_event list \<Rightarrow> 32 word list" where
  "acks [] = []"
| "acks (Ack serial # es) = serial # acks es"
| "acks (_ # es) = acks es"

fun is_commit :: "session_event \<Rightarrow> bool" where
  "is_commit (Commit _) \<longleftrightarrow> True"
| "is_commit _ \<longleftrightarrow> False"

text \<open>The acknowledgements before the last commit.\<close>

definition applied_acks :: "session_event list \<Rightarrow> 32 word list" where
  "applied_acks es = acks (rev (dropWhile (\<lambda>e. \<not> is_commit e) (rev es)))"

lemma acks_append [simp]: "acks (es @ fs) = acks es @ acks fs"
  by (induction es rule: acks.induct) simp_all

lemma applied_snoc: "applied_acks (es @ [e]) = (if is_commit e then acks es else applied_acks es)"
  by (cases e) (simp_all add: applied_acks_def)

text \<open>The part of a state that a configure determines.\<close>

definition state_part where
  "state_part st = (st_maximized st, st_fullscreen st, st_resizing st, st_activated st, st_suspended st,
     st_tiled st, st_constrained st, st_width st, st_height st)"

definition configure_part where
  "configure_part c = (cf_maximized c, cf_fullscreen c, cf_resizing c, cf_activated c, cf_suspended c,
     cf_tiled c, cf_constrained c, cf_width c, cf_height c)"

lemma ack_part [simp]: "state_part (handle_xdg_toplevel_ack_configure c st) = configure_part c"
  by (simp add: state_part_def configure_part_def handle_xdg_toplevel_ack_configure_def)

text \<open>The content that the last of some acknowledgements names; at first the zeroed state.\<close>

definition acked_part where
  "acked_part sent as =
     (if as = [] then state_part (b_current (create_xdg_toplevel 0)) else configure_part (the (map_of sent (last as))))"

section \<open>Serials\<close>

text \<open>\<open>numbered s0 N s\<close>: at most \<open>N\<close> serials were taken since \<open>s0\<close>, and the configures sent or
  scheduled carry increasing ones.\<close>

definition numbered :: "32 word \<Rightarrow> nat \<Rightarrow> xdg_session \<Rightarrow> bool" where
  "numbered s0 N s \<longleftrightarrow>
     (\<exists>js k. k \<le> N \<and> xs_serial s = s0 + of_nat k \<and> sorted_wrt (<) js \<and> (\<forall>j \<in> set js. j \<le> k)
       \<and> map fst (b_sent (xs_base s)) = map (\<lambda>j. s0 + of_nat j) js
       \<and> (b_idle (xs_base s) \<longrightarrow>
            (\<exists>j \<le> k. b_scheduled_serial (xs_base s) = s0 + of_nat j \<and> (\<forall>i \<in> set js. i < j))))"

lemma numbered_mono: "numbered s0 M s \<Longrightarrow> M \<le> N \<Longrightarrow> numbered s0 N s"
  unfolding numbered_def by (meson order_trans)

lemma numbered_distinct:
  assumes "numbered s0 N s" "N < 2 ^ 32"
  shows "distinct (map fst (b_sent (xs_base s)))"
proof -
  obtain js k where j: "k \<le> N" "sorted_wrt (<) js" "\<forall>j \<in> set js. j \<le> k"
      "map fst (b_sent (xs_base s)) = map (\<lambda>j. s0 + of_nat j) js"
    using assms(1) unfolding numbered_def by blast
  have "inj_on (\<lambda>j. s0 + of_nat j :: 32 word) (set js)"
  proof (rule inj_onI)
    fix a b assume "a \<in> set js" "b \<in> set js" "s0 + of_nat a = s0 + (of_nat b :: 32 word)"
    then have "(of_nat a :: 32 word) = of_nat b" "a < 2 ^ 32" "b < 2 ^ 32" using j assms(2) by auto
    then show "a = b" by (simp add: word_of_nat_eq_iff take_bit_nat_eq_self)
  qed
  moreover have "distinct js" using j(2) by (simp add: strict_sorted_iff)
  ultimately show ?thesis using j(4) by (simp add: distinct_map)
qed

text \<open>A scheduled configure takes one serial, unless one is scheduled already.\<close>

lemma serve_numbered:
  assumes "serve c (n, b) = Inr (n', b')"
  shows "n' = n \<and> b_idle b' = b_idle b \<and> b_scheduled_serial b' = b_scheduled_serial b
    \<or> \<not> b_idle b \<and> b_idle b' \<and> n' = n + 1 \<and> b_scheduled_serial b' = n'"
  using assms by (cases c) (auto simp: call_defs wl_display_next_serial_def Let_def split: if_splits)

lemma serve_all_numbered:
  assumes "serve_all cs (n, b) = Inr (n', b')"
  shows "n' = n \<and> b_idle b' = b_idle b \<and> b_scheduled_serial b' = b_scheduled_serial b
    \<or> \<not> b_idle b \<and> b_idle b' \<and> n' = n + 1 \<and> b_scheduled_serial b' = n'"
  using assms
proof (induction cs arbitrary: n b)
  case (Cons c cs)
  then obtain n1 b1 where s: "serve c (n, b) = Inr (n1, b1)" "serve_all cs (n1, b1) = Inr (n', b')"
    by (auto split: sum.splits)
  show ?case using serve_numbered[OF s(1)] Cons.IH[OF s(2)] by auto
qed simp

lemma handler_numbered:
  assumes "run_handler h s = Inr s'" "numbered s0 N s"
  shows "numbered s0 (Suc N) s'"
proof -
  obtain n' b' where b: "serve_all (w_log (h (xs_win s))) (xs_serial s, xs_base s) = Inr (n', b')"
      "xs_serial s' = n'" "xs_base s' = b'"
    using assms(1) by (auto simp: run_handler_def Let_def split: sum.splits)
  obtain js k where j: "k \<le> N" "xs_serial s = s0 + of_nat k" "sorted_wrt (<) js" "\<forall>j \<in> set js. j \<le> k"
      "map fst (b_sent (xs_base s)) = map (\<lambda>j. s0 + of_nat j) js"
      "b_idle (xs_base s) \<Longrightarrow> \<exists>j \<le> k. b_scheduled_serial (xs_base s) = s0 + of_nat j \<and> (\<forall>i \<in> set js. i < j)"
    using assms(2) unfolding numbered_def by blast
  have sent: "b_sent b' = b_sent (xs_base s)"
    using serve_all_same[OF b(1)] by (simp add: same_base_def)
  from serve_all_numbered[OF b(1)] show ?thesis
  proof
    assume "n' = xs_serial s \<and> b_idle b' = b_idle (xs_base s) \<and> b_scheduled_serial b' = b_scheduled_serial (xs_base s)"
    then show ?thesis
      unfolding numbered_def b sent using j by (intro exI[of _ js] exI[of _ k]) auto
  next
    assume "\<not> b_idle (xs_base s) \<and> b_idle b' \<and> n' = xs_serial s + 1 \<and> b_scheduled_serial b' = n'"
    then show ?thesis
      unfolding numbered_def b sent using j
      by (intro exI[of _ js] exI[of _ "Suc k"]) (auto simp: add.commute add.left_commute intro!: exI[of _ "Suc k"])
  qed
qed

lemma numbered_cong:
  assumes "numbered s0 N s" "xs_serial s' = xs_serial s" "b_sent (xs_base s') = b_sent (xs_base s)"
    and "b_scheduled_serial (xs_base s') = b_scheduled_serial (xs_base s)"
    and "b_idle (xs_base s') \<Longrightarrow> b_idle (xs_base s)"
  shows "numbered s0 N s'"
  using assms unfolding numbered_def by metis

lemma send_numbered:
  assumes "numbered s0 N s" "b_idle (xs_base s)"
  shows "numbered s0 N (s\<lparr>xs_base := surface_send_configure (xs_base s)\<rparr>)"
proof -
  obtain js k j where j: "k \<le> N" "xs_serial s = s0 + of_nat k" "sorted_wrt (<) js" "\<forall>j \<in> set js. j \<le> k"
      "map fst (b_sent (xs_base s)) = map (\<lambda>j. s0 + of_nat j) js"
      "j \<le> k" "b_scheduled_serial (xs_base s) = s0 + of_nat j" "\<forall>i \<in> set js. i < j"
    using assms unfolding numbered_def by blast
  then show ?thesis
    unfolding numbered_def
    by (intro exI[of _ "js @ [j]"] exI[of _ k])
      (auto simp: sorted_wrt_append surface_send_configure_def send_xdg_toplevel_configure_def Let_def)
qed

lemma tick_numbered:
  assumes "numbered s0 N s"
  shows "numbered s0 (Suc N) (s\<lparr>xs_serial := wl_display_next_serial (xs_serial s)\<rparr>)"
proof -
  obtain js k where j: "k \<le> N" "xs_serial s = s0 + of_nat k" "sorted_wrt (<) js" "\<forall>j \<in> set js. j \<le> k"
      "map fst (b_sent (xs_base s)) = map (\<lambda>j. s0 + of_nat j) js"
      "b_idle (xs_base s) \<Longrightarrow> \<exists>j \<le> k. b_scheduled_serial (xs_base s) = s0 + of_nat j \<and> (\<forall>i \<in> set js. i < j)"
    using assms unfolding numbered_def by blast
  then show ?thesis
    unfolding numbered_def
    by (intro exI[of _ js] exI[of _ "Suc k"]) (auto simp: wl_display_next_serial_def add.commute intro: le_SucI)
qed

section \<open>What a step does to the configures\<close>

text \<open>Handlers and resets neither send nor acknowledge.\<close>

definition calm :: "xdg_session \<Rightarrow> xdg_session \<Rightarrow> bool" where
  "calm s s' \<longleftrightarrow>
     b_sent (xs_base s') = b_sent (xs_base s) \<and> b_pending (xs_base s') = b_pending (xs_base s)
     \<and> b_current (xs_base s') = b_current (xs_base s)
     \<and> (b_configure_list (xs_base s') = b_configure_list (xs_base s) \<or> b_configure_list (xs_base s') = [])"

lemma calm_refl [simp]: "calm s s"
  by (simp add: calm_def)

lemma calm_trans: "calm a b \<Longrightarrow> calm b c \<Longrightarrow> calm a c"
  by (auto simp: calm_def)

lemma handler_calm: "run_handler h s = Inr s' \<Longrightarrow> calm s s'"
  using run_handler_Inr(1)[of h s s'] by (simp add: calm_def same_base_def)

definition steps :: "nat \<Rightarrow> xdg_session \<Rightarrow> xdg_session \<Rightarrow> bool" where
  "steps n s s' \<longleftrightarrow> calm s s' \<and> (\<forall>s0 N. numbered s0 N s \<longrightarrow> numbered s0 (N + n) s')"

lemma steps_trans: "steps m a b \<Longrightarrow> steps n b c \<Longrightarrow> steps (m + n) a c"
  unfolding steps_def using calm_trans by (metis add.assoc)

lemma handler_steps: "run_handler h s = Inr s' \<Longrightarrow> steps 1 s s'"
  using handler_calm handler_numbered by (simp add: steps_def)

lemma quiet_steps:
  assumes "xs_serial s' = xs_serial s" "b_sent (xs_base s') = b_sent (xs_base s)"
    and "b_scheduled_serial (xs_base s') = b_scheduled_serial (xs_base s)"
    and "b_idle (xs_base s') \<Longrightarrow> b_idle (xs_base s)"
    and "b_pending (xs_base s') = b_pending (xs_base s)" "b_current (xs_base s') = b_current (xs_base s)"
    and "b_configure_list (xs_base s') = b_configure_list (xs_base s) \<or> b_configure_list (xs_base s') = []"
  shows "steps 0 s s'"
  unfolding steps_def calm_def
proof (intro conjI allI impI)
  show "numbered s0 (N + 0) s'" if "numbered s0 N s" for s0 N
    using numbered_cong[OF that assms(1-4)] by simp
qed (use assms(2,5-7) in simp_all)

lemma unmap_steps: "wlr_surface_unmap s = Inr s' \<Longrightarrow> steps 1 s s'"
proof (cases "b_mapped (xs_base s)")
  case True
  assume "wlr_surface_unmap s = Inr s'"
  then have "steps 1 (s\<lparr>xs_base := (xs_base s)\<lparr>b_mapped := False\<rparr>\<rparr>) s'"
    using True handler_steps by (simp add: wlr_surface_unmap_def)
  moreover have "steps 0 s (s\<lparr>xs_base := (xs_base s)\<lparr>b_mapped := False\<rparr>\<rparr>)"
    by (rule quiet_steps) simp_all
  ultimately show ?thesis using steps_trans by fastforce
next
  case False
  assume "wlr_surface_unmap s = Inr s'"
  with False have "s' = s" by (simp add: wlr_surface_unmap_def)
  then show ?thesis using numbered_mono by (auto simp: steps_def)
qed

lemma role_steps:
  assumes "xdg_surface_role_commit cfg cd u s = Inr s'"
  shows "steps 1 s s'"
proof -
  obtain s1 where f: "role_commit_flags u s = Inr s1"
    using assms by (auto simp: xdg_surface_role_commit_def split: sum.splits)
  have "steps 0 s s1"
    using f by (intro quiet_steps) (auto simp: role_commit_flags_def reset_xdg_surface_def reset_xdg_toplevel_def
        upd_toplevel_def Let_def split: if_splits)
  moreover have "steps 1 s1 s'"
  proof (cases "\<not> b_mapped (xs_base s1) \<and> b_has_buffer (xs_base s1)")
    case True
    let ?s2 = "s1\<lparr>xs_base := (xs_base s1)\<lparr>b_mapped := True\<rparr>\<rparr>"
    have "steps 1 ?s2 s'"
      using assms f True by (intro handler_steps) (simp add: xdg_surface_role_commit_def wlr_surface_map_def)
    moreover have "steps 0 s1 ?s2" by (rule quiet_steps) simp_all
    ultimately show ?thesis using steps_trans by fastforce
  next
    case False
    then have "s' = s1" using assms f by (auto simp: xdg_surface_role_commit_def split: if_splits)
    then show ?thesis using numbered_mono by (auto simp: steps_def)
  qed
  ultimately show ?thesis using steps_trans by fastforce
qed

text \<open>A commit makes the pending state current.\<close>

lemma commit_effect:
  assumes "surface_handle_commit cfg cd s = Inr s'"
  obtains s1 where "steps 1 s s1" "steps 2 (move_states cd s1) s'"
proof -
  let ?s0 = "s\<lparr>xs_base := surface_finalize_pending (cd_attach cd) (xs_base s)\<rparr>"
  have c: "surface_commit_state cfg cd ?s0 = Inr s'"
    using assms by (auto simp: surface_handle_commit_def Let_def split: sum.splits)
  have q: "steps 0 s ?s0"
    by (cases "cd_attach cd"; rule quiet_steps) (simp_all add: surface_finalize_pending_def)
  obtain s1 where s1: "(if cd_attach cd = NullAttached then wlr_surface_unmap ?s0 else Inr ?s0) = Inr s1"
    using c unfolding surface_commit_state_def Let_def by (auto split: sum.splits if_splits)
  have "steps 1 ?s0 s1"
  proof (cases "cd_attach cd = NullAttached")
    case True
    then show ?thesis using s1 unmap_steps by simp
  next
    case False
    then have "s1 = ?s0" using s1 by simp
    then show ?thesis using numbered_mono by (auto simp: steps_def)
  qed
  with q have "steps 1 s s1" using steps_trans by fastforce
  moreover have "steps 2 (move_states cd s1) s'"
  proof -
    obtain s2 where "xdg_surface_role_commit cfg cd (cd_attach cd = NullAttached \<and> b_mapped (xs_base ?s0)) (move_states cd s1) = Inr s2"
      "run_handler (win_step cfg (cd_env cd) (cd_popups cd) EvCommit) s2 = Inr s'"
      using c unfolding surface_commit_state_def Let_def s1 by (auto split: sum.splits simp del: win_step.simps)
    then have "steps 1 (move_states cd s1) s2" "steps 1 s2 s'" using role_steps handler_steps by blast+
    from steps_trans[OF this] show ?thesis by (simp add: numeral_2_eq_2)
  qed
  ultimately show thesis using that by blast
qed

section \<open>The order of acknowledgements\<close>

text \<open>\<open>confs es ks s\<close>: the acknowledgements of the run name the configures \<open>ks\<close> of those sent, which
  wlroots no longer lists, and the states are what they say.\<close>

definition confs :: "session_event list \<Rightarrow> nat list \<Rightarrow> xdg_session \<Rightarrow> bool" where
  "confs es ks s \<longleftrightarrow>
     (let sent = b_sent (xs_base s)
      in (\<exists>m \<le> length sent. b_configure_list (xs_base s) = drop m sent \<and> (\<forall>k \<in> set ks. k < m))
         \<and> sorted_wrt (<) ks \<and> acks es = map (\<lambda>k. fst (sent ! k)) ks
         \<and> state_part (b_pending (xs_base s)) = acked_part sent (acks es)
         \<and> state_part (b_current (xs_base s)) = acked_part sent (applied_acks es))"

lemma confs_below: "confs es ks s \<Longrightarrow> k \<in> set ks \<Longrightarrow> k < length (b_sent (xs_base s))"
  by (auto simp: confs_def Let_def)

lemma confs_acks: "confs es ks s \<Longrightarrow> set (acks es) \<subseteq> fst ` set (b_sent (xs_base s))"
  using confs_below by (auto simp: confs_def Let_def)

lemma applied_subset: "set (applied_acks es) \<subseteq> set (acks es)"
proof (induction es rule: rev_induct)
  case (snoc e es)
  then show ?case by (auto simp: applied_snoc)
qed (simp add: applied_acks_def)

text \<open>An event without acknowledgement and commit.\<close>

lemma confs_calm:
  assumes "confs es ks s" "calm s s'" "acks [e] = []" "\<not> is_commit e"
  shows "confs (es @ [e]) ks s'"
proof -
  let ?sent = "b_sent (xs_base s)"
  obtain m where m: "m \<le> length ?sent" "b_configure_list (xs_base s) = drop m ?sent" "\<forall>k \<in> set ks. k < m"
    using assms(1) by (auto simp: confs_def Let_def)
  have "\<exists>m \<le> length ?sent. b_configure_list (xs_base s') = drop m ?sent \<and> (\<forall>k \<in> set ks. k < m)"
    using assms(2) m by (cases "b_configure_list (xs_base s') = []")
      (force simp: calm_def intro: exI[of _ "length ?sent"], force simp: calm_def)
  then show ?thesis
    using assms by (simp add: confs_def calm_def applied_snoc Let_def)
qed

lemma confs_send:
  assumes "confs es ks s"
  shows "confs (es @ [SendIdle]) ks (s\<lparr>xs_base := surface_send_configure (xs_base s)\<rparr>)"
proof -
  let ?b = "xs_base s"
  obtain c where c: "b_sent (surface_send_configure ?b) = b_sent ?b @ [c]"
      "b_configure_list (surface_send_configure ?b) = b_configure_list ?b @ [c]"
    by (auto simp: surface_send_configure_def send_xdg_toplevel_configure_def Let_def)
  have p: "acked_part (b_sent ?b @ [c]) as = acked_part (b_sent ?b) as" if "set as \<subseteq> fst ` set (b_sent ?b)" for as
  proof (cases "as = []")
    case False
    then have "last as \<in> fst ` set (b_sent ?b)" using that by auto
    then obtain x where "map_of (b_sent ?b) (last as) = Some x" by (metis map_of_eq_None_iff not_None_eq)
    then have "map_of (b_sent ?b @ [c]) (last as) = Some x" by simp
    with \<open>map_of (b_sent ?b) (last as) = Some x\<close> show ?thesis by (simp add: acked_part_def)
  qed (simp add: acked_part_def)
  have a: "set (acks es) \<subseteq> fst ` set (b_sent ?b)" "set (applied_acks es) \<subseteq> fst ` set (b_sent ?b)"
    using confs_acks[OF assms] applied_subset by blast+
  have n: "map (\<lambda>k. fst ((b_sent ?b @ [c]) ! k)) ks = map (\<lambda>k. fst (b_sent ?b ! k)) ks"
    using confs_below[OF assms] by (simp add: nth_append)
  obtain m where m: "m \<le> length (b_sent ?b)" "b_configure_list ?b = drop m (b_sent ?b)" "\<forall>k \<in> set ks. k < m"
    using assms by (auto simp: confs_def Let_def)
  then have "\<exists>m \<le> length (b_sent ?b @ [c]). b_configure_list ?b @ [c] = drop m (b_sent ?b @ [c]) \<and> (\<forall>k \<in> set ks. k < m)"
    by (intro exI[of _ m]) simp
  with assms p[OF a(1)] p[OF a(2)] n show ?thesis
    by (simp add: confs_def c applied_snoc Let_def)
qed

lemma confs_ack:
  assumes "confs es ks s" "xdg_surface_handle_ack_configure serial (xs_base s) = Inr b"
    and "distinct (map fst (b_sent (xs_base s)))"
  shows "\<exists>k. confs (es @ [Ack serial]) (ks @ [k]) (s\<lparr>xs_base := b\<rparr>)"
proof -
  let ?sent = "b_sent (xs_base s)"
  obtain m where m: "m \<le> length ?sent" "b_configure_list (xs_base s) = drop m ?sent" "\<forall>k \<in> set ks. k < m"
    using assms(1) by (auto simp: confs_def Let_def)
  obtain c later where d: "dropWhile (\<lambda>c. fst c \<noteq> serial) (drop m ?sent) = c # later"
    "b = (xs_base s)\<lparr>b_pending := handle_xdg_toplevel_ack_configure (snd c) (b_pending (xs_base s)),
            b_configured := True, b_configure_list := later\<rparr>"
    using assms(2) m(2) by (auto simp: xdg_surface_handle_ack_configure_def split: list.splits)
  define k where "k = m + length (takeWhile (\<lambda>c. fst c \<noteq> serial) (drop m ?sent))"
  have "drop k ?sent = c # later"
    using d(1) by (simp add: k_def dropWhile_eq_drop add.commute)
  then have k: "k < length ?sent" "?sent ! k = c" "drop (Suc k) ?sent = later"
    by (metis drop_all list.distinct(1) not_le, metis hd_drop_conv_nth drop_all list.distinct(1) list.sel(1) not_le,
        metis drop_Suc list.sel(3) tl_drop)
  have f: "fst c = serial" using d(1) by (metis (mono_tags, lifting) dropWhile_eq_Cons_conv)
  have "map_of ?sent serial = Some (snd c)"
    using assms(3) k f by (metis map_of_eq_Some_iff nth_mem prod.collapse)
  then have p: "acked_part ?sent (acks es @ [serial]) = configure_part (snd c)"
    by (simp add: acked_part_def)
  have "m \<le> k" by (simp add: k_def)
  then have "sorted_wrt (<) (ks @ [k])" "\<forall>j \<in> set (ks @ [k]). j < Suc k"
    using m(3) assms(1) by (auto simp: confs_def sorted_wrt_append Let_def intro: less_le_trans less_SucI)
  then have "confs (es @ [Ack serial]) (ks @ [k]) (s\<lparr>xs_base := b\<rparr>)"
    using assms(1) k f p unfolding confs_def
    by (auto simp: d(2) applied_snoc Let_def intro!: exI[of _ "Suc k"])
  then show ?thesis by blast
qed

lemma confs_commit:
  assumes "confs es ks s" "surface_handle_commit cfg cd s = Inr s'"
  shows "confs (es @ [Commit cd]) ks s'"
proof -
  obtain s1 where c: "calm s s1" "calm (move_states cd s1) s'"
    using commit_effect[OF assms(2)] by (metis steps_def)
  have "confs (es @ [OtherSerial]) ks s1" using confs_calm[OF assms(1) c(1), of OtherSerial] by simp
  then have "confs (es @ [Commit cd]) ks (move_states cd s1)"
    by (simp add: confs_def applied_snoc Let_def)
  then have "confs ((es @ [Commit cd]) @ [OtherSerial]) ks s'"
    by (rule confs_calm[OF _ c(2)]) simp_all
  moreover have "applied_acks (es @ [Commit cd, OtherSerial]) = acks es"
    using applied_snoc[of "es @ [Commit cd]" OtherSerial] by (simp add: applied_snoc)
  ultimately show ?thesis by (simp add: confs_def applied_snoc Let_def)
qed

lemma see_states_confs [simp]:
  "confs es ks (see_states s) = confs es ks s" "numbered s0 N (see_states s) = numbered s0 N s"
  "confs es ks (upd_toplevel f s) = confs es ks s" "numbered s0 N (upd_toplevel f s) = numbered s0 N s"
  by (simp_all add: see_states_def upd_toplevel_def confs_def numbered_def)

lemma confs_limits:
  assumes "confs es ks s" "state_part st = state_part (b_pending (xs_base s))" "acks [e] = []" "\<not> is_commit e"
  shows "confs (es @ [e]) ks (s\<lparr>xs_base := (xs_base s)\<lparr>b_pending := st\<rparr>\<rparr>)"
  using assms by (simp add: confs_def applied_snoc Let_def)

lemma pending_numbered:
  "numbered s0 N (s\<lparr>xs_base := (xs_base s)\<lparr>b_pending := st\<rparr>\<rparr>) = numbered s0 N s"
  by (simp add: numbered_def)

text \<open>Every event takes at most three serials.\<close>

lemma step_numbered:
  assumes "xdg_step cfg e s = Inr s'" "numbered s0 N s"
  shows "numbered s0 (N + 3) s'"
proof -
  have h: "numbered s0 (N + 3) s'" if "run_handler h v = Inr s'" "numbered s0 N v" for h v
    using handler_numbered[OF that] numbered_mono by fastforce
  have hr: "numbered s0 (N + 3) s'" if "request cfg ev v = Inr s'" "numbered s0 N v" for ev v
    using h that unfolding request_def by blast
  show ?thesis
  proof (cases e)
    case (Commit cd)
    then obtain s1 where st: "steps 1 s s1" "steps 2 (move_states cd s1) s'"
      using assms(1) commit_effect by (metis xdg_step.simps(1))
    then have "numbered s0 (N + 1) s1" using assms(2) by (simp add: steps_def)
    then have "numbered s0 (N + 1) (move_states cd s1)"
      by (rule numbered_cong) (simp_all add: move_states_def see_states_def upd_toplevel_def Let_def)
    then have "numbered s0 (N + 1 + 2) s'" using st(2) unfolding steps_def by blast
    then show ?thesis by (simp add: numeral_eq_Suc)
  next
    case (Ack serial)
    then obtain b where b: "xdg_surface_handle_ack_configure serial (xs_base s) = Inr b" "s' = see_states (s\<lparr>xs_base := b\<rparr>)"
      using assms(1) by (auto split: sum.splits)
    have "numbered s0 N (s\<lparr>xs_base := b\<rparr>)"
      using b(1) by (intro numbered_cong[OF assms(2)])
        (auto simp: xdg_surface_handle_ack_configure_def split: list.splits)
    then show ?thesis using b(2) numbered_mono by simp
  next
    case SendIdle
    then show ?thesis
      using assms send_numbered numbered_mono[of s0 N _ "N + 3"] by (auto split: if_splits)
  next
    case OtherSerial
    then show ?thesis
      using assms tick_numbered[OF assms(2)] numbered_mono[of s0 "Suc N" s' "N + 3"] by auto
  next
    case (HostEvent env r ev)
    then show ?thesis
      using assms h numbered_mono[of s0 N s "N + 3"] by (auto simp del: win_step.simps split: if_splits)
  next
    case (Activate on)
    then show ?thesis
      using assms h numbered_mono[of s0 N s "N + 3"] by (auto split: if_splits)
  next
    case (RequestMaximized on)
    then show ?thesis using assms hr[OF _ see_states_confs(4)[THEN iffD2]] by simp
  next
    case (RequestFullscreen on)
    then show ?thesis using assms hr[OF _ see_states_confs(4)[THEN iffD2]] by simp
  next
    case RequestMinimized
    then show ?thesis using assms hr by simp
  next
    case (RequestDecoration d)
    then show ?thesis using assms hr by simp
  next
    case (MinSize w h)
    then show ?thesis using assms pending_numbered numbered_mono[of s0 N s "N + 3"] by auto
  next
    case (MaxSize w h)
    then show ?thesis using assms pending_numbered numbered_mono[of s0 N s "N + 3"] by auto
  next
    case (Describe t a p)
    then show ?thesis using assms numbered_mono[of s0 N s "N + 3"] by auto
  qed
qed

lemma step_confs:
  assumes "xdg_step cfg e s = Inr s'" "confs es ks s" "distinct (map fst (b_sent (xs_base s)))"
  shows "\<exists>ks'. confs (es @ [e]) ks' s'"
proof -
  have h: "\<exists>ks'. confs (es @ [e]) ks' s'"
    if "run_handler h v = Inr s'" "confs es ks v" "acks [e] = []" "\<not> is_commit e" for h v
    using confs_calm[OF that(2) handler_calm[OF that(1)] that(3,4)] by blast
  have hr: "\<exists>ks'. confs (es @ [e]) ks' s'"
    if "request cfg ev (upd_toplevel f s) = Inr s'" "acks [e] = []" "\<not> is_commit e" for ev f
    using h[OF _ _ that(2,3)] that(1) assms(2) unfolding request_def by fastforce
  show ?thesis
  proof (cases e)
    case (Commit cd)
    then show ?thesis using assms(1) confs_commit[OF assms(2)] by auto
  next
    case (Ack serial)
    then obtain b where b: "xdg_surface_handle_ack_configure serial (xs_base s) = Inr b" "s' = see_states (s\<lparr>xs_base := b\<rparr>)"
      using assms(1) by (auto split: sum.splits)
    obtain k where "confs (es @ [Ack serial]) (ks @ [k]) (s\<lparr>xs_base := b\<rparr>)"
      using confs_ack[OF assms(2) b(1) assms(3)] by blast
    then show ?thesis using Ack b(2) by auto
  next
    case SendIdle
    then show ?thesis
      using assms(1) confs_send[OF assms(2)] confs_calm[OF assms(2) calm_refl, of SendIdle] by (auto split: if_splits)
  next
    case OtherSerial
    then have "calm s s'" using assms(1) by (auto simp: calm_def)
    then show ?thesis using OtherSerial confs_calm[OF assms(2), of s' OtherSerial] by auto
  next
    case (HostEvent env r ev)
    then show ?thesis
      using assms(1,2) h confs_calm[OF assms(2) calm_refl, of e] by (auto simp del: win_step.simps split: if_splits)
  next
    case (Activate on)
    then show ?thesis
      using assms(1,2) h confs_calm[OF assms(2) calm_refl, of e] by (auto split: if_splits)
  next
    case (RequestMaximized on)
    then show ?thesis using assms(1) hr by simp
  next
    case (RequestFullscreen on)
    then show ?thesis using assms(1) hr by simp
  next
    case RequestMinimized
    then show ?thesis using assms(1) hr[of EvRequestMinimize "\<lambda>t. t"] by (simp add: upd_toplevel_def)
  next
    case (RequestDecoration d)
    then show ?thesis using assms(1) hr[of "EvDecoration d" "\<lambda>t. t"] by (simp add: upd_toplevel_def)
  next
    case (MinSize w h)
    have "confs (es @ [e]) ks (s\<lparr>xs_base := (xs_base s)\<lparr>b_pending := (b_pending (xs_base s))\<lparr>st_min_width := w, st_min_height := h\<rparr>\<rparr>\<rparr>)"
      by (rule confs_limits[OF assms(2)]) (simp_all add: state_part_def MinSize)
    then show ?thesis using MinSize assms(1) by auto
  next
    case (MaxSize w h)
    have "confs (es @ [e]) ks (s\<lparr>xs_base := (xs_base s)\<lparr>b_pending := (b_pending (xs_base s))\<lparr>st_max_width := w, st_max_height := h\<rparr>\<rparr>\<rparr>)"
      by (rule confs_limits[OF assms(2)]) (simp_all add: state_part_def MaxSize)
    then show ?thesis using MaxSize assms(1) by auto
  next
    case (Describe t a p)
    then show ?thesis using assms(1) confs_calm[OF assms(2) calm_refl, of e] by auto
  qed
qed

lemma exec_snoc:
  "xdg_exec cfg (es @ [e]) s = (case xdg_exec cfg es s of Inl f \<Rightarrow> Inl f | Inr s1 \<Rightarrow> xdg_step cfg e s1)"
  by (induction es arbitrary: s) (auto split: sum.split)

lemma exec_confs:
  assumes "xdg_exec cfg es (new_session version serial i tree) = Inr s" "length es < 2 ^ 30"
  shows "numbered serial (3 * length es) s \<and> (\<exists>ks. confs es ks s)"
  using assms
proof (induction es arbitrary: s rule: rev_induct)
  case Nil
  then have s: "s = new_session version serial i tree" by simp
  have "numbered serial 0 s"
    by (simp add: s numbered_def new_session_def create_xdg_toplevel_def)
  moreover have "confs [] [] s"
    by (simp add: s confs_def new_session_def create_xdg_toplevel_def applied_acks_def acked_part_def)
  ultimately show ?case by auto
next
  case (snoc e es)
  then obtain s1 where s1: "xdg_exec cfg es (new_session version serial i tree) = Inr s1" "xdg_step cfg e s1 = Inr s"
    by (auto simp: exec_snoc split: sum.splits)
  with snoc obtain ks where k: "numbered serial (3 * length es) s1" "confs es ks s1" by auto
  have "3 * length es < 2 ^ 32" using snoc.prems(2) by simp
  then have "distinct (map fst (b_sent (xs_base s1)))" by (rule numbered_distinct[OF k(1)])
  then show ?case
    using step_numbered[OF s1(2) k(1)] step_confs[OF s1(2) k(2)] by (simp add: add.commute)
qed

text \<open>
  C6 (refinement). The states of a toplevel are those the compositor sent and the client
  acknowledged: the acknowledgements of a run name distinct configures, in the order in which they
  were sent; the pending state is the content of the last one named, the current state that of the
  last one named before the client's last commit. The 32 bit serials may wrap around.
\<close>

theorem states_follow_acknowledgements:
  assumes "xdg_exec cfg es (new_session version serial i tree) = Inr s" "length es < 2 ^ 30"
  shows "(\<exists>ks. sorted_wrt (<) ks \<and> set ks \<subseteq> {..<length (b_sent (xs_base s))}
        \<and> acks es = map (\<lambda>k. fst (b_sent (xs_base s) ! k)) ks)
      \<and> distinct (map fst (b_sent (xs_base s)))
      \<and> state_part (b_pending (xs_base s)) = acked_part (b_sent (xs_base s)) (acks es)
      \<and> state_part (b_current (xs_base s)) = acked_part (b_sent (xs_base s)) (applied_acks es)"
proof -
  obtain ks where k: "numbered serial (3 * length es) s" "confs es ks s"
    using exec_confs[OF assms] by blast
  have "set ks \<subseteq> {..<length (b_sent (xs_base s))}" using confs_below[OF k(2)] by auto
  moreover have "distinct (map fst (b_sent (xs_base s)))"
    using numbered_distinct[OF k(1)] assms(2) by simp
  ultimately show ?thesis using k(2) by (auto simp: confs_def Let_def)
qed

end
