(* ===== verification/Configure_Witnesses.thy ===== *)
theory Configure_Witnesses
  imports Configure_Acks Samples
begin

text \<open>The properties of the configure events on a window that is opened, hidden and asked for.\<close>

definition first_commit :: commit_data where
  "first_commit = \<lparr>cd_attach = NothingAttached, cd_geometry = Box 0 0 0 0, cd_size = (0, 0), cd_tree = None,
     cd_popups = [], cd_map_env = sample_env 1, cd_parent_win = None,
     cd_output = \<lparr>no_output = Some (7, 9), no_layout = (0, 0)\<rparr>, cd_env = sample_env 1\<rparr>"

definition shown_commit :: commit_data where
  "shown_commit = first_commit\<lparr>cd_attach := BufferAttached, cd_geometry := Box 0 0 400 300, cd_size := (400, 300),
     cd_tree := Some (SceneTree 0 True 0 0 [])\<rparr>"

definition null_commit :: commit_data where
  "null_commit = first_commit\<lparr>cd_attach := NullAttached\<rparr>"

abbreviation new_toplevel :: xdg_session where
  "new_toplevel \<equiv> new_session 5 0 1 (SceneTree 0 True 0 0 [])"

lemma configured_toplevel:
  "\<exists>s. xdg_exec (sample_cfg 1 False) [Commit first_commit, SendIdle, Ack 1] new_toplevel = Inr s
    \<and> b_configured (xs_base s) \<and> \<not> b_mapped (xs_base s) \<and> \<not> invalid_limits (b_pending (xs_base s))"
  by (simp add: new_session_def create_xdg_toplevel_def fresh_toplevel_def server_new_xdg_toplevel_def
      first_commit_def surface_handle_commit_def surface_finalize_pending_def xdg_surface_role_client_commit_def
      handle_xdg_toplevel_client_commit_def invalid_limits_def surface_commit_state_def
      xdg_surface_role_commit_def role_commit_flags_def run_handler_def move_states_def see_states_def upd_toplevel_def
      surface_commit_def sc_csd_margin_def sc_decoration_def sc_initial_configure_def sc_release_hold_def
      sc_fit_def sc_placement_def sc_hints_def wlx_apply_content_scale_ex_def emit_all_def scene_offset_def
      call_defs XDG_SHELL_VERSION_def wl_display_next_serial_def surface_send_configure_def
      send_xdg_toplevel_configure_def xdg_surface_handle_ack_configure_def handle_xdg_toplevel_ack_configure_def
      Let_def)

lemma commit_pending:
  "surface_handle_commit cfg cd s = Inr s' \<Longrightarrow> b_pending (xs_base s') = b_pending (xs_base s)"
  by (erule commit_effect) (simp add: steps_def calm_def)

lemma shown_toplevel:
  "\<exists>s. xdg_exec (sample_cfg 1 False) [Commit first_commit, SendIdle, Ack 1, Commit shown_commit] new_toplevel = Inr s
    \<and> b_mapped (xs_base s) \<and> session_ok s \<and> \<not> invalid_limits (b_pending (xs_base s))"
proof -
  let ?cfg = "sample_cfg 1 False"
  obtain s where s: "xdg_exec ?cfg [Commit first_commit, SendIdle, Ack 1] new_toplevel = Inr s"
      "b_configured (xs_base s)" "\<not> b_mapped (xs_base s)" "\<not> invalid_limits (b_pending (xs_base s))"
    using configured_toplevel by blast
  have c: "0 < content_scale ?cfg" by (simp add: sample_cfg_def)
  have ok: "session_ok s" using exec_ok[OF c new_session_ok(1) s(1)] .
  have a: "cd_attach shown_commit = BufferAttached" by (simp add: shown_commit_def)
  have r: "xdg_surface_role_client_commit (surface_finalize_pending (cd_attach shown_commit) (xs_base s)) = Inr ()"
    using s(2,4) by (simp add: a surface_finalize_pending_def xdg_surface_role_client_commit_def
        handle_xdg_toplevel_client_commit_def)
  obtain s' where s': "surface_handle_commit ?cfg shown_commit s = Inr s'" "session_ok s'" "b_mapped (xs_base s')"
    using visible_commit[OF c ok r] a by auto
  have "b_pending (xs_base s') = b_pending (xs_base s)" using s'(1) by (rule commit_pending)
  moreover have "xdg_exec ?cfg [Commit first_commit, SendIdle, Ack 1, Commit shown_commit] new_toplevel = Inr s'"
    using exec_snoc[of ?cfg "[Commit first_commit, SendIdle, Ack 1]" "Commit shown_commit" new_toplevel] s(1) s'(1)
    by (simp del: xdg_exec.simps)
  ultimately show ?thesis using s' s(4) by auto
qed

lemma configures_only_when_ready_witness:
  "xdg_exec (sample_cfg 1 False) [RequestMaximized True, Commit first_commit, SendIdle, Ack 1, Commit shown_commit,
      RequestMaximized True] new_toplevel \<noteq> Inl Assertion"
  by (rule configures_only_when_ready) (simp_all add: sample_cfg_def first_commit_def shown_commit_def)

lemma states_follow_acknowledgements_witness:
  "\<exists>s. xdg_exec (sample_cfg 1 False) [Commit first_commit, SendIdle, Ack 1, Commit shown_commit] new_toplevel = Inr s
    \<and> state_part (b_current (xs_base s)) = acked_part (b_sent (xs_base s)) [1]"
proof -
  obtain s where s: "xdg_exec (sample_cfg 1 False) [Commit first_commit, SendIdle, Ack 1, Commit shown_commit] new_toplevel = Inr s"
    using shown_toplevel by blast
  with states_follow_acknowledgements[OF s] show ?thesis by (simp add: applied_acks_def del: xdg_exec.simps)
qed

lemma hidden_toplevel:
  "\<exists>s s1. xdg_exec (sample_cfg 1 False) [Commit first_commit, SendIdle, Ack 1, Commit shown_commit] new_toplevel = Inr s
    \<and> b_mapped (xs_base s) \<and> xdg_step (sample_cfg 1 False) (Commit null_commit) s = Inr s1 \<and> hidden s1
    \<and> \<not> invalid_limits (b_pending (xs_base s1))"
proof -
  let ?cfg = "sample_cfg 1 False"
  obtain s where s: "xdg_exec ?cfg [Commit first_commit, SendIdle, Ack 1, Commit shown_commit] new_toplevel = Inr s"
      "b_mapped (xs_base s)" "session_ok s" "\<not> invalid_limits (b_pending (xs_base s))"
    using shown_toplevel by blast
  have r: "xdg_surface_role_client_commit (surface_finalize_pending NullAttached (xs_base s)) = Inr ()"
    using s(4) by (simp add: surface_finalize_pending_def xdg_surface_role_client_commit_def
        handle_xdg_toplevel_client_commit_def)
  obtain s1 where s1: "surface_handle_commit ?cfg null_commit s = Inr s1" "hidden s1"
    using hiding_commit[OF s(3) _ s(2) r, of null_commit ?cfg] by (auto simp: null_commit_def)
  then have "b_pending (xs_base s1) = b_pending (xs_base s)" using commit_pending by blast
  with s s1 show ?thesis by (auto simp del: xdg_exec.simps)
qed

lemma hidden_window_stays_hidden_witness:
  "\<exists>s s'. xdg_exec (sample_cfg 1 False) [Commit first_commit, SendIdle, Ack 1, Commit shown_commit] new_toplevel = Inr s
    \<and> b_mapped (xs_base s)
    \<and> xdg_exec (sample_cfg 1 False) [Commit null_commit, Commit first_commit, SendIdle] s = Inr s'
    \<and> \<not> b_mapped (xs_base s')"
proof -
  let ?cfg = "sample_cfg 1 False"
  obtain s s1 where s: "xdg_exec ?cfg [Commit first_commit, SendIdle, Ack 1, Commit shown_commit] new_toplevel = Inr s"
      "b_mapped (xs_base s)" "xdg_step ?cfg (Commit null_commit) s = Inr s1" "hidden s1"
      "\<not> invalid_limits (b_pending (xs_base s1))"
    using hidden_toplevel by blast
  have c: "0 < content_scale ?cfg" "cd_attach null_commit = NullAttached"
    by (simp_all add: sample_cfg_def null_commit_def)
  have r: "xdg_surface_role_client_commit (surface_finalize_pending (cd_attach first_commit) (xs_base s1)) = Inr ()"
    using s(4,5) by (simp add: first_commit_def surface_finalize_pending_def xdg_surface_role_client_commit_def
        handle_xdg_toplevel_client_commit_def hidden_def)
  obtain s2 where "surface_handle_commit ?cfg first_commit s1 = Inr s2"
    using visible_commit[OF c(1) hidden_ok[OF s(4)] r] s(4) by (metis hidden_def)
  obtain s' where s': "xdg_exec ?cfg [Commit null_commit, Commit first_commit, SendIdle] s = Inr s'"
    using s(3) \<open>surface_handle_commit ?cfg first_commit s1 = Inr s2\<close> by auto
  have "\<not> b_mapped (xs_base s')"
    using hidden_window_stays_hidden[OF c(1) s(1,2) c(2) s'] by simp
  with s(1,2) s' show ?thesis by blast
qed

lemma hidden_request_aborts_witness:
  "\<exists>s s1. xdg_exec (sample_cfg 1 False) [Commit first_commit, SendIdle, Ack 1, Commit shown_commit] new_toplevel = Inr s
    \<and> xdg_step (sample_cfg 1 False) (Commit null_commit) s = Inr s1
    \<and> xdg_step (sample_cfg 1 False) (RequestMaximized True) s1 = Inl Assertion"
proof -
  let ?cfg = "sample_cfg 1 False"
  obtain s s1 where s: "xdg_exec ?cfg [Commit first_commit, SendIdle, Ack 1, Commit shown_commit] new_toplevel = Inr s"
      "b_mapped (xs_base s)" "xdg_step ?cfg (Commit null_commit) s = Inr s1"
    using hidden_toplevel by blast
  have c: "0 < content_scale ?cfg" "cd_attach null_commit = NullAttached"
    by (simp_all add: sample_cfg_def null_commit_def)
  from hidden_request_aborts[OF c(1) s(1,2) c(2) s(3), of True 0] s(1,3) show ?thesis by blast
qed

end
