(* ===== verification/Spec2Isabelle.thy ===== *)
theory Spec2Isabelle
  imports Size_Witnesses Program_Witnesses Run_Witnesses Position_Witnesses Seat_Witnesses
    Configure_Witnesses
begin

text \<open>
  wl-x11: a rootless Wayland compositor for X11. Every Wayland toplevel becomes one X11 window of
  the host's desktop, every menu an override-redirect window. This library models the compositor's
  own code (\<open>src/src\<close>), its stress client (\<open>src/tools/resize-torture\<close>) and the parts of the vendored
  wlroots (\<open>src/subprojects/wlroots\<close>) that the project patches or rests on, and proves what keeps
  them correct. Numbers of the form C1, C2, ... name the properties in the order of their importance.

  \<^bold>\<open>How the program is put together.\<close>
  A client commits a surface (\<open>xdg.c\<close>), which may configure the client or resize its X window
  (\<open>output.c\<close>); the X server answers with \<open>ConfigureNotify\<close> events that the wlroots backend
  (\<open>backend/x11/output.c\<close>) turns into new output sizes; the commit listener of \<open>output.c\<close> hands these
  back to the client. \<open>x11.c\<close> is a second connection to the X server: window manager state, keyboard
  focus, selections, drag and drop, pointer events during a menu's grab. \<open>input.c\<close> finds the surface
  under the real X pointer and drives the seat; \<open>move_resize.c\<close> starts interactive moves and resizes
  that \<open>input.c\<close> carries on. \<open>clipboard.c\<close> and \<open>dnd.c\<close> translate selections and drags in both
  directions; \<open>subpresent.c\<close> gives subsurfaces that stick out of their window a window of their own.
  \<open>main.c\<close> reads the options, sets everything up, launches a command, stops with the last client and
  tears everything down.

  \<^bold>\<open>State.\<close>
  \<open>wlx_window\<close> is \<open>struct wlx_window\<close> with the toplevel, output and scene it points to; calls into
  wlroots and X11 requests are appended to a log in it. \<open>desk\<close> is the part of \<open>struct wlx_server\<close>
  that several windows share (lists of windows, popups and promoted subsurfaces with their head first,
  focus, grab flags) with the seat and the surfaces; \<open>drag_state\<close>, \<open>clip_state\<close> and \<open>dnd_state\<close> hold
  the fields of their components, and \<open>input_state\<close> puts them together. Windows, popups and surfaces
  are named by numbers, so that a pointer to a freed object is a number that names nothing. Replies
  of the X server and results of allocators, of the renderer and of the scene graph's hit test
  come from environment records that every operation takes as an argument and
  that may differ from call to call.

  \<^bold>\<open>Theories, in the order of their imports.\<close>
  \<^item> \<open>Prelude\<close>: C numbers (\<open>double\<close> products, \<open>lround\<close>, casts), first-match search, frames: the contract of
    operations that keep an invariant, as a locale. \<open>Wlx_Types\<close>: windows, toplevels, outputs, scene
    nodes, the X and wlroots calls. \<open>Boxes\<close>: rectangles and output transforms (\<open>util/box.c\<close>,
    \<open>util/transform.c\<close>). \<open>Positioner\<close>: where a client asks its menu to be and how that is fitted into an
    area (\<open>types/xdg_shell/wlr_xdg_positioner.c\<close>), against a one-dimensional reference.
  \<^item> \<open>Scale\<close>, \<open>Scene\<close>: \<open>wlx_scale_size\<close> and its inverse with their contract as a locale; the content
    scale of a scene tree (\<open>output.c\<close>). Scaling is idempotent up to a pixel and does not drift.
  \<^item> \<open>X11_Output\<close>: mode, commit and \<open>ConfigureNotify\<close> of the X11 backend. \<open>X11_Buffers\<close>: pixmaps of
    presented buffers and reference counts. \<open>Present_Window\<close>: the windows of menus. \<open>X11_Props\<close>: window
    properties and queries (\<open>x11.c\<close>). \<open>X11_Windows\<close>: which toplevel an X id belongs to.
  \<^item> \<open>Sizing\<close>, \<open>Host_State\<close>, \<open>Surface_Commit\<close>, \<open>Window_Life\<close>: the sizing primitives (\<open>output.c\<close>), the
    window manager's state (\<open>x11.c\<close>, \<open>move_resize.c\<close>), the commit handler (\<open>xdg.c\<close>), creation, mapping,
    reparenting and the end of a window.
  \<^item> \<open>Window_Steps\<close>, \<open>Size_Policy\<close>: the steps of one window as a relation with its invariant, and the
    size policy: who owns the size, fits, no oscillation, settling. \<open>Activation\<close>: what the steps tell
    the client about being active. \<open>Xdg_Configure\<close>: the configure events of a toplevel, their
    acknowledgements and the commits of the client (\<open>types/xdg_shell/wlr_xdg_surface.c\<close>,
    \<open>wlr_xdg_toplevel.c\<close>), which the handlers of \<open>Window_Steps\<close> call into. \<open>Configure_Calls\<close>: the calls each
    handler makes. \<open>Configure_Runs\<close>: wlroots' assertions along all runs, and windows that were hidden.
    \<open>Configure_Acks\<close>: which contents come into force.
  \<^item> \<open>Drag\<close>: interactive moves and resizes. \<open>Text_Buffer\<close>, \<open>Clipboard\<close>: the readers' growing buffers
    with their contract as a locale, both selections in both directions. \<open>Dnd\<close>, \<open>Dnd_Transfer\<close>: the
    drag and drop protocol and the transfer of the text.
  \<^item> \<open>Seat_Pointer\<close>: focus, held buttons and grabs of the seat. \<open>Desk\<close>: the shared state and the hit
    tests with their contract as a locale. \<open>Pointer_Focus\<close>: the surface under the pointer, the active
    window. \<open>Popups\<close>: menus. \<open>Popup_Position\<close>: their creation and repositioning, and where they end
    up on the desktop. \<open>Output_Layout\<close>: the layout of the monitors and the part of the scene each of them
    shows (\<open>types/wlr_output_layout.c\<close>, \<open>types/scene/output_layout.c\<close>). \<open>Subpresent\<close>: promoted
    subsurfaces, with the map of what is promoted under which window as their specification.
  \<^item> \<open>Input\<close>, \<open>Server\<close>: pointer handlers on both event paths, dispatch of X events, the life of a
    toplevel in the whole state. \<open>Focus_Invariant\<close>, \<open>Server_Runs\<close>: references and activation along all
    runs of the event loop. \<open>Held_Buttons\<close>: the seat's buttons against the user's. \<open>Event_Returns\<close>:
    termination of the handlers.
  \<^item> \<open>Serials\<close>: the serials a client was sent (\<open>types/seat/wlr_seat.c\<close>), against their unbounded
    history. \<open>Selection_Order\<close>: who owns the seat's selections (\<open>types/data_device/wlr_data_device.c\<close>, \<open>types/wlr_primary_selection.c\<close>).
    \<open>Scroll\<close>: scrolling, from the wheel to the messages of each pointer object. \<open>X11_Input\<close>: the backend's
    input events, their outputs and the ids of touches (\<open>backend/x11/input_device.c\<close>).
  \<^item> \<open>Main_Program\<close>: options and the clients' bookkeeping. \<open>Main_Run\<close>: start-up, launch and tear-down as
    a sequence of steps that fail where an assertion of wlroots would. \<open>Torture\<close>: the phase machine of the stress
    client.
  \<^item> \<open>Samples\<close>, \<open>Size_Witnesses\<close>, \<open>Bridge_Witnesses\<close>, \<open>Program_Witnesses\<close>, \<open>Desk_Witnesses\<close>,
    \<open>Run_Witnesses\<close>, \<open>Position_Witnesses\<close>, \<open>Seat_Witnesses\<close>, \<open>Configure_Witnesses\<close>: the properties at concrete inputs.

  \<^bold>\<open>What the properties show.\<close>
  Sizes: a host that owns the size keeps it, a client's new size reaches the host window and a host's
  size the client, two sizes do not alternate within the oscillation window, a compliant client settles.
  Configures: they are scheduled only on surfaces that are ready for them unless the client hides its
  window, and what comes into force is what the client acknowledged, in the order of sending.
  Menus: their boxes are those of their windows, the newest one under the pointer is hit, the grab lasts
  as long as a menu; a menu is fitted into the area along each axis by itself and is never empty. Focus:
  one window is active, and references to windows, but for those of orphaned menus, name windows that
  exist. Input: the seat counts the buttons the user holds, a click of the wheel is one step for the
  client, serials are told from forged ones, touches keep their ids. Monitors do not overlap. Buffers:
  what the X server reads is alive, but after a present that found no memory. Drags and selections: the
  window follows the pointer, what the bridge has read of a text is what it serves, requests are answered,
  the newest selection wins. The process shuts down in order while its X server stays. Each property
  states the conditions it needs; where the program misses one, a property or lemma beside it shows what
  happens then: a hang-up before the end of a text (\<open>hangup_drops_pending_data\<close>), a drag of more turns than
  the loop has (\<open>long_drag_truncated\<close>), a second drag (\<open>new_drag_forgets_target\<close>), a menu outliving its
  window (\<open>window_gone_before_its_menu\<close>), a refused buffer (\<open>refused_buffer_desyncs\<close>), a present without
  memory (\<open>failed_damage_forgets_presents\<close>), a scaled buffer (\<open>scaled_buffer_menu_overshoots\<close>), a
  button held while the focus moves (\<open>focus_in_forgets\<close>), a low edge dragged past the minimum
  (\<open>clamped_left_edge_slides\<close>), a lost connection (\<open>lost_connection_aborts\<close>).

  \<^bold>\<open>Bounds, fuel and loops.\<close>
  The refinement of the acknowledgements is for runs of fewer than \<open>2^30\<close> events, in which no two
  configures have the same 32 bit serial.
  The read loop of a drag runs at most 100 turns and the descent under the pointer at most 16 levels,
  as in the code: these are the program's own bounds and not fuel. A turn of the read loop in which
  nothing came runs the event loop; its result carries the events that are handled there. The runs
  of \<open>Server_Runs\<close> end where a window has been destroyed before a menu of it, since the program then
  holds a pointer to freed memory. Loops that need not end are
  partial functions into options, where \<open>None\<close> is no return: \<open>grow_cap\<close> (doubling a capacity, which ends
  for every size the program passes), \<open>window_above\<close> and \<open>dnd_climb\<close> (walking up the X window tree, which
  end where the tree is one), \<open>find_toplevel_from\<close> and \<open>wlr_xdg_popup_get_toplevel_coords\<close>
  (walking up the popups' parents, which end
  since a parent is older). Termination is proved under these conditions, for the walks and for every
  handler of pointer, menu and X events that calls them.

  \<^bold>\<open>Not modelled.\<close>
  Drawing and cursor images, since success and the sizes are all the program reads back; what becomes
  of key and touch events behind the backend, which the program passes on unchanged; the scene graph's
  hit test, which is an answer of the environment; the protocol objects of data sources and offers;
  \<open>wlx_dismiss_all_popups\<close>, which nothing calls; the rest of wlroots.
  \<open>double\<close> is modelled by rationals rounded to 53 bits, without infinities, NaN and subnormals, except
  for the option parser, where NaN is a value of its own. Memory of the C objects is not modelled
  beyond what the reference counts, the text buffers and the lists show.
\<close>

end
